(* ===== verification/Prelude.thy ===== *)
theory Prelude
  imports Main "HOL-Library.AList"
begin

text \<open>
  Shared vocabulary of the development. Three groups:
  \<^item> the machine integers of the runtime, \<open>u128\<close> balances and \<open>u32\<close> block numbers and counters,
    as naturals with Rust's saturating, checked and wrapping operations written out;
  \<^item> the programs of the runtime: a state-passing function that returns \<open>Ok\<close> or an error together
    with the state it leaves behind, so that a call whose error is ignored keeps what it had already
    written, and a \<^verbatim>\<open>#[transactional]\<close> call or a dispatched extrinsic rolls it back;
  \<^item> the storage maps of a pallet that the code iterates over, as association lists in the order
    of the hashed keys.
  Each group comes with the simplification rules the component theories use, in the collections
  \<open>prog_simps\<close> (when does a program succeed), \<open>prog_defs\<close> (evaluation of a program) and
  \<open>keeps_rules\<close> (which programs keep a state predicate).
\<close>

named_theorems prog_simps
named_theorems prog_elims
named_theorems prog_defs
named_theorems keeps_rules
named_theorems u_defs

section \<open>Machine integers\<close>

definition u128_max :: nat where
  "u128_max = 2 ^ 128 - 1"

definition u32_max :: nat where
  "u32_max = 2 ^ 32 - 1"

definition saturating_add :: "nat \<Rightarrow> nat \<Rightarrow> nat" where
  "saturating_add a b = min u128_max (a + b)"

definition saturating_sub :: "nat \<Rightarrow> nat \<Rightarrow> nat" where
  "saturating_sub a b = (if a < b then 0 else a - b)"

definition checked_add :: "nat \<Rightarrow> nat \<Rightarrow> nat option" where
  "checked_add a b = (if a + b \<le> u128_max then Some (a + b) else None)"

definition checked_sub :: "nat \<Rightarrow> nat \<Rightarrow> nat option" where
  "checked_sub a b = (if b \<le> a then Some (a - b) else None)"

definition checked_mul :: "nat \<Rightarrow> nat \<Rightarrow> nat option" where
  "checked_mul a b = (if a * b \<le> u128_max then Some (a * b) else None)"

definition checked_div :: "nat \<Rightarrow> nat \<Rightarrow> nat option" where
  "checked_div a b = (if b = 0 then None else Some (a div b))"

definition checked_pow :: "nat \<Rightarrow> nat \<Rightarrow> nat option" where
  "checked_pow a n = (if a ^ n \<le> u128_max then Some (a ^ n) else None)"

definition saturating_pow :: "nat \<Rightarrow> nat \<Rightarrow> nat" where
  "saturating_pow a n = min u128_max (a ^ n)"

definition wrapping_add :: "nat \<Rightarrow> nat \<Rightarrow> nat" where
  "wrapping_add a b = (a + b) mod 2 ^ 128"

definition saturating_add_u32 :: "nat \<Rightarrow> nat \<Rightarrow> nat" where
  "saturating_add_u32 a b = min u32_max (a + b)"

definition wrapping_add_u32 :: "nat \<Rightarrow> nat \<Rightarrow> nat" where
  "wrapping_add_u32 a b = (a + b) mod 2 ^ 32"

definition wrapping_sub_u32 :: "nat \<Rightarrow> nat \<Rightarrow> nat" where
  "wrapping_sub_u32 a b = (a + (2 ^ 32 - b mod 2 ^ 32)) mod 2 ^ 32"

text \<open>The conversion \<^verbatim>\<open>as u32\<close>.\<close>

definition as_u32 :: "nat \<Rightarrow> nat" where
  "as_u32 n = n mod 2 ^ 32"

lemmas u_arith_defs [u_defs] =
  u128_max_def u32_max_def saturating_add_def saturating_sub_def checked_add_def checked_sub_def
  checked_mul_def checked_div_def checked_pow_def saturating_pow_def wrapping_add_def
  saturating_add_u32_def wrapping_add_u32_def

lemma saturating_sub_eq [simp]: "saturating_sub a b = a - b"
  by (simp add: saturating_sub_def)

lemma saturating_add_bound [simp]: "saturating_add a b \<le> u128_max"
  by (simp add: saturating_add_def)

lemma saturating_add_0 [simp]:
  "a \<le> u128_max \<Longrightarrow> saturating_add a 0 = a"
  "a \<le> u128_max \<Longrightarrow> saturating_add 0 a = a"
  by (simp_all add: saturating_add_def min_def)

lemma saturating_add_eq_0 [simp]: "saturating_add a b = 0 \<longleftrightarrow> a = 0 \<and> b = 0"
  by (auto simp: saturating_add_def u128_max_def min_def split: if_splits)

lemma saturating_add_pos [simp]: "0 < saturating_add a b \<longleftrightarrow> 0 < a \<or> 0 < b"
  using saturating_add_eq_0 [of a b] by linarith

lemma saturating_add_exact: "a + b \<le> u128_max \<Longrightarrow> saturating_add a b = a + b"
  by (simp add: saturating_add_def min_def)

lemma saturating_add_le: "saturating_add a b \<le> a + b"
  by (simp add: saturating_add_def)

lemma saturating_add_commute: "saturating_add a b = saturating_add b a"
  by (simp add: saturating_add_def add.commute)

lemma saturating_add_assoc:
  "saturating_add (saturating_add a b) c = saturating_add a (saturating_add b c)"
  by (simp add: saturating_add_def min_def)

lemma checked_mul_Some: "checked_mul a b = Some c \<longleftrightarrow> c = a * b \<and> a * b \<le> u128_max"
  by (auto simp: checked_mul_def)

lemma checked_sub_Some: "checked_sub a b = Some c \<longleftrightarrow> b \<le> a \<and> c = a - b"
  by (auto simp: checked_sub_def)

lemma checked_add_Some: "checked_add a b = Some c \<longleftrightarrow> c = a + b \<and> a + b \<le> u128_max"
  by (auto simp: checked_add_def)

text \<open>The saturating sum of a list, and its relation to the exact sum.\<close>

definition saturating_sum :: "nat list \<Rightarrow> nat" where
  "saturating_sum xs = foldl saturating_add 0 xs"

lemma foldl_saturating_add:
  "a \<le> u128_max \<Longrightarrow> foldl saturating_add a xs = min u128_max (a + sum_list xs)"
proof (induction xs arbitrary: a)
  case Nil
  then show ?case by (simp add: min_def)
next
  case (Cons x xs)
  have "foldl saturating_add a (x # xs) = min u128_max (saturating_add a x + sum_list xs)"
    using Cons.IH [of "saturating_add a x"] by simp
  also have "\<dots> = min u128_max (a + sum_list (x # xs))"
    by (simp add: saturating_add_def min_def)
  finally show ?case .
qed

lemma saturating_sum_eq: "saturating_sum xs = min u128_max (sum_list xs)"
  by (simp add: saturating_sum_def foldl_saturating_add)

lemma saturating_sum_0 [simp]: "saturating_sum xs = 0 \<longleftrightarrow> (\<forall>x\<in>set xs. x = 0)"
proof -
  have "min u128_max n = 0 \<longleftrightarrow> n = 0" for n
    by (simp add: u128_max_def min_def)
  then show ?thesis by (simp add: saturating_sum_eq)
qed

section \<open>Programs\<close>

type_synonym ('s, 'e, 'a) prog = "'s \<Rightarrow> ('e + 'a) \<times> 's"

definition ok :: "'a \<Rightarrow> ('s, 'e, 'a) prog" where
  "ok a s = (Inr a, s)"

definition err :: "'e \<Rightarrow> ('s, 'e, 'a) prog" where
  "err e s = (Inl e, s)"

definition sbind :: "('s, 'e, 'a) prog \<Rightarrow> ('a \<Rightarrow> ('s, 'e, 'b) prog) \<Rightarrow> ('s, 'e, 'b) prog" where
  "sbind m f s = (case m s of (Inl e, t) \<Rightarrow> (Inl e, t) | (Inr a, t) \<Rightarrow> f a t)"

definition seq :: "('s, 'e, unit) prog \<Rightarrow> ('s, 'e, 'b) prog \<Rightarrow> ('s, 'e, 'b) prog" where
  "seq m n = sbind m (\<lambda>_. n)"

definition gets :: "('s \<Rightarrow> 'a) \<Rightarrow> ('s, 'e, 'a) prog" where
  "gets f s = (Inr (f s), s)"

definition modify :: "('s \<Rightarrow> 's) \<Rightarrow> ('s, 'e, unit) prog" where
  "modify f s = (Inr (), f s)"

definition ensure :: "bool \<Rightarrow> 'e \<Rightarrow> ('s, 'e, unit) prog" where
  "ensure b e s = ((if b then Inr () else Inl e), s)"

definition ok_or :: "'a option \<Rightarrow> 'e \<Rightarrow> ('s, 'e, 'a) prog" where
  "ok_or x e s = ((case x of None \<Rightarrow> Inl e | Some a \<Rightarrow> Inr a), s)"

definition of_result :: "'e + 'a \<Rightarrow> ('s, 'e, 'a) prog" where
  "of_result r s = (r, s)"

definition map_err :: "('e \<Rightarrow> 'f) \<Rightarrow> ('s, 'e, 'a) prog \<Rightarrow> ('s, 'f, 'a) prog" where
  "map_err f m s = (case m s of (Inl e, t) \<Rightarrow> (Inl (f e), t) | (Inr a, t) \<Rightarrow> (Inr a, t))"

text \<open>\<^verbatim>\<open>#[transactional]\<close> and the dispatch of an extrinsic: an error leaves the state as it was.\<close>

definition transactional :: "('s, 'e, 'a) prog \<Rightarrow> ('s, 'e, 'a) prog" where
  "transactional m s = (case m s of (Inl e, t) \<Rightarrow> (Inl e, s) | (Inr a, t) \<Rightarrow> (Inr a, t))"

text \<open>\<^verbatim>\<open>let _ = m;\<close>: the result is dropped, the state kept.\<close>

definition ignore_result :: "('s, 'e, 'a) prog \<Rightarrow> ('s, 'e, unit) prog" where
  "ignore_result m s = (Inr (), snd (m s))"

primrec for_each :: "'a list \<Rightarrow> ('a \<Rightarrow> ('s, 'e, unit) prog) \<Rightarrow> ('s, 'e, unit) prog" where
  "for_each [] f = ok ()"
| "for_each (x # xs) f = seq (f x) (for_each xs f)"

lemmas prog_eval [prog_defs] =
  ok_def err_def sbind_def seq_def gets_def modify_def ensure_def ok_or_def of_result_def
  map_err_def transactional_def ignore_result_def

lemma ok_Inr [prog_simps]: "ok a s = (Inr b, t) \<longleftrightarrow> b = a \<and> t = s"
  by (auto simp: ok_def)

lemma err_Inr [prog_simps]: "err e s = (Inr b, t) \<longleftrightarrow> False"
  by (simp add: err_def)

lemma sbind_Inr [prog_simps]:
  "sbind m f s = (Inr b, t) \<longleftrightarrow> (\<exists>a u. m s = (Inr a, u) \<and> f a u = (Inr b, t))"
  by (auto simp: sbind_def split: prod.splits sum.splits)

lemma seq_Inr [prog_simps]:
  "seq m n s = (Inr b, t) \<longleftrightarrow> (\<exists>u. m s = (Inr (), u) \<and> n u = (Inr b, t))"
  by (auto simp: seq_def sbind_Inr)

lemma gets_Inr [prog_simps]: "gets f s = (Inr b, t) \<longleftrightarrow> b = f s \<and> t = s"
  by (auto simp: gets_def)

lemma modify_Inr [prog_simps]: "modify f s = (Inr b, t) \<longleftrightarrow> t = f s"
  by (auto simp: modify_def)

lemma ensure_Inr [prog_simps]: "ensure c e s = (Inr b, t) \<longleftrightarrow> c \<and> t = s"
  by (auto simp: ensure_def)

lemma ok_or_Inr [prog_simps]: "ok_or x e s = (Inr b, t) \<longleftrightarrow> x = Some b \<and> t = s"
  by (auto simp: ok_or_def split: option.splits)

lemma of_result_Inr [prog_simps]: "of_result r s = (Inr b, t) \<longleftrightarrow> r = Inr b \<and> t = s"
  by (auto simp: of_result_def)

lemma map_err_Inr [prog_simps]: "map_err f m s = (Inr b, t) \<longleftrightarrow> m s = (Inr b, t)"
  by (auto simp: map_err_def split: prod.splits sum.splits)

lemma transactional_Inr [prog_simps]: "transactional m s = (Inr b, t) \<longleftrightarrow> m s = (Inr b, t)"
  by (auto simp: transactional_def split: prod.splits sum.splits)

lemma transactional_Inl: "transactional m s = (Inl e, t) \<Longrightarrow> t = s"
  by (auto simp: transactional_def split: prod.splits sum.splits)

lemma transactional_error: "fst (transactional m s) = Inl e \<Longrightarrow> snd (transactional m s) = s"
  by (auto simp: transactional_def split: prod.splits sum.splits)

lemma ignore_result_Inr [prog_simps]: "ignore_result m s = (Inr b, t) \<longleftrightarrow> t = snd (m s)"
  by (auto simp: ignore_result_def)

text \<open>The same as elimination rules, to take a successful run apart step by step.\<close>

lemma sbindE [prog_elims]:
  "sbind m f s = (Inr b, t) \<Longrightarrow> (\<And>a u. m s = (Inr a, u) \<Longrightarrow> f a u = (Inr b, t) \<Longrightarrow> P) \<Longrightarrow> P"
  by (auto simp: sbind_Inr)

lemma seqE [prog_elims]:
  "seq m n s = (Inr b, t) \<Longrightarrow> (\<And>u. m s = (Inr (), u) \<Longrightarrow> n u = (Inr b, t) \<Longrightarrow> P) \<Longrightarrow> P"
  by (auto simp: seq_Inr)

lemma okE [prog_elims]: "ok a s = (Inr b, t) \<Longrightarrow> (b = a \<Longrightarrow> t = s \<Longrightarrow> P) \<Longrightarrow> P"
  and errE [prog_elims]: "err e s = (Inr b, t) \<Longrightarrow> P"
  and getsE [prog_elims]: "gets g s = (Inr b, t) \<Longrightarrow> (b = g s \<Longrightarrow> t = s \<Longrightarrow> P) \<Longrightarrow> P"
  and modifyE [prog_elims]: "modify h s = (Inr u, t) \<Longrightarrow> (t = h s \<Longrightarrow> P) \<Longrightarrow> P"
  and ensureE [prog_elims]: "ensure c e s = (Inr u, t) \<Longrightarrow> (c \<Longrightarrow> t = s \<Longrightarrow> P) \<Longrightarrow> P"
  and ok_orE [prog_elims]: "ok_or x e s = (Inr b, t) \<Longrightarrow> (x = Some b \<Longrightarrow> t = s \<Longrightarrow> P) \<Longrightarrow> P"
  and of_resultE [prog_elims]: "of_result r s = (Inr b, t) \<Longrightarrow> (r = Inr b \<Longrightarrow> t = s \<Longrightarrow> P) \<Longrightarrow> P"
  and map_errE [prog_elims]: "map_err k m s = (Inr b, t) \<Longrightarrow> (m s = (Inr b, t) \<Longrightarrow> P) \<Longrightarrow> P"
  and transactionalE [prog_elims]: "transactional m s = (Inr b, t) \<Longrightarrow> (m s = (Inr b, t) \<Longrightarrow> P) \<Longrightarrow> P"
  by (auto simp: prog_simps)

text \<open>A program keeps a state predicate when it holds after the program, whatever its result.\<close>

definition keeps :: "('s \<Rightarrow> bool) \<Rightarrow> ('s, 'e, 'a) prog \<Rightarrow> bool" where
  "keeps P m \<longleftrightarrow> (\<forall>s. P s \<longrightarrow> P (snd (m s)))"

lemma keepsI: "(\<And>s. P s \<Longrightarrow> P (snd (m s))) \<Longrightarrow> keeps P m"
  by (simp add: keeps_def)

lemma keepsD: "keeps P m \<Longrightarrow> P s \<Longrightarrow> m s = (r, t) \<Longrightarrow> P t"
  by (metis keeps_def snd_conv)

lemma keepsD': "keeps P m \<Longrightarrow> P s \<Longrightarrow> P (snd (m s))"
  by (simp add: keeps_def)

lemma keeps_ok [keeps_rules]: "keeps P (ok a)"
  and keeps_err [keeps_rules]: "keeps P (err e)"
  and keeps_gets [keeps_rules]: "keeps P (gets f)"
  and keeps_ensure [keeps_rules]: "keeps P (ensure c e)"
  and keeps_ok_or [keeps_rules]: "keeps P (ok_or x e)"
  and keeps_of_result [keeps_rules]: "keeps P (of_result r)"
  by (simp_all add: keeps_def prog_defs)

lemma keeps_sbind [keeps_rules]:
  "keeps P m \<Longrightarrow> (\<And>a. keeps P (f a)) \<Longrightarrow> keeps P (sbind m f)"
  unfolding keeps_def sbind_def by (auto split: prod.splits sum.splits; metis snd_conv)

lemma keeps_seq [keeps_rules]: "keeps P m \<Longrightarrow> keeps P n \<Longrightarrow> keeps P (seq m n)"
  by (simp add: seq_def keeps_sbind)

lemma keeps_modify [keeps_rules]: "(\<And>s. P s \<Longrightarrow> P (f s)) \<Longrightarrow> keeps P (modify f)"
  by (simp add: keeps_def modify_def)

lemma keeps_map_err [keeps_rules]: "keeps P m \<Longrightarrow> keeps P (map_err f m)"
  unfolding keeps_def map_err_def by (auto split: prod.splits sum.splits; metis snd_conv)

lemma keeps_transactional [keeps_rules]: "keeps P m \<Longrightarrow> keeps P (transactional m)"
  unfolding keeps_def transactional_def by (auto split: prod.splits sum.splits; metis snd_conv)

lemma keeps_ignore_result [keeps_rules]: "keeps P m \<Longrightarrow> keeps P (ignore_result m)"
  by (simp add: keeps_def ignore_result_def)

lemma keeps_if [keeps_rules]:
  "(c \<Longrightarrow> keeps P m) \<Longrightarrow> (\<not> c \<Longrightarrow> keeps P n) \<Longrightarrow> keeps P (if c then m else n)"
  by simp

lemma keeps_option [keeps_rules]:
  "(x = None \<Longrightarrow> keeps P m) \<Longrightarrow> (\<And>a. x = Some a \<Longrightarrow> keeps P (f a)) \<Longrightarrow>
   keeps P (case x of None \<Rightarrow> m | Some a \<Rightarrow> f a)"
  by (cases x) auto

lemma keeps_case_prod [keeps_rules]: "(\<And>a b. x = (a, b) \<Longrightarrow> keeps P (f a b)) \<Longrightarrow> keeps P (case x of (a, b) \<Rightarrow> f a b)"
  by (cases x) simp

lemma keeps_for_each [keeps_rules]:
  "(\<And>x. x \<in> set xs \<Longrightarrow> keeps P (f x)) \<Longrightarrow> keeps P (for_each xs f)"
  by (induction xs) (auto intro: keeps_rules)

lemma map_filter_snoc [simp]:
  "List.map_filter f (xs @ [e]) = List.map_filter f xs @ (case f e of None \<Rightarrow> [] | Some d \<Rightarrow> [d])"
  by (cases "f e") (auto simp: map_filter_def)

section \<open>Iterable storage maps\<close>

text \<open>
  A storage map keeps its entries under the hash of their keys, and iteration visits them in the
  order of the hashes. The hash function \<open>h\<close> (\<^verbatim>\<open>Blake2_128Concat\<close>) is a parameter; overwriting a key
  keeps its place, a new key is placed by its hash.
\<close>

type_synonym ('k, 'v) nmap = "('k \<times> 'v) list"

definition nmap_get :: "('k, 'v) nmap \<Rightarrow> 'k \<Rightarrow> 'v option" where
  "nmap_get m k = map_of m k"

definition nmap_insert :: "('k \<Rightarrow> nat) \<Rightarrow> 'k \<Rightarrow> 'v \<Rightarrow> ('k, 'v) nmap \<Rightarrow> ('k, 'v) nmap" where
  "nmap_insert h k v m =
     (if map_of m k \<noteq> None then AList.update k v m
      else takeWhile (\<lambda>e. h (fst e) < h k) m @ (k, v) # dropWhile (\<lambda>e. h (fst e) < h k) m)"

definition nmap_remove :: "'k \<Rightarrow> ('k, 'v) nmap \<Rightarrow> ('k, 'v) nmap" where
  "nmap_remove k m = filter (\<lambda>e. fst e \<noteq> k) m"

definition nmap_wf :: "('k, 'v) nmap \<Rightarrow> bool" where
  "nmap_wf m \<longleftrightarrow> distinct (map fst m)"

lemma takeWhile_dropWhile_set: "set (takeWhile P m) \<union> set (dropWhile P m) = set m"
  by (metis set_append takeWhile_dropWhile_id)

lemma map_of_split:
  assumes "map_of m k = None"
  shows "map_of (takeWhile P m @ (k, v) # dropWhile P m) = (map_of m)(k \<mapsto> v)"
proof -
  have m: "map_of (dropWhile P m) ++ map_of (takeWhile P m) = map_of m"
    by (simp flip: map_of_append)
  with assms have "map_of (takeWhile P m) k = None" by (metis map_add_None)
  then have "(map_of (dropWhile P m))(k \<mapsto> v) ++ map_of (takeWhile P m) = (map_of m)(k \<mapsto> v)"
    by (auto simp: m [symmetric] map_add_def fun_eq_iff split: option.splits)
  then show ?thesis by simp
qed

lemma nmap_get_insert: "nmap_get (nmap_insert h k v m) k' = (if k' = k then Some v else nmap_get m k')"
  by (auto simp: nmap_get_def nmap_insert_def map_of_split update_conv' simp del: map_of_append)

lemma nmap_get_remove: "nmap_get (nmap_remove k m) k' = (if k' = k then None else nmap_get m k')"
  by (induction m) (auto simp: nmap_get_def nmap_remove_def)

lemma nmap_get_Nil [simp]: "nmap_get [] k = None"
  by (simp add: nmap_get_def)

lemma nmap_wf_Nil [simp]: "nmap_wf []"
  by (simp add: nmap_wf_def)

lemma nmap_wf_remove: "nmap_wf m \<Longrightarrow> nmap_wf (nmap_remove k m)"
  by (induction m) (auto simp: nmap_wf_def nmap_remove_def)

lemma nmap_wf_insert: "nmap_wf m \<Longrightarrow> nmap_wf (nmap_insert h k v m)"
proof (cases "map_of m k")
  case None
  assume wf: "nmap_wf m"
  let ?P = "\<lambda>e. h (fst e) < h k"
  have "distinct (map fst (takeWhile ?P m) @ map fst (dropWhile ?P m))"
    using wf unfolding nmap_wf_def map_append [symmetric] takeWhile_dropWhile_id .
  moreover have "k \<notin> fst ` set (takeWhile ?P m) \<union> fst ` set (dropWhile ?P m)"
    using None takeWhile_dropWhile_set [of ?P m]
    by (metis (no_types, lifting) image_Un map_of_eq_None_iff)
  ultimately show ?thesis using None by (auto simp: nmap_insert_def nmap_wf_def)
next
  case (Some a)
  assume "nmap_wf m"
  with Some show ?thesis by (simp add: nmap_insert_def nmap_wf_def distinct_update)
qed

lemma nmap_get_in_set: "nmap_wf m \<Longrightarrow> nmap_get m k = Some v \<longleftrightarrow> (k, v) \<in> set m"
  by (simp add: nmap_get_def nmap_wf_def)

text \<open>What a pallet relies on when it keeps its data in a storage map.\<close>

locale storage_map =
  fixes get :: "'m \<Rightarrow> 'k \<Rightarrow> 'v option"
    and insert_kv :: "'k \<Rightarrow> 'v \<Rightarrow> 'm \<Rightarrow> 'm"
    and remove_k :: "'k \<Rightarrow> 'm \<Rightarrow> 'm"
    and entries :: "'m \<Rightarrow> ('k \<times> 'v) list"
    and wf :: "'m \<Rightarrow> bool"
  assumes get_insert: "get (insert_kv k v m) k' = (if k' = k then Some v else get m k')"
    and get_remove: "get (remove_k k m) k' = (if k' = k then None else get m k')"
    and get_entries: "wf m \<Longrightarrow> get m k = Some v \<longleftrightarrow> (k, v) \<in> set (entries m)"
    and wf_insert: "wf m \<Longrightarrow> wf (insert_kv k v m)"
    and wf_remove: "wf m \<Longrightarrow> wf (remove_k k m)"
begin

lemma get_insert_same: "get (insert_kv k v m) k = Some v"
  by (simp add: get_insert)

lemma get_insert_other: "k' \<noteq> k \<Longrightarrow> get (insert_kv k v m) k' = get m k'"
  by (simp add: get_insert)

lemma entries_insert:
  "wf m \<Longrightarrow> set (entries (insert_kv k v m)) = insert (k, v) {e \<in> set (entries m). fst e \<noteq> k}"
  by (auto simp: wf_insert get_entries [symmetric] get_insert split: if_splits)

lemma entries_remove:
  "wf m \<Longrightarrow> set (entries (remove_k k m)) = {e \<in> set (entries m). fst e \<noteq> k}"
  by (auto simp: wf_remove get_entries [symmetric] get_remove split: if_splits)

lemma remove_insert: "get (remove_k k (insert_kv k v m)) = get (remove_k k m)"
  by (rule ext) (simp add: get_insert get_remove)

lemma all_entries_insert:
  "wf m \<Longrightarrow> \<forall>e\<in>set (entries m). P e \<Longrightarrow> P (k, v) \<Longrightarrow> \<forall>e\<in>set (entries (insert_kv k v m)). P e"
  by (auto simp: entries_insert)

lemma all_entries_remove:
  "wf m \<Longrightarrow> \<forall>e\<in>set (entries m). P e \<Longrightarrow> \<forall>e\<in>set (entries (remove_k k m)). P e"
  by (auto simp: entries_remove)

end

interpretation nm: storage_map nmap_get "nmap_insert h" nmap_remove "\<lambda>m. m" nmap_wf for h
  by unfold_locales
     (simp_all add: nmap_get_insert nmap_get_remove nmap_get_in_set nmap_wf_insert nmap_wf_remove)

text \<open>Overwriting an entry keeps the iteration order; the other entries keep their values.\<close>

lemma nmap_insert_existing:
  "nmap_wf m \<Longrightarrow> nmap_get m k \<noteq> None \<Longrightarrow>
   nmap_insert h k v m = map (\<lambda>e. if fst e = k then (k, v) else e) m"
proof -
  assume wf: "nmap_wf m" and k: "nmap_get m k \<noteq> None"
  have "distinct (map fst m) \<Longrightarrow> k \<in> fst ` set m \<Longrightarrow>
    AList.update k v m = map (\<lambda>e. if fst e = k then (k, v) else e) m"
  proof (induction m)
    case (Cons e m)
    show ?case
    proof (cases "fst e = k")
      case True
      with Cons.prems have "k \<notin> fst ` set m" by auto
      then have "map (\<lambda>e. if fst e = k then (k, v) else e) m = m"
        by (intro map_idI) auto
      with True show ?thesis by (cases e) simp
    next
      case False
      with Cons show ?thesis by (cases e) auto
    qed
  qed simp
  with wf k show ?thesis
    by (auto simp: nmap_insert_def nmap_wf_def nmap_get_def map_of_eq_None_iff)
qed

end
