(* ===== verification/Frame.thy ===== *)
theory Frame
  imports Prelude
begin

text \<open>
  What the pallets share: account identifiers, hold reasons, the error enums of the pallets and the
  \<^verbatim>\<open>DispatchError\<close> they convert to, and the interfaces of the code the pallets call but do not
  contain. That code is a parameter of the model, a record of functions passed to every definition
  that calls it, as a Rust pallet is generic in \<open>T: Config\<close>:
  \<^item> \<open>currency\<close>: the fungible-hold interface of the native token (\<^verbatim>\<open>pallet_balances\<close>);
  \<^item> \<open>sp_arithmetic\<close>: \<^verbatim>\<open>FixedU128\<close>, \<^verbatim>\<open>Percent\<close> and \<^verbatim>\<open>Perquintill\<close>.
  Their state is an abstract component \<open>ext\<close> of the chain state. What the theorems rely on is
  stated here as named predicates (\<open>hold_laws\<close>, \<open>fixed_laws\<close>, \<dots>), each the documented contract
  of the trait; the concrete ledger and arithmetic at the end of the theory satisfy them and are
  the ones the witnesses compute with.
\<close>

section \<open>Identifiers and errors\<close>

type_synonym account = nat
type_synonym project_id = nat
type_synonym did = string
type_synonym cid = string

datatype hold_reason = Evaluation | Participation

datatype staking_hold_reason = StakingCollator | StakingDelegator

datatype democracy_hold_reason = ProposalDeposit

datatype elections_hold_reason = Candidacy

datatype reason =
    FundingReason hold_reason | StakingReason staking_hold_reason | DemocracyReason democracy_hold_reason
  | ElectionsReason elections_hold_reason | OtherReason nat

datatype lr_error =
    NotVesting | AtMaxVestingSchedules | AmountLow | ScheduleIndexOutOfBounds | InvalidScheduleParams

datatype dispenser_error =
    DispensedAlreadyToDid | DispenserDepleted | DispenseAmountTooLow | InvalidCredential

datatype metadata_error =
    MPriceTooLow | MTicketSizeError | MParticipationCurrenciesError | MAllocationSizeError
  | MAuctionRoundPercentageError | MFundingTargetTooLow | MFundingTargetTooHigh | MCidNotProvided
  | MBadDecimals | MBadTokenomics

datatype funding_error =
    ImpossibleState | NotAllowed | BadMath | PriceNotFound | ParticipationNotFound | WrongInvestorType
  | ProjectDetailsNotFound | ProjectMetadataNotFound | BucketNotFound | ProjectAlreadyFrozen
  | ProjectIsFrozen | WapNotSet
  | IncorrectRound | TooEarlyForRound | TooLateForRound | TransitionPointNotSet
  | NotIssuer | HasActiveProject | ParticipationToOwnProject | IssuerNotEnoughFunds
  | PriceTooLow | TicketSizeError | ParticipationCurrenciesError | AllocationSizeError
  | AuctionRoundPercentageError | FundingTargetTooLow | FundingTargetTooHigh | CidNotProvided
  | BadDecimals | BadTokenomics
  | TooLow | TooHigh | FundingAssetNotAccepted | TooManyUserParticipations
  | TooManyProjectParticipations | ForbiddenMultiplier | UserHasWinningBid
  | ParticipantNotEnoughFunds | PolicyMismatch | ProjectSoldOut
  | ChannelNotOpen | XcmFailed | TooManyMigrations | NoMigrationsFound | NoActiveMigrationsFound
  | WrongParaId | ChannelNotReady | SettlementNotStarted | WrongSettlementOutcome
  | ParticipationsNotSettled | SettlementNotComplete | MigrationsStillPending

datatype staking_error =
    DelegatorDNE | DelegatorDNEinTopNorBottom | DelegatorDNEInDelegatorSet | CandidateDNE | DelegationDNE
  | DelegatorExists | CandidateExists | CandidateBondBelowMin | InsufficientBalance
  | DelegatorBondBelowMin | DelegationBelowMin | AlreadyOffline | AlreadyActive
  | DelegatorAlreadyLeaving | DelegatorNotLeaving | DelegatorCannotLeaveYet | CannotDelegateIfLeaving
  | CandidateAlreadyLeaving | CandidateNotLeaving | CandidateCannotLeaveYet | CannotGoOnlineIfLeaving
  | ExceedMaxDelegationsPerDelegator | AlreadyDelegatedCandidate | InvalidSchedule | CannotSetBelowMin
  | RoundLengthMustBeGreaterThanTotalSelectedCollators | NoWritingSameValue
  | TooLowCandidateCountWeightHintJoinCandidates | TooLowCandidateCountWeightHintCancelLeaveCandidates
  | TooLowCandidateCountToLeaveCandidates | TooLowDelegationCountToDelegate
  | TooLowCandidateDelegationCountToDelegate | TooLowCandidateDelegationCountToLeaveCandidates
  | TooLowDelegationCountToLeaveDelegators | PendingCandidateRequestsDNE
  | PendingCandidateRequestAlreadyExists | PendingCandidateRequestNotDueYet
  | PendingDelegationRequestDNE | PendingDelegationRequestAlreadyExists
  | PendingDelegationRequestNotDueYet | CannotDelegateLessThanOrEqualToLowestBottomWhenFull
  | PendingDelegationRevoke | TooLowDelegationCountToAutoCompound
  | TooLowCandidateAutoCompoundingDelegationCountToAutoCompound
  | TooLowCandidateAutoCompoundingDelegationCountToDelegate

datatype democracy_error =
    ValueLow | ProposalMissing | AlreadyCanceled | DuplicateProposal | ProposalBlacklisted
  | NotSimpleMajority | InvalidHash | NoProposal | AlreadyVetoed | ReferendumInvalid | NoneWaiting
  | NotVoter | NoPermission | AlreadyDelegating | InsufficientFunds | NotDelegating | VotesExist
  | InstantNotAllowed | Nonsense | WrongUpperBound | MaxVotesReached | TooMany | VotingPeriodLow
  | PreimageNotExist

datatype elections_error =
    UnableToVote | NoVotes | TooManyVotes | MaximumVotesExceeded | LowBalance | UnableToPayBond | MustBeVoter
  | VotingPeriodNotEnded | DuplicatedCandidate | TooManyCandidates | MemberSubmit | RunnerUpSubmit
  | InsufficientCandidateFunds | NotMember | InvalidWitnessData | InvalidVoteCount | InvalidRenouncing
  | InvalidReplacement | UnableToReleaseBond

text \<open>
  \<open>External\<close> is any error a parameter returns (a token or arithmetic error of another pallet) and
  \<open>Panic\<close> a Rust panic, which aborts the extrinsic without any effect.
\<close>

datatype dispatch_error =
    BadOrigin
  | Other string
  | CannotLookup
  | ArithmeticUnderflow
  | ArithmeticOverflow
  | Panic
  | External nat
  | LinearReleaseError lr_error
  | DispenserError dispenser_error
  | FundingError funding_error
  | StakingError staking_error
  | DemocracyError democracy_error
  | ElectionsError elections_error

type_synonym ('s, 'a) dprog = "('s, dispatch_error, 'a) prog"

text \<open>
  A result that is kept and looked at later (\<^verbatim>\<open>let r = m;\<close> and a \<^verbatim>\<open>match r\<close> after other code). A panic
  is not a result: it aborts at once.
\<close>

definition attempt :: "('s, 'a) dprog \<Rightarrow> ('s, dispatch_error + 'a) dprog" where
  "attempt m s = (case m s of (Inl Panic, t) \<Rightarrow> (Inl Panic, t) | (r, t) \<Rightarrow> (Inr r, t))"

declare attempt_def [prog_defs]

lemma attempt_Inr [prog_simps]: "attempt m s = (Inr (Inr a), t) \<longleftrightarrow> m s = (Inr a, t)"
  by (auto simp: attempt_def split: prod.splits sum.splits dispatch_error.splits)

section \<open>The origin of an extrinsic\<close>

datatype origin = Signed account | Root | Unsigned

definition ensure_signed :: "origin \<Rightarrow> ('s, account) dprog" where
  "ensure_signed orig = (case orig of Signed who \<Rightarrow> ok who | _ \<Rightarrow> err BadOrigin)"

definition ensure_root :: "origin \<Rightarrow> ('s, unit) dprog" where
  "ensure_root orig = (case orig of Root \<Rightarrow> ok () | _ \<Rightarrow> err BadOrigin)"

lemma ensure_signed_Inr [prog_simps]:
  "ensure_signed orig s = (Inr who, t) \<longleftrightarrow> orig = Signed who \<and> t = s"
  by (auto simp: ensure_signed_def ok_def err_def split: origin.splits)

lemma ensure_root_Inr [prog_simps]: "ensure_root orig s = (Inr u, t) \<longleftrightarrow> orig = Root \<and> t = s"
  by (auto simp: ensure_root_def ok_def err_def split: origin.splits)

lemma ensure_signedE [prog_elims]:
  "ensure_signed orig s = (Inr who, t) \<Longrightarrow> (orig = Signed who \<Longrightarrow> t = s \<Longrightarrow> P) \<Longrightarrow> P"
  by (simp add: ensure_signed_Inr)

lemma keeps_ensure_signed [keeps_rules]: "keeps P (ensure_signed orig)"
  and keeps_ensure_root [keeps_rules]: "keeps P (ensure_root orig)"
  by (auto simp: keeps_def ensure_signed_def ensure_root_def ok_def err_def split: origin.splits)

section \<open>The native currency\<close>

datatype precision = Exact | BestEffort

datatype preservation = Expendable | Protect | Preserve

record 'l currency =
  c_balance_on_hold :: "reason \<Rightarrow> account \<Rightarrow> 'l \<Rightarrow> nat"
  c_hold :: "reason \<Rightarrow> account \<Rightarrow> nat \<Rightarrow> ('l, unit) dprog"
  c_release :: "reason \<Rightarrow> account \<Rightarrow> nat \<Rightarrow> precision \<Rightarrow> ('l, nat) dprog"
  c_transfer :: "account \<Rightarrow> account \<Rightarrow> nat \<Rightarrow> preservation \<Rightarrow> ('l, nat) dprog"
  c_transfer_and_hold :: "reason \<Rightarrow> account \<Rightarrow> account \<Rightarrow> nat \<Rightarrow> precision \<Rightarrow> ('l, nat) dprog"
  c_transfer_on_hold :: "reason \<Rightarrow> account \<Rightarrow> account \<Rightarrow> nat \<Rightarrow> precision \<Rightarrow> ('l, nat) dprog"

text \<open>
  The reasons of a freeze: \<^verbatim>\<open>FreezeReason::Vote\<close> of the pallet \<^verbatim>\<open>democracy\<close>, \<^verbatim>\<open>FreezeReason::Voting\<close> of
  \<^verbatim>\<open>elections-phragmen\<close>. The currency as these two pallets see it has the total balance of an account, its
  freezes and the slashing of a hold; a slash does not fail and yields the credit that was taken.
\<close>

datatype freeze_reason = VoteFreeze | VotingFreeze

record 'l fungible = "'l currency" +
  c_total_balance :: "account \<Rightarrow> 'l \<Rightarrow> nat"
  c_balance_frozen :: "freeze_reason \<Rightarrow> account \<Rightarrow> 'l \<Rightarrow> nat"
  c_extend_freeze :: "freeze_reason \<Rightarrow> account \<Rightarrow> nat \<Rightarrow> ('l, unit) dprog"
  c_set_freeze :: "freeze_reason \<Rightarrow> account \<Rightarrow> nat \<Rightarrow> ('l, unit) dprog"
  c_thaw :: "freeze_reason \<Rightarrow> account \<Rightarrow> ('l, unit) dprog"
  c_slash :: "reason \<Rightarrow> account \<Rightarrow> nat \<Rightarrow> 'l \<Rightarrow> nat \<times> 'l"

record 'l system =
  block_number :: nat
  ext :: 'l

definition on_ext :: "('l, 'a) dprog \<Rightarrow> (('l, 'z) system_scheme, 'a) dprog" where
  "on_ext m s = (case m (ext s) of (r, l) \<Rightarrow> (r, s\<lparr>ext := l\<rparr>))"

declare on_ext_def [prog_defs]

lemma on_ext_Inr [prog_simps]:
  "on_ext m s = (Inr a, t) \<longleftrightarrow> (\<exists>l. m (ext s) = (Inr a, l) \<and> t = s\<lparr>ext := l\<rparr>)"
  by (auto simp: on_ext_def split: prod.splits)

lemma on_extE [prog_elims]:
  "on_ext m s = (Inr a, t) \<Longrightarrow> (\<And>l. m (ext s) = (Inr a, l) \<Longrightarrow> t = s\<lparr>ext := l\<rparr> \<Longrightarrow> P) \<Longrightarrow> P"
  by (auto simp: on_ext_Inr)

lemma keeps_on_ext: "(\<And>s l. P s \<Longrightarrow> P (s\<lparr>ext := l\<rparr>)) \<Longrightarrow> keeps P (on_ext m)"
  by (auto simp: keeps_def on_ext_def split: prod.splits)

text \<open>
  The documented contract of \<^verbatim>\<open>MutateHold::release\<close>: it moves at most the requested and at most the
  held amount back to the free balance and reports what it moved; with \<open>Exact\<close> it moves what was
  asked for or fails, with \<open>BestEffort\<close> it moves as much as there is. Other holds are not touched.
\<close>

definition release_laws :: "'l currency \<Rightarrow> bool" where
  "release_laws C \<longleftrightarrow>
     (\<forall>r who amt p l n l'. c_release C r who amt p l = (Inr n, l') \<longrightarrow>
        n \<le> amt \<and> n \<le> c_balance_on_hold C r who l \<and>
        c_balance_on_hold C r who l' = c_balance_on_hold C r who l - n \<and>
        (p = Exact \<longrightarrow> n = amt) \<and>
        (p = BestEffort \<longrightarrow> n = min amt (c_balance_on_hold C r who l)) \<and>
        (\<forall>r' who'. (r', who') \<noteq> (r, who) \<longrightarrow>
           c_balance_on_hold C r' who' l' = c_balance_on_hold C r' who' l))"

text \<open>The contract of \<^verbatim>\<open>MutateHold::hold\<close>: exactly the amount is added to the hold.\<close>

definition hold_laws :: "'l currency \<Rightarrow> bool" where
  "hold_laws C \<longleftrightarrow>
     (\<forall>r who amt l u l'. c_hold C r who amt l = (Inr u, l') \<longrightarrow>
        c_balance_on_hold C r who l' = c_balance_on_hold C r who l + amt \<and>
        (\<forall>r' who'. (r', who') \<noteq> (r, who) \<longrightarrow>
           c_balance_on_hold C r' who' l' = c_balance_on_hold C r' who' l))"

text \<open>
  The contract of \<^verbatim>\<open>MutateHold::transfer_and_hold\<close> with \<open>Exact\<close> precision: exactly the amount
  arrives in the target's hold, and is reported.
\<close>

definition transfer_and_hold_laws :: "'l currency \<Rightarrow> bool" where
  "transfer_and_hold_laws C \<longleftrightarrow>
     (\<forall>r src dst amt l n l'. c_transfer_and_hold C r src dst amt Exact l = (Inr n, l') \<longrightarrow>
        n = amt \<and> c_balance_on_hold C r dst l' = c_balance_on_hold C r dst l + amt)"

text \<open>
  The contract of \<^verbatim>\<open>MutateHold::transfer_on_hold\<close> to a free balance with \<open>Exact\<close> precision: exactly the
  amount leaves the source's hold, and no other hold changes.
\<close>

definition transfer_on_hold_laws :: "'l currency \<Rightarrow> bool" where
  "transfer_on_hold_laws C \<longleftrightarrow>
     (\<forall>r src dst amt l n l'. c_transfer_on_hold C r src dst amt Exact l = (Inr n, l') \<longrightarrow>
        amt \<le> c_balance_on_hold C r src l \<and>
        c_balance_on_hold C r src l' = c_balance_on_hold C r src l - amt \<and>
        (\<forall>r' who'. (r', who') \<noteq> (r, src) \<longrightarrow>
           c_balance_on_hold C r' who' l' = c_balance_on_hold C r' who' l))"

text \<open>A best-effort release of an existing hold does not fail.\<close>

definition release_total :: "'l currency \<Rightarrow> bool" where
  "release_total C \<longleftrightarrow> (\<forall>r who amt l. \<exists>n l'. c_release C r who amt BestEffort l = (Inr n, l'))"

lemma release_lawsD:
  assumes "release_laws C" and "c_release C r who amt p l = (Inr n, l')"
  shows "n \<le> amt" and "n \<le> c_balance_on_hold C r who l"
    and "c_balance_on_hold C r who l' = c_balance_on_hold C r who l - n"
    and "p = Exact \<Longrightarrow> n = amt"
    and "p = BestEffort \<Longrightarrow> n = min amt (c_balance_on_hold C r who l)"
    and "(r', who') \<noteq> (r, who) \<Longrightarrow> c_balance_on_hold C r' who' l' = c_balance_on_hold C r' who' l"
  using assms unfolding release_laws_def by metis+

section \<open>Fixed-point and per-thing arithmetic\<close>

text \<open>
  A \<^verbatim>\<open>FixedU128\<close> is represented by its inner \<open>u128\<close>, a \<^verbatim>\<open>Percent\<close> by its parts of 100 and a
  \<^verbatim>\<open>Perquintill\<close> by its parts of \<open>10 ^ 18\<close>.
\<close>

type_synonym fixed = nat

definition DIV :: nat where
  "DIV = 10 ^ 18"

record sp_arithmetic =
  f_checked_mul_int :: "fixed \<Rightarrow> nat \<Rightarrow> nat option"
  f_saturating_mul_int :: "fixed \<Rightarrow> nat \<Rightarrow> nat"
  f_from_rational :: "nat \<Rightarrow> nat \<Rightarrow> fixed option"
  f_checked_from_rational :: "nat \<Rightarrow> nat \<Rightarrow> fixed option"
  f_saturating_from_rational :: "nat \<Rightarrow> nat \<Rightarrow> fixed"
  f_saturating_mul_int_u32 :: "fixed \<Rightarrow> nat \<Rightarrow> nat"
  f_mul :: "fixed \<Rightarrow> fixed \<Rightarrow> fixed"
  f_checked_mul :: "fixed \<Rightarrow> fixed \<Rightarrow> fixed option"
  f_saturating_mul :: "fixed \<Rightarrow> fixed \<Rightarrow> fixed"
  f_checked_div :: "fixed \<Rightarrow> fixed \<Rightarrow> fixed option"
  f_reciprocal :: "fixed \<Rightarrow> fixed option"
  percent_mul :: "nat \<Rightarrow> nat \<Rightarrow> nat"
  pq_from_rational :: "nat \<Rightarrow> nat \<Rightarrow> nat"
  pq_mul :: "nat \<Rightarrow> nat \<Rightarrow> nat"

text \<open>\<open>self * n\<close> of a fixed-point number and an integer, rounded down; \<open>None\<close> when it does not fit.\<close>

definition mul_int_laws :: "sp_arithmetic \<Rightarrow> bool" where
  "mul_int_laws A \<longleftrightarrow>
     (\<forall>p n. f_checked_mul_int A p n =
        (if p * n div DIV \<le> u128_max then Some (p * n div DIV) else None))"

text \<open>
  The saturating variants round down and are capped at the largest \<open>u128\<close>. \<^verbatim>\<open>from_rational\<close> panics
  (\<open>None\<close>) for a zero denominator and when the result does not fit.
\<close>

definition fixed_laws :: "sp_arithmetic \<Rightarrow> bool" where
  "fixed_laws A \<longleftrightarrow>
     (\<forall>p n. f_saturating_mul_int A p n = min u128_max (p * n div DIV)) \<and>
     (\<forall>p n. f_saturating_mul_int_u32 A p n = min u32_max (p * n div DIV)) \<and>
     (\<forall>p q. f_saturating_mul A p q = min u128_max (p * q div DIV)) \<and>
     (\<forall>p q. p * q div DIV \<le> u128_max \<longrightarrow> f_mul A p q = p * q div DIV) \<and>
     (\<forall>a. f_from_rational A a 0 = None) \<and>
     (\<forall>a b. 0 < b \<longrightarrow> a * DIV div b < 2 ^ 127 \<longrightarrow> f_from_rational A a b = Some (a * DIV div b)) \<and>
     (\<forall>a b. 0 < b \<longrightarrow> f_saturating_from_rational A a b = min u128_max (a * DIV div b))"

text \<open>The checked variants round down and are \<open>None\<close> when the result does not fit.\<close>

definition fixed_checked_laws :: "sp_arithmetic \<Rightarrow> bool" where
  "fixed_checked_laws A \<longleftrightarrow>
     (\<forall>a b. f_checked_from_rational A a b =
        (if b = 0 \<or> u128_max < a * DIV div b then None else Some (a * DIV div b))) \<and>
     (\<forall>p q. f_checked_mul A p q =
        (if p * q div DIV \<le> u128_max then Some (p * q div DIV) else None)) \<and>
     (\<forall>p q. f_checked_div A p q =
        (if q = 0 \<or> u128_max < p * DIV div q then None else Some (p * DIV div q)))"

text \<open>A percentage of a balance: nothing above the balance, rounded to the nearest integer.\<close>

definition percent_laws :: "sp_arithmetic \<Rightarrow> bool" where
  "percent_laws A \<longleftrightarrow>
     (\<forall>p n. p \<le> 100 \<longrightarrow> percent_mul A p n \<le> n \<and>
        100 * percent_mul A p n \<le> p * n + 50 \<and> p * n \<le> 100 * percent_mul A p n + 50)"

text \<open>
  \<^verbatim>\<open>Perquintill::from_rational\<close> rounds down and is one when the ratio is not below one (so also for
  a zero denominator); multiplication rounds to the nearest integer and never exceeds the balance.
\<close>

definition perquintill_laws :: "sp_arithmetic \<Rightarrow> bool" where
  "perquintill_laws A \<longleftrightarrow>
     (\<forall>p q. pq_from_rational A p q = (if p < q then p * DIV div q else DIV)) \<and>
     (\<forall>r n. r \<le> DIV \<longrightarrow> pq_mul A r n \<le> n \<and>
        2 * DIV * pq_mul A r n \<le> 2 * r * n + DIV \<and> 2 * r * n \<le> 2 * DIV * pq_mul A r n + DIV)"

section \<open>Concrete instances of the parameters\<close>

text \<open>
  A ledger with free balances and holds, and the exact arithmetic: instances of the parameters that
  meet the laws above. They show that the laws can hold together and let the witnesses compute.
\<close>

record plain_ledger =
  free :: "account \<Rightarrow> nat"
  held :: "reason \<Rightarrow> account \<Rightarrow> nat"

definition plain_hold :: "reason \<Rightarrow> account \<Rightarrow> nat \<Rightarrow> (plain_ledger, unit) dprog" where
  "plain_hold r who amt l =
     (if amt \<le> free l who
      then (Inr (), l\<lparr>free := (free l)(who := free l who - amt),
                      held := (held l)(r := (held l r)(who := held l r who + amt))\<rparr>)
      else (Inl (External 0), l))"

definition plain_release :: "reason \<Rightarrow> account \<Rightarrow> nat \<Rightarrow> precision \<Rightarrow> (plain_ledger, nat) dprog" where
  "plain_release r who amt p l =
     (let n = (if p = Exact then amt else min amt (held l r who))
      in if n \<le> held l r who
         then (Inr n, l\<lparr>free := (free l)(who := free l who + n),
                        held := (held l)(r := (held l r)(who := held l r who - n))\<rparr>)
         else (Inl (External 1), l))"

definition plain_transfer :: "account \<Rightarrow> account \<Rightarrow> nat \<Rightarrow> preservation \<Rightarrow> (plain_ledger, nat) dprog" where
  "plain_transfer from to amt p l =
     (if amt \<le> free l from
      then (Inr amt, let f = (free l)(from := free l from - amt) in l\<lparr>free := f(to := f to + amt)\<rparr>)
      else (Inl (External 2), l))"

definition plain_transfer_and_hold ::
    "reason \<Rightarrow> account \<Rightarrow> account \<Rightarrow> nat \<Rightarrow> precision \<Rightarrow> (plain_ledger, nat) dprog" where
  "plain_transfer_and_hold r from to amt p l =
     (if amt \<le> free l from
      then (Inr amt, l\<lparr>free := (free l)(from := free l from - amt),
                       held := (held l)(r := (held l r)(to := held l r to + amt))\<rparr>)
      else (Inl (External 2), l))"

definition plain_transfer_on_hold ::
    "reason \<Rightarrow> account \<Rightarrow> account \<Rightarrow> nat \<Rightarrow> precision \<Rightarrow> (plain_ledger, nat) dprog" where
  "plain_transfer_on_hold r from to amt p l =
     (if amt \<le> held l r from
      then (Inr amt, l\<lparr>free := (free l)(to := free l to + amt),
                       held := (held l)(r := (held l r)(from := held l r from - amt))\<rparr>)
      else (Inl (External 3), l))"

definition plain_currency :: "plain_ledger currency" where
  "plain_currency =
     \<lparr>c_balance_on_hold = (\<lambda>r who l. held l r who), c_hold = plain_hold, c_release = plain_release,
      c_transfer = plain_transfer, c_transfer_and_hold = plain_transfer_and_hold,
      c_transfer_on_hold = plain_transfer_on_hold\<rparr>"

lemmas plain_defs =
  plain_currency_def plain_hold_def plain_release_def plain_transfer_def
  plain_transfer_and_hold_def plain_transfer_on_hold_def

lemma plain_release_laws: "release_laws plain_currency"
  by (auto simp: release_laws_def plain_defs Let_def split: if_splits)

lemma plain_hold_laws: "hold_laws plain_currency"
  by (auto simp: hold_laws_def plain_defs split: if_splits)

lemma plain_transfer_and_hold_laws: "transfer_and_hold_laws plain_currency"
  by (auto simp: transfer_and_hold_laws_def plain_defs split: if_splits)

lemma plain_transfer_on_hold_laws: "transfer_on_hold_laws plain_currency"
  by (auto simp: transfer_on_hold_laws_def plain_defs split: if_splits)

lemma plain_release_total: "release_total plain_currency"
  by (auto simp: release_total_def plain_defs Let_def)

definition plain_arith :: sp_arithmetic where
  "plain_arith =
     \<lparr>f_checked_mul_int = (\<lambda>p n. if p * n div DIV \<le> u128_max then Some (p * n div DIV) else None),
      f_saturating_mul_int = (\<lambda>p n. min u128_max (p * n div DIV)),
      f_from_rational =
        (\<lambda>a b. if b = 0 \<or> 2 ^ 127 \<le> a * DIV div b then None else Some (a * DIV div b)),
      f_checked_from_rational =
        (\<lambda>a b. if b = 0 \<or> u128_max < a * DIV div b then None else Some (a * DIV div b)),
      f_saturating_from_rational = (\<lambda>a b. min u128_max (a * DIV div b)),
      f_saturating_mul_int_u32 = (\<lambda>p n. min u32_max (p * n div DIV)),
      f_mul = (\<lambda>p q. min u128_max (p * q div DIV)),
      f_checked_mul = (\<lambda>p q. if p * q div DIV \<le> u128_max then Some (p * q div DIV) else None),
      f_saturating_mul = (\<lambda>p q. min u128_max (p * q div DIV)),
      f_checked_div =
        (\<lambda>p q. if q = 0 \<or> u128_max < p * DIV div q then None else Some (p * DIV div q)),
      f_reciprocal = (\<lambda>p. if p = 0 then None else Some (DIV * DIV div p)),
      percent_mul = (\<lambda>p n. (p * n + 49) div 100),
      pq_from_rational = (\<lambda>p q. if p < q then p * DIV div q else DIV),
      pq_mul = (\<lambda>r n. (2 * r * n + DIV - 1) div (2 * DIV))\<rparr>"

lemma plain_mul_int_laws: "mul_int_laws plain_arith"
  by (simp add: mul_int_laws_def plain_arith_def)

lemma plain_fixed_laws: "fixed_laws plain_arith"
  by (simp add: fixed_laws_def plain_arith_def)

lemma plain_fixed_checked_laws: "fixed_checked_laws plain_arith"
  by (simp add: fixed_checked_laws_def plain_arith_def)

lemma div_mult_bounds: "0 < d \<Longrightarrow> d * (n div d) \<le> n \<and> n < d * (n div d) + d" for n d :: nat
  by (metis add.commute dividend_less_times_div mult.commute mult_Suc_right
      times_div_less_eq_dividend)

lemma plain_percent_laws: "percent_laws plain_arith"
proof -
  have "(p * n + 49) div 100 \<le> n \<and> 100 * ((p * n + 49) div 100) \<le> p * n + 50 \<and>
      p * n \<le> 100 * ((p * n + 49) div 100) + 50" if "p \<le> 100" for p n :: nat
  proof -
    have "p * n \<le> 100 * n" using that by (rule mult_right_mono) simp
    then show ?thesis using div_mult_bounds [of 100 "p * n + 49"] by linarith
  qed
  then show ?thesis by (simp add: percent_laws_def plain_arith_def)
qed

lemma plain_perquintill_laws: "perquintill_laws plain_arith"
proof -
  have D: "0 < DIV" by (simp add: DIV_def)
  have "(2 * r * n + DIV - 1) div (2 * DIV) \<le> n \<and>
      2 * DIV * ((2 * r * n + DIV - 1) div (2 * DIV)) \<le> 2 * r * n + DIV \<and>
      2 * r * n \<le> 2 * DIV * ((2 * r * n + DIV - 1) div (2 * DIV)) + DIV" if "r \<le> DIV" for r n :: nat
  proof -
    let ?q = "(2 * r * n + DIV - 1) div (2 * DIV)"
    have rn: "2 * r * n \<le> 2 * DIV * n" using that by (simp add: mult_right_mono)
    have b: "2 * DIV * ?q \<le> 2 * r * n + DIV - 1" "2 * r * n + DIV - 1 < 2 * DIV * ?q + 2 * DIV"
      using div_mult_bounds [of "2 * DIV" "2 * r * n + DIV - 1"] D by simp_all
    have "2 * DIV * ?q < 2 * DIV * n + 2 * DIV" using b(1) rn D by linarith
    then have "2 * DIV * ?q < 2 * DIV * Suc n" by (simp only: mult_Suc_right add.commute)
    then have "?q < Suc n" by (simp only: mult_less_cancel1)
    then show ?thesis using b D by linarith
  qed
  then show ?thesis by (simp add: perquintill_laws_def plain_arith_def)
qed

end
