(* ===== verification/Linear_Release.thy ===== *)
theory Linear_Release
  imports Frame
begin

text \<open>
  The pallet \<^verbatim>\<open>linear-release\<close> (\<^verbatim>\<open>src/pallets/linear-release/src\<close>): vesting schedules over amounts
  that are on hold for a reason. The first section is \<^verbatim>\<open>types.rs\<close> (a schedule and what of it is
  locked at a block), the second the pallet's state and configuration, the third \<^verbatim>\<open>impls.rs\<close> (the
  internal functions and the \<^verbatim>\<open>ReleaseSchedule\<close> interface the funding pallet calls), the fourth
  the extrinsics of \<^verbatim>\<open>lib.rs\<close>. The lemmas and properties are in \<^verbatim>\<open>Linear_Release_Props\<close>.
\<close>

section \<open>Schedules\<close>

record vesting_info =
  vi_locked :: nat
  vi_per_block :: nat
  vi_starting_block :: nat

definition new_vesting_info :: "nat \<Rightarrow> nat \<Rightarrow> nat \<Rightarrow> vesting_info" where
  "new_vesting_info l p b = \<lparr>vi_locked = l, vi_per_block = p, vi_starting_block = b\<rparr>"

definition is_valid :: "vesting_info \<Rightarrow> bool" where
  "is_valid v \<longleftrightarrow> vi_locked v \<noteq> 0 \<and> vi_per_block v \<noteq> 0"

definition per_block :: "vesting_info \<Rightarrow> nat" where
  "per_block v = max (vi_per_block v) 1"

definition locked_at :: "(nat \<Rightarrow> nat) \<Rightarrow> vesting_info \<Rightarrow> nat \<Rightarrow> nat" where
  "locked_at conv v now =
     (let time_range = saturating_sub now (vi_starting_block v);
          vested_block_count = conv time_range
      in case checked_mul vested_block_count (per_block v) of
           Some to_unlock \<Rightarrow> saturating_sub (vi_locked v) to_unlock
         | None \<Rightarrow> 0)"

definition releaseble_at :: "(nat \<Rightarrow> nat) \<Rightarrow> vesting_info \<Rightarrow> nat \<Rightarrow> nat" where
  "releaseble_at conv v now =
     (let time_range = saturating_sub now (vi_starting_block v);
          vested_block_count = conv time_range;
          res = (case checked_mul vested_block_count (per_block v) of Some x \<Rightarrow> x | None \<Rightarrow> 0)
      in min res (vi_locked v))"

definition ending_block_as_balance :: "(nat \<Rightarrow> nat) \<Rightarrow> vesting_info \<Rightarrow> nat" where
  "ending_block_as_balance conv v =
     (let starting_block = conv (vi_starting_block v);
          duration =
            (if vi_locked v \<le> per_block v then 1
             else vi_locked v div per_block v + (if vi_locked v mod per_block v = 0 then 0 else 1))
      in saturating_add starting_block duration)"

section \<open>State and configuration\<close>

datatype vesting_action = Passive | Remove nat | Merge nat nat

fun should_remove :: "vesting_action \<Rightarrow> nat \<Rightarrow> bool" where
  "should_remove Passive index = False"
| "should_remove (Remove index1) index = (index1 = index)"
| "should_remove (Merge index1 index2) index = (index1 = index \<or> index2 = index)"

definition pick_schedules :: "vesting_action \<Rightarrow> vesting_info list \<Rightarrow> vesting_info list" where
  "pick_schedules act schedules =
     map snd (filter (\<lambda>(index, schedule). \<not> should_remove act index) (List.enumerate 0 schedules))"

datatype lr_event =
    VestingUpdated account nat
  | VestingCompleted account
  | VestingTransferred account nat

record 'l lr_state = "'l system" +
  Vesting :: "(account \<times> reason, vesting_info list) nmap"
  lr_events :: "lr_event list"

record 'l lr_config =
  Currency :: "'l currency"
  BlockNumberToBalance :: "nat \<Rightarrow> nat"
  MinVestedTransfer :: nat
  MAX_VESTING_SCHEDULES :: nat
  hash_vesting :: "account \<times> reason \<Rightarrow> nat"

type_synonym ('l, 'z, 'a) lr_prog = "(('l, 'z) lr_state_scheme, 'a) dprog"

abbreviation LRError :: "lr_error \<Rightarrow> dispatch_error" where
  "LRError \<equiv> LinearReleaseError"

definition deposit_lr_event :: "lr_event \<Rightarrow> ('l, 'z, unit) lr_prog" where
  "deposit_lr_event e = modify (\<lambda>s. s\<lparr>lr_events := lr_events s @ [e]\<rparr>)"

definition vesting :: "account \<Rightarrow> reason \<Rightarrow> ('l, 'z) lr_state_scheme \<Rightarrow> vesting_info list option" where
  "vesting who r s = nmap_get (Vesting s) (who, r)"

definition balance_on_hold ::
    "('l, 'c) lr_config_scheme \<Rightarrow> reason \<Rightarrow> account \<Rightarrow> ('l, 'z) lr_state_scheme \<Rightarrow> nat" where
  "balance_on_hold T r who s = c_balance_on_hold (Currency T) r who (ext s)"

section \<open>Internal functions\<close>

definition merge_vesting_info ::
    "('l, 'c) lr_config_scheme \<Rightarrow> nat \<Rightarrow> vesting_info \<Rightarrow> vesting_info \<Rightarrow> vesting_info option" where
  "merge_vesting_info T now schedule1 schedule2 =
     (let conv = BlockNumberToBalance T;
          schedule1_ending_block = ending_block_as_balance conv schedule1;
          schedule2_ending_block = ending_block_as_balance conv schedule2;
          now_as_balance = conv now
      in if schedule1_ending_block \<le> now_as_balance \<and> schedule2_ending_block \<le> now_as_balance
         then None
         else if schedule1_ending_block \<le> now_as_balance then Some schedule2
         else if schedule2_ending_block \<le> now_as_balance then Some schedule1
         else
           let locked = saturating_add (locked_at conv schedule1 now) (locked_at conv schedule2 now);
               ending_block = max schedule1_ending_block schedule2_ending_block;
               starting_block = max (max now (vi_starting_block schedule1)) (vi_starting_block schedule2);
               duration = max (saturating_sub ending_block (conv starting_block)) 1;
               per_block = max (locked div duration) 1
           in Some (new_vesting_info locked per_block starting_block))"

definition report_schedule_updates ::
    "('l, 'c) lr_config_scheme \<Rightarrow> nat \<Rightarrow> vesting_info list \<Rightarrow> vesting_action \<Rightarrow>
     vesting_info list \<times> nat" where
  "report_schedule_updates T now schedules act =
     (let conv = BlockNumberToBalance T;
          filtered_schedules =
            filter (\<lambda>schedule. locked_at conv schedule now \<noteq> 0) (pick_schedules act schedules)
      in (filtered_schedules,
          foldl (\<lambda>total schedule. saturating_add total (locked_at conv schedule now)) 0
            filtered_schedules))"

definition write_release ::
    "('l, 'c) lr_config_scheme \<Rightarrow> account \<Rightarrow> nat \<Rightarrow> reason \<Rightarrow> ('l, 'z, unit) lr_prog" where
  "write_release T who total_held_now r =
     (if total_held_now = 0 then
        sbind (gets (balance_on_hold T r who)) (\<lambda>already_held.
        sbind (on_ext (c_release (Currency T) r who already_held BestEffort)) (\<lambda>_.
        deposit_lr_event (VestingCompleted who)))
      else
        sbind (gets (balance_on_hold T r who)) (\<lambda>already_held.
        let to_release = saturating_sub already_held total_held_now in
        sbind (on_ext (c_release (Currency T) r who to_release BestEffort)) (\<lambda>_.
        deposit_lr_event (VestingUpdated who total_held_now))))"

definition write_vesting_schedule ::
    "('l, 'c) lr_config_scheme \<Rightarrow> account \<Rightarrow> vesting_info list \<Rightarrow> reason \<Rightarrow> ('l, 'z, unit) lr_prog" where
  "write_vesting_schedule T who schedules r =
     seq (ensure (length schedules \<le> MAX_VESTING_SCHEDULES T) (LRError AtMaxVestingSchedules))
     (if length schedules = 0
      then modify (\<lambda>s. s\<lparr>Vesting := nmap_remove (who, r) (Vesting s)\<rparr>)
      else modify (\<lambda>s. s\<lparr>Vesting := nmap_insert (hash_vesting T) (who, r) schedules (Vesting s)\<rparr>))"

definition exec_action ::
    "('l, 'c) lr_config_scheme \<Rightarrow> vesting_info list \<Rightarrow> vesting_action \<Rightarrow>
     ('l, 'z, vesting_info list \<times> nat) lr_prog" where
  "exec_action T schedules act =
     sbind (gets block_number) (\<lambda>now.
     case act of
       Merge idx1 idx2 \<Rightarrow>
         sbind (ok_or (if idx1 < length schedules then Some (schedules ! idx1) else None)
                  (LRError ScheduleIndexOutOfBounds)) (\<lambda>schedule1.
         sbind (ok_or (if idx2 < length schedules then Some (schedules ! idx2) else None)
                  (LRError ScheduleIndexOutOfBounds)) (\<lambda>schedule2.
         case report_schedule_updates T now schedules act of (schedules', locked_now) \<Rightarrow>
         case merge_vesting_info T now schedule1 schedule2 of
           Some new_schedule \<Rightarrow>
             (let new_schedule_locked = locked_at (BlockNumberToBalance T) new_schedule now
              in ok (schedules' @ [new_schedule], saturating_add locked_now new_schedule_locked))
         | None \<Rightarrow> ok (schedules', locked_now)))
     | _ \<Rightarrow> ok (report_schedule_updates T now schedules act))"

definition do_vest :: "('l, 'c) lr_config_scheme \<Rightarrow> account \<Rightarrow> reason \<Rightarrow> ('l, 'z, unit) lr_prog" where
  "do_vest T who r =
     sbind (gets (vesting who r)) (\<lambda>found.
     sbind (ok_or found (LRError NotVesting)) (\<lambda>schedules.
     sbind (exec_action T schedules Passive) (\<lambda>(schedules, locked_now).
     seq (write_vesting_schedule T who schedules r)
     (write_release T who locked_now r))))"

section \<open>The interface \<open>ReleaseSchedule\<close>\<close>

definition vesting_balance ::
    "('l, 'c) lr_config_scheme \<Rightarrow> account \<Rightarrow> reason \<Rightarrow> ('l, 'z) lr_state_scheme \<Rightarrow> nat option" where
  "vesting_balance T who r s =
     map_option (\<lambda>v. foldl (\<lambda>total schedule.
         saturating_add (releaseble_at (BlockNumberToBalance T) schedule (block_number s)) total) 0 v)
       (vesting who r s)"

definition total_scheduled_amount :: "account \<Rightarrow> reason \<Rightarrow> ('l, 'z) lr_state_scheme \<Rightarrow> nat option" where
  "total_scheduled_amount who r s =
     map_option (\<lambda>v. foldl (\<lambda>total schedule. saturating_add (vi_locked schedule) total) 0 v)
       (vesting who r s)"

definition vest_trait :: "('l, 'c) lr_config_scheme \<Rightarrow> account \<Rightarrow> reason \<Rightarrow> ('l, 'z, nat) lr_prog" where
  "vest_trait T who r =
     sbind (gets (balance_on_hold T r who)) (\<lambda>prev_locked.
     seq (do_vest T who r)
     (sbind (gets (balance_on_hold T r who)) (\<lambda>post_locked.
      ok (saturating_sub prev_locked post_locked))))"

definition add_release_schedule ::
    "('l, 'c) lr_config_scheme \<Rightarrow> account \<Rightarrow> nat \<Rightarrow> nat \<Rightarrow> nat \<Rightarrow> reason \<Rightarrow> ('l, 'z, unit) lr_prog" where
  "add_release_schedule T who locked perblock starting_block r =
     (if locked = 0 then ok () else
      let vesting_schedule = new_vesting_info locked perblock starting_block in
      if \<not> is_valid vesting_schedule then err (LRError InvalidScheduleParams) else
      sbind (gets (vesting who r)) (\<lambda>found.
      let schedules = (case found of None \<Rightarrow> [] | Some v \<Rightarrow> v) in
      seq (ensure (length schedules < MAX_VESTING_SCHEDULES T) (LRError AtMaxVestingSchedules))
      (sbind (exec_action T (schedules @ [vesting_schedule]) Passive) (\<lambda>(schedules, _).
       write_vesting_schedule T who schedules r))))"

definition set_release_schedule ::
    "('l, 'c) lr_config_scheme \<Rightarrow> account \<Rightarrow> nat \<Rightarrow> nat \<Rightarrow> nat \<Rightarrow> reason \<Rightarrow> ('l, 'z, unit) lr_prog" where
  "set_release_schedule T who locked perblock starting_block r =
     (if locked = 0 then ok () else
      let vesting_schedule = new_vesting_info locked perblock starting_block in
      if \<not> is_valid vesting_schedule then err (LRError InvalidScheduleParams) else
      sbind (gets (vesting who r)) (\<lambda>found.
      let schedules = (case found of None \<Rightarrow> [] | Some v \<Rightarrow> v) in
      seq (ensure (length schedules < MAX_VESTING_SCHEDULES T) (LRError AtMaxVestingSchedules))
      (sbind (exec_action T (schedules @ [vesting_schedule]) Passive) (\<lambda>(schedules, locked_now).
       seq (write_vesting_schedule T who schedules r)
       (write_release T who locked_now r)))))"

definition can_add_release_schedule ::
    "('l, 'c) lr_config_scheme \<Rightarrow> account \<Rightarrow> nat \<Rightarrow> nat \<Rightarrow> nat \<Rightarrow> reason \<Rightarrow> ('l, 'z, unit) lr_prog" where
  "can_add_release_schedule T who locked perblock starting_block r =
     (if \<not> is_valid (new_vesting_info locked perblock starting_block)
      then err (LRError InvalidScheduleParams) else
      sbind (gets (vesting who r)) (\<lambda>found.
      ensure ((case found of None \<Rightarrow> 0 | Some v \<Rightarrow> length v) < MAX_VESTING_SCHEDULES T)
        (LRError AtMaxVestingSchedules)))"

definition remove_vesting_schedule ::
    "('l, 'c) lr_config_scheme \<Rightarrow> account \<Rightarrow> nat \<Rightarrow> reason \<Rightarrow> ('l, 'z, unit) lr_prog" where
  "remove_vesting_schedule T who schedule_index r =
     sbind (gets (vesting who r)) (\<lambda>found.
     sbind (ok_or found (LRError NotVesting)) (\<lambda>schedules.
     sbind (exec_action T schedules (Remove schedule_index)) (\<lambda>(schedules, locked_now).
     seq (write_vesting_schedule T who schedules r)
     (write_release T who locked_now r))))"

definition remove_all_vesting_schedules ::
    "('l, 'c) lr_config_scheme \<Rightarrow> account \<Rightarrow> reason \<Rightarrow> ('l, 'z, unit) lr_prog" where
  "remove_all_vesting_schedules T who r =
     sbind (gets (vesting who r)) (\<lambda>found.
     sbind (ok_or found (LRError NotVesting)) (\<lambda>schedules.
     for_each [0..<length schedules] (\<lambda>_.
       sbind (gets (vesting who r)) (\<lambda>found.
       sbind (ok_or found (LRError NotVesting)) (\<lambda>current_schedules.
       sbind (exec_action T current_schedules (Remove 0)) (\<lambda>(schedules, locked_now).
       seq (write_vesting_schedule T who schedules r)
       (write_release T who locked_now r)))))))"

definition do_vested_transfer ::
    "('l, 'c) lr_config_scheme \<Rightarrow> account \<Rightarrow> account \<Rightarrow> vesting_info \<Rightarrow> reason \<Rightarrow> ('l, 'z, unit) lr_prog" where
  "do_vested_transfer T source target schedule r =
     seq (ensure (MinVestedTransfer T \<le> vi_locked schedule) (LRError AmountLow))
     (if \<not> is_valid schedule then err (LRError InvalidScheduleParams) else
      seq (can_add_release_schedule T target (vi_locked schedule) (per_block schedule)
             (vi_starting_block schedule) r)
      (sbind (on_ext (c_transfer_and_hold (Currency T) r source target (vi_locked schedule) Exact))
         (\<lambda>amount_transferred.
       seq (deposit_lr_event (VestingTransferred target amount_transferred))
       (seq (ignore_result (set_release_schedule T target amount_transferred (per_block schedule)
               (vi_starting_block schedule) r))
        (ok ())))))"

section \<open>Extrinsics\<close>

definition vest :: "('l, 'c) lr_config_scheme \<Rightarrow> origin \<Rightarrow> reason \<Rightarrow> ('l, 'z, unit) lr_prog" where
  "vest T orig r = transactional (sbind (ensure_signed orig) (\<lambda>who. do_vest T who r))"

definition vest_other ::
    "('l, 'c) lr_config_scheme \<Rightarrow> origin \<Rightarrow> account \<Rightarrow> reason \<Rightarrow> ('l, 'z, unit) lr_prog" where
  "vest_other T orig target r =
     transactional (sbind (ensure_signed orig) (\<lambda>_. do_vest T target r))"

definition vested_transfer ::
    "('l, 'c) lr_config_scheme \<Rightarrow> origin \<Rightarrow> account \<Rightarrow> vesting_info \<Rightarrow> reason \<Rightarrow> ('l, 'z, unit) lr_prog" where
  "vested_transfer T orig target schedule r =
     transactional (sbind (ensure_signed orig) (\<lambda>transactor.
       do_vested_transfer T transactor target schedule r))"

definition force_vested_transfer ::
    "('l, 'c) lr_config_scheme \<Rightarrow> origin \<Rightarrow> account \<Rightarrow> account \<Rightarrow> vesting_info \<Rightarrow> reason \<Rightarrow>
     ('l, 'z, unit) lr_prog" where
  "force_vested_transfer T orig source target schedule r =
     transactional (seq (ensure_root orig) (do_vested_transfer T source target schedule r))"

definition merge_schedules ::
    "('l, 'c) lr_config_scheme \<Rightarrow> origin \<Rightarrow> nat \<Rightarrow> nat \<Rightarrow> reason \<Rightarrow> ('l, 'z, unit) lr_prog" where
  "merge_schedules T orig schedule1_index schedule2_index r =
     transactional (sbind (ensure_signed orig) (\<lambda>who.
       if schedule1_index = schedule2_index then ok () else
       sbind (gets (vesting who r)) (\<lambda>found.
       sbind (ok_or found (LRError NotVesting)) (\<lambda>schedules.
       sbind (exec_action T schedules (Merge schedule1_index schedule2_index))
         (\<lambda>(schedules, locked_now).
       seq (write_vesting_schedule T who schedules r)
       (write_release T who locked_now r))))))"

definition vesting_reasons :: "account \<Rightarrow> ('l, 'z) lr_state_scheme \<Rightarrow> reason list" where
  "vesting_reasons who s = map (\<lambda>e. snd (fst e)) (filter (\<lambda>e. fst (fst e) = who) (Vesting s))"

definition vest_all :: "('l, 'c) lr_config_scheme \<Rightarrow> origin \<Rightarrow> ('l, 'z, unit) lr_prog" where
  "vest_all T orig =
     transactional (sbind (ensure_signed orig) (\<lambda>who.
       sbind (gets (vesting_reasons who)) (\<lambda>reasons.
       for_each reasons (\<lambda>r. do_vest T who r))))"

definition vest_all_other ::
    "('l, 'c) lr_config_scheme \<Rightarrow> origin \<Rightarrow> account \<Rightarrow> ('l, 'z, unit) lr_prog" where
  "vest_all_other T orig target =
     transactional (sbind (ensure_signed orig) (\<lambda>_.
       sbind (gets (vesting_reasons target)) (\<lambda>reasons.
       for_each reasons (\<lambda>r. do_vest T target r))))"

end
