(* ===== verification/Linear_Release_Props.thy ===== *)
theory Linear_Release_Props
  imports Linear_Release
begin

text \<open>
  Lemmas and properties of the pallet \<^verbatim>\<open>linear-release\<close>: the schedule arithmetic, the total that a
  list of schedules keeps locked and how the vesting actions change it, the effect of a vesting
  call on the held balance, the interface \<^verbatim>\<open>ReleaseSchedule\<close> as a locale with the pallet as its
  provider, and the storage invariant over all operations of the pallet.
\<close>

section \<open>Schedule arithmetic\<close>

text \<open>The runtime's \<^verbatim>\<open>BlockNumberToBalance\<close> is \<^verbatim>\<open>ConvertInto\<close>, the embedding of \<open>u32\<close> into \<open>u128\<close>.\<close>

definition convert_into :: "(nat \<Rightarrow> nat) \<Rightarrow> bool" where
  "convert_into conv \<longleftrightarrow> (\<forall>n. conv n = n)"

text \<open>A schedule whose fields fit their types and which passed \<open>is_valid\<close>.\<close>

definition schedule_ok :: "vesting_info \<Rightarrow> bool" where
  "schedule_ok v \<longleftrightarrow> is_valid v \<and> vi_locked v \<le> u128_max \<and> vi_per_block v \<le> u128_max \<and>
     vi_starting_block v + vi_locked v \<le> u128_max"

lemma per_block_pos [simp]: "0 < per_block v"
  by (simp add: per_block_def)

lemma locked_at_eq:
  assumes "vi_locked v \<le> u128_max"
  shows "locked_at conv v now = vi_locked v - conv (now - vi_starting_block v) * per_block v"
  using assms by (auto simp: locked_at_def checked_mul_def Let_def)

lemma locked_at_le: "locked_at conv v now \<le> vi_locked v"
  by (auto simp: locked_at_def Let_def split: option.splits)

lemma locked_at_not_started:
  assumes "convert_into conv" and "now \<le> vi_starting_block v"
  shows "locked_at conv v now = vi_locked v"
  using assms by (simp add: locked_at_def convert_into_def checked_mul_def Let_def)

definition duration_of :: "vesting_info \<Rightarrow> nat" where
  "duration_of v =
     (if vi_locked v \<le> per_block v then 1
      else vi_locked v div per_block v + (if vi_locked v mod per_block v = 0 then 0 else 1))"

lemma duration_le_locked: "vi_locked v \<noteq> 0 \<Longrightarrow> duration_of v \<le> vi_locked v"
proof -
  assume l: "vi_locked v \<noteq> 0"
  show ?thesis
  proof (cases "vi_locked v \<le> per_block v")
    case True
    with l show ?thesis by (simp add: duration_of_def)
  next
    case False
    show ?thesis
    proof (cases "per_block v = 1")
      case True
      then show ?thesis using l by (simp add: duration_of_def)
    next
      case False
      then have "1 < per_block v" using per_block_pos [of v] by linarith
      then have "vi_locked v div per_block v < vi_locked v" using l by simp
      with \<open>\<not> vi_locked v \<le> per_block v\<close> show ?thesis by (simp add: duration_of_def)
    qed
  qed
qed

lemma ending_block_eq:
  assumes "convert_into conv" and "schedule_ok v"
  shows "ending_block_as_balance conv v = vi_starting_block v + duration_of v"
proof -
  have "vi_starting_block v + duration_of v \<le> u128_max"
    using assms(2) duration_le_locked [of v] unfolding schedule_ok_def is_valid_def by linarith
  then show ?thesis
    using assms(1)
    by (simp add: ending_block_as_balance_def duration_of_def convert_into_def Let_def
        saturating_add_exact)
qed

lemma ceil_div_le_iff:
  assumes "0 < (p::nat)"
  shows "l div p + (if l mod p = 0 then 0 else 1) \<le> n \<longleftrightarrow> l \<le> n * p"
proof
  assume le: "l div p + (if l mod p = 0 then 0 else 1) \<le> n"
  have l: "l = l div p * p + l mod p" by simp
  show "l \<le> n * p"
  proof (cases "l mod p = 0")
    case True
    then show ?thesis using le l mult_right_mono [of "l div p" n p] by simp
  next
    case False
    then have "Suc (l div p) * p \<le> n * p" using le by (intro mult_right_mono) simp_all
    moreover have "l < Suc (l div p) * p"
      using div_mult_bounds [OF assms, of l] by (simp add: mult.commute)
    ultimately show ?thesis by simp
  qed
next
  assume le: "l \<le> n * p"
  then have q: "l div p \<le> n" using assms by (metis div_le_mono nonzero_mult_div_cancel_right not_gr0)
  show "l div p + (if l mod p = 0 then 0 else 1) \<le> n"
  proof (cases "l mod p = 0")
    case False
    have "l div p \<noteq> n"
    proof
      assume "l div p = n"
      then have "l = n * p + l mod p" by (metis div_mult_mod_eq)
      with le False show False by simp
    qed
    with q show ?thesis by simp
  qed (use q in simp)
qed

lemma duration_le_iff: "vi_locked v \<noteq> 0 \<Longrightarrow> duration_of v \<le> n \<longleftrightarrow> vi_locked v \<le> n * per_block v"
proof -
  assume l: "vi_locked v \<noteq> 0"
  show ?thesis
  proof (cases "vi_locked v \<le> per_block v")
    case True
    then show ?thesis using l by (cases n) (auto simp: duration_of_def)
  next
    case False
    then show ?thesis using ceil_div_le_iff [OF per_block_pos [of v]] by (simp add: duration_of_def)
  qed
qed

lemma duration_pos: "0 < duration_of v"
  by (simp add: duration_of_def div_greater_zero_iff)

lemma locked_at_0_iff:
  assumes "convert_into conv" and "schedule_ok v"
  shows "locked_at conv v now = 0 \<longleftrightarrow> ending_block_as_balance conv v \<le> now"
proof -
  have "vi_locked v \<noteq> 0" "vi_locked v \<le> u128_max"
    using assms(2) by (simp_all add: schedule_ok_def is_valid_def)
  then have "locked_at conv v now = 0 \<longleftrightarrow> duration_of v \<le> now - vi_starting_block v"
    using assms(1) by (simp add: locked_at_eq duration_le_iff convert_into_def)
  moreover have "1 \<le> duration_of v" using duration_pos [of v] by simp
  ultimately show ?thesis using ending_block_eq [OF assms] by auto
qed

text \<open>
  What is locked and what can be released of a schedule add up to its amount, unless the
  product of elapsed blocks and per-block amount overflows \<open>u128\<close>: then both functions report
  zero, \<open>locked_at\<close> because everything is vested and \<open>releaseble_at\<close> because of its fallback.
\<close>

theorem locked_plus_releaseble:
  assumes "vi_locked v \<le> u128_max"
  shows "locked_at conv v now + releaseble_at conv v now =
    (if conv (now - vi_starting_block v) * per_block v \<le> u128_max then vi_locked v else 0)"
  using assms by (auto simp: locked_at_def releaseble_at_def checked_mul_def Let_def min_def)

text \<open>
  A schedule is fully vested exactly from its ending block on: \<open>locked_at\<close> is zero if and only
  if the block reported by \<open>ending_block_as_balance\<close> has been reached.
\<close>

theorem locked_at_zero_iff_ended:
  assumes "convert_into conv" and "schedule_ok v"
  shows "locked_at conv v now = 0 \<longleftrightarrow> ending_block_as_balance conv v \<le> now"
  using assms by (rule locked_at_0_iff)

section \<open>Totals over a list of schedules\<close>

definition total_locked :: "(nat \<Rightarrow> nat) \<Rightarrow> nat \<Rightarrow> vesting_info list \<Rightarrow> nat" where
  "total_locked conv now schedules = sum_list (map (\<lambda>v. locked_at conv v now) schedules)"

definition unfinished :: "(nat \<Rightarrow> nat) \<Rightarrow> nat \<Rightarrow> vesting_info list \<Rightarrow> vesting_info list" where
  "unfinished conv now schedules = filter (\<lambda>v. locked_at conv v now \<noteq> 0) schedules"

lemma foldl_map_saturating_add:
  "foldl (\<lambda>total x. saturating_add total (f x)) 0 xs = min u128_max (sum_list (map f xs))"
  using foldl_map [of saturating_add 0 f xs] saturating_sum_eq [of "map f xs"]
  by (simp add: saturating_sum_def)

lemma sum_list_filter_nonzero: "sum_list (map f (filter (\<lambda>x. (0::nat) < f x) xs)) = sum_list (map f xs)"
  by (induction xs) auto

lemma report_schedule_updates_eq:
  "report_schedule_updates T now schedules act =
     (unfinished (BlockNumberToBalance T) now (pick_schedules act schedules),
      min u128_max (total_locked (BlockNumberToBalance T) now (pick_schedules act schedules)))"
  by (simp add: report_schedule_updates_def Let_def foldl_map_saturating_add unfinished_def
      total_locked_def sum_list_filter_nonzero)

lemma pick_schedules_Passive [simp]: "pick_schedules Passive schedules = schedules"
  by (simp add: pick_schedules_def case_prod_unfold)

lemma unfinished_unfinished [simp]:
  "unfinished conv now (unfinished conv now vs) = unfinished conv now vs"
  by (simp add: unfinished_def)

lemma total_locked_unfinished [simp]:
  "total_locked conv now (unfinished conv now vs) = total_locked conv now vs"
  by (simp add: total_locked_def unfinished_def sum_list_filter_nonzero)

lemma total_locked_0_iff: "total_locked conv now vs = 0 \<longleftrightarrow> unfinished conv now vs = []"
  by (auto simp: total_locked_def unfinished_def filter_empty_conv)

lemma total_locked_append [simp]:
  "total_locked conv now (vs @ ws) = total_locked conv now vs + total_locked conv now ws"
  by (simp add: total_locked_def)

lemma total_locked_Cons [simp]:
  "total_locked conv now (v # vs) = locked_at conv v now + total_locked conv now vs"
  by (simp add: total_locked_def)

lemma total_locked_Nil [simp]: "total_locked conv now [] = 0"
  by (simp add: total_locked_def)

lemma pick_schedules_nth:
  "pick_schedules act xs = map ((!) xs) (filter (\<lambda>k. \<not> should_remove act k) [0..<length xs])"
proof (induction xs rule: rev_induct)
  case Nil
  then show ?case by (simp add: pick_schedules_def)
next
  case (snoc x xs)
  have "map ((!) (xs @ [x])) (filter (\<lambda>k. \<not> should_remove act k) [0..<length xs]) =
      map ((!) xs) (filter (\<lambda>k. \<not> should_remove act k) [0..<length xs])"
    by (rule map_cong) (auto simp: nth_append)
  with snoc show ?case by (simp add: pick_schedules_def enumerate_append_eq)
qed

lemma pick_schedules_sum:
  "sum_list (map f (pick_schedules act xs)) =
   (\<Sum>k\<in>{k. k < length xs \<and> \<not> should_remove act k}. f (xs ! k))"
proof -
  have "sum_list (map f (pick_schedules act xs)) =
      sum_list (map (\<lambda>k. f (xs ! k)) (filter (\<lambda>k. \<not> should_remove act k) [0..<length xs]))"
    by (simp add: pick_schedules_nth comp_def)
  also have "\<dots> = (\<Sum>k\<in>set (filter (\<lambda>k. \<not> should_remove act k) [0..<length xs]). f (xs ! k))"
    by (rule sum_list_distinct_conv_sum_set) simp
  also have "set (filter (\<lambda>k. \<not> should_remove act k) [0..<length xs]) =
      {k. k < length xs \<and> \<not> should_remove act k}" by auto
  finally show ?thesis .
qed

lemma sum_list_pair_le:
  assumes "i \<noteq> j" and "i < length vs" and "j < length vs"
  shows "(f (vs ! i) :: nat) + f (vs ! j) \<le> sum_list (map f vs)"
proof -
  have "sum_list (map f vs) = (\<Sum>k\<in>{..<length vs}. f (vs ! k))"
    by (simp add: sum_list_sum_nth atLeast0LessThan)
  moreover have "(\<Sum>k\<in>{i, j}. f (vs ! k)) \<le> (\<Sum>k\<in>{..<length vs}. f (vs ! k))"
    using assms by (intro sum_mono2) auto
  ultimately show ?thesis using assms(1) by simp
qed

lemma total_locked_Merge:
  assumes "i \<noteq> j" and "i < length vs" and "j < length vs"
  shows "total_locked conv now (pick_schedules (Merge i j) vs) +
    locked_at conv (vs ! i) now + locked_at conv (vs ! j) now = total_locked conv now vs"
proof -
  let ?f = "\<lambda>v. locked_at conv v now" and ?K = "{k. k < length vs \<and> \<not> (i = k \<or> j = k)}"
  have "total_locked conv now vs = (\<Sum>k\<in>{..<length vs}. ?f (vs ! k))"
    by (simp add: total_locked_def sum_list_sum_nth atLeast0LessThan)
  also have "{..<length vs} = insert i (insert j ?K)" using assms by auto
  also have "(\<Sum>k\<in>insert i (insert j ?K). ?f (vs ! k)) = ?f (vs ! i) + (?f (vs ! j) + (\<Sum>k\<in>?K. ?f (vs ! k)))"
    using assms(1) by simp
  finally show ?thesis by (simp add: total_locked_def pick_schedules_sum)
qed

lemma length_pick_schedules_le: "length (pick_schedules act vs) \<le> length vs"
  unfolding pick_schedules_nth using length_filter_le [of _ "[0..<length vs]"] by simp

lemma set_pick_schedules: "set (pick_schedules act vs) \<subseteq> set vs"
  by (auto simp: pick_schedules_nth)

lemma length_unfinished_le: "length (unfinished conv now vs) \<le> length vs"
  by (simp add: unfinished_def)

lemma set_unfinished: "set (unfinished conv now vs) \<subseteq> set vs"
  by (auto simp: unfinished_def)

lemma pick_schedules_Remove_0: "pick_schedules (Remove 0) vs = tl vs"
proof (cases vs)
  case Nil
  then show ?thesis by (simp add: pick_schedules_def)
next
  case (Cons v ws)
  have "map ((!) vs) (filter (\<lambda>k. \<not> should_remove (Remove 0) k) [0..<length vs]) =
      map ((!) vs) [1..<length vs]"
    using Cons by (auto simp: upt_conv_Cons filter_id_conv Suc_le_eq)
  also have "\<dots> = map (\<lambda>k. vs ! Suc k) [0..<length ws]"
    using Cons by (simp add: map_Suc_upt [symmetric] comp_def del: upt_Suc)
  also have "\<dots> = ws" using Cons by (simp add: map_nth)
  finally show ?thesis using Cons by (simp add: pick_schedules_nth)
qed

section \<open>Merging\<close>

lemma ended_locked_at_0:
  assumes "convert_into conv" "schedule_ok v"
  shows "ending_block_as_balance conv v \<le> conv now \<longleftrightarrow> locked_at conv v now = 0"
  using locked_at_0_iff [OF assms] assms(1) by (simp add: convert_into_def)

lemma merge_vesting_info_locked:
  assumes "convert_into (BlockNumberToBalance T)" "schedule_ok v" "schedule_ok w"
    and "vi_locked v + vi_locked w \<le> u128_max"
  shows "(case merge_vesting_info T now v w of
            None \<Rightarrow> 0 | Some m \<Rightarrow> locked_at (BlockNumberToBalance T) m now) =
    locked_at (BlockNumberToBalance T) v now + locked_at (BlockNumberToBalance T) w now"
proof -
  let ?c = "BlockNumberToBalance T"
  let ?b = "max (max now (vi_starting_block v)) (vi_starting_block w)"
  have sum: "saturating_add (locked_at ?c v now) (locked_at ?c w now) =
      locked_at ?c v now + locked_at ?c w now"
    using locked_at_le [of ?c v now] locked_at_le [of ?c w now] assms(4)
    by (intro saturating_add_exact) linarith
  have start: "locked_at ?c (new_vesting_info l p ?b) now = l" for l p
    by (subst locked_at_not_started) (use assms(1) in \<open>auto simp: new_vesting_info_def\<close>)
  show ?thesis
    by (auto simp: merge_vesting_info_def Let_def ended_locked_at_0 [OF assms(1,2)]
        ended_locked_at_0 [OF assms(1,3)] sum start)
qed

lemma exec_action_Passive:
  "exec_action T vs Passive s =
     (let conv = BlockNumberToBalance T; now = block_number s in
      (Inr (unfinished conv now vs, min u128_max (total_locked conv now vs)), s))"
  by (simp add: exec_action_def prog_defs report_schedule_updates_eq Let_def)

lemma exec_action_Remove:
  "exec_action T vs (Remove i) s =
     (let conv = BlockNumberToBalance T; now = block_number s; ws = pick_schedules (Remove i) vs in
      (Inr (unfinished conv now ws, min u128_max (total_locked conv now ws)), s))"
  by (simp add: exec_action_def prog_defs report_schedule_updates_eq Let_def)

lemma exec_action_Merge:
  assumes "i < length vs" "j < length vs"
  shows "exec_action T vs (Merge i j) s =
     (let conv = BlockNumberToBalance T; now = block_number s;
          ws = pick_schedules (Merge i j) vs; l = min u128_max (total_locked conv now ws)
      in (Inr (case merge_vesting_info T now (vs ! i) (vs ! j) of
                 Some m \<Rightarrow> (unfinished conv now ws @ [m], saturating_add l (locked_at conv m now))
               | None \<Rightarrow> (unfinished conv now ws, l)), s))"
  using assms
  by (simp add: exec_action_def prog_defs report_schedule_updates_eq Let_def split: option.split)

text \<open>
  C27. Merging two schedules neither creates nor frees a locked amount: after \<^verbatim>\<open>exec_action\<close> with
  \<open>Merge\<close> the remaining schedules lock, at the current block, exactly what they locked before, and
  the reported total (on which \<^verbatim>\<open>write_release\<close> bases the release) is that amount.
\<close>

theorem merge_conserves_locked:
  assumes conv: "convert_into (BlockNumberToBalance T)"
    and vs: "\<forall>v\<in>set vs. schedule_ok v" "i \<noteq> j" "i < length vs" "j < length vs"
    and fits: "sum_list (map vi_locked vs) \<le> u128_max"
  shows "\<exists>vs'. exec_action T vs (Merge i j) s =
       (Inr (vs', total_locked (BlockNumberToBalance T) (block_number s) vs), s) \<and>
     total_locked (BlockNumberToBalance T) (block_number s) vs' =
       total_locked (BlockNumberToBalance T) (block_number s) vs"
proof -
  let ?c = "BlockNumberToBalance T" and ?now = "block_number s"
  let ?ws = "pick_schedules (Merge i j) vs" and ?m = "merge_vesting_info T ?now (vs ! i) (vs ! j)"
  let ?t = "total_locked ?c ?now"
  have tl: "?t vs \<le> u128_max"
    using fits sum_list_mono [of vs "\<lambda>v. locked_at ?c v ?now" vi_locked] locked_at_le
    by (fastforce simp: total_locked_def)
  have split: "?t ?ws + locked_at ?c (vs ! i) ?now + locked_at ?c (vs ! j) ?now = ?t vs"
    using total_locked_Merge [OF vs(2-4)] .
  have two: "vi_locked (vs ! i) + vi_locked (vs ! j) \<le> u128_max"
    using sum_list_pair_le [OF vs(2-4), of vi_locked] fits by linarith
  have m: "(case ?m of None \<Rightarrow> 0 | Some m \<Rightarrow> locked_at ?c m ?now) =
      locked_at ?c (vs ! i) ?now + locked_at ?c (vs ! j) ?now"
    using merge_vesting_info_locked [OF conv _ _ two] vs by simp
  show ?thesis
  proof (cases ?m)
    case None
    with m split tl have "exec_action T vs (Merge i j) s = (Inr (unfinished ?c ?now ?ws, ?t vs), s)"
      by (simp add: exec_action_Merge [OF vs(3,4)] Let_def)
    moreover have "?t (unfinished ?c ?now ?ws) = ?t vs" using None m split by simp
    ultimately show ?thesis by blast
  next
    case (Some w)
    with m split tl
    have "exec_action T vs (Merge i j) s = (Inr (unfinished ?c ?now ?ws @ [w], ?t vs), s)"
      by (simp add: exec_action_Merge [OF vs(3,4)] Let_def saturating_add_def)
    moreover have "?t (unfinished ?c ?now ?ws @ [w]) = ?t vs" using Some m split by simp
    ultimately show ?thesis by blast
  qed
qed

definition demo_lr_config :: "plain_ledger lr_config" where
  "demo_lr_config =
     \<lparr>Currency = plain_currency, BlockNumberToBalance = (\<lambda>n. n), MinVestedTransfer = 10,
      MAX_VESTING_SCHEDULES = 4, hash_vesting = fst\<rparr>"

definition demo_schedules :: "vesting_info list" where
  "demo_schedules = [new_vesting_info 100 10 0, new_vesting_info 60 7 2]"

definition demo_lr_state :: "plain_ledger lr_state" where
  "demo_lr_state =
     \<lparr>block_number = 5, ext = \<lparr>free = (\<lambda>_. 1000), held = (\<lambda>_ _. 500)\<rparr>,
      Vesting = [((1, FundingReason Participation), demo_schedules)], lr_events = []\<rparr>"

lemmas demo_lr_defs = demo_lr_config_def demo_schedules_def demo_lr_state_def

lemma demo_schedules_ok: "\<forall>v\<in>set demo_schedules. schedule_ok v"
  by (simp add: demo_schedules_def schedule_ok_def is_valid_def new_vesting_info_def u128_max_def)

lemma demo_convert: "convert_into (BlockNumberToBalance demo_lr_config)"
  by (simp add: convert_into_def demo_lr_config_def)

theorem merge_conserves_locked_witness:
  "\<exists>vs'. exec_action demo_lr_config demo_schedules (Merge 0 1) demo_lr_state =
       (Inr (vs', 89), demo_lr_state) \<and> total_locked (\<lambda>n. n) 5 vs' = 89"
proof -
  have "total_locked (\<lambda>n. n) 5 demo_schedules = 89"
    by (simp add: demo_schedules_def total_locked_def locked_at_def new_vesting_info_def
        per_block_def u_defs)
  then show ?thesis
    using merge_conserves_locked [OF demo_convert demo_schedules_ok, of 0 1 demo_lr_state]
    by (simp add: demo_lr_defs new_vesting_info_def u128_max_def)
qed

section \<open>The effect of a vesting call\<close>

text \<open>
  What a write of schedules \<open>vs\<close> that lock \<open>l\<close>, followed by the release, does to the state: the
  entry is the new list (or gone when it is empty), the hold is cut down to \<open>l\<close> when it was above,
  and no other entry and no other hold changes.
\<close>

definition vested_to ::
    "('l, 'c) lr_config_scheme \<Rightarrow> account \<Rightarrow> reason \<Rightarrow> vesting_info list \<Rightarrow> nat \<Rightarrow>
     ('l, 'z) lr_state_scheme \<Rightarrow> ('l, 'z) lr_state_scheme \<Rightarrow> bool" where
  "vested_to T who r vs l s t \<longleftrightarrow>
     vesting who r t = (if vs = [] then None else Some vs) \<and>
     balance_on_hold T r who t = min (balance_on_hold T r who s) l \<and>
     block_number t = block_number s \<and>
     (\<forall>who' r'. (who', r') \<noteq> (who, r) \<longrightarrow>
        vesting who' r' t = vesting who' r' s \<and>
        balance_on_hold T r' who' t = balance_on_hold T r' who' s)"

lemma write_vesting_schedule_vesting:
  assumes "write_vesting_schedule T who vs r s = (Inr u, t)"
  shows "vesting who' r' t =
      (if (who', r') = (who, r) then (if vs = [] then None else Some vs) else vesting who' r' s)"
    and "ext t = ext s" and "block_number t = block_number s" and "length vs \<le> MAX_VESTING_SCHEDULES T"
  using assms
  by (auto simp: write_vesting_schedule_def prog_simps vesting_def nmap_get_insert nmap_get_remove
      split: if_splits)

lemma write_vesting_schedule_ok:
  "length vs \<le> MAX_VESTING_SCHEDULES T \<Longrightarrow>
   \<exists>t. write_vesting_schedule T who vs r s = (Inr (), t)"
  by (simp add: write_vesting_schedule_def prog_defs)

lemma release_min:
  assumes "release_laws C" "c_release C r who (c_balance_on_hold C r who l - m) BestEffort l = (Inr n, l')"
  shows "c_balance_on_hold C r who l' = min (c_balance_on_hold C r who l) m"
  using release_lawsD(3,5) [OF assms] by simp

lemma write_release_eq:
  "write_release T who l r s =
     (case c_release (Currency T) r who (balance_on_hold T r who s - l) BestEffort (ext s) of
        (Inl e, k) \<Rightarrow> (Inl e, s\<lparr>ext := k\<rparr>)
      | (Inr n, k) \<Rightarrow>
          (Inr (), s\<lparr>ext := k, lr_events := lr_events s @
             [if l = 0 then VestingCompleted who else VestingUpdated who l]\<rparr>))"
  by (simp add: write_release_def prog_defs Let_def deposit_lr_event_def
      split: prod.split sum.split)

lemma write_release_effect:
  assumes "release_laws (Currency T)" "write_release T who l r s = (Inr u, t)"
  shows "balance_on_hold T r who t = min (balance_on_hold T r who s) l"
    and "(r', who') \<noteq> (r, who) \<Longrightarrow> balance_on_hold T r' who' t = balance_on_hold T r' who' s"
    and "Vesting t = Vesting s" and "block_number t = block_number s"
proof -
  obtain n k where
    c: "c_release (Currency T) r who (balance_on_hold T r who s - l) BestEffort (ext s) = (Inr n, k)"
    and t: "ext t = k" "Vesting t = Vesting s" "block_number t = block_number s"
    using assms(2) by (auto simp: write_release_eq split: prod.splits sum.splits)
  show "balance_on_hold T r who t = min (balance_on_hold T r who s) l"
    using release_min [OF assms(1) c [unfolded balance_on_hold_def]] t(1)
    by (simp add: balance_on_hold_def)
  show "(r', who') \<noteq> (r, who) \<Longrightarrow> balance_on_hold T r' who' t = balance_on_hold T r' who' s"
    using release_lawsD(6) [OF assms(1) c, of r' who'] t(1) by (simp add: balance_on_hold_def)
qed (use assms(2) in \<open>auto simp: write_release_eq split: prod.splits sum.splits\<close>)

lemma write_release_ok:
  assumes "release_total (Currency T)"
  shows "\<exists>t. write_release T who l r s = (Inr (), t)"
proof -
  obtain n k where
    "c_release (Currency T) r who (balance_on_hold T r who s - l) BestEffort (ext s) = (Inr n, k)"
    using assms unfolding release_total_def by blast
  then show ?thesis by (simp add: write_release_eq)
qed

lemma write_and_release:
  assumes "release_laws (Currency T)" "release_total (Currency T)"
    and "length vs \<le> MAX_VESTING_SCHEDULES T"
  shows "\<exists>t. seq (write_vesting_schedule T who vs r) (write_release T who l r) s = (Inr (), t) \<and>
    vested_to T who r vs l s t"
proof -
  obtain u where u: "write_vesting_schedule T who vs r s = (Inr (), u)"
    using write_vesting_schedule_ok [OF assms(3)] by blast
  obtain t where t: "write_release T who l r u = (Inr (), t)"
    using write_release_ok [OF assms(2)] by blast
  note wu = write_vesting_schedule_vesting [OF u] and wt = write_release_effect [OF assms(1) t]
  have "vesting a b t = vesting a b u" for a b using wt(3) by (simp add: vesting_def)
  moreover have "balance_on_hold T a b u = balance_on_hold T a b s" for a b
    using wu(2) by (simp add: balance_on_hold_def)
  ultimately have "vested_to T who r vs l s t"
    using wu wt by (auto simp: vested_to_def)
  then show ?thesis using u t by (auto simp: prog_simps)
qed

lemma do_vest_vested_to:
  assumes "release_laws (Currency T)" "release_total (Currency T)"
    and "vesting who r s = Some vs" "length vs \<le> MAX_VESTING_SCHEDULES T"
  shows "\<exists>t. do_vest T who r s = (Inr (), t) \<and>
    vested_to T who r (unfinished (BlockNumberToBalance T) (block_number s) vs)
      (min u128_max (total_locked (BlockNumberToBalance T) (block_number s) vs)) s t"
proof -
  let ?vs = "unfinished (BlockNumberToBalance T) (block_number s) vs"
  have "length ?vs \<le> MAX_VESTING_SCHEDULES T"
    using assms(4) length_unfinished_le order_trans by blast
  from write_and_release [OF assms(1,2) this, of who r _ s] show ?thesis
    using assms(3)
    by (simp add: do_vest_def sbind_def gets_def ok_or_def exec_action_Passive Let_def)
qed

text \<open>
  C26. A vesting call, which anyone may make for any account, succeeds for every account with
  schedules: the entry keeps exactly the unfinished schedules, and the hold is cut down to what
  they lock. The release is computed from the whole hold, so an amount held for the same reason
  that no schedule covers is released too. Nothing else changes.
\<close>

theorem vest_other_effect:
  assumes "release_laws (Currency T)" "release_total (Currency T)"
    and "vesting target r s = Some vs" "length vs \<le> MAX_VESTING_SCHEDULES T"
  shows "\<exists>t. vest_other T (Signed who) target r s = (Inr (), t) \<and>
    vested_to T target r (unfinished (BlockNumberToBalance T) (block_number s) vs)
      (min u128_max (total_locked (BlockNumberToBalance T) (block_number s) vs)) s t"
  using do_vest_vested_to [OF assms]
  by (auto simp: vest_other_def transactional_def sbind_def ensure_signed_def ok_def)

theorem vest_other_effect_witness:
  "\<exists>t. vest_other demo_lr_config (Signed 9) 1 (FundingReason Participation) demo_lr_state = (Inr (), t) \<and>
     balance_on_hold demo_lr_config (FundingReason Participation) 1 t = 89"
proof -
  have v: "vesting 1 (FundingReason Participation) demo_lr_state = Some demo_schedules"
    by (simp add: vesting_def demo_lr_state_def nmap_get_def)
  have "total_locked (\<lambda>n. n) 5 demo_schedules = 89"
    by (simp add: demo_schedules_def total_locked_def locked_at_def new_vesting_info_def
        per_block_def u_defs)
  then show ?thesis
    using vest_other_effect [OF _ _ v, of demo_lr_config 9]
      plain_release_laws plain_release_total
    by (auto simp: vested_to_def balance_on_hold_def plain_currency_def demo_lr_defs u128_max_def)
qed

lemma vested_to_trans:
  "vested_to T who r vs l s t \<Longrightarrow> vested_to T who r vs' l' t u \<Longrightarrow> l' \<le> l \<Longrightarrow>
   vested_to T who r vs' l' s u"
  by (auto simp: vested_to_def min_def)

text \<open>
  Vesting is idempotent within a block: a second call for the same account and reason finds
  the same schedules and releases nothing more (or finds none when the first call removed the last).
\<close>

theorem do_vest_idempotent:
  assumes "release_laws (Currency T)" "release_total (Currency T)"
    and "vesting who r s = Some vs" "length vs \<le> MAX_VESTING_SCHEDULES T"
    and "do_vest T who r s = (Inr (), t)"
  shows "if vesting who r t = None then do_vest T who r t = (Inl (LRError NotVesting), t)
    else \<exists>u. do_vest T who r t = (Inr (), u) \<and> vesting who r u = vesting who r t \<and>
      balance_on_hold T r who u = balance_on_hold T r who t"
proof (cases "vesting who r t")
  case None
  then show ?thesis by (simp add: do_vest_def prog_defs)
next
  case (Some ws)
  let ?c = "BlockNumberToBalance T" and ?now = "block_number s"
  have t: "vested_to T who r (unfinished ?c ?now vs) (min u128_max (total_locked ?c ?now vs)) s t"
    using do_vest_vested_to [OF assms(1-4)] assms(5) by auto
  with Some have ws: "ws = unfinished ?c ?now vs" "ws \<noteq> []" "block_number t = ?now"
    by (auto simp: vested_to_def split: if_splits)
  have "length ws \<le> MAX_VESTING_SCHEDULES T"
    using assms(4) length_unfinished_le [of ?c ?now vs] by (simp add: ws(1))
  from do_vest_vested_to [OF assms(1,2) Some this] ws
  obtain u where "do_vest T who r t = (Inr (), u)"
      "vested_to T who r ws (min u128_max (total_locked ?c ?now vs)) t u"
    by auto
  with Some t ws(2) show ?thesis by (auto simp: vested_to_def)
qed

section \<open>Removing all schedules\<close>

abbreviation remove_first ::
    "('l, 'c) lr_config_scheme \<Rightarrow> account \<Rightarrow> reason \<Rightarrow> ('l, 'z, unit) lr_prog" where
  "remove_first T who r \<equiv>
     sbind (gets (vesting who r)) (\<lambda>found.
     sbind (ok_or found (LRError NotVesting)) (\<lambda>current_schedules.
     sbind (exec_action T current_schedules (Remove 0)) (\<lambda>(schedules, locked_now).
     seq (write_vesting_schedule T who schedules r)
     (write_release T who locked_now r))))"

lemma remove_first_vested_to:
  assumes "release_laws (Currency T)" "release_total (Currency T)"
    and "vesting who r s = Some vs" "length vs \<le> MAX_VESTING_SCHEDULES T"
  shows "\<exists>t. remove_first T who r s = (Inr (), t) \<and>
    vested_to T who r (unfinished (BlockNumberToBalance T) (block_number s) (tl vs))
      (min u128_max (total_locked (BlockNumberToBalance T) (block_number s) (tl vs))) s t"
proof -
  let ?vs = "unfinished (BlockNumberToBalance T) (block_number s) (tl vs)"
  have "length ?vs \<le> MAX_VESTING_SCHEDULES T"
    using assms(4) length_unfinished_le [of "BlockNumberToBalance T" "block_number s" "tl vs"]
    by simp
  from write_and_release [OF assms(1,2) this, of who r _ s] show ?thesis
    using assms(3)
    by (simp add: sbind_def gets_def ok_or_def exec_action_Remove pick_schedules_Remove_0 Let_def)
qed

lemma remove_loop:
  assumes laws: "release_laws (Currency T)" "release_total (Currency T)"
    and "vesting who r s = Some vs" "vs \<noteq> []" "length vs \<le> MAX_VESTING_SCHEDULES T"
    and "unfinished (BlockNumberToBalance T) (block_number s) (tl vs) = tl vs" "length vs \<le> length xs"
  shows "if length xs = length vs
    then \<exists>t. for_each xs (\<lambda>_. remove_first T who r) s = (Inr (), t) \<and> vested_to T who r [] 0 s t
    else fst (for_each xs (\<lambda>_. remove_first T who r) s) = Inl (LRError NotVesting)"
  using assms(3-)
proof (induction xs arbitrary: s vs)
  case Nil
  then show ?case by simp
next
  case (Cons x xs)
  let ?c = "BlockNumberToBalance T" and ?now = "block_number s"
  obtain t where t: "remove_first T who r s = (Inr (), t)"
      "vested_to T who r (tl vs) (min u128_max (total_locked ?c ?now (tl vs))) s t"
    using remove_first_vested_to [OF laws Cons.prems(1,3)] Cons.prems(4) by auto
  have now: "block_number t = ?now" using t(2) by (simp add: vested_to_def)
  have step: "for_each (x # xs) (\<lambda>_. remove_first T who r) s = for_each xs (\<lambda>_. remove_first T who r) t"
    using t(1) by (simp add: seq_def sbind_def)
  show ?case
  proof (cases "tl vs = []")
    case True
    then have v: "vesting who r t = None" and one: "length vs = 1"
      using t(2) Cons.prems(2) by (auto simp: vested_to_def) (cases vs; simp)
    show ?thesis
    proof (cases xs)
      case Nil
      then show ?thesis using step t(2) True one by (simp add: ok_def)
    next
      case (Cons y ys)
      have "fst (for_each xs (\<lambda>_. remove_first T who r) t) = Inl (LRError NotVesting)"
        using v by (simp add: Cons prog_defs)
      then show ?thesis using step one Cons by simp
    qed
  next
    case False
    then have v: "vesting who r t = Some (tl vs)" using t(2) by (simp add: vested_to_def)
    have "unfinished ?c ?now (tl (tl vs)) = tl (tl vs)"
      using Cons.prems(4) by (auto simp: unfinished_def filter_id_conv list.set_sel(2) False)
    then have "if length xs = length (tl vs)
        then \<exists>u. for_each xs (\<lambda>_. remove_first T who r) t = (Inr (), u) \<and> vested_to T who r [] 0 t u
        else fst (for_each xs (\<lambda>_. remove_first T who r) t) = Inl (LRError NotVesting)"
      using Cons.IH [OF v False] Cons.prems now by simp
    moreover have "length (x # xs) = length vs \<longleftrightarrow> length xs = length (tl vs)"
      using Cons.prems(2) by (cases vs) auto
    ultimately show ?thesis using step vested_to_trans [OF t(2)] by (auto split: if_splits)
  qed
qed

lemma remove_loop_finished:
  assumes laws: "release_laws (Currency T)" "release_total (Currency T)"
    and v: "vesting who r s = Some vs" "length vs \<le> MAX_VESTING_SCHEDULES T"
    and fin: "unfinished (BlockNumberToBalance T) (block_number s) (tl vs) \<noteq> tl vs"
  shows "fst (for_each [0..<length vs] (\<lambda>_. remove_first T who r) s) = Inl (LRError NotVesting)"
proof -
  let ?c = "BlockNumberToBalance T" and ?now = "block_number s"
  let ?ws = "unfinished ?c ?now (tl vs)"
  have "tl vs \<noteq> []" using fin by (auto simp: unfinished_def)
  then obtain w ws where vs: "vs = w # ws" "ws \<noteq> []" by (cases vs) auto
  then have "0 < length vs" by simp
  then have split: "[0..<length vs] = 0 # [1..<length vs]" by (subst upt_rec) simp
  obtain t where t: "remove_first T who r s = (Inr (), t)"
      "vested_to T who r ?ws (min u128_max (total_locked ?c ?now (tl vs))) s t"
    using remove_first_vested_to [OF laws v] by blast
  have step: "for_each [0..<length vs] (\<lambda>_. remove_first T who r) s =
      for_each [1..<length vs] (\<lambda>_. remove_first T who r) t"
    unfolding split using t(1) by (simp add: seq_def sbind_def)
  have less: "length ?ws < length (tl vs)"
    using fin length_filter_less [of _ "tl vs"] by (fastforce simp: unfinished_def filter_id_conv)
  show ?thesis
  proof (cases "?ws = []")
    case True
    then have "vesting who r t = None" using t(2) by (simp add: vested_to_def)
    moreover have "1 < length vs" using vs by simp
    then have "[1..<length vs] = 1 # [2..<length vs]" by (subst upt_rec) (simp add: numeral_2_eq_2)
    ultimately show ?thesis unfolding step by (simp add: prog_defs)
  next
    case False
    have "vesting who r t = Some ?ws" "block_number t = ?now"
      using t(2) False by (auto simp: vested_to_def)
    moreover have "unfinished ?c ?now (tl ?ws) = tl ?ws"
      using False by (auto simp: unfinished_def filter_id_conv dest: list.set_sel(2))
    ultimately show ?thesis
      using remove_loop [OF laws, of who r t ?ws "[1..<length vs]"] False less v(2) step by simp
  qed
qed

text \<open>
  \<^verbatim>\<open>remove_all_vesting_schedules\<close> removes every schedule and releases the whole hold only
  when every schedule but the first is unfinished. As soon as one of them is already fully vested
  the loop, which counts the schedules once but drops finished ones on the way, runs out of
  schedules and fails with \<open>NotVesting\<close>.
\<close>

theorem remove_all_vesting_schedules_result:
  assumes "release_laws (Currency T)" "release_total (Currency T)"
    and "vesting who r s = Some vs" "vs \<noteq> []" "length vs \<le> MAX_VESTING_SCHEDULES T"
  shows "if \<forall>v\<in>set (tl vs). locked_at (BlockNumberToBalance T) v (block_number s) \<noteq> 0
    then \<exists>t. remove_all_vesting_schedules T who r s = (Inr (), t) \<and> vested_to T who r [] 0 s t
    else fst (remove_all_vesting_schedules T who r s) = Inl (LRError NotVesting)"
proof -
  have loop: "remove_all_vesting_schedules T who r s =
      for_each [0..<length vs] (\<lambda>_. remove_first T who r) s"
    using assms(3) by (simp add: remove_all_vesting_schedules_def sbind_def gets_def ok_or_def)
  have "(\<forall>v\<in>set (tl vs). locked_at (BlockNumberToBalance T) v (block_number s) \<noteq> 0) \<longleftrightarrow>
      unfinished (BlockNumberToBalance T) (block_number s) (tl vs) = tl vs"
    by (simp add: unfinished_def filter_id_conv)
  then show ?thesis
    using remove_loop [OF assms, of "[0..<length vs]"] remove_loop_finished [OF assms(1-3,5)] loop
    by auto
qed

section \<open>The storage invariant\<close>

text \<open>
  Every entry of \<open>Vesting\<close> holds at least one and at most the configured number of schedules, each
  of them valid and within its type, and no account has two entries for one reason.
\<close>

definition schedule_valid :: "vesting_info \<Rightarrow> bool" where
  "schedule_valid v \<longleftrightarrow> is_valid v \<and> vi_locked v \<le> u128_max"

definition entry_ok :: "('l, 'c) lr_config_scheme \<Rightarrow> vesting_info list \<Rightarrow> bool" where
  "entry_ok T vs \<longleftrightarrow>
     vs \<noteq> [] \<and> length vs \<le> MAX_VESTING_SCHEDULES T \<and> (\<forall>v\<in>set vs. schedule_valid v)"

definition lr_inv :: "('l, 'c) lr_config_scheme \<Rightarrow> ('l, 'z) lr_state_scheme \<Rightarrow> bool" where
  "lr_inv T s \<longleftrightarrow> nmap_wf (Vesting s) \<and>
     (\<forall>e\<in>set (Vesting s). entry_ok T (snd e))"

lemma lr_inv_vesting:
  "lr_inv T s \<Longrightarrow> vesting who r s = Some vs \<Longrightarrow> entry_ok T vs"
  by (fastforce simp: lr_inv_def vesting_def nmap_get_in_set)

lemma lr_inv_cong: "Vesting t = Vesting s \<Longrightarrow> lr_inv T t = lr_inv T s"
  by (simp add: lr_inv_def)

lemma lr_inv_ext [simp]: "lr_inv T (s\<lparr>ext := l\<rparr>) = lr_inv T s"
  by (simp add: lr_inv_def)

lemma keeps_deposit_lr_event [keeps_rules]: "keeps (lr_inv T) (deposit_lr_event e)"
  by (auto simp: keeps_def deposit_lr_event_def modify_def lr_inv_def)

lemma keeps_lr_on_ext [keeps_rules]: "keeps (lr_inv T) (on_ext m)"
  by (rule keeps_on_ext) simp

lemma keeps_write_release [keeps_rules]: "keeps (lr_inv T) (write_release T' who l r)"
  unfolding write_release_def Let_def by (intro keeps_rules)

lemma keeps_write_vesting_schedule:
  assumes "\<forall>v\<in>set vs. schedule_valid v"
  shows "keeps (lr_inv T) (write_vesting_schedule T who vs r)"
proof (rule keepsI)
  fix s assume inv: "lr_inv T s"
  then have wf: "nmap_wf (Vesting s)" by (simp add: lr_inv_def)
  show "lr_inv T (snd (write_vesting_schedule T who vs r s))"
    using inv assms wf nm.entries_remove [OF wf] nm.entries_insert [OF wf]
    by (auto simp: write_vesting_schedule_def prog_defs lr_inv_def entry_ok_def nm.wf_insert
        nm.wf_remove)
qed

lemma merge_vesting_info_valid:
  assumes "convert_into (BlockNumberToBalance T)" "schedule_valid v" "schedule_valid w"
    and "merge_vesting_info T now v w = Some m"
  shows "schedule_valid m"
proof -
  let ?c = "BlockNumberToBalance T"
  have pos: "locked_at ?c u now \<noteq> 0"
    if "schedule_valid u" "\<not> ending_block_as_balance ?c u \<le> ?c now" for u
  proof -
    have u: "vi_locked u \<noteq> 0" "vi_locked u \<le> u128_max"
      using that(1) by (simp_all add: schedule_valid_def is_valid_def)
    have "ending_block_as_balance ?c u \<le> vi_starting_block u + duration_of u"
      using assms(1) saturating_add_le
      by (simp add: ending_block_as_balance_def duration_of_def convert_into_def Let_def)
    with that(2) assms(1) have "now < vi_starting_block u + duration_of u"
      by (simp add: convert_into_def)
    then have "\<not> duration_of u \<le> now - vi_starting_block u"
      using duration_pos [of u] by linarith
    then show ?thesis
      using u assms(1) by (simp add: locked_at_eq duration_le_iff convert_into_def)
  qed
  show ?thesis
    using assms(2-) pos [OF assms(2)]
    by (auto simp: merge_vesting_info_def Let_def schedule_valid_def is_valid_def
        new_vesting_info_def split: if_splits)
qed

lemma exec_action_valid:
  assumes "convert_into (BlockNumberToBalance T)" "\<forall>v\<in>set vs. schedule_valid v"
    and "exec_action T vs act s = (Inr (ws, l), t)"
  shows "t = s" and "\<forall>v\<in>set ws. schedule_valid v"
proof -
  let ?u = "unfinished (BlockNumberToBalance T) (block_number s) (pick_schedules act vs)"
  have u: "\<forall>v\<in>set ?u. schedule_valid v"
    using assms(2) set_unfinished set_pick_schedules by fast
  have "t = s \<and> (\<forall>v\<in>set ws. schedule_valid v)"
  proof (cases act)
    case (Merge i j)
    then have ij: "i < length vs" "j < length vs"
      using assms(3) by (auto simp: exec_action_def prog_simps split: if_splits)
    then show ?thesis
      using assms u merge_vesting_info_valid [of T "vs ! i" "vs ! j" "block_number s"] Merge
      by (auto simp: exec_action_Merge Let_def split: option.splits)
  qed (use assms u in \<open>auto simp: exec_action_Passive exec_action_Remove Let_def\<close>)
  then show "t = s" "\<forall>v\<in>set ws. schedule_valid v" by auto
qed

lemma keeps_gets_vesting:
  fixes k :: "_ \<Rightarrow> ('l, 'z, 'a) lr_prog"
  assumes "\<And>found. (\<And>vs. found = Some vs \<Longrightarrow> \<forall>v\<in>set vs. schedule_valid v) \<Longrightarrow> keeps (lr_inv T) (k found)"
  shows "keeps (lr_inv T) (sbind (gets (vesting who r)) k)"
proof (rule keepsI)
  fix s :: "('l, 'z) lr_state_scheme"
  assume inv: "lr_inv T s"
  have "keeps (lr_inv T) (k (vesting who r s))"
    using lr_inv_vesting [OF inv, of who r] by (intro assms) (simp add: entry_ok_def)
  with inv show "lr_inv T (snd (sbind (gets (vesting who r)) k s))"
    by (simp add: keeps_def sbind_def gets_def)
qed

lemma keeps_ok_or_bind:
  assumes "\<And>a. x = Some a \<Longrightarrow> keeps P (k a)"
  shows "keeps P (sbind (ok_or x e) k)"
  using assms by (cases x) (auto simp: keeps_def sbind_def ok_or_def)

lemma keeps_exec_action:
  fixes k :: "_ \<Rightarrow> ('l, 'z, 'a) lr_prog"
  assumes "convert_into (BlockNumberToBalance T)" "\<forall>v\<in>set vs. schedule_valid v"
    and "\<And>ws l. \<forall>v\<in>set ws. schedule_valid v \<Longrightarrow> keeps (lr_inv T) (k (ws, l))"
  shows "keeps (lr_inv T) (sbind (exec_action T vs act) k)"
proof (rule keepsI)
  fix s :: "('l, 'z) lr_state_scheme"
  assume inv: "lr_inv T s"
  show "lr_inv T (snd (sbind (exec_action T vs act) k s))"
  proof (cases "exec_action T vs act s")
    case (Pair res t)
    show ?thesis
    proof (cases res)
      case (Inl e)
      with Pair have "t = s" by (auto simp: exec_action_def prog_defs split: vesting_action.splits
            option.splits prod.splits if_splits)
      with Pair Inl inv show ?thesis by (simp add: sbind_def)
    next
      case (Inr x)
      with Pair obtain ws l where x: "exec_action T vs act s = (Inr (ws, l), t)" "x = (ws, l)"
        by (cases x) auto
      from exec_action_valid [OF assms(1,2) x(1)] assms(3) inv x show ?thesis
        by (simp add: sbind_def keeps_def)
    qed
  qed
qed

lemmas lr_keeps = keeps_gets_vesting keeps_ok_or_bind keeps_exec_action keeps_write_vesting_schedule
  keeps_rules

text \<open>Reading the entry, running an action on it and writing the result back.\<close>

lemma keeps_update:
  assumes "convert_into (BlockNumberToBalance T)"
    and "\<And>ws l. \<forall>v\<in>set ws. schedule_valid v \<Longrightarrow> keeps (lr_inv T) (k (ws, l))"
  shows "keeps (lr_inv T) (sbind (gets (vesting who r)) (\<lambda>found. sbind (ok_or found e) (\<lambda>vs.
    sbind (exec_action T vs act) k)))"
  using assms by (intro keeps_gets_vesting keeps_ok_or_bind keeps_exec_action) auto

lemma keeps_write_and_release:
  "\<forall>v\<in>set ws. schedule_valid v \<Longrightarrow>
   keeps (lr_inv T) (seq (write_vesting_schedule T who ws r) (write_release T who l r))"
  by (intro keeps_seq keeps_write_vesting_schedule keeps_write_release)

lemma keeps_do_vest [keeps_rules]:
  "convert_into (BlockNumberToBalance T) \<Longrightarrow> keeps (lr_inv T) (do_vest T who r)"
  unfolding do_vest_def by (rule keeps_update) (simp_all add: keeps_write_and_release)

lemma keeps_remove_vesting_schedule [keeps_rules]:
  "convert_into (BlockNumberToBalance T) \<Longrightarrow> keeps (lr_inv T) (remove_vesting_schedule T who i r)"
  unfolding remove_vesting_schedule_def
  by (rule keeps_update) (simp_all add: keeps_write_and_release)

lemma keeps_remove_all [keeps_rules]:
  "convert_into (BlockNumberToBalance T) \<Longrightarrow> keeps (lr_inv T) (remove_all_vesting_schedules T who r)"
  unfolding remove_all_vesting_schedules_def
  by (intro keeps_sbind keeps_gets keeps_ok_or keeps_for_each keeps_update)
     (simp_all add: keeps_write_and_release)

lemma new_vesting_info_valid:
  "locked \<le> u128_max \<Longrightarrow> is_valid (new_vesting_info locked p b) \<Longrightarrow>
   schedule_valid (new_vesting_info locked p b)"
  by (simp add: schedule_valid_def new_vesting_info_def)

lemma keeps_add_release_schedule [keeps_rules]:
  "convert_into (BlockNumberToBalance T) \<Longrightarrow> locked \<le> u128_max \<Longrightarrow>
   keeps (lr_inv T) (add_release_schedule T who locked p b r)"
  unfolding add_release_schedule_def Let_def
  by (intro keeps_if keeps_ok keeps_err keeps_gets_vesting keeps_seq keeps_ensure keeps_exec_action)
     (auto simp: keeps_write_vesting_schedule new_vesting_info_valid split: option.splits)

lemma keeps_set_release_schedule [keeps_rules]:
  "convert_into (BlockNumberToBalance T) \<Longrightarrow> locked \<le> u128_max \<Longrightarrow>
   keeps (lr_inv T) (set_release_schedule T who locked p b r)"
  unfolding set_release_schedule_def Let_def
  by (intro keeps_if keeps_ok keeps_err keeps_gets_vesting keeps_seq keeps_ensure keeps_exec_action)
     (auto simp: keeps_write_and_release new_vesting_info_valid split: option.splits)

lemma keeps_can_add [keeps_rules]: "keeps P (can_add_release_schedule T who locked p b r)"
  unfolding can_add_release_schedule_def by (intro keeps_rules)

lemma keeps_transfer_and_hold:
  assumes "transfer_and_hold_laws (Currency T)" "keeps (lr_inv T) (k amt)"
  shows "keeps (lr_inv T) (sbind (on_ext (c_transfer_and_hold (Currency T) r a b amt Exact)) k)"
  using assms unfolding transfer_and_hold_laws_def keeps_def
  by (auto simp: sbind_def on_ext_def split: prod.splits sum.splits)
     (metis lr_inv_ext snd_conv)+

lemma keeps_do_vested_transfer [keeps_rules]:
  assumes "convert_into (BlockNumberToBalance T)" "transfer_and_hold_laws (Currency T)"
    and "vi_locked v \<le> u128_max"
  shows "keeps (lr_inv T) (do_vested_transfer T src dst v r)"
  unfolding do_vested_transfer_def Let_def using assms
  by (intro keeps_seq keeps_ensure keeps_if keeps_err keeps_can_add keeps_transfer_and_hold
      keeps_deposit_lr_event keeps_ignore_result keeps_set_release_schedule keeps_ok)

lemma keeps_merge_schedules [keeps_rules]:
  "convert_into (BlockNumberToBalance T) \<Longrightarrow> keeps (lr_inv T) (merge_schedules T orig i j r)"
  unfolding merge_schedules_def
  by (intro keeps_transactional keeps_sbind keeps_ensure_signed keeps_if keeps_ok keeps_update)
     (simp_all add: keeps_write_and_release)

text \<open>
  The steps of the pallet: its extrinsics, the calls of the funding pallet through
  \<^verbatim>\<open>ReleaseSchedule\<close>, the next block, and any change the rest of the chain makes to the balances.
\<close>

inductive lr_step ::
    "('l, 'c) lr_config_scheme \<Rightarrow> ('l, 'z) lr_state_scheme \<Rightarrow> ('l, 'z) lr_state_scheme \<Rightarrow> bool"
  for T :: "('l, 'c) lr_config_scheme" where
  vest: "lr_step T s (snd (vest T orig r s))"
| vest_other: "lr_step T s (snd (vest_other T orig who r s))"
| vested_transfer: "vi_locked v \<le> u128_max \<Longrightarrow> lr_step T s (snd (vested_transfer T orig who v r s))"
| force_vested_transfer:
    "vi_locked v \<le> u128_max \<Longrightarrow> lr_step T s (snd (force_vested_transfer T orig src who v r s))"
| merge_schedules: "lr_step T s (snd (merge_schedules T orig i j r s))"
| vest_all: "lr_step T s (snd (vest_all T orig s))"
| vest_all_other: "lr_step T s (snd (vest_all_other T orig who s))"
| add: "locked \<le> u128_max \<Longrightarrow> lr_step T s (snd (add_release_schedule T who locked p b r s))"
| set: "locked \<le> u128_max \<Longrightarrow> lr_step T s (snd (set_release_schedule T who locked p b r s))"
| remove: "lr_step T s (snd (remove_vesting_schedule T who i r s))"
| remove_all: "lr_step T s (snd (remove_all_vesting_schedules T who r s))"
| next_block: "lr_step T s (s\<lparr>block_number := n\<rparr>)"
| balances: "lr_step T s (s\<lparr>ext := l\<rparr>)"

lemma lr_step_inv:
  assumes "convert_into (BlockNumberToBalance T)" "transfer_and_hold_laws (Currency T)"
    and "lr_step T s t" "lr_inv T s"
  shows "lr_inv T t"
  using assms(3,4)
proof (cases rule: lr_step.cases)
  case (next_block n)
  then show ?thesis using assms(4) by (simp add: lr_inv_def)
qed (use assms in \<open>auto simp: vest_def vest_other_def vested_transfer_def force_vested_transfer_def
    vest_all_def vest_all_other_def intro!: keeps_rules keepsD' [where P = "lr_inv T" and s = s]\<close>)

text \<open>
  C28. In every state the pallet can reach from one that satisfies the storage invariant (the empty
  storage does), the invariant holds: every entry of \<^verbatim>\<open>Vesting\<close> is non-empty and within
  \<^verbatim>\<open>MAX_VESTING_SCHEDULES\<close>, and each of its schedules is valid.
\<close>

theorem vesting_storage_invariant:
  assumes "convert_into (BlockNumberToBalance T)" "transfer_and_hold_laws (Currency T)"
    and "(lr_step T)\<^sup>*\<^sup>* s t" "lr_inv T s"
  shows "lr_inv T t"
  using assms(3,4) by (induction rule: rtranclp_induct) (auto intro: lr_step_inv [OF assms(1,2)])

theorem vesting_storage_invariant_witness:
  "lr_inv demo_lr_config (snd (merge_schedules demo_lr_config (Signed 1) 0 1
     (FundingReason Participation) demo_lr_state))"
proof -
  have "lr_inv demo_lr_config demo_lr_state"
    by (simp add: lr_inv_def entry_ok_def nmap_wf_def demo_lr_defs schedule_valid_def is_valid_def
        new_vesting_info_def u128_max_def)
  moreover have "(lr_step demo_lr_config)\<^sup>*\<^sup>* demo_lr_state
      (snd (merge_schedules demo_lr_config (Signed 1) 0 1 (FundingReason Participation) demo_lr_state))"
    by (rule r_into_rtranclp) (rule lr_step.merge_schedules)
  ultimately show ?thesis
    using vesting_storage_invariant [OF demo_convert] plain_transfer_and_hold_laws
    by (simp add: demo_lr_config_def)
qed

section \<open>The interface \<open>ReleaseSchedule\<close> as a contract\<close>

text \<open>
  What the funding pallet relies on when it settles a participation: the check
  \<^verbatim>\<open>can_add_release_schedule\<close> changes nothing, and after it has passed \<^verbatim>\<open>add_release_schedule\<close>
  succeeds, leaves the balances alone and adds the amount to what is scheduled for the account.
\<close>

locale release_schedule =
  fixes can_add :: "account \<Rightarrow> nat \<Rightarrow> nat \<Rightarrow> nat \<Rightarrow> reason \<Rightarrow> ('s, unit) dprog"
    and add :: "account \<Rightarrow> nat \<Rightarrow> nat \<Rightarrow> nat \<Rightarrow> reason \<Rightarrow> ('s, unit) dprog"
    and still_locked :: "account \<Rightarrow> reason \<Rightarrow> 's \<Rightarrow> nat"
    and balances :: "'s \<Rightarrow> 'l"
    and now :: "'s \<Rightarrow> nat"
  assumes can_add_pure: "snd (can_add who l p b r s) = s"
    and add_after_can_add:
      "can_add who l p b r s = (Inr (), s) \<Longrightarrow> l \<le> u128_max \<Longrightarrow>
       \<exists>t. add who l p b r s = (Inr (), t) \<and> balances t = balances s \<and>
         still_locked who r t = still_locked who r s + (l - (now s - b) * p)"
begin

lemma can_add_then_add:
  assumes "can_add who l p b r s = (Inr (), t)" "l \<le> u128_max"
  obtains u where "seq (can_add who l p b r) (add who l p b r) s = (Inr (), u)"
    and "balances u = balances s" and "still_locked who r u = still_locked who r s + (l - (now s - b) * p)"
proof -
  have t: "t = s" using can_add_pure [of who l p b r s] assms(1) by simp
  from add_after_can_add [OF assms(1) [unfolded t] assms(2)] show thesis
    using that assms(1) t by (auto simp: seq_def sbind_def)
qed

lemma seq_succeeds_iff:
  assumes "l \<le> u128_max"
  shows "(\<exists>t. seq (can_add who l p b r) (add who l p b r) s = (Inr (), t)) \<longleftrightarrow>
    (\<exists>t. can_add who l p b r s = (Inr (), t))"
  using can_add_then_add [OF _ assms] by (metis seq_Inr)

end

definition locked_total :: "('l, 'c) lr_config_scheme \<Rightarrow> account \<Rightarrow> reason \<Rightarrow> ('l, 'z) lr_state_scheme \<Rightarrow> nat"
  where
  "locked_total T who r s =
     total_locked (BlockNumberToBalance T) (block_number s)
       (case vesting who r s of None \<Rightarrow> [] | Some vs \<Rightarrow> vs)"

lemma can_add_pure: "snd (can_add_release_schedule T who l p b r s) = s"
  by (simp add: can_add_release_schedule_def prog_defs)

lemma can_add_Inr:
  "can_add_release_schedule T who l p b r s = (Inr u, t) \<longleftrightarrow>
   t = s \<and> l \<noteq> 0 \<and> p \<noteq> 0 \<and>
   length (case vesting who r s of None \<Rightarrow> [] | Some vs \<Rightarrow> vs) < MAX_VESTING_SCHEDULES T"
  by (auto simp: can_add_release_schedule_def prog_simps is_valid_def new_vesting_info_def
      split: option.splits)

lemma locked_at_new:
  assumes "p \<noteq> 0" "l \<le> u128_max"
  shows "locked_at (\<lambda>n. n) (new_vesting_info l p b) now = l - (now - b) * p"
  using assms by (simp add: locked_at_eq new_vesting_info_def per_block_def max_absorb1)

lemma add_after_can_add:
  assumes "BlockNumberToBalance T = (\<lambda>n. n)"
    and "can_add_release_schedule T who l p b r s = (Inr (), s)" "l \<le> u128_max"
  shows "\<exists>t. add_release_schedule T who l p b r s = (Inr (), t) \<and> ext t = ext s \<and>
    locked_total T who r t = locked_total T who r s + (l - (block_number s - b) * p)"
proof -
  let ?vs = "case vesting who r s of None \<Rightarrow> [] | Some vs \<Rightarrow> vs" and ?v = "new_vesting_info l p b"
  let ?ws = "unfinished (BlockNumberToBalance T) (block_number s) (?vs @ [?v])"
  have ok: "l \<noteq> 0" "p \<noteq> 0" "length ?vs < MAX_VESTING_SCHEDULES T"
    using assms(2) by (simp_all add: can_add_Inr)
  then have "length ?ws \<le> MAX_VESTING_SCHEDULES T"
    using length_unfinished_le [of "BlockNumberToBalance T" "block_number s" "?vs @ [?v]"] by simp
  then obtain t where t: "write_vesting_schedule T who ?ws r s = (Inr (), t)"
    using write_vesting_schedule_ok by blast
  then have add: "add_release_schedule T who l p b r s = (Inr (), t)"
    using ok by (simp add: add_release_schedule_def is_valid_def prog_defs exec_action_Passive Let_def
        new_vesting_info_def)
  have l: "locked_at (BlockNumberToBalance T) ?v (block_number s) = l - (block_number s - b) * p"
    unfolding assms(1) using ok(2) assms(3) by (rule locked_at_new)
  have "vesting who r t = (if ?ws = [] then None else Some ?ws)" using write_vesting_schedule_vesting(1) [OF t] by simp
  then have "(case vesting who r t of None \<Rightarrow> [] | Some vs \<Rightarrow> vs) = ?ws" by simp
  then have "locked_total T who r t = locked_total T who r s + (l - (block_number s - b) * p)"
    using write_vesting_schedule_vesting(3) [OF t] l by (simp add: locked_total_def)
  with add write_vesting_schedule_vesting(2) [OF t] show ?thesis by blast
qed

interpretation lr: release_schedule
  "can_add_release_schedule (T\<lparr>BlockNumberToBalance := (\<lambda>n. n)\<rparr>)"
  "add_release_schedule (T\<lparr>BlockNumberToBalance := (\<lambda>n. n)\<rparr>)"
  "locked_total (T\<lparr>BlockNumberToBalance := (\<lambda>n. n)\<rparr>)" ext block_number
  for T :: "('l, 'c) lr_config_scheme"
proof (unfold_locales, goal_cases)
  case 1
  then show ?case by (rule can_add_pure)
next
  case 2
  then show ?case by (intro add_after_can_add) simp_all
qed

text \<open>
  C29. Once \<^verbatim>\<open>can_add_release_schedule\<close> accepts a schedule, \<^verbatim>\<open>add_release_schedule\<close> succeeds and moves no
  balance, and the amount still locked by the account's schedules grows by exactly what the new schedule locks at the
  current block: the whole amount when it starts no earlier than that block, and otherwise the amount less what has
  vested per block since its start (nothing once it has ended).
\<close>

theorem add_release_schedule_sound:
  assumes "BlockNumberToBalance T = (\<lambda>n. n)"
    and "can_add_release_schedule T who l p b r s = (Inr (), t)" "l \<le> u128_max"
  shows "\<exists>u. add_release_schedule T who l p b r s = (Inr (), u) \<and> ext u = ext s \<and>
    locked_total T who r u = locked_total T who r s + (l - (block_number s - b) * p)"
proof -
  have T: "T\<lparr>BlockNumberToBalance := (\<lambda>n. n)\<rparr> = T" using assms(1) by simp
  have "can_add_release_schedule T who l p b r s = (Inr (), s)"
    using assms(2) can_add_pure [of T who l p b r s] by simp
  from lr.add_after_can_add [of T, unfolded T, OF this assms(3)] show ?thesis .
qed

theorem add_release_schedule_sound_witness:
  "\<exists>u. add_release_schedule demo_lr_config 1 40 4 2 (FundingReason Participation) demo_lr_state =
      (Inr (), u) \<and> locked_total demo_lr_config 1 (FundingReason Participation) u = 117"
proof -
  let ?r = "FundingReason Participation"
  have "can_add_release_schedule demo_lr_config 1 40 4 2 ?r demo_lr_state = (Inr (), demo_lr_state)"
    by (simp add: can_add_Inr vesting_def nmap_get_def demo_lr_defs)
  moreover have "locked_total demo_lr_config 1 ?r demo_lr_state = 89"
    by (simp add: locked_total_def vesting_def nmap_get_def demo_lr_defs total_locked_def locked_at_def
        new_vesting_info_def per_block_def u_defs)
  moreover have "BlockNumberToBalance demo_lr_config = (\<lambda>n. n)" "(40::nat) \<le> u128_max" "block_number demo_lr_state = 5"
    by (simp_all add: demo_lr_defs u128_max_def)
  ultimately show ?thesis using add_release_schedule_sound by fastforce
qed

end
