(* ===== verification/Ordering.thy ===== *)
theory Ordering
  imports Prelude "HOL-Library.Multiset"
begin

text \<open>
  Comparison functions, and what the slices of Rust's standard library do with them: the stable
  \<^verbatim>\<open>sort_by\<close> and the \<^verbatim>\<open>binary_search_by\<close>, the latter with the probing order of the library, so that its
  result on a list that is not sorted is also the one of the code. The laws a comparison function must
  meet are the interface \<open>comparator\<close>.
\<close>

section \<open>Comparison functions\<close>

datatype ordering = Less | Equal | Greater

definition nat_cmp :: "nat \<Rightarrow> nat \<Rightarrow> ordering" where
  "nat_cmp a b = (if a < b then Less else if a = b then Equal else Greater)"

lemma nat_cmp_simps [simp]:
  "nat_cmp a b = Less \<longleftrightarrow> a < b" "nat_cmp a b = Equal \<longleftrightarrow> a = b" "nat_cmp a b = Greater \<longleftrightarrow> b < a"
  by (auto simp: nat_cmp_def)

section \<open>Sorting by a comparison function\<close>

text \<open>A stable sort by a comparator, \<^verbatim>\<open>sort_by\<close>.\<close>

fun insert_by :: "('a \<Rightarrow> 'a \<Rightarrow> ordering) \<Rightarrow> 'a \<Rightarrow> 'a list \<Rightarrow> 'a list" where
  "insert_by cmp x [] = [x]"
| "insert_by cmp x (y # ys) = (if cmp x y = Greater then y # insert_by cmp x ys else x # y # ys)"

definition sort_by :: "('a \<Rightarrow> 'a \<Rightarrow> ordering) \<Rightarrow> 'a list \<Rightarrow> 'a list" where
  "sort_by cmp xs = foldr (insert_by cmp) xs []"

locale comparator =
  fixes cmp :: "'a \<Rightarrow> 'a \<Rightarrow> ordering"
  assumes cmp_total: "cmp a b = Greater \<Longrightarrow> cmp b a \<noteq> Greater"
    and cmp_trans: "cmp a b \<noteq> Greater \<Longrightarrow> cmp b c \<noteq> Greater \<Longrightarrow> cmp a c \<noteq> Greater"
begin

abbreviation cmp_sorted :: "'a list \<Rightarrow> bool" where
  "cmp_sorted \<equiv> sorted_wrt (\<lambda>a b. cmp a b \<noteq> Greater)"

lemma mset_insert_by: "mset (insert_by cmp x ys) = add_mset x (mset ys)"
  by (induction ys) auto

lemma mset_sort_by: "mset (sort_by cmp xs) = mset xs"
  by (induction xs) (simp_all add: sort_by_def mset_insert_by)

lemma set_sort_by: "set (sort_by cmp xs) = set xs"
  by (metis mset_sort_by set_mset_mset)

lemma sorted_insert_by: "cmp_sorted ys \<Longrightarrow> cmp_sorted (insert_by cmp x ys)"
proof (induction ys)
  case (Cons y ys)
  show ?case
  proof (cases "cmp x y = Greater")
    case True
    have "set (insert_by cmp x ys) = insert x (set ys)"
      using mset_insert_by [of x ys] by (metis set_mset_add_mset_insert set_mset_mset)
    with True Cons cmp_total [OF True] show ?thesis by auto
  next
    case False
    with Cons.prems show ?thesis using cmp_trans [OF False] by auto
  qed
qed simp

lemma sorted_sort_by: "cmp_sorted (sort_by cmp xs)"
  by (induction xs) (simp_all add: sort_by_def sorted_insert_by)

end

section \<open>Binary search\<close>

text \<open>\<open>Inr\<close> is the index of a match, \<open>Inl\<close> the index where a matching element could be inserted.\<close>

function search_loop :: "('a \<Rightarrow> ordering) \<Rightarrow> 'a list \<Rightarrow> nat \<Rightarrow> nat \<Rightarrow> nat + nat" where
  "search_loop f xs left right =
     (if left < right
      then let mid = left + (right - left) div 2 in
           case f (xs ! mid) of
             Less \<Rightarrow> search_loop f xs (Suc mid) right
           | Greater \<Rightarrow> search_loop f xs left mid
           | Equal \<Rightarrow> Inr mid
      else Inl left)"
  by pat_completeness auto
termination
  by (relation "measure (\<lambda>(f, xs, left, right). right - left)") auto

declare search_loop.simps [simp del]

definition binary_search_by :: "('a \<Rightarrow> ordering) \<Rightarrow> 'a list \<Rightarrow> nat + nat" where
  "binary_search_by f xs = search_loop f xs 0 (length xs)"

lemma search_loop_found: "search_loop f xs l r = Inr i \<Longrightarrow> l \<le> i \<and> i < r \<and> f (xs ! i) = Equal"
proof (induction f xs l r rule: search_loop.induct)
  case (1 f xs l r)
  let ?mid = "l + (r - l) div 2"
  from "1.prems" have lr: "l < r" by (subst (asm) search_loop.simps) (auto split: if_splits)
  then have mid: "l \<le> ?mid" "?mid < r" by auto
  from "1.prems" lr have run: "(case f (xs ! ?mid) of Less \<Rightarrow> search_loop f xs (Suc ?mid) r
      | Greater \<Rightarrow> search_loop f xs l ?mid | Equal \<Rightarrow> Inr ?mid) = Inr i"
    by (subst (asm) search_loop.simps) (simp add: Let_def)
  show ?case
  proof (cases "f (xs ! ?mid)")
    case Less
    with "1.IH"(1) [OF lr refl Less] run show ?thesis by simp
  next
    case Equal
    with run mid show ?thesis by simp
  next
    case Greater
    with "1.IH"(2) [OF lr refl Greater] run mid show ?thesis by simp
  qed
qed

text \<open>
  A list is searched by \<open>f\<close> when everything before a smaller element is smaller, and everything after
  a greater one is greater.
\<close>

definition searchable :: "('a \<Rightarrow> ordering) \<Rightarrow> 'a list \<Rightarrow> bool" where
  "searchable f xs \<longleftrightarrow> (\<forall>i j. i \<le> j \<and> j < length xs \<longrightarrow>
     (f (xs ! j) = Less \<longrightarrow> f (xs ! i) = Less) \<and> (f (xs ! i) = Greater \<longrightarrow> f (xs ! j) = Greater))"

lemma search_loop_missing:
  assumes "searchable f xs"
  shows "search_loop f xs l r = Inl i \<Longrightarrow> l \<le> r \<Longrightarrow> r \<le> length xs \<Longrightarrow> \<forall>j<l. f (xs ! j) = Less \<Longrightarrow>
    \<forall>j. r \<le> j \<and> j < length xs \<longrightarrow> f (xs ! j) = Greater \<Longrightarrow>
    i \<le> length xs \<and> (\<forall>j<i. f (xs ! j) = Less) \<and> (\<forall>j. i \<le> j \<and> j < length xs \<longrightarrow> f (xs ! j) = Greater)"
  using assms
proof (induction f xs l r rule: search_loop.induct)
  case (1 f xs l r)
  let ?mid = "l + (r - l) div 2"
  show ?case
  proof (cases "l < r")
    case False
    with "1.prems" show ?thesis by (subst (asm) search_loop.simps) auto
  next
    case True
    then have mid: "l \<le> ?mid" "?mid < r" by auto
    from "1.prems"(1) True have run: "(case f (xs ! ?mid) of Less \<Rightarrow> search_loop f xs (Suc ?mid) r
        | Greater \<Rightarrow> search_loop f xs l ?mid | Equal \<Rightarrow> Inr ?mid) = Inl i"
      by (subst (asm) search_loop.simps) (simp add: Let_def)
    show ?thesis
    proof (cases "f (xs ! ?mid)")
      case Less
      have "\<forall>j<Suc ?mid. f (xs ! j) = Less"
        using "1.prems"(3,6) Less mid(2) unfolding searchable_def by (metis less_Suc_eq_le order.strict_trans2)
      with "1.IH"(1) [OF True refl Less] run Less mid "1.prems" show ?thesis by simp
    next
      case Equal
      with run show ?thesis by simp
    next
      case Greater
      have "\<forall>j. ?mid \<le> j \<and> j < length xs \<longrightarrow> f (xs ! j) = Greater"
        using "1.prems"(6) Greater unfolding searchable_def by blast
      with "1.IH"(2) [OF True refl Greater] run Greater mid "1.prems" show ?thesis by simp
    qed
  qed
qed

lemma binary_search_found: "binary_search_by f xs = Inr i \<Longrightarrow> i < length xs \<and> f (xs ! i) = Equal"
  unfolding binary_search_by_def using search_loop_found by blast

lemma binary_search_missing:
  assumes "binary_search_by f xs = Inl i" "searchable f xs"
  shows "i \<le> length xs" "\<forall>x\<in>set (take i xs). f x = Less" "\<forall>x\<in>set (drop i xs). f x = Greater"
proof -
  have i: "i \<le> length xs \<and> (\<forall>j<i. f (xs ! j) = Less) \<and> (\<forall>j. i \<le> j \<and> j < length xs \<longrightarrow> f (xs ! j) = Greater)"
    by (rule search_loop_missing [OF assms(2) assms(1) [unfolded binary_search_by_def]]) auto
  then show "i \<le> length xs" by simp
  show "\<forall>x\<in>set (take i xs). f x = Less" using i by (simp add: all_set_conv_all_nth)
  show "\<forall>x\<in>set (drop i xs). f x = Greater" using i by (simp add: all_set_conv_all_nth)
qed

end
