(* ===== verification/Funding_Types.thy ===== *)
theory Funding_Types
  imports Linear_Release_Props Ordering
begin

text \<open>
  The data of the pallet \<^verbatim>\<open>funding\<close>: \<^verbatim>\<open>types.rs\<close> and \<^verbatim>\<open>traits.rs\<close> of
  \<^verbatim>\<open>src/pallets/funding/src\<close>, the migration types of \<^verbatim>\<open>src/polimec-common/common/src/lib.rs\<close> and
  the credential types of \<^verbatim>\<open>credentials/mod.rs\<close>. Prices are \<^verbatim>\<open>FixedU128\<close>, a number of parts of
  \<open>10 ^ 18\<close>; field names carry a prefix of their struct, since record fields are global.
\<close>

section \<open>Multipliers\<close>

definition calculate_bonding_requirement :: "nat \<Rightarrow> nat \<Rightarrow> nat option" where
  "calculate_bonding_requirement multiplier ticket_size = checked_div ticket_size multiplier"

definition days_to_blocks :: "sp_arithmetic \<Rightarrow> nat \<Rightarrow> fixed \<Rightarrow> nat" where
  "days_to_blocks A days a = f_saturating_mul_int_u32 A a days"

definition calculate_vesting_duration :: "sp_arithmetic \<Rightarrow> nat \<Rightarrow> nat \<Rightarrow> nat" where
  "calculate_vesting_duration A days multiplier =
     (let GRADIENT = 2167 * DIV div 1000;
          NEG_CONSTANT = 2167 * DIV div 1000;
          multiplier_as_fixed = multiplier * DIV;
          weeks = saturating_sub (f_saturating_mul A GRADIENT multiplier_as_fixed) NEG_CONSTANT
      in max (days_to_blocks A days (f_mul A weeks (7 * DIV))) 1)"

definition multiplier_try_from :: "nat \<Rightarrow> string + nat" where
  "multiplier_try_from x =
     (if 1 \<le> x \<and> x \<le> 25 then Inr x else Inl ''u8 outside the allowed multiplier range'')"

definition RETAIL_MAX_MULTIPLIER :: nat where
  "RETAIL_MAX_MULTIPLIER = 5"

definition PROFESSIONAL_MAX_MULTIPLIER :: nat where
  "PROFESSIONAL_MAX_MULTIPLIER = 10"

definition INSTITUTIONAL_MAX_MULTIPLIER :: nat where
  "INSTITUTIONAL_MAX_MULTIPLIER = 25"

definition USD_DECIMALS :: nat where
  "USD_DECIMALS = 6"

definition PLMC_FOREIGN_ID :: nat where
  "PLMC_FOREIGN_ID = 3344"

definition PLMC_DECIMALS :: nat where
  "PLMC_DECIMALS = 10"

section \<open>Credentials\<close>

datatype investor_type = Retail | Professional | Institutional

section \<open>Funding assets\<close>

datatype accepted_funding_asset = USDT | USDC | DOT

fun asset_id_of :: "accepted_funding_asset \<Rightarrow> nat" where
  "asset_id_of USDT = 1984"
| "asset_id_of DOT = 10"
| "asset_id_of USDC = 1337"

text \<open>The derived order is the order of the variants.\<close>

fun asset_index :: "accepted_funding_asset \<Rightarrow> nat" where
  "asset_index USDT = 0"
| "asset_index USDC = 1"
| "asset_index DOT = 2"

lemma asset_index_inj: "asset_index a = asset_index b \<Longrightarrow> a = b"
  by (cases a; cases b; simp)

instantiation accepted_funding_asset :: linorder
begin

definition less_eq_accepted_funding_asset :: "accepted_funding_asset \<Rightarrow> accepted_funding_asset \<Rightarrow> bool" where
  "less_eq_accepted_funding_asset a b \<longleftrightarrow> asset_index a \<le> asset_index b"

definition less_accepted_funding_asset :: "accepted_funding_asset \<Rightarrow> accepted_funding_asset \<Rightarrow> bool" where
  "less_accepted_funding_asset a b \<longleftrightarrow> asset_index a < asset_index b"

instance
  by standard
     (auto simp: less_eq_accepted_funding_asset_def less_accepted_funding_asset_def
       intro: asset_index_inj)

end

section \<open>Project metadata\<close>

record ticket_size =
  usd_minimum_per_participation :: nat
  usd_maximum_per_did :: "nat option"

record bound =
  bd_lower :: nat
  bd_upper :: "nat option"

datatype investor_type_usd_bounds = RetailBound bound | ProfessionalBound bound | InstitutionalBound bound

definition usd_ticket_above_minimum_per_participation :: "ticket_size \<Rightarrow> nat \<Rightarrow> bool" where
  "usd_ticket_above_minimum_per_participation t usd_amount \<longleftrightarrow>
     usd_minimum_per_participation t \<le> usd_amount"

definition usd_ticket_below_maximum_per_did :: "ticket_size \<Rightarrow> nat \<Rightarrow> bool" where
  "usd_ticket_below_maximum_per_did t usd_amount =
     (case usd_maximum_per_did t of Some m \<Rightarrow> usd_amount \<le> m | None \<Rightarrow> True)"

definition check_valid :: "ticket_size \<Rightarrow> bound \<Rightarrow> bool" where
  "check_valid t bnd =
     (if (case usd_maximum_per_did t of Some m \<Rightarrow> m < usd_minimum_per_participation t | None \<Rightarrow> False)
      then False
      else if usd_minimum_per_participation t < bd_lower bnd then False
      else case bd_upper bnd of
             Some upper_bound \<Rightarrow>
               (case usd_maximum_per_did t of None \<Rightarrow> False | Some max_usd \<Rightarrow> \<not> upper_bound < max_usd)
           | None \<Rightarrow> True)"

record bidding_ticket_sizes =
  bts_professional :: ticket_size
  bts_institutional :: ticket_size

record contributing_ticket_sizes =
  cts_retail :: ticket_size
  cts_professional :: ticket_size
  cts_institutional :: ticket_size

fun bidding_ticket_sizes_is_valid ::
    "bidding_ticket_sizes \<Rightarrow> investor_type_usd_bounds list \<Rightarrow> metadata_error + unit" where
  "bidding_ticket_sizes_is_valid t [] = Inr ()"
| "bidding_ticket_sizes_is_valid t (ProfessionalBound b # bs) =
     (if \<not> check_valid (bts_professional t) b then Inl MTicketSizeError
      else bidding_ticket_sizes_is_valid t bs)"
| "bidding_ticket_sizes_is_valid t (InstitutionalBound b # bs) =
     (if \<not> check_valid (bts_institutional t) b then Inl MTicketSizeError
      else bidding_ticket_sizes_is_valid t bs)"
| "bidding_ticket_sizes_is_valid t (RetailBound b # bs) = bidding_ticket_sizes_is_valid t bs"

fun contributing_ticket_sizes_is_valid ::
    "contributing_ticket_sizes \<Rightarrow> investor_type_usd_bounds list \<Rightarrow> metadata_error + unit" where
  "contributing_ticket_sizes_is_valid t [] = Inr ()"
| "contributing_ticket_sizes_is_valid t (ProfessionalBound b # bs) =
     (if \<not> check_valid (cts_professional t) b then Inl MTicketSizeError
      else contributing_ticket_sizes_is_valid t bs)"
| "contributing_ticket_sizes_is_valid t (InstitutionalBound b # bs) =
     (if \<not> check_valid (cts_institutional t) b then Inl MTicketSizeError
      else contributing_ticket_sizes_is_valid t bs)"
| "contributing_ticket_sizes_is_valid t (RetailBound b # bs) =
     (if \<not> check_valid (cts_retail t) b then Inl MTicketSizeError
      else contributing_ticket_sizes_is_valid t bs)"

record currency_metadata =
  cm_name :: string
  cm_symbol :: string
  cm_decimals :: nat

record project_metadata =
  md_token_information :: currency_metadata
  md_mainnet_token_max_supply :: nat
  md_total_allocation_size :: nat
  md_auction_round_allocation_percentage :: nat
  md_minimum_price :: fixed
  md_bidding_ticket_sizes :: bidding_ticket_sizes
  md_contributing_ticket_sizes :: contributing_ticket_sizes
  md_participation_currencies :: "accepted_funding_asset list"
  md_funding_destination_account :: account
  md_policy_ipfs_cid :: "cid option"

definition result_bind :: "'e + 'a \<Rightarrow> ('a \<Rightarrow> 'e + 'b) \<Rightarrow> 'e + 'b" where
  "result_bind r f = (case r of Inl e \<Rightarrow> Inl e | Inr a \<Rightarrow> f a)"

definition result_ok_or :: "'a option \<Rightarrow> 'e \<Rightarrow> 'e + 'a" where
  "result_ok_or x e = (case x of None \<Rightarrow> Inl e | Some a \<Rightarrow> Inr a)"

definition abs_diff :: "nat \<Rightarrow> nat \<Rightarrow> nat" where
  "abs_diff a b = (if a < b then b - a else a - b)"

text \<open>The last checks of \<^verbatim>\<open>ProjectMetadata::is_valid\<close>: the decimals and the price they imply.\<close>

definition metadata_price_is_valid :: "sp_arithmetic \<Rightarrow> project_metadata \<Rightarrow> metadata_error + unit" where
  "metadata_price_is_valid A md =
     (let decimals = cm_decimals (md_token_information md) in
      if decimals < 6 \<or> decimals > 18 then Inl MBadDecimals else
      result_bind (result_ok_or (checked_pow 10 (abs_diff decimals USD_DECIMALS)) MBadDecimals)
        (\<lambda>abs_diff_unit.
      result_bind (result_ok_or (f_checked_from_rational A abs_diff_unit 1) MBadDecimals)
        (\<lambda>abs_diff_fixed.
      result_bind (result_ok_or
          (if USD_DECIMALS > decimals then f_checked_div A (md_minimum_price md) abs_diff_fixed
           else f_checked_mul A (md_minimum_price md) abs_diff_fixed) MBadDecimals)
        (\<lambda>original_price.
      result_bind (result_ok_or (f_checked_from_rational A 1 100000) MBadTokenomics) (\<lambda>min_price.
      result_bind (result_ok_or (f_checked_from_rational A 1000 1) MBadTokenomics) (\<lambda>max_price.
      if original_price < min_price \<or> original_price > max_price then Inl MBadTokenomics
      else Inr ()))))))"

definition metadata_is_valid :: "sp_arithmetic \<Rightarrow> project_metadata \<Rightarrow> metadata_error + unit" where
  "metadata_is_valid A md =
     (if md_minimum_price md = 0 then Inl MPriceTooLow else
      result_bind (result_ok_or (checked_pow 10 USD_DECIMALS) MBadTokenomics) (\<lambda>usd_unit.
      result_bind (result_ok_or (checked_mul usd_unit 5000) MBadTokenomics) (\<lambda>min_bidder_bound_usd.
      result_bind (bidding_ticket_sizes_is_valid (md_bidding_ticket_sizes md)
         [ProfessionalBound \<lparr>bd_lower = min_bidder_bound_usd, bd_upper = None\<rparr>,
          InstitutionalBound \<lparr>bd_lower = min_bidder_bound_usd, bd_upper = None\<rparr>]) (\<lambda>_.
      result_bind (result_ok_or (checked_mul usd_unit 1) MBadTokenomics) (\<lambda>min_contributor_bound_usd.
      result_bind (contributing_ticket_sizes_is_valid (md_contributing_ticket_sizes md)
         [InstitutionalBound \<lparr>bd_lower = min_contributor_bound_usd, bd_upper = None\<rparr>,
          ProfessionalBound \<lparr>bd_lower = min_contributor_bound_usd, bd_upper = None\<rparr>,
          RetailBound \<lparr>bd_lower = min_contributor_bound_usd, bd_upper = None\<rparr>]) (\<lambda>_.
      if md_total_allocation_size md = 0 \<or> md_total_allocation_size md > md_mainnet_token_max_supply md \<or>
         md_total_allocation_size md < saturating_pow 10 (cm_decimals (md_token_information md))
      then Inl MAllocationSizeError
      else if md_auction_round_allocation_percentage md \<le> 0 then Inl MAuctionRoundPercentageError
      else
        let deduped = remdups_adj (sort (md_participation_currencies md)) in
        if length deduped \<noteq> length (md_participation_currencies md)
        then Inl MParticipationCurrenciesError
        else
          let target_funding = f_saturating_mul_int A (md_minimum_price md) (md_total_allocation_size md) in
          if target_funding < 1000 * 10 ^ USD_DECIMALS then Inl MFundingTargetTooLow
          else if target_funding > 1000000000 * 10 ^ USD_DECIMALS then Inl MFundingTargetTooHigh
          else metadata_price_is_valid A md))))))"

section \<open>Prices\<close>

definition calculate_decimals_aware_price :: "sp_arithmetic \<Rightarrow> fixed \<Rightarrow> nat \<Rightarrow> nat \<Rightarrow> fixed option" where
  "calculate_decimals_aware_price A original_price usd_decimals asset_decimals =
     Option.bind (checked_pow 10 usd_decimals) (\<lambda>usd_unit.
     Option.bind (f_checked_mul_int A original_price usd_unit) (\<lambda>usd_price_with_decimals.
     Option.bind (checked_pow 10 asset_decimals) (\<lambda>asset_unit.
     f_checked_from_rational A usd_price_with_decimals asset_unit)))"

definition convert_back_to_normal_price :: "sp_arithmetic \<Rightarrow> fixed \<Rightarrow> nat \<Rightarrow> nat \<Rightarrow> fixed option" where
  "convert_back_to_normal_price A decimals_aware_price usd_decimals asset_decimals =
     Option.bind (checked_pow 10 (abs_diff asset_decimals usd_decimals)) (\<lambda>abs_diff_unit.
     Option.bind (f_checked_from_rational A abs_diff_unit 1) (\<lambda>abs_diff_fixed.
     if usd_decimals > asset_decimals then f_checked_div A decimals_aware_price abs_diff_fixed
     else f_checked_mul A decimals_aware_price abs_diff_fixed))"

definition get_decimals_aware_price ::
    "sp_arithmetic \<Rightarrow> (nat \<Rightarrow> fixed option) \<Rightarrow> nat \<Rightarrow> nat \<Rightarrow> nat \<Rightarrow> fixed option" where
  "get_decimals_aware_price A get_price asset_id usd_decimals asset_decimals =
     Option.bind (get_price asset_id) (\<lambda>original_price.
     calculate_decimals_aware_price A original_price usd_decimals asset_decimals)"

section \<open>Project details\<close>

datatype funding_outcome = Success | Failure

datatype project_status =
    Application
  | EvaluationRound
  | AuctionRound
  | CommunityRound nat
  | FundingFailed
  | FundingSuccessful
  | SettlementStarted funding_outcome
  | SettlementFinished funding_outcome
  | CTMigrationStarted
  | CTMigrationFinished

record block_number_pair =
  bp_start :: "nat option"
  bp_end :: "nat option"

definition started :: "block_number_pair \<Rightarrow> nat \<Rightarrow> bool" where
  "started p at = (case bp_start p of None \<Rightarrow> True | Some b \<Rightarrow> b \<le> at)"

definition ended :: "block_number_pair \<Rightarrow> nat \<Rightarrow> bool" where
  "ended p at = (case bp_end p of None \<Rightarrow> True | Some b \<Rightarrow> b \<le> at)"

record reward_info =
  rw_early_evaluator_reward_pot :: nat
  rw_normal_evaluator_reward_pot :: nat
  rw_early_evaluator_total_bonded_usd :: nat
  rw_normal_evaluator_total_bonded_usd :: nat

datatype evaluators_outcome = Rewarded reward_info | Slashed

record evaluation_round_info =
  ri_total_bonded_usd :: nat
  ri_total_bonded_plmc :: nat
  ri_evaluators_outcome :: "evaluators_outcome option"

datatype channel_status = Closed | Open | AwaitingAcceptance

record hrmp_channel_status =
  hc_project_to_polimec :: channel_status
  hc_polimec_to_project :: channel_status

datatype check_outcome = AwaitingResponse | Passed "nat option" | CheckFailed

record pallet_migration_readiness_check =
  rc_holding_check :: "nat \<times> check_outcome"
  rc_pallet_check :: "nat \<times> check_outcome"

definition is_ready :: "pallet_migration_readiness_check \<Rightarrow> bool" where
  "is_ready c \<longleftrightarrow> snd (rc_holding_check c) = Passed None \<and>
     (case snd (rc_pallet_check c) of Passed (Some _) \<Rightarrow> True | _ \<Rightarrow> False)"

record pallet_migration_info =
  mi_parachain_id :: nat
  mi_hrmp_channel_status :: hrmp_channel_status
  mi_migration_readiness_check :: "pallet_migration_readiness_check option"

datatype migration_type = Offchain | PalletMigration pallet_migration_info

record project_details =
  pd_issuer_account :: account
  pd_issuer_did :: did
  pd_is_frozen :: bool
  pd_weighted_average_price :: "fixed option"
  pd_status :: project_status
  pd_round_duration :: block_number_pair
  pd_fundraising_target_usd :: nat
  pd_remaining_contribution_tokens :: nat
  pd_funding_amount_reached_usd :: nat
  pd_evaluation_round_info :: evaluation_round_info
  pd_usd_bid_on_oversubscription :: "nat option"
  pd_funding_end_block :: "nat option"
  pd_migration_type :: "migration_type option"

section \<open>Participations\<close>

record evaluation_info =
  ev_id :: nat
  ev_did :: did
  ev_project_id :: project_id
  ev_evaluator :: account
  ev_original_plmc_bond :: nat
  ev_current_plmc_bond :: nat
  ev_early_usd_amount :: nat
  ev_late_usd_amount :: nat
  ev_when :: nat

datatype bid_status = YetUnknown | Accepted | Rejected | PartiallyAccepted nat

record bid_info =
  bid_id :: nat
  bid_project_id :: project_id
  bid_bidder :: account
  bid_did :: did
  bid_bstatus :: bid_status
  bid_original_ct_amount :: nat
  bid_original_ct_usd_price :: fixed
  bid_funding_asset :: accepted_funding_asset
  bid_funding_asset_amount_locked :: nat
  bid_multiplier :: nat
  bid_plmc_bond :: nat
  bid_when :: nat

definition bid_final_ct_amount :: "bid_info \<Rightarrow> nat" where
  "bid_final_ct_amount b =
     (case bid_bstatus b of Accepted \<Rightarrow> bid_original_ct_amount b | PartiallyAccepted amount \<Rightarrow> amount | _ \<Rightarrow> 0)"

definition bid_cmp :: "bid_info \<Rightarrow> bid_info \<Rightarrow> ordering" where
  "bid_cmp a b =
     (case nat_cmp (bid_original_ct_usd_price a) (bid_original_ct_usd_price b) of
        Equal \<Rightarrow> nat_cmp (bid_id b) (bid_id a)
      | oth \<Rightarrow> oth)"

record contribution_info =
  co_id :: nat
  co_did :: did
  co_project_id :: project_id
  co_contributor :: account
  co_ct_amount :: nat
  co_usd_contribution_amount :: nat
  co_multiplier :: nat
  co_funding_asset :: accepted_funding_asset
  co_funding_asset_amount :: nat
  co_plmc_bond :: nat
  co_when :: nat

record bid_refund =
  rf_final_ct_usd_price :: fixed
  rf_final_ct_amount :: nat
  rf_refunded_plmc :: nat
  rf_refunded_funding_asset_amount :: nat

record plmc_vesting_info =
  pv_total_amount :: nat
  pv_amount_per_block :: nat
  pv_duration :: nat

section \<open>Buckets\<close>

record bucket =
  bk_amount_left :: nat
  bk_current_price :: fixed
  bk_initial_price :: fixed
  bk_delta_price :: fixed
  bk_delta_amount :: nat

definition new_bucket :: "nat \<Rightarrow> fixed \<Rightarrow> fixed \<Rightarrow> nat \<Rightarrow> bucket" where
  "new_bucket amount_left' initial_price' delta_price' delta_amount' =
     \<lparr>bk_amount_left = amount_left', bk_current_price = initial_price', bk_initial_price = initial_price',
      bk_delta_price = delta_price', bk_delta_amount = delta_amount'\<rparr>"

definition bucket_next :: "bucket \<Rightarrow> bucket" where
  "bucket_next b =
     b\<lparr>bk_amount_left := bk_delta_amount b, bk_current_price := saturating_add (bk_current_price b) (bk_delta_price b)\<rparr>"

definition bucket_update :: "bucket \<Rightarrow> nat \<Rightarrow> bucket" where
  "bucket_update b removed_amount =
     (let b = b\<lparr>bk_amount_left := saturating_sub (bk_amount_left b) removed_amount\<rparr>
      in if bk_amount_left b = 0 then bucket_next b else b)"

text \<open>
  The loop of \<^verbatim>\<open>calculate_wap\<close> walks down the buckets. It returns the amount not yet attributed and
  the collected pairs of USD volume and price; \<open>None\<close> means that it does not end.
\<close>

partial_function (option) wap_loop ::
    "sp_arithmetic \<Rightarrow> bucket \<Rightarrow> nat \<Rightarrow> nat \<Rightarrow> fixed \<Rightarrow> (nat \<times> fixed) list \<Rightarrow>
     (nat \<times> (nat \<times> fixed) list) option" where
  "wap_loop A b left amount price sizes =
     (if price > bk_initial_price b \<and> left > 0
      then wap_loop A b (saturating_sub left amount) (bk_delta_amount b)
             (saturating_sub price (bk_delta_price b)) (sizes @ [(f_saturating_mul_int A price amount, price)])
      else Some (left, sizes))"

text \<open>
  \<open>None\<close> is a call that does not return a price: the loop does not end, or the division by a zero
  \<open>sum\<close> in \<^verbatim>\<open>saturating_from_rational\<close> panics.
\<close>

definition calculate_wap :: "sp_arithmetic \<Rightarrow> bucket \<Rightarrow> nat \<Rightarrow> fixed option" where
  "calculate_wap A b total_amount =
     (if bk_current_price b = bk_initial_price b then Some (bk_current_price b)
      else
        Option.bind (wap_loop A b total_amount (saturating_sub (bk_delta_amount b) (bk_amount_left b))
            (bk_current_price b) []) (\<lambda>(total_amount, bucket_sizes).
        let bucket_sizes =
              (if total_amount > 0
               then bucket_sizes @
                 [(f_saturating_mul_int A (bk_initial_price b) total_amount, bk_initial_price b)]
               else bucket_sizes);
            sum = foldl saturating_add 0 (map fst bucket_sizes)
        in if sum = 0 \<and> bucket_sizes \<noteq> [] then None
           else Some (foldl saturating_add 0
             (map (\<lambda>(usd, price). f_saturating_mul A (f_saturating_from_rational A usd sum) price)
               bucket_sizes))))"

section \<open>Migrations\<close>

text \<open>
  The location of a user or a chain, as far as the code looks into it: a parachain, an account with its
  optional network (\<^verbatim>\<open>AccountId32 { network, id }\<close>), or any other junction, numbered.
\<close>

datatype junction = Parachain nat | AccountId32 "nat option" nat | OtherJunction nat

record location =
  loc_parents :: nat
  loc_interior :: "junction list"

datatype participation_type = PTEvaluation | PTBid | PTContribution

record migration_origin =
  mo_user :: location
  mo_id :: nat
  mo_participation_type :: participation_type

fun participation_type_index :: "participation_type \<Rightarrow> nat" where
  "participation_type_index PTEvaluation = 0"
| "participation_type_index PTBid = 1"
| "participation_type_index PTContribution = 2"

definition migration_origin_cmp :: "migration_origin \<Rightarrow> migration_origin \<Rightarrow> ordering" where
  "migration_origin_cmp a b =
     (if mo_participation_type a = mo_participation_type b then nat_cmp (mo_id a) (mo_id b)
      else nat_cmp (participation_type_index (mo_participation_type a))
             (participation_type_index (mo_participation_type b)))"

record migration_info =
  mg_contribution_token_amount :: nat
  mg_vesting_time :: nat

datatype migration_status = NotStarted | Sent nat | Confirmed | MigrationFailed

record migration =
  mg_origin :: migration_origin
  mg_info :: migration_info

definition new_migration :: "migration_origin \<Rightarrow> migration_info \<Rightarrow> migration" where
  "new_migration orig info = \<lparr>mg_origin = orig, mg_info = info\<rparr>"

definition total_ct_amount :: "migration list \<Rightarrow> nat" where
  "total_ct_amount ms = foldl wrapping_add 0 (map (\<lambda>m. mg_contribution_token_amount (mg_info m)) ms)"

definition biggest_vesting_time :: "migration list \<Rightarrow> nat" where
  "biggest_vesting_time ms = foldl max 0 (map (\<lambda>m. mg_vesting_time (mg_info m)) ms)"

end
