(* ===== verification/Credentials.thy ===== *)
theory Credentials
  imports Funding_Types
begin

text \<open>
  \<^verbatim>\<open>src/polimec-common/common/src/credentials/mod.rs\<close>: the origin check of the extrinsics that need
  an investor credential. The verification of the token's signature (\<^verbatim>\<open>jwt_compact\<close>) is the
  parameter \<open>verify_token\<close>, which yields the claims of a token with a valid signature.
\<close>

record claims =
  cl_subject :: account
  cl_issuer :: string
  cl_ipfs_cid :: cid
  cl_investor_type :: investor_type
  cl_did :: did
  cl_expiration :: "int option"

type_synonym jwt = string

definition into_signer :: "origin \<Rightarrow> account option" where
  "into_signer orig = (case orig of Signed who \<Rightarrow> Some who | _ \<Rightarrow> None)"

text \<open>\<open>None\<close> is the error that hands the origin back; \<open>now\<close> is the timestamp in milliseconds.\<close>

definition try_origin ::
    "(jwt \<Rightarrow> string \<Rightarrow> claims option) \<Rightarrow> nat \<Rightarrow> origin \<Rightarrow> jwt \<Rightarrow> string \<Rightarrow>
     (account \<times> did \<times> investor_type \<times> cid) option" where
  "try_origin verify_token now orig token verifying_key =
     Option.bind (into_signer orig) (\<lambda>who.
     Option.bind (verify_token token verifying_key) (\<lambda>cl.
     if 2 ^ 64 \<le> now then None else
     Option.bind (cl_expiration cl) (\<lambda>date_time.
     if date_time < 0 then None else
     let timestamp = nat date_time in
     if cl_subject cl = who \<and> timestamp \<ge> now
     then Some (who, cl_did cl, cl_investor_type cl, cl_ipfs_cid cl)
     else None)))"

definition ensure_origin ::
    "(jwt \<Rightarrow> string \<Rightarrow> claims option) \<Rightarrow> nat \<Rightarrow> origin \<Rightarrow> jwt \<Rightarrow> string \<Rightarrow>
     dispatch_error + (account \<times> did \<times> investor_type \<times> cid)" where
  "ensure_origin verify_token now orig token verifying_key =
     result_ok_or (try_origin verify_token now orig token verifying_key) BadOrigin"

lemma try_origin_Some_iff:
  "try_origin v now orig token key = Some (who, d, it, c) \<longleftrightarrow>
   orig = Signed who \<and> now < 2 ^ 64 \<and>
   (\<exists>cl e. v token key = Some cl \<and> cl_expiration cl = Some e \<and> 0 \<le> e \<and> now \<le> nat e \<and>
      cl_subject cl = who \<and> d = cl_did cl \<and> it = cl_investor_type cl \<and> c = cl_ipfs_cid cl)"
proof (cases "v token key")
  case None
  then show ?thesis by (cases orig) (simp_all add: try_origin_def into_signer_def)
next
  case (Some cl)
  then show ?thesis
    by (cases orig; cases "cl_expiration cl")
       (auto simp: try_origin_def into_signer_def Let_def linorder_not_le)
qed

text \<open>
  A call passes the credential check exactly when it is signed by the account the token was
  issued for, the token's signature verifies, and the token has an expiry that is not before the
  current time; the call then runs with that account and the DID, investor type and policy of the
  token. In particular a token cannot be used by another account or after it expired.
\<close>

theorem credential_check_exact:
  "ensure_origin v now orig token key = Inr (who, d, it, c) \<longleftrightarrow>
   orig = Signed who \<and> now < 2 ^ 64 \<and>
   (\<exists>cl e. v token key = Some cl \<and> cl_expiration cl = Some e \<and> 0 \<le> e \<and> now \<le> nat e \<and>
      cl_subject cl = who \<and> d = cl_did cl \<and> it = cl_investor_type cl \<and> c = cl_ipfs_cid cl)"
  unfolding try_origin_Some_iff [symmetric]
  by (auto simp: ensure_origin_def result_ok_or_def split: option.splits)

end
