(* ===== verification/Funding_State.thy ===== *)
theory Funding_State
  imports Credentials
begin

text \<open>
  The storage, configuration, events and message types of the pallet \<^verbatim>\<open>funding\<close> (\<^verbatim>\<open>lib.rs\<close>). The
  state extends the one of \<open>Linear_Release\<close>, whose \<^verbatim>\<open>ReleaseSchedule\<close> functions the pallet calls on
  the same chain state. Storage maps the code only reads and writes by key are functions; the ones
  it iterates over are \<open>nmap\<close>s. The configuration extends \<open>lr_config\<close> by the pallet's constants and
  by the code it calls outside this repository: the funding and contribution token currencies, the
  price oracle, the XCM router and the slash hook.
\<close>

section \<open>Messages\<close>

record xcm_asset =
  as_location :: location
  as_fungible :: "nat option"

record xcm_pallet_info =
  pi_index :: nat
  pi_module_name :: string

datatype xcm_response =
    ResponseAssets "xcm_asset list"
  | ResponsePalletsInfo "xcm_pallet_info list"
  | ResponseDispatchSuccess
  | ResponseDispatchError
  | ResponseOther

datatype xcm_instruction =
    UnpaidExecution
  | WithdrawAsset location nat
  | BuyExecution location nat
  | Transact "nat list"
  | ReportTransactStatus location nat
  | ReportHolding location nat
  | QueryPallet string location nat
  | RefundSurplus
  | DepositAsset location

datatype xcm_error = XcmBadOrigin | ExceedsMaxMessageSize | Transport string | Unimplemented | SendFailed

section \<open>Events\<close>

datatype funding_event =
    ProjectCreated project_id account project_metadata
  | ProjectRemoved project_id account
  | MetadataEdited project_id project_metadata
  | ProjectPhaseTransition project_id project_status
  | EvaluationEvent project_id account nat nat
  | BidEvent project_id account nat nat fixed accepted_funding_asset nat nat nat
  | ContributionEvent project_id account nat nat accepted_funding_asset nat nat nat
  | EvaluationSettled project_id account nat nat nat
  | BidSettled project_id account nat nat fixed
  | ContributionSettled project_id account nat nat
  | HrmpChannelAccepted project_id nat
  | HrmpChannelEstablished project_id nat
  | MigrationReadinessCheckStarted project_id account
  | MigrationCheckResponseAccepted project_id nat xcm_response
  | MigrationCheckResponseRejected project_id nat xcm_response
  | MigrationStatusUpdated project_id account migration_status
  | CTMigrationFinishedEvent project_id

section \<open>Storage\<close>

type_synonym participation_key = "project_id \<times> account \<times> nat"

record 'l funding_state = "'l lr_state" +
  NextProjectId :: nat
  NextEvaluationId :: nat
  NextBidId :: nat
  NextContributionId :: nat
  BidCounts :: "project_id \<Rightarrow> nat"
  EvaluationCounts :: "project_id \<Rightarrow> nat"
  ProjectsMetadata :: "project_id \<Rightarrow> project_metadata option"
  Buckets :: "project_id \<Rightarrow> bucket option"
  ProjectsDetails :: "(project_id, project_details) nmap"
  Evaluations :: "(participation_key, evaluation_info) nmap"
  Bids :: "(participation_key, bid_info) nmap"
  Contributions :: "(participation_key, contribution_info) nmap"
  AuctionBoughtUSD :: "project_id \<times> did \<Rightarrow> nat"
  ContributionBoughtUSD :: "project_id \<times> did \<Rightarrow> nat"
  UserMigrations :: "project_id \<times> account \<Rightarrow> (migration_status \<times> migration list) option"
  UnmigratedCounter :: "project_id \<Rightarrow> nat"
  ActiveMigrationQueue :: "nat \<Rightarrow> (project_id \<times> account) option"
  DidWithActiveProjects :: "did \<Rightarrow> project_id option"
  DidWithWinningBids :: "project_id \<times> did \<Rightarrow> bool"
  events :: "funding_event list"

section \<open>Configuration\<close>

record 'l funding_config = "'l lr_config" +
  arith :: sp_arithmetic
  DAYS :: nat
  hash_project :: "project_id \<Rightarrow> nat"
  hash_participation :: "participation_key \<Rightarrow> nat"
  fc_transfer :: "nat \<Rightarrow> account \<Rightarrow> account \<Rightarrow> nat \<Rightarrow> preservation \<Rightarrow> ('l, nat) dprog"
  fc_decimals :: "nat \<Rightarrow> 'l \<Rightarrow> nat"
  ct_create :: "project_id \<Rightarrow> account \<Rightarrow> bool \<Rightarrow> nat \<Rightarrow> ('l, unit) dprog"
  ct_set :: "project_id \<Rightarrow> account \<Rightarrow> string \<Rightarrow> string \<Rightarrow> nat \<Rightarrow> ('l, unit) dprog"
  ct_touch :: "project_id \<Rightarrow> account \<Rightarrow> account \<Rightarrow> ('l, unit) dprog"
  ct_mint_into :: "project_id \<Rightarrow> account \<Rightarrow> nat \<Rightarrow> ('l, nat) dprog"
  ct_contains :: "project_id \<Rightarrow> account \<Rightarrow> 'l \<Rightarrow> bool"
  ct_total_issuance :: "project_id \<Rightarrow> 'l \<Rightarrow> nat"
  get_price :: "nat \<Rightarrow> 'l \<Rightarrow> fixed option"
  sub_account :: "nat \<Rightarrow> account"
  pallet_account :: account
  ExistentialDeposit :: nat
  EvaluationRoundDuration :: nat
  AuctionRoundDuration :: nat
  CommunityRoundDuration :: nat
  RemainderRoundDuration :: nat
  EvaluationSuccessThreshold :: nat
  FundingSuccessThreshold :: nat
  EvaluatorSlash :: nat
  FeeBrackets :: "(nat \<times> nat) list"
  MinUsdPerEvaluation :: nat
  MaxEvaluationsPerProject :: nat
  MaxEvaluationsPerUser :: nat
  MaxBidsPerProject :: nat
  MaxBidsPerUser :: nat
  MaxContributionsPerUser :: nat
  BlockchainOperationTreasury :: account
  ContributionTreasury :: account
  on_slash_hook :: "account \<Rightarrow> nat \<Rightarrow> ('l, unit) dprog"
  AccountId32Conversion :: "account \<Rightarrow> nat"
  VerifierPublicKey :: string
  verify_token :: "jwt \<Rightarrow> string \<Rightarrow> claims option"
  timestamp_now :: "'l \<Rightarrow> nat"
  MaxMessageSizeThresholds :: "nat \<times> nat"
  MaxCapacityThresholds :: "nat \<times> nat"
  RequiredMaxCapacity :: nat
  RequiredMaxMessageSize :: nat
  new_notify_query :: "location \<Rightarrow> nat \<Rightarrow> 'l \<Rightarrow> nat \<times> 'l"
  send_xcm :: "location \<Rightarrow> xcm_instruction list \<Rightarrow> ('l, unit) dprog"
  xcm_validate :: "location \<Rightarrow> xcm_instruction list \<Rightarrow> 'l \<Rightarrow> nat option"
  xcm_deliver :: "nat \<Rightarrow> 'l \<Rightarrow> bool \<times> 'l"
  encode_u32 :: "nat \<Rightarrow> nat list"
  encode_migrations :: "migration list \<Rightarrow> nat list"

type_synonym ('l, 'z, 'a) fprog = "(('l, 'z) funding_state_scheme, 'a) dprog"

abbreviation FErr :: "funding_error \<Rightarrow> dispatch_error" where
  "FErr \<equiv> FundingError"

section \<open>Access to the storage\<close>

definition get_details :: "project_id \<Rightarrow> ('l, 'z) funding_state_scheme \<Rightarrow> project_details option" where
  "get_details p s = nmap_get (ProjectsDetails s) p"

definition details_of :: "project_id \<Rightarrow> ('l, 'z, project_details) fprog" where
  "details_of p = sbind (gets (get_details p)) (\<lambda>d. ok_or d (FErr ProjectDetailsNotFound))"

definition metadata_of :: "project_id \<Rightarrow> ('l, 'z, project_metadata) fprog" where
  "metadata_of p =
     sbind (gets (\<lambda>s. ProjectsMetadata s p)) (\<lambda>m. ok_or m (FErr ProjectMetadataNotFound))"

definition bucket_of :: "project_id \<Rightarrow> ('l, 'z, bucket) fprog" where
  "bucket_of p = sbind (gets (\<lambda>s. Buckets s p)) (\<lambda>b. ok_or b (FErr BucketNotFound))"

definition insert_details ::
    "('l, 'c) funding_config_scheme \<Rightarrow> project_id \<Rightarrow> project_details \<Rightarrow> ('l, 'z, unit) fprog" where
  "insert_details T p d =
     modify (\<lambda>s. s\<lparr>ProjectsDetails := nmap_insert (hash_project T) p d (ProjectsDetails s)\<rparr>)"

definition insert_evaluation ::
    "('l, 'c) funding_config_scheme \<Rightarrow> participation_key \<Rightarrow> evaluation_info \<Rightarrow> ('l, 'z, unit) fprog" where
  "insert_evaluation T k e =
     modify (\<lambda>s. s\<lparr>Evaluations := nmap_insert (hash_participation T) k e (Evaluations s)\<rparr>)"

definition insert_bid ::
    "('l, 'c) funding_config_scheme \<Rightarrow> participation_key \<Rightarrow> bid_info \<Rightarrow> ('l, 'z, unit) fprog" where
  "insert_bid T k b = modify (\<lambda>s. s\<lparr>Bids := nmap_insert (hash_participation T) k b (Bids s)\<rparr>)"

definition insert_contribution ::
    "('l, 'c) funding_config_scheme \<Rightarrow> participation_key \<Rightarrow> contribution_info \<Rightarrow> ('l, 'z, unit) fprog" where
  "insert_contribution T k c =
     modify (\<lambda>s. s\<lparr>Contributions := nmap_insert (hash_participation T) k c (Contributions s)\<rparr>)"

definition set_active_project :: "did \<Rightarrow> project_id option \<Rightarrow> ('l, 'z, unit) fprog" where
  "set_active_project d p =
     modify (\<lambda>s. s\<lparr>DidWithActiveProjects := (DidWithActiveProjects s)(d := p)\<rparr>)"

definition deposit_event :: "funding_event \<Rightarrow> ('l, 'z, unit) fprog" where
  "deposit_event e = modify (\<lambda>s. s\<lparr>events := events s @ [e]\<rparr>)"

text \<open>\<^verbatim>\<open>iter_prefix_values\<close> of a map with the keys project, account and id.\<close>

definition prefix1 :: "project_id \<Rightarrow> (participation_key, 'v) nmap \<Rightarrow> 'v list" where
  "prefix1 p m = map snd (filter (\<lambda>e. fst (fst e) = p) m)"

definition prefix2 :: "project_id \<Rightarrow> account \<Rightarrow> (participation_key, 'v) nmap \<Rightarrow> 'v list" where
  "prefix2 p a m = map snd (filter (\<lambda>e. fst (fst e) = p \<and> fst (snd (fst e)) = a) m)"

lemmas funding_access_defs =
  details_of_def metadata_of_def bucket_of_def insert_details_def insert_evaluation_def insert_bid_def
  insert_contribution_def set_active_project_def deposit_event_def

lemma details_of_Inr [prog_simps]:
  "details_of p s = (Inr d, t) \<longleftrightarrow> get_details p s = Some d \<and> t = s"
  by (auto simp: details_of_def prog_simps)

lemma metadata_of_Inr [prog_simps]:
  "metadata_of p s = (Inr m, t) \<longleftrightarrow> ProjectsMetadata s p = Some m \<and> t = s"
  by (auto simp: metadata_of_def prog_simps)

lemma bucket_of_Inr [prog_simps]: "bucket_of p s = (Inr b, t) \<longleftrightarrow> Buckets s p = Some b \<and> t = s"
  by (auto simp: bucket_of_def prog_simps)

lemma get_details_insert:
  "get_details q (s\<lparr>ProjectsDetails := nmap_insert h p d (ProjectsDetails s)\<rparr>) =
   (if q = p then Some d else get_details q s)"
  by (simp add: get_details_def nmap_get_insert)

end
