(* ===== verification/Funding_Misc.thy ===== *)
theory Funding_Misc
  imports Funding_State
begin

text \<open>
  \<^verbatim>\<open>src/pallets/funding/src/functions/misc.rs\<close>: the helpers of the funding pallet, in the order of
  the file. Not modelled: \<^verbatim>\<open>migrations_per_xcm_message_allowed\<close>, which only measures the encoded size
  of a message. The lemmas and properties about these helpers are in \<open>Funding_Auction_Props\<close>,
  \<open>Funding_Reward_Props\<close> and \<open>Funding_Lifecycle_Props\<close>.
\<close>

definition fund_account_id :: "('l, 'c) funding_config_scheme \<Rightarrow> project_id \<Rightarrow> account" where
  "fund_account_id T index = sub_account T (saturating_add_u32 index 1)"

definition create_bucket_from_metadata ::
    "('l, 'c) funding_config_scheme \<Rightarrow> project_metadata \<Rightarrow> dispatch_error + bucket" where
  "create_bucket_from_metadata T md =
     (let A = arith T;
          auction_allocation_size =
            percent_mul A (md_auction_round_allocation_percentage md) (md_total_allocation_size md);
          bucket_delta_amount = percent_mul A 10 auction_allocation_size
      in result_bind (result_ok_or (f_checked_from_rational A 1 10) (FErr BadMath))
           (\<lambda>ten_percent_in_price.
         let bucket_delta_price = f_saturating_mul A (md_minimum_price md) ten_percent_in_price
         in Inr (new_bucket auction_allocation_size (md_minimum_price md) bucket_delta_price
                  bucket_delta_amount)))"

definition plmc_usd_price :: "('l, 'c) funding_config_scheme \<Rightarrow> 'l \<Rightarrow> fixed option" where
  "plmc_usd_price T l =
     get_decimals_aware_price (arith T) (\<lambda>a. get_price T a l) PLMC_FOREIGN_ID USD_DECIMALS PLMC_DECIMALS"

definition calculate_plmc_bond ::
    "('l, 'c) funding_config_scheme \<Rightarrow> nat \<Rightarrow> nat \<Rightarrow> ('l, 'z, nat) fprog" where
  "calculate_plmc_bond T ticket_size multiplier =
     sbind (gets (\<lambda>s. plmc_usd_price T (ext s))) (\<lambda>price.
     sbind (ok_or price (FErr PriceNotFound)) (\<lambda>plmc_usd_price.
     sbind (ok_or (calculate_bonding_requirement multiplier ticket_size) (FErr BadMath)) (\<lambda>usd_bond.
     sbind (ok_or (f_reciprocal (arith T) plmc_usd_price) (FErr BadMath)) (\<lambda>recip.
     ok_or (f_checked_mul_int (arith T) recip usd_bond) (FErr BadMath)))))"

definition funding_asset_price ::
    "('l, 'c) funding_config_scheme \<Rightarrow> accepted_funding_asset \<Rightarrow> 'l \<Rightarrow> fixed option" where
  "funding_asset_price T asset l =
     get_decimals_aware_price (arith T) (\<lambda>a. get_price T a l) (asset_id_of asset) USD_DECIMALS
       (fc_decimals T (asset_id_of asset) l)"

definition calculate_funding_asset_amount ::
    "('l, 'c) funding_config_scheme \<Rightarrow> nat \<Rightarrow> accepted_funding_asset \<Rightarrow> ('l, 'z, nat) fprog" where
  "calculate_funding_asset_amount T ticket_size asset =
     sbind (gets (\<lambda>s. funding_asset_price T asset (ext s))) (\<lambda>price.
     sbind (ok_or price (FErr PriceNotFound)) (\<lambda>asset_usd_price.
     ok_or (Option.bind (f_reciprocal (arith T) asset_usd_price)
              (\<lambda>recip. f_checked_mul_int (arith T) recip ticket_size)) (FErr BadMath)))"

definition calculate_vesting_info ::
    "('l, 'c) funding_config_scheme \<Rightarrow> account \<Rightarrow> nat \<Rightarrow> nat \<Rightarrow> dispatch_error + plmc_vesting_info" where
  "calculate_vesting_info T caller multiplier bonded_amount =
     (let duration = calculate_vesting_duration (arith T) (DAYS T) multiplier;
          duration_as_balance = BlockNumberToBalance T duration
      in result_bind
           (if duration_as_balance = 0 then Inr bonded_amount
            else result_ok_or (checked_div bonded_amount duration_as_balance) (FErr BadMath))
           (\<lambda>amount_per_block.
         Inr \<lparr>pv_total_amount = bonded_amount, pv_amount_per_block = amount_per_block,
              pv_duration = duration\<rparr>))"

section \<open>Deciding the winning bids\<close>

definition decide_bid :: "nat \<Rightarrow> nat \<Rightarrow> bid_info \<Rightarrow> bid_info \<times> nat" where
  "decide_bid auction_allocation_size bid_token_amount_sum bid =
     (let buyable_amount = saturating_sub auction_allocation_size bid_token_amount_sum in
      if buyable_amount = 0 then (bid\<lparr>bid_bstatus := Rejected\<rparr>, bid_token_amount_sum)
      else if bid_original_ct_amount bid \<le> buyable_amount
      then (bid\<lparr>bid_bstatus := Accepted\<rparr>,
            saturating_add bid_token_amount_sum (bid_original_ct_amount bid))
      else (bid\<lparr>bid_bstatus := PartiallyAccepted buyable_amount\<rparr>,
            saturating_add bid_token_amount_sum buyable_amount))"

definition is_accepted :: "bid_info \<Rightarrow> bool" where
  "is_accepted bid = (case bid_bstatus bid of Accepted \<Rightarrow> True | PartiallyAccepted _ \<Rightarrow> True | _ \<Rightarrow> False)"

definition mark_winning :: "project_id \<Rightarrow> did \<Rightarrow> ('l, 'z, unit) fprog" where
  "mark_winning p d =
     modify (\<lambda>s. s\<lparr>DidWithWinningBids := (DidWithWinningBids s)((p, d) := True)\<rparr>)"

fun decide_bids ::
    "('l, 'c) funding_config_scheme \<Rightarrow> project_id \<Rightarrow> nat \<Rightarrow> nat \<Rightarrow> bid_info list \<Rightarrow>
     ('l, 'z, bid_info list \<times> nat) fprog" where
  "decide_bids T p alloc acc [] = ok ([], acc)"
| "decide_bids T p alloc acc (bid # bids) =
     (case decide_bid alloc acc bid of (bid', acc') \<Rightarrow>
      seq (if is_accepted bid' then mark_winning p (bid_did bid') else ok ())
      (seq (insert_bid T (p, bid_bidder bid', bid_id bid') bid')
      (sbind (decide_bids T p alloc acc' bids) (\<lambda>(decided, total_sum).
       ok (bid' # decided, total_sum)))))"

definition final_price :: "fixed \<Rightarrow> bid_info \<Rightarrow> fixed" where
  "final_price wap bid = (if bid_original_ct_usd_price bid > wap then wap else bid_original_ct_usd_price bid)"

definition auction_usd :: "sp_arithmetic \<Rightarrow> fixed \<Rightarrow> bid_info list \<Rightarrow> nat option" where
  "auction_usd A wap bids =
     foldl (\<lambda>acc bid. Option.bind acc (\<lambda>acc.
       Option.bind (f_checked_mul_int A (final_price wap bid) (bid_final_ct_amount bid)) (\<lambda>usd_ticket.
       checked_add acc usd_ticket))) (Some 0) bids"

definition decide_winning_bids ::
    "('l, 'c) funding_config_scheme \<Rightarrow> project_id \<Rightarrow> nat \<Rightarrow> fixed \<Rightarrow> ('l, 'z, nat \<times> nat) fprog" where
  "decide_winning_bids T p auction_allocation_size wap =
     sbind (gets (\<lambda>s. sort_by (\<lambda>a b. bid_cmp b a) (prefix1 p (Bids s)))) (\<lambda>bids.
     sbind (decide_bids T p auction_allocation_size 0 bids) (\<lambda>(decided, bid_token_amount_sum).
     let accepted_bids = filter is_accepted decided;
         rejected_bids = filter (\<lambda>b. \<not> is_accepted b) decided
     in sbind (ok_or (auction_usd (arith T) wap accepted_bids) (FErr BadMath))
          (\<lambda>total_auction_allocation_usd.
        sbind (details_of p) (\<lambda>info.
        seq (insert_details T p (info\<lparr>
               pd_remaining_contribution_tokens :=
                 saturating_sub (pd_remaining_contribution_tokens info) bid_token_amount_sum,
               pd_funding_amount_reached_usd :=
                 saturating_add (pd_funding_amount_reached_usd info) total_auction_allocation_usd,
               pd_weighted_average_price := Some wap\<rparr>))
        (ok (length accepted_bids, length rejected_bids))))))"

section \<open>Locking participations\<close>

fun convert_evaluations ::
    "('l, 'c) funding_config_scheme \<Rightarrow> account \<Rightarrow> project_id \<Rightarrow> evaluation_info list \<Rightarrow> nat \<Rightarrow>
     ('l, 'z, nat) fprog" where
  "convert_evaluations T who p [] to_convert = ok to_convert"
| "convert_evaluations T who p (evaluation # evaluations) to_convert =
     (if to_convert = 0 then ok to_convert else
      let slash_deposit = percent_mul (arith T) (EvaluatorSlash T) (ev_original_plmc_bond evaluation);
          available_to_convert = saturating_sub (ev_current_plmc_bond evaluation) slash_deposit;
          converted = min to_convert available_to_convert
      in seq (insert_evaluation T (p, who, ev_id evaluation)
               (evaluation\<lparr>ev_current_plmc_bond := saturating_sub (ev_current_plmc_bond evaluation) converted\<rparr>))
         (sbind (map_err (\<lambda>_. FErr ImpossibleState)
             (on_ext (c_release (Currency T) (FundingReason Evaluation) who converted Exact))) (\<lambda>_.
          seq (map_err (\<lambda>_. FErr ImpossibleState)
             (on_ext (c_hold (Currency T) (FundingReason Participation) who converted)))
          (convert_evaluations T who p evaluations (saturating_sub to_convert converted)))))"

definition try_plmc_participation_lock ::
    "('l, 'c) funding_config_scheme \<Rightarrow> account \<Rightarrow> project_id \<Rightarrow> nat \<Rightarrow> ('l, 'z, unit) fprog" where
  "try_plmc_participation_lock T who p amount =
     sbind (gets (\<lambda>s. prefix2 p who (Evaluations s))) (\<lambda>user_evaluations.
     sbind (convert_evaluations T who p user_evaluations amount) (\<lambda>to_convert.
     map_err (\<lambda>_. FErr ParticipantNotEnoughFunds)
       (on_ext (c_hold (Currency T) (FundingReason Participation) who to_convert))))"

definition try_funding_asset_hold ::
    "('l, 'c) funding_config_scheme \<Rightarrow> account \<Rightarrow> project_id \<Rightarrow> nat \<Rightarrow> nat \<Rightarrow> ('l, 'z, unit) fprog" where
  "try_funding_asset_hold T who p amount asset_id =
     (let fund_account = fund_account_id T p in
      sbind (map_err (\<lambda>_. FErr ParticipantNotEnoughFunds)
        (on_ext (fc_transfer T asset_id who fund_account amount Expendable))) (\<lambda>_. ok ()))"

section \<open>Fees and rewards\<close>

definition compute_fee_for_bracket :: "sp_arithmetic \<Rightarrow> nat \<Rightarrow> nat \<Rightarrow> nat \<Rightarrow> nat \<times> nat" where
  "compute_fee_for_bracket A remaining_for_fee fee limit =
     (case checked_sub remaining_for_fee limit of
        Some amount_to_bid \<Rightarrow> (percent_mul A fee limit, amount_to_bid)
      | None \<Rightarrow> (percent_mul A fee remaining_for_fee, 0))"

fun fees_of_brackets :: "sp_arithmetic \<Rightarrow> nat \<Rightarrow> (nat \<times> nat) list \<Rightarrow> nat list" where
  "fees_of_brackets A remaining [] = []"
| "fees_of_brackets A remaining ((fee, limit) # bs) =
     (case compute_fee_for_bracket A remaining fee limit of (f, remaining') \<Rightarrow>
      f # fees_of_brackets A remaining' bs)"

definition compute_total_fee_from_brackets :: "('l, 'c) funding_config_scheme \<Rightarrow> nat \<Rightarrow> nat" where
  "compute_total_fee_from_brackets T funding_reached =
     foldl saturating_add 0 (fees_of_brackets (arith T) funding_reached (FeeBrackets T))"

definition calculate_fee_allocation ::
    "('l, 'c) funding_config_scheme \<Rightarrow> project_id \<Rightarrow> ('l, 'z, nat) fprog" where
  "calculate_fee_allocation T p =
     sbind (metadata_of p) (\<lambda>project_metadata.
     sbind (details_of p) (\<lambda>project_details.
     let A = arith T;
         funding_amount_reached = pd_funding_amount_reached_usd project_details;
         fee_usd = compute_total_fee_from_brackets T funding_amount_reached;
         fee_percentage = pq_from_rational A fee_usd funding_amount_reached;
         initial_token_allocation_size = md_total_allocation_size project_metadata;
         final_remaining_contribution_tokens = pd_remaining_contribution_tokens project_details;
         token_sold =
           (case checked_sub initial_token_allocation_size final_remaining_contribution_tokens of
              Some x \<Rightarrow> x | None \<Rightarrow> initial_token_allocation_size)
     in ok (pq_mul A fee_percentage token_sold)))"

definition pq_from_percent :: "nat \<Rightarrow> nat" where
  "pq_from_percent n = n * 10 ^ 16"

definition generate_evaluator_rewards_info ::
    "('l, 'c) funding_config_scheme \<Rightarrow> project_id \<Rightarrow> ('l, 'z, reward_info) fprog" where
  "generate_evaluator_rewards_info T p =
     sbind (details_of p) (\<lambda>project_details.
     sbind (calculate_fee_allocation T p) (\<lambda>total_fee_allocation.
     let A = arith T;
         evaluator_rewards = pq_mul A (pq_from_percent 30) total_fee_allocation;
         early_pot = pq_mul A (pq_from_percent 20) evaluator_rewards;
         normal_pot = pq_mul A (pq_from_percent 80) evaluator_rewards;
         normal_total = ri_total_bonded_usd (pd_evaluation_round_info project_details);
         early_evaluation_reward_threshold_usd =
           percent_mul A (EvaluationSuccessThreshold T) (pd_fundraising_target_usd project_details);
         early_total = min normal_total early_evaluation_reward_threshold_usd
     in ok \<lparr>rw_early_evaluator_reward_pot = early_pot, rw_normal_evaluator_reward_pot = normal_pot,
            rw_early_evaluator_total_bonded_usd = early_total,
            rw_normal_evaluator_total_bonded_usd = normal_total\<rparr>))"

definition generate_liquidity_pools_and_long_term_holder_rewards ::
    "('l, 'c) funding_config_scheme \<Rightarrow> project_id \<Rightarrow> ('l, 'z, nat \<times> nat) fprog" where
  "generate_liquidity_pools_and_long_term_holder_rewards T p =
     sbind (calculate_fee_allocation T p) (\<lambda>total_fee_allocation.
     ok (pq_mul (arith T) (pq_from_percent 50) total_fee_allocation,
         pq_mul (arith T) (pq_from_percent 20) total_fee_allocation))"

section \<open>Migrations and round transitions\<close>

definition user_has_no_participations :: "project_id \<Rightarrow> account \<Rightarrow> ('l, 'z) funding_state_scheme \<Rightarrow> bool" where
  "user_has_no_participations p user s \<longleftrightarrow>
     prefix2 p user (Evaluations s) = [] \<and> prefix2 p user (Bids s) = [] \<and>
     prefix2 p user (Contributions s) = []"

definition polimec_location :: location where
  "polimec_location = \<lparr>loc_parents = 1, loc_interior = [Parachain 3344]\<rparr>"

definition construct_migration_xcm_message ::
    "('l, 'c) funding_config_scheme \<Rightarrow> migration list \<Rightarrow> nat \<Rightarrow> nat \<Rightarrow> xcm_instruction list" where
  "construct_migration_xcm_message T migrations query_id pallet_index =
     [UnpaidExecution, Transact ([pallet_index, 0] @ encode_migrations T migrations),
      ReportTransactStatus polimec_location query_id]"

definition decrement_unmigrated :: "project_id \<Rightarrow> ('l, 'z, unit) fprog" where
  "decrement_unmigrated p =
     modify (\<lambda>s. s\<lparr>UnmigratedCounter := (UnmigratedCounter s)(p := saturating_sub (UnmigratedCounter s p) 1)\<rparr>)"

definition change_migration_status ::
    "('l, 'c) funding_config_scheme \<Rightarrow> project_id \<Rightarrow> account \<Rightarrow> migration_status \<Rightarrow> ('l, 'z, unit) fprog" where
  "change_migration_status T p user status =
     sbind (details_of p) (\<lambda>project_details.
     sbind (gets (\<lambda>s. UserMigrations s (p, user))) (\<lambda>found.
     sbind (ok_or found (FErr NoMigrationsFound)) (\<lambda>(current_status, migrations).
     let is_sent = (case current_status of Sent _ \<Rightarrow> True | _ \<Rightarrow> False);
         offchain = (case pd_migration_type project_details of Some Offchain \<Rightarrow> True | _ \<Rightarrow> False);
         via_pallet =
           (case pd_migration_type project_details of Some (PalletMigration _) \<Rightarrow> True | _ \<Rightarrow> False)
     in seq (case status of
               Sent _ \<Rightarrow> ensure (current_status = NotStarted \<or> current_status = MigrationFailed) (FErr NotAllowed)
             | Confirmed \<Rightarrow>
                 if offchain \<or> (via_pallet \<and> is_sent) then decrement_unmigrated p else err (FErr NotAllowed)
             | MigrationFailed \<Rightarrow> ensure is_sent (FErr NotAllowed)
             | NotStarted \<Rightarrow> err (FErr NotAllowed))
        (seq (modify (\<lambda>s. s\<lparr>UserMigrations := (UserMigrations s)((p, user) \<mapsto> (status, migrations))\<rparr>))
        (insert_details T p project_details)))))"

definition transition_project ::
    "('l, 'c) funding_config_scheme \<Rightarrow> project_id \<Rightarrow> project_details \<Rightarrow> project_status \<Rightarrow> project_status \<Rightarrow>
     nat option \<Rightarrow> bool \<Rightarrow> ('l, 'z, unit) fprog" where
  "transition_project T p project_details current_round next_round maybe_round_duration skip_end_check =
     sbind (gets block_number) (\<lambda>now.
     seq (ensure (pd_status project_details = current_round) (FErr IncorrectRound))
     (seq (ensure (ended (pd_round_duration project_details) now \<or> skip_end_check) (FErr TooEarlyForRound))
     (let round_end =
            map_option (\<lambda>round_duration. saturating_sub (saturating_add_u32 now round_duration) 1)
              maybe_round_duration
      in seq (insert_details T p (project_details\<lparr>
                pd_round_duration := \<lparr>bp_start = Some now, bp_end = round_end\<rparr>,
                pd_status := next_round\<rparr>))
         (deposit_event (ProjectPhaseTransition p next_round)))))"

end
