(* ===== verification/Funding_Application.thy ===== *)
theory Funding_Application
  imports Funding_Misc
begin

text \<open>
  \<^verbatim>\<open>functions/1_application.rs\<close> and \<^verbatim>\<open>functions/2_evaluation.rs\<close> of the funding pallet: creating,
  editing and removing a project, and its evaluation round.
\<close>

section \<open>Application\<close>

fun metadata_pallet_error :: "metadata_error \<Rightarrow> funding_error" where
  "metadata_pallet_error MPriceTooLow = PriceTooLow"
| "metadata_pallet_error MTicketSizeError = TicketSizeError"
| "metadata_pallet_error MParticipationCurrenciesError = ParticipationCurrenciesError"
| "metadata_pallet_error MAllocationSizeError = AllocationSizeError"
| "metadata_pallet_error MAuctionRoundPercentageError = AuctionRoundPercentageError"
| "metadata_pallet_error MFundingTargetTooLow = FundingTargetTooLow"
| "metadata_pallet_error MFundingTargetTooHigh = FundingTargetTooHigh"
| "metadata_pallet_error MCidNotProvided = CidNotProvided"
| "metadata_pallet_error MBadDecimals = BadDecimals"
| "metadata_pallet_error MBadTokenomics = BadTokenomics"

definition project_validation ::
    "('l, 'c) funding_config_scheme \<Rightarrow> project_metadata \<Rightarrow> account \<Rightarrow> did \<Rightarrow>
     dispatch_error + (project_metadata \<times> project_details \<times> bucket)" where
  "project_validation T md issuer d =
     (case metadata_is_valid (arith T) md of
        Inl e \<Rightarrow> Inl (FErr (metadata_pallet_error e))
      | Inr _ \<Rightarrow>
          result_bind
            (result_ok_or (f_checked_mul_int (arith T) (md_minimum_price md) (md_total_allocation_size md))
              (FErr BadMath)) (\<lambda>fundraising_target.
          let project_details =
                \<lparr>pd_issuer_account = issuer, pd_issuer_did = d, pd_is_frozen = False,
                 pd_weighted_average_price = None, pd_status = Application,
                 pd_round_duration = \<lparr>bp_start = None, bp_end = None\<rparr>,
                 pd_fundraising_target_usd = fundraising_target,
                 pd_remaining_contribution_tokens = md_total_allocation_size md,
                 pd_funding_amount_reached_usd = 0,
                 pd_evaluation_round_info =
                   \<lparr>ri_total_bonded_usd = 0, ri_total_bonded_plmc = 0, ri_evaluators_outcome = None\<rparr>,
                 pd_usd_bid_on_oversubscription = None, pd_funding_end_block = None,
                 pd_migration_type = None\<rparr>
          in result_bind (create_bucket_from_metadata T md) (\<lambda>bucket.
             Inr (md, project_details, bucket))))"

definition do_create_project ::
    "('l, 'c) funding_config_scheme \<Rightarrow> account \<Rightarrow> project_metadata \<Rightarrow> did \<Rightarrow> ('l, 'z, unit) fprog" where
  "do_create_project T issuer md d = transactional (
     sbind (gets NextProjectId) (\<lambda>project_id.
     sbind (gets (\<lambda>s. DidWithActiveProjects s d)) (\<lambda>maybe_active_project.
     seq (ensure (maybe_active_project = None) (FErr HasActiveProject))
     (sbind (of_result (project_validation T md issuer d)) (\<lambda>(md, project_details, bucket).
      let escrow_account = fund_account_id T project_id in
      sbind (map_err (\<lambda>_. FErr IssuerNotEnoughFunds)
        (on_ext (c_transfer (Currency T) issuer escrow_account (ExistentialDeposit T) Preserve))) (\<lambda>_.
      seq (modify (\<lambda>s. s\<lparr>ProjectsMetadata := (ProjectsMetadata s)(project_id \<mapsto> md)\<rparr>))
      (seq (insert_details T project_id project_details)
      (seq (modify (\<lambda>s. s\<lparr>Buckets := (Buckets s)(project_id \<mapsto> bucket)\<rparr>))
      (seq (modify (\<lambda>s. s\<lparr>NextProjectId := saturating_add_u32 (NextProjectId s) 1\<rparr>))
      (seq (set_active_project d (Some project_id))
      (deposit_event (ProjectCreated project_id issuer md))))))))))))"

definition do_edit_project ::
    "('l, 'c) funding_config_scheme \<Rightarrow> account \<Rightarrow> project_id \<Rightarrow> project_metadata \<Rightarrow> ('l, 'z, unit) fprog" where
  "do_edit_project T issuer p new_md = transactional (
     sbind (details_of p) (\<lambda>project_details.
     seq (ensure (pd_issuer_account project_details = issuer) (FErr NotIssuer))
     (seq (ensure (\<not> pd_is_frozen project_details) (FErr ProjectIsFrozen))
     (sbind (of_result (project_validation T new_md issuer (pd_issuer_did project_details)))
        (\<lambda>(new_md, project_details, bucket).
      seq (modify (\<lambda>s. s\<lparr>ProjectsMetadata := (ProjectsMetadata s)(p \<mapsto> new_md)\<rparr>))
      (seq (insert_details T p project_details)
      (seq (modify (\<lambda>s. s\<lparr>Buckets := (Buckets s)(p \<mapsto> bucket)\<rparr>))
      (deposit_event (MetadataEdited p new_md)))))))))"

definition do_remove_project ::
    "('l, 'c) funding_config_scheme \<Rightarrow> account \<Rightarrow> project_id \<Rightarrow> did \<Rightarrow> ('l, 'z, unit) fprog" where
  "do_remove_project T issuer p d = transactional (
     sbind (details_of p) (\<lambda>project_details.
     seq (ensure (pd_issuer_account project_details = issuer) (FErr NotIssuer))
     (seq (ensure (\<not> pd_is_frozen project_details) (FErr ProjectIsFrozen))
     (seq (modify (\<lambda>s. s\<lparr>ProjectsDetails := nmap_remove p (ProjectsDetails s)\<rparr>))
     (seq (modify (\<lambda>s. s\<lparr>ProjectsMetadata := (ProjectsMetadata s)(p := None)\<rparr>))
     (seq (set_active_project d None)
     (seq (modify (\<lambda>s. s\<lparr>Buckets := (Buckets s)(p := None)\<rparr>))
     (deposit_event (ProjectRemoved p issuer)))))))))"

section \<open>Evaluation\<close>

definition do_start_evaluation ::
    "('l, 'c) funding_config_scheme \<Rightarrow> account \<Rightarrow> project_id \<Rightarrow> ('l, 'z, unit) fprog" where
  "do_start_evaluation T caller p = transactional (
     sbind (metadata_of p) (\<lambda>md.
     sbind (details_of p) (\<lambda>project_details.
     seq (ensure (pd_issuer_account project_details = caller) (FErr NotIssuer))
     (seq (ensure (\<not> pd_is_frozen project_details) (FErr ProjectAlreadyFrozen))
     (seq (ensure (md_policy_ipfs_cid md \<noteq> None) (FErr CidNotProvided))
     (transition_project T p (project_details\<lparr>pd_is_frozen := True\<rparr>) Application EvaluationRound
        (Some (EvaluationRoundDuration T)) False))))))"

definition do_end_evaluation ::
    "('l, 'c) funding_config_scheme \<Rightarrow> project_id \<Rightarrow> ('l, 'z, unit) fprog" where
  "do_end_evaluation T p = transactional (
     sbind (details_of p) (\<lambda>project_details.
     let usd_total_amount_bonded = ri_total_bonded_usd (pd_evaluation_round_info project_details);
         evaluation_target_usd =
           percent_mul (arith T) (EvaluationSuccessThreshold T) (pd_fundraising_target_usd project_details);
         is_funded = usd_total_amount_bonded \<ge> evaluation_target_usd
     in if is_funded
        then transition_project T p project_details EvaluationRound AuctionRound
               (Some (AuctionRoundDuration T)) False
        else seq (set_active_project (pd_issuer_did project_details) None)
               (transition_project T p project_details EvaluationRound FundingFailed (Some 1) False)))"

definition do_evaluate ::
    "('l, 'c) funding_config_scheme \<Rightarrow> account \<Rightarrow> project_id \<Rightarrow> nat \<Rightarrow> did \<Rightarrow> cid \<Rightarrow> ('l, 'z, unit) fprog" where
  "do_evaluate T evaluator p usd_amount d whitelisted_policy = transactional (
     sbind (metadata_of p) (\<lambda>md.
     sbind (details_of p) (\<lambda>project_details.
     sbind (gets block_number) (\<lambda>now.
     sbind (gets NextEvaluationId) (\<lambda>evaluation_id.
     sbind (gets (\<lambda>s. plmc_usd_price T (ext s))) (\<lambda>price.
     sbind (ok_or price (FErr PriceNotFound)) (\<lambda>plmc_usd_price.
     let A = arith T;
         early_evaluation_reward_threshold_usd =
           percent_mul A (EvaluationSuccessThreshold T) (pd_fundraising_target_usd project_details);
         evaluation_round_info = pd_evaluation_round_info project_details
     in
     sbind (gets (\<lambda>s. EvaluationCounts s p)) (\<lambda>total_evaluations_count.
     sbind (gets (\<lambda>s. length (prefix2 p evaluator (Evaluations s)))) (\<lambda>user_evaluations_count.
     sbind (ok_or (md_policy_ipfs_cid md) (FErr ImpossibleState)) (\<lambda>project_policy.
     seq (ensure (project_policy = whitelisted_policy) (FErr PolicyMismatch))
     (seq (ensure (usd_amount \<ge> MinUsdPerEvaluation T) (FErr TooLow))
     (seq (ensure (pd_issuer_did project_details \<noteq> d) (FErr ParticipationToOwnProject))
     (seq (ensure (pd_status project_details = EvaluationRound) (FErr IncorrectRound))
     (seq (ensure (total_evaluations_count < MaxEvaluationsPerProject T) (FErr TooManyProjectParticipations))
     (seq (ensure (user_evaluations_count < MaxEvaluationsPerUser T) (FErr TooManyUserParticipations))
     (sbind (ok_or (f_reciprocal A plmc_usd_price) (FErr BadMath)) (\<lambda>recip.
      sbind (ok_or (f_checked_mul_int A recip usd_amount) (FErr BadMath)) (\<lambda>plmc_bond.
      let previous_total_evaluation_bonded_usd = ri_total_bonded_usd evaluation_round_info;
          remaining_bond_to_reach_threshold =
            saturating_sub early_evaluation_reward_threshold_usd previous_total_evaluation_bonded_usd;
          early_usd_amount =
            (if usd_amount \<le> remaining_bond_to_reach_threshold then usd_amount
             else remaining_bond_to_reach_threshold)
      in
      sbind (ok_or (checked_sub usd_amount early_usd_amount) (FErr BadMath)) (\<lambda>late_usd_amount.
      let new_evaluation =
            \<lparr>ev_id = evaluation_id, ev_did = d, ev_project_id = p, ev_evaluator = evaluator,
             ev_original_plmc_bond = plmc_bond, ev_current_plmc_bond = plmc_bond,
             ev_early_usd_amount = early_usd_amount, ev_late_usd_amount = late_usd_amount, ev_when = now\<rparr>
      in
      seq (on_ext (c_hold (Currency T) (FundingReason Evaluation) evaluator plmc_bond))
      (seq (insert_evaluation T (p, evaluator, evaluation_id) new_evaluation)
      (seq (modify (\<lambda>s. s\<lparr>NextEvaluationId := saturating_add_u32 evaluation_id 1\<rparr>))
      (seq (insert_details T p (project_details\<lparr>pd_evaluation_round_info := evaluation_round_info\<lparr>
              ri_total_bonded_usd := wrapping_add (ri_total_bonded_usd evaluation_round_info) usd_amount,
              ri_total_bonded_plmc := wrapping_add (ri_total_bonded_plmc evaluation_round_info) plmc_bond\<rparr>\<rparr>))
      (seq (modify (\<lambda>s. s\<lparr>EvaluationCounts := (EvaluationCounts s)(p := wrapping_add_u32 (EvaluationCounts s p) 1)\<rparr>))
      (deposit_event (EvaluationEvent p evaluator evaluation_id plmc_bond)))))))))))))))))))))))))"

end
