(* ===== verification/Funding_Auction.thy ===== *)
theory Funding_Auction
  imports Funding_Application
begin

text \<open>
  \<^verbatim>\<open>functions/3_auction.rs\<close>, \<^verbatim>\<open>functions/4_contribution.rs\<close> and \<^verbatim>\<open>functions/5_funding_end.rs\<close> of the
  funding pallet: bidding, the end of the auction, contributing, and the end of the funding. The
  weights a call reports are left out, except the counters the weight formulas are applied to.
\<close>

section \<open>The auction\<close>

definition do_end_auction ::
    "('l, 'c) funding_config_scheme \<Rightarrow> project_id \<Rightarrow> ('l, 'z, nat \<times> nat) fprog" where
  "do_end_auction T p = transactional (
     sbind (metadata_of p) (\<lambda>md.
     sbind (bucket_of p) (\<lambda>bucket.
     let auction_allocation_size =
           percent_mul (arith T) (md_auction_round_allocation_percentage md) (md_total_allocation_size md)
     in
     sbind (ok_or (calculate_wap (arith T) bucket auction_allocation_size) Panic)
       (\<lambda>weighted_token_price.
     sbind (attempt (decide_winning_bids T p
         (percent_mul (arith T) (md_auction_round_allocation_percentage md) (md_total_allocation_size md))
         weighted_token_price)) (\<lambda>calculation_result.
     sbind (details_of p) (\<lambda>updated_project_details.
     sbind (of_result calculation_result) (\<lambda>(accepted_bids_count, rejected_bids_count).
     sbind (gets block_number) (\<lambda>now.
     seq (transition_project T p updated_project_details AuctionRound
            (CommunityRound (saturating_add_u32 now (CommunityRoundDuration T)))
            (Some (wrapping_add_u32 (CommunityRoundDuration T) (RemainderRoundDuration T))) False)
     (ok (accepted_bids_count, rejected_bids_count))))))))))"

text \<open>A successful end of an auction decided its bids and moved on with the details this left.\<close>

lemma do_end_auctionE:
  assumes "do_end_auction T p s = (Inr r, t)"
  obtains wap alloc u d where "decide_winning_bids T p alloc wap s = (Inr r, u)" "get_details p u = Some d"
    "transition_project T p d AuctionRound
       (CommunityRound (saturating_add_u32 (block_number u) (CommunityRoundDuration T)))
       (Some (wrapping_add_u32 (CommunityRoundDuration T) (RemainderRoundDuration T))) False u = (Inr (), t)"
  using assms unfolding do_end_auction_def Let_def transactional_Inr
  by (elim prog_elims) (auto simp: prog_simps funding_access_defs intro: that)

record do_perform_bid_params =
  pb_bidder :: account
  pb_project_id :: project_id
  pb_ct_amount :: nat
  pb_ct_usd_price :: fixed
  pb_multiplier :: nat
  pb_funding_asset :: accepted_funding_asset
  pb_bid_id :: nat
  pb_now :: nat
  pb_did :: did
  pb_metadata_ticket_size_bounds :: ticket_size
  pb_total_bids_by_bidder :: nat
  pb_total_bids_for_project :: nat

definition do_perform_bid ::
    "('l, 'c) funding_config_scheme \<Rightarrow> do_perform_bid_params \<Rightarrow> ('l, 'z, bid_info) fprog" where
  "do_perform_bid T P = transactional (
     sbind (ok_or (f_checked_mul_int (arith T) (pb_ct_usd_price P) (pb_ct_amount P)) (FErr BadMath))
       (\<lambda>ticket_size.
     sbind (gets (\<lambda>s. AuctionBoughtUSD s (pb_project_id P, pb_did P))) (\<lambda>total_usd_bid_by_did.
     seq (ensure (usd_ticket_below_maximum_per_did (pb_metadata_ticket_size_bounds P)
            (saturating_add total_usd_bid_by_did ticket_size)) (FErr TooHigh))
     (seq (ensure (pb_total_bids_by_bidder P < as_u32 (MaxBidsPerUser T)) (FErr TooManyUserParticipations))
     (seq (ensure (pb_total_bids_for_project P < as_u32 (MaxBidsPerProject T))
            (FErr TooManyProjectParticipations))
     (sbind (map_err (\<lambda>_. FErr BadMath) (calculate_plmc_bond T ticket_size (pb_multiplier P))) (\<lambda>plmc_bond.
      sbind (calculate_funding_asset_amount T ticket_size (pb_funding_asset P)) (\<lambda>funding_asset_amount_locked.
      let new_bid =
            \<lparr>bid_id = pb_bid_id P, bid_project_id = pb_project_id P, bid_bidder = pb_bidder P,
             bid_did = pb_did P, bid_bstatus = YetUnknown, bid_original_ct_amount = pb_ct_amount P,
             bid_original_ct_usd_price = pb_ct_usd_price P, bid_funding_asset = pb_funding_asset P,
             bid_funding_asset_amount_locked = funding_asset_amount_locked,
             bid_multiplier = pb_multiplier P, bid_plmc_bond = plmc_bond, bid_when = pb_now P\<rparr>
      in
      seq (try_plmc_participation_lock T (pb_bidder P) (pb_project_id P) plmc_bond)
      (seq (try_funding_asset_hold T (pb_bidder P) (pb_project_id P) funding_asset_amount_locked
              (asset_id_of (pb_funding_asset P)))
      (seq (insert_bid T (pb_project_id P, pb_bidder P, pb_bid_id P) new_bid)
      (seq (modify (\<lambda>s. s\<lparr>NextBidId := saturating_add_u32 (pb_bid_id P) 1\<rparr>))
      (seq (modify (\<lambda>s. s\<lparr>BidCounts :=
              (BidCounts s)(pb_project_id P := wrapping_add_u32 (BidCounts s (pb_project_id P)) 1)\<rparr>))
      (seq (modify (\<lambda>s. s\<lparr>AuctionBoughtUSD := (AuctionBoughtUSD s)((pb_project_id P, pb_did P) :=
              wrapping_add (AuctionBoughtUSD s (pb_project_id P, pb_did P)) ticket_size)\<rparr>))
      (seq (deposit_event (BidEvent (pb_project_id P) (pb_bidder P) (pb_bid_id P) (pb_ct_amount P)
              (pb_ct_usd_price P) (pb_funding_asset P) funding_asset_amount_locked plmc_bond
              (pb_multiplier P)))
      (ok new_bid)))))))))))))))"

lemma do_perform_bid_total_bids:
  "do_perform_bid T P s = (Inr b, t) \<Longrightarrow> pb_total_bids_by_bidder P < as_u32 (MaxBidsPerUser T)"
  by (auto simp: do_perform_bid_def prog_simps)

text \<open>
  The loop of \<^verbatim>\<open>do_bid\<close>. \<open>P\<close> carries what stays the same for all parts of the bid. It ends because
  every round performs a bid, and \<^verbatim>\<open>do_perform_bid\<close> refuses to exceed \<^verbatim>\<open>MaxBidsPerUser\<close>.
\<close>

record bid_loop_params =
  bl_bidder :: account
  bl_project_id :: project_id
  bl_multiplier :: nat
  bl_funding_asset :: accepted_funding_asset
  bl_now :: nat
  bl_did :: did
  bl_bounds :: ticket_size
  bl_existing_bids_amount :: nat
  bl_total_bids_for_project :: nat

definition perform_bid_params ::
    "bid_loop_params \<Rightarrow> nat \<Rightarrow> nat \<Rightarrow> fixed \<Rightarrow> nat \<Rightarrow> do_perform_bid_params" where
  "perform_bid_params P next_bid_id ct_amount price perform_bid_calls =
     \<lparr>pb_bidder = bl_bidder P, pb_project_id = bl_project_id P, pb_ct_amount = ct_amount,
      pb_ct_usd_price = price, pb_multiplier = bl_multiplier P,
      pb_funding_asset = bl_funding_asset P, pb_bid_id = next_bid_id, pb_now = bl_now P,
      pb_did = bl_did P, pb_metadata_ticket_size_bounds = bl_bounds P,
      pb_total_bids_by_bidder = saturating_add_u32 (bl_existing_bids_amount P) perform_bid_calls,
      pb_total_bids_for_project = saturating_add_u32 (bl_total_bids_for_project P) perform_bid_calls\<rparr>"

function bid_loop ::
    "('l, 'c) funding_config_scheme \<Rightarrow> bid_loop_params \<Rightarrow> bucket \<Rightarrow> nat \<Rightarrow> nat \<Rightarrow>
     ('l, 'z) funding_state_scheme \<Rightarrow>
     (dispatch_error + bucket \<times> nat) \<times> ('l, 'z) funding_state_scheme" where
  "bid_loop T P current_bucket amount_to_bid perform_bid_calls s =
     (if amount_to_bid = 0 then (Inr (current_bucket, perform_bid_calls), s)
      else
        let ct_amount =
              (if amount_to_bid \<le> bk_amount_left current_bucket then amount_to_bid
               else bk_amount_left current_bucket)
        in case do_perform_bid T
              (perform_bid_params P (NextBidId s) ct_amount (bk_current_price current_bucket)
                 perform_bid_calls) s of
             (Inl e, t) \<Rightarrow> (Inl e, t)
           | (Inr _, t) \<Rightarrow>
               bid_loop T P (bucket_update current_bucket ct_amount)
                 (saturating_sub amount_to_bid ct_amount) (wrapping_add_u32 perform_bid_calls 1) t)"
  by pat_completeness auto
termination
proof (relation "measure (\<lambda>(T, P, b, a, calls, s).
    as_u32 (MaxBidsPerUser T) - saturating_add_u32 (bl_existing_bids_amount P) calls)", goal_cases)
  case 1
  then show ?case by simp
next
  case (2 T P b a calls s ct res t bid)
  have "saturating_add_u32 (bl_existing_bids_amount P) calls < as_u32 (MaxBidsPerUser T)"
    using 2 by (auto simp: perform_bid_params_def dest!: do_perform_bid_total_bids [OF sym])
  moreover have "as_u32 (MaxBidsPerUser T) \<le> u32_max"
    by (simp add: as_u32_def u32_max_def)
  ultimately have "saturating_add_u32 (bl_existing_bids_amount P) (wrapping_add_u32 calls 1) =
      Suc (saturating_add_u32 (bl_existing_bids_amount P) calls)"
    by (auto simp: saturating_add_u32_def wrapping_add_u32_def u32_max_def min_def split: if_splits)
  with \<open>saturating_add_u32 _ calls < _\<close> show ?case by simp
qed

declare bid_loop.simps [simp del]

record do_bid_params =
  db_bidder :: account
  db_project_id :: project_id
  db_ct_amount :: nat
  db_multiplier :: nat
  db_funding_asset :: accepted_funding_asset
  db_did :: did
  db_investor_type :: investor_type
  db_whitelisted_policy :: cid

definition bidding_bounds :: "project_metadata \<Rightarrow> investor_type \<Rightarrow> dispatch_error + ticket_size" where
  "bidding_bounds md it =
     (case it of
        Institutional \<Rightarrow> Inr (bts_institutional (md_bidding_ticket_sizes md))
      | Professional \<Rightarrow> Inr (bts_professional (md_bidding_ticket_sizes md))
      | Retail \<Rightarrow> Inl (FErr WrongInvestorType))"

definition bidding_max_multiplier :: "investor_type \<Rightarrow> dispatch_error + nat" where
  "bidding_max_multiplier it =
     (case it of
        Professional \<Rightarrow> Inr PROFESSIONAL_MAX_MULTIPLIER
      | Institutional \<Rightarrow> Inr INSTITUTIONAL_MAX_MULTIPLIER
      | Retail \<Rightarrow> Inl (FErr ImpossibleState))"

definition do_bid ::
    "('l, 'c) funding_config_scheme \<Rightarrow> do_bid_params \<Rightarrow> ('l, 'z, nat \<times> nat) fprog" where
  "do_bid T D = transactional (
     let p = db_project_id D; ct_amount = db_ct_amount D in
     sbind (metadata_of p) (\<lambda>md.
     sbind (details_of p) (\<lambda>project_details.
     sbind (bucket_of p) (\<lambda>current_bucket.
     sbind (gets block_number) (\<lambda>now.
     sbind (gets (\<lambda>s. BidCounts s p)) (\<lambda>total_bids_for_project.
     sbind (ok_or (md_policy_ipfs_cid md) (FErr ImpossibleState)) (\<lambda>project_policy.
     sbind (ok_or (f_checked_mul_int (arith T) (bk_current_price current_bucket) ct_amount) (FErr BadMath))
       (\<lambda>min_total_ticket_size.
     sbind (gets (\<lambda>s. length (prefix2 p (db_bidder D) (Bids s)))) (\<lambda>existing_bids_amount.
     sbind (of_result (bidding_bounds md (db_investor_type D))) (\<lambda>metadata_ticket_size_bounds.
     sbind (of_result (bidding_max_multiplier (db_investor_type D))) (\<lambda>max_multiplier.
     seq (ensure (project_policy = db_whitelisted_policy D) (FErr PolicyMismatch))
     (seq (ensure (db_investor_type D = Institutional \<or> db_investor_type D = Professional)
            (Other ''Retail investors are not allowed to bid''))
     (seq (ensure (ct_amount > 0) (FErr TooLow))
     (seq (ensure (db_did D \<noteq> pd_issuer_did project_details) (FErr ParticipationToOwnProject))
     (seq (ensure (pd_status project_details = AuctionRound) (FErr IncorrectRound))
     (seq (ensure (db_funding_asset D \<in> set (md_participation_currencies md)) (FErr FundingAssetNotAccepted))
     (seq (ensure (usd_ticket_above_minimum_per_participation metadata_ticket_size_bounds
            min_total_ticket_size) (FErr TooLow))
     (seq (ensure (db_multiplier D \<le> max_multiplier \<and> db_multiplier D > 0) (FErr ForbiddenMultiplier))
     (seq (ensure (ct_amount \<le> percent_mul (arith T) (md_auction_round_allocation_percentage md)
            (md_total_allocation_size md)) (FErr TooHigh))
     (seq (ensure (existing_bids_amount < as_u32 (MaxBidsPerUser T)) (FErr TooManyUserParticipations))
     (sbind (bid_loop T
         \<lparr>bl_bidder = db_bidder D, bl_project_id = p, bl_multiplier = db_multiplier D,
          bl_funding_asset = db_funding_asset D, bl_now = now, bl_did = db_did D,
          bl_bounds = metadata_ticket_size_bounds, bl_existing_bids_amount = existing_bids_amount,
          bl_total_bids_for_project = total_bids_for_project\<rparr> current_bucket ct_amount 0)
       (\<lambda>(current_bucket, perform_bid_calls).
      seq (modify (\<lambda>s. s\<lparr>Buckets := (Buckets s)(p \<mapsto> current_bucket)\<rparr>))
      (ok (existing_bids_amount, perform_bid_calls))))))))))))))))))))))))"

section \<open>Contributions\<close>

record do_contribute_params =
  dc_contributor :: account
  dc_project_id :: project_id
  dc_ct_amount :: nat
  dc_multiplier :: nat
  dc_funding_asset :: accepted_funding_asset
  dc_did :: did
  dc_investor_type :: investor_type
  dc_whitelisted_policy :: cid

definition contributing_bounds :: "project_metadata \<Rightarrow> investor_type \<Rightarrow> ticket_size" where
  "contributing_bounds md it =
     (case it of
        Institutional \<Rightarrow> cts_institutional (md_contributing_ticket_sizes md)
      | Professional \<Rightarrow> cts_professional (md_contributing_ticket_sizes md)
      | Retail \<Rightarrow> cts_retail (md_contributing_ticket_sizes md))"

definition contributing_max_multiplier :: "investor_type \<Rightarrow> nat" where
  "contributing_max_multiplier it =
     (case it of
        Retail \<Rightarrow> RETAIL_MAX_MULTIPLIER
      | Professional \<Rightarrow> PROFESSIONAL_MAX_MULTIPLIER
      | Institutional \<Rightarrow> INSTITUTIONAL_MAX_MULTIPLIER)"

definition do_perform_contribution ::
    "('l, 'c) funding_config_scheme \<Rightarrow> do_contribute_params \<Rightarrow> project_details \<Rightarrow> nat \<Rightarrow> ('l, 'z, unit) fprog" where
  "do_perform_contribution T D project_details buyable_tokens = transactional (
     let p = dc_project_id D; d = dc_did D; contributor = dc_contributor D in
     sbind (metadata_of p) (\<lambda>md.
     sbind (gets (\<lambda>s. length (prefix2 p contributor (Contributions s)))) (\<lambda>caller_existing_contributions.
     sbind (gets (\<lambda>s. ContributionBoughtUSD s (p, d))) (\<lambda>total_usd_bought_by_did.
     sbind (gets block_number) (\<lambda>now.
     sbind (ok_or (pd_weighted_average_price project_details) (FErr WapNotSet)) (\<lambda>ct_usd_price.
     sbind (ok_or (md_policy_ipfs_cid md) (FErr ImpossibleState)) (\<lambda>project_policy.
     sbind (ok_or (f_checked_mul_int (arith T) ct_usd_price buyable_tokens) (FErr BadMath)) (\<lambda>ticket_size.
     let contributor_ticket_size = contributing_bounds md (dc_investor_type D);
         max_multiplier = contributing_max_multiplier (dc_investor_type D)
     in
     seq (ensure (project_policy = dc_whitelisted_policy D) (FErr PolicyMismatch))
     (seq (ensure (dc_multiplier D \<le> max_multiplier \<and> dc_multiplier D > 0) (FErr ForbiddenMultiplier))
     (seq (ensure (dc_funding_asset D \<in> set (md_participation_currencies md)) (FErr FundingAssetNotAccepted))
     (seq (ensure (d \<noteq> pd_issuer_did project_details) (FErr ParticipationToOwnProject))
     (seq (ensure (caller_existing_contributions < MaxContributionsPerUser T) (FErr TooManyUserParticipations))
     (seq (ensure (usd_ticket_above_minimum_per_participation contributor_ticket_size ticket_size \<or>
            pd_remaining_contribution_tokens project_details = 0) (FErr TooLow))
     (seq (ensure (usd_ticket_below_maximum_per_did contributor_ticket_size
            (wrapping_add total_usd_bought_by_did ticket_size)) (FErr TooHigh))
     (sbind (calculate_plmc_bond T ticket_size (dc_multiplier D)) (\<lambda>plmc_bond.
      sbind (calculate_funding_asset_amount T ticket_size (dc_funding_asset D)) (\<lambda>funding_asset_amount.
      sbind (gets NextContributionId) (\<lambda>contribution_id.
      let new_contribution =
            \<lparr>co_id = contribution_id, co_did = d, co_project_id = p, co_contributor = contributor,
             co_ct_amount = buyable_tokens, co_usd_contribution_amount = ticket_size,
             co_multiplier = dc_multiplier D, co_funding_asset = dc_funding_asset D,
             co_funding_asset_amount = funding_asset_amount, co_plmc_bond = plmc_bond, co_when = now\<rparr>
      in
      seq (try_plmc_participation_lock T contributor p plmc_bond)
      (seq (try_funding_asset_hold T contributor p funding_asset_amount (asset_id_of (dc_funding_asset D)))
      (seq (insert_contribution T (p, contributor, contribution_id) new_contribution)
      (seq (modify (\<lambda>s. s\<lparr>NextContributionId := saturating_add_u32 contribution_id 1\<rparr>))
      (seq (modify (\<lambda>s. s\<lparr>ContributionBoughtUSD := (ContributionBoughtUSD s)((p, d) :=
              wrapping_add (ContributionBoughtUSD s (p, d)) ticket_size)\<rparr>))
      (seq (insert_details T p (project_details\<lparr>pd_funding_amount_reached_usd :=
              saturating_add (pd_funding_amount_reached_usd project_details)
                (co_usd_contribution_amount new_contribution)\<rparr>))
      (deposit_event (ContributionEvent p contributor contribution_id buyable_tokens
         (dc_funding_asset D) funding_asset_amount plmc_bond (dc_multiplier D))))))))))))))))))))))))))"

definition do_contribute ::
    "('l, 'c) funding_config_scheme \<Rightarrow> do_contribute_params \<Rightarrow> ('l, 'z, unit) fprog" where
  "do_contribute T D = transactional (
     let p = dc_project_id D in
     sbind (details_of p) (\<lambda>project_details.
     sbind (gets (\<lambda>s. DidWithWinningBids s (p, dc_did D))) (\<lambda>did_has_winning_bid.
     sbind (case pd_status project_details of
              CommunityRound remainder_start \<Rightarrow> ok remainder_start
            | _ \<Rightarrow> err (FErr IncorrectRound)) (\<lambda>remainder_start.
     sbind (gets block_number) (\<lambda>now.
     let remainder_started = now \<ge> remainder_start in
     sbind (ok_or (bp_end (pd_round_duration project_details)) (FErr ImpossibleState)) (\<lambda>round_end.
     seq (ensure (\<not> did_has_winning_bid \<or> remainder_started) (FErr UserHasWinningBid))
     (seq (ensure (now < round_end) (FErr TooLateForRound))
     (let buyable_tokens = min (dc_ct_amount D) (pd_remaining_contribution_tokens project_details) in
      if buyable_tokens = 0 then err (FErr ProjectSoldOut) else
      do_perform_contribution T D
        (project_details\<lparr>pd_remaining_contribution_tokens :=
           saturating_sub (pd_remaining_contribution_tokens project_details) buyable_tokens\<rparr>)
        buyable_tokens))))))))"

section \<open>The end of the funding\<close>

definition do_end_funding :: "('l, 'c) funding_config_scheme \<Rightarrow> project_id \<Rightarrow> ('l, 'z, unit) fprog" where
  "do_end_funding T p = transactional (
     sbind (details_of p) (\<lambda>project_details.
     let remaining_cts = pd_remaining_contribution_tokens project_details in
     sbind (gets block_number) (\<lambda>now.
     seq (ensure (remaining_cts = 0 \<or>
            ended (pd_round_duration project_details) now \<and>
            (case pd_status project_details of CommunityRound _ \<Rightarrow> True | _ \<Rightarrow> False))
          (FErr TooEarlyForRound))
     (let funding_ratio = pq_from_rational (arith T) (pd_funding_amount_reached_usd project_details)
            (pd_fundraising_target_usd project_details)
      in
      seq (set_active_project (pd_issuer_did project_details) None)
      (sbind (if funding_ratio < FundingSuccessThreshold T
              then ok (Slashed, FundingFailed)
              else sbind (generate_evaluator_rewards_info T p) (\<lambda>reward_info.
                   ok (Rewarded reward_info, FundingSuccessful)))
        (\<lambda>(outcome, next_status).
       transition_project T p
         (project_details\<lparr>pd_evaluation_round_info :=
            (pd_evaluation_round_info project_details)\<lparr>ri_evaluators_outcome := Some outcome\<rparr>\<rparr>)
         (pd_status project_details) next_status None True))))))"

end
