(* ===== verification/Funding_Settlement.thy ===== *)
theory Funding_Settlement
  imports Funding_Auction
begin

text \<open>
  \<^verbatim>\<open>functions/6_settlement.rs\<close> of the funding pallet: the settlement of evaluations, bids and
  contributions. The functions of the file that are called by the others come first.
\<close>

section \<open>Payments\<close>

definition mint_contribution_tokens ::
    "('l, 'c) funding_config_scheme \<Rightarrow> project_id \<Rightarrow> account \<Rightarrow> nat \<Rightarrow> ('l, 'z, unit) fprog" where
  "mint_contribution_tokens T p participant amount =
     sbind (gets (\<lambda>s. ct_contains T p participant (ext s))) (\<lambda>has_account.
     seq (if \<not> has_account then on_ext (ct_touch T p participant participant) else ok ())
     (sbind (on_ext (ct_mint_into T p participant amount)) (\<lambda>_. ok ())))"

definition release_funding_asset ::
    "('l, 'c) funding_config_scheme \<Rightarrow> project_id \<Rightarrow> account \<Rightarrow> nat \<Rightarrow> accepted_funding_asset \<Rightarrow>
     ('l, 'z, unit) fprog" where
  "release_funding_asset T p participant amount asset =
     (if amount = 0 then ok () else
      let project_pot = fund_account_id T p in
      sbind (on_ext (fc_transfer T (asset_id_of asset) project_pot participant amount Expendable)) (\<lambda>_. ok ()))"

definition release_participation_bond ::
    "('l, 'c) funding_config_scheme \<Rightarrow> account \<Rightarrow> nat \<Rightarrow> ('l, 'z, unit) fprog" where
  "release_participation_bond T participant amount =
     (if amount = 0 then ok () else
      sbind (on_ext (c_release (Currency T) (FundingReason Participation) participant amount Exact))
        (\<lambda>_. ok ()))"

definition slash_evaluator ::
    "('l, 'c) funding_config_scheme \<Rightarrow> evaluation_info \<Rightarrow> ('l, 'z, nat) fprog" where
  "slash_evaluator T evaluation =
     (let slash_percentage = EvaluatorSlash T;
          treasury_account = BlockchainOperationTreasury T;
          slashed_amount = percent_mul (arith T) slash_percentage (ev_original_plmc_bond evaluation)
      in
      sbind (on_ext (c_transfer_on_hold (Currency T) (FundingReason Evaluation) (ev_evaluator evaluation)
               treasury_account slashed_amount Exact)) (\<lambda>_.
      seq (on_ext (on_slash_hook T (ev_evaluator evaluation) slashed_amount))
      (ok (saturating_sub (ev_current_plmc_bond evaluation) slashed_amount))))"

definition calculate_evaluator_reward :: "sp_arithmetic \<Rightarrow> evaluation_info \<Rightarrow> reward_info \<Rightarrow> nat" where
  "calculate_evaluator_reward A evaluation info =
     (let early_reward_weight =
            pq_from_rational A (ev_early_usd_amount evaluation) (rw_early_evaluator_total_bonded_usd info);
          normal_reward_weight =
            pq_from_rational A
              (saturating_add (ev_late_usd_amount evaluation) (ev_early_usd_amount evaluation))
              (rw_normal_evaluator_total_bonded_usd info);
          early_evaluators_rewards = pq_mul A early_reward_weight (rw_early_evaluator_reward_pot info);
          normal_evaluators_rewards = pq_mul A normal_reward_weight (rw_normal_evaluator_reward_pot info)
      in saturating_add early_evaluators_rewards normal_evaluators_rewards)"

definition reward_evaluator ::
    "('l, 'c) funding_config_scheme \<Rightarrow> project_id \<Rightarrow> evaluation_info \<Rightarrow> reward_info \<Rightarrow>
     ('l, 'z, nat \<times> nat) fprog" where
  "reward_evaluator T p evaluation info =
     (let reward = calculate_evaluator_reward (arith T) evaluation info in
      seq (mint_contribution_tokens T p (ev_evaluator evaluation) reward)
      (ok (ev_current_plmc_bond evaluation, reward)))"

definition MaxParticipationsPerUser :: "('l, 'c) funding_config_scheme \<Rightarrow> nat" where
  "MaxParticipationsPerUser T =
     wrapping_add_u32 (wrapping_add_u32 (MaxContributionsPerUser T) (MaxBidsPerUser T)) (MaxEvaluationsPerUser T)"

definition create_migration ::
    "('l, 'c) funding_config_scheme \<Rightarrow> project_id \<Rightarrow> account \<Rightarrow> nat \<Rightarrow> participation_type \<Rightarrow> nat \<Rightarrow> nat \<Rightarrow>
     ('l, 'z, unit) fprog" where
  "create_migration T p orig part_id participation_type ct_amount vesting_time =
     (let location_user =
            \<lparr>loc_parents = 0, loc_interior = [AccountId32 None (AccountId32Conversion T orig)]\<rparr>;
          migration_origin =
            \<lparr>mo_user = location_user, mo_id = part_id, mo_participation_type = participation_type\<rparr>;
          migration_info = \<lparr>mg_contribution_token_amount = ct_amount, mg_vesting_time = vesting_time\<rparr>;
          migration = new_migration migration_origin migration_info
      in
      sbind (gets (\<lambda>s. UserMigrations s (p, orig))) (\<lambda>maybe_migrations.
      case maybe_migrations of
        Some (status, migrations) \<Rightarrow>
          seq (ensure (length migrations < MaxParticipationsPerUser T) (FErr TooManyMigrations))
          (modify (\<lambda>s. s\<lparr>UserMigrations :=
             (UserMigrations s)((p, orig) \<mapsto> (status, migrations @ [migration]))\<rparr>))
      | None \<Rightarrow>
          seq (ensure (0 < MaxParticipationsPerUser T) (FErr TooManyMigrations))
          (seq (modify (\<lambda>s. s\<lparr>UnmigratedCounter :=
                  (UnmigratedCounter s)(p := saturating_add_u32 (UnmigratedCounter s p) 1)\<rparr>))
          (modify (\<lambda>s. s\<lparr>UserMigrations :=
             (UserMigrations s)((p, orig) \<mapsto> (NotStarted, [migration]))\<rparr>)))))"

section \<open>Starting the settlement\<close>

definition do_start_settlement :: "('l, 'c) funding_config_scheme \<Rightarrow> project_id \<Rightarrow> ('l, 'z, unit) fprog" where
  "do_start_settlement T p = transactional (
     sbind (details_of p) (\<lambda>project_details.
     sbind (metadata_of p) (\<lambda>md.
     sbind (gets block_number) (\<lambda>now.
     let token_information = md_token_information md;
         project_details = project_details\<lparr>pd_funding_end_block := Some now\<rparr>;
         escrow_account = fund_account_id T p
     in if pd_status project_details = FundingSuccessful
        then
          seq (on_ext (ct_create T p escrow_account False 1))
          (seq (on_ext (ct_set T p escrow_account (cm_name token_information) (cm_symbol token_information)
                  (cm_decimals token_information)))
          (seq (on_ext (ct_touch T p (ContributionTreasury T) (ContributionTreasury T)))
          (sbind (generate_liquidity_pools_and_long_term_holder_rewards T p)
            (\<lambda>(liquidity_pools_ct_amount, long_term_holder_bonus_ct_amount).
           sbind (on_ext (ct_mint_into T p (ContributionTreasury T) long_term_holder_bonus_ct_amount)) (\<lambda>_.
           sbind (on_ext (ct_mint_into T p (ContributionTreasury T) liquidity_pools_ct_amount)) (\<lambda>_.
           transition_project T p project_details FundingSuccessful (SettlementStarted Success) None False))))))
        else transition_project T p project_details FundingFailed (SettlementStarted Failure) None False))))"

section \<open>Settling participations\<close>

definition do_settle_evaluation ::
    "('l, 'c) funding_config_scheme \<Rightarrow> evaluation_info \<Rightarrow> project_id \<Rightarrow> ('l, 'z, unit) fprog" where
  "do_settle_evaluation T evaluation p =
     sbind (details_of p) (\<lambda>project_details.
     seq (ensure (case pd_status project_details of SettlementStarted _ \<Rightarrow> True | _ \<Rightarrow> False)
            (FErr SettlementNotStarted))
     (sbind (case ri_evaluators_outcome (pd_evaluation_round_info project_details) of
               Some Slashed \<Rightarrow> sbind (slash_evaluator T evaluation) (\<lambda>released. ok (released, 0))
             | Some (Rewarded info) \<Rightarrow> reward_evaluator T p evaluation info
             | None \<Rightarrow> ok (ev_current_plmc_bond evaluation, 0)) (\<lambda>(plmc_released, ct_rewarded).
      sbind (on_ext (c_release (Currency T) (FundingReason Evaluation) (ev_evaluator evaluation)
               plmc_released Exact)) (\<lambda>_.
      seq (if ct_rewarded > 0
           then sbind (map_err (\<lambda>_. FErr BadMath) (of_result (multiplier_try_from 1))) (\<lambda>multiplier.
                let duration = calculate_vesting_duration (arith T) (DAYS T) multiplier in
                create_migration T p (ev_evaluator evaluation) (ev_id evaluation) PTEvaluation ct_rewarded
                  duration)
           else ok ())
      (seq (modify (\<lambda>s. s\<lparr>Evaluations :=
              nmap_remove (p, ev_evaluator evaluation, ev_id evaluation) (Evaluations s)\<rparr>))
      (deposit_event (EvaluationSettled p (ev_evaluator evaluation) (ev_id evaluation) ct_rewarded
         plmc_released)))))))"

definition calculate_refund ::
    "('l, 'c) funding_config_scheme \<Rightarrow> bid_info \<Rightarrow> bool \<Rightarrow> fixed \<Rightarrow> ('l, 'z, bid_refund) fprog" where
  "calculate_refund T bid funding_success wap =
     (let final_ct_usd_price = final_price wap bid in
      if bid_bstatus bid = Rejected \<or> \<not> funding_success
      then ok \<lparr>rf_final_ct_usd_price = final_ct_usd_price, rf_final_ct_amount = 0,
               rf_refunded_plmc = bid_plmc_bond bid,
               rf_refunded_funding_asset_amount = bid_funding_asset_amount_locked bid\<rparr>
      else
        let final_ct_amount = bid_final_ct_amount bid in
        sbind (ok_or (f_checked_mul_int (arith T) final_ct_usd_price final_ct_amount) (FErr BadMath))
          (\<lambda>new_ticket_size.
        sbind (calculate_plmc_bond T new_ticket_size (bid_multiplier bid)) (\<lambda>new_plmc_bond.
        sbind (calculate_funding_asset_amount T new_ticket_size (bid_funding_asset bid))
          (\<lambda>new_funding_asset_amount.
        ok \<lparr>rf_final_ct_usd_price = final_ct_usd_price, rf_final_ct_amount = final_ct_amount,
            rf_refunded_plmc = saturating_sub (bid_plmc_bond bid) new_plmc_bond,
            rf_refunded_funding_asset_amount =
              saturating_sub (bid_funding_asset_amount_locked bid) new_funding_asset_amount\<rparr>))))"

text \<open>The vesting of a participation bond after a successful funding, shared by bids and contributions.\<close>

definition vest_or_release ::
    "('l, 'c) funding_config_scheme \<Rightarrow> account \<Rightarrow> plmc_vesting_info \<Rightarrow> nat \<Rightarrow> ('l, 'z, unit) fprog" where
  "vest_or_release T participant vesting_info funding_end_block =
     (if pv_duration vesting_info = 1
      then release_participation_bond T participant (pv_total_amount vesting_info)
      else add_release_schedule T participant (pv_total_amount vesting_info)
             (pv_amount_per_block vesting_info) funding_end_block (FundingReason Participation))"

definition do_settle_bid ::
    "('l, 'c) funding_config_scheme \<Rightarrow> bid_info \<Rightarrow> project_id \<Rightarrow> ('l, 'z, unit) fprog" where
  "do_settle_bid T bid p =
     sbind (details_of p) (\<lambda>project_details.
     sbind (metadata_of p) (\<lambda>md.
     let funding_success = (pd_status project_details = SettlementStarted Success) in
     sbind (ok_or (pd_weighted_average_price project_details) (FErr ImpossibleState)) (\<lambda>wap.
     seq (ensure ((case pd_status project_details of SettlementStarted _ \<Rightarrow> True | _ \<Rightarrow> False) \<or>
            bid_bstatus bid = Rejected) (FErr SettlementNotStarted))
     (sbind (calculate_refund T bid funding_success wap) (\<lambda>refund.
      seq (release_participation_bond T (bid_bidder bid) (rf_refunded_plmc refund))
      (seq (release_funding_asset T p (bid_bidder bid) (rf_refunded_funding_asset_amount refund)
              (bid_funding_asset bid))
      (seq (if funding_success \<and> bid_bstatus bid \<noteq> Rejected
            then
              sbind (ok_or (pd_funding_end_block project_details) (FErr ImpossibleState)) (\<lambda>funding_end_block.
              sbind (map_err (\<lambda>_. FErr BadMath) (of_result
                  (calculate_vesting_info T (bid_bidder bid) (bid_multiplier bid)
                     (saturating_sub (bid_plmc_bond bid) (rf_refunded_plmc refund))))) (\<lambda>vesting_info.
              seq (vest_or_release T (bid_bidder bid) vesting_info funding_end_block)
              (seq (mint_contribution_tokens T p (bid_bidder bid) (rf_final_ct_amount refund))
              (seq (create_migration T p (bid_bidder bid) (bid_id bid) PTBid (rf_final_ct_amount refund)
                      (pv_duration vesting_info))
              (release_funding_asset T p (md_funding_destination_account md)
                 (saturating_sub (bid_funding_asset_amount_locked bid)
                   (rf_refunded_funding_asset_amount refund)) (bid_funding_asset bid))))))
            else ok ())
      (seq (modify (\<lambda>s. s\<lparr>Bids := nmap_remove (p, bid_bidder bid, bid_id bid) (Bids s)\<rparr>))
      (deposit_event (BidSettled p (bid_bidder bid) (bid_id bid) (rf_final_ct_amount refund)
         (rf_final_ct_usd_price refund)))))))))))"

definition do_settle_contribution ::
    "('l, 'c) funding_config_scheme \<Rightarrow> contribution_info \<Rightarrow> project_id \<Rightarrow> ('l, 'z, unit) fprog" where
  "do_settle_contribution T contribution p =
     sbind (metadata_of p) (\<lambda>md.
     sbind (details_of p) (\<lambda>project_details.
     sbind (case pd_status project_details of
              SettlementStarted outcome \<Rightarrow> ok outcome
            | _ \<Rightarrow> err (FErr SettlementNotStarted)) (\<lambda>outcome.
     sbind (ok_or (pd_funding_end_block project_details) (FErr ImpossibleState)) (\<lambda>funding_end_block.
     sbind (if outcome = Failure
            then
              seq (release_participation_bond T (co_contributor contribution) (co_plmc_bond contribution))
              (seq (release_funding_asset T p (co_contributor contribution)
                      (co_funding_asset_amount contribution) (co_funding_asset contribution))
              (ok 0))
            else
              sbind (map_err (\<lambda>_. FErr BadMath) (of_result
                  (calculate_vesting_info T (co_contributor contribution) (co_multiplier contribution)
                     (co_plmc_bond contribution)))) (\<lambda>vesting_info.
              seq (vest_or_release T (co_contributor contribution) vesting_info funding_end_block)
              (seq (mint_contribution_tokens T p (co_contributor contribution) (co_ct_amount contribution))
              (seq (release_funding_asset T p (md_funding_destination_account md)
                      (co_funding_asset_amount contribution) (co_funding_asset contribution))
              (seq (create_migration T p (co_contributor contribution) (co_id contribution) PTContribution
                      (co_ct_amount contribution) (pv_duration vesting_info))
              (ok (co_ct_amount contribution))))))) (\<lambda>final_ct_amount.
     seq (modify (\<lambda>s. s\<lparr>Contributions :=
            nmap_remove (p, co_contributor contribution, co_id contribution) (Contributions s)\<rparr>))
     (deposit_event (ContributionSettled p (co_contributor contribution) (co_id contribution)
        final_ct_amount)))))))"

definition do_mark_project_as_settled ::
    "('l, 'c) funding_config_scheme \<Rightarrow> project_id \<Rightarrow> ('l, 'z, unit) fprog" where
  "do_mark_project_as_settled T p =
     sbind (details_of p) (\<lambda>project_details.
     sbind (case pd_status project_details of
              SettlementStarted outcome \<Rightarrow> ok outcome
            | _ \<Rightarrow> err (FErr IncorrectRound)) (\<lambda>outcome.
     sbind (gets (\<lambda>s. prefix1 p (Evaluations s) = [] \<and> prefix1 p (Bids s) = [] \<and>
              prefix1 p (Contributions s) = [])) (\<lambda>nothing_remaining.
     seq (ensure nothing_remaining (FErr SettlementNotComplete))
     (transition_project T p project_details (SettlementStarted outcome) (SettlementFinished outcome)
        None False))))"

end
