(* ===== verification/Funding_Migration.thy ===== *)
theory Funding_Migration
  imports Funding_Settlement
begin

text \<open>
  \<^verbatim>\<open>functions/7_ct_migration.rs\<close> of the funding pallet: the migration of contribution tokens to the
  project's own chain, off-chain or through the receiver pallet of that chain.
\<close>

section \<open>Off-chain migration\<close>

definition do_start_offchain_migration ::
    "('l, 'c) funding_config_scheme \<Rightarrow> project_id \<Rightarrow> account \<Rightarrow> ('l, 'z, unit) fprog" where
  "do_start_offchain_migration T p caller = transactional (
     sbind (details_of p) (\<lambda>project_details.
     seq (ensure (pd_issuer_account project_details = caller) (FErr NotIssuer))
     (transition_project T p (project_details\<lparr>pd_migration_type := Some Offchain\<rparr>)
        (SettlementFinished Success) CTMigrationStarted None False)))"

definition do_confirm_offchain_migration ::
    "('l, 'c) funding_config_scheme \<Rightarrow> project_id \<Rightarrow> account \<Rightarrow> account \<Rightarrow> ('l, 'z, unit) fprog" where
  "do_confirm_offchain_migration T p caller participant = transactional (
     sbind (details_of p) (\<lambda>project_details.
     seq (ensure (pd_status project_details = CTMigrationStarted) (FErr IncorrectRound))
     (seq (ensure (pd_issuer_account project_details = caller) (FErr NotIssuer))
     (change_migration_status T p participant Confirmed))))"

section \<open>Migration through the receiver pallet\<close>

definition do_start_pallet_migration ::
    "('l, 'c) funding_config_scheme \<Rightarrow> account \<Rightarrow> project_id \<Rightarrow> nat \<Rightarrow> ('l, 'z, unit) fprog" where
  "do_start_pallet_migration T caller p para_id = transactional (
     sbind (details_of p) (\<lambda>project_details.
     seq (ensure (pd_issuer_account project_details = caller) (FErr NotIssuer))
     (seq (case pd_status project_details of
             SettlementFinished Success \<Rightarrow> ok ()
           | FundingSuccessful \<Rightarrow> err (FErr SettlementNotComplete)
           | SettlementStarted Success \<Rightarrow> err (FErr SettlementNotComplete)
           | _ \<Rightarrow> err (FErr IncorrectRound))
     (let parachain_receiver_pallet_info =
            \<lparr>mi_parachain_id = para_id,
             mi_hrmp_channel_status = \<lparr>hc_project_to_polimec = Closed, hc_polimec_to_project = Closed\<rparr>,
             mi_migration_readiness_check = None\<rparr>
      in transition_project T p
           (project_details\<lparr>pd_migration_type := Some (PalletMigration parachain_receiver_pallet_info)\<rparr>)
           (SettlementFinished Success) CTMigrationStarted None False))))"

text \<open>The project that migrates to a parachain, as the HRMP handlers look it up.\<close>

definition migrating_to :: "nat \<Rightarrow> project_id \<times> project_details \<Rightarrow> bool" where
  "migrating_to para e =
     (case pd_migration_type (snd e) of
        Some (PalletMigration info) \<Rightarrow>
          mi_parachain_id info = para \<and> pd_status (snd e) = CTMigrationStarted
      | _ \<Rightarrow> False)"

definition in_range :: "nat \<times> nat \<Rightarrow> nat \<Rightarrow> bool" where
  "in_range r n \<longleftrightarrow> fst r \<le> n \<and> n \<le> snd r"

definition channel_accept_message ::
    "('l, 'c) funding_config_scheme \<Rightarrow> nat \<Rightarrow> xcm_instruction list" where
  "channel_accept_message T sender =
     (let here = \<lparr>loc_parents = 0, loc_interior = []\<rparr>;
          accept_channel_relay_call = [60, 1] @ encode_u32 T sender;
          request_channel_relay_call =
            [60, 0] @ encode_u32 T sender @ encode_u32 T (RequiredMaxCapacity T) @
              encode_u32 T (RequiredMaxMessageSize T)
      in [WithdrawAsset here 10000000000, BuyExecution here 10000000000,
          Transact accept_channel_relay_call, Transact request_channel_relay_call, RefundSurplus,
          DepositAsset \<lparr>loc_parents = 0, loc_interior = [Parachain 3344]\<rparr>])"

definition do_handle_channel_open_request ::
    "('l, 'c) funding_config_scheme \<Rightarrow> nat \<Rightarrow> nat \<Rightarrow> nat \<Rightarrow>
     (('l, 'z) funding_state_scheme, xcm_error, unit) prog" where
  "do_handle_channel_open_request T sender max_message_size max_capacity =
     sbind (gets (\<lambda>s. List.find (migrating_to sender) (ProjectsDetails s))) (\<lambda>found.
     sbind (ok_or found XcmBadOrigin) (\<lambda>(p, project_details).
     seq (ensure (in_range (MaxMessageSizeThresholds T) max_message_size \<and>
            in_range (MaxCapacityThresholds T) max_capacity) ExceedsMaxMessageSize)
     (sbind (gets (\<lambda>s. xcm_validate T \<lparr>loc_parents = 1, loc_interior = []\<rparr>
               (channel_accept_message T sender) (ext s))) (\<lambda>ticket.
      sbind (ok_or ticket SendFailed) (\<lambda>ticket.
      sbind (\<lambda>s. case xcm_deliver T ticket (ext s) of (delivered, l) \<Rightarrow> (Inr delivered, s\<lparr>ext := l\<rparr>))
        (\<lambda>delivered.
      if \<not> delivered then err Unimplemented else
      (case pd_migration_type project_details of
         Some (PalletMigration info) \<Rightarrow>
           seq (modify (\<lambda>s. s\<lparr>ProjectsDetails := nmap_insert (hash_project T) p
                  (project_details\<lparr>pd_migration_type := Some (PalletMigration
                     (info\<lparr>mi_hrmp_channel_status :=
                        \<lparr>hc_project_to_polimec = Open, hc_polimec_to_project = AwaitingAcceptance\<rparr>\<rparr>))\<rparr>)
                  (ProjectsDetails s)\<rparr>))
           (modify (\<lambda>s. s\<lparr>events := events s @ [HrmpChannelAccepted p sender]\<rparr>))
       | _ \<Rightarrow> err (Transport ''Migration type not set''))))))))"

definition readiness_query ::
    "nat \<Rightarrow> xcm_instruction list" where
  "readiness_query total_cts_minted =
     [UnpaidExecution, WithdrawAsset \<lparr>loc_parents = 0, loc_interior = []\<rparr> total_cts_minted,
      ReportHolding polimec_location 0, QueryPallet ''polimec_receiver'' polimec_location 1,
      DepositAsset polimec_location]"

definition notify_query ::
    "('l, 'c) funding_config_scheme \<Rightarrow> location \<Rightarrow> nat \<Rightarrow> ('l, 'z, nat) fprog" where
  "notify_query T loc timeout s =
     (case new_notify_query T loc timeout (ext s) of (query_id, l) \<Rightarrow> (Inr query_id, s\<lparr>ext := l\<rparr>))"

definition do_start_pallet_migration_readiness_check ::
    "('l, 'c) funding_config_scheme \<Rightarrow> account \<Rightarrow> project_id \<Rightarrow> ('l, 'z, unit) fprog" where
  "do_start_pallet_migration_readiness_check T caller p = transactional (
     sbind (details_of p) (\<lambda>project_details.
     sbind (case pd_migration_type project_details of
              Some (PalletMigration info) \<Rightarrow> ok info | _ \<Rightarrow> err (FErr NotAllowed)) (\<lambda>migration_info.
     sbind (gets block_number) (\<lambda>now.
     let project_location = \<lparr>loc_parents = 1, loc_interior = [Parachain (mi_parachain_id migration_info)]\<rparr> in
     seq (ensure (pd_status project_details = CTMigrationStarted) (FErr IncorrectRound))
     (seq (ensure (mi_hrmp_channel_status migration_info =
            \<lparr>hc_project_to_polimec = Open, hc_polimec_to_project = Open\<rparr>) (FErr ChannelNotOpen))
     (seq (case mi_migration_readiness_check migration_info of
             None \<Rightarrow> ensure (caller = pallet_account T) (FErr NotAllowed)
           | Some check \<Rightarrow>
               if snd (rc_holding_check check) = CheckFailed \<and> snd (rc_pallet_check check) = CheckFailed
               then ensure (caller = pd_issuer_account project_details) (FErr NotIssuer)
               else ok ())
     (sbind (notify_query T project_location (wrapping_add_u32 now 20)) (\<lambda>query_id_holdings.
      sbind (notify_query T project_location (wrapping_add_u32 now 20)) (\<lambda>query_id_pallet.
      let check = \<lparr>rc_holding_check = (query_id_holdings, AwaitingResponse),
                   rc_pallet_check = (query_id_pallet, AwaitingResponse)\<rparr>
      in
      seq (insert_details T p (project_details\<lparr>pd_migration_type := Some (PalletMigration
             (migration_info\<lparr>mi_migration_readiness_check := Some check\<rparr>))\<rparr>))
      (sbind (gets (\<lambda>s. ct_total_issuance T p (ext s))) (\<lambda>total_cts_minted.
       seq (map_err (\<lambda>_. FErr XcmFailed) (on_ext (send_xcm T project_location (readiness_query total_cts_minted))))
       (deposit_event (MigrationReadinessCheckStarted p caller)))))))))))))"

definition do_handle_channel_accepted ::
    "('l, 'c) funding_config_scheme \<Rightarrow> nat \<Rightarrow> (('l, 'z) funding_state_scheme, xcm_error, unit) prog" where
  "do_handle_channel_accepted T recipient =
     sbind (gets (\<lambda>s. List.find (migrating_to recipient) (ProjectsDetails s))) (\<lambda>found.
     sbind (ok_or found XcmBadOrigin) (\<lambda>(p, project_details).
     (case pd_migration_type project_details of
        Some (PalletMigration info) \<Rightarrow>
          seq (modify (\<lambda>s. s\<lparr>ProjectsDetails := nmap_insert (hash_project T) p
                 (project_details\<lparr>pd_migration_type := Some (PalletMigration
                    (info\<lparr>mi_hrmp_channel_status :=
                       (mi_hrmp_channel_status info)\<lparr>hc_polimec_to_project := Open\<rparr>\<rparr>))\<rparr>)
                 (ProjectsDetails s)\<rparr>))
          (seq (modify (\<lambda>s. s\<lparr>events := events s @ [HrmpChannelEstablished p recipient]\<rparr>))
          (map_err (\<lambda>_. Transport ''Unexpected automatic flow'')
             (do_start_pallet_migration_readiness_check T (pallet_account T) p)))
      | _ \<Rightarrow> err (Transport ''Unexpected automatic flow''))))"

definition get_parachain_id :: "location \<Rightarrow> nat option" where
  "get_parachain_id loc =
     (if loc_parents loc = 1
      then (case loc_interior loc of [Parachain n] \<Rightarrow> Some n | _ \<Rightarrow> None)
      else None)"

definition awaiting_query :: "nat \<Rightarrow> project_id \<times> project_details \<Rightarrow> bool" where
  "awaiting_query query_id e =
     (case pd_migration_type (snd e) of
        Some (PalletMigration info) \<Rightarrow>
          (case mi_migration_readiness_check info of
             Some check \<Rightarrow> fst (rc_holding_check check) = query_id \<or> fst (rc_pallet_check check) = query_id
           | None \<Rightarrow> False)
      | _ \<Rightarrow> False)"

text \<open>
  The two accepted answers. \<open>assets[0]\<close> of an empty answer panics; the guard of the match arm looks
  at the asset's location only when the amount is large enough.
\<close>

definition holding_response ::
    "nat \<Rightarrow> nat \<Rightarrow> xcm_asset list \<Rightarrow> dispatch_error + bool" where
  "holding_response ct_sold para_id assets =
     (case assets of
        [] \<Rightarrow> Inl Panic
      | asset_1 # _ \<Rightarrow>
          (case as_fungible asset_1 of
             Some amount \<Rightarrow>
               if amount \<ge> ct_sold
               then result_bind (result_ok_or (get_parachain_id (as_location asset_1)) (FErr WrongParaId))
                      (\<lambda>asset_para. Inr (asset_para = para_id))
               else Inr False
           | None \<Rightarrow> Inr False))"

definition pallet_response :: "xcm_pallet_info list \<Rightarrow> dispatch_error + (nat \<times> bool)" where
  "pallet_response pallets_info =
     (case pallets_info of
        [] \<Rightarrow> Inl (FErr NotAllowed)
      | info # _ \<Rightarrow>
          if 255 < pi_index info then Inl (FErr NotAllowed)
          else Inr (pi_index info, length pallets_info = 1 \<and> pi_module_name info = ''polimec_receiver''))"

definition do_pallet_migration_readiness_response ::
    "('l, 'c) funding_config_scheme \<Rightarrow> location \<Rightarrow> nat \<Rightarrow> xcm_response \<Rightarrow> ('l, 'z, unit) fprog" where
  "do_pallet_migration_readiness_response T loc query_id response = transactional (
     sbind (gets (\<lambda>s. List.find (awaiting_query query_id) (ProjectsDetails s))) (\<lambda>found.
     sbind (ok_or found (FErr ProjectDetailsNotFound)) (\<lambda>(p, project_details).
     sbind (case pd_migration_type project_details of
              Some (PalletMigration info) \<Rightarrow> ok info | _ \<Rightarrow> err (FErr ProjectDetailsNotFound)) (\<lambda>migration_info.
     sbind (ok_or (get_parachain_id loc) (FErr WrongParaId)) (\<lambda>para_id.
     seq (ensure (mi_parachain_id migration_info = para_id) (FErr WrongParaId))
     (sbind (metadata_of p) (\<lambda>md.
      let contribution_tokens_sold =
            saturating_sub (md_total_allocation_size md) (pd_remaining_contribution_tokens project_details);
          store = (\<lambda>check. insert_details T p (project_details\<lparr>pd_migration_type := Some (PalletMigration
            (migration_info\<lparr>mi_migration_readiness_check := Some check\<rparr>))\<rparr>))
      in case (response, mi_migration_readiness_check migration_info) of
           (ResponseAssets assets, Some check) \<Rightarrow>
             if snd (rc_holding_check check) = AwaitingResponse
             then sbind (of_result (holding_response contribution_tokens_sold para_id assets)) (\<lambda>accepted.
                  if accepted
                  then seq (deposit_event (MigrationCheckResponseAccepted p query_id response))
                         (store (check\<lparr>rc_holding_check := (fst (rc_holding_check check), Passed None)\<rparr>))
                  else seq (deposit_event (MigrationCheckResponseRejected p query_id response))
                         (store (check\<lparr>rc_holding_check := (fst (rc_holding_check check), CheckFailed)\<rparr>)))
             else err (FErr NotAllowed)
         | (ResponsePalletsInfo pallets_info, Some check) \<Rightarrow>
             if snd (rc_pallet_check check) = AwaitingResponse
             then sbind (of_result (pallet_response pallets_info)) (\<lambda>(u8_index, accepted).
                  if accepted
                  then seq (deposit_event (MigrationCheckResponseAccepted p query_id response))
                         (store (check\<lparr>rc_pallet_check := (fst (rc_pallet_check check), Passed (Some u8_index))\<rparr>))
                  else seq (deposit_event (MigrationCheckResponseRejected p query_id response))
                         (store (check\<lparr>rc_pallet_check := (fst (rc_pallet_check check), CheckFailed)\<rparr>)))
             else err (FErr NotAllowed)
         | _ \<Rightarrow> err (FErr NotAllowed))))))))"

definition do_send_pallet_migration_for ::
    "('l, 'c) funding_config_scheme \<Rightarrow> project_id \<Rightarrow> account \<Rightarrow> ('l, 'z, unit) fprog" where
  "do_send_pallet_migration_for T p participant = transactional (
     sbind (details_of p) (\<lambda>project_details.
     sbind (case pd_migration_type project_details of
              Some (PalletMigration info) \<Rightarrow> ok info | _ \<Rightarrow> err (FErr NotAllowed)) (\<lambda>migration_info.
     sbind (ok_or (mi_migration_readiness_check migration_info) (FErr ChannelNotReady))
       (\<lambda>migration_readiness_check.
     sbind (gets block_number) (\<lambda>now.
     sbind (gets (user_has_no_participations p participant)) (\<lambda>settled.
     seq (ensure settled (FErr ParticipationsNotSettled))
     (sbind (gets (\<lambda>s. UserMigrations s (p, participant))) (\<lambda>found.
      sbind (ok_or found (FErr NoMigrationsFound)) (\<lambda>(_, migrations).
      seq (ensure (is_ready migration_readiness_check) (FErr ChannelNotReady))
      (let project_location =
             \<lparr>loc_parents = 1, loc_interior = [Parachain (mi_parachain_id migration_info)]\<rparr>
       in
       sbind (notify_query T project_location (wrapping_add_u32 now 20)) (\<lambda>query_id.
       sbind (case snd (rc_pallet_check migration_readiness_check) of
                Passed (Some pallet_index) \<Rightarrow> ok pallet_index
              | _ \<Rightarrow> err (FErr NotAllowed)) (\<lambda>pallet_index.
       seq (change_migration_status T p participant (Sent query_id))
       (seq (map_err (\<lambda>_. FErr XcmFailed) (on_ext (send_xcm T project_location
               (construct_migration_xcm_message T migrations query_id pallet_index))))
       (seq (modify (\<lambda>s. s\<lparr>ActiveMigrationQueue :=
               (ActiveMigrationQueue s)(query_id \<mapsto> (p, participant))\<rparr>))
       (deposit_event (MigrationStatusUpdated p participant (Sent query_id)))))))))))))))))"

definition do_confirm_pallet_migrations ::
    "('l, 'c) funding_config_scheme \<Rightarrow> location \<Rightarrow> nat \<Rightarrow> xcm_response \<Rightarrow> ('l, 'z, unit) fprog" where
  "do_confirm_pallet_migrations T loc query_id response = transactional (
     sbind (gets (\<lambda>s. ActiveMigrationQueue s query_id)) (\<lambda>found.
     seq (modify (\<lambda>s. s\<lparr>ActiveMigrationQueue := (ActiveMigrationQueue s)(query_id := None)\<rparr>))
     (sbind (ok_or found (FErr NoActiveMigrationsFound)) (\<lambda>(p, participant).
      sbind (details_of p) (\<lambda>project_details.
      sbind (case pd_migration_type project_details of
               Some (PalletMigration info) \<Rightarrow> ok info | _ \<Rightarrow> err (FErr NotAllowed)) (\<lambda>migration_info.
      seq (ensure (get_parachain_id loc = Some (mi_parachain_id migration_info)) (FErr WrongParaId))
      (sbind (case response of
                ResponseDispatchSuccess \<Rightarrow>
                  seq (change_migration_status T p participant Confirmed) (ok Confirmed)
              | ResponseDispatchError \<Rightarrow>
                  seq (change_migration_status T p participant MigrationFailed) (ok MigrationFailed)
              | _ \<Rightarrow> err (FErr NotAllowed)) (\<lambda>status.
       deposit_event (MigrationStatusUpdated p participant status)))))))))"

definition do_mark_project_ct_migration_as_finished ::
    "('l, 'c) funding_config_scheme \<Rightarrow> project_id \<Rightarrow> ('l, 'z, unit) fprog" where
  "do_mark_project_ct_migration_as_finished T p = transactional (
     sbind (details_of p) (\<lambda>project_details.
     seq (ensure (pd_status project_details = CTMigrationStarted) (FErr IncorrectRound))
     (sbind (gets (\<lambda>s. UnmigratedCounter s p)) (\<lambda>unmigrated_participants.
      seq (ensure (unmigrated_participants = 0) (FErr MigrationsStillPending))
      (seq (insert_details T p (project_details\<lparr>pd_status := CTMigrationFinished\<rparr>))
      (deposit_event (CTMigrationFinishedEvent p)))))))"

end
