(* ===== verification/Funding_Calls.thy ===== *)
theory Funding_Calls
  imports Funding_Migration
begin

text \<open>
  The extrinsics of the funding pallet (\<^verbatim>\<open>lib.rs\<close>). FRAME dispatches an extrinsic in a storage
  transaction, so every one of them is \<open>transactional\<close>. The origin of an answer of another chain
  (\<^verbatim>\<open>ensure_response\<close>) is the location it came from, \<open>None\<close> for any other origin.
\<close>

definition ensure_investor ::
    "('l, 'c) funding_config_scheme \<Rightarrow> origin \<Rightarrow> jwt \<Rightarrow> ('l, 'z, account \<times> did \<times> investor_type \<times> cid) fprog" where
  "ensure_investor T orig token =
     sbind (gets (\<lambda>s. timestamp_now T (ext s))) (\<lambda>now.
     of_result (ensure_origin (verify_token T) now orig token (VerifierPublicKey T)))"

definition ensure_institutional ::
    "('l, 'c) funding_config_scheme \<Rightarrow> origin \<Rightarrow> jwt \<Rightarrow> ('l, 'z, account \<times> did) fprog" where
  "ensure_institutional T orig token =
     sbind (ensure_investor T orig token) (\<lambda>(who, d, it, c).
     seq (ensure (it = Institutional) (FErr WrongInvestorType)) (ok (who, d)))"

definition ensure_response :: "location option \<Rightarrow> ('l, 'z, location) fprog" where
  "ensure_response orig = ok_or orig BadOrigin"

definition create_project ::
    "('l, 'c) funding_config_scheme \<Rightarrow> origin \<Rightarrow> jwt \<Rightarrow> project_metadata \<Rightarrow> ('l, 'z, unit) fprog" where
  "create_project T orig token project = transactional (
     sbind (ensure_institutional T orig token) (\<lambda>(who, d). do_create_project T who project d))"

definition remove_project ::
    "('l, 'c) funding_config_scheme \<Rightarrow> origin \<Rightarrow> jwt \<Rightarrow> project_id \<Rightarrow> ('l, 'z, unit) fprog" where
  "remove_project T orig token p = transactional (
     sbind (ensure_institutional T orig token) (\<lambda>(who, d). do_remove_project T who p d))"

definition edit_project ::
    "('l, 'c) funding_config_scheme \<Rightarrow> origin \<Rightarrow> jwt \<Rightarrow> project_id \<Rightarrow> project_metadata \<Rightarrow> ('l, 'z, unit) fprog" where
  "edit_project T orig token p new_md = transactional (
     sbind (ensure_institutional T orig token) (\<lambda>(who, _). do_edit_project T who p new_md))"

definition start_evaluation ::
    "('l, 'c) funding_config_scheme \<Rightarrow> origin \<Rightarrow> jwt \<Rightarrow> project_id \<Rightarrow> ('l, 'z, unit) fprog" where
  "start_evaluation T orig token p = transactional (
     sbind (ensure_institutional T orig token) (\<lambda>(who, _). do_start_evaluation T who p))"

definition evaluate ::
    "('l, 'c) funding_config_scheme \<Rightarrow> origin \<Rightarrow> jwt \<Rightarrow> project_id \<Rightarrow> nat \<Rightarrow> ('l, 'z, unit) fprog" where
  "evaluate T orig token p usd_amount = transactional (
     sbind (ensure_investor T orig token) (\<lambda>(who, d, _, whitelisted_policy).
     do_evaluate T who p usd_amount d whitelisted_policy))"

definition end_evaluation ::
    "('l, 'c) funding_config_scheme \<Rightarrow> origin \<Rightarrow> project_id \<Rightarrow> ('l, 'z, unit) fprog" where
  "end_evaluation T orig p = transactional (
     sbind (ensure_signed orig) (\<lambda>_. do_end_evaluation T p))"

definition bid ::
    "('l, 'c) funding_config_scheme \<Rightarrow> origin \<Rightarrow> jwt \<Rightarrow> project_id \<Rightarrow> nat \<Rightarrow> nat \<Rightarrow> accepted_funding_asset \<Rightarrow>
     ('l, 'z, nat \<times> nat) fprog" where
  "bid T orig token p ct_amount multiplier funding_asset = transactional (
     sbind (ensure_investor T orig token) (\<lambda>(bidder, d, investor_type, whitelisted_policy).
     do_bid T \<lparr>db_bidder = bidder, db_project_id = p, db_ct_amount = ct_amount,
       db_multiplier = multiplier, db_funding_asset = funding_asset, db_did = d,
       db_investor_type = investor_type, db_whitelisted_policy = whitelisted_policy\<rparr>))"

definition end_auction ::
    "('l, 'c) funding_config_scheme \<Rightarrow> origin \<Rightarrow> project_id \<Rightarrow> ('l, 'z, nat \<times> nat) fprog" where
  "end_auction T orig p = transactional (
     sbind (ensure_signed orig) (\<lambda>_. do_end_auction T p))"

definition contribute ::
    "('l, 'c) funding_config_scheme \<Rightarrow> origin \<Rightarrow> jwt \<Rightarrow> project_id \<Rightarrow> nat \<Rightarrow> nat \<Rightarrow> accepted_funding_asset \<Rightarrow>
     ('l, 'z, unit) fprog" where
  "contribute T orig token p ct_amount multiplier funding_asset = transactional (
     sbind (ensure_investor T orig token) (\<lambda>(contributor, d, investor_type, whitelisted_policy).
     do_contribute T \<lparr>dc_contributor = contributor, dc_project_id = p, dc_ct_amount = ct_amount,
       dc_multiplier = multiplier, dc_funding_asset = funding_asset, dc_did = d,
       dc_investor_type = investor_type, dc_whitelisted_policy = whitelisted_policy\<rparr>))"

definition end_funding ::
    "('l, 'c) funding_config_scheme \<Rightarrow> origin \<Rightarrow> project_id \<Rightarrow> ('l, 'z, unit) fprog" where
  "end_funding T orig p = transactional (
     sbind (ensure_signed orig) (\<lambda>_. do_end_funding T p))"

definition start_settlement ::
    "('l, 'c) funding_config_scheme \<Rightarrow> origin \<Rightarrow> project_id \<Rightarrow> ('l, 'z, unit) fprog" where
  "start_settlement T orig p = transactional (
     sbind (ensure_signed orig) (\<lambda>_. do_start_settlement T p))"

definition settle_evaluation ::
    "('l, 'c) funding_config_scheme \<Rightarrow> origin \<Rightarrow> project_id \<Rightarrow> account \<Rightarrow> nat \<Rightarrow> ('l, 'z, unit) fprog" where
  "settle_evaluation T orig p evaluator evaluation_id = transactional (
     sbind (ensure_signed orig) (\<lambda>_.
     sbind (gets (\<lambda>s. nmap_get (Evaluations s) (p, evaluator, evaluation_id))) (\<lambda>found.
     sbind (ok_or found (FErr ParticipationNotFound)) (\<lambda>evaluation.
     do_settle_evaluation T evaluation p))))"

definition settle_bid ::
    "('l, 'c) funding_config_scheme \<Rightarrow> origin \<Rightarrow> project_id \<Rightarrow> account \<Rightarrow> nat \<Rightarrow> ('l, 'z, unit) fprog" where
  "settle_bid T orig p bidder i = transactional (
     sbind (ensure_signed orig) (\<lambda>_.
     sbind (gets (\<lambda>s. nmap_get (Bids s) (p, bidder, i))) (\<lambda>found.
     sbind (ok_or found (FErr ParticipationNotFound)) (\<lambda>bid.
     do_settle_bid T bid p))))"

definition settle_contribution ::
    "('l, 'c) funding_config_scheme \<Rightarrow> origin \<Rightarrow> project_id \<Rightarrow> account \<Rightarrow> nat \<Rightarrow> ('l, 'z, unit) fprog" where
  "settle_contribution T orig p contributor contribution_id = transactional (
     sbind (ensure_signed orig) (\<lambda>_.
     sbind (gets (\<lambda>s. nmap_get (Contributions s) (p, contributor, contribution_id))) (\<lambda>found.
     sbind (ok_or found (FErr ParticipationNotFound)) (\<lambda>contribution.
     do_settle_contribution T contribution p))))"

definition mark_project_as_settled ::
    "('l, 'c) funding_config_scheme \<Rightarrow> origin \<Rightarrow> project_id \<Rightarrow> ('l, 'z, unit) fprog" where
  "mark_project_as_settled T orig p = transactional (
     sbind (ensure_signed orig) (\<lambda>_. do_mark_project_as_settled T p))"

definition start_offchain_migration ::
    "('l, 'c) funding_config_scheme \<Rightarrow> origin \<Rightarrow> jwt \<Rightarrow> project_id \<Rightarrow> ('l, 'z, unit) fprog" where
  "start_offchain_migration T orig token p = transactional (
     sbind (ensure_institutional T orig token) (\<lambda>(who, _). do_start_offchain_migration T p who))"

definition confirm_offchain_migration ::
    "('l, 'c) funding_config_scheme \<Rightarrow> origin \<Rightarrow> project_id \<Rightarrow> account \<Rightarrow> ('l, 'z, unit) fprog" where
  "confirm_offchain_migration T orig p participant = transactional (
     sbind (ensure_signed orig) (\<lambda>caller. do_confirm_offchain_migration T p caller participant))"

definition start_pallet_migration ::
    "('l, 'c) funding_config_scheme \<Rightarrow> origin \<Rightarrow> jwt \<Rightarrow> project_id \<Rightarrow> nat \<Rightarrow> ('l, 'z, unit) fprog" where
  "start_pallet_migration T orig token p para_id = transactional (
     sbind (ensure_institutional T orig token) (\<lambda>(who, _). do_start_pallet_migration T who p para_id))"

definition start_pallet_migration_readiness_check ::
    "('l, 'c) funding_config_scheme \<Rightarrow> origin \<Rightarrow> jwt \<Rightarrow> project_id \<Rightarrow> ('l, 'z, unit) fprog" where
  "start_pallet_migration_readiness_check T orig token p = transactional (
     sbind (ensure_institutional T orig token) (\<lambda>(who, _).
     do_start_pallet_migration_readiness_check T who p))"

definition pallet_migration_readiness_response ::
    "('l, 'c) funding_config_scheme \<Rightarrow> location option \<Rightarrow> nat \<Rightarrow> xcm_response \<Rightarrow> ('l, 'z, unit) fprog" where
  "pallet_migration_readiness_response T orig query_id response = transactional (
     sbind (ensure_response orig) (\<lambda>loc.
     do_pallet_migration_readiness_response T loc query_id response))"

definition send_pallet_migration_for ::
    "('l, 'c) funding_config_scheme \<Rightarrow> origin \<Rightarrow> project_id \<Rightarrow> account \<Rightarrow> ('l, 'z, unit) fprog" where
  "send_pallet_migration_for T orig p participant = transactional (
     sbind (ensure_signed orig) (\<lambda>_. do_send_pallet_migration_for T p participant))"

definition confirm_pallet_migrations ::
    "('l, 'c) funding_config_scheme \<Rightarrow> location option \<Rightarrow> nat \<Rightarrow> xcm_response \<Rightarrow> ('l, 'z, unit) fprog" where
  "confirm_pallet_migrations T orig query_id response = transactional (
     sbind (ensure_response orig) (\<lambda>loc. do_confirm_pallet_migrations T loc query_id response))"

definition mark_project_ct_migration_as_finished ::
    "('l, 'c) funding_config_scheme \<Rightarrow> origin \<Rightarrow> project_id \<Rightarrow> ('l, 'z, unit) fprog" where
  "mark_project_ct_migration_as_finished T orig p = transactional (
     sbind (ensure_signed orig) (\<lambda>_. do_mark_project_ct_migration_as_finished T p))"

end
