(* ===== verification/Funding_Demo.thy ===== *)
theory Funding_Demo
  imports Funding_Calls
begin

text \<open>
  A concrete configuration and project of the funding pallet, for the witnesses of its properties.
  The ledger has balances of the native token and of the funding assets and contribution tokens; the
  arithmetic is the exact one of \<open>Frame\<close>. Every parameter meets the laws the properties assume.
\<close>

section \<open>The ledger\<close>

record demo_ledger = plain_ledger +
  assets :: "nat \<Rightarrow> account \<Rightarrow> nat"
  minted :: "project_id \<Rightarrow> account \<Rightarrow> nat"

definition lift_plain :: "(plain_ledger, 'a) dprog \<Rightarrow> (demo_ledger, 'a) dprog" where
  "lift_plain m l =
     (case m (plain_ledger.truncate l) of (r, k) \<Rightarrow> (r, plain_ledger.extend k (demo_ledger.fields (assets l) (minted l))))"

text \<open>The native currency of the demo ledger is the plain one.\<close>

definition demo_currency :: "demo_ledger currency" where
  "demo_currency =
     \<lparr>c_balance_on_hold = (\<lambda>r who l. held l r who),
      c_hold = (\<lambda>r who amt. lift_plain (plain_hold r who amt)),
      c_release = (\<lambda>r who amt p. lift_plain (plain_release r who amt p)),
      c_transfer = (\<lambda>from to amt p. lift_plain (plain_transfer from to amt p)),
      c_transfer_and_hold = (\<lambda>r from to amt p. lift_plain (plain_transfer_and_hold r from to amt p)),
      c_transfer_on_hold = (\<lambda>r from to amt p. lift_plain (plain_transfer_on_hold r from to amt p))\<rparr>"

definition demo_transfer :: "nat \<Rightarrow> account \<Rightarrow> account \<Rightarrow> nat \<Rightarrow> preservation \<Rightarrow> (demo_ledger, nat) dprog" where
  "demo_transfer a from to amt p l =
     (if amt \<le> assets l a from
      then (Inr amt, let f = (assets l a)(from := assets l a from - amt)
                     in l\<lparr>assets := (assets l)(a := f(to := f to + amt))\<rparr>)
      else (Inl (External 4), l))"

definition demo_mint :: "project_id \<Rightarrow> account \<Rightarrow> nat \<Rightarrow> (demo_ledger, nat) dprog" where
  "demo_mint p who amt l =
     (Inr amt, l\<lparr>minted := (minted l)(p := (minted l p)(who := minted l p who + amt))\<rparr>)"

section \<open>The configuration\<close>

definition demo_config :: "demo_ledger funding_config" where
  "demo_config =
     \<lparr>Currency = demo_currency, BlockNumberToBalance = (\<lambda>n. n), MinVestedTransfer = 10,
      MAX_VESTING_SCHEDULES = 100, hash_vesting = fst,
      arith = plain_arith, DAYS = 7200, hash_project = (\<lambda>p. p), hash_participation = (\<lambda>(p, a, i). i),
      fc_transfer = demo_transfer, fc_decimals = (\<lambda>a l. if a = 10 then 10 else 6),
      ct_create = (\<lambda>p a b n. ok ()), ct_set = (\<lambda>p a n sy d. ok ()), ct_touch = (\<lambda>p a b. ok ()),
      ct_mint_into = demo_mint, ct_contains = (\<lambda>p a l. True), ct_total_issuance = (\<lambda>p l. 0),
      get_price = (\<lambda>a l. Some (if a = 3344 then DIV div 2 else if a = 10 then 5 * DIV else DIV)),
      sub_account = (\<lambda>i. 1000 + i), pallet_account = 999, ExistentialDeposit = 1,
      EvaluationRoundDuration = 100, AuctionRoundDuration = 50, CommunityRoundDuration = 40,
      RemainderRoundDuration = 10, EvaluationSuccessThreshold = 10,
      FundingSuccessThreshold = 33 * 10 ^ 16, EvaluatorSlash = 20,
      FeeBrackets = [(10, 1000000 * 10 ^ 6), (8, 4000000 * 10 ^ 6), (6, u128_max)],
      MinUsdPerEvaluation = 100 * 10 ^ 6, MaxEvaluationsPerProject = 1024, MaxEvaluationsPerUser = 16,
      MaxBidsPerProject = 1024, MaxBidsPerUser = 16, MaxContributionsPerUser = 16,
      BlockchainOperationTreasury = 998, ContributionTreasury = 997,
      on_slash_hook = (\<lambda>who amt. ok ()), AccountId32Conversion = (\<lambda>a. a),
      VerifierPublicKey = ''key'', verify_token = (\<lambda>t k. None), timestamp_now = (\<lambda>l. 0),
      MaxMessageSizeThresholds = (50000, 102400), MaxCapacityThresholds = (8, 1000),
      RequiredMaxCapacity = 8, RequiredMaxMessageSize = 102400,
      new_notify_query = (\<lambda>loc t l. (0, l)), send_xcm = (\<lambda>loc m. ok ()),
      xcm_validate = (\<lambda>loc m l. Some 0), xcm_deliver = (\<lambda>n l. (True, l)),
      encode_u32 = (\<lambda>n. [n]), encode_migrations = (\<lambda>ms. [])\<rparr>"

lemma demo_config_fields [simp]:
  "Currency demo_config = demo_currency"
  "BlockNumberToBalance demo_config = (\<lambda>n. n)"
  "MinVestedTransfer demo_config = 10"
  "MAX_VESTING_SCHEDULES demo_config = 100"
  "hash_vesting demo_config = fst"
  "arith demo_config = plain_arith"
  "DAYS demo_config = 7200"
  "hash_project demo_config = (\<lambda>p. p)"
  "hash_participation demo_config = (\<lambda>(p, a, i). i)"
  "fc_transfer demo_config = demo_transfer"
  "fc_decimals demo_config = (\<lambda>a l. if a = 10 then 10 else 6)"
  "ct_create demo_config = (\<lambda>p a b n. ok ())"
  "ct_set demo_config = (\<lambda>p a n sy d. ok ())"
  "ct_touch demo_config = (\<lambda>p a b. ok ())"
  "ct_mint_into demo_config = demo_mint"
  "ct_contains demo_config = (\<lambda>p a l. True)"
  "ct_total_issuance demo_config = (\<lambda>p l. 0)"
  "get_price demo_config = (\<lambda>a l. Some (if a = 3344 then DIV div 2 else if a = 10 then 5 * DIV else DIV))"
  "sub_account demo_config = (\<lambda>i. 1000 + i)"
  "pallet_account demo_config = 999"
  "ExistentialDeposit demo_config = 1"
  "EvaluationRoundDuration demo_config = 100"
  "AuctionRoundDuration demo_config = 50"
  "CommunityRoundDuration demo_config = 40"
  "RemainderRoundDuration demo_config = 10"
  "EvaluationSuccessThreshold demo_config = 10"
  "FundingSuccessThreshold demo_config = 33 * 10 ^ 16"
  "EvaluatorSlash demo_config = 20"
  "FeeBrackets demo_config = [(10, 1000000 * 10 ^ 6), (8, 4000000 * 10 ^ 6), (6, u128_max)]"
  "MinUsdPerEvaluation demo_config = 100 * 10 ^ 6"
  "MaxEvaluationsPerProject demo_config = 1024"
  "MaxEvaluationsPerUser demo_config = 16"
  "MaxBidsPerProject demo_config = 1024"
  "MaxBidsPerUser demo_config = 16"
  "MaxContributionsPerUser demo_config = 16"
  "BlockchainOperationTreasury demo_config = 998"
  "ContributionTreasury demo_config = 997"
  "on_slash_hook demo_config = (\<lambda>who amt. ok ())"
  "AccountId32Conversion demo_config = (\<lambda>a. a)"
  "VerifierPublicKey demo_config = ''key''"
  "verify_token demo_config = (\<lambda>t k. None)"
  "timestamp_now demo_config = (\<lambda>l. 0)"
  "MaxMessageSizeThresholds demo_config = (50000, 102400)"
  "MaxCapacityThresholds demo_config = (8, 1000)"
  "RequiredMaxCapacity demo_config = 8"
  "RequiredMaxMessageSize demo_config = 102400"
  "new_notify_query demo_config = (\<lambda>loc t l. (0, l))"
  "send_xcm demo_config = (\<lambda>loc m. ok ())"
  "xcm_validate demo_config = (\<lambda>loc m l. Some 0)"
  "xcm_deliver demo_config = (\<lambda>n l. (True, l))"
  "encode_u32 demo_config = (\<lambda>n. [n])"
  "encode_migrations demo_config = (\<lambda>ms. [])"
  by (simp_all add: demo_config_def)

section \<open>A project\<close>

definition demo_details :: project_details where
  "demo_details =
     \<lparr>pd_issuer_account = 1, pd_issuer_did = ''issuer'', pd_is_frozen = True,
      pd_weighted_average_price = None, pd_status = AuctionRound,
      pd_round_duration = \<lparr>bp_start = Some 0, bp_end = Some 50\<rparr>,
      pd_fundraising_target_usd = 1000 * 10 ^ 6, pd_remaining_contribution_tokens = 1000 * 10 ^ 6,
      pd_funding_amount_reached_usd = 0,
      pd_evaluation_round_info =
        \<lparr>ri_total_bonded_usd = 0, ri_total_bonded_plmc = 0, ri_evaluators_outcome = None\<rparr>,
      pd_usd_bid_on_oversubscription = None, pd_funding_end_block = None, pd_migration_type = None\<rparr>"

definition demo_ticket :: ticket_size where
  "demo_ticket = \<lparr>usd_minimum_per_participation = 10 ^ 6, usd_maximum_per_did = None\<rparr>"

definition demo_bidding_ticket :: ticket_size where
  "demo_bidding_ticket = \<lparr>usd_minimum_per_participation = 5000 * 10 ^ 6, usd_maximum_per_did = None\<rparr>"

definition demo_metadata :: project_metadata where
  "demo_metadata =
     \<lparr>md_token_information = \<lparr>cm_name = ''Demo'', cm_symbol = ''DMO'', cm_decimals = 6\<rparr>,
      md_mainnet_token_max_supply = 100000 * 10 ^ 6, md_total_allocation_size = 10000 * 10 ^ 6,
      md_auction_round_allocation_percentage = 50, md_minimum_price = DIV,
      md_bidding_ticket_sizes =
        \<lparr>bts_professional = demo_bidding_ticket, bts_institutional = demo_bidding_ticket\<rparr>,
      md_contributing_ticket_sizes =
        \<lparr>cts_retail = demo_ticket, cts_professional = demo_ticket, cts_institutional = demo_ticket\<rparr>,
      md_participation_currencies = [USDT, DOT], md_funding_destination_account = 2,
      md_policy_ipfs_cid = Some ''cid''\<rparr>"

definition demo_bid :: "nat \<Rightarrow> account \<Rightarrow> nat \<Rightarrow> fixed \<Rightarrow> bid_info" where
  "demo_bid i who amt price =
     \<lparr>bid_id = i, bid_project_id = 0, bid_bidder = who, bid_did = ''bidder'', bid_bstatus = YetUnknown,
      bid_original_ct_amount = amt, bid_original_ct_usd_price = price, bid_funding_asset = USDT,
      bid_funding_asset_amount_locked = amt, bid_multiplier = 1, bid_plmc_bond = 2 * amt, bid_when = 10\<rparr>"

definition demo_state :: "demo_ledger funding_state" where
  "demo_state =
     \<lparr>block_number = 60,
      ext = \<lparr>free = (\<lambda>_. 10 ^ 20), held = (\<lambda>_ _. 10 ^ 20), assets = (\<lambda>_ _. 10 ^ 20), minted = (\<lambda>_ _. 0)\<rparr>,
      Vesting = [], lr_events = [],
      NextProjectId = 1, NextEvaluationId = 0, NextBidId = 3, NextContributionId = 0,
      BidCounts = (\<lambda>_. 3), EvaluationCounts = (\<lambda>_. 0), ProjectsMetadata = [0 \<mapsto> demo_metadata],
      Buckets = [0 \<mapsto> new_bucket (5000 * 10 ^ 6) DIV (DIV div 10) (500 * 10 ^ 6)],
      ProjectsDetails = [(0, demo_details)], Evaluations = [],
      Bids = [((0, 5, 0), demo_bid 0 5 300 DIV), ((0, 6, 1), demo_bid 1 6 400 (2 * DIV)),
              ((0, 5, 2), demo_bid 2 5 500 DIV)],
      Contributions = [], AuctionBoughtUSD = (\<lambda>_. 0), ContributionBoughtUSD = (\<lambda>_. 0),
      UserMigrations = Map.empty, UnmigratedCounter = (\<lambda>_. 0), ActiveMigrationQueue = Map.empty,
      DidWithActiveProjects = [''issuer'' \<mapsto> 0], DidWithWinningBids = (\<lambda>_. False), events = []\<rparr>"

lemmas demo_defs =
  demo_config_def demo_state_def demo_details_def demo_metadata_def demo_bid_def demo_ticket_def
  demo_bidding_ticket_def

lemmas demo_ledger_defs =
  demo_currency_def lift_plain_def demo_transfer_def demo_mint_def plain_ledger.defs demo_ledger.defs

lemma demo_release_laws: "release_laws (Currency demo_config)"
  by (auto simp: release_laws_def demo_config_def demo_ledger_defs plain_defs Let_def split: if_splits)

lemma demo_hold_laws: "hold_laws (Currency demo_config)"
  by (auto simp: hold_laws_def demo_config_def demo_ledger_defs plain_defs Let_def split: if_splits)

lemma demo_transfer_on_hold_laws: "transfer_on_hold_laws (Currency demo_config)"
  by (auto simp: transfer_on_hold_laws_def demo_config_def demo_ledger_defs plain_defs split: if_splits)

end
