(* ===== verification/Funding_Price_Props.thy ===== *)
theory Funding_Price_Props
  imports Funding_Demo
begin

text \<open>
  Properties of the arithmetic of the funding pallet: the weighted average price of the auction (its
  loop ends, and the price lies between the first and the last bucket up to rounding), the vesting
  duration of a multiplier in closed form, and the conversion of prices between an asset's units and
  whole tokens.
\<close>

section \<open>The weighted average price\<close>

lemma wap_loop_stop: "price \<le> bk_initial_price b \<or> left = 0 \<Longrightarrow> wap_loop A b left amount price sizes = Some (left, sizes)"
  by (subst wap_loop.simps) auto

lemma wap_loop_step:
  "bk_initial_price b < price \<Longrightarrow> 0 < left \<Longrightarrow>
   wap_loop A b left amount price sizes =
     wap_loop A b (left - amount) (bk_delta_amount b) (price - bk_delta_price b)
       (sizes @ [(f_saturating_mul_int A price amount, price)])"
  by (subst wap_loop.simps) auto

text \<open>With a positive price step the loop ends, and only visits prices above the initial one.\<close>

lemma wap_loop_terminates:
  assumes "0 < bk_delta_price b"
  shows "\<exists>left' sizes'. wap_loop A b left amount price sizes = Some (left', sizes @ sizes') \<and>
    (\<forall>e\<in>set sizes'. bk_initial_price b < snd e \<and> snd e \<le> price)"
proof (induction price arbitrary: left amount sizes rule: less_induct)
  case (less price)
  show ?case
  proof (cases "bk_initial_price b < price \<and> 0 < left")
    case True
    then have "price - bk_delta_price b < price" using assms by simp
    from less [OF this, of "left - amount" "bk_delta_amount b"
        "sizes @ [(f_saturating_mul_int A price amount, price)]"]
    obtain left' sizes' where
      "wap_loop A b left amount price sizes =
         Some (left', sizes @ (f_saturating_mul_int A price amount, price) # sizes')"
      "\<forall>e\<in>set sizes'. bk_initial_price b < snd e \<and> snd e \<le> price - bk_delta_price b"
      using True by (auto simp: wap_loop_step)
    then show ?thesis using True by fastforce
  next
    case False
    then show ?thesis using wap_loop_stop [of price b left A amount sizes] by auto
  qed
qed

text \<open>The collected volumes and prices of \<^verbatim>\<open>calculate_wap\<close>.\<close>

definition wap_sizes :: "sp_arithmetic \<Rightarrow> bucket \<Rightarrow> nat \<Rightarrow> (nat \<times> fixed) list" where
  "wap_sizes A b total_amount =
     (case wap_loop A b total_amount (bk_delta_amount b - bk_amount_left b) (bk_current_price b) [] of
        None \<Rightarrow> []
      | Some (left, sizes) \<Rightarrow>
          if left > 0 then sizes @ [(f_saturating_mul_int A (bk_initial_price b) left, bk_initial_price b)]
          else sizes)"

lemma wap_sizes_prices:
  assumes "0 < bk_delta_price b" "bk_initial_price b \<le> bk_current_price b"
    and "e \<in> set (wap_sizes A b volume)"
  shows "bk_initial_price b \<le> snd e \<and> snd e \<le> bk_current_price b"
proof -
  obtain left sizes where
    "wap_loop A b volume (bk_delta_amount b - bk_amount_left b) (bk_current_price b) [] = Some (left, sizes)"
    "\<forall>e\<in>set sizes. bk_initial_price b < snd e \<and> snd e \<le> bk_current_price b"
    using wap_loop_terminates [OF assms(1), of A volume "bk_delta_amount b - bk_amount_left b"
        "bk_current_price b" "[]"] by auto
  then show ?thesis using assms(2,3) by (auto simp: wap_sizes_def split: if_splits dest!: bspec)
qed

lemma calculate_wap_eq:
  assumes "0 < bk_delta_price b" "bk_current_price b \<noteq> bk_initial_price b"
  shows "calculate_wap A b volume =
    (let sizes = wap_sizes A b volume; sum = saturating_sum (map fst sizes)
     in if sum = 0 \<and> sizes \<noteq> [] then None
        else Some (saturating_sum (map (\<lambda>(usd, price).
          f_saturating_mul A (f_saturating_from_rational A usd sum) price) sizes)))"
  using wap_loop_terminates [OF assms(1), of A volume "bk_delta_amount b - bk_amount_left b"
      "bk_current_price b" "[]"] assms(2)
  by (auto simp: calculate_wap_def wap_sizes_def saturating_sum_def Let_def)

lemma wap_loop_nonempty:
  "0 < bk_delta_price b \<Longrightarrow> bk_initial_price b < bk_current_price b \<Longrightarrow> 0 < volume \<Longrightarrow>
   wap_sizes A b volume \<noteq> []"
  using wap_loop_terminates [of b A "volume - (bk_delta_amount b - bk_amount_left b)" "bk_delta_amount b"
      "bk_current_price b - bk_delta_price b"
      "[(f_saturating_mul_int A (bk_current_price b) (bk_delta_amount b - bk_amount_left b), bk_current_price b)]"]
  by (auto simp: wap_sizes_def wap_loop_step split: if_splits)

text \<open>The average of prices between \<open>lo\<close> and \<open>hi\<close>, with weights rounded down, up to the rounding.\<close>

lemma weighted_sum_upper:
  assumes "0 < S" "sum_list (map fst xs) \<le> S" "\<forall>e\<in>set xs. snd e \<le> hi"
  shows "sum_list (map (\<lambda>(u, p). u * DIV div S * p div DIV) xs) \<le> (hi :: nat)"
proof -
  have "S * DIV * sum_list (map (\<lambda>(u, p). u * DIV div S * p div DIV) xs) \<le>
      DIV * hi * sum_list (map fst xs)"
    using assms(3)
  proof (induction xs)
    case (Cons e xs)
    obtain u p where e: "e = (u, p)" by fastforce
    have "DIV * (u * DIV div S * p div DIV) \<le> u * DIV div S * p" by simp
    then have "S * (DIV * (u * DIV div S * p div DIV)) \<le> S * (u * DIV div S * p)" by simp
    also have "\<dots> = S * (u * DIV div S) * p" by simp
    also have "\<dots> \<le> u * DIV * p" by (rule mult_right_mono) simp_all
    also have "\<dots> \<le> u * DIV * hi" using Cons.prems e by (intro mult_left_mono) simp_all
    finally have head: "S * DIV * (u * DIV div S * p div DIV) \<le> DIV * hi * u" by (simp only: mult_ac)
    have "\<forall>e\<in>set xs. snd e \<le> hi" using Cons.prems by simp
    from add_mono [OF head Cons.IH [OF this]] show ?case
      by (simp only: e list.map sum_list.Cons prod.case fst_conv distrib_left)
  qed simp
  also have "\<dots> \<le> DIV * hi * S" using assms(2) by (rule mult_left_mono) simp
  finally have "S * DIV * sum_list (map (\<lambda>(u, p). u * DIV div S * p div DIV) xs) \<le> S * DIV * hi"
    by (simp add: mult_ac)
  then show ?thesis using assms(1) by (simp add: DIV_def)
qed

lemma weighted_sum_lower:
  assumes "0 < S" "sum_list (map fst xs) = S" "\<forall>e\<in>set xs. lo \<le> snd e"
  shows "lo * DIV \<le> (sum_list (map (\<lambda>(u, p). u * DIV div S * p div DIV) xs) + length xs) * DIV + length xs * lo"
proof -
  have "DIV * lo * sum_list (map fst xs) \<le>
      S * DIV * (sum_list (map (\<lambda>(u, p). u * DIV div S * p div DIV) xs) + length xs) + S * length xs * lo"
    using assms(3)
  proof (induction xs)
    case (Cons e xs)
    obtain u p where e: "e = (u, p)" by fastforce
    let ?w = "u * DIV div S"
    have "u * DIV \<le> S * ?w + S" using div_mult_bounds [OF assms(1), of "u * DIV"] by simp
    then have "DIV * lo * u \<le> lo * (S * ?w + S)"
      using mult_left_mono [of "u * DIV" "S * ?w + S" lo] by (simp add: mult_ac)
    also have "\<dots> = S * (?w * lo) + S * lo" by (simp add: distrib_left mult_ac)
    also have "\<dots> \<le> S * (?w * p) + S * lo" using Cons.prems e by (simp add: mult_left_mono)
    also have "\<dots> \<le> S * (DIV * (?w * p div DIV) + DIV) + S * lo"
      using div_mult_bounds [of DIV "?w * p"] by (simp add: DIV_def mult_left_mono)
    finally have head: "DIV * lo * u \<le> S * DIV * (?w * p div DIV + 1) + S * lo"
      by (simp only: distrib_left mult_ac mult_1_right)
    have "\<forall>e\<in>set xs. lo \<le> snd e" using Cons.prems by simp
    from add_mono [OF head Cons.IH [OF this]] show ?case
      by (simp add: e distrib_left distrib_right)
  qed simp
  then have "S * (lo * DIV) \<le>
      S * ((sum_list (map (\<lambda>(u, p). u * DIV div S * p div DIV) xs) + length xs) * DIV + length xs * lo)"
    using assms(2) by (simp add: distrib_left mult_ac)
  then show ?thesis using assms(1) by simp
qed

lemma sum_list_le_each: "\<forall>x\<in>set xs. f x \<le> g x \<Longrightarrow> sum_list (map f xs) \<le> (sum_list (map g xs) :: nat)"
  by (induction xs) (auto intro: add_mono)

text \<open>
  C25. The price of an auction whose first bucket sold out exists and lies between the price of the
  first bucket and the price of the last one; below, up to the rounding of one price unit and one
  part of \<open>10 ^ 18\<close> of the initial price for each bucket. The loop over the buckets always ends.
\<close>

theorem weighted_average_price_bounds:
  assumes "fixed_laws A" and "0 < bk_delta_price b" "bk_initial_price b \<le> bk_current_price b"
    and "bk_current_price b \<le> u128_max"
    and "0 < sum_list (map fst (wap_sizes A b volume))"
    and "sum_list (map fst (wap_sizes A b volume)) * DIV \<le> u128_max"
  shows "\<exists>wap. calculate_wap A b volume = Some wap \<and> wap \<le> bk_current_price b \<and>
    bk_initial_price b * DIV \<le> (wap + length (wap_sizes A b volume)) * DIV +
      length (wap_sizes A b volume) * bk_initial_price b"
proof (cases "bk_current_price b = bk_initial_price b")
  case True
  then show ?thesis by (simp add: calculate_wap_def distrib_right)
next
  case False
  let ?xs = "wap_sizes A b volume" and ?S = "sum_list (map fst (wap_sizes A b volume))"
  let ?w = "sum_list (map (\<lambda>(u, p). u * DIV div ?S * p div DIV) ?xs)"
  note prices = wap_sizes_prices [OF assms(2,3)]
  have S: "saturating_sum (map fst ?xs) = ?S"
    using assms(6) by (simp add: saturating_sum_eq DIV_def)
  have summand: "f_saturating_mul A (f_saturating_from_rational A u ?S) p = u * DIV div ?S * p div DIV"
    if "(u, p) \<in> set ?xs" for u p
  proof -
    have "u \<le> ?S" using that by (force intro: member_le_sum_list)
    then have "u * DIV \<le> u128_max" using assms(6) by (metis le_trans mult_le_mono1)
    then have w: "f_saturating_from_rational A u ?S = u * DIV div ?S"
      using assms(1,5) le_trans [OF div_le_dividend, of "u * DIV" u128_max ?S]
      by (simp add: fixed_laws_def min_absorb2)
    have "u * DIV div ?S \<le> DIV"
      using \<open>u \<le> ?S\<close> assms(5) by (metis div_le_mono mult_le_mono1 nonzero_mult_div_cancel_left not_less_zero)
    then have "u * DIV div ?S * p div DIV \<le> p"
      by (metis div_le_mono div_mult_self1_is_m div_mult_self_is_m mult.commute mult_le_mono1 DIV_def zero_less_power zero_less_numeral)
    also have "p \<le> u128_max" using prices [OF that] assms(4) by simp
    finally show ?thesis using assms(1) w by (simp add: fixed_laws_def)
  qed
  have "?w \<le> bk_current_price b"
    using prices by (intro weighted_sum_upper [OF assms(5)]) auto
  moreover have "calculate_wap A b volume = Some ?w"
  proof -
    have eq: "map (\<lambda>(usd, price). f_saturating_mul A (f_saturating_from_rational A usd ?S) price) ?xs =
        map (\<lambda>(u, p). u * DIV div ?S * p div DIV) ?xs" using summand by auto
    have nz: "?S \<noteq> 0" using assms(5) by linarith
    have "?w \<le> u128_max" using \<open>?w \<le> bk_current_price b\<close> assms(4) by simp
    then show ?thesis
      unfolding calculate_wap_eq [OF assms(2) False] Let_def S eq
      by (simp only: nz simp_thms if_False saturating_sum_eq min_absorb2)
  qed
  moreover have "bk_initial_price b * DIV \<le> (?w + length ?xs) * DIV + length ?xs * bk_initial_price b"
    using prices by (intro weighted_sum_lower [OF assms(5)]) auto
  ultimately show ?thesis by blast
qed

definition demo_bucket :: bucket where
  "demo_bucket =
     \<lparr>bk_amount_left = 20, bk_current_price = 12 * DIV div 10, bk_initial_price = DIV,
      bk_delta_price = DIV div 10, bk_delta_amount = 100\<rparr>"

lemma demo_wap_sizes:
  "wap_sizes plain_arith demo_bucket 1000 = [(96, 12 * DIV div 10), (110, 11 * DIV div 10), (820, DIV)]"
  by (simp add: wap_sizes_def demo_bucket_def wap_loop_step wap_loop_stop plain_arith_def DIV_def u128_max_def)

theorem weighted_average_price_bounds_witness:
  "\<exists>wap. calculate_wap plain_arith demo_bucket 1000 = Some wap \<and> wap \<le> 12 * DIV div 10 \<and>
     DIV * DIV \<le> (wap + 3) * DIV + 3 * DIV"
proof -
  have "sum_list (map fst (wap_sizes plain_arith demo_bucket 1000)) = 1026" by (simp add: demo_wap_sizes)
  with weighted_average_price_bounds [OF plain_fixed_laws, of demo_bucket 1000] show ?thesis
    by (simp add: demo_wap_sizes) (simp add: demo_bucket_def DIV_def u128_max_def)
qed

section \<open>The vesting duration\<close>

text \<open>
  The vesting duration of a multiplier \<open>m\<close> between 1 and 25 is \<open>(m - 1) * 2.167\<close> weeks, counted in
  blocks and rounded down, and never less than one block; it only depends on \<open>m\<close> and grows with it.
\<close>

theorem vesting_duration_closed_form:
  assumes "fixed_laws A" "1 \<le> m" "m \<le> 25" "days \<le> u32_max"
  shows "calculate_vesting_duration A days m = max 1 (min u32_max ((m - 1) * 15169 * days div 1000))"
proof -
  have D: "2167 * DIV div 1000 = 2167 * 10 ^ 15" "DIV = 10 ^ 18" by (simp_all add: DIV_def)
  have "2167 * 10 ^ 15 * (m * DIV) div DIV = m * (2167 * 10 ^ 15)" by (simp add: D)
  also have "m * (2167 * 10 ^ 15) \<le> u128_max" using assms(3) by (simp add: u128_max_def)
  finally have mul: "f_saturating_mul A (2167 * 10 ^ 15) (m * DIV) = m * (2167 * 10 ^ 15)"
    using assms(1) \<open>_ = m * (2167 * 10 ^ 15)\<close> by (simp add: fixed_laws_def)
  let ?w = "(m - 1) * (2167 * 10 ^ 15)"
  have weeks: "m * (2167 * 10 ^ 15) - 2167 * 10 ^ 15 = ?w" by (simp add: diff_mult_distrib)
  have "?w * (7 * DIV) div DIV = ?w * 7" by (simp add: D)
  moreover have "?w * 7 \<le> u128_max" using assms(3) by (simp add: u128_max_def)
  ultimately have seven: "f_mul A ?w (7 * DIV) = ?w * 7" using assms(1) by (simp add: fixed_laws_def)
  have "?w * 7 * days div DIV = (m - 1) * 15169 * days * 10 ^ 15 div (1000 * 10 ^ 15)"
    by (simp add: D mult_ac)
  also have "\<dots> = (m - 1) * 15169 * days div 1000" by (rule div_mult_mult2) simp
  finally have blocks: "f_saturating_mul_int_u32 A (?w * 7) days = min u32_max ((m - 1) * 15169 * days div 1000)"
    using assms(1) by (simp only: fixed_laws_def)
  show ?thesis
    unfolding calculate_vesting_duration_def days_to_blocks_def Let_def D(1) saturating_sub_eq mul weeks
      seven blocks
    by (rule max.commute)
qed

section \<open>Prices in units of an asset\<close>

text \<open>
  Converting a price to the units of an asset and back gives the price again, for an asset of up to
  18 decimals and a price of at most six decimals, the precision of the USD unit.
\<close>

theorem decimals_aware_price_round_trip:
  assumes laws: "mul_int_laws A" "fixed_checked_laws A"
    and price: "price = cents * 10 ^ 12" "cents \<le> 10 ^ 18" and "asset_decimals \<le> 18"
  shows "\<exists>q. calculate_decimals_aware_price A price USD_DECIMALS asset_decimals = Some q \<and>
    convert_back_to_normal_price A q USD_DECIMALS asset_decimals = Some price"
proof -
  have pow: "(10::nat) ^ 18 = 10 ^ (18 - asset_decimals) * 10 ^ asset_decimals"
    using assms(5) by (simp flip: power_add)
  let ?q = "cents * 10 ^ (18 - asset_decimals)"
  have q: "cents * DIV div 10 ^ asset_decimals = ?q"
    unfolding DIV_def pow by (simp flip: mult.assoc)
  have "?q \<le> cents * 10 ^ 18" by (intro mult_left_mono power_increasing) simp_all
  also have "\<dots> \<le> 10 ^ 36" using price(2) by simp
  finally have q_le: "?q \<le> u128_max" by (simp add: u128_max_def)
  have "(10::nat) ^ asset_decimals \<le> 10 ^ 18" using assms(5) by (intro power_increasing) simp_all
  then have p1: "10 ^ asset_decimals \<le> u128_max" by (simp add: u128_max_def)
  have cents: "price * 10 ^ 6 div DIV = cents" "cents \<le> u128_max"
    using price by (simp_all add: DIV_def u128_max_def)
  have there: "calculate_decimals_aware_price A price USD_DECIMALS asset_decimals = Some ?q"
    using laws p1 q q_le cents
    by (simp add: calculate_decimals_aware_price_def USD_DECIMALS_def checked_pow_def mul_int_laws_def
        fixed_checked_laws_def u128_max_def)
  have "convert_back_to_normal_price A ?q USD_DECIMALS asset_decimals = Some price"
  proof (cases "asset_decimals < 6")
    case True
    let ?k = "6 - asset_decimals"
    have "(10::nat) ^ ?k \<le> 10 ^ 6" by (intro power_increasing) simp_all
    moreover have "?q = price * 10 ^ ?k"
    proof -
      have "18 - asset_decimals = 12 + ?k" using True by simp
      then show ?thesis by (simp only: price(1) power_add mult.assoc)
    qed
    moreover have "price \<le> u128_max" using price by (simp add: u128_max_def)
    ultimately show ?thesis
      using laws(2) True
      by (simp add: convert_back_to_normal_price_def USD_DECIMALS_def checked_pow_def abs_diff_def
          fixed_checked_laws_def DIV_def u128_max_def)
  next
    case False
    let ?k = "asset_decimals - 6"
    have "(10::nat) ^ ?k \<le> 10 ^ 12" using assms(5) by (intro power_increasing) simp_all
    moreover have "?q * 10 ^ ?k = price"
      using False assms(5) by (simp add: price(1) flip: power_add)
    moreover have "price \<le> u128_max" using price by (simp add: u128_max_def)
    ultimately show ?thesis
      using laws(2) False
      by (simp add: convert_back_to_normal_price_def USD_DECIMALS_def checked_pow_def abs_diff_def
          fixed_checked_laws_def DIV_def u128_max_def)
  qed
  with there show ?thesis by blast
qed

end
