(* ===== verification/Funding_Reward_Props.thy ===== *)
theory Funding_Reward_Props
  imports Funding_Price_Props
begin

text \<open>
  Properties of the evaluation round and of the fees: how an evaluation is split into an early and a
  late part, how the fee of a funding is cut from the tokens sold, and that the rewards of all
  evaluators together stay within the pots they are paid from.
\<close>

section \<open>Sums over the participations of a project\<close>

lemma sum_filter_takeWhile:
  "sum_list (map f (filter P (takeWhile Q m))) + sum_list (map f (filter P (dropWhile Q m))) =
   (sum_list (map f (filter P m)) :: nat)"
  by (metis filter_append map_append sum_list_append takeWhile_dropWhile_id)

lemma prefix1_insert_fresh:
  assumes "nmap_get m k = None"
  shows "sum_list (map f (prefix1 p (nmap_insert h k v m))) =
    (if fst k = p then f v else 0) + (sum_list (map f (prefix1 p m)) :: nat)"
    and "length (prefix1 p (nmap_insert h k v m)) =
      (if fst k = p then 1 else 0) + length (prefix1 p m)"
proof -
  have "sum_list (map f (prefix1 p (nmap_insert h k v m))) =
    (if fst k = p then f v else 0) + (sum_list (map f (prefix1 p m)) :: nat)" for f :: "'a \<Rightarrow> nat"
    using assms sum_filter_takeWhile [of "f \<circ> snd" "\<lambda>e. fst (fst e) = p" "\<lambda>e. h (fst e) < h k" m]
    by (simp add: prefix1_def nmap_insert_def nmap_get_def)
  from this [of f] this [of "\<lambda>_. 1"]
  show "sum_list (map f (prefix1 p (nmap_insert h k v m))) =
      (if fst k = p then f v else 0) + sum_list (map f (prefix1 p m))"
    and "length (prefix1 p (nmap_insert h k v m)) = (if fst k = p then 1 else 0) + length (prefix1 p m)"
    by (simp_all add: sum_list_triv)
qed

section \<open>The evaluation round\<close>

text \<open>Evaluations are stored under their own key, and their ids were handed out before.\<close>

definition evaluations_keyed :: "('l, 'z) funding_state_scheme \<Rightarrow> bool" where
  "evaluations_keyed s \<longleftrightarrow> nmap_wf (Evaluations s) \<and>
     (\<forall>(k, e)\<in>set (Evaluations s).
        k = (ev_project_id e, ev_evaluator e, ev_id e) \<and> ev_id e < NextEvaluationId s)"

definition early_threshold :: "('l, 'c) funding_config_scheme \<Rightarrow> project_details \<Rightarrow> nat" where
  "early_threshold T d = percent_mul (arith T) (EvaluationSuccessThreshold T) (pd_fundraising_target_usd d)"

text \<open>
  What a project's evaluations add up to: everything is the bonded total, and the early parts fill
  the threshold first.
\<close>

definition evaluation_accounting ::
    "('l, 'c) funding_config_scheme \<Rightarrow> project_id \<Rightarrow> project_details \<Rightarrow> ('l, 'z) funding_state_scheme \<Rightarrow> bool" where
  "evaluation_accounting T p d s \<longleftrightarrow>
     (let es = prefix1 p (Evaluations s); bonded = ri_total_bonded_usd (pd_evaluation_round_info d) in
      sum_list (map (\<lambda>e. ev_early_usd_amount e + ev_late_usd_amount e) es) = bonded \<and>
      sum_list (map ev_early_usd_amount es) = min bonded (early_threshold T d))"

text \<open>
  The books of the bonds themselves: the round's PLMC total, a 128 bit number, is what the
  evaluators bonded originally, and the counter that bounds the round is the number of evaluations.
\<close>

definition bond_accounting ::
    "project_id \<Rightarrow> project_details \<Rightarrow> ('l, 'z) funding_state_scheme \<Rightarrow> bool" where
  "bond_accounting p d s \<longleftrightarrow>
     (let es = prefix1 p (Evaluations s) in
      ri_total_bonded_plmc (pd_evaluation_round_info d) = sum_list (map ev_original_plmc_bond es) mod 2 ^ 128 \<and>
      EvaluationCounts s p = length es)"

lemma evaluations_keyed_fresh:
  "evaluations_keyed s \<Longrightarrow> nmap_get (Evaluations s) (p, a, NextEvaluationId s) = None"
  by (auto simp: evaluations_keyed_def nmap_get_def map_of_eq_None_iff)

text \<open>The effect of a successful evaluation.\<close>

lemma do_evaluate_Inr:
  assumes "do_evaluate T who p usd d cid s = (Inr u, t)"
  shows "\<exists>info bond. let early = min usd (early_threshold T info -
        ri_total_bonded_usd (pd_evaluation_round_info info)) in
    get_details p s = Some info \<and> pd_status info = EvaluationRound \<and>
    Evaluations t = nmap_insert (hash_participation T) (p, who, NextEvaluationId s)
      \<lparr>ev_id = NextEvaluationId s, ev_did = d, ev_project_id = p, ev_evaluator = who,
       ev_original_plmc_bond = bond, ev_current_plmc_bond = bond, ev_early_usd_amount = early,
       ev_late_usd_amount = usd - early, ev_when = block_number s\<rparr> (Evaluations s) \<and>
    NextEvaluationId t = saturating_add_u32 (NextEvaluationId s) 1 \<and>
    EvaluationCounts s p < MaxEvaluationsPerProject T \<and>
    EvaluationCounts t p = wrapping_add_u32 (EvaluationCounts s p) 1 \<and>
    get_details p t = Some (info\<lparr>pd_evaluation_round_info := (pd_evaluation_round_info info)\<lparr>
        ri_total_bonded_usd := wrapping_add (ri_total_bonded_usd (pd_evaluation_round_info info)) usd,
        ri_total_bonded_plmc := wrapping_add (ri_total_bonded_plmc (pd_evaluation_round_info info)) bond\<rparr>\<rparr>)"
  using assms
  unfolding do_evaluate_def Let_def saturating_sub_eq min_def [symmetric]
  by (clarsimp simp: prog_simps funding_access_defs checked_sub_Some early_threshold_def
      get_details_def nmap_get_insert) blast

text \<open>
  C38. A successful evaluation keeps the books of its round. The bonded USD total stays the sum of
  the evaluations' early and late parts, and the early part of it, which earns the extra reward, is
  exactly what was bonded before the success threshold was reached, however the evaluations were
  cut. The bonded PLMC total stays the sum of the original bonds (modulo \<open>2 ^ 128\<close>, its width), the
  counter of the project stays the number of its evaluations, and the USD total and the number grow
  by this evaluation. The USD total must not overflow, and ids must be left.
\<close>

theorem evaluation_accounting_kept:
  assumes "evaluations_keyed s" "NextEvaluationId s < u32_max" "MaxEvaluationsPerProject T \<le> u32_max"
    and "get_details p s = Some info" "evaluation_accounting T p info s" "bond_accounting p info s"
    and "ri_total_bonded_usd (pd_evaluation_round_info info) + usd \<le> u128_max"
    and "do_evaluate T who p usd d cid s = (Inr (), t)"
  shows "\<exists>info'. get_details p t = Some info' \<and> evaluations_keyed t \<and>
    evaluation_accounting T p info' t \<and> bond_accounting p info' t \<and>
    ri_total_bonded_usd (pd_evaluation_round_info info') =
      ri_total_bonded_usd (pd_evaluation_round_info info) + usd \<and>
    length (prefix1 p (Evaluations t)) = Suc (length (prefix1 p (Evaluations s)))"
proof -
  let ?early = "min usd (early_threshold T info - ri_total_bonded_usd (pd_evaluation_round_info info))"
  obtain bond where run: "Evaluations t = nmap_insert (hash_participation T) (p, who, NextEvaluationId s)
      \<lparr>ev_id = NextEvaluationId s, ev_did = d, ev_project_id = p, ev_evaluator = who,
       ev_original_plmc_bond = bond, ev_current_plmc_bond = bond, ev_early_usd_amount = ?early,
       ev_late_usd_amount = usd - ?early, ev_when = block_number s\<rparr> (Evaluations s)"
      "NextEvaluationId t = saturating_add_u32 (NextEvaluationId s) 1"
      "EvaluationCounts s p < MaxEvaluationsPerProject T"
      "EvaluationCounts t p = wrapping_add_u32 (EvaluationCounts s p) 1"
      "get_details p t = Some (info\<lparr>pd_evaluation_round_info := (pd_evaluation_round_info info)\<lparr>
        ri_total_bonded_usd := wrapping_add (ri_total_bonded_usd (pd_evaluation_round_info info)) usd,
        ri_total_bonded_plmc := wrapping_add (ri_total_bonded_plmc (pd_evaluation_round_info info)) bond\<rparr>\<rparr>)"
    using do_evaluate_Inr [OF assms(8)] assms(4) by (auto simp: Let_def)
  let ?bonded = "ri_total_bonded_usd (pd_evaluation_round_info info)"
  let ?bond = "ri_total_bonded_plmc (pd_evaluation_round_info info)"
  have total: "wrapping_add ?bonded usd = ?bonded + usd"
    using assms(7) by (simp add: wrapping_add_def u128_max_def)
  have count: "EvaluationCounts t p = Suc (EvaluationCounts s p)"
    using run(3,4) assms(3) by (simp add: wrapping_add_u32_def u32_max_def)
  note fresh = evaluations_keyed_fresh [OF assms(1), of p who]
  have next_id: "NextEvaluationId t = Suc (NextEvaluationId s)"
    using run(2) assms(2) by (simp add: saturating_add_u32_def)
  have "evaluation_accounting T p (info\<lparr>pd_evaluation_round_info := (pd_evaluation_round_info info)\<lparr>
      ri_total_bonded_usd := ?bonded + usd, ri_total_bonded_plmc := x\<rparr>\<rparr>) t" for x
    using assms(5)
    by (simp add: evaluation_accounting_def Let_def run(1) prefix1_insert_fresh(1) [OF fresh] early_threshold_def)
  moreover have "bond_accounting p (info\<lparr>pd_evaluation_round_info := (pd_evaluation_round_info info)\<lparr>
      ri_total_bonded_usd := x, ri_total_bonded_plmc := wrapping_add ?bond bond\<rparr>\<rparr>) t" for x
    using assms(6)
    by (simp add: bond_accounting_def Let_def count prefix1_insert_fresh [OF fresh] run(1) wrapping_add_def
        mod_simps add.commute)
  moreover have "evaluations_keyed t"
    using assms(1) nm.entries_insert [of "Evaluations s"] unfolding evaluations_keyed_def run(1) next_id
    by (auto simp: nmap_wf_insert less_SucI)
  ultimately show ?thesis using run(5) by (auto simp: total run(1) prefix1_insert_fresh(2) [OF fresh])
qed

definition demo_evaluation_state :: "demo_ledger funding_state" where
  "demo_evaluation_state =
     demo_state\<lparr>ProjectsDetails := [(0, demo_details\<lparr>pd_status := EvaluationRound\<rparr>)]\<rparr>"

lemma demo_plmc_usd_price: "plmc_usd_price demo_config l = Some (5 * 10 ^ 13)"
  by (simp add: plmc_usd_price_def get_decimals_aware_price_def calculate_decimals_aware_price_def
      demo_config_def plain_arith_def PLMC_FOREIGN_ID_def USD_DECIMALS_def PLMC_DECIMALS_def DIV_def
      checked_pow_def u128_max_def)

lemma demo_evaluation_lookup:
  "get_details 0 demo_evaluation_state = Some (demo_details\<lparr>pd_status := EvaluationRound\<rparr>)"
  "ProjectsMetadata demo_evaluation_state 0 = Some demo_metadata"
  by (simp_all add: demo_evaluation_state_def demo_state_def get_details_def nmap_get_def)

lemma demo_evaluate:
  "\<exists>t. do_evaluate demo_config 7 0 (200 * 10 ^ 6) ''evaluator'' ''cid'' demo_evaluation_state = (Inr (), t)"
  by (simp add: do_evaluate_def prog_simps funding_access_defs Let_def demo_plmc_usd_price checked_sub_def
      demo_evaluation_lookup)
     (simp add: demo_evaluation_state_def prefix2_def demo_defs demo_ledger_defs plain_defs plain_arith_def
       DIV_def u128_max_def)

theorem evaluation_accounting_kept_witness:
  "\<exists>t info. do_evaluate demo_config 7 0 (200 * 10 ^ 6) ''evaluator'' ''cid'' demo_evaluation_state = (Inr (), t) \<and>
     get_details 0 t = Some info \<and> evaluation_accounting demo_config 0 info t \<and> bond_accounting 0 info t \<and>
     length (prefix1 0 (Evaluations t)) = 1 \<and>
     ri_total_bonded_usd (pd_evaluation_round_info info) = 200 * 10 ^ 6"
proof -
  obtain t where t: "do_evaluate demo_config 7 0 (200 * 10 ^ 6) ''evaluator'' ''cid'' demo_evaluation_state =
      (Inr (), t)"
    using demo_evaluate by blast
  have "evaluations_keyed demo_evaluation_state" "NextEvaluationId demo_evaluation_state < u32_max"
    "MaxEvaluationsPerProject demo_config \<le> u32_max" "prefix1 0 (Evaluations demo_evaluation_state) = []"
    by (simp_all add: evaluations_keyed_def demo_evaluation_state_def demo_state_def u32_max_def demo_config_def
        prefix1_def)
  moreover have "evaluation_accounting demo_config 0 (demo_details\<lparr>pd_status := EvaluationRound\<rparr>)
      demo_evaluation_state"
    "bond_accounting 0 (demo_details\<lparr>pd_status := EvaluationRound\<rparr>) demo_evaluation_state"
    by (simp_all add: evaluation_accounting_def bond_accounting_def demo_evaluation_state_def demo_state_def
        demo_details_def prefix1_def)
  ultimately show ?thesis
    using evaluation_accounting_kept [OF _ _ _ demo_evaluation_lookup(1) _ _ _ t] t
    by (auto simp: demo_details_def u128_max_def)
qed

section \<open>Fees\<close>

lemma fees_of_brackets_sum:
  assumes "percent_laws A" "\<forall>(fee, limit)\<in>set bs. fee \<le> 100"
  shows "sum_list (fees_of_brackets A remaining bs) \<le> remaining"
  using assms(2)
proof (induction bs arbitrary: remaining)
  case (Cons b bs)
  obtain fee limit where b: "b = (fee, limit)" by fastforce
  have cut: "percent_mul A fee n \<le> n" for n using assms(1) Cons.prems b by (simp add: percent_laws_def)
  show ?case
  proof (cases "limit \<le> remaining")
    case True
    then show ?thesis using Cons.IH [of "remaining - limit"] Cons.prems cut [of limit]
      by (simp add: b compute_fee_for_bracket_def checked_sub_def)
  next
    case False
    have "sum_list (fees_of_brackets A 0 bs) \<le> 0" using Cons.IH [of 0] Cons.prems by simp
    with False show ?thesis using cut [of remaining]
      by (simp add: b compute_fee_for_bracket_def checked_sub_def del: sum_list_eq_0_iff)
  qed
qed simp

lemma compute_total_fee_bound:
  "percent_laws (arith T) \<Longrightarrow> \<forall>(fee, limit)\<in>set (FeeBrackets T). fee \<le> 100 \<Longrightarrow>
   compute_total_fee_from_brackets T n \<le> n"
  using fees_of_brackets_sum [of "arith T" "FeeBrackets T" n]
  by (simp add: compute_total_fee_from_brackets_def foldl_saturating_add min.coboundedI2)

lemma pq_percent_nearest:
  assumes "perquintill_laws A" "k \<le> 100"
  shows "200 * pq_mul A (pq_from_percent k) n \<le> 2 * k * n + 100"
    and "2 * k * n \<le> 200 * pq_mul A (pq_from_percent k) n + 100"
proof -
  have D: "DIV = 100 * 10 ^ 16" by (simp add: DIV_def)
  have "pq_from_percent k \<le> DIV" using assms(2) by (simp add: pq_from_percent_def D)
  then have "2 * DIV * pq_mul A (pq_from_percent k) n \<le> 2 * (k * 10 ^ 16) * n + DIV"
    and "2 * (k * 10 ^ 16) * n \<le> 2 * DIV * pq_mul A (pq_from_percent k) n + DIV"
    using assms(1) by (auto simp: perquintill_laws_def pq_from_percent_def)
  then show "200 * pq_mul A (pq_from_percent k) n \<le> 2 * k * n + 100"
    and "2 * k * n \<le> 200 * pq_mul A (pq_from_percent k) n + 100"
    unfolding D by simp_all
qed

text \<open>
  The fee of a funding is cut from the tokens sold: it never exceeds them, nor does the fee in USD
  exceed what was raised. Evaluators, liquidity pools and long-term holders together receive the whole
  fee, up to two units of rounding.
\<close>

theorem fee_allocation_split:
  assumes laws: "perquintill_laws (arith T)" "percent_laws (arith T)"
    and "\<forall>(fee, limit)\<in>set (FeeBrackets T). fee \<le> 100"
    and s: "ProjectsMetadata s p = Some md" "get_details p s = Some d"
    and "pd_remaining_contribution_tokens d \<le> md_total_allocation_size md"
  shows "\<exists>fee info lp lth.
    calculate_fee_allocation T p s = (Inr fee, s) \<and>
    generate_evaluator_rewards_info T p s = (Inr info, s) \<and>
    generate_liquidity_pools_and_long_term_holder_rewards T p s = (Inr (lp, lth), s) \<and>
    compute_total_fee_from_brackets T (pd_funding_amount_reached_usd d) \<le> pd_funding_amount_reached_usd d \<and>
    fee \<le> md_total_allocation_size md - pd_remaining_contribution_tokens d \<and>
    rw_early_evaluator_reward_pot info + rw_normal_evaluator_reward_pot info + lp + lth \<le> fee + 2 \<and>
    fee \<le> rw_early_evaluator_reward_pot info + rw_normal_evaluator_reward_pot info + lp + lth + 2"
proof -
  let ?A = "arith T" and ?raised = "pd_funding_amount_reached_usd d"
  let ?sold = "md_total_allocation_size md - pd_remaining_contribution_tokens d"
  let ?fee_usd = "compute_total_fee_from_brackets T ?raised"
  define fee where "fee = pq_mul ?A (pq_from_rational ?A ?fee_usd ?raised) ?sold"
  let ?er = "pq_mul ?A (pq_from_percent 30) fee"
  let ?early = "pq_mul ?A (pq_from_percent 20) ?er" and ?normal = "pq_mul ?A (pq_from_percent 80) ?er"
  let ?lp = "pq_mul ?A (pq_from_percent 50) fee" and ?lth = "pq_mul ?A (pq_from_percent 20) fee"
  have run: "calculate_fee_allocation T p s = (Inr fee, s)"
    using s assms(6) by (simp add: calculate_fee_allocation_def funding_access_defs prog_defs Let_def
        checked_sub_def fee_def)
  have "?fee_usd * DIV div ?raised \<le> DIV" if "?fee_usd < ?raised"
    using that by (metis div_le_mono div_mult_self_is_m less_imp_le mult.commute mult_le_mono1 not_less_zero
        neq0_conv)
  then have "pq_from_rational ?A ?fee_usd ?raised \<le> DIV" using laws(1) by (simp add: perquintill_laws_def)
  then have "fee \<le> ?sold" using laws(1) by (simp add: perquintill_laws_def fee_def)
  moreover have "?fee_usd \<le> ?raised" by (rule compute_total_fee_bound [OF laws(2) assms(3)])
  moreover have "?early + ?normal + ?lp + ?lth \<le> fee + 2" "fee \<le> ?early + ?normal + ?lp + ?lth + 2"
    using pq_percent_nearest [OF laws(1), of 30 fee] pq_percent_nearest [OF laws(1), of 20 ?er]
      pq_percent_nearest [OF laws(1), of 80 ?er] pq_percent_nearest [OF laws(1), of 50 fee]
      pq_percent_nearest [OF laws(1), of 20 fee] by linarith+
  ultimately show ?thesis
    using run s
    by (simp add: generate_evaluator_rewards_info_def generate_liquidity_pools_and_long_term_holder_rewards_def
        funding_access_defs prog_defs Let_def)
qed

section \<open>Rewards\<close>

lemma shares_within_pot:
  assumes "perquintill_laws A" "0 < X" "sum_list (map f xs) \<le> X"
  shows "2 * sum_list (map (\<lambda>x. pq_mul A (pq_from_rational A (f x) X) pot) xs) \<le> 2 * pot + length xs"
proof -
  have "2 * X * DIV * sum_list (map (\<lambda>x. pq_mul A (pq_from_rational A (f x) X) pot) xs) \<le>
      2 * pot * DIV * sum_list (map f xs) + length xs * (X * DIV)"
    using assms(3)
  proof (induction xs)
    case (Cons x xs)
    let ?r = "pq_from_rational A (f x) X"
    have le: "f x \<le> X" "sum_list (map f xs) \<le> X" using Cons.prems by auto
    have r: "X * ?r \<le> f x * DIV" using assms(1) le by (auto simp: perquintill_laws_def mult.commute)
    have "?r \<le> DIV"
      using r le assms(2) by (metis le_trans mult.commute mult_le_cancel1 mult_le_mono2)
    then have "2 * DIV * pq_mul A ?r pot \<le> 2 * ?r * pot + DIV" using assms(1) by (auto simp: perquintill_laws_def)
    then have "X * (2 * DIV * pq_mul A ?r pot) \<le> X * (2 * ?r * pot + DIV)" by (rule mult_left_mono) simp
    also have "\<dots> = 2 * pot * (X * ?r) + X * DIV" by (simp add: distrib_left mult_ac)
    also have "\<dots> \<le> 2 * pot * (f x * DIV) + X * DIV" using mult_left_mono [OF r, of "2 * pot"] by simp
    finally have head: "2 * X * DIV * pq_mul A ?r pot \<le> 2 * pot * DIV * f x + X * DIV" by (simp only: mult_ac)
    from add_mono [OF this Cons.IH [OF le(2)]] show ?case by (simp add: distrib_left distrib_right)
  qed simp
  also have "\<dots> \<le> 2 * pot * DIV * X + length xs * (X * DIV)" using assms(3) by simp
  finally have "X * DIV * (2 * sum_list (map (\<lambda>x. pq_mul A (pq_from_rational A (f x) X) pot) xs)) \<le>
      X * DIV * (2 * pot + length xs)" by (simp add: distrib_left mult_ac)
  then show ?thesis using assms(2) by (simp add: DIV_def)
qed

text \<open>
  C18. The rewards of all evaluators of a project together do not exceed the two pots they are paid from,
  up to one unit of rounding for each evaluation.
\<close>

theorem evaluator_rewards_within_pots:
  assumes "perquintill_laws (arith T)" and "get_details p s = Some d" "evaluation_accounting T p d s"
    and "0 < ri_total_bonded_usd (pd_evaluation_round_info d)" "0 < early_threshold T d"
    and "generate_evaluator_rewards_info T p s = (Inr info, t)"
  shows "sum_list (map (\<lambda>e. calculate_evaluator_reward (arith T) e info) (prefix1 p (Evaluations s))) \<le>
    rw_early_evaluator_reward_pot info + rw_normal_evaluator_reward_pot info +
    length (prefix1 p (Evaluations s))"
proof -
  let ?A = "arith T" and ?es = "prefix1 p (Evaluations s)"
  let ?bonded = "ri_total_bonded_usd (pd_evaluation_round_info d)"
  have info: "rw_normal_evaluator_total_bonded_usd info = ?bonded"
    "rw_early_evaluator_total_bonded_usd info = min ?bonded (early_threshold T d)"
    using assms(2,6)
    by (auto simp: generate_evaluator_rewards_info_def Let_def prog_simps early_threshold_def)
  let ?early = "\<lambda>e. pq_mul ?A (pq_from_rational ?A (ev_early_usd_amount e)
      (rw_early_evaluator_total_bonded_usd info)) (rw_early_evaluator_reward_pot info)"
  let ?weight = "\<lambda>e. saturating_add (ev_late_usd_amount e) (ev_early_usd_amount e)"
  let ?normal = "\<lambda>e. pq_mul ?A (pq_from_rational ?A (?weight e)
      (rw_normal_evaluator_total_bonded_usd info)) (rw_normal_evaluator_reward_pot info)"
  have "sum_list (map ?weight ?es) \<le> sum_list (map (\<lambda>e. ev_early_usd_amount e + ev_late_usd_amount e) ?es)"
    by (rule sum_list_le_each) (simp add: saturating_add_def add.commute)
  then have "sum_list (map ?weight ?es) \<le> ?bonded"
    and "sum_list (map ev_early_usd_amount ?es) \<le> min ?bonded (early_threshold T d)"
    using assms(3) by (simp_all add: evaluation_accounting_def Let_def)
  then have "2 * sum_list (map ?early ?es) \<le> 2 * rw_early_evaluator_reward_pot info + length ?es"
    and "2 * sum_list (map ?normal ?es) \<le> 2 * rw_normal_evaluator_reward_pot info + length ?es"
    using assms(4,5) unfolding info by (intro shares_within_pot [OF assms(1)]; simp)+
  moreover have "sum_list (map (\<lambda>e. calculate_evaluator_reward ?A e info) ?es) \<le>
      sum_list (map (\<lambda>e. ?early e + ?normal e) ?es)"
    by (rule sum_list_le_each) (simp add: calculate_evaluator_reward_def saturating_add_def)
  moreover have "sum_list (map (\<lambda>e. ?early e + ?normal e) ?es) =
      sum_list (map ?early ?es) + sum_list (map ?normal ?es)" by (rule sum_list_addf)
  ultimately show ?thesis by linarith
qed

definition demo_evaluation :: "nat \<Rightarrow> account \<Rightarrow> nat \<Rightarrow> nat \<Rightarrow> evaluation_info" where
  "demo_evaluation i who early late =
     \<lparr>ev_id = i, ev_did = ''evaluator'', ev_project_id = 0, ev_evaluator = who,
      ev_original_plmc_bond = 100, ev_current_plmc_bond = 100, ev_early_usd_amount = early,
      ev_late_usd_amount = late, ev_when = 1\<rparr>"

definition demo_evaluated_details :: project_details where
  "demo_evaluated_details = demo_details\<lparr>pd_evaluation_round_info :=
     (pd_evaluation_round_info demo_details)\<lparr>ri_total_bonded_usd := 300 * 10 ^ 6\<rparr>,
     pd_funding_amount_reached_usd := 500 * 10 ^ 6\<rparr>"

definition demo_evaluated_state :: "demo_ledger funding_state" where
  "demo_evaluated_state =
     demo_state\<lparr>ProjectsDetails := [(0, demo_evaluated_details)],
       Evaluations := [((0, 7, 0), demo_evaluation 0 7 (60 * 10 ^ 6) 0),
                       ((0, 8, 1), demo_evaluation 1 8 (40 * 10 ^ 6) (200 * 10 ^ 6))],
       NextEvaluationId := 2\<rparr>"

theorem evaluator_rewards_within_pots_witness:
  "\<exists>info. generate_evaluator_rewards_info demo_config 0 demo_evaluated_state = (Inr info, demo_evaluated_state) \<and>
     sum_list (map (\<lambda>e. calculate_evaluator_reward plain_arith e info)
       (prefix1 0 (Evaluations demo_evaluated_state))) \<le>
     rw_early_evaluator_reward_pot info + rw_normal_evaluator_reward_pot info + 2"
proof -
  have d: "get_details 0 demo_evaluated_state = Some demo_evaluated_details"
    "ProjectsMetadata demo_evaluated_state 0 = Some demo_metadata" "arith demo_config = plain_arith"
    by (simp_all add: demo_evaluated_state_def get_details_def nmap_get_def demo_state_def demo_config_def)
  then obtain info where run:
    "generate_evaluator_rewards_info demo_config 0 demo_evaluated_state = (Inr info, demo_evaluated_state)"
    by (auto simp: generate_evaluator_rewards_info_def calculate_fee_allocation_def prog_defs
        funding_access_defs Let_def)
  have th: "early_threshold demo_config demo_evaluated_details = 100 * 10 ^ 6"
    by (simp add: early_threshold_def demo_config_def demo_evaluated_details_def demo_details_def plain_arith_def)
  have "evaluation_accounting demo_config 0 demo_evaluated_details demo_evaluated_state"
    using th by (simp add: evaluation_accounting_def demo_evaluated_details_def demo_evaluated_state_def
        prefix1_def demo_evaluation_def)
  with evaluator_rewards_within_pots [OF _ d(1) _ _ _ run] plain_perquintill_laws d(3) th run
  show ?thesis by (auto simp: prefix1_def demo_evaluated_state_def demo_evaluated_details_def)
qed

end
