(* ===== verification/Funding_Auction_Props.thy ===== *)
theory Funding_Auction_Props
  imports Funding_Demo
begin

text \<open>
  Properties of the auction: the order of the bids, the decision which bids win, the weighted average
  price and the bidding loop. Bids and migrations are sorted by a comparison function that meets the
  laws of \<open>comparator\<close>.
\<close>

section \<open>The order of the bids\<close>

lemma bid_cmp_Greater:
  "bid_cmp a b = Greater \<longleftrightarrow>
   bid_original_ct_usd_price b < bid_original_ct_usd_price a \<or>
   bid_original_ct_usd_price a = bid_original_ct_usd_price b \<and> bid_id a < bid_id b"
  by (auto simp: bid_cmp_def nat_cmp_def)

interpretation bid_order: comparator "\<lambda>a b. bid_cmp b a"
  by unfold_locales (auto simp: bid_cmp_Greater)

lemma migration_origin_cmp_Greater:
  "migration_origin_cmp a b = Greater \<longleftrightarrow>
   (let i = participation_type_index (mo_participation_type a);
        j = participation_type_index (mo_participation_type b)
    in j < i \<or> i = j \<and> mo_id b < mo_id a)"
proof -
  have "participation_type_index x = participation_type_index y \<longleftrightarrow> x = y" for x y
    by (cases x; cases y) simp_all
  then show ?thesis by (auto simp: migration_origin_cmp_def Let_def)
qed

interpretation migration_order: comparator migration_origin_cmp
  by unfold_locales (auto simp: migration_origin_cmp_Greater Let_def)

section \<open>Deciding the bids\<close>

text \<open>The decisions without their storage writes.\<close>

fun decide_list :: "nat \<Rightarrow> nat \<Rightarrow> bid_info list \<Rightarrow> bid_info list \<times> nat" where
  "decide_list alloc acc [] = ([], acc)"
| "decide_list alloc acc (b # bs) =
     (case decide_bid alloc acc b of (b', acc') \<Rightarrow>
      case decide_list alloc acc' bs of (ds, tot) \<Rightarrow> (b' # ds, tot))"

lemma decide_bid_cases:
  assumes "acc \<le> alloc" "alloc \<le> u128_max"
  shows "decide_bid alloc acc b =
    (if acc = alloc then (b\<lparr>bid_bstatus := Rejected\<rparr>, acc)
     else if bid_original_ct_amount b \<le> alloc - acc
     then (b\<lparr>bid_bstatus := Accepted\<rparr>, acc + bid_original_ct_amount b)
     else (b\<lparr>bid_bstatus := PartiallyAccepted (alloc - acc)\<rparr>, alloc))"
  using assms by (auto simp: decide_bid_def Let_def saturating_add_def)

lemma decide_list_total:
  assumes "acc \<le> alloc" "alloc \<le> u128_max"
  shows "snd (decide_list alloc acc bs) = min alloc (acc + sum_list (map bid_original_ct_amount bs)) \<and>
    acc + sum_list (map bid_final_ct_amount (fst (decide_list alloc acc bs))) =
      min alloc (acc + sum_list (map bid_original_ct_amount bs))"
  using assms
proof (induction bs arbitrary: acc)
  case (Cons b bs)
  let ?acc' = "snd (decide_bid alloc acc b)"
  have "?acc' \<le> alloc"
    and final: "bid_final_ct_amount (fst (decide_bid alloc acc b)) + acc = ?acc'"
    and min: "min alloc (?acc' + n) = min alloc (acc + (bid_original_ct_amount b + n))" for n
    using Cons.prems by (auto simp: decide_bid_cases bid_final_ct_amount_def)
  from Cons.IH [OF this(1) Cons.prems(2)] min final show ?case
    by (simp add: case_prod_unfold)
qed simp

lemma decide_list_bids:
  "map (\<lambda>b. b\<lparr>bid_bstatus := YetUnknown\<rparr>) (fst (decide_list alloc acc bs)) =
   map (\<lambda>b. b\<lparr>bid_bstatus := YetUnknown\<rparr>) bs"
  by (induction bs arbitrary: acc) (auto simp: case_prod_unfold decide_bid_def Let_def)

lemma decide_list_none_left:
  "alloc \<le> acc \<Longrightarrow> \<forall>d\<in>set (fst (decide_list alloc acc bs)). \<not> is_accepted d"
  by (induction bs) (auto simp: case_prod_unfold decide_bid_def Let_def is_accepted_def)

lemma decide_list_priority:
  assumes "acc \<le> alloc" "alloc \<le> u128_max"
  shows "sorted_wrt (\<lambda>d e. is_accepted e \<longrightarrow> bid_bstatus d = Accepted) (fst (decide_list alloc acc bs))"
  using assms
proof (induction bs arbitrary: acc)
  case (Cons b bs)
  consider "acc = alloc" | "acc < alloc" "bid_original_ct_amount b \<le> alloc - acc"
    | "acc < alloc" "alloc - acc < bid_original_ct_amount b"
    using Cons.prems(1) by linarith
  then show ?case
  proof cases
    case 2
    then show ?thesis
      using Cons.IH [of "acc + bid_original_ct_amount b"] Cons.prems
      by (simp add: decide_bid_cases case_prod_unfold)
  qed (use Cons decide_list_none_left [of alloc alloc bs] in
      \<open>auto simp: decide_bid_cases case_prod_unfold\<close>)
qed simp

section \<open>The stored decision\<close>

definition bid_key :: "project_id \<Rightarrow> bid_info \<Rightarrow> participation_key" where
  "bid_key p b = (p, bid_bidder b, bid_id b)"

text \<open>Every bid is stored under its own project, bidder and id.\<close>

definition bids_keyed :: "('l, 'z) funding_state_scheme \<Rightarrow> bool" where
  "bids_keyed s \<longleftrightarrow> nmap_wf (Bids s) \<and> (\<forall>e\<in>set (Bids s). fst e = bid_key (bid_project_id (snd e)) (snd e))"

definition store_bids ::
    "('l, 'c) funding_config_scheme \<Rightarrow> project_id \<Rightarrow> bid_info list \<Rightarrow> (participation_key, bid_info) nmap \<Rightarrow>
     (participation_key, bid_info) nmap" where
  "store_bids T p ds m = foldl (\<lambda>m d. nmap_insert (hash_participation T) (bid_key p d) d m) m ds"

lemma store_bids_simps [simp]:
  "store_bids T p [] m = m"
  "store_bids T p (d # ds) m =
   store_bids T p ds (nmap_insert (hash_participation T) (bid_key p d) d m)"
  by (simp_all add: store_bids_def)

lemma decide_bids_run:
  "\<exists>t. decide_bids T p alloc acc bs s = (Inr (decide_list alloc acc bs), t) \<and>
     Bids t = store_bids T p (fst (decide_list alloc acc bs)) (Bids s) \<and>
     ProjectsDetails t = ProjectsDetails s \<and> ext t = ext s \<and>
     (\<forall>q d. DidWithWinningBids t (q, d) \<longleftrightarrow> DidWithWinningBids s (q, d) \<or>
        q = p \<and> (\<exists>b\<in>set (fst (decide_list alloc acc bs)). is_accepted b \<and> bid_did b = d))"
proof (induction bs arbitrary: acc s)
  case Nil
  then show ?case by (simp add: ok_def)
next
  case (Cons b bs)
  obtain b' acc' where b': "decide_bid alloc acc b = (b', acc')" by fastforce
  obtain ds tot where ds: "decide_list alloc acc' bs = (ds, tot)" by fastforce
  let ?u = "s\<lparr>DidWithWinningBids := (if is_accepted b' then (DidWithWinningBids s)((p, bid_did b') := True)
        else DidWithWinningBids s),
      Bids := nmap_insert (hash_participation T) (bid_key p b') b' (Bids s)\<rparr>"
  obtain t where t: "decide_bids T p alloc acc' bs ?u = (Inr (ds, tot), t)"
      "Bids t = store_bids T p ds (Bids ?u)" "ProjectsDetails t = ProjectsDetails ?u" "ext t = ext ?u"
      "\<forall>q d. DidWithWinningBids t (q, d) \<longleftrightarrow> DidWithWinningBids ?u (q, d) \<or>
        q = p \<and> (\<exists>b\<in>set ds. is_accepted b \<and> bid_did b = d)"
    using Cons.IH [of acc' ?u] ds by auto
  have "decide_bids T p alloc acc (b # bs) s = (Inr (b' # ds, tot), t)"
    using t(1)
    by (cases "is_accepted b'") (simp_all add: b' mark_winning_def insert_bid_def bid_key_def prog_defs)
  then show ?case using t(2-) by (auto simp: b' ds)
qed

lemma nmap_get_store_bids:
  "distinct (map (bid_key p) ds) \<Longrightarrow>
   nmap_get (store_bids T p ds m) k =
     (case map_of (map (\<lambda>d. (bid_key p d, d)) ds) k of Some d \<Rightarrow> Some d | None \<Rightarrow> nmap_get m k)"
proof (induction ds arbitrary: m)
  case (Cons d ds)
  then show ?case
    by (auto simp: nmap_get_insert map_of_eq_None_iff image_iff split: option.splits dest!: map_of_SomeD)
qed simp

lemma nmap_wf_store_bids: "nmap_wf m \<Longrightarrow> nmap_wf (store_bids T p ds m)"
  by (induction ds arbitrary: m) (auto simp: nmap_wf_insert)

lemma prefix1_keys:
  assumes "bids_keyed s"
  shows "distinct (map (bid_key p) (prefix1 p (Bids s)))"
    and "b \<in> set (prefix1 p (Bids s)) \<longleftrightarrow> nmap_get (Bids s) (bid_key p b) = Some b"
proof -
  have keys: "map (bid_key p) (prefix1 p (Bids s)) = map fst (filter (\<lambda>e. fst (fst e) = p) (Bids s))"
    using assms by (auto simp: prefix1_def bids_keyed_def bid_key_def)
  show "distinct (map (bid_key p) (prefix1 p (Bids s)))"
    using assms unfolding keys by (auto simp: bids_keyed_def nmap_wf_def distinct_map_filter)
  have "b \<in> set (prefix1 p (Bids s)) \<longleftrightarrow> (bid_key p b, b) \<in> set (Bids s)"
    using assms by (fastforce simp: prefix1_def bids_keyed_def bid_key_def image_iff)
  then show "b \<in> set (prefix1 p (Bids s)) \<longleftrightarrow> nmap_get (Bids s) (bid_key p b) = Some b"
    using assms by (simp add: nmap_get_in_set bids_keyed_def)
qed

definition decided_bids :: "project_id \<Rightarrow> nat \<Rightarrow> ('l, 'z) funding_state_scheme \<Rightarrow> bid_info list" where
  "decided_bids p alloc s =
     fst (decide_list alloc 0 (sort_by (\<lambda>a b. bid_cmp b a) (prefix1 p (Bids s))))"

lemma decide_list_map:
  assumes "\<And>b st. f (b\<lparr>bid_bstatus := st\<rparr>) = f b"
  shows "map f (fst (decide_list alloc acc bs)) = map f bs"
proof -
  have "map f (map (\<lambda>b. b\<lparr>bid_bstatus := YetUnknown\<rparr>) (fst (decide_list alloc acc bs))) =
      map f (map (\<lambda>b. b\<lparr>bid_bstatus := YetUnknown\<rparr>) bs)"
    by (simp only: decide_list_bids)
  then show ?thesis using assms by (simp add: comp_def)
qed

lemma mset_map_sorted_bids:
  "mset (map f (sort_by (\<lambda>a b. bid_cmp b a) bs)) = mset (map f bs)"
  by (simp add: bid_order.mset_sort_by)

lemma decided_keys:
  assumes "bids_keyed s"
  shows "distinct (map (bid_key p) (decided_bids p alloc s))"
    and "set (map (bid_key p) (decided_bids p alloc s)) = set (map (bid_key p) (prefix1 p (Bids s)))"
proof -
  have keys: "map (bid_key p) (decided_bids p alloc s) =
      map (bid_key p) (sort_by (\<lambda>a b. bid_cmp b a) (prefix1 p (Bids s)))"
    unfolding decided_bids_def by (rule decide_list_map) (simp add: bid_key_def)
  show "distinct (map (bid_key p) (decided_bids p alloc s))"
    unfolding keys using prefix1_keys(1) [OF assms, of p] mset_map_sorted_bids
    by (metis mset_eq_imp_distinct_iff)
  show "set (map (bid_key p) (decided_bids p alloc s)) = set (map (bid_key p) (prefix1 p (Bids s)))"
    unfolding keys using mset_map_sorted_bids by (metis mset_eq_setD)
qed

lemma decide_winning_bids_Inr:
  assumes "decide_winning_bids T p alloc wap s = (Inr r, t)"
  obtains info usd where "get_details p s = Some info"
    and "auction_usd (arith T) wap (filter is_accepted (decided_bids p alloc s)) = Some usd"
    and "Bids t = store_bids T p (decided_bids p alloc s) (Bids s)"
    and "get_details p t = Some (info\<lparr>
        pd_remaining_contribution_tokens := pd_remaining_contribution_tokens info -
          snd (decide_list alloc 0 (sort_by (\<lambda>a b. bid_cmp b a) (prefix1 p (Bids s)))),
        pd_funding_amount_reached_usd := saturating_add (pd_funding_amount_reached_usd info) usd,
        pd_weighted_average_price := Some wap\<rparr>)"
    and "r = (length (filter is_accepted (decided_bids p alloc s)),
              length (filter (\<lambda>b. \<not> is_accepted b) (decided_bids p alloc s)))"
    and "\<And>d. (\<exists>b\<in>set (decided_bids p alloc s). is_accepted b \<and> bid_did b = d) \<Longrightarrow>
      DidWithWinningBids t (p, d)"
proof -
  let ?bs = "sort_by (\<lambda>a b. bid_cmp b a) (prefix1 p (Bids s))"
  obtain u where u: "decide_bids T p alloc 0 ?bs s = (Inr (decide_list alloc 0 ?bs), u)"
      "Bids u = store_bids T p (decided_bids p alloc s) (Bids s)" "ProjectsDetails u = ProjectsDetails s"
      "\<forall>q d. DidWithWinningBids u (q, d) \<longleftrightarrow> DidWithWinningBids s (q, d) \<or>
        q = p \<and> (\<exists>b\<in>set (decided_bids p alloc s). is_accepted b \<and> bid_did b = d)"
    using decide_bids_run [of T p alloc 0 ?bs s] unfolding decided_bids_def by blast
  have det: "get_details p u = get_details p s" using u(3) by (simp add: get_details_def)
  obtain ds tot where ds: "decide_list alloc 0 ?bs = (ds, tot)" by fastforce
  then have dd: "decided_bids p alloc s = ds" by (simp add: decided_bids_def)
  from assms u(1) show thesis
    unfolding decide_winning_bids_def sbind_Inr gets_Inr Let_def
    by (elim exE conjE, hypsubst)
       (auto simp: ds prog_simps insert_details_def det get_details_insert dd u(2,4) intro!: that)
qed

lemma store_decided_prefix:
  assumes keyed: "bids_keyed s" and t: "Bids t = store_bids T p (decided_bids p alloc s) (Bids s)"
  shows "set (prefix1 p (Bids t)) = set (decided_bids p alloc s)"
    and "sum_list (map f (prefix1 p (Bids t))) = (sum_list (map f (decided_bids p alloc s)) :: nat)"
    and "b \<in> set (decided_bids p alloc s) \<longleftrightarrow> nmap_get (Bids t) (bid_key p b) = Some b"
proof -
  let ?ds = "decided_bids p alloc s"
  have dist: "distinct (map (bid_key p) ?ds)" by (rule decided_keys [OF keyed])
  have get: "nmap_get (Bids t) k =
      (case map_of (map (\<lambda>d. (bid_key p d, d)) ?ds) k of Some d \<Rightarrow> Some d | None \<Rightarrow> nmap_get (Bids s) k)" for k
    unfolding t by (rule nmap_get_store_bids [OF dist])
  have wf: "nmap_wf (Bids t)"
    using keyed unfolding t by (simp add: bids_keyed_def nmap_wf_store_bids)
  have map: "map_of (map (\<lambda>d. (bid_key p d, d)) ?ds) k = Some d \<longleftrightarrow> d \<in> set ?ds \<and> k = bid_key p d" for k d
    using dist by (auto simp: map_of_eq_Some_iff comp_def)
  have none: "map_of (map (\<lambda>d. (bid_key p d, d)) ?ds) k = None \<Longrightarrow> nmap_get (Bids s) k = Some b \<Longrightarrow>
      fst k \<noteq> p" for k b
  proof
    assume "map_of (map (\<lambda>d. (bid_key p d, d)) ?ds) k = None" "nmap_get (Bids s) k = Some b" "fst k = p"
    moreover from this have "b \<in> set (prefix1 p (Bids s))" "k = bid_key p b"
      using keyed by (force simp: prefix1_def bids_keyed_def nmap_get_in_set bid_key_def)+
    ultimately show False
      using decided_keys(2) [OF keyed, of p alloc] by (auto simp: map_of_eq_None_iff image_image)
  qed
  have entry: "(k, b) \<in> set (Bids t) \<and> fst k = p \<longleftrightarrow> b \<in> set ?ds \<and> k = bid_key p b" for k b
    unfolding nmap_get_in_set [OF wf, symmetric] get
    using none [of k] map [of k b] by (auto split: option.splits simp: bid_key_def map)
  have "b \<in> set (prefix1 p (Bids t)) \<longleftrightarrow> (\<exists>k. (k, b) \<in> set (Bids t) \<and> fst k = p)" for b
    by (force simp: prefix1_def)
  with entry show iff: "set (prefix1 p (Bids t)) = set ?ds" by blast
  show "b \<in> set ?ds \<longleftrightarrow> nmap_get (Bids t) (bid_key p b) = Some b"
    unfolding nmap_get_in_set [OF wf] using entry [of "bid_key p b" b] by (simp add: bid_key_def)
  have "distinct (prefix1 p (Bids t))"
  proof -
    have "distinct (filter (\<lambda>e. fst (fst e) = p) (Bids t))"
      using wf by (simp add: nmap_wf_def distinct_map)
    moreover have "inj_on snd (set (filter (\<lambda>e. fst (fst e) = p) (Bids t)))"
    proof (rule inj_onI)
      fix x y
      assume *: "x \<in> set (filter (\<lambda>e. fst (fst e) = p) (Bids t))"
        "y \<in> set (filter (\<lambda>e. fst (fst e) = p) (Bids t))" "snd x = snd y"
      then obtain k k' b where xy: "x = (k, b)" "y = (k', b)" by (metis prod.collapse)
      with * entry [of k b] entry [of k' b] show "x = y" by auto
    qed
    ultimately show ?thesis by (simp add: prefix1_def distinct_map)
  qed
  moreover have "distinct ?ds" using dist by (simp add: distinct_map)
  ultimately show "sum_list (map f (prefix1 p (Bids t))) = sum_list (map f ?ds)"
    using iff by (simp add: sum_list_distinct_conv_sum_set)
qed

lemma decide_winning_bids_succeeds:
  assumes "get_details p s = Some info"
    and "auction_usd (arith T) wap (filter is_accepted (decided_bids p alloc s)) = Some usd"
  obtains r t where "decide_winning_bids T p alloc wap s = (Inr r, t)"
proof -
  let ?bs = "sort_by (\<lambda>a b. bid_cmp b a) (prefix1 p (Bids s))"
  obtain u where u: "decide_bids T p alloc 0 ?bs s = (Inr (decide_list alloc 0 ?bs), u)"
      "ProjectsDetails u = ProjectsDetails s"
    using decide_bids_run [of T p alloc 0 ?bs s] by blast
  obtain ds tot where ds: "decide_list alloc 0 ?bs = (ds, tot)" by fastforce
  have "get_details p u = Some info" using u(2) assms(1) by (simp add: get_details_def)
  with assms(2) u(1) show thesis
    by (intro that) (simp add: decide_winning_bids_def details_of_def insert_details_def decided_bids_def ds prog_defs)
qed

lemma demo_sorted:
  "sort_by (\<lambda>a b. bid_cmp b a) (prefix1 0 (Bids demo_state)) =
   [demo_bid 1 6 400 (2 * DIV), demo_bid 0 5 300 DIV, demo_bid 2 5 500 DIV]"
  by (simp add: sort_by_def prefix1_def demo_state_def bid_cmp_def demo_bid_def nat_cmp_def DIV_def)

lemma demo_decided:
  "decided_bids 0 1000 demo_state =
   [(demo_bid 1 6 400 (2 * DIV))\<lparr>bid_bstatus := Accepted\<rparr>, (demo_bid 0 5 300 DIV)\<lparr>bid_bstatus := Accepted\<rparr>,
    (demo_bid 2 5 500 DIV)\<lparr>bid_bstatus := PartiallyAccepted 300\<rparr>]"
  by (simp add: decided_bids_def demo_sorted decide_bid_def demo_bid_def u_defs)

lemma demo_decision_run: obtains r t where "decide_winning_bids demo_config 0 1000 DIV demo_state = (Inr r, t)"
proof -
  have "get_details 0 demo_state = Some demo_details"
    by (simp add: get_details_def demo_state_def nmap_get_def)
  moreover have "auction_usd (arith demo_config) DIV (filter is_accepted (decided_bids 0 1000 demo_state)) =
      Some 1000"
    by (simp add: demo_decided demo_bid_def is_accepted_def auction_usd_def demo_config_def plain_arith_def
        final_price_def bid_final_ct_amount_def DIV_def u_defs)
  ultimately show thesis using that decide_winning_bids_succeeds by metis
qed

lemma demo_bids_keyed: "bids_keyed demo_state"
  by (simp add: bids_keyed_def bid_key_def demo_state_def demo_bid_def nmap_wf_def)

text \<open>
  C1. The auction sells exactly the smaller of its allocation and what was bid for: after the
  decision the final amounts of the project's bids add up to that minimum, and the tokens that
  remain for sale are reduced by the same amount.
\<close>

theorem auction_sells_min_of_allocation_and_demand:
  assumes "bids_keyed s" "alloc \<le> u128_max"
    and "decide_winning_bids T p alloc wap s = (Inr r, t)"
  shows "sum_list (map bid_final_ct_amount (prefix1 p (Bids t))) =
      min alloc (sum_list (map bid_original_ct_amount (prefix1 p (Bids s)))) \<and>
    (\<exists>info info'. get_details p s = Some info \<and> get_details p t = Some info' \<and>
      pd_remaining_contribution_tokens info' = pd_remaining_contribution_tokens info -
        min alloc (sum_list (map bid_original_ct_amount (prefix1 p (Bids s)))) \<and>
      pd_weighted_average_price info' = Some wap)"
proof -
  let ?bs = "sort_by (\<lambda>a b. bid_cmp b a) (prefix1 p (Bids s))"
  from assms(3) obtain info usd where run: "get_details p s = Some info"
      "Bids t = store_bids T p (decided_bids p alloc s) (Bids s)"
      "get_details p t = Some (info\<lparr>
        pd_remaining_contribution_tokens :=
          pd_remaining_contribution_tokens info - snd (decide_list alloc 0 ?bs),
        pd_funding_amount_reached_usd := saturating_add (pd_funding_amount_reached_usd info) usd,
        pd_weighted_average_price := Some wap\<rparr>)"
    by (rule decide_winning_bids_Inr)
  have "sum_list (map bid_original_ct_amount ?bs) =
      sum_list (map bid_original_ct_amount (prefix1 p (Bids s)))"
    using mset_map_sorted_bids by (metis sum_mset_sum_list)
  with decide_list_total [of 0 alloc ?bs] assms(2)
    store_decided_prefix(2) [OF assms(1) run(2), of bid_final_ct_amount]
  show ?thesis using run by (simp add: decided_bids_def)
qed

theorem auction_sells_min_of_allocation_and_demand_witness:
  "\<exists>r t. decide_winning_bids demo_config 0 1000 DIV demo_state = (Inr r, t) \<and>
     sum_list (map bid_final_ct_amount (prefix1 0 (Bids t))) = 1000"
proof -
  obtain r t where t: "decide_winning_bids demo_config 0 1000 DIV demo_state = (Inr r, t)"
    by (rule demo_decision_run)
  have "sum_list (map bid_original_ct_amount (prefix1 0 (Bids demo_state))) = 1200"
    by (simp add: prefix1_def demo_state_def demo_bid_def)
  with auction_sells_min_of_allocation_and_demand [OF demo_bids_keyed _ t] t
  show ?thesis by (simp add: u128_max_def)
qed

text \<open>
  C39. Price-time priority: when a bid wins tokens, wholly or in part, every bid of the project at a
  higher price, and every earlier bid at the same price, is accepted in full. So at most one bid is
  accepted in part, and no bid is served before a better one.
\<close>

theorem auction_price_priority:
  assumes keyed: "bids_keyed s" and "alloc \<le> u128_max"
    and run: "decide_winning_bids T p alloc wap s = (Inr r, t)"
    and "a \<in> set (prefix1 p (Bids t))" "b \<in> set (prefix1 p (Bids t))"
    and "bid_original_ct_usd_price b < bid_original_ct_usd_price a \<or>
      bid_original_ct_usd_price a = bid_original_ct_usd_price b \<and> bid_id a < bid_id b"
    and "is_accepted b"
  shows "bid_bstatus a = Accepted"
proof -
  let ?bs = "sort_by (\<lambda>a b. bid_cmp b a) (prefix1 p (Bids s))" and ?ds = "decided_bids p alloc s"
  from run obtain "Bids t = store_bids T p ?ds (Bids s)" by (rule decide_winning_bids_Inr)
  from store_decided_prefix(1) [OF keyed this] assms(4,5)
  obtain i j where ij: "i < length ?ds" "a = ?ds ! i" "j < length ?ds" "b = ?ds ! j"
    by (metis in_set_conv_nth)
  have eqs: "map bid_original_ct_usd_price ?ds = map bid_original_ct_usd_price ?bs"
    "map bid_id ?ds = map bid_id ?bs"
    unfolding decided_bids_def by (rule decide_list_map; simp)+
  have len: "length ?ds = length ?bs" using arg_cong [OF eqs(2), of length] by simp
  have same: "bid_original_ct_usd_price (?ds ! k) = bid_original_ct_usd_price (?bs ! k)"
    "bid_id (?ds ! k) = bid_id (?bs ! k)" if "k < length ?ds" for k
    using arg_cong [OF eqs(1), of "\<lambda>xs. xs ! k"] arg_cong [OF eqs(2), of "\<lambda>xs. xs ! k"] that len
    by simp_all
  have above: "bid_cmp (?bs ! i) (?bs ! j) = Greater"
    using assms(6) same [OF ij(1)] same [OF ij(3)] ij(2,4) by (simp add: bid_cmp_Greater)
  have sorted: "sorted_wrt (\<lambda>a b. bid_cmp b a \<noteq> Greater) ?bs" by (rule bid_order.sorted_sort_by)
  have "i < j"
  proof (rule ccontr)
    assume "\<not> i < j"
    moreover have "i \<noteq> j" using assms(6) ij(2,4) by auto
    ultimately have "j < i" by simp
    from sorted_wrt_nth_less [OF sorted this] ij(1) len above show False by simp
  qed
  have "sorted_wrt (\<lambda>d e. is_accepted e \<longrightarrow> bid_bstatus d = Accepted) ?ds"
    unfolding decided_bids_def using assms(2) by (intro decide_list_priority) simp_all
  from sorted_wrt_nth_less [OF this \<open>i < j\<close> ij(3)] show ?thesis using ij assms(7) by simp
qed

theorem auction_price_priority_witness:
  "\<exists>r t a. decide_winning_bids demo_config 0 1000 DIV demo_state = (Inr r, t) \<and>
     a \<in> set (prefix1 0 (Bids t)) \<and> bid_id a = 0 \<and> bid_bstatus a = Accepted"
proof -
  obtain r t where t: "decide_winning_bids demo_config 0 1000 DIV demo_state = (Inr r, t)"
    by (rule demo_decision_run)
  then obtain "Bids t = store_bids demo_config 0 (decided_bids 0 1000 demo_state) (Bids demo_state)"
    by (rule decide_winning_bids_Inr)
  from store_decided_prefix(1) [OF demo_bids_keyed this] demo_decided
  have "set (prefix1 0 (Bids t)) = {(demo_bid 1 6 400 (2 * DIV))\<lparr>bid_bstatus := Accepted\<rparr>,
      (demo_bid 0 5 300 DIV)\<lparr>bid_bstatus := Accepted\<rparr>,
      (demo_bid 2 5 500 DIV)\<lparr>bid_bstatus := PartiallyAccepted 300\<rparr>}" by simp
  with auction_price_priority [OF demo_bids_keyed _ t, of "(demo_bid 0 5 300 DIV)\<lparr>bid_bstatus := Accepted\<rparr>"
      "(demo_bid 2 5 500 DIV)\<lparr>bid_bstatus := PartiallyAccepted 300\<rparr>"] t
  show ?thesis by (fastforce simp: u128_max_def is_accepted_def demo_bid_def)
qed

end
