(* ===== verification/Funding_Lifecycle_Props.thy ===== *)
theory Funding_Lifecycle_Props
  imports Funding_Reward_Props Funding_Auction_Props
begin

text \<open>
  The life of a project as a state machine. Every extrinsic of the funding pallet, the two
  that take the answers to its queries included, is a \<open>funding_call\<close>, and the theorem on the lifecycle
  says which changes of a project's status a call can make; the two handlers of the relay chain's HRMP
  messages, which are not extrinsics, have a theorem of their own. The properties that follow use it or show where the code leaves it: ending
  the funding of a sold-out project again, and confirming one off-chain migration twice.
\<close>

section \<open>Calls\<close>

datatype funding_call =
    CreateProject origin jwt project_metadata
  | RemoveProject origin jwt project_id
  | EditProject origin jwt project_id project_metadata
  | StartEvaluation origin jwt project_id
  | Evaluate origin jwt project_id nat
  | EndEvaluation origin project_id
  | Bid origin jwt project_id nat nat accepted_funding_asset
  | EndAuction origin project_id
  | Contribute origin jwt project_id nat nat accepted_funding_asset
  | EndFunding origin project_id
  | StartSettlement origin project_id
  | SettleEvaluation origin project_id account nat
  | SettleBid origin project_id account nat
  | SettleContribution origin project_id account nat
  | MarkSettled origin project_id
  | StartOffchainMigration origin jwt project_id
  | ConfirmOffchainMigration origin project_id account
  | StartPalletMigration origin jwt project_id nat
  | StartReadinessCheck origin jwt project_id
  | ReadinessResponse "location option" nat xcm_response
  | SendPalletMigration origin project_id account
  | ConfirmPalletMigrations "location option" nat xcm_response
  | MarkMigrationFinished origin project_id

fun run_call :: "('l, 'c) funding_config_scheme \<Rightarrow> funding_call \<Rightarrow> ('l, 'z, unit) fprog" where
  "run_call T (CreateProject orig j md) = create_project T orig j md"
| "run_call T (RemoveProject orig j p) = remove_project T orig j p"
| "run_call T (EditProject orig j p md) = edit_project T orig j p md"
| "run_call T (StartEvaluation orig j p) = start_evaluation T orig j p"
| "run_call T (Evaluate orig j p usd) = evaluate T orig j p usd"
| "run_call T (EndEvaluation orig p) = end_evaluation T orig p"
| "run_call T (Bid orig j p n m a) = sbind (bid T orig j p n m a) (\<lambda>_. ok ())"
| "run_call T (EndAuction orig p) = sbind (end_auction T orig p) (\<lambda>_. ok ())"
| "run_call T (Contribute orig j p n m a) = contribute T orig j p n m a"
| "run_call T (EndFunding orig p) = end_funding T orig p"
| "run_call T (StartSettlement orig p) = start_settlement T orig p"
| "run_call T (SettleEvaluation orig p a i) = settle_evaluation T orig p a i"
| "run_call T (SettleBid orig p a i) = settle_bid T orig p a i"
| "run_call T (SettleContribution orig p a i) = settle_contribution T orig p a i"
| "run_call T (MarkSettled orig p) = mark_project_as_settled T orig p"
| "run_call T (StartOffchainMigration orig j p) = start_offchain_migration T orig j p"
| "run_call T (ConfirmOffchainMigration orig p a) = confirm_offchain_migration T orig p a"
| "run_call T (StartPalletMigration orig j p para) = start_pallet_migration T orig j p para"
| "run_call T (StartReadinessCheck orig j p) = start_pallet_migration_readiness_check T orig j p"
| "run_call T (ReadinessResponse loc q r) = pallet_migration_readiness_response T loc q r"
| "run_call T (SendPalletMigration orig p a) = send_pallet_migration_for T orig p a"
| "run_call T (ConfirmPalletMigrations loc q r) = confirm_pallet_migrations T loc q r"
| "run_call T (MarkMigrationFinished orig p) = mark_project_ct_migration_as_finished T orig p"

section \<open>The lifecycle\<close>

inductive lifecycle :: "project_details option \<Rightarrow> project_details option \<Rightarrow> bool" where
  absent: "lifecycle None None"
| stay: "pd_status d' = pd_status d \<Longrightarrow> pd_is_frozen d' = pd_is_frozen d \<Longrightarrow> lifecycle (Some d) (Some d')"
| create: "pd_status d = Application \<Longrightarrow> \<not> pd_is_frozen d \<Longrightarrow> lifecycle None (Some d)"
| edit: "\<not> pd_is_frozen d \<Longrightarrow> pd_status d' = Application \<Longrightarrow> \<not> pd_is_frozen d' \<Longrightarrow>
    lifecycle (Some d) (Some d')"
| remove: "\<not> pd_is_frozen d \<Longrightarrow> lifecycle (Some d) None"
| start_evaluation: "pd_status d = Application \<Longrightarrow> \<not> pd_is_frozen d \<Longrightarrow>
    pd_status d' = EvaluationRound \<Longrightarrow> pd_is_frozen d' \<Longrightarrow> lifecycle (Some d) (Some d')"
| end_evaluation: "pd_status d = EvaluationRound \<Longrightarrow> pd_status d' \<in> {AuctionRound, FundingFailed} \<Longrightarrow>
    pd_is_frozen d' = pd_is_frozen d \<Longrightarrow> lifecycle (Some d) (Some d')"
| end_auction: "pd_status d = AuctionRound \<Longrightarrow> pd_status d' = CommunityRound n \<Longrightarrow>
    pd_is_frozen d' = pd_is_frozen d \<Longrightarrow> lifecycle (Some d) (Some d')"
| end_funding: "pd_remaining_contribution_tokens d = 0 \<or> pd_status d = CommunityRound n \<Longrightarrow>
    pd_status d' \<in> {FundingSuccessful, FundingFailed} \<Longrightarrow> pd_is_frozen d' = pd_is_frozen d \<Longrightarrow>
    lifecycle (Some d) (Some d')"
| start_settlement: "(pd_status d, pd_status d') \<in>
      {(FundingSuccessful, SettlementStarted Success), (FundingFailed, SettlementStarted Failure)} \<Longrightarrow>
    pd_is_frozen d' = pd_is_frozen d \<Longrightarrow> lifecycle (Some d) (Some d')"
| settled: "pd_status d = SettlementStarted outcome \<Longrightarrow> pd_status d' = SettlementFinished outcome \<Longrightarrow>
    pd_is_frozen d' = pd_is_frozen d \<Longrightarrow> lifecycle (Some d) (Some d')"
| start_migration: "pd_status d = SettlementFinished Success \<Longrightarrow> pd_status d' = CTMigrationStarted \<Longrightarrow>
    pd_is_frozen d' = pd_is_frozen d \<Longrightarrow> lifecycle (Some d) (Some d')"
| migrated: "pd_status d = CTMigrationStarted \<Longrightarrow> pd_status d' = CTMigrationFinished \<Longrightarrow>
    pd_is_frozen d' = pd_is_frozen d \<Longrightarrow> lifecycle (Some d) (Some d')"

inductive_simps lifecycle_to_None: "lifecycle d None"
inductive_simps lifecycle_Some: "lifecycle (Some d) (Some d')"

lemma lifecycle_refl: "lifecycle d d"
  by (cases d) (auto intro: lifecycle.intros)

text \<open>A call keeps to the lifecycle of all projects when it changes at most one, by such a change.\<close>

definition lawful :: "('l, 'z) funding_state_scheme \<Rightarrow> ('l, 'z) funding_state_scheme \<Rightarrow> bool" where
  "lawful s t \<longleftrightarrow> (\<forall>p. lifecycle (get_details p s) (get_details p t))"

lemma lawful_same: "ProjectsDetails t = ProjectsDetails s \<Longrightarrow> lawful s t"
  by (simp add: lawful_def get_details_def lifecycle_refl)

lemma lawful_insert:
  "ProjectsDetails t = nmap_insert h p d' (ProjectsDetails s) \<Longrightarrow> lifecycle (get_details p s) (Some d') \<Longrightarrow>
   lawful s t"
  by (auto simp: lawful_def get_details_def nmap_get_insert lifecycle_refl)

lemma lifecycle_stay_lookup:
  "get_details p s = Some d \<Longrightarrow> pd_status d' = pd_status d \<Longrightarrow> pd_is_frozen d' = pd_is_frozen d \<Longrightarrow>
   lifecycle (get_details p s) (Some d')"
  by (simp add: lifecycle.stay)

lemma lawful_remove:
  "ProjectsDetails t = nmap_remove p (ProjectsDetails s) \<Longrightarrow> lifecycle (get_details p s) None \<Longrightarrow> lawful s t"
  by (auto simp: lawful_def get_details_def nmap_get_remove lifecycle_refl)

lemma transition_project_Inr [prog_simps]:
  "transition_project T p d cur nxt dur skip s = (Inr u, t) \<longleftrightarrow>
   pd_status d = cur \<and> (ended (pd_round_duration d) (block_number s) \<or> skip) \<and>
   t = s\<lparr>ProjectsDetails := nmap_insert (hash_project T) p
       (d\<lparr>pd_round_duration := \<lparr>bp_start = Some (block_number s),
           bp_end = map_option (\<lambda>n. saturating_sub (saturating_add_u32 (block_number s) n) 1) dur\<rparr>,
         pd_status := nxt\<rparr>) (ProjectsDetails s),
     events := events s @ [ProjectPhaseTransition p nxt]\<rparr>"
  by (auto simp: transition_project_def prog_simps insert_details_def deposit_event_def Let_def)

section \<open>Calls that do not touch the project details\<close>

abbreviation same_details :: "(project_id, project_details) nmap \<Rightarrow> ('l, 'z) funding_state_scheme \<Rightarrow> bool" where
  "same_details D \<equiv> \<lambda>s. ProjectsDetails s = D"

lemma keeps_details_access [keeps_rules]:
  "keeps (same_details D) (details_of p)"
  "keeps (same_details D) (metadata_of p)"
  "keeps (same_details D) (bucket_of p)"
  "keeps (same_details D) (insert_evaluation T k e)"
  "keeps (same_details D) (insert_bid T k b)"
  "keeps (same_details D) (insert_contribution T k c)"
  "keeps (same_details D) (set_active_project d q)"
  "keeps (same_details D) (deposit_event ev)"
  "keeps (same_details D) (on_ext m)"
  by (auto simp: funding_access_defs intro!: keeps_rules keeps_on_ext)

lemma keeps_details_convert [keeps_rules]: "keeps (same_details D) (convert_evaluations T who p es n)"
  by (induction es arbitrary: n) (auto simp: Let_def intro!: keeps_rules)

lemma keeps_details_lock [keeps_rules]:
  "keeps (same_details D) (try_plmc_participation_lock T who p n)"
  "keeps (same_details D) (try_funding_asset_hold T who p n a)"
  "keeps (same_details D) (calculate_plmc_bond T n m)"
  "keeps (same_details D) (calculate_funding_asset_amount T n asset)"
  by (auto simp: try_plmc_participation_lock_def try_funding_asset_hold_def calculate_plmc_bond_def
      calculate_funding_asset_amount_def Let_def intro!: keeps_rules)

lemma keeps_details_release [keeps_rules]:
  "keeps (same_details D) (mint_contribution_tokens T p who n)"
  "keeps (same_details D) (release_funding_asset T p who n asset)"
  "keeps (same_details D) (release_participation_bond T who n)"
  "keeps (same_details D) (slash_evaluator T e)"
  "keeps (same_details D) (reward_evaluator T p e info)"
  "keeps (same_details D) (create_migration T p who i ty n v)"
  by (auto simp: mint_contribution_tokens_def release_funding_asset_def release_participation_bond_def
      slash_evaluator_def reward_evaluator_def create_migration_def Let_def intro!: keeps_rules)

lemma keeps_details_exec_action [keeps_rules]: "keeps P (exec_action T vs act)"
  by (auto simp: exec_action_def Let_def split: vesting_action.splits option.splits intro!: keeps_rules)

lemma keeps_details_vesting [keeps_rules]:
  "keeps (same_details D) (write_vesting_schedule T who vs r)"
  "keeps (same_details D) (vest_or_release T who info n)"
  by (auto simp: write_vesting_schedule_def vest_or_release_def add_release_schedule_def Let_def
      split: option.splits intro!: keeps_rules)

lemma keeps_details_settle [keeps_rules]:
  "keeps (same_details D) (do_settle_evaluation T e p)"
  "keeps (same_details D) (do_settle_bid T b p)"
  "keeps (same_details D) (do_settle_contribution T c p)"
proof -
  show "keeps (same_details D) (do_settle_evaluation T e p)"
    by (auto simp: do_settle_evaluation_def Let_def split: option.splits evaluators_outcome.splits
        intro!: keeps_rules)
  show "keeps (same_details D) (do_settle_bid T b p)"
    by (auto simp: do_settle_bid_def calculate_refund_def Let_def intro!: keeps_rules)
  show "keeps (same_details D) (do_settle_contribution T c p)"
    by (auto simp: do_settle_contribution_def Let_def split: project_status.splits intro!: keeps_rules)
qed

lemma keeps_details_perform_bid [keeps_rules]: "keeps (same_details D) (do_perform_bid T P)"
  by (auto simp: do_perform_bid_def Let_def intro!: keeps_rules)

lemma keeps_details_bid_loop [keeps_rules]: "keeps (same_details D) (bid_loop T P b n c)"
proof (rule keepsI)
  fix s :: "('a, 'b) funding_state_scheme"
  assume "ProjectsDetails s = D"
  then show "ProjectsDetails (snd (bid_loop T P b n c s)) = D"
  proof (induction T P b n c s rule: bid_loop.induct)
    case (1 T P b n c s)
    let ?ct = "if n \<le> bk_amount_left b then n else bk_amount_left b"
    let ?run = "do_perform_bid T (perform_bid_params P (NextBidId s) ?ct (bk_current_price b) c) s"
    have "ProjectsDetails (snd ?run) = D" using keepsD' [OF keeps_details_perform_bid] "1.prems" by blast
    then show ?case
      using "1.IH" by (subst bid_loop.simps) (auto simp: Let_def "1.prems" split: prod.splits sum.splits)
  qed
qed

lemma keeps_details_do_bid [keeps_rules]: "keeps (same_details D) (do_bid T P)"
  by (auto simp: do_bid_def Let_def intro!: keeps_rules)

lemma lawful_keeps:
  assumes "keeps (same_details (ProjectsDetails s)) m" "m s = (Inr r, t)"
  shows "lawful s t"
  using keepsD [OF assms(1) refl assms(2)] by (rule lawful_same)

lemma if_Inr:
  "(if c then m else n) s = (Inr b, t) \<longleftrightarrow> c \<and> m s = (Inr b, t) \<or> \<not> c \<and> n s = (Inr b, t)"
  by simp

section \<open>Calls that change the details of a project\<close>

lemma change_migration_status_details:
  assumes "change_migration_status T p who st s = (Inr u, t)"
  shows "get_details q t = get_details q s"
proof (cases st)
  case Confirmed
  then show ?thesis using assms
    by (clarsimp simp: change_migration_status_def Let_def prog_simps insert_details_def
        decrement_unmigrated_def get_details_def nmap_get_insert err_def split: if_split_asm)
      (auto simp: nmap_get_insert)
qed (use assms in \<open>clarsimp simp: change_migration_status_def Let_def prog_simps insert_details_def
        get_details_def nmap_get_insert\<close>)+

lemma lawful_details: "(\<And>q. get_details q t = get_details q s) \<Longrightarrow> lawful s t"
  by (simp add: lawful_def lifecycle_refl)

lemma project_validation_Inr:
  "project_validation T md who d = Inr (md', info, b) \<Longrightarrow>
   md' = md \<and> pd_status info = Application \<and> \<not> pd_is_frozen info \<and> pd_issuer_did info = d \<and>
   pd_issuer_account info = who \<and> pd_remaining_contribution_tokens info = md_total_allocation_size md \<and>
   metadata_is_valid (arith T) md = Inr () \<and> create_bucket_from_metadata T md = Inr b"
  by (auto simp: project_validation_def result_bind_def Let_def split: sum.splits)

lemma do_create_project_lawful:
  "do_create_project T who md d s = (Inr u, t) \<Longrightarrow> get_details (NextProjectId s) s = None \<Longrightarrow> lawful s t"
  by (auto simp: do_create_project_def prog_simps funding_access_defs Let_def
      dest!: project_validation_Inr intro!: lawful_insert lifecycle.create)

lemma do_edit_project_lawful: "do_edit_project T who p md s = (Inr u, t) \<Longrightarrow> lawful s t"
  by (auto simp: do_edit_project_def prog_simps funding_access_defs
      dest!: project_validation_Inr intro!: lawful_insert lifecycle.edit)

lemma do_remove_project_lawful: "do_remove_project T who p d s = (Inr u, t) \<Longrightarrow> lawful s t"
  by (auto simp: do_remove_project_def prog_simps funding_access_defs intro!: lawful_remove lifecycle.remove)

lemma do_start_evaluation_lawful: "do_start_evaluation T who p s = (Inr u, t) \<Longrightarrow> lawful s t"
  by (auto simp: do_start_evaluation_def prog_simps intro!: lawful_insert lifecycle.start_evaluation)

lemma do_end_evaluation_lawful: "do_end_evaluation T p s = (Inr u, t) \<Longrightarrow> lawful s t"
  by (clarsimp simp: do_end_evaluation_def prog_simps if_Inr funding_access_defs Let_def)
     (elim disjE exE conjE; rule lawful_insert, simp, simp add: lifecycle.end_evaluation)

lemma do_evaluate_lawful: "do_evaluate T who p usd d cid s = (Inr u, t) \<Longrightarrow> lawful s t"
  unfolding do_evaluate_def Let_def saturating_sub_eq min_def [symmetric]
  by (auto simp: prog_simps funding_access_defs intro!: lawful_insert lifecycle.stay)

text \<open>The matches on a status or a migration type that refuse every other value.\<close>

lemma status_match_Inr [prog_simps]:
  "(case st of SettlementStarted outcome \<Rightarrow> ok outcome | _ \<Rightarrow> err e) s = (Inr b, t) \<longleftrightarrow>
   st = SettlementStarted b \<and> t = s"
  "(case st of CommunityRound n \<Rightarrow> ok n | _ \<Rightarrow> err e) s = (Inr m, t) \<longleftrightarrow> st = CommunityRound m \<and> t = s"
  "(case mt of Some (PalletMigration info) \<Rightarrow> ok info | _ \<Rightarrow> err e) s = (Inr i, t) \<longleftrightarrow>
   mt = Some (PalletMigration i) \<and> t = s"
  by (auto simp: ok_def err_def split: project_status.splits option.splits migration_type.splits)

lemma funding_elims [prog_elims]:
  "details_of p s = (Inr d, t) \<Longrightarrow> (get_details p s = Some d \<Longrightarrow> t = s \<Longrightarrow> P) \<Longrightarrow> P"
  "metadata_of p s = (Inr md, t) \<Longrightarrow> (ProjectsMetadata s p = Some md \<Longrightarrow> t = s \<Longrightarrow> P) \<Longrightarrow> P"
  "bucket_of p s = (Inr b, t) \<Longrightarrow> (Buckets s p = Some b \<Longrightarrow> t = s \<Longrightarrow> P) \<Longrightarrow> P"
  by (simp_all add: prog_simps)

lemma if_elims [prog_elims]:
  "(if c then m else n) s = (Inr r, t) \<Longrightarrow> (c \<Longrightarrow> m s = (Inr r, t) \<Longrightarrow> P) \<Longrightarrow>
   (\<not> c \<Longrightarrow> n s = (Inr r, t) \<Longrightarrow> P) \<Longrightarrow> P"
  by (simp split: if_splits)

lemma case_prod_elims [prog_elims]:
  "(case x of (a, b) \<Rightarrow> f a b) s = (Inr r, t) \<Longrightarrow> (\<And>a b. x = (a, b) \<Longrightarrow> f a b s = (Inr r, t) \<Longrightarrow> P) \<Longrightarrow> P"
  by (cases x) simp

lemma fee_elims [prog_elims]:
  "generate_evaluator_rewards_info T p s = (Inr info, t) \<Longrightarrow> (t = s \<Longrightarrow> P) \<Longrightarrow> P"
  "generate_liquidity_pools_and_long_term_holder_rewards T p s = (Inr r, t) \<Longrightarrow> (t = s \<Longrightarrow> P) \<Longrightarrow> P"
  by (auto simp: generate_evaluator_rewards_info_def generate_liquidity_pools_and_long_term_holder_rewards_def
      calculate_fee_allocation_def Let_def prog_simps)

lemma transition_elim [prog_elims]:
  "transition_project T p d cur nxt dur skip s = (Inr u, t) \<Longrightarrow>
   (pd_status d = cur \<Longrightarrow>
    (\<exists>r. ProjectsDetails t = nmap_insert (hash_project T) p (d\<lparr>pd_round_duration := r, pd_status := nxt\<rparr>)
       (ProjectsDetails s)) \<Longrightarrow> P) \<Longrightarrow> P"
  by (auto simp: prog_simps)

lemma do_end_funding_lawful: "do_end_funding T p s = (Inr u, t) \<Longrightarrow> lawful s t"
  unfolding do_end_funding_def Let_def set_active_project_def
  by (elim prog_elims; clarsimp; rule lawful_insert, assumption,
      auto intro: lifecycle.end_funding split: project_status.splits)

lemma do_start_settlement_lawful: "do_start_settlement T p s = (Inr u, t) \<Longrightarrow> lawful s t"
  unfolding do_start_settlement_def Let_def
  by (elim prog_elims; clarsimp; rule lawful_insert, assumption, simp add: lifecycle.start_settlement)

lemma do_mark_project_as_settled_lawful: "do_mark_project_as_settled T p s = (Inr u, t) \<Longrightarrow> lawful s t"
  by (clarsimp simp: do_mark_project_as_settled_def prog_simps)
     (rule lawful_insert, simp, simp add: lifecycle.settled)

lemma do_start_offchain_migration_lawful: "do_start_offchain_migration T p who s = (Inr u, t) \<Longrightarrow> lawful s t"
  by (clarsimp simp: do_start_offchain_migration_def prog_simps)
     (rule lawful_insert, simp, simp add: lifecycle.start_migration)

lemma do_start_pallet_migration_lawful: "do_start_pallet_migration T who p para s = (Inr u, t) \<Longrightarrow> lawful s t"
  by (clarsimp simp: do_start_pallet_migration_def prog_simps Let_def)
     (rule lawful_insert, simp, simp add: lifecycle.start_migration)

lemma do_confirm_offchain_migration_lawful:
  "do_confirm_offchain_migration T p who a s = (Inr u, t) \<Longrightarrow> lawful s t"
  by (rule lawful_details) (auto simp: do_confirm_offchain_migration_def prog_simps
      dest: change_migration_status_details)

lemma do_mark_migration_finished_lawful:
  "do_mark_project_ct_migration_as_finished T p s = (Inr u, t) \<Longrightarrow> lawful s t"
  by (clarsimp simp: do_mark_project_ct_migration_as_finished_def prog_simps funding_access_defs)
     (rule lawful_insert, simp, simp add: lifecycle.migrated)

lemma decide_winning_bids_details:
  assumes "decide_winning_bids T p alloc wap s = (Inr r, t)"
  obtains d d' where "get_details p s = Some d"
    "ProjectsDetails t = nmap_insert (hash_project T) p d' (ProjectsDetails s)"
    "pd_status d' = pd_status d" "pd_is_frozen d' = pd_is_frozen d"
proof -
  let ?bs = "sort_by (\<lambda>a b. bid_cmp b a) (prefix1 p (Bids s))"
  obtain u where u: "decide_bids T p alloc 0 ?bs s = (Inr (decide_list alloc 0 ?bs), u)"
      "ProjectsDetails u = ProjectsDetails s"
    using decide_bids_run [of T p alloc 0 ?bs s] by blast
  show thesis
    using assms u(1) unfolding decide_winning_bids_def Let_def insert_details_def
    by (elim prog_elims) (auto simp: u(2) get_details_def intro!: that)
qed

lemma lawful_insert2:
  assumes "ProjectsDetails u = nmap_insert h p d1 (ProjectsDetails s)"
    and "ProjectsDetails t = nmap_insert h p d2 (ProjectsDetails u)"
    and "lifecycle (get_details p s) (Some d2)"
  shows "lawful s t"
  using assms by (auto simp: lawful_def get_details_def nmap_get_insert lifecycle_refl)

lemma do_end_auction_lawful: "do_end_auction T p s = (Inr r, t) \<Longrightarrow> lawful s t"
  by (elim do_end_auctionE decide_winning_bids_details prog_elims exE, rule lawful_insert2, assumption, assumption)
     (auto simp: get_details_def nmap_get_insert intro: lifecycle.end_auction)

text \<open>Locking a participation only changes the ledger and the evaluations.\<close>

lemma convert_evaluations_frame:
  "convert_evaluations T who p es n s = (Inr r, t) \<Longrightarrow> \<exists>l E. t = s\<lparr>Evaluations := E, ext := l\<rparr>"
proof (induction es arbitrary: n s)
  case Nil
  then have "t = s\<lparr>Evaluations := Evaluations s, ext := ext s\<rparr>" by (simp add: ok_def)
  then show ?case by blast
next
  case (Cons e es)
  show ?case
  proof (cases "n = 0")
    case True
    with Cons.prems have "t = s\<lparr>Evaluations := Evaluations s, ext := ext s\<rparr>" by (simp add: ok_def)
    then show ?thesis by blast
  next
    case False
    with Cons.prems obtain m l E where
      "convert_evaluations T who p es m (s\<lparr>Evaluations := E, ext := l\<rparr>) = (Inr r, t)"
      by (auto simp: Let_def prog_simps insert_evaluation_def)
    from Cons.IH [OF this] show ?thesis by auto
  qed
qed

lemma lock_elims [prog_elims]:
  "try_plmc_participation_lock T who p n s = (Inr u, t) \<Longrightarrow>
   (\<And>l E. t = s\<lparr>Evaluations := E, ext := l\<rparr> \<Longrightarrow> P) \<Longrightarrow> P"
  "try_funding_asset_hold T who p n a s = (Inr u, t) \<Longrightarrow> (\<And>l. t = s\<lparr>ext := l\<rparr> \<Longrightarrow> P) \<Longrightarrow> P"
  "calculate_plmc_bond T n m s = (Inr r, t) \<Longrightarrow> (t = s \<Longrightarrow> P) \<Longrightarrow> P"
  "calculate_funding_asset_amount T n asset s = (Inr r, t) \<Longrightarrow> (t = s \<Longrightarrow> P) \<Longrightarrow> P"
  by (auto simp: try_plmc_participation_lock_def try_funding_asset_hold_def calculate_plmc_bond_def
      calculate_funding_asset_amount_def Let_def prog_simps dest!: convert_evaluations_frame)

lemma do_perform_contribution_Inr:
  assumes "do_perform_contribution T D d n s = (Inr u, t)"
  obtains c usd where
    "Contributions t = nmap_insert (hash_participation T)
       (dc_project_id D, dc_contributor D, NextContributionId s) c (Contributions s)"
    "ProjectsDetails t = nmap_insert (hash_project T) (dc_project_id D)
       (d\<lparr>pd_funding_amount_reached_usd := saturating_add (pd_funding_amount_reached_usd d) usd\<rparr>)
       (ProjectsDetails s)"
    "NextContributionId t = saturating_add_u32 (NextContributionId s) 1"
    "co_ct_amount c = n" "co_usd_contribution_amount c = usd"
    "co_project_id c = dc_project_id D" "co_contributor c = dc_contributor D" "co_id c = NextContributionId s"
proof -
  from assms show thesis
    unfolding do_perform_contribution_def Let_def funding_access_defs
    by (elim prog_elims, clarsimp) (rule that, simp, simp, simp_all)
qed

lemma do_contribute_lawful: "do_contribute T D s = (Inr u, t) \<Longrightarrow> lawful s t"
  unfolding do_contribute_def Let_def
  by (elim prog_elims do_perform_contribution_Inr) (auto simp: status_match_Inr err_def intro!: lawful_insert lifecycle.stay)

lemma migration_elims [prog_elims]:
  "notify_query T loc n s = (Inr q, t) \<Longrightarrow> (\<And>l. t = s\<lparr>ext := l\<rparr> \<Longrightarrow> P) \<Longrightarrow> P"
  "(case mt of Some (PalletMigration info) \<Rightarrow> ok info | _ \<Rightarrow> err e) s = (Inr i, t) \<Longrightarrow>
   (mt = Some (PalletMigration i) \<Longrightarrow> t = s \<Longrightarrow> P) \<Longrightarrow> P"
  "(case mc of None \<Rightarrow> ensure c e | Some check \<Rightarrow> if f check then ensure c' e' else ok ()) s = (Inr u, t) \<Longrightarrow>
   (t = s \<Longrightarrow> P) \<Longrightarrow> P"
  by (auto simp: notify_query_def prog_simps ok_def ensure_def err_def
      split: prod.splits option.splits migration_type.splits if_splits)

lemma do_start_readiness_check_lawful:
  "do_start_pallet_migration_readiness_check T who p s = (Inr u, t) \<Longrightarrow> lawful s t"
  unfolding do_start_pallet_migration_readiness_check_def Let_def funding_access_defs
  by (elim prog_elims, rule lawful_insert [where p = p], simp) (rule lifecycle_stay_lookup, auto)

lemma same_lookup_lawful:
  "change_migration_status T p who st u = (Inr r, v) \<Longrightarrow> ProjectsDetails u = ProjectsDetails s \<Longrightarrow>
   ProjectsDetails t = ProjectsDetails v \<Longrightarrow> lawful s t"
  by (rule lawful_details) (simp add: change_migration_status_details get_details_def
      change_migration_status_details [unfolded get_details_def])

lemma do_send_pallet_migration_lawful: "do_send_pallet_migration_for T p who s = (Inr u, t) \<Longrightarrow> lawful s t"
  unfolding do_send_pallet_migration_for_def Let_def funding_access_defs
  by (elim prog_elims, erule same_lookup_lawful) (auto simp: prog_simps ok_def err_def split: check_outcome.splits option.splits)

lemma do_confirm_pallet_migrations_lawful:
  "do_confirm_pallet_migrations T loc q r s = (Inr u, t) \<Longrightarrow> lawful s t"
  unfolding do_confirm_pallet_migrations_def Let_def funding_access_defs
  by (cases r; elim prog_elims; simp only: xcm_response.case; elim prog_elims) (erule same_lookup_lawful, simp, simp)+

lemma find_details:
  "nmap_wf (ProjectsDetails s) \<Longrightarrow> List.find P (ProjectsDetails s) = Some (p, d) \<Longrightarrow> get_details p s = Some d"
  by (auto simp: find_Some_iff get_details_def nmap_get_in_set)

lemma response_elims [prog_elims]:
  "(case (r, mc) of (ResponseAssets xs, Some check) \<Rightarrow> f xs check
    | (ResponsePalletsInfo pallets, Some check) \<Rightarrow> g pallets check | _ \<Rightarrow> err e) s = (Inr u, t) \<Longrightarrow>
   (\<And>xs check. f xs check s = (Inr u, t) \<Longrightarrow> P) \<Longrightarrow>
   (\<And>pallets check. g pallets check s = (Inr u, t) \<Longrightarrow> P) \<Longrightarrow> P"
  by (auto simp: err_def split: xcm_response.splits option.splits)

lemma do_readiness_response_lawful:
  "do_pallet_migration_readiness_response T loc q r s = (Inr u, t) \<Longrightarrow> nmap_wf (ProjectsDetails s) \<Longrightarrow> lawful s t"
  unfolding do_pallet_migration_readiness_response_def Let_def funding_access_defs
  by (elim prog_elims; rule lawful_insert, simp; rule lifecycle_stay_lookup, rule find_details; simp)

lemmas call_defs = create_project_def remove_project_def edit_project_def start_evaluation_def evaluate_def
  end_evaluation_def bid_def end_auction_def contribute_def end_funding_def start_settlement_def
  settle_evaluation_def settle_bid_def settle_contribution_def mark_project_as_settled_def
  start_offchain_migration_def confirm_offchain_migration_def start_pallet_migration_def
  start_pallet_migration_readiness_check_def pallet_migration_readiness_response_def
  send_pallet_migration_for_def confirm_pallet_migrations_def mark_project_ct_migration_as_finished_def

lemma ensure_elims [prog_elims]:
  "ensure_investor T orig j s = (Inr r, t) \<Longrightarrow> (t = s \<Longrightarrow> P) \<Longrightarrow> P"
  "ensure_institutional T orig j s = (Inr r', t) \<Longrightarrow> (t = s \<Longrightarrow> P) \<Longrightarrow> P"
  "ensure_response loc s = (Inr l, t) \<Longrightarrow> (t = s \<Longrightarrow> P) \<Longrightarrow> P"
  by (auto simp: ensure_investor_def ensure_institutional_def ensure_response_def prog_simps)

lemmas lawful_calls = do_create_project_lawful do_edit_project_lawful do_remove_project_lawful
  do_start_evaluation_lawful do_end_evaluation_lawful do_evaluate_lawful do_end_auction_lawful
  do_contribute_lawful do_end_funding_lawful do_start_settlement_lawful do_mark_project_as_settled_lawful
  do_start_offchain_migration_lawful do_confirm_offchain_migration_lawful do_start_pallet_migration_lawful
  do_start_readiness_check_lawful do_readiness_response_lawful do_send_pallet_migration_lawful
  do_confirm_pallet_migrations_lawful do_mark_migration_finished_lawful
  lawful_keeps [OF keeps_details_do_bid] lawful_keeps [OF keeps_details_settle(1)]
  lawful_keeps [OF keeps_details_settle(2)] lawful_keeps [OF keeps_details_settle(3)]

text \<open>
  C2. Whatever call succeeds, every project moves along its lifecycle: application, evaluation,
  auction, community round, then success or failure, settlement and migration, one step at a time and
  never back. The only exception the code makes is \<^verbatim>\<open>end_funding\<close> on a project without remaining
  tokens, which it accepts in every status. Projects a call does not concern keep their status.
\<close>

theorem project_lifecycle:
  assumes "run_call T call s = (Inr (), t)" and "nmap_wf (ProjectsDetails s)"
    and "get_details (NextProjectId s) s = None"
  shows "lifecycle (get_details p s) (get_details p t)"
proof -
  have "lawful s t"
    using assms
    by (cases call; simp only: run_call.simps call_defs; elim prog_elims; hypsubst?; blast intro: lawful_calls)
  then show ?thesis by (simp add: lawful_def)
qed

text \<open>
  The handlers of HRMP messages open the channels of a migrating project, the second one also starts its
  readiness check; they change no project's status.
\<close>

definition status_of :: "project_details \<Rightarrow> project_status \<times> bool" where
  "status_of d = (pd_status d, pd_is_frozen d)"

definition same_status :: "('l, 'z) funding_state_scheme \<Rightarrow> ('l, 'z) funding_state_scheme \<Rightarrow> bool" where
  "same_status s t \<longleftrightarrow> (\<forall>p. map_option status_of (get_details p t) = map_option status_of (get_details p s))"

lemma same_status_trans: "same_status s u \<Longrightarrow> same_status u t \<Longrightarrow> same_status s t"
  by (simp add: same_status_def)

lemma same_status_insert:
  "ProjectsDetails t = nmap_insert h p d' (ProjectsDetails s) \<Longrightarrow> get_details p s = Some d \<Longrightarrow>
   status_of d' = status_of d \<Longrightarrow> same_status s t"
  by (auto simp: same_status_def get_details_def nmap_get_insert)

lemma readiness_check_status:
  "do_start_pallet_migration_readiness_check T who p s = (Inr u, t) \<Longrightarrow> same_status s t"
  unfolding do_start_pallet_migration_readiness_check_def Let_def funding_access_defs
  by (elim prog_elims, rule same_status_insert [where p = p], simp) (auto simp: status_of_def)

lemma migrating_elims:
  "(case mt of Some (PalletMigration info) \<Rightarrow> f info | _ \<Rightarrow> err e) s = (Inr u, t) \<Longrightarrow>
   (\<And>info. mt = Some (PalletMigration info) \<Longrightarrow> f info s = (Inr u, t) \<Longrightarrow> P) \<Longrightarrow> P"
  by (auto simp: err_def split: option.splits migration_type.splits)

lemma delivered_elim:
  "(case z of (delivered, l) \<Rightarrow> (Inr delivered, s\<lparr>ext := l\<rparr>)) = (Inr a, t) \<Longrightarrow> (\<And>l. t = s\<lparr>ext := l\<rparr> \<Longrightarrow> P) \<Longrightarrow> P"
  by (auto split: prod.splits)

theorem hrmp_handlers_keep_status:
  assumes wf: "nmap_wf (ProjectsDetails s)"
  shows "do_handle_channel_open_request T sender max_size capacity s = (Inr u, t) \<Longrightarrow> same_status s t"
    and "do_handle_channel_accepted T recipient s = (Inr u, t) \<Longrightarrow> same_status s t"
proof -
  assume "do_handle_channel_open_request T sender max_size capacity s = (Inr u, t)"
  then obtain p d d' where "List.find (migrating_to sender) (ProjectsDetails s) = Some (p, d)"
    and "ProjectsDetails t = nmap_insert (hash_project T) p d' (ProjectsDetails s)" "status_of d' = status_of d"
    unfolding do_handle_channel_open_request_def
    by (fastforce simp: prog_simps if_Inr err_def status_of_def elim!: migrating_elims delivered_elim)
  then show "same_status s t" using find_details [OF wf] same_status_insert by blast
next
  assume accepted: "do_handle_channel_accepted T recipient s = (Inr u, t)"
  show "same_status s t"
    by (insert accepted [unfolded do_handle_channel_accepted_def],
        simp only: sbind_Inr gets_Inr ok_or_Inr ex_simps, elim exE conjE, hypsubst,
        simp only: prod.case split_paired_all, erule migrating_elims, simp only: seq_Inr modify_Inr map_err_Inr,
        elim exE conjE, drule readiness_check_status, erule same_status_trans [rotated], rule same_status_insert,
        simp, rule find_details [OF wf], simp)
       (simp add: status_of_def)
qed

section \<open>Where the code leaves the lifecycle\<close>

lemma end_funding_sold_out:
  assumes d: "get_details p s = Some d" and md: "ProjectsMetadata s p = Some md"
    and "pd_remaining_contribution_tokens d = 0"
  shows "\<exists>t d'. run_call T (EndFunding (Signed who) p) s = (Inr (), t) \<and> get_details p t = Some d' \<and>
    pd_status d' = (if pq_from_rational (arith T) (pd_funding_amount_reached_usd d) (pd_fundraising_target_usd d) <
      FundingSuccessThreshold T then FundingFailed else FundingSuccessful) \<and>
    DidWithActiveProjects t = (DidWithActiveProjects s)(pd_issuer_did d := None)"
proof -
  have "\<exists>info. generate_evaluator_rewards_info T p (s\<lparr>DidWithActiveProjects := f\<rparr>) =
      (Inr info, s\<lparr>DidWithActiveProjects := f\<rparr>)" for f
    using d md by (simp add: generate_evaluator_rewards_info_def calculate_fee_allocation_def
        funding_access_defs prog_defs Let_def get_details_def)
  then obtain info where info: "\<And>f. generate_evaluator_rewards_info T p (s\<lparr>DidWithActiveProjects := f\<rparr>) =
      (Inr (info f), s\<lparr>DidWithActiveProjects := f\<rparr>)" by metis
  show ?thesis
    using d assms(3)
    by (simp add: end_funding_def do_end_funding_def funding_access_defs Let_def prog_simps info ensure_signed_def
        prog_defs transition_project_def get_details_def nmap_get_insert)
qed

text \<open>
  C40. A project without remaining tokens can be moved back to the end of its funding by anyone and in
  any status, also when its settlement or migration is under way or finished: \<^verbatim>\<open>end_funding\<close> checks the
  round only when tokens remain. The issuer's entry in \<^verbatim>\<open>DidWithActiveProjects\<close> is cleared again, even
  when it stands for a newer project.
\<close>

theorem end_funding_accepts_any_status:
  assumes "get_details p s = Some d" "ProjectsMetadata s p = Some md"
    and "pd_remaining_contribution_tokens d = 0"
  shows "\<exists>t d'. run_call T (EndFunding (Signed who) p) s = (Inr (), t) \<and> get_details p t = Some d' \<and>
    pd_status d' \<in> {FundingSuccessful, FundingFailed} \<and> DidWithActiveProjects t (pd_issuer_did d) = None"
  using end_funding_sold_out [OF assms, of T who] by (fastforce split: if_splits)

definition demo_sold_out_state :: "project_status \<Rightarrow> demo_ledger funding_state" where
  "demo_sold_out_state st =
     demo_state\<lparr>ProjectsDetails :=
       [(0, demo_details\<lparr>pd_status := st, pd_remaining_contribution_tokens := 0\<rparr>)],
       DidWithActiveProjects := [''issuer'' \<mapsto> 1]\<rparr>"

lemma demo_sold_out:
  "get_details 0 (demo_sold_out_state st) =
     Some (demo_details\<lparr>pd_status := st, pd_remaining_contribution_tokens := 0\<rparr>)"
  "ProjectsMetadata (demo_sold_out_state st) 0 = Some demo_metadata"
  by (simp_all add: demo_sold_out_state_def get_details_def nmap_get_def demo_state_def)

theorem end_funding_accepts_any_status_witness:
  "\<exists>t d'. run_call demo_config (EndFunding (Signed 3) 0) (demo_sold_out_state CTMigrationFinished) = (Inr (), t) \<and>
     get_details 0 t = Some d' \<and> pd_status d' \<in> {FundingSuccessful, FundingFailed} \<and>
     DidWithActiveProjects t ''issuer'' = None"
  using end_funding_accepts_any_status [OF demo_sold_out [of CTMigrationFinished], of demo_config 3]
  by (simp add: demo_details_def)

theorem project_lifecycle_witness:
  "\<exists>t. run_call demo_config (EndFunding (Signed 3) 0) (demo_sold_out_state (CommunityRound 9)) = (Inr (), t) \<and>
     lifecycle (get_details 0 (demo_sold_out_state (CommunityRound 9))) (get_details 0 t)"
proof -
  obtain t where t: "run_call demo_config (EndFunding (Signed 3) 0) (demo_sold_out_state (CommunityRound 9)) = (Inr (), t)"
    using end_funding_sold_out [OF demo_sold_out [of "CommunityRound 9"], of demo_config 3]
    by (auto simp: demo_details_def)
  have "nmap_wf (ProjectsDetails (demo_sold_out_state (CommunityRound 9)))"
    "get_details (NextProjectId (demo_sold_out_state (CommunityRound 9))) (demo_sold_out_state (CommunityRound 9)) = None"
    by (simp_all add: demo_sold_out_state_def nmap_wf_def get_details_def nmap_get_def demo_state_def)
  from project_lifecycle [OF t this] t show ?thesis by blast
qed

text \<open>
  Confirming an off-chain migration counts down the unmigrated participants even when the
  participant was confirmed before, so the issuer can bring the counter to zero, and the project to
  \<^verbatim>\<open>CTMigrationFinished\<close>, while other participants are not migrated.
\<close>

theorem offchain_confirmation_repeatable:
  assumes "get_details p s = Some d" "pd_status d = CTMigrationStarted" "pd_migration_type d = Some Offchain"
    and "pd_issuer_account d = issuer" "UserMigrations s (p, who) = Some (Confirmed, ms)"
  shows "\<exists>t. run_call T (ConfirmOffchainMigration (Signed issuer) p who) s = (Inr (), t) \<and>
    UserMigrations t = UserMigrations s \<and> UnmigratedCounter t p = UnmigratedCounter s p - 1"
  using assms
  by (auto simp: confirm_offchain_migration_def do_confirm_offchain_migration_def change_migration_status_def
      ensure_signed_def funding_access_defs decrement_unmigrated_def Let_def prog_defs get_details_def
      map_upd_triv)

definition demo_migrating_state :: "demo_ledger funding_state" where
  "demo_migrating_state =
     demo_state\<lparr>ProjectsDetails :=
       [(0, demo_details\<lparr>pd_status := CTMigrationStarted, pd_migration_type := Some Offchain\<rparr>)],
       UserMigrations := [(0, 5) \<mapsto> (Confirmed, []), (0, 6) \<mapsto> (NotStarted, [])],
       UnmigratedCounter := (\<lambda>_. 1)\<rparr>"

end
