(* ===== verification/Funding_Participation_Props.thy ===== *)
theory Funding_Participation_Props
  imports Funding_Lifecycle_Props
begin

text \<open>
  Properties of the participations: how a bid is cut along the price buckets, and that a contribution
  only takes tokens that remain.
\<close>

section \<open>Bids\<close>

lemma do_perform_bid_Inr:
  assumes "do_perform_bid T P s = (Inr b, t)"
  shows "pb_total_bids_by_bidder P < as_u32 (MaxBidsPerUser T) \<and>
    Bids t = nmap_insert (hash_participation T) (pb_project_id P, pb_bidder P, pb_bid_id P) b (Bids s) \<and>
    NextBidId t = saturating_add_u32 (pb_bid_id P) 1 \<and> Buckets t = Buckets s \<and>
    bid_id b = pb_bid_id P \<and> bid_project_id b = pb_project_id P \<and> bid_bidder b = pb_bidder P \<and>
    bid_bstatus b = YetUnknown \<and> bid_original_ct_amount b = pb_ct_amount P \<and>
    bid_original_ct_usd_price b = pb_ct_usd_price P"
  using assms unfolding do_perform_bid_def Let_def funding_access_defs
  by (elim prog_elims) simp

text \<open>A list of bids that fills the buckets from a given one on: every bid at the price of its bucket.\<close>

fun fills :: "bucket \<Rightarrow> bid_info list \<Rightarrow> bool" where
  "fills b [] \<longleftrightarrow> True"
| "fills b (x # xs) \<longleftrightarrow> bid_original_ct_usd_price x = bk_current_price b \<and>
     bid_original_ct_amount x \<le> bk_amount_left b \<and> fills (bucket_update b (bid_original_ct_amount x)) xs"

definition after_bids :: "bucket \<Rightarrow> bid_info list \<Rightarrow> bucket" where
  "after_bids b bs = foldl bucket_update b (map bid_original_ct_amount bs)"

lemma after_bids_simps [simp]:
  "after_bids b [] = b" "after_bids b (x # xs) = after_bids (bucket_update b (bid_original_ct_amount x)) xs"
  by (simp_all add: after_bids_def)

lemma bid_loop_splits:
  assumes "bid_loop T P b n calls s = (Inr (b', calls'), t)"
    and "bl_existing_bids_amount P + calls \<le> as_u32 (MaxBidsPerUser T)"
    and "NextBidId s + (as_u32 (MaxBidsPerUser T) - calls) \<le> u32_max"
  shows "\<exists>bs. Bids t = store_bids T (bl_project_id P) bs (Bids s) \<and> calls' = calls + length bs \<and>
    bl_existing_bids_amount P + calls' \<le> as_u32 (MaxBidsPerUser T) \<and>
    sum_list (map bid_original_ct_amount bs) = n \<and> fills b bs \<and> b' = after_bids b bs \<and>
    map bid_id bs = [NextBidId s..<NextBidId s + length bs] \<and>
    (\<forall>x\<in>set bs. bid_project_id x = bl_project_id P \<and> bid_bidder x = bl_bidder P \<and> bid_bstatus x = YetUnknown)"
  using assms
proof (induction T P b n calls s rule: bid_loop.induct)
  case (1 T P b n calls s)
  show ?case
  proof (cases "n = 0")
    case True
    with "1.prems" show ?thesis by (subst (asm) bid_loop.simps) (auto intro!: exI [of _ "[]"])
  next
    case False
    let ?ct = "if n \<le> bk_amount_left b then n else bk_amount_left b"
    let ?Q = "perform_bid_params P (NextBidId s) ?ct (bk_current_price b) calls"
    obtain x u where x: "do_perform_bid T ?Q s = (Inr x, u)"
      and rest: "bid_loop T P (bucket_update b ?ct) (n - ?ct) (wrapping_add_u32 calls 1) u =
        (Inr (b', calls'), t)"
      using "1.prems"(1) False by (subst (asm) bid_loop.simps) (auto simp: Let_def split: prod.splits sum.splits)
    have max: "as_u32 (MaxBidsPerUser T) \<le> u32_max" by (simp add: as_u32_def u32_max_def)
    note px = do_perform_bid_Inr [OF x]
    have less: "bl_existing_bids_amount P + calls < as_u32 (MaxBidsPerUser T)"
      using px max "1.prems"(2) by (auto simp: perform_bid_params_def saturating_add_u32_def)
    then have next_calls: "wrapping_add_u32 calls 1 = Suc calls"
      using max by (simp add: wrapping_add_u32_def u32_max_def)
    have next_id: "NextBidId u = Suc (NextBidId s)"
      using px "1.prems"(3) less by (simp add: perform_bid_params_def saturating_add_u32_def)
    have "NextBidId u + (as_u32 (MaxBidsPerUser T) - Suc calls) \<le> u32_max"
      using "1.prems"(3) less next_id by simp
    then have bounds: "bl_existing_bids_amount P + wrapping_add_u32 calls 1 \<le> as_u32 (MaxBidsPerUser T)"
      "NextBidId u + (as_u32 (MaxBidsPerUser T) - wrapping_add_u32 calls 1) \<le> u32_max"
      unfolding next_calls using less by simp_all
    have rest': "bid_loop T P (bucket_update b ?ct) (saturating_sub n ?ct) (wrapping_add_u32 calls 1) u =
        (Inr (b', calls'), t)" unfolding saturating_sub_eq by (rule rest)
    have "\<exists>bs. Bids t = store_bids T (bl_project_id P) bs (Bids u) \<and> calls' = Suc calls + length bs \<and>
        bl_existing_bids_amount P + calls' \<le> as_u32 (MaxBidsPerUser T) \<and>
        sum_list (map bid_original_ct_amount bs) = n - ?ct \<and> fills (bucket_update b ?ct) bs \<and>
        b' = after_bids (bucket_update b ?ct) bs \<and>
        map bid_id bs = [NextBidId u..<NextBidId u + length bs] \<and>
        (\<forall>x\<in>set bs. bid_project_id x = bl_project_id P \<and> bid_bidder x = bl_bidder P \<and>
          bid_bstatus x = YetUnknown)"
      using "1.IH" [OF False refl x [symmetric] refl rest' bounds] unfolding next_calls saturating_sub_eq .
    then obtain bs where bs: "Bids t = store_bids T (bl_project_id P) bs (Bids u)"
        "calls' = Suc calls + length bs" "bl_existing_bids_amount P + calls' \<le> as_u32 (MaxBidsPerUser T)"
        "sum_list (map bid_original_ct_amount bs) = n - ?ct" "fills (bucket_update b ?ct) bs"
        "b' = after_bids (bucket_update b ?ct) bs"
        "map bid_id bs = [NextBidId u..<NextBidId u + length bs]"
        "\<forall>x\<in>set bs. bid_project_id x = bl_project_id P \<and> bid_bidder x = bl_bidder P \<and> bid_bstatus x = YetUnknown"
      by blast
    have first: "bid_id x = NextBidId s" using px by (simp add: perform_bid_params_def)
    show ?thesis
    proof (intro exI [of _ "x # bs"] conjI)
      show "Bids t = store_bids T (bl_project_id P) (x # bs) (Bids s)"
        using bs(1) px by (simp add: bid_key_def perform_bid_params_def)
      show "map bid_id (x # bs) = [NextBidId s..<NextBidId s + length (x # bs)]"
        using bs(7) next_id first by (simp add: upt_conv_Cons del: upt_Suc)
    qed (use bs px in \<open>auto simp: perform_bid_params_def\<close>)
  qed
qed

text \<open>
  C17. A successful bid is cut into consecutive bids along the price buckets: each part is placed at the
  price of the bucket it is taken from and takes no more than the bucket has left, the parts add up
  to the amount bid for, the ids are consecutive, the stored bucket is the one the parts leave behind,
  and the bidder's number of bids stays within the limit. The loop always ends.
\<close>

theorem bid_split_along_buckets:
  assumes "do_bid T D s = (Inr (existing, calls), t)" "Buckets s (db_project_id D) = Some b"
    and "NextBidId s + as_u32 (MaxBidsPerUser T) \<le> u32_max"
  shows "\<exists>bs. Bids t = store_bids T (db_project_id D) bs (Bids s) \<and> length bs = calls \<and>
    existing = length (prefix2 (db_project_id D) (db_bidder D) (Bids s)) \<and>
    existing + calls \<le> MaxBidsPerUser T \<and>
    sum_list (map bid_original_ct_amount bs) = db_ct_amount D \<and> fills b bs \<and>
    Buckets t (db_project_id D) = Some (after_bids b bs) \<and>
    map bid_id bs = [NextBidId s..<NextBidId s + calls] \<and>
    (\<forall>x\<in>set bs. bid_bidder x = db_bidder D \<and> bid_project_id x = db_project_id D \<and> bid_bstatus x = YetUnknown)"
proof -
  have "\<exists>P b' u. bl_existing_bids_amount P = existing \<and> bl_project_id P = db_project_id D \<and>
      bl_bidder P = db_bidder D \<and> existing < as_u32 (MaxBidsPerUser T) \<and>
      existing = length (prefix2 (db_project_id D) (db_bidder D) (Bids s)) \<and>
      bid_loop T P b (db_ct_amount D) 0 s = (Inr (b', calls), u) \<and>
      t = u\<lparr>Buckets := (Buckets u)(db_project_id D \<mapsto> b')\<rparr>"
    using assms(1,2) unfolding do_bid_def Let_def
    by (elim prog_elims) (rule exI, intro exI conjI, simp_all)
  then obtain P b' u where P: "bl_existing_bids_amount P = existing" "bl_project_id P = db_project_id D"
      "bl_bidder P = db_bidder D" "existing < as_u32 (MaxBidsPerUser T)"
      "existing = length (prefix2 (db_project_id D) (db_bidder D) (Bids s))"
    and run: "bid_loop T P b (db_ct_amount D) 0 s = (Inr (b', calls), u)"
    and t: "t = u\<lparr>Buckets := (Buckets u)(db_project_id D \<mapsto> b')\<rparr>" by blast
  have "as_u32 (MaxBidsPerUser T) \<le> MaxBidsPerUser T" by (simp add: as_u32_def)
  with bid_loop_splits [OF run] P assms(3) t show ?thesis by fastforce
qed

definition demo_bid_params :: do_bid_params where
  "demo_bid_params =
     \<lparr>db_bidder = 9, db_project_id = 0, db_ct_amount = 5000 * 10 ^ 6, db_multiplier = 1,
      db_funding_asset = USDT, db_did = ''bidder'', db_investor_type = Institutional,
      db_whitelisted_policy = ''cid''\<rparr>"

lemma demo_state_lookup:
  "get_details 0 demo_state = Some demo_details" "ProjectsMetadata demo_state 0 = Some demo_metadata"
  "Buckets demo_state 0 = Some (new_bucket (5000 * 10 ^ 6) DIV (DIV div 10) (500 * 10 ^ 6))"
  "Evaluations demo_state = []"
  by (simp_all add: demo_state_def get_details_def nmap_get_def)

lemma demo_asset_price: "funding_asset_price demo_config USDT l = Some DIV"
  by (simp add: funding_asset_price_def get_decimals_aware_price_def calculate_decimals_aware_price_def
      demo_config_def plain_arith_def USD_DECIMALS_def DIV_def checked_pow_def u128_max_def)

lemma demo_lock:
  "Evaluations s = [] \<Longrightarrow> n \<le> free (ext s) who \<Longrightarrow>
   \<exists>l. try_plmc_participation_lock demo_config who p n s = (Inr (), s\<lparr>ext := l\<rparr>) \<and> assets l = assets (ext s)"
  by (simp add: try_plmc_participation_lock_def prefix2_def prog_defs demo_ledger_defs plain_defs)
     (rule exI, rule conjI, rule refl, simp)

lemma demo_asset_hold:
  "n \<le> assets (ext s) a who \<Longrightarrow> fund_account_id demo_config p \<noteq> who \<Longrightarrow>
   \<exists>l. try_funding_asset_hold demo_config who p n a s = (Inr (), s\<lparr>ext := l\<rparr>)"
  by (simp add: try_funding_asset_hold_def prog_defs demo_transfer_def Let_def) (rule exI, rule refl)

lemma bid_loop_one:
  "0 < n \<Longrightarrow> n \<le> bk_amount_left b \<Longrightarrow>
   do_perform_bid T (perform_bid_params P (NextBidId s) n (bk_current_price b) c) s = (Inr x, t) \<Longrightarrow>
   bid_loop T P b n c s = (Inr (bucket_update b n, wrapping_add_u32 c 1), t)"
  by (simp add: bid_loop.simps [of T P b n c s] bid_loop.simps [of T P "bucket_update b n" 0])

lemma demo_amounts:
  "calculate_plmc_bond demo_config (5000 * 10 ^ 6) 1 s = (Inr (10 ^ 14), s)"
  "calculate_funding_asset_amount demo_config (5000 * 10 ^ 6) USDT s = (Inr (5000 * 10 ^ 6), s)"
  by (simp_all add: calculate_plmc_bond_def calculate_funding_asset_amount_def demo_plmc_usd_price
      demo_asset_price calculate_bonding_requirement_def checked_div_def prog_defs plain_arith_def DIV_def u128_max_def)

lemma demo_do_bid: "\<exists>t. do_bid demo_config demo_bid_params demo_state = (Inr (0, 1), t)"
proof -
  let ?P = "\<lparr>bl_bidder = 9, bl_project_id = 0, bl_multiplier = 1, bl_funding_asset = USDT, bl_now = 60,
       bl_did = ''bidder'', bl_bounds = demo_bidding_ticket, bl_existing_bids_amount = 0,
       bl_total_bids_for_project = 3\<rparr>"
  obtain l where l: "try_plmc_participation_lock demo_config 9 0 (10 ^ 14) demo_state =
      (Inr (), demo_state\<lparr>ext := l\<rparr>)" "assets l = assets (ext demo_state)"
    using demo_lock [of demo_state "10 ^ 14" 9 0] by (auto simp: demo_state_def)
  obtain k where k: "try_funding_asset_hold demo_config 9 0 (5000 * 10 ^ 6) 1984 (demo_state\<lparr>ext := l\<rparr>) =
      (Inr (), demo_state\<lparr>ext := l, ext := k\<rparr>)"
    using demo_asset_hold [of "5000 * 10 ^ 6" "demo_state\<lparr>ext := l\<rparr>" 1984 9 0] l(2)
    by (auto simp: demo_state_def fund_account_id_def saturating_add_u32_def u32_max_def)
  have price: "f_checked_mul_int (arith demo_config) DIV (5000 * 10 ^ 6) = Some (5000 * 10 ^ 6)"
    by (simp add: plain_arith_def DIV_def u128_max_def)
  have limits: "usd_ticket_below_maximum_per_did demo_bidding_ticket n"
    "saturating_add_u32 0 0 < as_u32 16" "saturating_add_u32 3 0 < as_u32 1024" for n
    by (simp_all add: usd_ticket_below_maximum_per_did_def demo_bidding_ticket_def saturating_add_u32_def
        as_u32_def u32_max_def)
  have "\<exists>x t. do_perform_bid demo_config (perform_bid_params ?P (NextBidId demo_state) (5000 * 10 ^ 6) DIV 0)
      demo_state = (Inr x, t)"
    using price limits l(1) k demo_amounts [of demo_state]
    by (simp only: do_perform_bid_def perform_bid_params_def Let_def prog_defs funding_access_defs
        do_perform_bid_params.simps bid_loop_params.simps) (simp add: prog_defs)
  then obtain x t where "do_perform_bid demo_config (perform_bid_params ?P (NextBidId demo_state) (5000 * 10 ^ 6) DIV 0)
      demo_state = (Inr x, t)" by blast
  then have loop: "bid_loop demo_config ?P (new_bucket (5000 * 10 ^ 6) DIV (DIV div 10) (500 * 10 ^ 6)) (5000 * 10 ^ 6) 0
      demo_state = (Inr (bucket_update (new_bucket (5000 * 10 ^ 6) DIV (DIV div 10) (500 * 10 ^ 6)) (5000 * 10 ^ 6),
        wrapping_add_u32 0 1), t)"
    by (intro bid_loop_one) (simp_all add: new_bucket_def)
  have fields: "block_number demo_state = 60" "BidCounts demo_state 0 = 3" "prefix2 0 9 (Bids demo_state) = []"
    "md_policy_ipfs_cid demo_metadata = Some ''cid''" "pd_status demo_details = AuctionRound"
    "pd_issuer_did demo_details = ''issuer''" "md_participation_currencies demo_metadata = [USDT, DOT]"
    "bidding_bounds demo_metadata Institutional = Inr demo_bidding_ticket"
    "bidding_max_multiplier Institutional = Inr 25"
    "percent_mul plain_arith (md_auction_round_allocation_percentage demo_metadata)
      (md_total_allocation_size demo_metadata) = 5000 * 10 ^ 6"
    by (simp_all add: demo_state_def prefix2_def demo_metadata_def demo_details_def bidding_bounds_def
        bidding_max_multiplier_def INSTITUTIONAL_MAX_MULTIPLIER_def plain_arith_def)
  show ?thesis
    using loop price
    by (simp add: do_bid_def demo_bid_params_def Let_def prog_simps demo_state_lookup fields)
       (simp add: new_bucket_def as_u32_def wrapping_add_u32_def demo_bidding_ticket_def
         usd_ticket_above_minimum_per_participation_def)
qed

theorem bid_split_along_buckets_witness:
  "\<exists>t bs. do_bid demo_config demo_bid_params demo_state = (Inr (0, 1), t) \<and>
     Bids t = store_bids demo_config 0 bs (Bids demo_state) \<and>
     sum_list (map bid_original_ct_amount bs) = 5000 * 10 ^ 6 \<and> map bid_id bs = [3]"
proof -
  obtain t where t: "do_bid demo_config demo_bid_params demo_state = (Inr (0, 1), t)" using demo_do_bid by blast
  have D: "db_project_id demo_bid_params = 0" "db_ct_amount demo_bid_params = 5000 * 10 ^ 6"
    by (simp_all add: demo_bid_params_def)
  have "NextBidId demo_state = 3" by (simp add: demo_state_def)
  with bid_split_along_buckets [OF t, unfolded D, OF demo_state_lookup(3)] t show ?thesis
    by (auto simp: as_u32_def u32_max_def)
qed

section \<open>Contributions\<close>

definition contributions_keyed :: "('l, 'z) funding_state_scheme \<Rightarrow> bool" where
  "contributions_keyed s \<longleftrightarrow> (\<forall>((p, a, i), c)\<in>set (Contributions s). i < NextContributionId s)"

definition tokens_accounted :: "project_id \<Rightarrow> project_details \<Rightarrow> ('l, 'z) funding_state_scheme \<Rightarrow> nat" where
  "tokens_accounted p d s =
     pd_remaining_contribution_tokens d + sum_list (map co_ct_amount (prefix1 p (Contributions s)))"

text \<open>
  C37. A contribution never oversells: it takes a positive amount, what was asked for or what remains if
  that is less, and the remaining tokens together with all contributions stay the same. The project
  must be in its community round, before the end of the round.
\<close>

theorem contribution_conserves_tokens:
  assumes "do_contribute T D s = (Inr (), t)" "contributions_keyed s" "NextContributionId s < u32_max"
    and "get_details (dc_project_id D) s = Some d"
  shows "\<exists>d' n. get_details (dc_project_id D) t = Some d' \<and>
    pd_status d = CommunityRound n \<and>
    tokens_accounted (dc_project_id D) d' t = tokens_accounted (dc_project_id D) d s \<and>
    pd_remaining_contribution_tokens d = pd_remaining_contribution_tokens d' +
      min (dc_ct_amount D) (pd_remaining_contribution_tokens d) \<and>
    0 < min (dc_ct_amount D) (pd_remaining_contribution_tokens d) \<and> contributions_keyed t"
proof -
  let ?p = "dc_project_id D" and ?n = "min (dc_ct_amount D) (pd_remaining_contribution_tokens d)"
  have "\<exists>m. pd_status d = CommunityRound m \<and> 0 < ?n \<and>
      do_perform_contribution T D (d\<lparr>pd_remaining_contribution_tokens :=
        pd_remaining_contribution_tokens d - ?n\<rparr>) ?n s = (Inr (), t)"
    using assms(1,4) unfolding do_contribute_def Let_def
    by (elim prog_elims) (auto simp: prog_simps err_def)
  then obtain m where m: "pd_status d = CommunityRound m" "0 < ?n"
    and run: "do_perform_contribution T D (d\<lparr>pd_remaining_contribution_tokens :=
        pd_remaining_contribution_tokens d - ?n\<rparr>) ?n s = (Inr (), t)" by blast
  from run obtain c usd where c: "Contributions t = nmap_insert (hash_participation T)
      (?p, dc_contributor D, NextContributionId s) c (Contributions s)"
    and d': "ProjectsDetails t = nmap_insert (hash_project T) ?p
      (d\<lparr>pd_remaining_contribution_tokens := pd_remaining_contribution_tokens d - ?n,
         pd_funding_amount_reached_usd := saturating_add (pd_funding_amount_reached_usd d) usd\<rparr>)
      (ProjectsDetails s)"
    and "NextContributionId t = saturating_add_u32 (NextContributionId s) 1" "co_ct_amount c = ?n"
    by (rule do_perform_contribution_Inr) simp
  have fresh: "nmap_get (Contributions s) (?p, dc_contributor D, NextContributionId s) = None"
    using assms(2) by (auto simp: contributions_keyed_def nmap_get_def map_of_eq_None_iff)
  have next_id: "NextContributionId t = Suc (NextContributionId s)"
    using \<open>NextContributionId t = _\<close> assms(3) by (simp add: saturating_add_u32_def)
  have "set (Contributions t) \<subseteq>
      insert ((?p, dc_contributor D, NextContributionId s), c) (set (Contributions s))"
    using fresh takeWhile_dropWhile_set [of _ "Contributions s"]
    by (auto simp: c nmap_insert_def nmap_get_def dest: set_takeWhileD set_dropWhileD)
  then have "contributions_keyed t"
    using assms(2) next_id by (fastforce simp: contributions_keyed_def)
  then show ?thesis
    using m \<open>co_ct_amount c = ?n\<close>
    by (simp add: get_details_def d' nmap_get_insert tokens_accounted_def c prefix1_insert_fresh(1) [OF fresh])
qed

definition demo_community_details :: project_details where
  "demo_community_details = demo_details\<lparr>pd_status := CommunityRound 70, pd_weighted_average_price := Some DIV,
     pd_round_duration := \<lparr>bp_start = Some 50, bp_end = Some 90\<rparr>,
     pd_remaining_contribution_tokens := 5000 * 10 ^ 6\<rparr>"

definition demo_community_state :: "demo_ledger funding_state" where
  "demo_community_state = demo_state\<lparr>ProjectsDetails := [(0, demo_community_details)]\<rparr>"

definition demo_contribute_params :: do_contribute_params where
  "demo_contribute_params =
     \<lparr>dc_contributor = 11, dc_project_id = 0, dc_ct_amount = 9000 * 10 ^ 6, dc_multiplier = 1,
      dc_funding_asset = USDT, dc_did = ''retail'', dc_investor_type = Retail,
      dc_whitelisted_policy = ''cid''\<rparr>"

lemma demo_community_lookup:
  "get_details 0 demo_community_state = Some demo_community_details"
  "ProjectsMetadata demo_community_state 0 = Some demo_metadata"
  "Evaluations demo_community_state = []" "Contributions demo_community_state = []"
  "block_number demo_community_state = 60" "ext demo_community_state = ext demo_state"
  "NextContributionId demo_community_state = 0" "DidWithWinningBids demo_community_state = (\<lambda>_. False)"
  by (simp_all add: demo_community_state_def demo_state_def get_details_def nmap_get_def)

lemma demo_do_contribute:
  "\<exists>t. do_contribute demo_config demo_contribute_params demo_community_state = (Inr (), t)"
proof -
  let ?s = demo_community_state
  obtain l where l: "try_plmc_participation_lock demo_config 11 0 (10 ^ 14) ?s = (Inr (), ?s\<lparr>ext := l\<rparr>)"
      "assets l = assets (ext demo_state)"
    using demo_lock [of ?s "10 ^ 14" 11 0] demo_community_lookup by (auto simp: demo_state_def)
  obtain k where k: "try_funding_asset_hold demo_config 11 0 (5000 * 10 ^ 6) 1984 (?s\<lparr>ext := l\<rparr>) =
      (Inr (), ?s\<lparr>ext := l, ext := k\<rparr>)"
    using demo_asset_hold [of "5000 * 10 ^ 6" "?s\<lparr>ext := l\<rparr>" 1984 11 0] l(2)
    by (auto simp: demo_state_def fund_account_id_def saturating_add_u32_def u32_max_def)
  have price: "f_checked_mul_int (arith demo_config) DIV (5000 * 10 ^ 6) = Some (5000 * 10 ^ 6)"
    by (simp add: plain_arith_def DIV_def u128_max_def)
  have "\<exists>t. do_perform_contribution demo_config demo_contribute_params
      (demo_community_details\<lparr>pd_remaining_contribution_tokens := 0\<rparr>) (5000 * 10 ^ 6) ?s = (Inr (), t)"
    using price l(1) k demo_amounts [of ?s]
    by (simp add: do_perform_contribution_def demo_contribute_params_def Let_def prog_simps funding_access_defs
        demo_community_lookup prefix2_def)
       (simp add: demo_community_details_def demo_details_def demo_metadata_def contributing_bounds_def
         contributing_max_multiplier_def RETAIL_MAX_MULTIPLIER_def demo_ticket_def
         usd_ticket_above_minimum_per_participation_def usd_ticket_below_maximum_per_did_def)
  then show ?thesis
    by (simp add: do_contribute_def demo_contribute_params_def Let_def prog_simps demo_community_lookup)
       (simp add: demo_community_details_def prog_defs)
qed

theorem contribution_conserves_tokens_witness:
  "\<exists>t d'. do_contribute demo_config demo_contribute_params demo_community_state = (Inr (), t) \<and>
     get_details 0 t = Some d' \<and> pd_remaining_contribution_tokens d' = 0"
proof -
  obtain t where t: "do_contribute demo_config demo_contribute_params demo_community_state = (Inr (), t)"
    using demo_do_contribute by blast
  have "contributions_keyed demo_community_state" by (simp add: contributions_keyed_def demo_community_lookup)
  from contribution_conserves_tokens [OF t this] t show ?thesis
    by (auto simp: demo_community_lookup demo_contribute_params_def u32_max_def demo_community_details_def)
qed

end
