(* ===== verification/Funding_Solvency_Props.thy ===== *)
theory Funding_Solvency_Props
  imports Funding_Participation_Props
begin

text \<open>
  The PLMC bonds of the evaluators. The pallet never stores how much of an account's balance is held
  for its evaluations; it relies on the hold being the sum of the current bonds of the account's
  evaluations. That equality, together with the slash deposit every evaluation keeps, is an invariant
  of all calls. Calls are transactional, so the rules below only look at successful runs.
\<close>

section \<open>Invariants of successful runs\<close>

named_theorems success_rules

definition on_success :: "('s \<Rightarrow> bool) \<Rightarrow> ('s, 'e, 'a) prog \<Rightarrow> bool" where
  "on_success P m \<longleftrightarrow> (\<forall>s r t. P s \<longrightarrow> m s = (Inr r, t) \<longrightarrow> P t)"

lemma on_successI: "(\<And>s r t. P s \<Longrightarrow> m s = (Inr r, t) \<Longrightarrow> P t) \<Longrightarrow> on_success P m"
  by (auto simp: on_success_def)

lemma on_successD: "on_success P m \<Longrightarrow> P s \<Longrightarrow> m s = (Inr r, t) \<Longrightarrow> P t"
  by (auto simp: on_success_def)

lemma success_basic [success_rules]:
  "on_success P (ok a)" "on_success P (err e)" "on_success P (gets f)" "on_success P (ensure c e)"
  "on_success P (ok_or x e)" "on_success P (of_result y)"
  by (auto simp: on_success_def prog_simps)

lemma success_sbind [success_rules]:
  "on_success P m \<Longrightarrow> (\<And>a. on_success P (f a)) \<Longrightarrow> on_success P (sbind m f)"
  unfolding on_success_def sbind_Inr by blast

lemma success_seq [success_rules]: "on_success P m \<Longrightarrow> on_success P n \<Longrightarrow> on_success P (seq m n)"
  unfolding on_success_def seq_Inr by blast

lemma success_modify [success_rules]: "(\<And>s. P s \<Longrightarrow> P (f s)) \<Longrightarrow> on_success P (modify f)"
  by (auto simp: on_success_def prog_simps)

lemma success_map_err [success_rules]: "on_success P m \<Longrightarrow> on_success P (map_err f m)"
  and success_transactional [success_rules]: "on_success P m \<Longrightarrow> on_success P (transactional m)"
  by (auto simp: on_success_def prog_simps)

lemma success_if [success_rules]:
  "(c \<Longrightarrow> on_success P m) \<Longrightarrow> (\<not> c \<Longrightarrow> on_success P n) \<Longrightarrow> on_success P (if c then m else n)"
  by simp

lemma success_option [success_rules]:
  "(x = None \<Longrightarrow> on_success P m) \<Longrightarrow> (\<And>a. x = Some a \<Longrightarrow> on_success P (f a)) \<Longrightarrow>
   on_success P (case x of None \<Rightarrow> m | Some a \<Rightarrow> f a)"
  by (cases x) auto

lemma success_prod [success_rules]:
  "(\<And>a b. x = (a, b) \<Longrightarrow> on_success P (f a b)) \<Longrightarrow> on_success P (case x of (a, b) \<Rightarrow> f a b)"
  by (cases x) auto

section \<open>Sums over a storage map\<close>

definition total_of :: "('k \<times> 'v \<Rightarrow> nat) \<Rightarrow> ('k, 'v) nmap \<Rightarrow> nat" where
  "total_of f m = sum_list (map f m)"

lemma total_of_insert_fresh:
  "nmap_get m k = None \<Longrightarrow> total_of f (nmap_insert h k v m) = total_of f m + f (k, v)"
  using sum_filter_takeWhile [of f "\<lambda>_. True" "\<lambda>e. h (fst e) < h k" m]
  by (simp add: total_of_def nmap_insert_def nmap_get_def)

lemma total_of_remove:
  "nmap_wf m \<Longrightarrow> nmap_get m k = Some v \<Longrightarrow> total_of f (nmap_remove k m) + f (k, v) = total_of f m"
proof (induction m)
  case (Cons e m)
  show ?case
  proof (cases "fst e = k")
    case True
    then have "k \<notin> fst ` set m" using Cons.prems(1) by (auto simp: nmap_wf_def)
    then have "\<forall>x\<in>set m. fst x \<noteq> k" by (metis image_eqI)
    then have "nmap_remove k m = m" by (simp add: nmap_remove_def filter_id_conv)
    with True Cons.prems show ?thesis by (cases e) (simp add: total_of_def nmap_remove_def nmap_get_def)
  next
    case False
    with Cons show ?thesis
      by (cases e) (auto simp: total_of_def nmap_remove_def nmap_get_def nmap_wf_def)
  qed
qed (simp add: nmap_get_def)

lemma total_of_insert_existing:
  "nmap_wf m \<Longrightarrow> nmap_get m k = Some u \<Longrightarrow> total_of f (nmap_insert h k v m) + f (k, u) = total_of f m + f (k, v)"
proof -
  assume wf: "nmap_wf m" and k: "nmap_get m k = Some u"
  have "nmap_remove k (nmap_insert h k v m) = nmap_remove k m"
    using wf k by (auto simp: nmap_insert_existing nmap_remove_def filter_map comp_def intro: map_idI)
  with total_of_remove [OF wf k, of f] total_of_remove [where m = "nmap_insert h k v m" and k = k and v = v and f = f] nmap_wf_insert [OF wf]
  show ?thesis by (simp add: nmap_get_insert)
qed

section \<open>The bonds of the evaluators\<close>

definition slash_deposit :: "('l, 'c) funding_config_scheme \<Rightarrow> evaluation_info \<Rightarrow> nat" where
  "slash_deposit T e = percent_mul (arith T) (EvaluatorSlash T) (ev_original_plmc_bond e)"

definition bond_of :: "account \<Rightarrow> participation_key \<times> evaluation_info \<Rightarrow> nat" where
  "bond_of who e = (if fst (snd (fst e)) = who then ev_current_plmc_bond (snd e) else 0)"

definition evaluation_hold :: "('l, 'c) funding_config_scheme \<Rightarrow> account \<Rightarrow> 'l \<Rightarrow> nat" where
  "evaluation_hold T who l = c_balance_on_hold (Currency T) (FundingReason Evaluation) who l"

definition evaluations_backed :: "('l, 'c) funding_config_scheme \<Rightarrow> ('l, 'z) funding_state_scheme \<Rightarrow> bool" where
  "evaluations_backed T s \<longleftrightarrow> evaluations_keyed s \<and>
     (\<forall>e\<in>set (Evaluations s). slash_deposit T (snd e) \<le> ev_current_plmc_bond (snd e)) \<and>
     (\<forall>who. evaluation_hold T who (ext s) = total_of (bond_of who) (Evaluations s))"

text \<open>
  What the pallet relies on: the holds follow the contract of the currency, and no other external call
  changes what is held for evaluations.
\<close>

definition keeps_evaluation_holds :: "('l, 'c) funding_config_scheme \<Rightarrow> ('l, 'a) dprog \<Rightarrow> bool" where
  "keeps_evaluation_holds T m \<longleftrightarrow>
     (\<forall>l r l' who. m l = (Inr r, l') \<longrightarrow> evaluation_hold T who l' = evaluation_hold T who l)"

definition bond_laws :: "('l, 'c) funding_config_scheme \<Rightarrow> bool" where
  "bond_laws T \<longleftrightarrow>
     release_laws (Currency T) \<and> hold_laws (Currency T) \<and> transfer_on_hold_laws (Currency T) \<and>
     percent_laws (arith T) \<and> EvaluatorSlash T \<le> 100 \<and>
     (\<forall>a b n pr. keeps_evaluation_holds T (c_transfer (Currency T) a b n pr)) \<and>
     (\<forall>i a b n pr. keeps_evaluation_holds T (fc_transfer T i a b n pr)) \<and>
     (\<forall>p a b n. keeps_evaluation_holds T (ct_create T p a b n)) \<and>
     (\<forall>p a n sy d. keeps_evaluation_holds T (ct_set T p a n sy d)) \<and>
     (\<forall>p a b. keeps_evaluation_holds T (ct_touch T p a b)) \<and>
     (\<forall>p a n. keeps_evaluation_holds T (ct_mint_into T p a n)) \<and>
     (\<forall>a n. keeps_evaluation_holds T (on_slash_hook T a n)) \<and>
     (\<forall>loc m. keeps_evaluation_holds T (send_xcm T loc m)) \<and>
     (\<forall>loc n l who. evaluation_hold T who (snd (new_notify_query T loc n l)) = evaluation_hold T who l)"

lemma success_ext:
  "keeps_evaluation_holds T m \<Longrightarrow> on_success (evaluations_backed T) (on_ext m)"
  by (auto simp: on_success_def prog_simps evaluations_backed_def evaluations_keyed_def keeps_evaluation_holds_def)

lemma participation_keeps_evaluation_holds:
  assumes "bond_laws T"
  shows "keeps_evaluation_holds T (c_release (Currency T) (FundingReason Participation) who n pr)"
    and "keeps_evaluation_holds T (c_hold (Currency T) (FundingReason Participation) who n)"
proof -
  show "keeps_evaluation_holds T (c_release (Currency T) (FundingReason Participation) who n pr)"
    using assms release_lawsD(6) [of "Currency T" "FundingReason Participation" who n pr]
    by (force simp: keeps_evaluation_holds_def evaluation_hold_def bond_laws_def)
  show "keeps_evaluation_holds T (c_hold (Currency T) (FundingReason Participation) who n)"
    using assms by (auto simp: keeps_evaluation_holds_def evaluation_hold_def bond_laws_def hold_laws_def)
qed

lemma success_bond_ext [success_rules]:
  assumes "bond_laws T"
  shows "on_success (evaluations_backed T) (on_ext (c_release (Currency T) (FundingReason Participation) who n pr))"
    "on_success (evaluations_backed T) (on_ext (c_hold (Currency T) (FundingReason Participation) who n))"
    "on_success (evaluations_backed T) (on_ext (c_transfer (Currency T) a b n pv))"
    "on_success (evaluations_backed T) (on_ext (fc_transfer T i a b n pv))"
    "on_success (evaluations_backed T) (on_ext (ct_create T p a fl n))"
    "on_success (evaluations_backed T) (on_ext (ct_set T p a nm sy d))"
    "on_success (evaluations_backed T) (on_ext (ct_touch T p a b))"
    "on_success (evaluations_backed T) (on_ext (ct_mint_into T p a n))"
    "on_success (evaluations_backed T) (on_ext (on_slash_hook T a n))"
    "on_success (evaluations_backed T) (on_ext (send_xcm T loc msg))"
  using assms participation_keeps_evaluation_holds [OF assms]
  by (auto simp: bond_laws_def intro!: success_ext)

lemma evaluations_backed_update [simp]:
  "evaluations_backed T (s\<lparr>Vesting := x0\<rparr>) = evaluations_backed T s"
  "evaluations_backed T (s\<lparr>lr_events := x1\<rparr>) = evaluations_backed T s"
  "evaluations_backed T (s\<lparr>NextProjectId := x2\<rparr>) = evaluations_backed T s"
  "evaluations_backed T (s\<lparr>NextBidId := x3\<rparr>) = evaluations_backed T s"
  "evaluations_backed T (s\<lparr>NextContributionId := x4\<rparr>) = evaluations_backed T s"
  "evaluations_backed T (s\<lparr>BidCounts := x5\<rparr>) = evaluations_backed T s"
  "evaluations_backed T (s\<lparr>EvaluationCounts := x6\<rparr>) = evaluations_backed T s"
  "evaluations_backed T (s\<lparr>ProjectsMetadata := x7\<rparr>) = evaluations_backed T s"
  "evaluations_backed T (s\<lparr>Buckets := x8\<rparr>) = evaluations_backed T s"
  "evaluations_backed T (s\<lparr>ProjectsDetails := x9\<rparr>) = evaluations_backed T s"
  "evaluations_backed T (s\<lparr>Bids := x10\<rparr>) = evaluations_backed T s"
  "evaluations_backed T (s\<lparr>Contributions := x11\<rparr>) = evaluations_backed T s"
  "evaluations_backed T (s\<lparr>AuctionBoughtUSD := x12\<rparr>) = evaluations_backed T s"
  "evaluations_backed T (s\<lparr>ContributionBoughtUSD := x13\<rparr>) = evaluations_backed T s"
  "evaluations_backed T (s\<lparr>UserMigrations := x14\<rparr>) = evaluations_backed T s"
  "evaluations_backed T (s\<lparr>UnmigratedCounter := x15\<rparr>) = evaluations_backed T s"
  "evaluations_backed T (s\<lparr>ActiveMigrationQueue := x16\<rparr>) = evaluations_backed T s"
  "evaluations_backed T (s\<lparr>DidWithActiveProjects := x17\<rparr>) = evaluations_backed T s"
  "evaluations_backed T (s\<lparr>DidWithWinningBids := x18\<rparr>) = evaluations_backed T s"
  "evaluations_backed T (s\<lparr>events := x19\<rparr>) = evaluations_backed T s"
  by (simp_all add: evaluations_backed_def evaluations_keyed_def)

lemma success_access [success_rules]:
  "on_success (evaluations_backed T) (details_of p)"
  "on_success (evaluations_backed T) (metadata_of p)"
  "on_success (evaluations_backed T) (bucket_of p)"
  "on_success (evaluations_backed T) (insert_details T' p d)"
  "on_success (evaluations_backed T) (insert_bid T' k b)"
  "on_success (evaluations_backed T) (insert_contribution T' k c)"
  "on_success (evaluations_backed T) (set_active_project did q)"
  "on_success (evaluations_backed T) (deposit_event ev)"
  "on_success (evaluations_backed T) (mark_winning p did)"
  "on_success (evaluations_backed T) (decrement_unmigrated p)"
  "on_success (evaluations_backed T) (ensure_signed orig)"
  "on_success (evaluations_backed T) (ensure_investor T' orig j)"
  "on_success (evaluations_backed T) (ensure_institutional T' orig j)"
  "on_success (evaluations_backed T) (ensure_response loc)"
  by (auto simp: funding_access_defs mark_winning_def decrement_unmigrated_def ensure_signed_def
      ensure_investor_def ensure_institutional_def ensure_response_def
      split: origin.splits intro!: success_rules)

section \<open>Locking a bond moves it between the holds\<close>

text \<open>An evaluation whose current bond goes down by what is released keeps the invariant.\<close>

lemma backed_lower_bond:
  assumes "bond_laws T" "evaluations_backed T s" "nmap_get (Evaluations s) (p, who, ev_id e) = Some e"
    and "n \<le> ev_current_plmc_bond e - slash_deposit T e"
    and "c_release (Currency T) (FundingReason Evaluation) who n Exact (ext s) = (Inr r, l)"
  shows "evaluations_backed T (s\<lparr>Evaluations := nmap_insert (hash_participation T) (p, who, ev_id e)
    (e\<lparr>ev_current_plmc_bond := ev_current_plmc_bond e - n\<rparr>) (Evaluations s), ext := l\<rparr>)"
proof -
  let ?k = "(p, who, ev_id e)" and ?e = "e\<lparr>ev_current_plmc_bond := ev_current_plmc_bond e - n\<rparr>"
  let ?m = "nmap_insert (hash_participation T) ?k ?e (Evaluations s)"
  have wf: "nmap_wf (Evaluations s)" and e: "(?k, e) \<in> set (Evaluations s)"
    using assms(2,3) by (auto simp: evaluations_backed_def evaluations_keyed_def nmap_get_in_set)
  then have keys: "?k = (ev_project_id e, ev_evaluator e, ev_id e)" "ev_id e < NextEvaluationId s"
    "slash_deposit T e \<le> ev_current_plmc_bond e"
    using assms(2) by (auto simp: evaluations_backed_def evaluations_keyed_def)
  have hold: "n \<le> evaluation_hold T who (ext s)"
    "evaluation_hold T w l = (if w = who then evaluation_hold T who (ext s) - n else evaluation_hold T w (ext s))" for w
    using release_lawsD [OF _ assms(5)] assms(1)
    by (auto simp: bond_laws_def evaluation_hold_def)
  have sum: "total_of (bond_of w) ?m + (if w = who then n else 0) = total_of (bond_of w) (Evaluations s)" for w
    using total_of_insert_existing [OF wf assms(3), of "bond_of w" "hash_participation T" ?e] assms(4) keys(3)
    by (auto simp: bond_of_def)
  have "evaluation_hold T w l = total_of (bond_of w) ?m" for w
  proof -
    have "evaluation_hold T w (ext s) = total_of (bond_of w) (Evaluations s)"
      using assms(2) by (simp add: evaluations_backed_def)
    then show ?thesis using hold(2) [of w] sum [of w] by (auto split: if_splits)
  qed
  moreover have "set ?m = insert (?k, ?e) {x \<in> set (Evaluations s). fst x \<noteq> ?k}"
    by (rule nm.entries_insert [OF wf])
  moreover have "slash_deposit T ?e = slash_deposit T e" by (simp add: slash_deposit_def)
  ultimately show ?thesis
    using assms(2,4) keys wf
    by (auto simp: evaluations_backed_def evaluations_keyed_def nmap_wf_insert)
qed

lemma convert_evaluations_backed:
  assumes "bond_laws T"
  shows "evaluations_backed T s \<Longrightarrow> distinct (map ev_id es) \<Longrightarrow>
    \<forall>e\<in>set es. nmap_get (Evaluations s) (p, who, ev_id e) = Some e \<Longrightarrow>
    convert_evaluations T who p es n s = (Inr m, t) \<Longrightarrow> evaluations_backed T t"
proof (induction es arbitrary: n s)
  case Nil
  then show ?case by (simp add: ok_def)
next
  case (Cons e es)
  show ?case
  proof (cases "n = 0")
    case True
    with Cons.prems show ?thesis by (simp add: ok_def)
  next
    case False
    let ?c = "min n (ev_current_plmc_bond e - slash_deposit T e)"
    let ?s = "\<lambda>l. s\<lparr>Evaluations := nmap_insert (hash_participation T) (p, who, ev_id e)
        (e\<lparr>ev_current_plmc_bond := ev_current_plmc_bond e - ?c\<rparr>) (Evaluations s), ext := l\<rparr>"
    have "\<exists>r l k. c_release (Currency T) (FundingReason Evaluation) who ?c Exact (ext s) = (Inr r, l) \<and>
        c_hold (Currency T) (FundingReason Participation) who ?c l = (Inr (), k) \<and>
        convert_evaluations T who p es (n - ?c) (?s k) = (Inr m, t)"
      using Cons.prems(4) False
      by (clarsimp simp: Let_def prog_simps insert_evaluation_def slash_deposit_def)
    then obtain r l k where run: "c_release (Currency T) (FundingReason Evaluation) who ?c Exact (ext s) = (Inr r, l)"
        "c_hold (Currency T) (FundingReason Participation) who ?c l = (Inr (), k)"
        "convert_evaluations T who p es (n - ?c) (?s k) = (Inr m, t)"
      by blast
    have before: "evaluations_backed T (?s l)"
      using Cons.prems by (intro backed_lower_bond [OF assms _ _ _ run(1)]) auto
    have "on_ext (c_hold (Currency T) (FundingReason Participation) who ?c) (?s l) = (Inr (), ?s k)"
      using run(2) by (simp add: on_ext_def)
    from on_successD [OF success_bond_ext(2) [OF assms] before this]
    have k1: "evaluations_backed T (?s k)" .
    have k2: "\<forall>e'\<in>set es. nmap_get (Evaluations (?s k)) (p, who, ev_id e') = Some e'"
    proof
      fix e' assume e': "e' \<in> set es"
      then have "ev_id e' \<noteq> ev_id e" using Cons.prems(2) by (metis distinct.simps(2) image_eqI list.set_map list.simps(9))
      moreover have "nmap_get (Evaluations s) (p, who, ev_id e') = Some e'" using Cons.prems(3) e' by simp
      ultimately show "nmap_get (Evaluations (?s k)) (p, who, ev_id e') = Some e'" by (simp add: nmap_get_insert)
    qed
    have "distinct (map ev_id es)" using Cons.prems(2) by simp
    from Cons.IH [OF k1 this k2 run(3)] show ?thesis .
  qed
qed

lemma prefix2_entries:
  assumes "evaluations_backed T s"
  shows "distinct (map ev_id (prefix2 p who (Evaluations s)))"
    and "\<forall>e\<in>set (prefix2 p who (Evaluations s)). nmap_get (Evaluations s) (p, who, ev_id e) = Some e"
proof -
  let ?f = "filter (\<lambda>e. fst (fst e) = p \<and> fst (snd (fst e)) = who) (Evaluations s)"
  have key: "fst x = (p, who, ev_id (snd x))" if "x \<in> set ?f" for x
    using assms that by (auto simp: evaluations_backed_def evaluations_keyed_def)
  have "distinct (map fst ?f)"
    using assms by (auto simp: evaluations_backed_def evaluations_keyed_def nmap_wf_def distinct_map_filter)
  then have "distinct (map (\<lambda>x. (p, who, ev_id (snd x))) ?f)" using key by (metis (mono_tags, lifting) map_eq_conv)
  then show "distinct (map ev_id (prefix2 p who (Evaluations s)))"
    by (auto simp: prefix2_def distinct_map inj_on_def comp_def)
  show "\<forall>e\<in>set (prefix2 p who (Evaluations s)). nmap_get (Evaluations s) (p, who, ev_id e) = Some e"
    using assms by (auto simp: prefix2_def nmap_get_in_set evaluations_backed_def evaluations_keyed_def)
qed

lemma success_lock [success_rules]:
  assumes "bond_laws T"
  shows "on_success (evaluations_backed T) (try_plmc_participation_lock T who p n)"
proof (rule on_successI)
  fix s r t
  assume s: "evaluations_backed T s" and run: "try_plmc_participation_lock T who p n s = (Inr r, t)"
  have "\<exists>m u. convert_evaluations T who p (prefix2 p who (Evaluations s)) n s = (Inr m, u) \<and>
      on_ext (c_hold (Currency T) (FundingReason Participation) who m) u = (Inr r, t)"
    using run by (simp add: try_plmc_participation_lock_def prog_simps)
  then obtain m u where
    "convert_evaluations T who p (prefix2 p who (Evaluations s)) n s = (Inr m, u)"
    and hold: "on_ext (c_hold (Currency T) (FundingReason Participation) who m) u = (Inr r, t)" by blast
  from convert_evaluations_backed [OF assms s prefix2_entries [OF s] this(1)]
  show "evaluations_backed T t" by (rule on_successD [OF success_bond_ext(2) [OF assms] _ hold])
qed

section \<open>New and settled evaluations\<close>

lemma backed_new_evaluation:
  assumes "bond_laws T" "evaluations_backed T s"
    and "ev_project_id e = p" "ev_evaluator e = who" "ev_id e = NextEvaluationId s"
    and "ev_original_plmc_bond e = n" "ev_current_plmc_bond e = n"
    and "c_hold (Currency T) (FundingReason Evaluation) who n (ext s) = (Inr (), l)"
  shows "evaluations_backed T (s\<lparr>ext := l,
    Evaluations := nmap_insert (hash_participation T) (p, who, NextEvaluationId s) e (Evaluations s),
    NextEvaluationId := Suc (NextEvaluationId s)\<rparr>)"
proof -
  let ?k = "(p, who, NextEvaluationId s)"
  let ?m = "nmap_insert (hash_participation T) ?k e (Evaluations s)"
  have wf: "nmap_wf (Evaluations s)" using assms(2) by (simp add: evaluations_backed_def evaluations_keyed_def)
  have fresh: "nmap_get (Evaluations s) ?k = None"
    using assms(2) by (simp add: evaluations_keyed_fresh evaluations_backed_def)
  have "evaluation_hold T w l = evaluation_hold T w (ext s) + (if w = who then n else 0)" for w
    using assms(1,8) by (auto simp: bond_laws_def hold_laws_def evaluation_hold_def)
  then have "evaluation_hold T w l = total_of (bond_of w) ?m" for w
    using assms(2,7) by (auto simp: evaluations_backed_def total_of_insert_fresh [OF fresh] bond_of_def)
  moreover have "set ?m = insert (?k, e) {x \<in> set (Evaluations s). fst x \<noteq> ?k}"
    by (rule nm.entries_insert [OF wf])
  moreover have "slash_deposit T e \<le> ev_current_plmc_bond e"
    using assms(1,6,7) by (simp add: slash_deposit_def bond_laws_def percent_laws_def)
  ultimately show ?thesis
    using assms(2-5) wf
    by (auto simp: evaluations_backed_def evaluations_keyed_def nmap_wf_insert less_SucI)
qed

lemma evaluations_backed_cong:
  "evaluations_backed T s \<Longrightarrow> Evaluations t = Evaluations s \<Longrightarrow> NextEvaluationId t = NextEvaluationId s \<Longrightarrow>
   ext t = ext s \<Longrightarrow> evaluations_backed T t"
  by (simp add: evaluations_backed_def evaluations_keyed_def)

lemma do_evaluate_hold:
  assumes "do_evaluate T who p usd d cid s = (Inr u, t)"
  shows "\<exists>bond early late. c_hold (Currency T) (FundingReason Evaluation) who bond (ext s) = (Inr (), ext t) \<and>
    Evaluations t = nmap_insert (hash_participation T) (p, who, NextEvaluationId s)
      \<lparr>ev_id = NextEvaluationId s, ev_did = d, ev_project_id = p, ev_evaluator = who,
       ev_original_plmc_bond = bond, ev_current_plmc_bond = bond, ev_early_usd_amount = early,
       ev_late_usd_amount = late, ev_when = block_number s\<rparr> (Evaluations s) \<and>
    NextEvaluationId t = saturating_add_u32 (NextEvaluationId s) 1"
  using assms unfolding do_evaluate_def Let_def
  by (clarsimp simp: prog_simps funding_access_defs) blast

lemma do_evaluate_backed:
  assumes "bond_laws T" "evaluations_backed T s" "NextEvaluationId s < u32_max"
    and "do_evaluate T who p usd d cid s = (Inr u, t)"
  shows "evaluations_backed T t"
proof -
  obtain bond early late where
    hold: "c_hold (Currency T) (FundingReason Evaluation) who bond (ext s) = (Inr (), ext t)"
    and t: "Evaluations t = nmap_insert (hash_participation T) (p, who, NextEvaluationId s)
      \<lparr>ev_id = NextEvaluationId s, ev_did = d, ev_project_id = p, ev_evaluator = who,
       ev_original_plmc_bond = bond, ev_current_plmc_bond = bond, ev_early_usd_amount = early,
       ev_late_usd_amount = late, ev_when = block_number s\<rparr> (Evaluations s)"
      "NextEvaluationId t = Suc (NextEvaluationId s)"
    using do_evaluate_hold [OF assms(4)] assms(3) by (auto simp: saturating_add_u32_def)
  show ?thesis
    by (rule evaluations_backed_cong [OF backed_new_evaluation [OF assms(1,2) _ _ _ _ _ hold]])
      (simp_all add: t)
qed

text \<open>Removing an evaluation while its whole current bond leaves the hold.\<close>

lemma backed_remove:
  assumes "evaluations_backed T s" "nmap_get (Evaluations s) (p, who, i) = Some e"
    and "\<forall>w. evaluation_hold T w l + (if w = who then ev_current_plmc_bond e else 0) = evaluation_hold T w (ext s)"
  shows "evaluations_backed T (s\<lparr>ext := l, Evaluations := nmap_remove (p, who, i) (Evaluations s)\<rparr>)"
proof -
  have wf: "nmap_wf (Evaluations s)" using assms(1) by (simp add: evaluations_backed_def evaluations_keyed_def)
  have "evaluation_hold T w l = total_of (bond_of w) (nmap_remove (p, who, i) (Evaluations s))" for w
    using total_of_remove [OF wf assms(2), of "bond_of w"] assms(1) assms(3) [rule_format, of w]
    by (auto simp: evaluations_backed_def bond_of_def split: if_splits)
  then show ?thesis
    using assms(1) wf nm.entries_remove [OF wf, of "(p, who, i)"]
    by (auto simp: evaluations_backed_def evaluations_keyed_def nmap_wf_remove)
qed

text \<open>What is left of a hold after taking an amount from one account.\<close>

definition takes_bond :: "('l, 'c) funding_config_scheme \<Rightarrow> account \<Rightarrow> nat \<Rightarrow>
    ('l, 'z) funding_state_scheme \<Rightarrow> ('l, 'z) funding_state_scheme \<Rightarrow> bool" where
  "takes_bond T who n s t \<longleftrightarrow> Evaluations t = Evaluations s \<and> NextEvaluationId t = NextEvaluationId s \<and>
     (\<forall>w. evaluation_hold T w (ext t) + (if w = who then n else 0) = evaluation_hold T w (ext s))"

lemma takes_bond_trans:
  assumes "takes_bond T who m s t" "takes_bond T who n t u"
  shows "takes_bond T who (m + n) s u"
proof -
  have "evaluation_hold T w (ext u) + (if w = who then m + n else 0) = evaluation_hold T w (ext s)" for w
    using assms by (auto simp: takes_bond_def dest!: spec [of _ w])
  then show ?thesis using assms by (simp add: takes_bond_def)
qed

lemma takes_bond_release:
  assumes "bond_laws T" "on_ext (c_release (Currency T) (FundingReason Evaluation) who n Exact) s = (Inr r, t)"
  shows "takes_bond T who n s t"
proof -
  obtain l where l: "c_release (Currency T) (FundingReason Evaluation) who n Exact (ext s) = (Inr r, l)"
    and t: "t = s\<lparr>ext := l\<rparr>" using assms(2) by (auto simp: prog_simps)
  have laws: "release_laws (Currency T)" using assms(1) by (simp add: bond_laws_def)
  from release_lawsD(2-4,6) [OF laws l] show ?thesis by (auto simp: takes_bond_def evaluation_hold_def t)
qed

lemma takes_bond_on_hold:
  assumes "bond_laws T"
    and "on_ext (c_transfer_on_hold (Currency T) (FundingReason Evaluation) who dst n Exact) s = (Inr r, t)"
  shows "takes_bond T who n s t"
  using assms by (auto simp: takes_bond_def evaluation_hold_def prog_simps bond_laws_def transfer_on_hold_laws_def)

lemma takes_no_bond:
  assumes "keeps_evaluation_holds T m" "on_ext m s = (Inr r, t)"
  shows "takes_bond T who 0 s t"
  using assms by (auto simp: takes_bond_def prog_simps keeps_evaluation_holds_def)

lemma slash_evaluator_takes:
  assumes "bond_laws T" "slash_evaluator T e s = (Inr n, t)"
  shows "takes_bond T (ev_evaluator e) (slash_deposit T e) s t" "n = ev_current_plmc_bond e - slash_deposit T e"
proof -
  have "\<exists>r u. on_ext (c_transfer_on_hold (Currency T) (FundingReason Evaluation) (ev_evaluator e)
        (BlockchainOperationTreasury T) (slash_deposit T e) Exact) s = (Inr r, u) \<and>
      on_ext (on_slash_hook T (ev_evaluator e) (slash_deposit T e)) u = (Inr (), t) \<and>
      n = ev_current_plmc_bond e - slash_deposit T e"
    using assms(2) unfolding slash_evaluator_def Let_def slash_deposit_def [symmetric] saturating_sub_eq
    by (auto simp: sbind_Inr seq_Inr ok_Inr)
  then obtain r u where u: "on_ext (c_transfer_on_hold (Currency T) (FundingReason Evaluation) (ev_evaluator e)
        (BlockchainOperationTreasury T) (slash_deposit T e) Exact) s = (Inr r, u)"
    "on_ext (on_slash_hook T (ev_evaluator e) (slash_deposit T e)) u = (Inr (), t)"
    and n: "n = ev_current_plmc_bond e - slash_deposit T e" by blast
  have "keeps_evaluation_holds T (on_slash_hook T (ev_evaluator e) (slash_deposit T e))"
    using assms(1) by (simp add: bond_laws_def)
  from takes_bond_trans [OF takes_bond_on_hold [OF assms(1) u(1)] takes_no_bond [OF this u(2)]]
  show "takes_bond T (ev_evaluator e) (slash_deposit T e) s t" by simp
  show "n = ev_current_plmc_bond e - slash_deposit T e" by (rule n)
qed

lemma reward_evaluator_takes:
  assumes "bond_laws T" "reward_evaluator T p e info s = (Inr (n, ct), t)"
  shows "takes_bond T (ev_evaluator e) 0 s t" "n = ev_current_plmc_bond e"
proof -
  have touch: "keeps_evaluation_holds T (ct_touch T p a a)" and mint: "keeps_evaluation_holds T (ct_mint_into T p a c)" for a c
    using assms(1) by (simp_all add: bond_laws_def)
  show "n = ev_current_plmc_bond e"
    using assms(2) unfolding reward_evaluator_def Let_def by (auto simp: prog_simps)
  show "takes_bond T (ev_evaluator e) 0 s t"
    using assms(2) touch mint unfolding reward_evaluator_def mint_contribution_tokens_def Let_def
    by (auto simp: prog_simps if_Inr takes_bond_def keeps_evaluation_holds_def split: if_splits)
qed

text \<open>The parts of the state the invariant looks at.\<close>

definition bond_view :: "('l, 'z) funding_state_scheme \<Rightarrow> (participation_key, evaluation_info) nmap \<times> nat \<times> 'l" where
  "bond_view s = (Evaluations s, NextEvaluationId s, ext s)"

lemma success_view_create_migration:
  "on_success (\<lambda>s. bond_view s = v) (create_migration T p a i ty n d)"
  unfolding create_migration_def Let_def
  by (auto simp: bond_view_def intro!: success_rules)

lemma settlement_takes:
  assumes "bond_laws T" "slash_deposit T e \<le> ev_current_plmc_bond e"
    and "(case outcome of
            Some Slashed \<Rightarrow> sbind (slash_evaluator T e) (\<lambda>released. ok (released, 0))
          | Some (Rewarded info) \<Rightarrow> reward_evaluator T p e info
          | None \<Rightarrow> ok (ev_current_plmc_bond e, 0)) s = (Inr (n, ct), t)"
  shows "\<exists>m. takes_bond T (ev_evaluator e) m s t \<and> m + n = ev_current_plmc_bond e"
proof (cases outcome)
  case None
  with assms(3) have "takes_bond T (ev_evaluator e) 0 s t \<and> n = ev_current_plmc_bond e"
    by (simp add: ok_Inr takes_bond_def)
  then show ?thesis by (intro exI [of _ 0]) simp
next
  case (Some a)
  show ?thesis
  proof (cases a)
    case Slashed
    with assms(3) Some have "slash_evaluator T e s = (Inr n, t)" by (auto simp: prog_simps)
    from slash_evaluator_takes [OF assms(1) this] assms(2) show ?thesis by (intro exI [of _ "slash_deposit T e"]) simp
  next
    case (Rewarded info)
    with assms(3) Some have "reward_evaluator T p e info s = (Inr (n, ct), t)" by simp
    from reward_evaluator_takes [OF assms(1) this] show ?thesis by (intro exI [of _ 0]) simp
  qed
qed

lemma do_settle_evaluation_backed:
  assumes "bond_laws T" "evaluations_backed T s" "nmap_get (Evaluations s) (p, who, i) = Some e"
    and "do_settle_evaluation T e p s = (Inr u, t)"
  shows "evaluations_backed T t"
proof -
  have e: "ev_project_id e = p" "ev_evaluator e = who" "ev_id e = i" "slash_deposit T e \<le> ev_current_plmc_bond e"
    using nmap_get_in_set [of "Evaluations s" "(p, who, i)" e] assms(2,3)
    by (auto simp: evaluations_backed_def evaluations_keyed_def)
  let ?pay = "\<lambda>outcome. case outcome of
               Some Slashed \<Rightarrow> sbind (slash_evaluator T e) (\<lambda>released. ok (released, 0))
             | Some (Rewarded info) \<Rightarrow> reward_evaluator T p e info
             | None \<Rightarrow> ok (ev_current_plmc_bond e, 0)"
  let ?migrate = "\<lambda>ct. if 0 < ct then sbind (map_err (\<lambda>_. FErr BadMath) (of_result (multiplier_try_from 1)))
      (\<lambda>m. create_migration T p who i PTEvaluation ct (calculate_vesting_duration (arith T) (DAYS T) m)) else ok ()"
  have "\<exists>outcome n ct u1 r u2 u3 ev. ?pay outcome s = (Inr (n, ct), u1) \<and>
      on_ext (c_release (Currency T) (FundingReason Evaluation) who n Exact) u1 = (Inr r, u2) \<and>
      ?migrate ct u2 = (Inr (), u3) \<and>
      t = u3\<lparr>Evaluations := nmap_remove (p, who, i) (Evaluations u3), events := ev\<rparr>"
    using assms(4) unfolding do_settle_evaluation_def Let_def details_of_def deposit_event_def e
    by (simp only: sbind_Inr seq_Inr gets_Inr ok_or_Inr ensure_Inr modify_Inr split_paired_Ex prod.case)
      (fastforce simp only: sbind_Inr seq_Inr modify_Inr)
  then obtain outcome n ct u1 r u2 u3 ev where pay: "?pay outcome s = (Inr (n, ct), u1)"
    and release: "on_ext (c_release (Currency T) (FundingReason Evaluation) who n Exact) u1 = (Inr r, u2)"
    and migrate: "?migrate ct u2 = (Inr (), u3)"
    and t: "t = u3\<lparr>Evaluations := nmap_remove (p, who, i) (Evaluations u3), events := ev\<rparr>" by blast
  from settlement_takes [OF assms(1) e(4) pay] obtain m where
    m: "takes_bond T who m s u1" "m + n = ev_current_plmc_bond e" by (auto simp: e)
  have taken: "takes_bond T who (ev_current_plmc_bond e) s u2"
    using takes_bond_trans [OF m(1) takes_bond_release [OF assms(1) release]] m(2) by simp
  have "on_success (\<lambda>s. bond_view s = bond_view u2) (?migrate ct)"
    by (auto intro!: success_rules success_view_create_migration)
  from on_successD [OF this refl migrate] have u3: "bond_view u3 = bond_view u2" .
  show ?thesis
    by (rule evaluations_backed_cong [OF backed_remove [OF assms(2,3), of "ext u2"]])
      (use taken u3 in \<open>auto simp: takes_bond_def bond_view_def t\<close>)
qed

section \<open>All other calls\<close>

lemma success_result_case [success_rules]:
  "(\<And>a. x = Slashed \<Longrightarrow> on_success P m) \<Longrightarrow> (\<And>i. x = Rewarded i \<Longrightarrow> on_success P (f i)) \<Longrightarrow>
   on_success P (case x of Rewarded i \<Rightarrow> f i | Slashed \<Rightarrow> m)"
  by (cases x) auto

lemma success_pure [success_rules]:
  "on_success P (calculate_plmc_bond T n m)"
  "on_success P (calculate_funding_asset_amount T n asset)"
  "on_success P (exec_action T' vs act)"
  "on_success P (generate_evaluator_rewards_info T p)"
  "on_success P (generate_liquidity_pools_and_long_term_holder_rewards T p)"
  by (auto simp: calculate_plmc_bond_def calculate_funding_asset_amount_def exec_action_def
      generate_evaluator_rewards_info_def generate_liquidity_pools_and_long_term_holder_rewards_def
      calculate_fee_allocation_def details_of_def metadata_of_def Let_def
      split: vesting_action.splits intro!: success_rules)

lemma success_pay [success_rules]:
  assumes "bond_laws T"
  shows "on_success (evaluations_backed T) (try_funding_asset_hold T who p n a)"
    "on_success (evaluations_backed T) (mint_contribution_tokens T p who n)"
    "on_success (evaluations_backed T) (release_funding_asset T p who n asset)"
    "on_success (evaluations_backed T) (release_participation_bond T who n)"
    "on_success (evaluations_backed T) (create_migration T p who i ty n v)"
  using assms
  by (auto simp: try_funding_asset_hold_def mint_contribution_tokens_def release_funding_asset_def
      release_participation_bond_def create_migration_def Let_def intro!: success_rules)

lemma success_vesting [success_rules]:
  assumes "bond_laws T"
  shows "on_success (evaluations_backed T) (write_vesting_schedule T' who vs r)"
    "on_success (evaluations_backed T) (vest_or_release T who info n)"
  using assms
  by (auto simp: write_vesting_schedule_def vest_or_release_def add_release_schedule_def deposit_lr_event_def
      Let_def intro!: success_rules)

lemma success_transition [success_rules]:
  "on_success (evaluations_backed T) (transition_project T p d cur nxt dur skip)"
  "on_success (evaluations_backed T) (change_migration_status T p who st)"
  by (auto simp: transition_project_def change_migration_status_def Let_def
      split: migration_status.splits intro!: success_rules)

lemma success_settle [success_rules]:
  assumes "bond_laws T"
  shows "on_success (evaluations_backed T) (do_settle_bid T b p)"
    "on_success (evaluations_backed T) (do_settle_contribution T c p)"
    "on_success (evaluations_backed T) (do_mark_project_as_settled T p)"
    "on_success (evaluations_backed T) (do_start_settlement T p)"
  using assms
  by (auto simp: do_settle_bid_def calculate_refund_def do_settle_contribution_def do_mark_project_as_settled_def
      do_start_settlement_def Let_def split: project_status.splits intro!: success_rules)

lemma success_perform_bid [success_rules]:
  assumes "bond_laws T"
  shows "on_success (evaluations_backed T) (do_perform_bid T P)"
  using assms by (auto simp: do_perform_bid_def Let_def intro!: success_rules)

lemma bid_loop_backed:
  assumes "bond_laws T"
  shows "evaluations_backed T s \<Longrightarrow> bid_loop T P b n c s = (Inr r, t) \<Longrightarrow> evaluations_backed T t"
  using assms
proof (induction T P b n c s rule: bid_loop.induct)
  case (1 T P b n c s)
  let ?ct = "if n \<le> bk_amount_left b then n else bk_amount_left b"
  show ?case
  proof (cases "n = 0")
    case True
    with "1.prems" show ?thesis by (subst (asm) bid_loop.simps) simp
  next
    case False
    then have "\<exists>x u. do_perform_bid T (perform_bid_params P (NextBidId s) ?ct (bk_current_price b) c) s = (Inr x, u) \<and>
        bid_loop T P (bucket_update b ?ct) (saturating_sub n ?ct) (wrapping_add_u32 c 1) u = (Inr r, t)"
      using "1.prems"(2) by (subst (asm) bid_loop.simps) (auto simp: Let_def split: prod.splits sum.splits)
    then obtain x u where u: "do_perform_bid T (perform_bid_params P (NextBidId s) ?ct (bk_current_price b) c) s = (Inr x, u)"
      and rest: "bid_loop T P (bucket_update b ?ct) (saturating_sub n ?ct) (wrapping_add_u32 c 1) u = (Inr r, t)"
      by blast
    have "evaluations_backed T u" by (rule on_successD [OF success_perform_bid [OF "1.prems"(3)] "1.prems"(1) u])
    from "1.IH" [OF False refl u [symmetric] refl this rest "1.prems"(3)] show ?thesis .
  qed
qed

lemma success_decide_bids [success_rules]:
  "on_success (evaluations_backed T) (decide_bids T p alloc acc bs)"
  by (induction bs arbitrary: acc) (auto simp: Let_def intro!: success_rules)

lemma success_bid_loop [success_rules]:
  assumes "bond_laws T"
  shows "on_success (evaluations_backed T) (bid_loop T P b n c)"
  by (rule on_successI) (rule bid_loop_backed [OF assms])

lemma success_participation [success_rules]:
  assumes "bond_laws T"
  shows "on_success (evaluations_backed T) (do_bid T P)"
    "on_success (evaluations_backed T) (do_perform_contribution T P' d bu)"
    "on_success (evaluations_backed T) (do_contribute T P')"
  using assms
  by (auto simp: do_bid_def do_perform_contribution_def do_contribute_def Let_def
      split: project_status.splits intro!: success_rules)

lemma success_decide_winning_bids [success_rules]:
  "on_success (evaluations_backed T) (decide_winning_bids T p a w)"
  by (auto simp: decide_winning_bids_def Let_def intro!: success_rules)

lemma success_rounds [success_rules]:
  assumes "bond_laws T"
  shows "on_success (evaluations_backed T) (do_create_project T issuer md d)"
    "on_success (evaluations_backed T) (do_edit_project T issuer p md)"
    "on_success (evaluations_backed T) (do_remove_project T issuer p d)"
    "on_success (evaluations_backed T) (do_start_evaluation T who p)"
    "on_success (evaluations_backed T) (do_end_evaluation T p)"
    "on_success (evaluations_backed T) (do_end_funding T p)"
  using assms
  by (auto simp: do_create_project_def do_edit_project_def do_remove_project_def do_start_evaluation_def
      do_end_evaluation_def do_end_funding_def Let_def intro!: success_rules)

lemma success_end_auction [success_rules]: "on_success (evaluations_backed T) (do_end_auction T p)"
proof (rule on_successI, elim do_end_auctionE)
  fix s r t alloc wap u d nxt dur
  assume s: "evaluations_backed T s" and "decide_winning_bids T p alloc wap s = (Inr r, u)"
    and t: "transition_project T p d AuctionRound
       (CommunityRound (saturating_add_u32 (block_number u) (CommunityRoundDuration T)))
       (Some (wrapping_add_u32 (CommunityRoundDuration T) (RemainderRoundDuration T))) False u = (Inr (), t)"
  then have "evaluations_backed T u" using on_successD [OF success_decide_winning_bids s] by blast
  from on_successD [OF success_transition(1) this t] show "evaluations_backed T t" .
qed

lemma notify_query_on_ext:
  "notify_query T loc n = on_ext (\<lambda>l. (Inr (fst (new_notify_query T loc n l)), snd (new_notify_query T loc n l)))"
  by (rule ext) (simp add: notify_query_def on_ext_def split: prod.split)

lemma success_notify_query [success_rules]:
  "bond_laws T \<Longrightarrow> on_success (evaluations_backed T) (notify_query T loc n)"
  unfolding notify_query_on_ext by (rule success_ext) (simp add: keeps_evaluation_holds_def bond_laws_def)

lemma success_migration [success_rules]:
  assumes "bond_laws T"
  shows "on_success (evaluations_backed T) (do_start_offchain_migration T p who)"
    "on_success (evaluations_backed T) (do_confirm_offchain_migration T p who part)"
    "on_success (evaluations_backed T) (do_start_pallet_migration T who p para)"
    "on_success (evaluations_backed T) (do_start_pallet_migration_readiness_check T who p)"
    "on_success (evaluations_backed T) (do_send_pallet_migration_for T p part)"
    "on_success (evaluations_backed T) (do_confirm_pallet_migrations T loc q resp)"
    "on_success (evaluations_backed T) (do_mark_project_ct_migration_as_finished T p)"
    "on_success (evaluations_backed T) (do_pallet_migration_readiness_response T loc q resp)"
  using assms
  by (auto simp: do_start_offchain_migration_def do_confirm_offchain_migration_def do_start_pallet_migration_def
      do_start_pallet_migration_readiness_check_def do_send_pallet_migration_for_def
      do_confirm_pallet_migrations_def do_mark_project_ct_migration_as_finished_def
      do_pallet_migration_readiness_response_def Let_def
      split: project_status.splits funding_outcome.splits migration_type.splits option.splits xcm_response.splits
        check_outcome.splits
      intro!: success_rules)

text \<open>
  C3. The PLMC held for evaluations is exactly what the evaluations say: for every account the hold is
  the sum of the current bonds of its evaluations, and every bond still covers the part that may be
  slashed. Every successful call keeps this, whether it bonds, converts a bond for a bid or a
  contribution, or settles with a reward or a slash.
\<close>

theorem evaluation_bonds_backed:
  assumes laws: "bond_laws T" and s: "evaluations_backed T s" and "NextEvaluationId s < u32_max"
    and run: "run_call T call s = (Inr (), t)"
  shows "evaluations_backed T t"
proof (cases "\<exists>orig j p usd. call = Evaluate orig j p usd")
  case True
  with run obtain who p usd d cid where "do_evaluate T who p usd d cid s = (Inr (), t)"
    by (auto simp: evaluate_def prog_simps elim!: prog_elims)
  then show ?thesis by (rule do_evaluate_backed [OF laws s assms(3)])
next
  case not_evaluate: False
  show ?thesis
  proof (cases "\<exists>orig p a i. call = SettleEvaluation orig p a i")
    case True
    with run obtain p a i e where "nmap_get (Evaluations s) (p, a, i) = Some e"
      "do_settle_evaluation T e p s = (Inr (), t)"
      by (auto simp: settle_evaluation_def prog_simps elim!: prog_elims)
    then show ?thesis by (rule do_settle_evaluation_backed [OF laws s])
  next
    case False
    with not_evaluate have "on_success (evaluations_backed T) (run_call T call)"
      using laws by (cases call) (auto simp: call_defs intro!: success_rules)
    from on_successD [OF this s run] show ?thesis .
  qed
qed

lemma demo_other_calls:
  "keeps_evaluation_holds demo_config (c_transfer demo_currency a b n pr)"
  "keeps_evaluation_holds demo_config (demo_transfer i a b n pr)"
  "keeps_evaluation_holds demo_config (demo_mint p a n)"
  "keeps_evaluation_holds demo_config (ok x)"
  by (auto simp: keeps_evaluation_holds_def evaluation_hold_def ok_def demo_ledger_defs plain_defs Let_def
      split: if_splits)

lemma demo_bond_laws: "bond_laws demo_config"
  using demo_release_laws demo_hold_laws demo_transfer_on_hold_laws plain_percent_laws
  by (simp add: bond_laws_def demo_other_calls)

text \<open>A slashed evaluation: of the 100 held, 20 go to the treasury and the rest is released.\<close>

definition demo_evaluation :: evaluation_info where
  "demo_evaluation =
     \<lparr>ev_id = 0, ev_did = ''evaluator'', ev_project_id = 0, ev_evaluator = 7, ev_original_plmc_bond = 100,
      ev_current_plmc_bond = 100, ev_early_usd_amount = 50, ev_late_usd_amount = 0, ev_when = 1\<rparr>"

definition demo_slashed_details :: project_details where
  "demo_slashed_details = demo_details\<lparr>pd_status := SettlementStarted Failure, pd_evaluation_round_info :=
     \<lparr>ri_total_bonded_usd = 50, ri_total_bonded_plmc = 100, ri_evaluators_outcome = Some Slashed\<rparr>\<rparr>"

definition demo_slashed_state :: "demo_ledger funding_state" where
  "demo_slashed_state = demo_state\<lparr>
     ext := (ext demo_state)\<lparr>held := (\<lambda>_ _. 0)(FundingReason Evaluation := (\<lambda>_. 0)(7 := 100))\<rparr>,
     ProjectsDetails := [(0, demo_slashed_details)], Evaluations := [((0, 7, 0), demo_evaluation)],
     NextEvaluationId := 1\<rparr>"

lemma demo_slashed:
  "get_details 0 demo_slashed_state = Some demo_slashed_details"
  "nmap_get (Evaluations demo_slashed_state) (0, 7, 0) = Some demo_evaluation"
  "evaluations_backed demo_config demo_slashed_state" "NextEvaluationId demo_slashed_state < u32_max"
  by (simp_all add: demo_slashed_state_def get_details_def nmap_get_def evaluations_backed_def evaluations_keyed_def
      nmap_wf_def demo_evaluation_def slash_deposit_def plain_arith_def evaluation_hold_def demo_currency_def
      total_of_def bond_of_def u32_max_def)

lemma demo_settle_slashed:
  "\<exists>t. run_call demo_config (SettleEvaluation (Signed 3) 0 7 0) demo_slashed_state = (Inr (), t)"
  by (simp add: settle_evaluation_def do_settle_evaluation_def slash_evaluator_def prog_simps ensure_signed_def
      funding_access_defs Let_def demo_slashed demo_slashed_details_def demo_details_def demo_evaluation_def)
     (simp add: demo_slashed_state_def demo_evaluation_def plain_arith_def demo_ledger_defs plain_defs prog_simps ok_def)

theorem evaluation_bonds_backed_witness:
  "\<exists>t. run_call demo_config (SettleEvaluation (Signed 3) 0 7 0) demo_slashed_state = (Inr (), t) \<and>
     evaluations_backed demo_config t"
proof -
  obtain t where "run_call demo_config (SettleEvaluation (Signed 3) 0 7 0) demo_slashed_state = (Inr (), t)"
    using demo_settle_slashed by blast
  with evaluation_bonds_backed [OF demo_bond_laws demo_slashed(3,4) this] show ?thesis by blast
qed

end
