(* ===== verification/Dispenser.thy ===== *)
theory Dispenser
  imports Credentials
begin

text \<open>
  The pallet \<^verbatim>\<open>dispenser\<close> (\<^verbatim>\<open>src/pallets/dispenser/src\<close>): it hands a fixed amount of tokens, mostly
  under a vesting schedule, to every DID once (\<^verbatim>\<open>lib.rs\<close>), and the signed extensions that let an
  account without funds call it (\<^verbatim>\<open>extensions.rs\<close>). The currency and \<^verbatim>\<open>pallet_vesting\<close> are parameters.
\<close>

section \<open>State and configuration\<close>

datatype dispenser_event =
    Dispensed_to did account nat
  | DispenseAmountChanged nat

record 'l dispenser_state = "'l system" +
  DispenseAmount :: "nat option"
  Dispensed :: "did \<Rightarrow> bool"
  dispenser_events :: "dispenser_event list"

record 'l dispenser_config =
  dp_admin_origin :: "origin \<Rightarrow> bool"
  dp_block_number_to_balance :: "nat \<Rightarrow> nat"
  FreeDispenseAmount :: nat
  InitialDispenseAmount :: nat
  LockPeriod :: nat
  VestPeriod :: nat
  dispense_account :: account
  dp_verify_token :: "jwt \<Rightarrow> string \<Rightarrow> claims option"
  dp_timestamp_now :: "'l \<Rightarrow> nat"
  dp_verifier_public_key :: string
  WhitelistedPolicy :: cid
  dp_free_balance :: "account \<Rightarrow> 'l \<Rightarrow> nat"
  dp_transfer :: "account \<Rightarrow> account \<Rightarrow> nat \<Rightarrow> ('l, unit) dprog"
  can_add_vesting_schedule :: "account \<Rightarrow> nat \<Rightarrow> nat \<Rightarrow> nat \<Rightarrow> ('l, unit) dprog"
  add_vesting_schedule :: "account \<Rightarrow> nat \<Rightarrow> nat \<Rightarrow> nat \<Rightarrow> ('l, unit) dprog"

type_synonym ('l, 'z, 'a) dispenser_prog = "(('l, 'z) dispenser_state_scheme, 'a) dprog"

abbreviation DErr :: "dispenser_error \<Rightarrow> dispatch_error" where
  "DErr \<equiv> DispenserError"

definition dispense_amount :: "('l, 'c) dispenser_config_scheme \<Rightarrow> ('l, 'z) dispenser_state_scheme \<Rightarrow> nat" where
  "dispense_amount T s = (case DispenseAmount s of None \<Rightarrow> InitialDispenseAmount T | Some a \<Rightarrow> a)"

definition dispenser_origin ::
    "('l, 'c) dispenser_config_scheme \<Rightarrow> origin \<Rightarrow> jwt \<Rightarrow> ('l, 'z) dispenser_state_scheme \<Rightarrow>
     dispatch_error + (account \<times> did \<times> investor_type \<times> cid)" where
  "dispenser_origin T orig token s =
     ensure_origin (dp_verify_token T) (dp_timestamp_now T (ext s)) orig token (dp_verifier_public_key T)"

definition deposit_dispenser_event :: "dispenser_event \<Rightarrow> ('l, 'z, unit) dispenser_prog" where
  "deposit_dispenser_event e = modify (\<lambda>s. s\<lparr>dispenser_events := dispenser_events s @ [e]\<rparr>)"

section \<open>The extrinsics\<close>

definition dispense_is_feeless ::
    "('l, 'c) dispenser_config_scheme \<Rightarrow> origin \<Rightarrow> jwt \<Rightarrow> ('l, 'z) dispenser_state_scheme \<Rightarrow> bool" where
  "dispense_is_feeless T orig token s =
     (case dispenser_origin T orig token s of Inr (_, d, _, _) \<Rightarrow> \<not> Dispensed s d | Inl _ \<Rightarrow> False)"

definition dispense ::
    "('l, 'c) dispenser_config_scheme \<Rightarrow> origin \<Rightarrow> jwt \<Rightarrow> ('l, 'z, unit) dispenser_prog" where
  "dispense T orig token = transactional (
     sbind (gets (dispenser_origin T orig token)) (\<lambda>checked.
     sbind (of_result checked) (\<lambda>(who, d, _, whitelisted_policy).
     sbind (gets (\<lambda>s. Dispensed s d)) (\<lambda>already.
     seq (ensure (\<not> already) (DErr DispensedAlreadyToDid))
     (seq (ensure (whitelisted_policy = WhitelistedPolicy T) (DErr InvalidCredential))
     (sbind (gets (dispense_amount T)) (\<lambda>amount.
      sbind (gets (\<lambda>s. dp_free_balance T (dispense_account T) (ext s))) (\<lambda>available.
      seq (ensure (amount \<le> available) (DErr DispenserDepleted))
      (sbind (gets block_number) (\<lambda>current_block.
       let length_as_balance = dp_block_number_to_balance T (VestPeriod T);
           locked_amount = saturating_sub amount (FreeDispenseAmount T);
           start = wrapping_add_u32 current_block (LockPeriod T)
       in
       sbind (ok_or (checked_div locked_amount (max length_as_balance 1)) ArithmeticUnderflow) (\<lambda>per_block.
       seq (on_ext (can_add_vesting_schedule T who locked_amount per_block start))
       (seq (on_ext (dp_transfer T (dispense_account T) who amount))
       (seq (on_ext (add_vesting_schedule T who locked_amount per_block start))
       (seq (modify (\<lambda>s. s\<lparr>Dispensed := (Dispensed s)(d := True)\<rparr>))
       (deposit_dispenser_event (Dispensed_to d who amount))))))))))))))))"

definition set_dispense_amount ::
    "('l, 'c) dispenser_config_scheme \<Rightarrow> origin \<Rightarrow> nat \<Rightarrow> ('l, 'z, unit) dispenser_prog" where
  "set_dispense_amount T orig amount = transactional (
     seq (ensure (dp_admin_origin T orig) BadOrigin)
     (seq (ensure (amount > FreeDispenseAmount T) (DErr DispenseAmountTooLow))
     (seq (modify (\<lambda>s. s\<lparr>DispenseAmount := Some amount\<rparr>))
     (deposit_dispenser_event (DispenseAmountChanged amount)))))"

section \<open>The signed extensions\<close>

record account_info =
  ai_nonce :: nat
  ai_providers :: nat
  ai_sufficients :: nat

datatype invalid_transaction = Payment | Stale | Future

datatype runtime_call = DispenseCall jwt | OtherCall nat

definition is_dispense :: "runtime_call \<Rightarrow> bool" where
  "is_dispense call = (case call of DispenseCall _ \<Rightarrow> True | OtherCall _ \<Rightarrow> False)"

definition check_nonce_pre_dispatch ::
    "nat \<Rightarrow> account \<Rightarrow> runtime_call \<Rightarrow> (account \<Rightarrow> account_info, invalid_transaction, unit) prog" where
  "check_nonce_pre_dispatch nonce who call =
     sbind (gets (\<lambda>accounts. accounts who)) (\<lambda>account.
     seq (ensure (\<not> (ai_providers account = 0 \<and> ai_sufficients account = 0) \<or> is_dispense call) Payment)
     (seq (ensure (nonce = ai_nonce account) (if nonce < ai_nonce account then Stale else Future))
     (modify (\<lambda>accounts. accounts(who := account\<lparr>ai_nonce := wrapping_add_u32 (ai_nonce account) 1\<rparr>)))))"

record valid_transaction =
  vt_requires :: "(account \<times> nat) list"
  vt_provides :: "(account \<times> nat) list"

definition check_nonce_validate ::
    "nat \<Rightarrow> account \<Rightarrow> runtime_call \<Rightarrow> (account \<Rightarrow> account_info) \<Rightarrow> invalid_transaction + valid_transaction" where
  "check_nonce_validate nonce who call accounts =
     (let account = accounts who in
      if (ai_providers account = 0 \<and> ai_sufficients account = 0) \<and> \<not> is_dispense call then Inl Payment
      else if nonce < ai_nonce account then Inl Stale
      else Inr \<lparr>vt_requires = (if ai_nonce account < nonce then [(who, nonce - 1)] else []),
                vt_provides = [(who, nonce)]\<rparr>)"

text \<open>\<^verbatim>\<open>SkipCheckIfFeeless\<close> around a wrapped extension: \<open>None\<close> when the call is free of charge.\<close>

definition skip_if_feeless_pre_dispatch ::
    "(account \<Rightarrow> runtime_call \<Rightarrow> 's \<Rightarrow> bool) \<Rightarrow> (account \<Rightarrow> runtime_call \<Rightarrow> ('s, invalid_transaction, 'p) prog) \<Rightarrow>
     account \<Rightarrow> runtime_call \<Rightarrow> ('s, invalid_transaction, 'p option) prog" where
  "skip_if_feeless_pre_dispatch is_feeless wrapped who call =
     sbind (gets (is_feeless who call)) (\<lambda>feeless.
     if feeless then ok None else sbind (wrapped who call) (\<lambda>pre. ok (Some pre)))"

definition skip_if_feeless_validate ::
    "(account \<Rightarrow> runtime_call \<Rightarrow> 's \<Rightarrow> bool) \<Rightarrow>
     (account \<Rightarrow> runtime_call \<Rightarrow> 's \<Rightarrow> invalid_transaction + valid_transaction) \<Rightarrow>
     account \<Rightarrow> runtime_call \<Rightarrow> 's \<Rightarrow> invalid_transaction + valid_transaction" where
  "skip_if_feeless_validate is_feeless wrapped who call s =
     (if is_feeless who call s then Inr \<lparr>vt_requires = [], vt_provides = []\<rparr> else wrapped who call s)"

section \<open>Properties\<close>

fun dispensed_did :: "dispenser_event \<Rightarrow> did option" where
  "dispensed_did (Dispensed_to d who amount) = Some d"
| "dispensed_did (DispenseAmountChanged amount) = None"

definition dispensed_dids :: "('l, 'z) dispenser_state_scheme \<Rightarrow> did list" where
  "dispensed_dids s = List.map_filter dispensed_did (dispenser_events s)"

text \<open>The steps of the pallet; the rest of the chain may change balances and advance the block.\<close>

inductive dispenser_step ::
    "('l, 'c) dispenser_config_scheme \<Rightarrow> ('l, 'z) dispenser_state_scheme \<Rightarrow>
     ('l, 'z) dispenser_state_scheme \<Rightarrow> bool" for T where
  dispense_step: "dispenser_step T s (snd (dispense T orig token s))"
| set_step: "dispenser_step T s (snd (set_dispense_amount T orig amount s))"
| other_step: "dispenser_step T s (s\<lparr>block_number := n, ext := l\<rparr>)"

definition dispenser_inv :: "('l, 'c) dispenser_config_scheme \<Rightarrow> ('l, 'z) dispenser_state_scheme \<Rightarrow> bool" where
  "dispenser_inv T s \<longleftrightarrow> distinct (dispensed_dids s) \<and> set (dispensed_dids s) \<subseteq> {d. Dispensed s d} \<and>
     FreeDispenseAmount T < dispense_amount T s"

lemma dispense_Inr:
  assumes "dispense T orig token s = (Inr u, t)"
  shows "\<exists>who d it. dispenser_origin T orig token s = Inr (who, d, it, WhitelistedPolicy T) \<and>
    \<not> Dispensed s d \<and> Dispensed t = (Dispensed s)(d := True) \<and> DispenseAmount t = DispenseAmount s \<and>
    dispenser_events t = dispenser_events s @ [Dispensed_to d who (dispense_amount T s)]"
proof -
  obtain who d it c where x: "dispenser_origin T orig token s = Inr (who, d, it, c)"
    using assms unfolding dispense_def by (elim prog_elims) (auto elim!: prog_elims)
  show ?thesis
    using assms unfolding dispense_def Let_def deposit_dispenser_event_def
    by (elim prog_elims) (clarsimp simp: x elim!: prog_elims)
qed

lemma dispenser_inv_dispense:
  assumes "dispenser_inv T s"
  shows "dispenser_inv T (snd (dispense T orig token s))"
proof (cases "fst (dispense T orig token s)")
  case (Inl e)
  then have "snd (dispense T orig token s) = s" unfolding dispense_def by (rule transactional_error)
  with assms show ?thesis by simp
next
  case (Inr u)
  then have "dispense T orig token s = (Inr u, snd (dispense T orig token s))" by (simp add: prod_eq_iff)
  from dispense_Inr [OF this] assms show ?thesis
    by (auto simp: dispenser_inv_def dispense_amount_def dispensed_dids_def)
qed

lemma dispenser_inv_set:
  assumes "dispenser_inv T s"
  shows "dispenser_inv T (snd (set_dispense_amount T orig amount s))"
  using assms
  by (auto simp: set_dispense_amount_def prog_defs deposit_dispenser_event_def dispenser_inv_def
      dispense_amount_def dispensed_dids_def)

text \<open>
  C34. Over any sequence of calls, the dispenser pays every DID at most once, and every payment is
  larger than the part that is handed out without a vesting schedule.
\<close>

theorem dispensed_at_most_once:
  assumes "(dispenser_step T)\<^sup>*\<^sup>* s t"
    and "dispenser_events s = []" "FreeDispenseAmount T < dispense_amount T s"
  shows "distinct (dispensed_dids t) \<and> FreeDispenseAmount T < dispense_amount T t"
proof -
  have "dispenser_inv T s"
    using assms(2,3) by (simp add: dispenser_inv_def dispensed_dids_def map_filter_def)
  with assms(1) have "dispenser_inv T t"
  proof (induction rule: rtranclp_induct)
    case (step u v)
    from step(2) step(3) [OF step(4)] show ?case
      by cases (auto simp: dispenser_inv_dispense dispenser_inv_set,
                simp add: dispenser_inv_def dispensed_dids_def dispense_amount_def)
  qed
  then show ?thesis by (simp add: dispenser_inv_def)
qed

definition demo_claims :: claims where
  "demo_claims =
     \<lparr>cl_subject = 7, cl_issuer = [], cl_ipfs_cid = ''policy'', cl_investor_type = Retail,
      cl_did = ''did'', cl_expiration = Some 100\<rparr>"

definition demo_dispenser :: "plain_ledger dispenser_config" where
  "demo_dispenser =
     \<lparr>dp_admin_origin = (\<lambda>orig. orig = Root), dp_block_number_to_balance = (\<lambda>n. n),
      FreeDispenseAmount = 17, InitialDispenseAmount = 700, LockPeriod = 10, VestPeriod = 100,
      dispense_account = 1, dp_verify_token = (\<lambda>t k. Some demo_claims), dp_timestamp_now = (\<lambda>_. 50),
      dp_verifier_public_key = [], WhitelistedPolicy = ''policy'',
      dp_free_balance = (\<lambda>who l. free l who),
      dp_transfer = (\<lambda>a b n. sbind (plain_transfer a b n Expendable) (\<lambda>_. ok ())),
      can_add_vesting_schedule = (\<lambda>_ _ _ _. ok ()), add_vesting_schedule = (\<lambda>_ _ _ _. ok ())\<rparr>"

definition demo_dispenser_state :: "plain_ledger dispenser_state" where
  "demo_dispenser_state =
     \<lparr>block_number = 5, ext = \<lparr>free = (\<lambda>_. 1000), held = (\<lambda>_ _. 0)\<rparr>, DispenseAmount = None,
      Dispensed = (\<lambda>_. False), dispenser_events = []\<rparr>"

theorem dispensed_at_most_once_witness:
  "dispensed_dids (snd (dispense demo_dispenser (Signed 7) [] demo_dispenser_state)) = [''did''] \<and>
   distinct (dispensed_dids (snd (dispense demo_dispenser (Signed 7) []
     (snd (dispense demo_dispenser (Signed 7) [] demo_dispenser_state)))))"
proof -
  let ?s = demo_dispenser_state and ?f = "\<lambda>s. snd (dispense demo_dispenser (Signed 7) [] s)"
  have "(dispenser_step demo_dispenser)\<^sup>*\<^sup>* ?s (?f (?f ?s))"
    by (rule converse_rtranclp_into_rtranclp [OF _ r_into_rtranclp]) (rule dispense_step)+
  moreover have "dispenser_events ?s = []" "FreeDispenseAmount demo_dispenser < dispense_amount demo_dispenser ?s"
    by (simp_all add: demo_dispenser_def demo_dispenser_state_def dispense_amount_def)
  ultimately have "distinct (dispensed_dids (?f (?f ?s)))"
    using dispensed_at_most_once by blast
  moreover have "dispensed_dids (?f ?s) = [''did'']"
    by (simp add: dispense_def prog_defs Let_def dispenser_origin_def ensure_origin_def try_origin_def
        into_signer_def result_ok_or_def demo_dispenser_def demo_dispenser_state_def demo_claims_def
        dispense_amount_def deposit_dispenser_event_def dispensed_dids_def map_filter_def
        plain_transfer_def u_defs)
  ultimately show ?thesis by simp
qed

text \<open>
  Replay protection: a transaction whose nonce check passed cannot pass it again, not even when
  the nonce wraps around, and of two transactions of an account only the one with the current nonce
  passes. An account without providers passes only with the \<^verbatim>\<open>dispense\<close> call.
\<close>

theorem nonce_replay_rejected:
  assumes "check_nonce_pre_dispatch nonce who call accounts = (Inr (), accounts')"
  shows "nonce = ai_nonce (accounts who) \<and>
    (ai_providers (accounts who) = 0 \<and> ai_sufficients (accounts who) = 0 \<longrightarrow> is_dispense call) \<and>
    (\<exists>e. fst (check_nonce_pre_dispatch nonce who call' accounts') = Inl e)"
proof -
  have *: "wrapping_add_u32 n 1 \<noteq> n" for n
  proof
    assume eq: "wrapping_add_u32 n 1 = n"
    then have "n < 2 ^ 32" using mod_less_divisor [of "2 ^ 32" "n + 1"] by (simp add: wrapping_add_u32_def)
    then consider "n + 1 < 2 ^ 32" | "n + 1 = 2 ^ 32" by linarith
    then show False using eq by cases (simp_all add: wrapping_add_u32_def)
  qed
  have "nonce = ai_nonce (accounts who)"
    and "ai_providers (accounts who) = 0 \<and> ai_sufficients (accounts who) = 0 \<Longrightarrow> is_dispense call"
    and "accounts' = accounts(who := (accounts who)\<lparr>ai_nonce := wrapping_add_u32 (ai_nonce (accounts who)) 1\<rparr>)"
    using assms by (auto simp: check_nonce_pre_dispatch_def prog_simps)
  with * [of nonce] show ?thesis by (auto simp: check_nonce_pre_dispatch_def prog_defs)
qed

end
