(* ===== verification/Receiver.thy ===== *)
theory Receiver
  imports Funding_Types
begin

text \<open>
  The pallet \<^verbatim>\<open>polimec-receiver\<close> (\<^verbatim>\<open>src/pallets/polimec-receiver/src/lib.rs\<close>), which runs on the chain
  of a funded project and pays out the contribution tokens of the migrations Polimec sends. The
  currency, \<^verbatim>\<open>pallet_vesting\<close> and the account derivation of that chain are parameters.
\<close>

type_synonym migration_key = "location \<times> participation_type \<times> nat"

datatype receiver_event =
    MigrationExecuted migration
  | DuplicatedMigrationSkipped migration

record 'l receiver_state = "'l system" +
  ExecutedMigrations :: "migration_key \<Rightarrow> bool"
  receiver_events :: "receiver_event list"

record 'l receiver_config =
  PolimecParaId :: nat
  polimec_sovereign_account :: account
  account_from_32 :: "nat \<Rightarrow> account"
  GenesisMoment :: nat
  MigrationInfoToPerBlockBalance :: "migration_info \<Rightarrow> nat"
  rc_transfer :: "account \<Rightarrow> account \<Rightarrow> nat \<Rightarrow> ('l, unit) dprog"
  rc_add_vesting_schedule :: "account \<Rightarrow> nat \<Rightarrow> nat \<Rightarrow> nat \<Rightarrow> ('l, unit) dprog"

type_synonym ('l, 'z, 'a) receiver_prog = "(('l, 'z) receiver_state_scheme, 'a) dprog"

definition key_of :: "migration \<Rightarrow> migration_key" where
  "key_of m = (mo_user (mg_origin m), mo_participation_type (mg_origin m), mo_id (mg_origin m))"

definition user_account :: "location \<Rightarrow> nat option" where
  "user_account user =
     (if loc_parents user = 0
      then (case loc_interior user of [AccountId32 _ n] \<Rightarrow> Some n | _ \<Rightarrow> None)
      else None)"

definition execute_migration ::
    "('l, 'c) receiver_config_scheme \<Rightarrow> migration \<Rightarrow> ('l, 'z, unit) receiver_prog" where
  "execute_migration T migration =
     sbind (ok_or (user_account (mo_user (mg_origin migration))) (Other ''NoneValue'')) (\<lambda>user_32.
     sbind (gets (\<lambda>s. ExecutedMigrations s (key_of migration))) (\<lambda>executed.
     if executed
     then modify (\<lambda>s. s\<lparr>receiver_events := receiver_events s @ [DuplicatedMigrationSkipped migration]\<rparr>)
     else
       seq (on_ext (rc_transfer T (polimec_sovereign_account T) (account_from_32 T user_32)
              (mg_contribution_token_amount (mg_info migration))))
       (seq (on_ext (rc_add_vesting_schedule T (account_from_32 T user_32)
               (mg_contribution_token_amount (mg_info migration))
               (MigrationInfoToPerBlockBalance T (mg_info migration)) (GenesisMoment T)))
       (seq (modify (\<lambda>s. s\<lparr>ExecutedMigrations := (ExecutedMigrations s)(key_of migration := True)\<rparr>))
       (modify (\<lambda>s. s\<lparr>receiver_events := receiver_events s @ [MigrationExecuted migration]\<rparr>))))))"

text \<open>\<open>sibling\<close> is the sibling parachain the call comes from, \<open>None\<close> for any other origin.\<close>

definition execute_migrations ::
    "('l, 'c) receiver_config_scheme \<Rightarrow> nat option \<Rightarrow> migration list \<Rightarrow> ('l, 'z, unit) receiver_prog" where
  "execute_migrations T sibling migrations = transactional (
     sbind (ok_or sibling BadOrigin) (\<lambda>para_id.
     seq (ensure (para_id = PolimecParaId T) (Other ''Only Polimec Parachain can call migrations''))
     (for_each migrations (execute_migration T))))"

section \<open>Properties\<close>

lemma execute_migration_Inr:
  assumes "execute_migration T m s = (Inr u, t)"
  shows "user_account (mo_user (mg_origin m)) \<noteq> None"
    and "ExecutedMigrations t = (ExecutedMigrations s)(key_of m := True)"
    and "ExecutedMigrations s (key_of m) \<Longrightarrow> ext t = ext s"
proof -
  show "user_account (mo_user (mg_origin m)) \<noteq> None"
    using assms by (auto simp: execute_migration_def prog_simps)
  show "ExecutedMigrations t = (ExecutedMigrations s)(key_of m := True)"
    using assms
    by (cases "ExecutedMigrations s (key_of m)")
       (auto simp: execute_migration_def prog_simps fun_upd_idem)
  show "ExecutedMigrations s (key_of m) \<Longrightarrow> ext t = ext s"
    using assms by (auto simp: execute_migration_def prog_simps)
qed

lemma execute_all_Inr:
  assumes "for_each ms (execute_migration T) s = (Inr u, t)"
  shows "(\<forall>m\<in>set ms. ExecutedMigrations t (key_of m) \<and> user_account (mo_user (mg_origin m)) \<noteq> None) \<and>
    (\<forall>k. ExecutedMigrations s k \<longrightarrow> ExecutedMigrations t k)"
  using assms
proof (induction ms arbitrary: s)
  case Nil
  then show ?case by (simp add: prog_simps)
next
  case (Cons m ms)
  then obtain v where v: "execute_migration T m s = (Inr (), v)"
      "for_each ms (execute_migration T) v = (Inr u, t)"
    by (auto simp: seq_Inr)
  have "ExecutedMigrations v k \<Longrightarrow> ExecutedMigrations t k" for k using Cons.IH [OF v(2)] by blast
  with Cons.IH [OF v(2)] execute_migration_Inr(1,2) [OF v(1)] show ?case
    by (simp del: split_paired_All)
qed

lemma execute_again:
  assumes "\<forall>m\<in>set ms. ExecutedMigrations s (key_of m) \<and> user_account (mo_user (mg_origin m)) \<noteq> None"
  shows "\<exists>t. for_each ms (execute_migration T) s = (Inr (), t) \<and> ext t = ext s \<and>
    ExecutedMigrations t = ExecutedMigrations s"
  using assms
proof (induction ms arbitrary: s)
  case Nil
  then show ?case by (simp add: prog_defs)
next
  case (Cons m ms)
  let ?v = "s\<lparr>receiver_events := receiver_events s @ [DuplicatedMigrationSkipped m]\<rparr>"
  have "execute_migration T m s = (Inr (), ?v)"
    using Cons.prems by (auto simp: execute_migration_def prog_defs)
  moreover have "\<exists>t. for_each ms (execute_migration T) ?v = (Inr (), t) \<and> ext t = ext ?v \<and>
      ExecutedMigrations t = ExecutedMigrations ?v"
    using Cons.prems by (intro Cons.IH) simp
  ultimately show ?case by (auto simp: seq_def sbind_def)
qed

text \<open>
  Sending the same migrations again is harmless: after a batch was executed, a second execution
  of it succeeds without touching any balance or vesting schedule.
\<close>

theorem migrations_replay_harmless:
  assumes "execute_migrations T sib ms s = (Inr (), t)"
  shows "\<exists>u. execute_migrations T sib ms t = (Inr (), u) \<and> ext u = ext t \<and>
    ExecutedMigrations u = ExecutedMigrations t"
proof -
  have sib: "sib = Some (PolimecParaId T)" and all: "for_each ms (execute_migration T) s = (Inr (), t)"
    using assms by (auto simp: execute_migrations_def prog_simps)
  obtain u where "for_each ms (execute_migration T) t = (Inr (), u)" "ext u = ext t"
      "ExecutedMigrations u = ExecutedMigrations t"
    using execute_again execute_all_Inr [OF all] by meson
  with sib show ?thesis by (auto simp: execute_migrations_def prog_defs)
qed

text \<open>The migrations that were executed, in order, and what an account received through them.\<close>

fun executed_migration :: "receiver_event \<Rightarrow> migration option" where
  "executed_migration (MigrationExecuted m) = Some m"
| "executed_migration (DuplicatedMigrationSkipped m) = None"

definition executed :: "('l, 'z) receiver_state_scheme \<Rightarrow> migration list" where
  "executed s = List.map_filter executed_migration (receiver_events s)"

definition receiver_of :: "('l, 'c) receiver_config_scheme \<Rightarrow> migration \<Rightarrow> account option" where
  "receiver_of T m = map_option (account_from_32 T) (user_account (mo_user (mg_origin m)))"

definition paid_to :: "('l, 'c) receiver_config_scheme \<Rightarrow> account \<Rightarrow> migration list \<Rightarrow> nat" where
  "paid_to T w ms = sum_list (map (\<lambda>m. mg_contribution_token_amount (mg_info m)) (filter (\<lambda>m. receiver_of T m = Some w) ms))"

text \<open>
  What is assumed of the receiving chain's currency, whose balances are \<open>bal\<close>: a transfer credits its amount to the
  beneficiary and touches no other account than the sender; a vesting schedule only locks, and moves nothing.
\<close>

definition payment_laws :: "('l, 'c) receiver_config_scheme \<Rightarrow> ('l \<Rightarrow> account \<Rightarrow> nat) \<Rightarrow> bool" where
  "payment_laws T bal \<longleftrightarrow>
     (\<forall>a b n l u l'. rc_transfer T a b n l = (Inr u, l') \<longrightarrow>
        (\<forall>w. w \<noteq> a \<longrightarrow> bal l' w = bal l w + (if w = b then n else 0))) \<and>
     (\<forall>a n p g l u l'. rc_add_vesting_schedule T a n p g l = (Inr u, l') \<longrightarrow> bal l' = bal l)"

text \<open>
  The books of the pallet, relative to the balances \<open>b0\<close> at the start: no participation was executed twice, the executed
  ones are marked, and every account other than Polimec's has received exactly what was executed for it.
\<close>

definition receiver_inv ::
    "('l, 'c) receiver_config_scheme \<Rightarrow> ('l \<Rightarrow> account \<Rightarrow> nat) \<Rightarrow> (account \<Rightarrow> nat) \<Rightarrow> ('l, 'z) receiver_state_scheme \<Rightarrow> bool" where
  "receiver_inv T bal b0 s \<longleftrightarrow> distinct (map key_of (executed s)) \<and>
     (\<forall>m\<in>set (executed s). ExecutedMigrations s (key_of m)) \<and>
     (\<forall>w. w \<noteq> polimec_sovereign_account T \<longrightarrow> bal (ext s) w = b0 w + paid_to T w (executed s))"

lemma executed_snoc:
  "executed (s\<lparr>receiver_events := receiver_events s @ [MigrationExecuted m]\<rparr>) = executed s @ [m]"
  "executed (s\<lparr>receiver_events := receiver_events s @ [DuplicatedMigrationSkipped m]\<rparr>) = executed s"
  by (simp_all add: executed_def)

lemma execute_migration_inv:
  assumes laws: "payment_laws T bal" and inv: "receiver_inv T bal b0 s" and run: "execute_migration T m s = (Inr u, t)"
  shows "receiver_inv T bal b0 t"
proof (cases "ExecutedMigrations s (key_of m)")
  case True
  then have "t = s\<lparr>receiver_events := receiver_events s @ [DuplicatedMigrationSkipped m]\<rparr>"
    using run by (auto simp: execute_migration_def prog_simps)
  then show ?thesis using inv by (simp add: receiver_inv_def executed_snoc)
next
  case False
  let ?n = "mg_contribution_token_amount (mg_info m)"
  obtain user l l' where user: "user_account (mo_user (mg_origin m)) = Some user"
    and l: "rc_transfer T (polimec_sovereign_account T) (account_from_32 T user) ?n (ext s) = (Inr (), l)"
    and l': "rc_add_vesting_schedule T (account_from_32 T user) ?n (MigrationInfoToPerBlockBalance T (mg_info m))
      (GenesisMoment T) l = (Inr (), l')"
    and t: "t = s\<lparr>ext := l', ExecutedMigrations := (ExecutedMigrations s)(key_of m := True),
      receiver_events := receiver_events s @ [MigrationExecuted m]\<rparr>"
    using run False by (auto simp: execute_migration_def prog_simps)
  have ex: "executed t = executed s @ [m]" by (simp add: t executed_def)
  have "bal l' = bal l" using laws l' by (auto simp: payment_laws_def)
  then have "bal (ext t) w = bal (ext s) w + (if receiver_of T m = Some w then ?n else 0)"
    if "w \<noteq> polimec_sovereign_account T" for w
    using laws l that by (auto simp: payment_laws_def t receiver_of_def user)
  moreover have "key_of m \<notin> key_of ` set (executed s)" using inv False by (auto simp: receiver_inv_def)
  ultimately show ?thesis using inv unfolding receiver_inv_def ex by (auto simp: t paid_to_def)
qed

lemma execute_all_inv:
  assumes "payment_laws T bal"
  shows "receiver_inv T bal b0 s \<Longrightarrow> for_each ms (execute_migration T) s = (Inr u, t) \<Longrightarrow> receiver_inv T bal b0 t"
proof (induction ms arbitrary: s)
  case (Cons m ms)
  then obtain v where v: "execute_migration T m s = (Inr (), v)" "for_each ms (execute_migration T) v = (Inr u, t)"
    by (auto simp: seq_Inr)
  show ?case by (rule Cons.IH [OF execute_migration_inv [OF assms Cons.prems(1) v(1)] v(2)])
qed (simp add: prog_simps)

lemma execute_migrations_inv:
  assumes "payment_laws T bal" "receiver_inv T bal b0 s"
  shows "receiver_inv T bal b0 (snd (execute_migrations T sib ms s))"
proof (cases "execute_migrations T sib ms s")
  case (Pair r t)
  show ?thesis
  proof (cases r)
    case (Inl e)
    then show ?thesis using Pair assms(2) by (auto simp: execute_migrations_def dest: transactional_Inl)
  next
    case (Inr u)
    then have "for_each ms (execute_migration T) s = (Inr u, t)"
      using Pair by (auto simp: execute_migrations_def prog_simps)
    from execute_all_inv [OF assms this] show ?thesis by (simp add: Pair)
  qed
qed

text \<open>
  C35. Over any sequence of \<^verbatim>\<open>execute_migrations\<close> calls, from whatever origin and with whatever batches, each
  participation (user, kind and id) is executed at most once, and every account other than Polimec's own has received
  exactly the amounts of the migrations executed for it: nothing is paid for a duplicate, and nothing that is executed
  stays unpaid.
\<close>

theorem migrations_paid_once:
  assumes "payment_laws T bal" "receiver_events s = []"
  shows "let s' = foldl (\<lambda>s (sib, ms). snd (execute_migrations T sib ms s)) s calls in
    distinct (map key_of (executed s')) \<and>
    (\<forall>w. w \<noteq> polimec_sovereign_account T \<longrightarrow> bal (ext s') w = bal (ext s) w + paid_to T w (executed s'))"
proof -
  have "receiver_inv T bal b0 s \<Longrightarrow>
      receiver_inv T bal b0 (foldl (\<lambda>s (sib, ms). snd (execute_migrations T sib ms s)) s calls)" for b0
    by (induction calls arbitrary: s) (auto intro: execute_migrations_inv [OF assms(1)])
  from this [of "bal (ext s)"] assms(2) show ?thesis
    by (simp add: receiver_inv_def executed_def map_filter_simps paid_to_def Let_def)
qed

definition demo_receiver :: "plain_ledger receiver_config" where
  "demo_receiver =
     \<lparr>PolimecParaId = 3344, polimec_sovereign_account = 1, account_from_32 = (\<lambda>n. n), GenesisMoment = 0,
      MigrationInfoToPerBlockBalance = (\<lambda>i. 1),
      rc_transfer = (\<lambda>a b n. sbind (plain_transfer a b n Expendable) (\<lambda>_. ok ())),
      rc_add_vesting_schedule = (\<lambda>_ _ _ _. ok ())\<rparr>"

definition demo_migration :: migration where
  "demo_migration =
     new_migration \<lparr>mo_user = \<lparr>loc_parents = 0, loc_interior = [AccountId32 None 9]\<rparr>, mo_id = 4,
                    mo_participation_type = PTBid\<rparr>
       \<lparr>mg_contribution_token_amount = 50, mg_vesting_time = 10\<rparr>"

definition demo_receiver_state :: "plain_ledger receiver_state" where
  "demo_receiver_state =
     \<lparr>block_number = 1, ext = \<lparr>free = (\<lambda>_. 100), held = (\<lambda>_ _. 0)\<rparr>,
      ExecutedMigrations = (\<lambda>_. False), receiver_events = []\<rparr>"

lemmas demo_receiver_defs = demo_receiver_def demo_receiver_state_def demo_migration_def new_migration_def

lemma demo_payment_laws: "payment_laws demo_receiver free"
  by (auto simp: payment_laws_def demo_receiver_def plain_transfer_def prog_simps Let_def split: if_splits)

theorem migrations_paid_once_witness:
  "free (ext (foldl (\<lambda>s (sib, ms). snd (execute_migrations demo_receiver sib ms s))
     demo_receiver_state [(Some 3344, [demo_migration, demo_migration]), (Some 3344, [demo_migration])])) 9 = 150"
proof -
  let ?s = "foldl (\<lambda>s (sib, ms). snd (execute_migrations demo_receiver sib ms s))
     demo_receiver_state [(Some 3344, [demo_migration, demo_migration]), (Some 3344, [demo_migration])]"
  have "executed ?s = [demo_migration]"
    by (simp add: executed_def map_filter_simps execute_migrations_def execute_migration_def prog_defs demo_receiver_defs
        user_account_def key_of_def plain_transfer_def Let_def)
  moreover have "receiver_of demo_receiver demo_migration = Some 9"
    by (simp add: receiver_of_def demo_receiver_defs user_account_def)
  ultimately have "paid_to demo_receiver 9 (executed ?s) = 50" by (simp add: paid_to_def demo_receiver_defs)
  then show ?thesis
    using migrations_paid_once [OF demo_payment_laws, of demo_receiver_state
        "[(Some 3344, [demo_migration, demo_migration]), (Some 3344, [demo_migration])]"]
    by (simp only: Let_def) (simp add: demo_receiver_state_def demo_receiver_def)
qed

end
