(* ===== verification/On_Slash.thy ===== *)
theory On_Slash
  imports Frame
begin

text \<open>
  The crate \<^verbatim>\<open>on-slash-vesting\<close> (\<^verbatim>\<open>src/pallets/on-slash-vesting/src/lib.rs\<close>): when a slash takes tokens
  of an account, its schedules in \<^verbatim>\<open>pallet_vesting\<close> are lowered by the slashed amount and restarted
  at the current block. A schedule of that pallet and its operations are parameters.
\<close>

record 'v vesting_ops =
  vo_locked_at :: "'v \<Rightarrow> nat \<Rightarrow> nat"
  vo_ending_block_as_balance :: "'v \<Rightarrow> nat"
  vo_new :: "nat \<Rightarrow> nat \<Rightarrow> nat \<Rightarrow> 'v"
  vo_is_valid :: "'v \<Rightarrow> bool"
  vo_block_number_to_balance :: "nat \<Rightarrow> nat"

definition slashed_schedule ::
    "sp_arithmetic \<Rightarrow> 'v vesting_ops \<Rightarrow> nat \<Rightarrow> nat \<Rightarrow> 'v \<Rightarrow> 'v option" where
  "slashed_schedule A V now slashed_amount schedule =
     (let total_locked = saturating_sub (vo_locked_at V schedule now) slashed_amount;
          start_block = vo_block_number_to_balance V now;
          end_block = vo_ending_block_as_balance V schedule;
          duration = saturating_sub end_block start_block
      in map_option (\<lambda>r. vo_new V total_locked (f_saturating_mul_int A r 1) now)
           (f_from_rational A total_locked duration))"

text \<open>The loop over the schedules; \<open>None\<close> is the panic of \<^verbatim>\<open>from_rational\<close>.\<close>

fun slashed_schedules ::
    "sp_arithmetic \<Rightarrow> 'v vesting_ops \<Rightarrow> nat \<Rightarrow> nat \<Rightarrow> 'v list \<Rightarrow> 'v list option" where
  "slashed_schedules A V now slashed_amount [] = Some []"
| "slashed_schedules A V now slashed_amount (schedule # schedules) =
     Option.bind (slashed_schedule A V now slashed_amount schedule) (\<lambda>new_schedule.
     Option.bind (slashed_schedules A V now slashed_amount schedules) (\<lambda>rest.
     Some (if vo_is_valid V new_schedule then new_schedule # rest else rest)))"

text \<open>
  \<open>vesting_map\<close> is \<^verbatim>\<open>pallet_vesting::Vesting\<close> and \<open>vest\<close> the extrinsic of that pallet, whose result is
  dropped in a release build.
\<close>

definition on_slash ::
    "sp_arithmetic \<Rightarrow> 'v vesting_ops \<Rightarrow> nat \<Rightarrow> (account \<Rightarrow> 'v list option) \<Rightarrow>
     (account \<Rightarrow> (account \<Rightarrow> 'v list option) \<Rightarrow> (account \<Rightarrow> 'v list option)) \<Rightarrow>
     account \<Rightarrow> nat \<Rightarrow> (account \<Rightarrow> 'v list option) option" where
  "on_slash A V now vesting_map vest_call account slashed_amount =
     (case vesting_map account of
        None \<Rightarrow> Some vesting_map
      | Some vesting_schedules \<Rightarrow>
          map_option (\<lambda>new_vesting_schedules.
              vest_call account (vesting_map(account := Some new_vesting_schedules)))
            (slashed_schedules A V now slashed_amount vesting_schedules))"

section \<open>Properties\<close>

text \<open>What the code relies on of \<^verbatim>\<open>pallet_vesting\<close>: a new schedule locks its amount until it starts.\<close>

definition new_schedule_laws :: "'v vesting_ops \<Rightarrow> bool" where
  "new_schedule_laws V \<longleftrightarrow> (\<forall>l p b. vo_locked_at V (vo_new V l p b) b = l)"

definition lock_total :: "'v vesting_ops \<Rightarrow> nat \<Rightarrow> 'v list \<Rightarrow> nat" where
  "lock_total V now vs = sum_list (map (\<lambda>v. vo_locked_at V v now) vs)"

lemma slashed_schedule_ended:
  assumes "fixed_laws A" "vo_ending_block_as_balance V v \<le> vo_block_number_to_balance V now"
  shows "slashed_schedule A V now amount v = None"
  using assms by (simp add: slashed_schedule_def fixed_laws_def Let_def)

lemma slashed_schedules_ended:
  "fixed_laws A \<Longrightarrow> v \<in> set vs \<Longrightarrow> vo_ending_block_as_balance V v \<le> vo_block_number_to_balance V now \<Longrightarrow>
   slashed_schedules A V now amount vs = None"
  by (induction vs) (auto simp: slashed_schedule_ended Option.bind_eq_None_conv)

text \<open>
  C36. Slashing an account panics as soon as one of its vesting schedules has reached its ending
  block without having been cleaned up by a \<^verbatim>\<open>vest\<close> call: the remaining duration is zero, and
  \<^verbatim>\<open>FixedU128::from_rational\<close> divides by it. Such an account's evaluation cannot be settled.
\<close>

theorem on_slash_panics_on_ended_schedule:
  assumes "fixed_laws A" "vesting_map account = Some vs" "v \<in> set vs"
    and "vo_ending_block_as_balance V v \<le> vo_block_number_to_balance V now"
  shows "on_slash A V now vesting_map vest_call account amount = None"
  using slashed_schedules_ended [OF assms(1,3,4)] assms(2) by (simp add: on_slash_def)

lemma slashed_schedules_total:
  assumes "new_schedule_laws V" "slashed_schedules A V now amount vs = Some ws"
    and "\<forall>v\<in>set vs. amount \<le> vo_locked_at V v now"
  shows "lock_total V now ws + length vs * amount \<le> lock_total V now vs"
  using assms(2,3)
proof (induction vs arbitrary: ws)
  case (Cons v vs)
  from Cons.prems(1) obtain new rest where
    new: "slashed_schedule A V now amount v = Some new"
    and rest: "slashed_schedules A V now amount vs = Some rest"
    and ws: "ws = (if vo_is_valid V new then new # rest else rest)"
    by (auto simp: bind_eq_Some_conv)
  have "vo_locked_at V new now = vo_locked_at V v now - amount"
    using new assms(1) by (auto simp: slashed_schedule_def new_schedule_laws_def Let_def)
  moreover have "lock_total V now rest + length vs * amount \<le> lock_total V now vs"
    using Cons rest by simp
  ultimately show ?case using Cons.prems(2) ws by (auto simp: lock_total_def)
qed (simp add: lock_total_def)

text \<open>
  A slash lowers every schedule of the account by the full amount: with \<open>n\<close> schedules that each
  lock at least the slashed amount, at least \<open>n\<close> times that amount stops being locked, although
  only once the amount was taken.
\<close>

theorem on_slash_unlocks_per_schedule:
  assumes "new_schedule_laws V" "vesting_map account = Some vs"
    and "\<forall>v\<in>set vs. amount \<le> vo_locked_at V v now"
    and "on_slash A V now vesting_map (\<lambda>_ m. m) account amount = Some vesting_map'"
  shows "\<exists>ws. vesting_map' account = Some ws \<and>
    lock_total V now ws + length vs * amount \<le> lock_total V now vs"
proof -
  obtain ws where ws: "slashed_schedules A V now amount vs = Some ws"
      "vesting_map' = vesting_map(account := Some ws)"
    using assms(2,4) by (auto simp: on_slash_def)
  with slashed_schedules_total [OF assms(1) ws(1) assms(3)] show ?thesis by simp
qed

text \<open>A concrete schedule: amount, amount per block and starting block.\<close>

definition plain_vesting_ops :: "(nat \<times> nat \<times> nat) vesting_ops" where
  "plain_vesting_ops =
     \<lparr>vo_locked_at = (\<lambda>(l, p, b) now. l - (now - b) * p),
      vo_ending_block_as_balance = (\<lambda>(l, p, b). b + (l + p - 1) div p),
      vo_new = (\<lambda>l p b. (l, p, b)), vo_is_valid = (\<lambda>(l, p, b). l \<noteq> 0 \<and> p \<noteq> 0),
      vo_block_number_to_balance = (\<lambda>n. n)\<rparr>"

lemma plain_new_schedule_laws: "new_schedule_laws plain_vesting_ops"
  by (simp add: new_schedule_laws_def plain_vesting_ops_def)

theorem on_slash_panics_on_ended_schedule_witness:
  "on_slash plain_arith plain_vesting_ops 30 (\<lambda>_. Some [(100, 10, 5), (100, 1, 5)]) (\<lambda>_ m. m) 1 20 = None"
  by (rule on_slash_panics_on_ended_schedule [where v = "(100, 10, 5)" and vs = "[(100, 10, 5), (100, 1, 5)]"])
     (simp_all add: plain_fixed_laws plain_vesting_ops_def)

end
