(* ===== verification/Sorted_Vectors.thy ===== *)
theory Sorted_Vectors
  imports Ordering
begin

text \<open>
  Vectors that are kept sorted by a key and searched by bisection, as the pallets use them: \<^verbatim>\<open>Vec::insert\<close>
  and \<^verbatim>\<open>Vec::remove\<close> at an index, and the interface \<open>sorted_vector\<close>, for every comparison that reads a key: the
  outcome of a search says whether the key is present, inserting where a search failed and removing where
  it succeeded keep the order, and the vector represents a partial map from keys to elements.
\<close>

definition insert_at :: "nat \<Rightarrow> 'a \<Rightarrow> 'a list \<Rightarrow> 'a list" where
  "insert_at i x xs = take i xs @ x # drop i xs"

definition remove_at :: "nat \<Rightarrow> 'a list \<Rightarrow> 'a list" where
  "remove_at i xs = take i xs @ drop (Suc i) xs"

lemma set_insert_at: "set (insert_at i x xs) = insert x (set xs)"
  unfolding insert_at_def using set_append [of "take i xs" "drop i xs"] by simp

lemma mset_insert_at: "mset (insert_at i x xs) = add_mset x (mset xs)"
  unfolding insert_at_def by (metis append_take_drop_id mset.simps(2) mset_append union_mset_add_mset_right)

lemma mset_remove_at: "i < length xs \<Longrightarrow> mset xs = add_mset (xs ! i) (mset (remove_at i xs))"
  unfolding remove_at_def by (metis id_take_nth_drop mset.simps(2) mset_append union_mset_add_mset_right)

lemma Collect_insert_eq: "A = insert y B \<Longrightarrow> \<forall>x\<in>B. P x \<Longrightarrow> \<not> P y \<Longrightarrow> {x \<in> A. P x} = B"
  by auto

locale sorted_vector =
  fixes cmp :: "'a \<Rightarrow> 'a \<Rightarrow> ordering"
    and key :: "'a \<Rightarrow> nat"
  assumes cmp_key: "cmp a b = nat_cmp (key a) (key b)"
begin

abbreviation ordered :: "'a list \<Rightarrow> bool" where
  "ordered \<equiv> sorted_wrt (\<lambda>a b. key a < key b)"

abbreviation elem_of :: "'a list \<Rightarrow> nat \<Rightarrow> 'a option" where
  "elem_of xs \<equiv> map_of (map (\<lambda>x. (key x, x)) xs)"

lemma distinct_keys: "ordered xs \<Longrightarrow> distinct (map key xs)"
  by (induction xs) auto

lemma elem_of_iff: "ordered xs \<Longrightarrow> elem_of xs k = Some x \<longleftrightarrow> x \<in> set xs \<and> key x = k"
proof -
  assume "ordered xs"
  then have "distinct (map fst (map (\<lambda>x. (key x, x)) xs))" by (simp add: comp_def distinct_keys)
  then show ?thesis by (auto simp: map_of_eq_Some_iff)
qed

lemma elem_of_None: "elem_of xs k = None \<longleftrightarrow> k \<notin> key ` set xs"
  by (simp add: map_of_eq_None_iff image_image)

lemma elem_of_eqI:
  assumes "ordered xs" "\<And>k x. f k = Some x \<longleftrightarrow> x \<in> set xs \<and> key x = k"
  shows "elem_of xs = f"
proof (rule ext)
  fix k
  show "elem_of xs k = f k"
    using assms(2) [of k] elem_of_iff [OF assms(1), of k]
    by (cases "elem_of xs k"; cases "f k") auto
qed

lemma ordered_nth: "ordered xs \<Longrightarrow> i < j \<Longrightarrow> j < length xs \<Longrightarrow> key (xs ! i) < key (xs ! j)"
  by (simp add: sorted_wrt_iff_nth_less)

lemma ordered_searchable:
  assumes "ordered xs"
  shows "searchable (\<lambda>x. cmp x v) xs"
proof -
  have "key (xs ! i) \<le> key (xs ! j)" if "i \<le> j" "j < length xs" for i j
    using ordered_nth [OF assms, of i j] that by (cases "i = j") auto
  then show ?thesis unfolding searchable_def cmp_key nat_cmp_simps
    by (meson le_less_trans less_le_trans)
qed

lemma search_found:
  "binary_search_by (\<lambda>x. cmp x v) xs = Inr i \<Longrightarrow> i < length xs \<and> key (xs ! i) = key v"
  by (drule binary_search_found) (simp add: cmp_key)

lemma search_missing:
  assumes "ordered xs" "binary_search_by (\<lambda>x. cmp x v) xs = Inl i"
  shows "\<forall>x\<in>set (take i xs). key x < key v" "\<forall>x\<in>set (drop i xs). key v < key x"
    "key v \<notin> key ` set xs"
proof -
  note m = binary_search_missing [OF assms(2) ordered_searchable [OF assms(1)]]
  show lt: "\<forall>x\<in>set (take i xs). key x < key v" and gt: "\<forall>x\<in>set (drop i xs). key v < key x"
    using m(2,3) by (auto simp: cmp_key)
  have "set xs = set (take i xs) \<union> set (drop i xs)" by (metis append_take_drop_id set_append)
  then show "key v \<notin> key ` set xs" using lt gt by auto
qed

lemma search_found_key: "binary_search_by (\<lambda>x. cmp x v) xs = Inr i \<Longrightarrow> key v \<in> key ` set xs"
  by (metis image_eqI nth_mem search_found)

lemma ordered_take_drop:
  "ordered xs \<Longrightarrow> ordered (take i xs) \<and> ordered (drop i xs) \<and>
    (\<forall>x\<in>set (take i xs). \<forall>y\<in>set (drop i xs). key x < key y)"
  by (metis append_take_drop_id sorted_wrt_append)

lemma ordered_insert_at:
  assumes "ordered xs" "binary_search_by (\<lambda>x. cmp x v) xs = Inl i"
  shows "ordered (insert_at i v xs)"
  using search_missing [OF assms] ordered_take_drop [OF assms(1), of i]
  by (auto simp: insert_at_def sorted_wrt_append intro: order.strict_trans)

lemma ordered_remove_at:
  assumes "ordered xs"
  shows "ordered (remove_at i xs)"
  using ordered_take_drop [OF assms, of i] ordered_take_drop [OF assms, of "Suc i"]
  by (auto simp: remove_at_def sorted_wrt_append
      dest: in_set_dropD set_take_subset_set_take [THEN subsetD, of i "Suc i", rotated])

lemma set_remove_at:
  assumes "ordered xs" "binary_search_by (\<lambda>x. cmp x v) xs = Inr i"
  shows "set (remove_at i xs) = {x \<in> set xs. key x \<noteq> key v}"
proof -
  have i: "i < length xs" "key (xs ! i) = key v" using search_found [OF assms(2)] by auto
  have perm: "mset (map key xs) = add_mset (key v) (mset (map key (remove_at i xs)))"
    using mset_remove_at [OF i(1)] i(2) by simp
  have "distinct (map key xs)" by (rule distinct_keys [OF assms(1)])
  then have "key v \<notin> key ` set (remove_at i xs)"
    using perm mset_eq_imp_distinct_iff [of "map key xs" "key v # map key (remove_at i xs)"] by simp
  moreover have "set xs = insert (xs ! i) (set (remove_at i xs))"
    using mset_remove_at [OF i(1)] by (metis set_mset_add_mset_insert set_mset_mset)
  moreover from calculation have "\<forall>x\<in>set (remove_at i xs). key x \<noteq> key v" by (metis imageI)
  then have "{x \<in> set xs. key x \<noteq> key v} = set (remove_at i xs)"
    by (intro Collect_insert_eq [OF calculation(2)]) (simp_all add: i(2))
  then show ?thesis by simp
qed

lemma search_found_iff:
  assumes "ordered xs"
  shows "(\<exists>i. binary_search_by (\<lambda>x. cmp x v) xs = Inr i) \<longleftrightarrow> key v \<in> key ` set xs"
  using search_found_key search_missing(3) [OF assms, of v] by (cases "binary_search_by (\<lambda>x. cmp x v) xs") auto

sublocale comparator cmp
  by unfold_locales (auto simp: cmp_key)

lemma ordered_iff: "ordered xs \<longleftrightarrow> cmp_sorted xs \<and> distinct (map key xs)"
  by (induction xs) (auto simp: cmp_key not_less order_less_le image_iff)

lemma ordered_sort_by: "distinct (map key xs) \<Longrightarrow> ordered (sort_by cmp xs)"
  unfolding ordered_iff using sorted_sort_by [of xs] mset_sort_by [of xs]
  by (metis mset_eq_imp_distinct_iff mset_map)

lemma sort_by_ordered: "ordered xs \<Longrightarrow> sort_by cmp xs = xs"
proof (induction xs)
  case (Cons x xs)
  then have "sort_by cmp xs = xs" by simp
  moreover have "\<forall>y\<in>set xs. cmp x y \<noteq> Greater" using Cons.prems by (auto simp: cmp_key)
  ultimately show ?case unfolding sort_by_def by (cases xs) auto
qed (simp add: sort_by_def)

end

end
