(* ===== verification/Staking_Types.thy ===== *)
theory Staking_Types
  imports Frame Sorted_Vectors
begin

text \<open>
  The data of the pallet \<^verbatim>\<open>parachain-staking\<close> (\<^verbatim>\<open>src/pallets/parachain-staking/src\<close>): the ordered set of
  \<^verbatim>\<open>set.rs\<close>, the structs and enums of \<^verbatim>\<open>types.rs\<close>, \<^verbatim>\<open>delegation_requests.rs\<close>, \<^verbatim>\<open>auto_compound.rs\<close> and
  \<^verbatim>\<open>inflation.rs\<close> with the methods that do not touch the storage, and the configuration of the pallet.
  The deprecated structs that only old storage migrations decode are left out. A \<^verbatim>\<open>Perbill\<close> is a
  number of parts of \<open>10 ^ 9\<close>, a \<^verbatim>\<open>Percent\<close> a number of parts of 100.
\<close>

section \<open>Ordered sets\<close>

text \<open>
  \<^verbatim>\<open>OrderedSet<T>\<close> of \<^verbatim>\<open>set.rs\<close>, a vector that is sorted by the \<^verbatim>\<open>Ord\<close> instance of its elements. The
  instance is the argument \<open>cmp\<close>, since a \<^verbatim>\<open>Bond\<close> is compared by its owner only.
\<close>

fun dedup :: "('a \<Rightarrow> 'a \<Rightarrow> ordering) \<Rightarrow> 'a list \<Rightarrow> 'a list" where
  "dedup cmp (x # y # zs) = (if cmp x y = Equal then dedup cmp (x # zs) else x # dedup cmp (y # zs))"
| "dedup cmp xs = xs"

definition os_from :: "('a \<Rightarrow> 'a \<Rightarrow> ordering) \<Rightarrow> 'a list \<Rightarrow> 'a list" where
  "os_from cmp v = dedup cmp (sort_by cmp v)"

definition os_insert :: "('a \<Rightarrow> 'a \<Rightarrow> ordering) \<Rightarrow> 'a \<Rightarrow> 'a list \<Rightarrow> 'a list \<times> bool" where
  "os_insert cmp v xs =
     (case binary_search_by (\<lambda>x. cmp x v) xs of
        Inr _ \<Rightarrow> (xs, False)
      | Inl loc \<Rightarrow> (insert_at loc v xs, True))"

definition os_remove :: "('a \<Rightarrow> 'a \<Rightarrow> ordering) \<Rightarrow> 'a \<Rightarrow> 'a list \<Rightarrow> 'a list \<times> bool" where
  "os_remove cmp v xs =
     (case binary_search_by (\<lambda>x. cmp x v) xs of
        Inr loc \<Rightarrow> (remove_at loc xs, True)
      | Inl _ \<Rightarrow> (xs, False))"

definition os_contains :: "('a \<Rightarrow> 'a \<Rightarrow> ordering) \<Rightarrow> 'a \<Rightarrow> 'a list \<Rightarrow> bool" where
  "os_contains cmp v xs = (case binary_search_by (\<lambda>x. cmp x v) xs of Inr _ \<Rightarrow> True | Inl _ \<Rightarrow> False)"

section \<open>Bonds and candidates\<close>

record bond =
  bd_owner :: account
  bd_amount :: nat

definition bond_from_owner :: "account \<Rightarrow> bond" where
  "bond_from_owner owner = \<lparr>bd_owner = owner, bd_amount = 0\<rparr>"

definition bond_cmp :: "bond \<Rightarrow> bond \<Rightarrow> ordering" where
  "bond_cmp a b = nat_cmp (bd_owner a) (bd_owner b)"

datatype collator_status = CollatorActive | CollatorIdle | CollatorLeaving nat

record bond_with_auto_compound =
  ba_owner :: account
  ba_amount :: nat
  ba_auto_compound :: nat

record collator_snapshot =
  sn_bond :: nat
  sn_delegations :: "bond_with_auto_compound list"
  sn_total :: nat

record delayed_payout =
  dy_round_issuance :: nat
  dy_total_staking_reward :: nat
  dy_collator_commission :: nat

record candidate_bond_less_request =
  br_amount :: nat
  br_when_executable :: nat

record delegations =
  dl_delegations :: "bond list"
  dl_total :: nat

definition empty_delegations :: delegations where
  "empty_delegations = \<lparr>dl_delegations = [], dl_total = 0\<rparr>"

datatype capacity_status = Full | Empty | Partial

record candidate_metadata =
  ci_bond :: nat
  ci_delegation_count :: nat
  ci_total_counted :: nat
  ci_lowest_top_delegation_amount :: nat
  ci_highest_bottom_delegation_amount :: nat
  ci_lowest_bottom_delegation_amount :: nat
  ci_top_capacity :: capacity_status
  ci_bottom_capacity :: capacity_status
  ci_request :: "candidate_bond_less_request option"
  ci_status :: collator_status

definition new_candidate :: "nat \<Rightarrow> candidate_metadata" where
  "new_candidate bond =
     \<lparr>ci_bond = bond, ci_delegation_count = 0, ci_total_counted = bond,
      ci_lowest_top_delegation_amount = 0, ci_highest_bottom_delegation_amount = 0,
      ci_lowest_bottom_delegation_amount = 0, ci_top_capacity = Empty, ci_bottom_capacity = Empty,
      ci_request = None, ci_status = CollatorActive\<rparr>"

definition candidate_is_active :: "candidate_metadata \<Rightarrow> bool" where
  "candidate_is_active c \<longleftrightarrow> ci_status c = CollatorActive"

definition candidate_is_leaving :: "candidate_metadata \<Rightarrow> bool" where
  "candidate_is_leaving c \<longleftrightarrow> (case ci_status c of CollatorLeaving _ \<Rightarrow> True | _ \<Rightarrow> False)"

datatype delegator_added = AddedToTop nat | AddedToBottom

section \<open>Delegators\<close>

datatype delegator_status = DelegatorActive | DelegatorLeaving nat

record delegator =
  dg_id :: account
  dg_delegations :: "bond list"
  dg_total :: nat
  dg_less_total :: nat
  dg_status :: delegator_status

definition new_delegator :: "account \<Rightarrow> account \<Rightarrow> nat \<Rightarrow> delegator" where
  "new_delegator i collator amount =
     \<lparr>dg_id = i, dg_delegations = os_from bond_cmp [\<lparr>bd_owner = collator, bd_amount = amount\<rparr>],
      dg_total = amount, dg_less_total = 0, dg_status = DelegatorActive\<rparr>"

definition delegator_add_delegation :: "bond \<Rightarrow> delegator \<Rightarrow> delegator \<times> bool" where
  "delegator_add_delegation b d =
     (case os_insert bond_cmp b (dg_delegations d) of
        (ds, True) \<Rightarrow>
          (d\<lparr>dg_delegations := ds, dg_total := saturating_add (dg_total d) (bd_amount b)\<rparr>, True)
      | (ds, False) \<Rightarrow> (d, False))"

definition get_bond_amount :: "account \<Rightarrow> delegator \<Rightarrow> nat option" where
  "get_bond_amount collator d =
     map_option bd_amount (List.find (\<lambda>b. bd_owner b = collator) (dg_delegations d))"

datatype bond_adjust = Increase nat | DecreaseBond

section \<open>Scheduled requests and auto-compounding\<close>

datatype delegation_action = Revoke nat | Decrease nat

fun action_amount :: "delegation_action \<Rightarrow> nat" where
  "action_amount (Revoke amount) = amount"
| "action_amount (Decrease amount) = amount"

definition is_revoke :: "delegation_action \<Rightarrow> bool" where
  "is_revoke a \<longleftrightarrow> (case a of Revoke _ \<Rightarrow> True | Decrease _ \<Rightarrow> False)"

record scheduled_request =
  sr_delegator :: account
  sr_when_executable :: nat
  sr_action :: delegation_action

record auto_compound_config =
  ac_delegator :: account
  ac_value :: nat

section \<open>Rounds and inflation\<close>

record round_info =
  rd_current :: nat
  rd_first :: nat
  rd_length :: nat

definition should_update :: "round_info \<Rightarrow> nat \<Rightarrow> bool" where
  "should_update r now \<longleftrightarrow> wrapping_sub_u32 now (rd_first r) \<ge> rd_length r"

definition round_update :: "nat \<Rightarrow> round_info \<Rightarrow> round_info" where
  "round_update now r = r\<lparr>rd_current := saturating_add_u32 (rd_current r) 1, rd_first := now\<rparr>"

record parachain_bond_config =
  pbc_account :: account
  pbc_percent :: nat

record range =
  rg_min :: nat
  rg_ideal :: nat
  rg_max :: nat

definition range_is_valid :: "range \<Rightarrow> bool" where
  "range_is_valid r \<longleftrightarrow> rg_max r \<ge> rg_ideal r \<and> rg_ideal r \<ge> rg_min r"

record inflation_info =
  in_expect :: range
  in_annual :: range
  in_round :: range

definition SECONDS_PER_YEAR :: nat where
  "SECONDS_PER_YEAR = 31557600"

definition SECONDS_PER_BLOCK :: nat where
  "SECONDS_PER_BLOCK = 12"

definition BLOCKS_PER_YEAR :: nat where
  "BLOCKS_PER_YEAR = SECONDS_PER_YEAR div SECONDS_PER_BLOCK"

section \<open>Configuration\<close>

text \<open>
  The constants of the pallet, and the code outside the repository: the currency, the \<^verbatim>\<open>Perbill\<close>,
  \<^verbatim>\<open>Permill\<close> and \<^verbatim>\<open>Percent\<close> arithmetic, and the power function of \<^verbatim>\<open>substrate_fixed\<close> that turns an annual rate into the
  rate of one of so many rounds (\<open>None\<close> is its panic). The hooks \<^verbatim>\<open>OnNewRound\<close> and \<^verbatim>\<open>OnCollatorPayout\<close> are functions on the
  external state.
\<close>

record 'l staking_config =
  st_currency :: "'l currency"
  reducible_balance :: "account \<Rightarrow> 'l \<Rightarrow> nat"
  st_total_issuance :: "'l \<Rightarrow> nat"
  perbill_mul :: "nat \<Rightarrow> nat \<Rightarrow> nat"
  perbill_from_rational :: "nat \<Rightarrow> nat \<Rightarrow> nat"
  percent_mul_ceil :: "nat \<Rightarrow> nat \<Rightarrow> nat"
  permill_from_rational :: "nat \<Rightarrow> nat \<Rightarrow> nat"
  annual_rate_to_round :: "nat \<Rightarrow> nat \<Rightarrow> nat option"
  on_new_round :: "nat \<Rightarrow> 'l \<Rightarrow> 'l"
  on_collator_payout :: "nat \<Rightarrow> account \<Rightarrow> nat \<Rightarrow> 'l \<Rightarrow> 'l"
  hash_at_stake :: "nat \<times> account \<Rightarrow> nat"
  PayMaster :: account
  monetary_governance_origin :: "origin \<Rightarrow> bool"
  MinBlocksPerRound :: nat
  LeaveCandidatesDelay :: nat
  CandidateBondLessDelay :: nat
  LeaveDelegatorsDelay :: nat
  RevokeDelegationDelay :: nat
  DelegationBondLessDelay :: nat
  RewardPaymentDelay :: nat
  MinSelectedCandidates :: nat
  MaxTopDelegationsPerCandidate :: nat
  MaxBottomDelegationsPerCandidate :: nat
  MaxDelegationsPerDelegator :: nat
  MinCandidateStk :: nat
  MinDelegation :: nat
  MinDelegatorStk :: nat

section \<open>Lists of delegations\<close>

definition sort_greatest_to_least :: "delegations \<Rightarrow> delegations" where
  "sort_greatest_to_least d =
     d\<lparr>dl_delegations := sort_by (\<lambda>a b. nat_cmp (bd_amount b) (bd_amount a)) (dl_delegations d)\<rparr>"

text \<open>The loop that moves the insertion point behind the delegations of the same amount.\<close>

function insert_after_equal :: "bond \<Rightarrow> bond list \<Rightarrow> nat \<Rightarrow> bond list" where
  "insert_after_equal b ds new_index =
     (if new_index \<le> length ds - 1
      then if bd_amount (ds ! new_index) = bd_amount b then insert_after_equal b ds (Suc new_index)
           else insert_at new_index b ds
      else ds @ [b])"
  by pat_completeness auto
termination
  by (relation "measure (\<lambda>(b, ds, i). Suc (length ds) - i)") auto

declare insert_after_equal.simps [simp del]

definition insert_sorted_greatest_to_least :: "bond \<Rightarrow> delegations \<Rightarrow> delegations" where
  "insert_sorted_greatest_to_least b d =
     (let ds = dl_delegations d; total = saturating_add (dl_total d) (bd_amount b) in
      if ds \<noteq> [] \<and> bd_amount (ds ! (length ds - 1)) = bd_amount b
      then \<lparr>dl_delegations = ds @ [b], dl_total = total\<rparr>
      else
        (case binary_search_by (\<lambda>x. nat_cmp (bd_amount b) (bd_amount x)) ds of
           Inr i \<Rightarrow> \<lparr>dl_delegations = insert_after_equal b ds (Suc i), dl_total = total\<rparr>
         | Inl i \<Rightarrow> \<lparr>dl_delegations = insert_at i b ds, dl_total = total\<rparr>))"

definition capacity_of :: "nat \<Rightarrow> bond list \<Rightarrow> capacity_status" where
  "capacity_of limit x = (if as_u32 (length x) \<ge> limit then Full else if x = [] then Empty else Partial)"

definition top_capacity :: "('l, 'c) staking_config_scheme \<Rightarrow> delegations \<Rightarrow> capacity_status" where
  "top_capacity T d = capacity_of (MaxTopDelegationsPerCandidate T) (dl_delegations d)"

definition bottom_capacity :: "('l, 'c) staking_config_scheme \<Rightarrow> delegations \<Rightarrow> capacity_status" where
  "bottom_capacity T d = capacity_of (MaxBottomDelegationsPerCandidate T) (dl_delegations d)"

definition lowest_delegation_amount :: "delegations \<Rightarrow> nat" where
  "lowest_delegation_amount d =
     (if dl_delegations d = [] then 0 else bd_amount (last (dl_delegations d)))"

definition highest_delegation_amount :: "delegations \<Rightarrow> nat" where
  "highest_delegation_amount d =
     (if dl_delegations d = [] then 0 else bd_amount (hd (dl_delegations d)))"

section \<open>Inflation\<close>

text \<open>\<open>None\<close> is a panic: a division by zero, or the one of the power function.\<close>

definition perbill_annual_to_perbill_round ::
    "('l, 'c) staking_config_scheme \<Rightarrow> range \<Rightarrow> nat \<Rightarrow> range option" where
  "perbill_annual_to_perbill_round T annual rounds_per_year =
     (if rounds_per_year = 0 then None else
      Option.bind (annual_rate_to_round T (rg_min annual) rounds_per_year) (\<lambda>lo.
      Option.bind (annual_rate_to_round T (rg_ideal annual) rounds_per_year) (\<lambda>mid.
      Option.bind (annual_rate_to_round T (rg_max annual) rounds_per_year) (\<lambda>hi.
      Some \<lparr>rg_min = lo, rg_ideal = mid, rg_max = hi\<rparr>))))"

definition rounds_per_year :: "round_info \<Rightarrow> nat option" where
  "rounds_per_year r = (if rd_length r = 0 then None else Some (BLOCKS_PER_YEAR div rd_length r))"

definition annual_to_round ::
    "('l, 'c) staking_config_scheme \<Rightarrow> round_info \<Rightarrow> range \<Rightarrow> range option" where
  "annual_to_round T r annual =
     Option.bind (rounds_per_year r) (perbill_annual_to_perbill_round T annual)"

definition set_expectations :: "range \<Rightarrow> inflation_info \<Rightarrow> inflation_info" where
  "set_expectations expect i = i\<lparr>in_expect := expect\<rparr>"

definition set_round_from_annual ::
    "('l, 'c) staking_config_scheme \<Rightarrow> round_info \<Rightarrow> range \<Rightarrow> inflation_info \<Rightarrow> inflation_info option" where
  "set_round_from_annual T r annual i =
     map_option (\<lambda>rates. i\<lparr>in_round := rates\<rparr>) (annual_to_round T r annual)"

definition reset_round ::
    "('l, 'c) staking_config_scheme \<Rightarrow> nat \<Rightarrow> inflation_info \<Rightarrow> inflation_info option" where
  "reset_round T new_length i =
     (if new_length = 0 then None else
      map_option (\<lambda>rates. i\<lparr>in_round := rates\<rparr>)
        (perbill_annual_to_perbill_round T (in_annual i) (BLOCKS_PER_YEAR div new_length)))"

definition round_issuance_range ::
    "('l, 'c) staking_config_scheme \<Rightarrow> range \<Rightarrow> 'l \<Rightarrow> range" where
  "round_issuance_range T round l =
     (let circulating = st_total_issuance T l in
      \<lparr>rg_min = perbill_mul T (rg_min round) circulating,
       rg_ideal = perbill_mul T (rg_ideal round) circulating,
       rg_max = perbill_mul T (rg_max round) circulating\<rparr>)"

end
