(* ===== verification/Staking_State.thy ===== *)
theory Staking_State
  imports Staking_Types
begin

text \<open>
  The storage and events of the pallet \<^verbatim>\<open>parachain-staking\<close> (\<^verbatim>\<open>lib.rs\<close>), the helpers of the pallet that
  the other files call, and the parts of \<^verbatim>\<open>auto_compound.rs\<close> and \<^verbatim>\<open>delegation_requests.rs\<close> that keep the
  auto-compounding settings and the scheduled requests. A map with \<^verbatim>\<open>ValueQuery\<close> is a function to its
  values, \<^verbatim>\<open>AtStake\<close>, which is drained in the order of its hashed keys, an \<open>nmap\<close>.
\<close>

section \<open>Storage and events\<close>

datatype staking_event =
    NewRound nat nat nat nat
  | JoinedCollatorCandidates account nat nat
  | CollatorChosen nat account nat
  | CandidateBondLessRequested account nat nat
  | CandidateBondedMore account nat nat
  | CandidateBondedLess account nat nat
  | CandidateWentOffline account
  | CandidateBackOnline account
  | CandidateScheduledExit nat account nat
  | CancelledCandidateExit account
  | CancelledCandidateBondLess account nat nat
  | CandidateLeft account nat nat
  | DelegationDecreaseScheduled account account nat nat
  | DelegationIncreased account account nat bool
  | DelegationDecreased account account nat bool
  | DelegatorExitScheduled nat account nat
  | DelegationRevocationScheduled nat account account nat
  | DelegatorLeft account nat
  | DelegationRevoked account account nat
  | DelegationKicked account account nat
  | DelegatorExitCancelled account
  | CancelledDelegationRequest account nat delegation_action account
  | DelegationEvent account nat account delegator_added nat
  | DelegatorLeftCandidate account account nat nat
  | RewardedEvent account nat
  | ParachainBondAccountSet account account
  | ParachainBondReservePercentSet nat nat
  | InflationSet range range
  | StakeExpectationsSet range
  | TotalSelectedSet nat nat
  | CollatorCommissionSet nat nat
  | BlocksPerRoundSet nat nat nat nat range
  | AutoCompoundSet account account nat
  | Compounded account account nat

record 'l staking_state = "'l system" +
  CollatorCommission :: nat
  TotalSelected :: nat
  ParachainBondInfo :: parachain_bond_config
  Round :: round_info
  DelegatorState :: "account \<Rightarrow> delegator option"
  CandidateInfo :: "account \<Rightarrow> candidate_metadata option"
  DelegationScheduledRequests :: "account \<Rightarrow> scheduled_request list"
  AutoCompoundingDelegations :: "account \<Rightarrow> auto_compound_config list"
  TopDelegations :: "account \<Rightarrow> delegations option"
  BottomDelegations :: "account \<Rightarrow> delegations option"
  SelectedCandidates :: "account list"
  Total :: nat
  CandidatePool :: "bond list"
  AtStake :: "(nat \<times> account, collator_snapshot) nmap"
  DelayedPayouts :: "nat \<Rightarrow> delayed_payout option"
  Staked :: "nat \<Rightarrow> nat"
  InflationConfig :: inflation_info
  Points :: "nat \<Rightarrow> nat"
  AwardedPts :: "nat \<times> account \<Rightarrow> nat"
  staking_events :: "staking_event list"

type_synonym ('l, 'z, 'a) sprog = "(('l, 'z) staking_state_scheme, 'a) dprog"

abbreviation SErr :: "staking_error \<Rightarrow> dispatch_error" where
  "SErr \<equiv> StakingError"

definition deposit_staking_event :: "staking_event \<Rightarrow> ('l, 'z, unit) sprog" where
  "deposit_staking_event e = modify (\<lambda>s. s\<lparr>staking_events := staking_events s @ [e]\<rparr>)"

definition put_candidate :: "account \<Rightarrow> candidate_metadata \<Rightarrow> ('l, 'z, unit) sprog" where
  "put_candidate a c = modify (\<lambda>s. s\<lparr>CandidateInfo := (CandidateInfo s)(a \<mapsto> c)\<rparr>)"

definition put_delegator :: "account \<Rightarrow> delegator option \<Rightarrow> ('l, 'z, unit) sprog" where
  "put_delegator a d = modify (\<lambda>s. s\<lparr>DelegatorState := (DelegatorState s)(a := d)\<rparr>)"

definition put_top :: "account \<Rightarrow> delegations option \<Rightarrow> ('l, 'z, unit) sprog" where
  "put_top a d = modify (\<lambda>s. s\<lparr>TopDelegations := (TopDelegations s)(a := d)\<rparr>)"

definition put_bottom :: "account \<Rightarrow> delegations option \<Rightarrow> ('l, 'z, unit) sprog" where
  "put_bottom a d = modify (\<lambda>s. s\<lparr>BottomDelegations := (BottomDelegations s)(a := d)\<rparr>)"

definition put_requests :: "account \<Rightarrow> scheduled_request list \<Rightarrow> ('l, 'z, unit) sprog" where
  "put_requests a r =
     modify (\<lambda>s. s\<lparr>DelegationScheduledRequests := (DelegationScheduledRequests s)(a := r)\<rparr>)"

definition put_total :: "nat \<Rightarrow> ('l, 'z, unit) sprog" where
  "put_total n = modify (\<lambda>s. s\<lparr>Total := n\<rparr>)"

definition candidate_of :: "account \<Rightarrow> ('l, 'z, candidate_metadata) sprog" where
  "candidate_of a = sbind (gets (\<lambda>s. CandidateInfo s a)) (\<lambda>c. ok_or c (SErr CandidateDNE))"

definition delegator_of :: "account \<Rightarrow> ('l, 'z, delegator) sprog" where
  "delegator_of a = sbind (gets (\<lambda>s. DelegatorState s a)) (\<lambda>d. ok_or d (SErr DelegatorDNE))"

text \<open>A read that the code follows by \<^verbatim>\<open>expect\<close>.\<close>

definition top_of :: "account \<Rightarrow> ('l, 'z, delegations) sprog" where
  "top_of a = sbind (gets (\<lambda>s. TopDelegations s a)) (\<lambda>d. ok_or d Panic)"

definition bottom_of :: "account \<Rightarrow> ('l, 'z, delegations) sprog" where
  "bottom_of a = sbind (gets (\<lambda>s. BottomDelegations s a)) (\<lambda>d. ok_or d Panic)"

lemmas staking_access_defs =
  deposit_staking_event_def put_candidate_def put_delegator_def put_top_def put_bottom_def
  put_requests_def put_total_def candidate_of_def delegator_of_def top_of_def bottom_of_def

text \<open>A call whose error the code only logs or inspects; a panic is not caught.\<close>

definition attempt :: "('s, 'a) dprog \<Rightarrow> ('s, 'a option) dprog" where
  "attempt m s =
     (case m s of
        (Inr a, t) \<Rightarrow> (Inr (Some a), t)
      | (Inl e, t) \<Rightarrow> if e = Panic then (Inl Panic, t) else (Inr None, t))"

definition log_error :: "('s, 'a) dprog \<Rightarrow> ('s, unit) dprog" where
  "log_error m = sbind (attempt m) (\<lambda>_. ok ())"

section \<open>Helpers of the pallet\<close>

definition is_delegator :: "('l, 'z) staking_state_scheme \<Rightarrow> account \<Rightarrow> bool" where
  "is_delegator s acc \<longleftrightarrow> DelegatorState s acc \<noteq> None"

definition is_candidate :: "('l, 'z) staking_state_scheme \<Rightarrow> account \<Rightarrow> bool" where
  "is_candidate s acc \<longleftrightarrow> CandidateInfo s acc \<noteq> None"

definition is_selected_candidate :: "('l, 'z) staking_state_scheme \<Rightarrow> account \<Rightarrow> bool" where
  "is_selected_candidate s acc = os_contains nat_cmp acc (SelectedCandidates s)"

definition stakable_free_balance ::
    "('l, 'c) staking_config_scheme \<Rightarrow> account \<Rightarrow> ('l, 'z) staking_state_scheme \<Rightarrow> nat" where
  "stakable_free_balance T acc s = reducible_balance T acc (ext s)"

definition update_active :: "account \<Rightarrow> nat \<Rightarrow> ('l, 'z, unit) sprog" where
  "update_active candidate new_total =
     modify (\<lambda>s.
       let candidates = fst (os_remove bond_cmp (bond_from_owner candidate) (CandidatePool s));
           candidates = fst (os_insert bond_cmp \<lparr>bd_owner = candidate, bd_amount = new_total\<rparr> candidates)
       in s\<lparr>CandidatePool := candidates\<rparr>)"

section \<open>Auto-compounding settings\<close>

definition ac_search :: "account \<Rightarrow> auto_compound_config list \<Rightarrow> nat + nat" where
  "ac_search who cs = binary_search_by (\<lambda>d. nat_cmp (ac_delegator d) who) cs"

definition get_for_delegator :: "account \<Rightarrow> auto_compound_config list \<Rightarrow> nat option" where
  "get_for_delegator who cs =
     (case ac_search who cs of Inr index \<Rightarrow> Some (ac_value (cs ! index)) | Inl _ \<Rightarrow> None)"

definition set_for_delegator ::
    "('l, 'c) staking_config_scheme \<Rightarrow> account \<Rightarrow> nat \<Rightarrow> auto_compound_config list \<Rightarrow>
     dispatch_error + auto_compound_config list \<times> bool" where
  "set_for_delegator T who value cs =
     (case ac_search who cs of
        Inr index \<Rightarrow>
          if ac_value (cs ! index) = value then Inr (cs, False)
          else Inr (cs[index := (cs ! index)\<lparr>ac_value := value\<rparr>], True)
      | Inl index \<Rightarrow>
          if length cs < wrapping_add_u32 (MaxTopDelegationsPerCandidate T) (MaxBottomDelegationsPerCandidate T)
          then Inr (insert_at index \<lparr>ac_delegator = who, ac_value = value\<rparr> cs, True)
          else Inl (SErr ExceedMaxDelegationsPerDelegator))"

definition remove_for_delegator ::
    "account \<Rightarrow> auto_compound_config list \<Rightarrow> auto_compound_config list \<times> bool" where
  "remove_for_delegator who cs =
     (case ac_search who cs of Inr index \<Rightarrow> (remove_at index cs, True) | Inl _ \<Rightarrow> (cs, False))"

definition put_auto_compound :: "account \<Rightarrow> auto_compound_config list \<Rightarrow> ('l, 'z, unit) sprog" where
  "put_auto_compound candidate cs =
     modify (\<lambda>s. s\<lparr>AutoCompoundingDelegations := (AutoCompoundingDelegations s)(candidate := cs)\<rparr>)"

definition remove_auto_compound :: "account \<Rightarrow> account \<Rightarrow> ('l, 'z, unit) sprog" where
  "remove_auto_compound candidate delegator =
     sbind (gets (\<lambda>s. AutoCompoundingDelegations s candidate)) (\<lambda>cs.
     case remove_for_delegator delegator cs of
       (cs', removed) \<Rightarrow> if removed then put_auto_compound candidate cs' else ok ())"

definition auto_compound :: "account \<Rightarrow> account \<Rightarrow> ('l, 'z) staking_state_scheme \<Rightarrow> nat" where
  "auto_compound candidate delegator s =
     (case get_for_delegator delegator (AutoCompoundingDelegations s candidate) of
        Some v \<Rightarrow> v | None \<Rightarrow> 0)"

section \<open>Scheduled requests\<close>

fun position :: "('a \<Rightarrow> bool) \<Rightarrow> 'a list \<Rightarrow> nat option" where
  "position P [] = None"
| "position P (x # xs) = (if P x then Some 0 else map_option Suc (position P xs))"

definition cancel_request_with_state ::
    "account \<Rightarrow> delegator \<Rightarrow> scheduled_request list \<Rightarrow>
     delegator \<times> scheduled_request list \<times> scheduled_request option" where
  "cancel_request_with_state who state requests =
     (case position (\<lambda>req. sr_delegator req = who) requests of
        None \<Rightarrow> (state, requests, None)
      | Some request_idx \<Rightarrow>
          let request = requests ! request_idx; amount = action_amount (sr_action request)
          in (state\<lparr>dg_less_total := saturating_sub (dg_less_total state) amount\<rparr>,
              remove_at request_idx requests, Some request))"

definition delegation_remove_request_with_state ::
    "account \<Rightarrow> account \<Rightarrow> delegator \<Rightarrow> ('l, 'z, delegator) sprog" where
  "delegation_remove_request_with_state collator who state =
     sbind (gets (\<lambda>s. DelegationScheduledRequests s collator)) (\<lambda>requests.
     case cancel_request_with_state who state requests of
       (state', requests', None) \<Rightarrow> ok state
     | (state', requests', Some _) \<Rightarrow> seq (put_requests collator requests') (ok state'))"

definition delegation_request_exists ::
    "account \<Rightarrow> account \<Rightarrow> ('l, 'z) staking_state_scheme \<Rightarrow> bool" where
  "delegation_request_exists collator who s \<longleftrightarrow>
     (\<exists>req\<in>set (DelegationScheduledRequests s collator). sr_delegator req = who)"

definition delegation_request_revoke_exists ::
    "account \<Rightarrow> account \<Rightarrow> ('l, 'z) staking_state_scheme \<Rightarrow> bool" where
  "delegation_request_revoke_exists collator who s \<longleftrightarrow>
     (\<exists>req\<in>set (DelegationScheduledRequests s collator). sr_delegator req = who \<and> is_revoke (sr_action req))"

end
