(* ===== verification/Staking_Candidate.thy ===== *)
theory Staking_Candidate
  imports Staking_State
begin

text \<open>
  The methods of \<^verbatim>\<open>CandidateMetadata\<close> and \<^verbatim>\<open>Delegator\<close> of \<^verbatim>\<open>types.rs\<close> that write to the storage. The code
  changes its local copy of the struct and the storage side by side; a method is therefore a program
  that takes the struct and returns the changed one. An \<^verbatim>\<open>expect\<close> that fails is a \<open>Panic\<close>.
\<close>

section \<open>Delegators\<close>

definition balance_on_hold ::
    "('l, 'c) staking_config_scheme \<Rightarrow> staking_hold_reason \<Rightarrow> account \<Rightarrow> ('l, 'z) staking_state_scheme \<Rightarrow> nat" where
  "balance_on_hold T r who s = c_balance_on_hold (st_currency T) (StakingReason r) who (ext s)"

definition st_hold ::
    "('l, 'c) staking_config_scheme \<Rightarrow> staking_hold_reason \<Rightarrow> account \<Rightarrow> nat \<Rightarrow> ('l, 'z, unit) sprog" where
  "st_hold T r who amount = on_ext (c_hold (st_currency T) (StakingReason r) who amount)"

definition st_release ::
    "('l, 'c) staking_config_scheme \<Rightarrow> staking_hold_reason \<Rightarrow> account \<Rightarrow> nat \<Rightarrow> ('l, 'z, unit) sprog" where
  "st_release T r who amount =
     sbind (on_ext (c_release (st_currency T) (StakingReason r) who amount Exact)) (\<lambda>_. ok ())"

definition adjust_bond_lock ::
    "('l, 'c) staking_config_scheme \<Rightarrow> bond_adjust \<Rightarrow> delegator \<Rightarrow> ('l, 'z, unit) sprog" where
  "adjust_bond_lock T adjust d =
     seq (case adjust of
            Increase amount \<Rightarrow>
              sbind (gets (stakable_free_balance T (dg_id d))) (\<lambda>free.
              seq (ensure (free \<ge> amount) (SErr InsufficientBalance))
              (ensure (\<not> amount > dg_total d) (Other ''Invalid additional_required_balance'')))
          | DecreaseBond \<Rightarrow> ok ())
     (sbind (gets (balance_on_hold T StakingDelegator (dg_id d))) (\<lambda>total_bonded.
      if total_bonded > dg_total d
      then st_release T StakingDelegator (dg_id d) (saturating_sub total_bonded (dg_total d))
      else st_hold T StakingDelegator (dg_id d) (saturating_sub (dg_total d) total_bonded)))"

definition total_sub ::
    "('l, 'c) staking_config_scheme \<Rightarrow> nat \<Rightarrow> delegator \<Rightarrow> ('l, 'z, delegator) sprog" where
  "total_sub T amount d =
     (let d = d\<lparr>dg_total := saturating_sub (dg_total d) amount\<rparr> in
      seq (adjust_bond_lock T DecreaseBond d) (ok d))"

definition total_sub_if ::
    "('l, 'c) staking_config_scheme \<Rightarrow> nat \<Rightarrow> (nat \<Rightarrow> ('l, 'z, unit) sprog) \<Rightarrow> delegator \<Rightarrow>
     ('l, 'z, delegator) sprog" where
  "total_sub_if T amount check d =
     (let new_total = saturating_sub (dg_total d) amount; d = d\<lparr>dg_total := new_total\<rparr> in
      seq (check new_total) (seq (adjust_bond_lock T DecreaseBond d) (ok d)))"

text \<open>The bond a filter over a vector of bonds takes out, the last one if there were several.\<close>

definition last_bond_of :: "account \<Rightarrow> bond list \<Rightarrow> bond option" where
  "last_bond_of who ds =
     (case filter (\<lambda>b. bd_owner b = who) ds of [] \<Rightarrow> None | ms \<Rightarrow> Some (last ms))"

definition without_owner :: "account \<Rightarrow> bond list \<Rightarrow> bond list" where
  "without_owner who ds = filter (\<lambda>b. bd_owner b \<noteq> who) ds"

definition change_bond :: "account \<Rightarrow> (nat \<Rightarrow> nat) \<Rightarrow> bond list \<Rightarrow> bond list" where
  "change_bond who f ds = map (\<lambda>b. if bd_owner b \<noteq> who then b else b\<lparr>bd_amount := f (bd_amount b)\<rparr>) ds"

definition has_bond :: "account \<Rightarrow> bond list \<Rightarrow> bool" where
  "has_bond who ds \<longleftrightarrow> (\<exists>b\<in>set ds. bd_owner b = who)"

definition delegator_rm_delegation ::
    "('l, 'c) staking_config_scheme \<Rightarrow> account \<Rightarrow> delegator \<Rightarrow> ('l, 'z, delegator \<times> nat option) sprog" where
  "delegator_rm_delegation T collator d =
     (case last_bond_of collator (dg_delegations d) of
        Some b \<Rightarrow>
          sbind (map_err (\<lambda>_. Panic) (total_sub T (bd_amount b)
              (d\<lparr>dg_delegations := os_from bond_cmp (without_owner collator (dg_delegations d))\<rparr>))) (\<lambda>d.
          ok (d, Some (dg_total d)))
      | None \<Rightarrow> ok (d, None))"

section \<open>Candidates\<close>

definition schedule_leave ::
    "('l, 'c) staking_config_scheme \<Rightarrow> candidate_metadata \<Rightarrow> ('l, 'z, candidate_metadata \<times> nat \<times> nat) sprog" where
  "schedule_leave T c =
     seq (ensure (\<not> candidate_is_leaving c) (SErr CandidateAlreadyLeaving))
     (sbind (gets (\<lambda>s. rd_current (Round s))) (\<lambda>now.
      let w = wrapping_add_u32 now (LeaveCandidatesDelay T) in
      ok (c\<lparr>ci_status := CollatorLeaving w\<rparr>, now, w)))"

definition can_leave :: "candidate_metadata \<Rightarrow> ('l, 'z, unit) sprog" where
  "can_leave c =
     (case ci_status c of
        CollatorLeaving w \<Rightarrow>
          sbind (gets (\<lambda>s. rd_current (Round s))) (\<lambda>now.
          ensure (now \<ge> w) (SErr CandidateCannotLeaveYet))
      | _ \<Rightarrow> err (SErr CandidateNotLeaving))"

definition bond_more ::
    "('l, 'c) staking_config_scheme \<Rightarrow> account \<Rightarrow> nat \<Rightarrow> candidate_metadata \<Rightarrow>
     ('l, 'z, candidate_metadata) sprog" where
  "bond_more T who additional c =
     sbind (gets (stakable_free_balance T who)) (\<lambda>free.
     seq (ensure (free \<ge> additional) (SErr InsufficientBalance))
     (sbind (gets Total) (\<lambda>t.
      seq (put_total (saturating_add t additional))
      (let c = c\<lparr>ci_bond := saturating_add (ci_bond c) additional\<rparr> in
       seq (st_hold T StakingCollator who additional)
       (let c = c\<lparr>ci_total_counted := saturating_add (ci_total_counted c) additional\<rparr> in
        seq (deposit_staking_event (CandidateBondedMore who additional (ci_bond c)))
        (ok c))))))"

definition schedule_bond_less ::
    "('l, 'c) staking_config_scheme \<Rightarrow> nat \<Rightarrow> candidate_metadata \<Rightarrow> ('l, 'z, candidate_metadata \<times> nat) sprog" where
  "schedule_bond_less T reduction c =
     seq (ensure (ci_request c = None) (SErr PendingCandidateRequestAlreadyExists))
     (seq (ensure (ci_bond c > reduction) (SErr CandidateBondBelowMin))
     (seq (ensure (ci_bond c - reduction \<ge> MinCandidateStk T) (SErr CandidateBondBelowMin))
     (sbind (gets (\<lambda>s. rd_current (Round s))) (\<lambda>now.
      let w = wrapping_add_u32 now (CandidateBondLessDelay T) in
      ok (c\<lparr>ci_request := Some \<lparr>br_amount = reduction, br_when_executable = w\<rparr>\<rparr>, w)))))"

definition execute_bond_less ::
    "('l, 'c) staking_config_scheme \<Rightarrow> account \<Rightarrow> candidate_metadata \<Rightarrow> ('l, 'z, candidate_metadata) sprog" where
  "execute_bond_less T who c =
     sbind (ok_or (ci_request c) (SErr PendingCandidateRequestsDNE)) (\<lambda>request.
     sbind (gets (\<lambda>s. rd_current (Round s))) (\<lambda>now.
     seq (ensure (br_when_executable request \<le> now) (SErr PendingCandidateRequestNotDueYet))
     (sbind (gets Total) (\<lambda>t.
      seq (put_total (saturating_sub t (br_amount request)))
      (let c = c\<lparr>ci_bond := saturating_sub (ci_bond c) (br_amount request)\<rparr> in
       seq (st_release T StakingCollator who (br_amount request))
       (let c = c\<lparr>ci_total_counted := saturating_sub (ci_total_counted c) (br_amount request),
                  ci_request := None\<rparr>
        in
        seq (if candidate_is_active c then update_active who (ci_total_counted c) else ok ())
        (seq (deposit_staking_event (CandidateBondedLess who (br_amount request) (ci_bond c)))
        (ok c))))))))"

definition cancel_bond_less :: "account \<Rightarrow> candidate_metadata \<Rightarrow> ('l, 'z, candidate_metadata) sprog" where
  "cancel_bond_less who c =
     sbind (ok_or (ci_request c) (SErr PendingCandidateRequestsDNE)) (\<lambda>request.
     seq (deposit_staking_event
            (CancelledCandidateBondLess who (br_amount request) (br_when_executable request)))
     (ok (c\<lparr>ci_request := None\<rparr>)))"

definition reset_top_data ::
    "('l, 'c) staking_config_scheme \<Rightarrow> account \<Rightarrow> delegations \<Rightarrow> candidate_metadata \<Rightarrow>
     ('l, 'z, candidate_metadata) sprog" where
  "reset_top_data T candidate top_delegations c =
     (let old_total_counted = ci_total_counted c;
          c = c\<lparr>ci_lowest_top_delegation_amount := lowest_delegation_amount top_delegations,
                ci_top_capacity := top_capacity T top_delegations,
                ci_total_counted := saturating_add (ci_bond c) (dl_total top_delegations)\<rparr>
      in
      seq (if old_total_counted \<noteq> ci_total_counted c \<and> candidate_is_active c
           then update_active candidate (ci_total_counted c) else ok ())
      (ok c))"

definition reset_bottom_data ::
    "('l, 'c) staking_config_scheme \<Rightarrow> delegations \<Rightarrow> candidate_metadata \<Rightarrow> candidate_metadata" where
  "reset_bottom_data T bottom c =
     c\<lparr>ci_lowest_bottom_delegation_amount := lowest_delegation_amount bottom,
       ci_highest_bottom_delegation_amount := highest_delegation_amount bottom,
       ci_bottom_capacity := bottom_capacity T bottom\<rparr>"

section \<open>Adding a delegation\<close>

text \<open>The lowest bottom delegation is dropped, and its delegator's state updated.\<close>

definition kick_lowest_bottom ::
    "('l, 'c) staking_config_scheme \<Rightarrow> account \<Rightarrow> delegations \<Rightarrow> ('l, 'z, delegations) sprog" where
  "kick_lowest_bottom T candidate bottom =
     (if dl_delegations bottom = [] then err Panic else
      let kicked = last (dl_delegations bottom);
          bottom = \<lparr>dl_delegations = butlast (dl_delegations bottom),
                    dl_total = saturating_sub (dl_total bottom) (bd_amount kicked)\<rparr>
      in
      sbind (gets (\<lambda>s. DelegatorState s (bd_owner kicked))) (\<lambda>found.
      sbind (ok_or found Panic) (\<lambda>state.
      let leaving = (length (dg_delegations state) = 1) in
      sbind (delegator_rm_delegation T candidate state) (\<lambda>(state, _).
      sbind (delegation_remove_request_with_state candidate (bd_owner kicked) state) (\<lambda>state.
      seq (remove_auto_compound candidate (bd_owner kicked))
      (seq (deposit_staking_event (DelegationKicked (bd_owner kicked) candidate (bd_amount kicked)))
      (seq (if leaving
            then seq (put_delegator (bd_owner kicked) None)
                   (deposit_staking_event (DelegatorLeft (bd_owner kicked) (bd_amount kicked)))
            else put_delegator (bd_owner kicked) (Some state))
      (ok bottom))))))))"

definition add_bottom_delegation ::
    "('l, 'c) staking_config_scheme \<Rightarrow> bool \<Rightarrow> account \<Rightarrow> bond \<Rightarrow> candidate_metadata \<Rightarrow>
     ('l, 'z, candidate_metadata) sprog" where
  "add_bottom_delegation T bumped_from_top candidate delegation c =
     sbind (bottom_of candidate) (\<lambda>bottom.
     sbind (if as_u32 (length (dl_delegations bottom)) = MaxBottomDelegationsPerCandidate T
            then sbind (kick_lowest_bottom T candidate bottom) (\<lambda>bottom. ok (bottom, False))
            else ok (bottom, \<not> bumped_from_top)) (\<lambda>(bottom, increase_delegation_count).
     let c = (if increase_delegation_count
              then c\<lparr>ci_delegation_count := saturating_add_u32 (ci_delegation_count c) 1\<rparr> else c);
         bottom = insert_sorted_greatest_to_least delegation bottom;
         c = reset_bottom_data T bottom c
     in seq (put_bottom candidate (Some bottom)) (ok c)))"

definition add_top_delegation ::
    "('l, 'c) staking_config_scheme \<Rightarrow> account \<Rightarrow> bond \<Rightarrow> candidate_metadata \<Rightarrow>
     ('l, 'z, candidate_metadata \<times> nat option) sprog" where
  "add_top_delegation T candidate delegation c =
     sbind (top_of candidate) (\<lambda>top_delegations.
     sbind (if as_u32 (length (dl_delegations top_delegations)) = MaxTopDelegationsPerCandidate T
            then
              if dl_delegations top_delegations = [] then err Panic else
              let new_bottom_delegation = last (dl_delegations top_delegations);
                  top_delegations = \<lparr>dl_delegations = butlast (dl_delegations top_delegations),
                         dl_total = saturating_sub (dl_total top_delegations) (bd_amount new_bottom_delegation)\<rparr>;
                  less_total_staked =
                    (if ci_bottom_capacity c = Full then Some (ci_lowest_bottom_delegation_amount c) else None)
              in sbind (add_bottom_delegation T True candidate new_bottom_delegation c) (\<lambda>c.
                 ok (c, top_delegations, less_total_staked))
            else ok (c, top_delegations, None)) (\<lambda>(c, top_delegations, less_total_staked).
     let top_delegations = insert_sorted_greatest_to_least delegation top_delegations in
     sbind (reset_top_data T candidate top_delegations c) (\<lambda>c.
     let c = (if less_total_staked = None
              then c\<lparr>ci_delegation_count := saturating_add_u32 (ci_delegation_count c) 1\<rparr> else c)
     in seq (put_top candidate (Some top_delegations)) (ok (c, less_total_staked)))))"

definition candidate_add_delegation ::
    "('l, 'c) staking_config_scheme \<Rightarrow> account \<Rightarrow> bond \<Rightarrow> candidate_metadata \<Rightarrow>
     ('l, 'z, candidate_metadata \<times> delegator_added \<times> nat option) sprog" where
  "candidate_add_delegation T candidate delegation c =
     (if ci_top_capacity c = Full
      then
        if ci_lowest_top_delegation_amount c < bd_amount delegation
        then sbind (add_top_delegation T candidate delegation c) (\<lambda>(c, less_total_staked).
             ok (c, AddedToTop (ci_total_counted c), less_total_staked))
        else
          sbind (if ci_bottom_capacity c = Full
                 then seq (ensure (bd_amount delegation > ci_lowest_bottom_delegation_amount c)
                             (SErr CannotDelegateLessThanOrEqualToLowestBottomWhenFull))
                        (ok (Some (ci_lowest_bottom_delegation_amount c)))
                 else ok None) (\<lambda>less_total_staked.
          sbind (add_bottom_delegation T False candidate delegation c) (\<lambda>c.
          ok (c, AddedToBottom, less_total_staked)))
      else sbind (add_top_delegation T candidate delegation c) (\<lambda>(c, _).
           ok (c, AddedToTop (ci_total_counted c), None)))"

section \<open>Removing a delegation\<close>

text \<open>A second attempt when the first one failed with a given error.\<close>

definition or_else :: "'e \<Rightarrow> ('s, 'e, 'a) prog \<Rightarrow> ('s, 'e, 'a) prog \<Rightarrow> ('s, 'e, 'a) prog" where
  "or_else e m n s = (case m s of (Inl e', t) \<Rightarrow> if e' = e then n t else (Inl e', t) | r \<Rightarrow> r)"

definition rm_top_delegation ::
    "('l, 'c) staking_config_scheme \<Rightarrow> account \<Rightarrow> account \<Rightarrow> candidate_metadata \<Rightarrow>
     ('l, 'z, candidate_metadata \<times> bool) sprog" where
  "rm_top_delegation T candidate who c =
     (let old_total_counted = ci_total_counted c in
      sbind (top_of candidate) (\<lambda>top_delegations.
      sbind (ok_or (last_bond_of who (dl_delegations top_delegations)) (SErr DelegationDNE)) (\<lambda>removed.
      let top_delegations =
            \<lparr>dl_delegations = without_owner who (dl_delegations top_delegations),
             dl_total = saturating_sub (dl_total top_delegations) (bd_amount removed)\<rparr>
      in
      sbind (if ci_bottom_capacity c \<noteq> Empty
             then
               sbind (bottom_of candidate) (\<lambda>bottom.
               case dl_delegations bottom of
                 [] \<Rightarrow> err Panic
               | highest_bottom_delegation # rest \<Rightarrow>
                   let bottom = \<lparr>dl_delegations = rest,
                         dl_total = saturating_sub (dl_total bottom) (bd_amount highest_bottom_delegation)\<rparr>;
                       c = reset_bottom_data T bottom c
                   in seq (put_bottom candidate (Some bottom))
                      (ok (c, insert_sorted_greatest_to_least highest_bottom_delegation top_delegations)))
             else ok (c, top_delegations)) (\<lambda>(c, top_delegations).
      sbind (reset_top_data T candidate top_delegations c) (\<lambda>c.
      let c = c\<lparr>ci_delegation_count := saturating_sub (ci_delegation_count c) 1\<rparr> in
      seq (put_top candidate (Some top_delegations))
      (ok (c, old_total_counted = ci_total_counted c)))))))"

definition rm_bottom_delegation ::
    "('l, 'c) staking_config_scheme \<Rightarrow> account \<Rightarrow> account \<Rightarrow> candidate_metadata \<Rightarrow>
     ('l, 'z, candidate_metadata \<times> bool) sprog" where
  "rm_bottom_delegation T candidate who c =
     sbind (bottom_of candidate) (\<lambda>bottom.
     sbind (ok_or (last_bond_of who (dl_delegations bottom)) (SErr DelegationDNE)) (\<lambda>removed.
     let bottom = \<lparr>dl_delegations = without_owner who (dl_delegations bottom),
                   dl_total = saturating_sub (dl_total bottom) (bd_amount removed)\<rparr>;
         c = reset_bottom_data T bottom c;
         c = c\<lparr>ci_delegation_count := saturating_sub (ci_delegation_count c) 1\<rparr>
     in seq (put_bottom candidate (Some bottom)) (ok (c, False))))"

definition rm_delegation_if_exists ::
    "('l, 'c) staking_config_scheme \<Rightarrow> account \<Rightarrow> account \<Rightarrow> nat \<Rightarrow> candidate_metadata \<Rightarrow>
     ('l, 'z, candidate_metadata \<times> bool) sprog" where
  "rm_delegation_if_exists T candidate who amount c =
     (let amount_geq_lowest_top = (amount \<ge> ci_lowest_top_delegation_amount c);
          top_is_not_full = (ci_top_capacity c \<noteq> Full);
          lowest_top_eq_highest_bottom =
            (ci_lowest_top_delegation_amount c = ci_highest_bottom_delegation_amount c)
      in
      if top_is_not_full \<or> amount_geq_lowest_top \<and> \<not> lowest_top_eq_highest_bottom
      then rm_top_delegation T candidate who c
      else if amount_geq_lowest_top \<and> lowest_top_eq_highest_bottom
      then or_else (SErr DelegationDNE) (rm_top_delegation T candidate who c)
             (rm_bottom_delegation T candidate who c)
      else rm_bottom_delegation T candidate who c)"

section \<open>Changing a delegation\<close>

definition increase_top_delegation ::
    "('l, 'c) staking_config_scheme \<Rightarrow> account \<Rightarrow> account \<Rightarrow> nat \<Rightarrow> candidate_metadata \<Rightarrow>
     ('l, 'z, candidate_metadata \<times> bool) sprog" where
  "increase_top_delegation T candidate who additional c =
     sbind (top_of candidate) (\<lambda>top_delegations.
     seq (ensure (has_bond who (dl_delegations top_delegations)) (SErr DelegationDNE))
     (let top_delegations = sort_greatest_to_least
            \<lparr>dl_delegations =
               change_bond who (\<lambda>n. saturating_add n additional) (dl_delegations top_delegations),
             dl_total = saturating_add (dl_total top_delegations) additional\<rparr>
      in
      sbind (reset_top_data T candidate top_delegations c) (\<lambda>c.
      seq (put_top candidate (Some top_delegations))
      (ok (c, True)))))"

definition increase_bottom_delegation ::
    "('l, 'c) staking_config_scheme \<Rightarrow> account \<Rightarrow> account \<Rightarrow> nat \<Rightarrow> nat \<Rightarrow> candidate_metadata \<Rightarrow>
     ('l, 'z, candidate_metadata \<times> bool) sprog" where
  "increase_bottom_delegation T candidate who bonded additional c =
     sbind (gets (\<lambda>s. BottomDelegations s candidate)) (\<lambda>found.
     sbind (ok_or found (SErr CandidateDNE)) (\<lambda>bottom.
     sbind (if saturating_add bonded additional > ci_lowest_top_delegation_amount c
            then
              sbind (ok_or (last_bond_of who (dl_delegations bottom)) (SErr DelegationDNE)) (\<lambda>b.
              let delegation = b\<lparr>bd_amount := saturating_add (bd_amount b) additional\<rparr>;
                  bottom = \<lparr>dl_delegations = without_owner who (dl_delegations bottom),
                            dl_total = saturating_sub (dl_total bottom) bonded\<rparr>
              in
              sbind (top_of candidate) (\<lambda>top_delegations.
              sbind (if top_capacity T top_delegations = Full
                     then
                       if dl_delegations top_delegations = [] then err Panic else
                       let new_bottom_delegation = last (dl_delegations top_delegations)
                       in ok (\<lparr>dl_delegations = butlast (dl_delegations top_delegations),
                               dl_total = saturating_sub (dl_total top_delegations)
                                 (bd_amount new_bottom_delegation)\<rparr>,
                              insert_sorted_greatest_to_least new_bottom_delegation bottom)
                     else ok (top_delegations, bottom)) (\<lambda>(top_delegations, bottom).
              let top_delegations = insert_sorted_greatest_to_least delegation top_delegations in
              sbind (reset_top_data T candidate top_delegations c) (\<lambda>c.
              seq (put_top candidate (Some top_delegations))
              (ok (c, bottom, True))))))
            else
              seq (ensure (has_bond who (dl_delegations bottom)) (SErr DelegationDNE))
              (ok (c, sort_greatest_to_least
                 \<lparr>dl_delegations =
                    change_bond who (\<lambda>n. saturating_add n additional) (dl_delegations bottom),
                  dl_total = saturating_add (dl_total bottom) additional\<rparr>, False)))
       (\<lambda>(c, bottom, in_top_after).
     let c = reset_bottom_data T bottom c in
     seq (put_bottom candidate (Some bottom))
     (ok (c, in_top_after)))))"

definition candidate_increase_delegation ::
    "('l, 'c) staking_config_scheme \<Rightarrow> account \<Rightarrow> account \<Rightarrow> nat \<Rightarrow> nat \<Rightarrow> candidate_metadata \<Rightarrow>
     ('l, 'z, candidate_metadata \<times> bool) sprog" where
  "candidate_increase_delegation T candidate who bonded additional c =
     (let lowest_top_eq_highest_bottom =
            (ci_lowest_top_delegation_amount c = ci_highest_bottom_delegation_amount c);
          bond_geq_lowest_top = (bonded \<ge> ci_lowest_top_delegation_amount c)
      in
      if bond_geq_lowest_top \<and> \<not> lowest_top_eq_highest_bottom
      then increase_top_delegation T candidate who additional c
      else if bond_geq_lowest_top \<and> lowest_top_eq_highest_bottom
      then or_else (SErr DelegationDNE) (increase_top_delegation T candidate who additional c)
             (increase_bottom_delegation T candidate who bonded additional c)
      else increase_bottom_delegation T candidate who bonded additional c)"

definition decrease_top_delegation ::
    "('l, 'c) staking_config_scheme \<Rightarrow> account \<Rightarrow> account \<Rightarrow> nat \<Rightarrow> nat \<Rightarrow> candidate_metadata \<Rightarrow>
     ('l, 'z, candidate_metadata \<times> bool) sprog" where
  "decrease_top_delegation T candidate who bonded reduction c =
     (let bond_after_less_than_highest_bottom =
            (saturating_sub bonded reduction < ci_highest_bottom_delegation_amount c);
          full_top_and_nonempty_bottom = (ci_top_capacity c = Full \<and> ci_bottom_capacity c \<noteq> Empty)
      in
      sbind (gets (\<lambda>s. TopDelegations s candidate)) (\<lambda>found.
      sbind (ok_or found (SErr CandidateDNE)) (\<lambda>top_delegations.
      sbind (if bond_after_less_than_highest_bottom \<and> full_top_and_nonempty_bottom
             then
               sbind (ok_or (last_bond_of who (dl_delegations top_delegations)) (SErr DelegationDNE)) (\<lambda>b.
               let delegation = b\<lparr>bd_amount := saturating_sub (bd_amount b) reduction\<rparr>;
                   top_delegations =
                     \<lparr>dl_delegations = without_owner who (dl_delegations top_delegations),
                      dl_total = foldl (\<lambda>t b. saturating_sub t (bd_amount b)) (dl_total top_delegations)
                        (filter (\<lambda>b. bd_owner b = who) (dl_delegations top_delegations))\<rparr>
               in
               sbind (bottom_of candidate) (\<lambda>bottom.
               case dl_delegations bottom of
                 [] \<Rightarrow> err Panic
               | highest_bottom_delegation # rest \<Rightarrow>
                   let bottom = \<lparr>dl_delegations = rest,
                         dl_total = saturating_sub (dl_total bottom) (bd_amount highest_bottom_delegation)\<rparr>;
                       top_delegations =
                         insert_sorted_greatest_to_least highest_bottom_delegation top_delegations;
                       bottom = insert_sorted_greatest_to_least delegation bottom;
                       c = reset_bottom_data T bottom c
                   in seq (put_bottom candidate (Some bottom))
                      (ok (c, top_delegations, False))))
             else
               seq (ensure (has_bond who (dl_delegations top_delegations)) (SErr DelegationDNE))
               (ok (c, sort_greatest_to_least
                  \<lparr>dl_delegations =
                     change_bond who (\<lambda>n. saturating_sub n reduction) (dl_delegations top_delegations),
                   dl_total = saturating_sub (dl_total top_delegations) reduction\<rparr>, True)))
        (\<lambda>(c, top_delegations, in_top_after).
      sbind (reset_top_data T candidate top_delegations c) (\<lambda>c.
      seq (put_top candidate (Some top_delegations))
      (ok (c, in_top_after)))))))"

definition decrease_bottom_delegation ::
    "('l, 'c) staking_config_scheme \<Rightarrow> account \<Rightarrow> account \<Rightarrow> nat \<Rightarrow> candidate_metadata \<Rightarrow>
     ('l, 'z, candidate_metadata \<times> bool) sprog" where
  "decrease_bottom_delegation T candidate who reduction c =
     sbind (bottom_of candidate) (\<lambda>bottom.
     seq (ensure (has_bond who (dl_delegations bottom)) (SErr DelegationDNE))
     (let bottom = sort_greatest_to_least
            (bottom\<lparr>dl_delegations :=
               change_bond who (\<lambda>n. saturating_sub n reduction) (dl_delegations bottom)\<rparr>);
          c = reset_bottom_data T bottom c
      in seq (put_bottom candidate (Some bottom))
         (ok (c, False))))"

definition candidate_decrease_delegation ::
    "('l, 'c) staking_config_scheme \<Rightarrow> account \<Rightarrow> account \<Rightarrow> nat \<Rightarrow> nat \<Rightarrow> candidate_metadata \<Rightarrow>
     ('l, 'z, candidate_metadata \<times> bool) sprog" where
  "candidate_decrease_delegation T candidate who bonded reduction c =
     (let lowest_top_eq_highest_bottom =
            (ci_lowest_top_delegation_amount c = ci_highest_bottom_delegation_amount c);
          bond_geq_lowest_top = (bonded \<ge> ci_lowest_top_delegation_amount c)
      in
      if bond_geq_lowest_top \<and> \<not> lowest_top_eq_highest_bottom
      then decrease_top_delegation T candidate who bonded reduction c
      else if bond_geq_lowest_top \<and> lowest_top_eq_highest_bottom
      then or_else (SErr DelegationDNE) (decrease_top_delegation T candidate who bonded reduction c)
             (decrease_bottom_delegation T candidate who reduction c)
      else decrease_bottom_delegation T candidate who reduction c)"

section \<open>A delegator's increase\<close>

fun change_first_bond :: "account \<Rightarrow> (nat \<Rightarrow> nat) \<Rightarrow> bond list \<Rightarrow> bond list" where
  "change_first_bond who f [] = []"
| "change_first_bond who f (b # bs) =
     (if bd_owner b = who then b\<lparr>bd_amount := f (bd_amount b)\<rparr> # bs else b # change_first_bond who f bs)"

definition delegator_increase_delegation ::
    "('l, 'c) staking_config_scheme \<Rightarrow> account \<Rightarrow> nat \<Rightarrow> delegator \<Rightarrow> ('l, 'z, bool) sprog" where
  "delegator_increase_delegation T candidate amount d =
     (case get_bond_amount candidate d of
        None \<Rightarrow> err (SErr DelegationDNE)
      | Some before_amount \<Rightarrow>
          let d = d\<lparr>dg_delegations :=
                      change_first_bond candidate (\<lambda>n. saturating_add n amount) (dg_delegations d),
                    dg_total := saturating_add (dg_total d) amount\<rparr>
          in
          seq (adjust_bond_lock T (Increase amount) d)
          (sbind (candidate_of candidate) (\<lambda>collator_state.
           let before = ci_total_counted collator_state in
           sbind (candidate_increase_delegation T candidate (dg_id d) before_amount amount collator_state)
             (\<lambda>(collator_state, in_top).
           let after = ci_total_counted collator_state in
           seq (if candidate_is_active collator_state \<and> before \<noteq> after
                then update_active candidate after else ok ())
           (seq (put_candidate candidate collator_state)
           (sbind (gets Total) (\<lambda>t.
            seq (put_total (saturating_add t amount))
            (seq (put_delegator (dg_id d) (Some d))
            (ok in_top)))))))))"

end
