(* ===== verification/Staking_Requests.thy ===== *)
theory Staking_Requests
  imports Staking_Candidate
begin

text \<open>
  The scheduled requests of the delegators (\<^verbatim>\<open>delegation_requests.rs\<close>), and delegating with
  auto-compounding (\<^verbatim>\<open>auto_compound.rs\<close>) of the pallet \<^verbatim>\<open>parachain-staking\<close>.
\<close>

section \<open>Scheduling and cancelling\<close>

definition delegation_schedule_revoke ::
    "('l, 'c) staking_config_scheme \<Rightarrow> account \<Rightarrow> account \<Rightarrow> ('l, 'z, unit) sprog" where
  "delegation_schedule_revoke T collator who =
     sbind (delegator_of who) (\<lambda>state.
     sbind (gets (\<lambda>s. DelegationScheduledRequests s collator)) (\<lambda>scheduled_requests.
     seq (ensure (\<not> (\<exists>req\<in>set scheduled_requests. sr_delegator req = who))
            (SErr PendingDelegationRequestAlreadyExists))
     (sbind (ok_or (get_bond_amount collator state) (SErr DelegationDNE)) (\<lambda>bonded_amount.
      sbind (gets (\<lambda>s. rd_current (Round s))) (\<lambda>now.
      let w = saturating_add_u32 now (RevokeDelegationDelay T) in
      seq (put_requests collator (scheduled_requests @
             [\<lparr>sr_delegator = who, sr_when_executable = w, sr_action = Revoke bonded_amount\<rparr>]))
      (seq (put_delegator who (Some
             (state\<lparr>dg_less_total := saturating_add (dg_less_total state) bonded_amount\<rparr>)))
      (deposit_staking_event (DelegationRevocationScheduled now who collator w))))))))"

definition delegation_schedule_bond_decrease ::
    "('l, 'c) staking_config_scheme \<Rightarrow> account \<Rightarrow> account \<Rightarrow> nat \<Rightarrow> ('l, 'z, unit) sprog" where
  "delegation_schedule_bond_decrease T collator who decrease_amount =
     sbind (delegator_of who) (\<lambda>state.
     sbind (gets (\<lambda>s. DelegationScheduledRequests s collator)) (\<lambda>scheduled_requests.
     seq (ensure (\<not> (\<exists>req\<in>set scheduled_requests. sr_delegator req = who))
            (SErr PendingDelegationRequestAlreadyExists))
     (sbind (ok_or (get_bond_amount collator state) (SErr DelegationDNE)) (\<lambda>bonded_amount.
      seq (ensure (bonded_amount > decrease_amount) (SErr DelegatorBondBelowMin))
      (let new_amount = bonded_amount - decrease_amount in
       seq (ensure (new_amount \<ge> MinDelegation T) (SErr DelegationBelowMin))
       (let net_total = saturating_sub (dg_total state) (dg_less_total state);
            max_subtracted_amount = saturating_sub net_total (MinDelegatorStk T)
        in
        seq (ensure (decrease_amount \<le> max_subtracted_amount) (SErr DelegatorBondBelowMin))
        (sbind (gets (\<lambda>s. rd_current (Round s))) (\<lambda>now.
         let w = saturating_add_u32 now (RevokeDelegationDelay T) in
         seq (put_requests collator (scheduled_requests @
                [\<lparr>sr_delegator = who, sr_when_executable = w, sr_action = Decrease decrease_amount\<rparr>]))
         (seq (put_delegator who (Some
                (state\<lparr>dg_less_total := saturating_add (dg_less_total state) decrease_amount\<rparr>)))
         (deposit_staking_event (DelegationDecreaseScheduled who collator decrease_amount w)))))))))))"

definition delegation_cancel_request :: "account \<Rightarrow> account \<Rightarrow> ('l, 'z, unit) sprog" where
  "delegation_cancel_request collator who =
     sbind (delegator_of who) (\<lambda>state.
     sbind (gets (\<lambda>s. DelegationScheduledRequests s collator)) (\<lambda>scheduled_requests.
     case cancel_request_with_state who state scheduled_requests of
       (state', scheduled_requests', found) \<Rightarrow>
         sbind (ok_or found (SErr PendingDelegationRequestDNE)) (\<lambda>request.
         seq (put_requests collator scheduled_requests')
         (seq (put_delegator who (Some state'))
         (deposit_staking_event (CancelledDelegationRequest who (sr_when_executable request)
            (sr_action request) collator))))))"

section \<open>Executing a request\<close>

definition delegator_leaves_candidate ::
    "('l, 'c) staking_config_scheme \<Rightarrow> account \<Rightarrow> account \<Rightarrow> nat \<Rightarrow> ('l, 'z, unit) sprog" where
  "delegator_leaves_candidate T candidate who amount =
     sbind (candidate_of candidate) (\<lambda>state.
     sbind (rm_delegation_if_exists T candidate who amount state) (\<lambda>(state, _).
     sbind (gets Total) (\<lambda>t.
     seq (put_total (saturating_sub t amount))
     (seq (put_candidate candidate state)
     (deposit_staking_event (DelegatorLeftCandidate who candidate amount (ci_total_counted state)))))))"

definition delegation_execute_scheduled_request ::
    "('l, 'c) staking_config_scheme \<Rightarrow> account \<Rightarrow> account \<Rightarrow> ('l, 'z, unit) sprog" where
  "delegation_execute_scheduled_request T collator who =
     sbind (delegator_of who) (\<lambda>state.
     sbind (gets (\<lambda>s. DelegationScheduledRequests s collator)) (\<lambda>scheduled_requests.
     sbind (ok_or (position (\<lambda>req. sr_delegator req = who) scheduled_requests)
            (SErr PendingDelegationRequestDNE)) (\<lambda>request_idx.
     let request = scheduled_requests ! request_idx in
     sbind (gets (\<lambda>s. rd_current (Round s))) (\<lambda>now.
     seq (ensure (sr_when_executable request \<le> now) (SErr PendingDelegationRequestNotDueYet))
     (case sr_action request of
        Revoke amount \<Rightarrow>
          let leaving = (length (dg_delegations state) = 1) in
          seq (ensure (leaving \<or> saturating_sub (dg_total state) (MinDelegatorStk T) \<ge> amount)
                 (SErr DelegatorBondBelowMin))
          (let scheduled_requests = remove_at request_idx scheduled_requests;
               state = state\<lparr>dg_less_total := saturating_sub (dg_less_total state) amount\<rparr>
           in
           sbind (delegator_rm_delegation T collator state) (\<lambda>(state, _).
           seq (remove_auto_compound collator who)
           (seq (delegator_leaves_candidate T collator who amount)
           (seq (deposit_staking_event (DelegationRevoked who collator amount))
           (seq (put_requests collator scheduled_requests)
           (if leaving
            then seq (put_delegator who None) (deposit_staking_event (DelegatorLeft who amount))
            else put_delegator who (Some state)))))))
      | Decrease amount \<Rightarrow>
          let scheduled_requests = remove_at request_idx scheduled_requests;
              state = state\<lparr>dg_less_total := saturating_sub (dg_less_total state) amount\<rparr>
          in
          (case get_bond_amount collator state of
             None \<Rightarrow> err (SErr DelegationDNE)
           | Some amount_before \<Rightarrow>
               if amount_before > amount
               then
                 let state = state\<lparr>dg_delegations :=
                       change_first_bond collator (\<lambda>n. saturating_sub n amount) (dg_delegations state)\<rparr>
                 in
                 sbind (candidate_of collator) (\<lambda>collator_info.
                 sbind (total_sub_if T amount (\<lambda>new_total.
                     seq (ensure (new_total \<ge> MinDelegation T) (SErr DelegationBelowMin))
                     (ensure (new_total \<ge> MinDelegatorStk T) (SErr DelegatorBondBelowMin))) state) (\<lambda>state.
                 sbind (candidate_decrease_delegation T collator who amount_before amount collator_info)
                   (\<lambda>(collator_info, in_top).
                 seq (put_candidate collator collator_info)
                 (sbind (gets Total) (\<lambda>t.
                  seq (put_total (saturating_sub t amount))
                  (seq (put_requests collator scheduled_requests)
                  (seq (put_delegator who (Some state))
                  (deposit_staking_event (DelegationDecreased who collator amount in_top)))))))))
               else err (SErr DelegationBelowMin)))))))"

section \<open>Leaving all candidates\<close>

definition put_all_requests :: "(account \<times> scheduled_request list) list \<Rightarrow> ('l, 'z, unit) sprog" where
  "put_all_requests updates = for_each updates (\<lambda>(collator, requests). put_requests collator requests)"

fun revoke_all_loop ::
    "account \<Rightarrow> nat \<Rightarrow> (account \<Rightarrow> scheduled_request list) \<Rightarrow> bond list \<Rightarrow> delegator \<Rightarrow>
     delegator \<times> (account \<times> scheduled_request list) list \<times> nat" where
  "revoke_all_loop who w requests [] state = (state, [], 0)"
| "revoke_all_loop who w requests (b # bs) state =
     (case cancel_request_with_state who state (requests (bd_owner b)) of
        (state, scheduled_requests, found) \<Rightarrow>
          let existing = (case found of Some req \<Rightarrow> is_revoke (sr_action req) | None \<Rightarrow> False);
              request = (if existing then the found
                else \<lparr>sr_delegator = who, sr_when_executable = w, sr_action = Revoke (bd_amount b)\<rparr>);
              scheduled_requests = scheduled_requests @ [request];
              state = state\<lparr>dg_less_total := saturating_add (dg_less_total state) (bd_amount b)\<rparr>
          in case revoke_all_loop who w requests bs state of
               (state, updates, revoke_count) \<Rightarrow>
                 (state, (bd_owner b, scheduled_requests) # updates, (if existing then Suc revoke_count else revoke_count)))"

definition delegator_schedule_revoke_all ::
    "('l, 'c) staking_config_scheme \<Rightarrow> account \<Rightarrow> ('l, 'z, unit) sprog" where
  "delegator_schedule_revoke_all T who =
     sbind (delegator_of who) (\<lambda>state.
     sbind (gets (\<lambda>s. rd_current (Round s))) (\<lambda>now.
     let w = saturating_add_u32 now (LeaveDelegatorsDelay T);
         migrate = (dg_status state \<noteq> DelegatorActive);
         state = state\<lparr>dg_status := DelegatorActive\<rparr>
     in
     seq (if migrate then put_delegator who (Some state) else ok ())
     (sbind (gets DelegationScheduledRequests) (\<lambda>requests.
      case revoke_all_loop who w requests (dg_delegations state) state of
        (state', updates, existing_revoke_count) \<Rightarrow>
          seq (ensure (existing_revoke_count \<noteq> length (dg_delegations state)) (SErr DelegatorAlreadyLeaving))
          (seq (put_all_requests updates)
          (seq (put_delegator who (Some state'))
          (deposit_staking_event (DelegatorExitScheduled now who w))))))))"

fun cancel_all_loop ::
    "account \<Rightarrow> (account \<Rightarrow> scheduled_request list) \<Rightarrow> bond list \<Rightarrow> delegator \<Rightarrow>
     delegator \<times> (account \<times> scheduled_request list) list" where
  "cancel_all_loop who requests [] state = (state, [])"
| "cancel_all_loop who requests (b # bs) state =
     (case cancel_request_with_state who state (requests (bd_owner b)) of
        (state, scheduled_requests, _) \<Rightarrow>
          (case cancel_all_loop who requests bs state of
             (state, updates) \<Rightarrow> (state, (bd_owner b, scheduled_requests) # updates)))"

definition delegator_cancel_scheduled_revoke_all :: "account \<Rightarrow> ('l, 'z, unit) sprog" where
  "delegator_cancel_scheduled_revoke_all who =
     sbind (delegator_of who) (\<lambda>state.
     if dg_status state \<noteq> DelegatorActive
     then seq (put_delegator who (Some (state\<lparr>dg_status := DelegatorActive\<rparr>)))
            (deposit_staking_event (DelegatorExitCancelled who))
     else
       sbind (gets DelegationScheduledRequests) (\<lambda>requests.
       seq (ensure (\<forall>b\<in>set (dg_delegations state). \<exists>req\<in>set (requests (bd_owner b)).
              sr_delegator req = who \<and> is_revoke (sr_action req)) (SErr DelegatorNotLeaving))
       (case cancel_all_loop who requests (dg_delegations state) state of
          (state, updates) \<Rightarrow>
            seq (put_all_requests updates)
            (seq (put_delegator who (Some state))
            (deposit_staking_event (DelegatorExitCancelled who))))))"

text \<open>The bonds with their candidate's requests and the index of the revocation, in order.\<close>

fun validate_revocations ::
    "account \<Rightarrow> nat \<Rightarrow> (account \<Rightarrow> scheduled_request list) \<Rightarrow> bond list \<Rightarrow>
     dispatch_error + (bond \<times> scheduled_request list \<times> nat) list" where
  "validate_revocations who now requests [] = Inr []"
| "validate_revocations who now requests (b # bs) =
     (case position (\<lambda>req. sr_delegator req = who \<and> is_revoke (sr_action req)) (requests (bd_owner b)) of
        None \<Rightarrow> Inl (SErr DelegatorNotLeaving)
      | Some request_idx \<Rightarrow>
          if sr_when_executable (requests (bd_owner b) ! request_idx) \<le> now
          then (case validate_revocations who now requests bs of
                  Inl e \<Rightarrow> Inl e
                | Inr rest \<Rightarrow> Inr ((b, requests (bd_owner b), request_idx) # rest))
          else Inl (SErr DelegatorCannotLeaveYet))"

fun leave_loop ::
    "('l, 'c) staking_config_scheme \<Rightarrow> account \<Rightarrow> bond list \<Rightarrow> delegator \<Rightarrow> ('l, 'z, delegator) sprog" where
  "leave_loop T who [] state = ok state"
| "leave_loop T who (b # bs) state =
     seq (log_error (delegator_leaves_candidate T (bd_owner b) who (bd_amount b)))
     (sbind (delegation_remove_request_with_state (bd_owner b) who state) (\<lambda>state.
      seq (remove_auto_compound (bd_owner b) who)
      (leave_loop T who bs state)))"

definition delegator_execute_scheduled_revoke_all ::
    "('l, 'c) staking_config_scheme \<Rightarrow> account \<Rightarrow> nat \<Rightarrow> ('l, 'z, unit) sprog" where
  "delegator_execute_scheduled_revoke_all T who delegation_count =
     sbind (delegator_of who) (\<lambda>state.
     seq (ensure (delegation_count \<ge> as_u32 (length (dg_delegations state)))
            (SErr TooLowDelegationCountToLeaveDelegators))
     (sbind (gets (\<lambda>s. rd_current (Round s))) (\<lambda>now.
      (case dg_status state of
         DelegatorLeaving w \<Rightarrow>
           seq (ensure (now \<ge> w) (SErr DelegatorCannotLeaveYet))
           (sbind (leave_loop T who (dg_delegations state) state) (\<lambda>state.
            seq (put_delegator who None)
            (deposit_staking_event (DelegatorLeft who (dg_total state)))))
       | DelegatorActive \<Rightarrow>
           sbind (gets DelegationScheduledRequests) (\<lambda>requests.
           sbind (of_result (validate_revocations who now requests (dg_delegations state))) (\<lambda>validated.
           seq (for_each validated (\<lambda>(b, scheduled_requests, request_idx).
                  seq (log_error (delegator_leaves_candidate T (bd_owner b) who (bd_amount b)))
                  (remove_auto_compound (bd_owner b) who)))
           (let unstaked_amount = dg_total state in
            sbind (total_sub T unstaked_amount state) (\<lambda>_.
            seq (put_all_requests (map (\<lambda>(b, scheduled_requests, request_idx).
                   (bd_owner b, remove_at request_idx scheduled_requests)) validated))
            (seq (deposit_staking_event (DelegatorLeft who unstaked_amount))
            (put_delegator who None))))))))))"

section \<open>Delegating\<close>

definition delegate_with_auto_compound ::
    "('l, 'c) staking_config_scheme \<Rightarrow> account \<Rightarrow> account \<Rightarrow> nat \<Rightarrow> nat \<Rightarrow> nat \<Rightarrow> nat \<Rightarrow> nat \<Rightarrow>
     ('l, 'z, unit) sprog" where
  "delegate_with_auto_compound T candidate who amount percent candidate_delegation_count_hint
       candidate_auto_compounding_delegation_count_hint delegation_count_hint =
     sbind (gets (stakable_free_balance T who)) (\<lambda>free.
     seq (ensure (free \<ge> amount) (SErr InsufficientBalance))
     (sbind (gets (\<lambda>s. DelegatorState s who)) (\<lambda>found.
      sbind (case found of
               Some state \<Rightarrow>
                 seq (ensure (amount \<ge> MinDelegation T) (SErr DelegationBelowMin))
                 (seq (ensure (delegation_count_hint \<ge> as_u32 (length (dg_delegations state)))
                        (SErr TooLowDelegationCountToDelegate))
                 (seq (ensure (as_u32 (length (dg_delegations state)) < MaxDelegationsPerDelegator T)
                        (SErr ExceedMaxDelegationsPerDelegator))
                 (case delegator_add_delegation \<lparr>bd_owner = candidate, bd_amount = amount\<rparr> state of
                    (state, added) \<Rightarrow>
                      seq (ensure added (SErr AlreadyDelegatedCandidate)) (ok state))))
             | None \<Rightarrow>
                 seq (ensure (amount \<ge> MinDelegatorStk T) (SErr DelegatorBondBelowMin))
                 (sbind (gets (\<lambda>s. is_candidate s who)) (\<lambda>candidate_too.
                  seq (ensure (\<not> candidate_too) (SErr CandidateExists))
                  (ok (new_delegator who candidate amount))))) (\<lambda>delegator_state.
      sbind (candidate_of candidate) (\<lambda>candidate_state.
      seq (ensure (candidate_delegation_count_hint \<ge> ci_delegation_count candidate_state)
             (SErr TooLowCandidateDelegationCountToDelegate))
      (sbind (if percent \<noteq> 0
              then
                sbind (gets (\<lambda>s. AutoCompoundingDelegations s candidate)) (\<lambda>cs.
                seq (ensure (as_u32 (length cs) \<le> candidate_auto_compounding_delegation_count_hint)
                       (SErr TooLowCandidateAutoCompoundingDelegationCountToDelegate))
                (ok (Some cs)))
              else ok None) (\<lambda>auto_compounding_state.
       sbind (candidate_add_delegation T candidate \<lparr>bd_owner = who, bd_amount = amount\<rparr> candidate_state)
         (\<lambda>(candidate_state, delegator_position, less_total_staked).
       seq (adjust_bond_lock T (Increase amount) delegator_state)
       (sbind (gets Total) (\<lambda>t.
        let net_total_increase =
              (case less_total_staked of Some l \<Rightarrow> saturating_sub amount l | None \<Rightarrow> amount);
            new_total_locked = saturating_add t net_total_increase
        in
        seq (case auto_compounding_state of
               Some cs \<Rightarrow>
                 sbind (of_result (set_for_delegator T who percent cs)) (\<lambda>(cs, _).
                 put_auto_compound candidate cs)
             | None \<Rightarrow> ok ())
        (seq (put_total new_total_locked)
        (seq (put_candidate candidate candidate_state)
        (seq (put_delegator who (Some delegator_state))
        (deposit_staking_event
           (DelegationEvent who amount candidate delegator_position percent)))))))))))))))"

definition set_auto_compound ::
    "('l, 'c) staking_config_scheme \<Rightarrow> account \<Rightarrow> account \<Rightarrow> nat \<Rightarrow> nat \<Rightarrow> nat \<Rightarrow> ('l, 'z, unit) sprog" where
  "set_auto_compound T candidate who value candidate_auto_compounding_delegation_count_hint
       delegation_count_hint =
     sbind (delegator_of who) (\<lambda>delegator_state.
     seq (ensure (length (dg_delegations delegator_state) \<le> delegation_count_hint)
            (SErr TooLowDelegationCountToAutoCompound))
     (seq (ensure (has_bond candidate (dg_delegations delegator_state)) (SErr DelegationDNE))
     (sbind (gets (\<lambda>s. AutoCompoundingDelegations s candidate)) (\<lambda>cs.
      seq (ensure (as_u32 (length cs) \<le> candidate_auto_compounding_delegation_count_hint)
             (SErr TooLowCandidateAutoCompoundingDelegationCountToAutoCompound))
      (sbind (if value = 0 then ok (remove_for_delegator who cs)
              else of_result (set_for_delegator T who value cs)) (\<lambda>(cs, state_updated).
       seq (if state_updated then put_auto_compound candidate cs else ok ())
       (deposit_staking_event (AutoCompoundSet candidate who value))))))))"

end
