(* ===== verification/Staking_Rounds.thy ===== *)
theory Staking_Rounds
  imports Staking_Requests
begin

text \<open>
  Rounds of the pallet \<^verbatim>\<open>parachain-staking\<close> (\<^verbatim>\<open>lib.rs\<close>): the selection of the collators at the start of a
  round, the points of the block authors, the payout of one collator and its delegators in each of
  the following blocks, and the interface to the session pallet. Weights are left out.
\<close>

section \<open>Paying rewards\<close>

definition compute_issuance ::
    "('l, 'c) staking_config_scheme \<Rightarrow> nat \<Rightarrow> ('l, 'z) staking_state_scheme \<Rightarrow> nat" where
  "compute_issuance T staked s =
     (let config = InflationConfig s;
          round_issuance = round_issuance_range T (in_round config) (ext s)
      in if staked < rg_min (in_expect config) then rg_min round_issuance
         else if staked > rg_max (in_expect config) then rg_max round_issuance
         else rg_ideal round_issuance)"

definition prepare_staking_payouts ::
    "('l, 'c) staking_config_scheme \<Rightarrow> nat \<Rightarrow> ('l, 'z, unit) sprog" where
  "prepare_staking_payouts T now =
     (let delay = RewardPaymentDelay T in
      if now \<le> delay then ok () else
      let round_to_payout = saturating_sub now delay in
      sbind (gets (\<lambda>s. Points s round_to_payout)) (\<lambda>total_points.
      if total_points = 0 then ok () else
      sbind (gets (\<lambda>s. Staked s round_to_payout)) (\<lambda>total_staked.
      seq (modify (\<lambda>s. s\<lparr>Staked := (Staked s)(round_to_payout := 0)\<rparr>))
      (sbind (gets (compute_issuance T total_staked)) (\<lambda>total_issuance.
       sbind (gets CollatorCommission) (\<lambda>commission.
       modify (\<lambda>s. s\<lparr>DelayedPayouts := (DelayedPayouts s)(round_to_payout \<mapsto>
         \<lparr>dy_round_issuance = total_issuance, dy_total_staking_reward = total_issuance,
          dy_collator_commission = commission\<rparr>)\<rparr>)))))))"

definition delegation_bond_more_without_event ::
    "('l, 'c) staking_config_scheme \<Rightarrow> account \<Rightarrow> account \<Rightarrow> nat \<Rightarrow> ('l, 'z, bool) sprog" where
  "delegation_bond_more_without_event T who candidate additional =
     sbind (gets (delegation_request_revoke_exists candidate who)) (\<lambda>revoked.
     seq (ensure (\<not> revoked) (SErr PendingDelegationRevoke))
     (sbind (delegator_of who) (\<lambda>state.
      delegator_increase_delegation T candidate additional state)))"

definition pay_from_master ::
    "('l, 'c) staking_config_scheme \<Rightarrow> account \<Rightarrow> nat \<Rightarrow> ('l, 'z, nat option) sprog" where
  "pay_from_master T to amt = attempt (on_ext (c_transfer (st_currency T) (PayMaster T) to amt Preserve))"

definition mint :: "('l, 'c) staking_config_scheme \<Rightarrow> nat \<Rightarrow> account \<Rightarrow> ('l, 'z, unit) sprog" where
  "mint T amt to =
     sbind (pay_from_master T to amt) (\<lambda>paid.
     case paid of
       Some amount_transferred \<Rightarrow> deposit_staking_event (RewardedEvent to amount_transferred)
     | None \<Rightarrow> ok ())"

definition mint_collator_reward ::
    "('l, 'c) staking_config_scheme \<Rightarrow> nat \<Rightarrow> account \<Rightarrow> nat \<Rightarrow> ('l, 'z, unit) sprog" where
  "mint_collator_reward T paid_for_round collator_id amt =
     sbind (pay_from_master T collator_id amt) (\<lambda>paid.
     case paid of
       Some amount_transferred \<Rightarrow> deposit_staking_event (RewardedEvent collator_id amount_transferred)
     | None \<Rightarrow> ok ())"

text \<open>The default \<^verbatim>\<open>PayoutCollatorReward\<close> of \<^verbatim>\<open>traits.rs\<close>, which the runtime uses.\<close>

definition payout_collator_reward ::
    "('l, 'c) staking_config_scheme \<Rightarrow> nat \<Rightarrow> account \<Rightarrow> nat \<Rightarrow> ('l, 'z, unit) sprog" where
  "payout_collator_reward T for_round collator_id amount = mint_collator_reward T for_round collator_id amount"

definition mint_and_compound ::
    "('l, 'c) staking_config_scheme \<Rightarrow> nat \<Rightarrow> nat \<Rightarrow> account \<Rightarrow> account \<Rightarrow> ('l, 'z, unit) sprog" where
  "mint_and_compound T amt compound_percent candidate who =
     sbind (pay_from_master T who amt) (\<lambda>paid.
     case paid of
       None \<Rightarrow> ok ()
     | Some amount_transferred \<Rightarrow>
         seq (deposit_staking_event (RewardedEvent who amount_transferred))
         (let compound_amount = percent_mul_ceil T compound_percent amount_transferred in
          if compound_amount = 0 then ok () else
          sbind (attempt (delegation_bond_more_without_event T who candidate compound_amount)) (\<lambda>compounded.
          case compounded of
            None \<Rightarrow> ok ()
          | Some _ \<Rightarrow> deposit_staking_event (Compounded candidate who compound_amount))))"

datatype reward_payment = Paid | Skipped | Finished

text \<open>The first entry of a round in the order of the hashed keys, as \<^verbatim>\<open>iter_prefix(..).drain().next()\<close>.\<close>

definition snapshots_of :: "nat \<Rightarrow> ('l, 'z) staking_state_scheme \<Rightarrow> (account \<times> collator_snapshot) list" where
  "snapshots_of r s = map (\<lambda>((_, a), sn). (a, sn)) (filter (\<lambda>e. fst (fst e) = r) (AtStake s))"

definition notify_collator_payout ::
    "('l, 'c) staking_config_scheme \<Rightarrow> nat \<Rightarrow> account \<Rightarrow> nat \<Rightarrow> ('l, 'z, unit) sprog" where
  "notify_collator_payout T r collator amount = modify (\<lambda>s. s\<lparr>ext := on_collator_payout T r collator amount (ext s)\<rparr>)"

definition pay_delegators ::
    "('l, 'c) staking_config_scheme \<Rightarrow> account \<Rightarrow> nat \<Rightarrow> nat \<Rightarrow> bond_with_auto_compound list \<Rightarrow>
     ('l, 'z, unit) sprog" where
  "pay_delegators T collator total_stake amt_due ds =
     for_each ds (\<lambda>d.
       let percent = perbill_from_rational T (ba_amount d) total_stake;
           due = perbill_mul T percent amt_due
       in if due \<noteq> 0 then mint_and_compound T due (ba_auto_compound d) collator (ba_owner d) else ok ())"

definition pay_one_collator_reward ::
    "('l, 'c) staking_config_scheme \<Rightarrow> nat \<Rightarrow> delayed_payout \<Rightarrow> ('l, 'z, reward_payment) sprog" where
  "pay_one_collator_reward T paid_for_round payout_info =
     sbind (gets (\<lambda>s. Points s paid_for_round)) (\<lambda>total_points.
     if total_points = 0 then ok Finished else
     let collator_issuance =
           perbill_mul T (dy_collator_commission payout_info) (dy_round_issuance payout_info)
     in
     sbind (gets (snapshots_of paid_for_round)) (\<lambda>snapshots.
     case snapshots of
       [] \<Rightarrow> ok Finished
     | (collator, state) # _ \<Rightarrow>
         seq (modify (\<lambda>s. s\<lparr>AtStake := nmap_remove (paid_for_round, collator) (AtStake s)\<rparr>))
         (sbind (gets (\<lambda>s. AwardedPts s (paid_for_round, collator))) (\<lambda>pts.
          seq (modify (\<lambda>s. s\<lparr>AwardedPts := (AwardedPts s)((paid_for_round, collator) := 0)\<rparr>))
          (if pts = 0 then ok Skipped else
           let pct_due = perbill_from_rational T pts total_points;
               total_paid = perbill_mul T pct_due (dy_total_staking_reward payout_info)
           in
           if sn_delegations state = []
           then
             seq (payout_collator_reward T paid_for_round collator total_paid)
             (seq (notify_collator_payout T paid_for_round collator total_paid)
             (ok Paid))
           else
             let collator_pct = perbill_from_rational T (sn_bond state) (sn_total state);
                 commission = perbill_mul T pct_due collator_issuance;
                 amt_due = saturating_sub total_paid commission;
                 collator_reward = saturating_add (perbill_mul T collator_pct amt_due) commission
             in
             seq (payout_collator_reward T paid_for_round collator collator_reward)
             (seq (notify_collator_payout T paid_for_round collator collator_reward)
             (seq (pay_delegators T collator (sn_total state) amt_due (sn_delegations state))
             (ok Paid))))))))"

definition handle_delayed_payouts ::
    "('l, 'c) staking_config_scheme \<Rightarrow> nat \<Rightarrow> ('l, 'z, unit) sprog" where
  "handle_delayed_payouts T now =
     (let delay = RewardPaymentDelay T in
      if now < delay then ok () else
      let paid_for_round = saturating_sub now delay in
      sbind (gets (\<lambda>s. DelayedPayouts s paid_for_round)) (\<lambda>found.
      case found of
        None \<Rightarrow> ok ()
      | Some payout_info \<Rightarrow>
          sbind (pay_one_collator_reward T paid_for_round payout_info) (\<lambda>result.
          if result = Finished
          then modify (\<lambda>s. s\<lparr>DelayedPayouts := (DelayedPayouts s)(paid_for_round := None),
                            Points := (Points s)(paid_for_round := 0)\<rparr>)
          else ok ())))"

section \<open>Selecting the collators\<close>

text \<open>
  The comparison is a total order on bonds and the selected owners are sorted afterwards, so the
  partial sort of \<^verbatim>\<open>select_nth_unstable_by\<close> gives the same result as a full one.
\<close>

definition stake_cmp :: "bond \<Rightarrow> bond \<Rightarrow> ordering" where
  "stake_cmp a b =
     (case nat_cmp (bd_amount b) (bd_amount a) of
        Equal \<Rightarrow> nat_cmp (bd_owner b) (bd_owner a)
      | oth \<Rightarrow> oth)"

definition compute_top_candidates :: "('l, 'z) staking_state_scheme \<Rightarrow> account list" where
  "compute_top_candidates s =
     (let top_n = TotalSelected s; candidates = CandidatePool s in
      if top_n = 0 then []
      else if length candidates > top_n
      then sort (map bd_owner (take top_n (sort_by stake_cmp candidates)))
      else map bd_owner candidates)"

record counted_delegations =
  cd_uncounted_stake :: nat
  cd_rewardable_delegations :: "bond list"

definition get_rewardable_delegators ::
    "account \<Rightarrow> ('l, 'z, counted_delegations) sprog" where
  "get_rewardable_delegators collator =
     sbind (gets (\<lambda>s. DelegationScheduledRequests s collator)) (\<lambda>requests.
     let actions = map_of (rev (map (\<lambda>x. (sr_delegator x, sr_action x)) requests)) in
     sbind (top_of collator) (\<lambda>top_delegations.
     ok \<lparr>cd_uncounted_stake = foldl (\<lambda>u b. case actions (bd_owner b) of
             None \<Rightarrow> u
           | Some (Revoke _) \<Rightarrow> saturating_add u (bd_amount b)
           | Some (Decrease amount) \<Rightarrow> saturating_add u amount) 0 (dl_delegations top_delegations),
         cd_rewardable_delegations = map (\<lambda>b. case actions (bd_owner b) of
             None \<Rightarrow> b
           | Some (Revoke _) \<Rightarrow> b\<lparr>bd_amount := 0\<rparr>
           | Some (Decrease amount) \<Rightarrow> b\<lparr>bd_amount := saturating_sub (bd_amount b) amount\<rparr>)
           (dl_delegations top_delegations)\<rparr>))"

definition put_at_stake ::
    "('l, 'c) staking_config_scheme \<Rightarrow> nat \<Rightarrow> account \<Rightarrow> collator_snapshot \<Rightarrow> ('l, 'z, unit) sprog" where
  "put_at_stake T now a sn =
     modify (\<lambda>s. s\<lparr>AtStake := nmap_insert (hash_at_stake T) (now, a) sn (AtStake s)\<rparr>)"

fun snapshot_collators ::
    "('l, 'c) staking_config_scheme \<Rightarrow> nat \<Rightarrow> account list \<Rightarrow> nat \<Rightarrow> nat \<Rightarrow> nat \<Rightarrow>
     ('l, 'z, nat \<times> nat \<times> nat) sprog" where
  "snapshot_collators T now [] collator_count delegation_count total_stake =
     ok (collator_count, delegation_count, total_stake)"
| "snapshot_collators T now (account # accounts) collator_count delegation_count total_stake =
     sbind (gets (\<lambda>s. CandidateInfo s account)) (\<lambda>found.
     sbind (ok_or found Panic) (\<lambda>state.
     let collator_count = saturating_add_u32 collator_count 1;
         delegation_count = saturating_add_u32 delegation_count (ci_delegation_count state);
         total_stake = saturating_add total_stake (ci_total_counted state)
     in
     sbind (get_rewardable_delegators account) (\<lambda>counted.
     let total_counted = saturating_sub (ci_total_counted state) (cd_uncounted_stake counted) in
     sbind (gets (\<lambda>s. AutoCompoundingDelegations s account)) (\<lambda>cs.
     let auto = map_of (rev (map (\<lambda>x. (ac_delegator x, ac_value x)) cs));
         rewardable_delegations = map (\<lambda>d.
           \<lparr>ba_owner = bd_owner d, ba_amount = bd_amount d,
            ba_auto_compound = (case auto (bd_owner d) of Some v \<Rightarrow> v | None \<Rightarrow> 0)\<rparr>)
           (cd_rewardable_delegations counted)
     in
     seq (put_at_stake T now account
            \<lparr>sn_bond = ci_bond state, sn_delegations = rewardable_delegations, sn_total = total_counted\<rparr>)
     (seq (deposit_staking_event (CollatorChosen now account (ci_total_counted state)))
     (snapshot_collators T now accounts collator_count delegation_count total_stake))))))"

definition select_previous_collators ::
    "('l, 'c) staking_config_scheme \<Rightarrow> nat \<Rightarrow> ('l, 'z, nat \<times> nat \<times> nat) sprog" where
  "select_previous_collators T now =
     (let last_round = saturating_sub now 1 in
      sbind (gets (snapshots_of last_round)) (\<lambda>snapshots.
      let collator_count = foldl (\<lambda>n _. saturating_add_u32 n 1) 0 snapshots;
          delegation_count =
            foldl (\<lambda>n (_, sn). saturating_add_u32 n (as_u32 (length (sn_delegations sn)))) 0 snapshots;
          total_stake = foldl (\<lambda>n (_, sn). saturating_add n (sn_total sn)) 0 snapshots;
          total_per_candidate = map_of (rev (map (\<lambda>(a, sn). (a, sn_total sn)) snapshots))
      in
      seq (for_each snapshots (\<lambda>(a, sn). put_at_stake T now a sn))
      (sbind (gets SelectedCandidates) (\<lambda>selected.
       seq (for_each selected (\<lambda>candidate.
              sbind (ok_or (total_per_candidate candidate) Panic) (\<lambda>snapshot_total.
              deposit_staking_event (CollatorChosen now candidate snapshot_total))))
       (ok (collator_count, delegation_count, total_stake))))))"

definition select_top_candidates ::
    "('l, 'c) staking_config_scheme \<Rightarrow> nat \<Rightarrow> ('l, 'z, nat \<times> nat \<times> nat) sprog" where
  "select_top_candidates T now =
     sbind (gets compute_top_candidates) (\<lambda>collators.
     if collators = [] then select_previous_collators T now
     else
       sbind (snapshot_collators T now collators 0 0 0) (\<lambda>result.
       seq (modify (\<lambda>s. s\<lparr>SelectedCandidates := collators\<rparr>))
       (ok result)))"

section \<open>The block hook and the session interface\<close>

definition on_initialize :: "('l, 'c) staking_config_scheme \<Rightarrow> nat \<Rightarrow> ('l, 'z, unit) sprog" where
  "on_initialize T n =
     sbind (gets Round) (\<lambda>round.
     if should_update round n
     then
       let round = round_update n round in
       seq (modify (\<lambda>s. s\<lparr>ext := on_new_round T (rd_current round) (ext s)\<rparr>))
       (seq (prepare_staking_payouts T (rd_current round))
       (sbind (select_top_candidates T (rd_current round)) (\<lambda>(collator_count, _, total_staked).
        seq (modify (\<lambda>s. s\<lparr>Round := round\<rparr>))
        (seq (modify (\<lambda>s. s\<lparr>Staked := (Staked s)(rd_current round := Total s)\<rparr>))
        (deposit_staking_event (NewRound (rd_first round) (rd_current round) collator_count total_staked))))))
     else handle_delayed_payouts T (rd_current round))"

definition award_points_to_block_author :: "account \<Rightarrow> ('l, 'z, unit) sprog" where
  "award_points_to_block_author author =
     sbind (gets (\<lambda>s. rd_current (Round s))) (\<lambda>now.
     seq (modify (\<lambda>s. s\<lparr>AwardedPts :=
            (AwardedPts s)((now, author) := saturating_add_u32 (AwardedPts s (now, author)) 20)\<rparr>))
     (modify (\<lambda>s. s\<lparr>Points := (Points s)(now := saturating_add_u32 (Points s now) 20)\<rparr>)))"

definition note_author :: "account \<Rightarrow> ('l, 'z, unit) sprog" where
  "note_author author = award_points_to_block_author author"

definition new_session :: "nat \<Rightarrow> ('l, 'z) staking_state_scheme \<Rightarrow> account list option" where
  "new_session new_index s = (let collators = SelectedCandidates s in if collators = [] then None else Some collators)"

definition should_end_session :: "nat \<Rightarrow> ('l, 'z) staking_state_scheme \<Rightarrow> bool" where
  "should_end_session now s = should_update (Round s) now"

definition average_session_length :: "('l, 'z) staking_state_scheme \<Rightarrow> nat" where
  "average_session_length s = rd_length (Round s)"

definition estimate_current_session_progress ::
    "('l, 'c) staking_config_scheme \<Rightarrow> nat \<Rightarrow> ('l, 'z) staking_state_scheme \<Rightarrow> nat option" where
  "estimate_current_session_progress T now s =
     (let passed_blocks = saturating_sub now (rd_first (Round s))
      in Some (permill_from_rational T passed_blocks (rd_length (Round s))))"

definition estimate_next_session_rotation :: "nat \<Rightarrow> ('l, 'z) staking_state_scheme \<Rightarrow> nat option" where
  "estimate_next_session_rotation now s = Some (wrapping_add_u32 (rd_first (Round s)) (rd_length (Round s)))"

end
