(* ===== verification/Staking_Calls.thy ===== *)
theory Staking_Calls
  imports Staking_Rounds
begin

text \<open>
  The extrinsics of the pallet \<^verbatim>\<open>parachain-staking\<close> (\<^verbatim>\<open>lib.rs\<close>, \<^verbatim>\<open>#[pallet::call]\<close>) and its genesis. A
  definition is the body of the Rust function; \<open>staking_dispatch\<close> is the runtime's dispatch of a call,
  which undoes the writes of a call that fails. The genesis calls two of the bodies directly. The
  name of an extrinsic that shares it with the function it calls has the suffix \<open>_call\<close>.
\<close>

section \<open>Parameters set by governance\<close>

definition ensure_monetary :: "('l, 'c) staking_config_scheme \<Rightarrow> origin \<Rightarrow> ('l, 'z, unit) sprog" where
  "ensure_monetary T orig = ensure (monetary_governance_origin T orig) BadOrigin"

definition set_staking_expectations ::
    "('l, 'c) staking_config_scheme \<Rightarrow> origin \<Rightarrow> range \<Rightarrow> ('l, 'z, unit) sprog" where
  "set_staking_expectations T orig expectations =
     seq (ensure_monetary T orig)
     (seq (ensure (range_is_valid expectations) (SErr InvalidSchedule))
     (sbind (gets InflationConfig) (\<lambda>config.
      seq (ensure (in_expect config \<noteq> expectations) (SErr NoWritingSameValue))
      (let config = set_expectations expectations config in
       seq (deposit_staking_event (StakeExpectationsSet (in_expect config)))
       (modify (\<lambda>s. s\<lparr>InflationConfig := config\<rparr>))))))"

definition set_inflation ::
    "('l, 'c) staking_config_scheme \<Rightarrow> origin \<Rightarrow> range \<Rightarrow> ('l, 'z, unit) sprog" where
  "set_inflation T orig schedule =
     seq (ensure_monetary T orig)
     (seq (ensure (range_is_valid schedule) (SErr InvalidSchedule))
     (sbind (gets InflationConfig) (\<lambda>config.
      seq (ensure (in_annual config \<noteq> schedule) (SErr NoWritingSameValue))
      (sbind (gets Round) (\<lambda>round.
       sbind (ok_or (set_round_from_annual T round schedule (config\<lparr>in_annual := schedule\<rparr>)) Panic) (\<lambda>config.
       seq (deposit_staking_event (InflationSet (in_annual config) (in_round config)))
       (modify (\<lambda>s. s\<lparr>InflationConfig := config\<rparr>))))))))"

definition set_parachain_bond_account ::
    "('l, 'c) staking_config_scheme \<Rightarrow> origin \<Rightarrow> account \<Rightarrow> ('l, 'z, unit) sprog" where
  "set_parachain_bond_account T orig new =
     seq (ensure_monetary T orig)
     (sbind (gets ParachainBondInfo) (\<lambda>info.
      seq (ensure (pbc_account info \<noteq> new) (SErr NoWritingSameValue))
      (seq (modify (\<lambda>s. s\<lparr>ParachainBondInfo := info\<lparr>pbc_account := new\<rparr>\<rparr>))
      (deposit_staking_event (ParachainBondAccountSet (pbc_account info) new)))))"

definition set_parachain_bond_reserve_percent ::
    "('l, 'c) staking_config_scheme \<Rightarrow> origin \<Rightarrow> nat \<Rightarrow> ('l, 'z, unit) sprog" where
  "set_parachain_bond_reserve_percent T orig new =
     seq (ensure_monetary T orig)
     (sbind (gets ParachainBondInfo) (\<lambda>info.
      seq (ensure (pbc_percent info \<noteq> new) (SErr NoWritingSameValue))
      (seq (modify (\<lambda>s. s\<lparr>ParachainBondInfo := info\<lparr>pbc_percent := new\<rparr>\<rparr>))
      (deposit_staking_event (ParachainBondReservePercentSet (pbc_percent info) new)))))"

definition set_total_selected ::
    "('l, 'c) staking_config_scheme \<Rightarrow> origin \<Rightarrow> nat \<Rightarrow> ('l, 'z, unit) sprog" where
  "set_total_selected T orig new =
     seq (ensure_root orig)
     (seq (ensure (new \<ge> MinSelectedCandidates T) (SErr CannotSetBelowMin))
     (sbind (gets TotalSelected) (\<lambda>old.
      seq (ensure (old \<noteq> new) (SErr NoWritingSameValue))
      (sbind (gets Round) (\<lambda>round.
       seq (ensure (new < rd_length round) (SErr RoundLengthMustBeGreaterThanTotalSelectedCollators))
       (seq (modify (\<lambda>s. s\<lparr>TotalSelected := new\<rparr>))
       (deposit_staking_event (TotalSelectedSet old new))))))))"

definition set_collator_commission :: "origin \<Rightarrow> nat \<Rightarrow> ('l, 'z, unit) sprog" where
  "set_collator_commission orig new =
     seq (ensure_root orig)
     (sbind (gets CollatorCommission) (\<lambda>old.
      seq (ensure (old \<noteq> new) (SErr NoWritingSameValue))
      (seq (modify (\<lambda>s. s\<lparr>CollatorCommission := new\<rparr>))
      (deposit_staking_event (CollatorCommissionSet old new)))))"

definition set_blocks_per_round ::
    "('l, 'c) staking_config_scheme \<Rightarrow> origin \<Rightarrow> nat \<Rightarrow> ('l, 'z, unit) sprog" where
  "set_blocks_per_round T orig new =
     seq (ensure_root orig)
     (seq (ensure (new \<ge> MinBlocksPerRound T) (SErr CannotSetBelowMin))
     (sbind (gets Round) (\<lambda>round.
      seq (ensure (rd_length round \<noteq> new) (SErr NoWritingSameValue))
      (sbind (gets TotalSelected) (\<lambda>selected.
       seq (ensure (new > selected) (SErr RoundLengthMustBeGreaterThanTotalSelectedCollators))
       (sbind (gets InflationConfig) (\<lambda>config.
        sbind (ok_or (reset_round T new config) Panic) (\<lambda>inflation_config.
        seq (modify (\<lambda>s. s\<lparr>Round := round\<lparr>rd_length := new\<rparr>\<rparr>))
        (seq (deposit_staking_event (BlocksPerRoundSet (rd_current round) (rd_first round)
                (rd_length round) new (in_round inflation_config)))
        (modify (\<lambda>s. s\<lparr>InflationConfig := inflation_config\<rparr>)))))))))))"

section \<open>Candidates\<close>

definition put_pool :: "bond list \<Rightarrow> ('l, 'z, unit) sprog" where
  "put_pool candidates = modify (\<lambda>s. s\<lparr>CandidatePool := candidates\<rparr>)"

definition join_candidates ::
    "('l, 'c) staking_config_scheme \<Rightarrow> origin \<Rightarrow> nat \<Rightarrow> nat \<Rightarrow> ('l, 'z, unit) sprog" where
  "join_candidates T orig bond candidate_count =
     sbind (ensure_signed orig) (\<lambda>acc.
     sbind (gets (\<lambda>s. is_candidate s acc)) (\<lambda>candidate_already.
     seq (ensure (\<not> candidate_already) (SErr CandidateExists))
     (sbind (gets (\<lambda>s. is_delegator s acc)) (\<lambda>delegator_already.
      seq (ensure (\<not> delegator_already) (SErr DelegatorExists))
      (seq (ensure (bond \<ge> MinCandidateStk T) (SErr CandidateBondBelowMin))
      (sbind (gets CandidatePool) (\<lambda>candidates.
       seq (ensure (candidate_count \<ge> as_u32 (length candidates))
              (SErr TooLowCandidateCountWeightHintJoinCandidates))
       (case os_insert bond_cmp \<lparr>bd_owner = acc, bd_amount = bond\<rparr> candidates of
          (candidates, inserted) \<Rightarrow>
            seq (ensure inserted (SErr CandidateExists))
            (sbind (gets (stakable_free_balance T acc)) (\<lambda>free.
             seq (ensure (free \<ge> bond) (SErr InsufficientBalance))
             (seq (st_hold T StakingCollator acc bond)
             (seq (put_candidate acc (new_candidate bond))
             (seq (put_top acc (Some empty_delegations))
             (seq (put_bottom acc (Some empty_delegations))
             (seq (put_pool candidates)
             (sbind (gets Total) (\<lambda>t.
              let new_total = saturating_add t bond in
              seq (put_total new_total)
              (deposit_staking_event (JoinedCollatorCandidates acc bond new_total)))))))))))))))))))"

definition schedule_leave_candidates ::
    "('l, 'c) staking_config_scheme \<Rightarrow> origin \<Rightarrow> nat \<Rightarrow> ('l, 'z, unit) sprog" where
  "schedule_leave_candidates T orig candidate_count =
     sbind (ensure_signed orig) (\<lambda>collator.
     sbind (candidate_of collator) (\<lambda>state.
     sbind (schedule_leave T state) (\<lambda>(state, now, w).
     sbind (gets CandidatePool) (\<lambda>candidates.
     seq (ensure (candidate_count \<ge> as_u32 (length candidates)) (SErr TooLowCandidateCountToLeaveCandidates))
     (case os_remove bond_cmp (bond_from_owner collator) candidates of
        (candidates, removed) \<Rightarrow>
          seq (if removed then put_pool candidates else ok ())
          (seq (put_candidate collator state)
          (deposit_staking_event (CandidateScheduledExit now collator w))))))))"

definition release_all ::
    "('l, 'c) staking_config_scheme \<Rightarrow> staking_hold_reason \<Rightarrow> account \<Rightarrow> ('l, 'z, unit) sprog" where
  "release_all T r who =
     sbind (gets (balance_on_hold T r who)) (\<lambda>total_bonded. st_release T r who total_bonded)"

definition return_stake ::
    "('l, 'c) staking_config_scheme \<Rightarrow> account \<Rightarrow> bond \<Rightarrow> ('l, 'z, unit) sprog" where
  "return_stake T candidate bond =
     sbind (gets (\<lambda>s. DelegatorState s (bd_owner bond))) (\<lambda>found.
     sbind (ok_or found Panic) (\<lambda>delegator.
     sbind (delegator_rm_delegation T candidate delegator) (\<lambda>(delegator, remaining).
     case remaining of
       Some remaining \<Rightarrow>
         sbind (delegation_remove_request_with_state candidate (bd_owner bond) delegator) (\<lambda>delegator.
         seq (remove_auto_compound candidate (bd_owner bond))
         (if remaining = 0
          then seq (put_delegator (bd_owner bond) None) (release_all T StakingDelegator (bd_owner bond))
          else put_delegator (bd_owner bond) (Some delegator)))
     | None \<Rightarrow> release_all T StakingDelegator (bd_owner bond))))"

definition execute_leave_candidates ::
    "('l, 'c) staking_config_scheme \<Rightarrow> origin \<Rightarrow> account \<Rightarrow> nat \<Rightarrow> ('l, 'z, unit) sprog" where
  "execute_leave_candidates T orig candidate candidate_delegation_count =
     sbind (ensure_signed orig) (\<lambda>_.
     sbind (candidate_of candidate) (\<lambda>state.
     seq (ensure (ci_delegation_count state \<le> candidate_delegation_count)
            (SErr TooLowCandidateDelegationCountToLeaveCandidates))
     (seq (can_leave state)
     (sbind (top_of candidate) (\<lambda>top_delegations.
      seq (put_top candidate None)
      (seq (for_each (dl_delegations top_delegations) (return_stake T candidate))
      (sbind (bottom_of candidate) (\<lambda>bottom_delegations.
       seq (put_bottom candidate None)
       (seq (for_each (dl_delegations bottom_delegations) (return_stake T candidate))
       (let total_backing = saturating_add
              (saturating_add (ci_bond state) (dl_total top_delegations)) (dl_total bottom_delegations)
        in
        seq (release_all T StakingCollator candidate)
        (seq (modify (\<lambda>s. s\<lparr>CandidateInfo := (CandidateInfo s)(candidate := None)\<rparr>))
        (seq (put_requests candidate [])
        (seq (put_auto_compound candidate [])
        (seq (put_top candidate None)
        (seq (put_bottom candidate None)
        (sbind (gets Total) (\<lambda>t.
         let new_total_staked = saturating_sub t total_backing in
         seq (put_total new_total_staked)
         (deposit_staking_event (CandidateLeft candidate total_backing new_total_staked)))))))))))))))))))"

definition cancel_leave_candidates :: "origin \<Rightarrow> nat \<Rightarrow> ('l, 'z, unit) sprog" where
  "cancel_leave_candidates orig candidate_count =
     sbind (ensure_signed orig) (\<lambda>collator.
     sbind (candidate_of collator) (\<lambda>state.
     seq (ensure (candidate_is_leaving state) (SErr CandidateNotLeaving))
     (let state = state\<lparr>ci_status := CollatorActive\<rparr> in
      sbind (gets CandidatePool) (\<lambda>candidates.
      seq (ensure (as_u32 (length candidates) \<le> candidate_count)
             (SErr TooLowCandidateCountWeightHintCancelLeaveCandidates))
      (case os_insert bond_cmp \<lparr>bd_owner = collator, bd_amount = ci_total_counted state\<rparr> candidates of
         (candidates, inserted) \<Rightarrow>
           seq (ensure inserted (SErr AlreadyActive))
           (seq (put_pool candidates)
           (seq (put_candidate collator state)
           (deposit_staking_event (CancelledCandidateExit collator)))))))))"

definition go_offline :: "origin \<Rightarrow> ('l, 'z, unit) sprog" where
  "go_offline orig =
     sbind (ensure_signed orig) (\<lambda>collator.
     sbind (candidate_of collator) (\<lambda>state.
     seq (ensure (candidate_is_active state) (SErr AlreadyOffline))
     (let state = state\<lparr>ci_status := CollatorIdle\<rparr> in
      sbind (gets CandidatePool) (\<lambda>candidates.
      case os_remove bond_cmp (bond_from_owner collator) candidates of
        (candidates, removed) \<Rightarrow>
          seq (if removed then put_pool candidates else ok ())
          (seq (put_candidate collator state)
          (deposit_staking_event (CandidateWentOffline collator)))))))"

definition go_online :: "origin \<Rightarrow> ('l, 'z, unit) sprog" where
  "go_online orig =
     sbind (ensure_signed orig) (\<lambda>collator.
     sbind (candidate_of collator) (\<lambda>state.
     seq (ensure (\<not> candidate_is_active state) (SErr AlreadyActive))
     (seq (ensure (\<not> candidate_is_leaving state) (SErr CannotGoOnlineIfLeaving))
     (let state = state\<lparr>ci_status := CollatorActive\<rparr> in
      sbind (gets CandidatePool) (\<lambda>candidates.
      case os_insert bond_cmp \<lparr>bd_owner = collator, bd_amount = ci_total_counted state\<rparr> candidates of
        (candidates, inserted) \<Rightarrow>
          seq (ensure inserted (SErr AlreadyActive))
          (seq (put_pool candidates)
          (seq (put_candidate collator state)
          (deposit_staking_event (CandidateBackOnline collator)))))))))"

definition candidate_bond_more ::
    "('l, 'c) staking_config_scheme \<Rightarrow> origin \<Rightarrow> nat \<Rightarrow> ('l, 'z, unit) sprog" where
  "candidate_bond_more T orig additional =
     sbind (ensure_signed orig) (\<lambda>collator.
     sbind (candidate_of collator) (\<lambda>state.
     sbind (bond_more T collator additional state) (\<lambda>state.
     seq (put_candidate collator state)
     (if candidate_is_active state then update_active collator (ci_total_counted state) else ok ()))))"

definition schedule_candidate_bond_less ::
    "('l, 'c) staking_config_scheme \<Rightarrow> origin \<Rightarrow> nat \<Rightarrow> ('l, 'z, unit) sprog" where
  "schedule_candidate_bond_less T orig reduction =
     sbind (ensure_signed orig) (\<lambda>collator.
     sbind (candidate_of collator) (\<lambda>state.
     sbind (schedule_bond_less T reduction state) (\<lambda>(state, w).
     seq (put_candidate collator state)
     (deposit_staking_event (CandidateBondLessRequested collator reduction w)))))"

definition execute_candidate_bond_less ::
    "('l, 'c) staking_config_scheme \<Rightarrow> origin \<Rightarrow> account \<Rightarrow> ('l, 'z, unit) sprog" where
  "execute_candidate_bond_less T orig candidate =
     sbind (ensure_signed orig) (\<lambda>_.
     sbind (candidate_of candidate) (\<lambda>state.
     sbind (execute_bond_less T candidate state) (\<lambda>state.
     put_candidate candidate state)))"

definition cancel_candidate_bond_less :: "origin \<Rightarrow> ('l, 'z, unit) sprog" where
  "cancel_candidate_bond_less orig =
     sbind (ensure_signed orig) (\<lambda>collator.
     sbind (candidate_of collator) (\<lambda>state.
     sbind (cancel_bond_less collator state) (\<lambda>state.
     put_candidate collator state)))"

section \<open>Delegators\<close>

definition delegate ::
    "('l, 'c) staking_config_scheme \<Rightarrow> origin \<Rightarrow> account \<Rightarrow> nat \<Rightarrow> nat \<Rightarrow> nat \<Rightarrow> ('l, 'z, unit) sprog" where
  "delegate T orig candidate amount candidate_delegation_count delegation_count =
     sbind (ensure_signed orig) (\<lambda>who.
     delegate_with_auto_compound T candidate who amount 0 candidate_delegation_count 0 delegation_count)"

definition delegate_with_auto_compound_call ::
    "('l, 'c) staking_config_scheme \<Rightarrow> origin \<Rightarrow> account \<Rightarrow> nat \<Rightarrow> nat \<Rightarrow> nat \<Rightarrow> nat \<Rightarrow> nat \<Rightarrow>
     ('l, 'z, unit) sprog" where
  "delegate_with_auto_compound_call T orig candidate amount percent candidate_delegation_count
       candidate_auto_compounding_delegation_count delegation_count =
     sbind (ensure_signed orig) (\<lambda>who.
     delegate_with_auto_compound T candidate who amount percent candidate_delegation_count
       candidate_auto_compounding_delegation_count delegation_count)"

definition schedule_leave_delegators ::
    "('l, 'c) staking_config_scheme \<Rightarrow> origin \<Rightarrow> ('l, 'z, unit) sprog" where
  "schedule_leave_delegators T orig = sbind (ensure_signed orig) (delegator_schedule_revoke_all T)"

definition execute_leave_delegators ::
    "('l, 'c) staking_config_scheme \<Rightarrow> origin \<Rightarrow> account \<Rightarrow> nat \<Rightarrow> ('l, 'z, unit) sprog" where
  "execute_leave_delegators T orig who delegation_count =
     sbind (ensure_signed orig) (\<lambda>_. delegator_execute_scheduled_revoke_all T who delegation_count)"

definition cancel_leave_delegators :: "origin \<Rightarrow> ('l, 'z, unit) sprog" where
  "cancel_leave_delegators orig = sbind (ensure_signed orig) delegator_cancel_scheduled_revoke_all"

definition schedule_revoke_delegation ::
    "('l, 'c) staking_config_scheme \<Rightarrow> origin \<Rightarrow> account \<Rightarrow> ('l, 'z, unit) sprog" where
  "schedule_revoke_delegation T orig collator =
     sbind (ensure_signed orig) (\<lambda>who. delegation_schedule_revoke T collator who)"

definition delegator_bond_more ::
    "('l, 'c) staking_config_scheme \<Rightarrow> origin \<Rightarrow> account \<Rightarrow> nat \<Rightarrow> ('l, 'z, unit) sprog" where
  "delegator_bond_more T orig candidate additional =
     sbind (ensure_signed orig) (\<lambda>who.
     sbind (delegation_bond_more_without_event T who candidate additional) (\<lambda>in_top.
     deposit_staking_event (DelegationIncreased who candidate additional in_top)))"

definition schedule_delegator_bond_less ::
    "('l, 'c) staking_config_scheme \<Rightarrow> origin \<Rightarrow> account \<Rightarrow> nat \<Rightarrow> ('l, 'z, unit) sprog" where
  "schedule_delegator_bond_less T orig candidate reduction =
     sbind (ensure_signed orig) (\<lambda>who. delegation_schedule_bond_decrease T candidate who reduction)"

definition execute_delegation_request ::
    "('l, 'c) staking_config_scheme \<Rightarrow> origin \<Rightarrow> account \<Rightarrow> account \<Rightarrow> ('l, 'z, unit) sprog" where
  "execute_delegation_request T orig who candidate =
     sbind (ensure_signed orig) (\<lambda>_. delegation_execute_scheduled_request T candidate who)"

definition cancel_delegation_request :: "origin \<Rightarrow> account \<Rightarrow> ('l, 'z, unit) sprog" where
  "cancel_delegation_request orig candidate =
     sbind (ensure_signed orig) (\<lambda>who. delegation_cancel_request candidate who)"

definition set_auto_compound_call ::
    "('l, 'c) staking_config_scheme \<Rightarrow> origin \<Rightarrow> account \<Rightarrow> nat \<Rightarrow> nat \<Rightarrow> nat \<Rightarrow> ('l, 'z, unit) sprog" where
  "set_auto_compound_call T orig candidate value candidate_auto_compounding_delegation_count_hint
       delegation_count_hint =
     sbind (ensure_signed orig) (\<lambda>who.
     set_auto_compound T candidate who value candidate_auto_compounding_delegation_count_hint
       delegation_count_hint)"

definition hotfix_remove_delegation_requests_exited_candidates ::
    "origin \<Rightarrow> account list \<Rightarrow> ('l, 'z, unit) sprog" where
  "hotfix_remove_delegation_requests_exited_candidates orig candidates =
     sbind (ensure_signed orig) (\<lambda>_.
     seq (ensure (length candidates < 100) (SErr InsufficientBalance))
     (seq (for_each candidates (\<lambda>candidate.
             sbind (gets (\<lambda>s. CandidateInfo s candidate)) (\<lambda>found.
             seq (ensure (found = None) (SErr CandidateNotLeaving))
             (sbind (gets (\<lambda>s. DelegationScheduledRequests s candidate)) (\<lambda>requests.
              ensure (requests = []) (SErr CandidateNotLeaving))))))
     (for_each candidates (\<lambda>candidate. put_requests candidate []))))"

section \<open>Dispatch\<close>

datatype staking_call =
    SetStakingExpectations range
  | SetInflation range
  | SetParachainBondAccount account
  | SetParachainBondReservePercent nat
  | SetTotalSelected nat
  | SetCollatorCommission nat
  | SetBlocksPerRound nat
  | JoinCandidates nat nat
  | ScheduleLeaveCandidates nat
  | ExecuteLeaveCandidates account nat
  | CancelLeaveCandidates nat
  | GoOffline
  | GoOnline
  | CandidateBondMore nat
  | ScheduleCandidateBondLess nat
  | ExecuteCandidateBondLess account
  | CancelCandidateBondLess
  | Delegate account nat nat nat
  | DelegateWithAutoCompound account nat nat nat nat nat
  | ScheduleLeaveDelegators
  | ExecuteLeaveDelegators account nat
  | CancelLeaveDelegators
  | ScheduleRevokeDelegation account
  | DelegatorBondMore account nat
  | ScheduleDelegatorBondLess account nat
  | ExecuteDelegationRequest account account
  | CancelDelegationRequest account
  | SetAutoCompound account nat nat nat
  | HotfixRemoveDelegationRequestsExitedCandidates "account list"

fun staking_body ::
    "('l, 'c) staking_config_scheme \<Rightarrow> origin \<Rightarrow> staking_call \<Rightarrow> ('l, 'z, unit) sprog" where
  "staking_body T orig (SetStakingExpectations r) = set_staking_expectations T orig r"
| "staking_body T orig (SetInflation r) = set_inflation T orig r"
| "staking_body T orig (SetParachainBondAccount a) = set_parachain_bond_account T orig a"
| "staking_body T orig (SetParachainBondReservePercent p) = set_parachain_bond_reserve_percent T orig p"
| "staking_body T orig (SetTotalSelected n) = set_total_selected T orig n"
| "staking_body T orig (SetCollatorCommission n) = set_collator_commission orig n"
| "staking_body T orig (SetBlocksPerRound n) = set_blocks_per_round T orig n"
| "staking_body T orig (JoinCandidates b n) = join_candidates T orig b n"
| "staking_body T orig (ScheduleLeaveCandidates n) = schedule_leave_candidates T orig n"
| "staking_body T orig (ExecuteLeaveCandidates c n) = execute_leave_candidates T orig c n"
| "staking_body T orig (CancelLeaveCandidates n) = cancel_leave_candidates orig n"
| "staking_body T orig GoOffline = go_offline orig"
| "staking_body T orig GoOnline = go_online orig"
| "staking_body T orig (CandidateBondMore n) = candidate_bond_more T orig n"
| "staking_body T orig (ScheduleCandidateBondLess n) = schedule_candidate_bond_less T orig n"
| "staking_body T orig (ExecuteCandidateBondLess c) = execute_candidate_bond_less T orig c"
| "staking_body T orig CancelCandidateBondLess = cancel_candidate_bond_less orig"
| "staking_body T orig (Delegate c a n m) = delegate T orig c a n m"
| "staking_body T orig (DelegateWithAutoCompound c a p n k m) =
     delegate_with_auto_compound_call T orig c a p n k m"
| "staking_body T orig ScheduleLeaveDelegators = schedule_leave_delegators T orig"
| "staking_body T orig (ExecuteLeaveDelegators d n) = execute_leave_delegators T orig d n"
| "staking_body T orig CancelLeaveDelegators = cancel_leave_delegators orig"
| "staking_body T orig (ScheduleRevokeDelegation c) = schedule_revoke_delegation T orig c"
| "staking_body T orig (DelegatorBondMore c n) = delegator_bond_more T orig c n"
| "staking_body T orig (ScheduleDelegatorBondLess c n) = schedule_delegator_bond_less T orig c n"
| "staking_body T orig (ExecuteDelegationRequest d c) = execute_delegation_request T orig d c"
| "staking_body T orig (CancelDelegationRequest c) = cancel_delegation_request orig c"
| "staking_body T orig (SetAutoCompound c v n m) = set_auto_compound_call T orig c v n m"
| "staking_body T orig (HotfixRemoveDelegationRequestsExitedCandidates cs) =
     hotfix_remove_delegation_requests_exited_candidates orig cs"

definition staking_dispatch ::
    "('l, 'c) staking_config_scheme \<Rightarrow> origin \<Rightarrow> staking_call \<Rightarrow> ('l, 'z, unit) sprog" where
  "staking_dispatch T orig call = transactional (staking_body T orig call)"

section \<open>Genesis\<close>

record staking_genesis =
  gs_candidates :: "(account \<times> nat) list"
  gs_delegations :: "(account \<times> account \<times> nat \<times> nat) list"
  gs_inflation_config :: inflation_info
  gs_collator_commission :: nat
  gs_parachain_bond_reserve_percent :: nat
  gs_blocks_per_round :: nat
  gs_num_selected_candidates :: nat

fun genesis_candidates ::
    "('l, 'c) staking_config_scheme \<Rightarrow> (account \<times> nat) list \<Rightarrow> nat \<Rightarrow> ('l, 'z, unit) sprog" where
  "genesis_candidates T [] candidate_count = ok ()"
| "genesis_candidates T ((candidate, balance) # rest) candidate_count =
     sbind (gets (stakable_free_balance T candidate)) (\<lambda>free.
     seq (ensure (free \<ge> balance) Panic)
     (sbind (attempt (join_candidates T (Signed candidate) balance candidate_count)) (\<lambda>joined.
      genesis_candidates T rest
        (if joined = None then candidate_count else saturating_add_u32 candidate_count 1))))"

text \<open>The counters are maps from accounts, with 0 for an account that has no entry.\<close>

definition count_one :: "account \<Rightarrow> (account \<Rightarrow> nat) \<Rightarrow> account \<Rightarrow> nat" where
  "count_one a f = f(a := saturating_add_u32 (f a) 1)"

fun genesis_delegations ::
    "('l, 'c) staking_config_scheme \<Rightarrow> (account \<times> account \<times> nat \<times> nat) list \<Rightarrow> (account \<Rightarrow> nat) \<Rightarrow>
     (account \<Rightarrow> nat) \<Rightarrow> (account \<Rightarrow> nat) \<Rightarrow> ('l, 'z, unit) sprog" where
  "genesis_delegations T [] cd ac dd = ok ()"
| "genesis_delegations T ((who, target, balance, percent) # rest) cd ac dd =
     sbind (gets (stakable_free_balance T who)) (\<lambda>free.
     seq (ensure (free \<ge> balance) Panic)
     (sbind (attempt (delegate_with_auto_compound_call T (Signed who) target balance percent
        (cd target) (ac target) (dd who))) (\<lambda>delegated.
      if delegated = None then genesis_delegations T rest cd ac dd
      else genesis_delegations T rest (count_one target cd)
             (if percent \<noteq> 0 then count_one target ac else ac) (count_one who dd))))"

definition staking_genesis_build ::
    "('l, 'c) staking_config_scheme \<Rightarrow> staking_genesis \<Rightarrow> ('l, 'z, unit) sprog" where
  "staking_genesis_build T g =
     seq (ensure (gs_blocks_per_round g > 0) Panic)
     (seq (modify (\<lambda>s. s\<lparr>InflationConfig := gs_inflation_config g\<rparr>))
     (seq (genesis_candidates T (gs_candidates g) 0)
     (seq (genesis_delegations T (gs_delegations g) (\<lambda>_. 0) (\<lambda>_. 0) (\<lambda>_. 0))
     (seq (modify (\<lambda>s. s\<lparr>CollatorCommission := gs_collator_commission g,
                         ParachainBondInfo :=
                           \<lparr>pbc_account = 0, pbc_percent = gs_parachain_bond_reserve_percent g\<rparr>\<rparr>))
     (seq (ensure (gs_num_selected_candidates g \<ge> MinSelectedCandidates T) Panic)
     (seq (modify (\<lambda>s. s\<lparr>TotalSelected := gs_num_selected_candidates g\<rparr>))
     (sbind (select_top_candidates T 1) (\<lambda>(v_count, _, total_staked).
      seq (modify (\<lambda>s. s\<lparr>Round := \<lparr>rd_current = 1, rd_first = 0, rd_length = gs_blocks_per_round g\<rparr>,
                          Staked := (Staked s)(1 := Total s)\<rparr>))
      (deposit_staking_event (NewRound 0 1 v_count total_staked))))))))))"

end
