(* ===== verification/Staking_Lists.thy ===== *)
theory Staking_Lists
  imports Staking_Types
begin

text \<open>
  The two list structures of the pallet \<^verbatim>\<open>parachain-staking\<close>. The ordered set of \<^verbatim>\<open>set.rs\<close> is an interface,
  \<open>ordered_set\<close>, for every comparison that reads a key: it refines a partial map from keys to elements.
  It is interpreted for the bonds, which are compared by their owner, and for the accounts. The lists
  of delegations of a candidate are in descending order of their amounts; inserting into one is shown
  to be the stable insertion.
\<close>

section \<open>Ordered sets refine maps\<close>

locale ordered_set = sorted_vector
begin

lemma ordered_insert: "ordered xs \<Longrightarrow> ordered (fst (os_insert cmp v xs))"
  by (cases "binary_search_by (\<lambda>x. cmp x v) xs") (simp_all add: os_insert_def ordered_insert_at)

lemma set_insert:
  assumes "ordered xs"
  shows "set (fst (os_insert cmp v xs)) = (if key v \<in> key ` set xs then set xs else insert v (set xs))"
    and "snd (os_insert cmp v xs) \<longleftrightarrow> key v \<notin> key ` set xs"
  using search_missing(3) [OF assms, of v] search_found_key [of v xs]
  by (cases "binary_search_by (\<lambda>x. cmp x v) xs"; simp add: os_insert_def set_insert_at)+

lemma ordered_remove: "ordered xs \<Longrightarrow> ordered (fst (os_remove cmp v xs))"
  by (cases "binary_search_by (\<lambda>x. cmp x v) xs") (simp_all add: os_remove_def ordered_remove_at)

lemma set_remove:
  assumes "ordered xs"
  shows "set (fst (os_remove cmp v xs)) = {x \<in> set xs. key x \<noteq> key v}"
    and "snd (os_remove cmp v xs) \<longleftrightarrow> key v \<in> key ` set xs"
proof -
  have "set (fst (os_remove cmp v xs)) = {x \<in> set xs. key x \<noteq> key v} \<and>
    (snd (os_remove cmp v xs) \<longleftrightarrow> key v \<in> key ` set xs)"
  proof (cases "binary_search_by (\<lambda>x. cmp x v) xs")
    case (Inl i)
    then have "key v \<notin> key ` set xs" by (rule search_missing(3) [OF assms])
    moreover from this have "\<forall>x\<in>set xs. key x \<noteq> key v" by (metis imageI)
    then have "{x \<in> set xs. key x \<noteq> key v} = set xs" by blast
    ultimately show ?thesis using Inl by (simp add: os_remove_def)
  next
    case (Inr i)
    with set_remove_at [OF assms Inr] search_found_key [OF Inr] show ?thesis by (simp add: os_remove_def)
  qed
  then show "set (fst (os_remove cmp v xs)) = {x \<in> set xs. key x \<noteq> key v}"
    and "snd (os_remove cmp v xs) \<longleftrightarrow> key v \<in> key ` set xs" by simp_all
qed

lemma contains_iff: "ordered xs \<Longrightarrow> os_contains cmp v xs \<longleftrightarrow> key v \<in> key ` set xs"
  using search_missing(3) [of xs v] search_found_key [of v xs]
  by (cases "binary_search_by (\<lambda>x. cmp x v) xs") (simp_all add: os_contains_def)

lemma elem_of_insert:
  assumes "ordered xs"
  shows "elem_of (fst (os_insert cmp v xs)) =
    (if elem_of xs (key v) = None then (elem_of xs)(key v \<mapsto> v) else elem_of xs)"
proof (rule elem_of_eqI [OF ordered_insert [OF assms]])
  have "key x = key v \<Longrightarrow> x \<in> set xs \<Longrightarrow> key v \<in> key ` set xs" for x by (metis imageI)
  then show "(if elem_of xs (key v) = None then (elem_of xs)(key v \<mapsto> v) else elem_of xs) k = Some x \<longleftrightarrow>
      x \<in> set (fst (os_insert cmp v xs)) \<and> key x = k" for k x
    by (auto simp: set_insert(1) [OF assms] elem_of_iff [OF assms] elem_of_None)
qed

lemma elem_of_remove:
  assumes "ordered xs"
  shows "elem_of (fst (os_remove cmp v xs)) = (elem_of xs)(key v := None)"
  by (rule elem_of_eqI [OF ordered_remove [OF assms]])
     (auto simp: set_remove(1) [OF assms] elem_of_iff [OF assms])

lemma set_dedup: "key ` set (dedup cmp xs) = key ` set xs \<and> set (dedup cmp xs) \<subseteq> set xs"
proof (induction "length xs" arbitrary: xs)
  case (Suc n)
  show ?case
  proof (cases xs)
    case (Cons x ys)
    show ?thesis
    proof (cases ys)
      case (Cons y zs)
      with \<open>xs = x # ys\<close> Suc.hyps(1) [of "x # zs"] Suc.hyps(1) [of "y # zs"] Suc.hyps(2)
      show ?thesis by (auto simp: cmp_key)
    qed (simp add: \<open>xs = x # ys\<close>)
  qed simp
qed simp

lemma ordered_dedup: "sorted_wrt (\<lambda>a b. key a \<le> key b) xs \<Longrightarrow> ordered (dedup cmp xs)"
proof (induction "length xs" arbitrary: xs)
  case (Suc n)
  show ?case
  proof (cases xs)
    case (Cons x ys)
    show ?thesis
    proof (cases ys)
      case (Cons y zs)
      have sorted: "sorted_wrt (\<lambda>a b. key a \<le> key b) (x # zs)" "sorted_wrt (\<lambda>a b. key a \<le> key b) (y # zs)"
        "key x \<le> key y" "\<forall>z\<in>set zs. key y \<le> key z"
        using Suc.prems \<open>xs = x # ys\<close> Cons by auto
      have n: "n = length (x # zs)" "n = length (y # zs)" using Suc.hyps(2) \<open>xs = x # ys\<close> Cons by auto
      have "key x < key w" if "key x \<noteq> key y" "w \<in> set (dedup cmp (y # zs))" for w
      proof -
        have "w \<in> set (y # zs)" using that(2) set_dedup by blast
        with sorted(3,4) that(1) show ?thesis by auto
      qed
      then show ?thesis
        using Suc.hyps(1) [OF n(1) sorted(1)] Suc.hyps(1) [OF n(2) sorted(2)] \<open>xs = x # ys\<close> Cons
        by (simp add: cmp_key)
    qed (simp add: \<open>xs = x # ys\<close>)
  qed simp
qed simp

lemma ordered_from: "ordered (os_from cmp xs)"
  unfolding os_from_def
  by (rule ordered_dedup) (use sorted_sort_by [of xs] in \<open>simp add: cmp_key not_less\<close>)

lemma keys_from: "key ` set (os_from cmp xs) = key ` set xs"
  unfolding os_from_def using set_dedup set_sort_by by simp

end

interpretation bonds: ordered_set bond_cmp bd_owner
  by unfold_locales (simp add: bond_cmp_def)

interpretation accounts: ordered_set nat_cmp "\<lambda>a. a"
  by unfold_locales simp

text \<open>The map from owners to amounts that a list of bonds stands for.\<close>

definition amount_of :: "bond list \<Rightarrow> account \<rightharpoonup> nat" where
  "amount_of xs = map_of (map (\<lambda>b. (bd_owner b, bd_amount b)) xs)"

definition owners_ordered :: "bond list \<Rightarrow> bool" where
  "owners_ordered xs \<longleftrightarrow> sorted_wrt (\<lambda>a b. bd_owner a < bd_owner b) xs"

lemma amount_of_elem: "amount_of xs a = map_option bd_amount (bonds.elem_of xs a)"
  by (induction xs) (auto simp: amount_of_def)

lemma owners_ordered_insert: "owners_ordered xs \<Longrightarrow> owners_ordered (fst (os_insert bond_cmp b xs))"
  and owners_ordered_remove: "owners_ordered xs \<Longrightarrow> owners_ordered (fst (os_remove bond_cmp b xs))"
  and owners_ordered_from: "owners_ordered (os_from bond_cmp xs)"
  unfolding owners_ordered_def by (rule bonds.ordered_insert bonds.ordered_remove bonds.ordered_from; assumption?)+

lemma amount_of_insert:
  assumes "owners_ordered xs"
  shows "amount_of (fst (os_insert bond_cmp b xs)) =
      (if amount_of xs (bd_owner b) = None then (amount_of xs)(bd_owner b \<mapsto> bd_amount b) else amount_of xs)"
    and "snd (os_insert bond_cmp b xs) \<longleftrightarrow> amount_of xs (bd_owner b) = None"
  using bonds.elem_of_insert [of xs b] bonds.set_insert(2) [of xs b] assms
  by (auto simp: fun_eq_iff amount_of_elem owners_ordered_def bonds.elem_of_None)

lemma amount_of_remove:
  assumes "owners_ordered xs"
  shows "amount_of (fst (os_remove bond_cmp b xs)) = (amount_of xs)(bd_owner b := None)"
    and "snd (os_remove bond_cmp b xs) \<longleftrightarrow> amount_of xs (bd_owner b) \<noteq> None"
  using bonds.elem_of_remove [of xs b] bonds.set_remove(2) [of xs b] assms
  by (auto simp: fun_eq_iff amount_of_elem owners_ordered_def bonds.elem_of_None)

lemma amount_of_None: "amount_of xs a = None \<longleftrightarrow> a \<notin> bd_owner ` set xs"
  by (simp add: amount_of_elem bonds.elem_of_None)

lemma amount_of_contains: "owners_ordered xs \<Longrightarrow> os_contains bond_cmp b xs \<longleftrightarrow> amount_of xs (bd_owner b) \<noteq> None"
  by (simp add: amount_of_None owners_ordered_def bonds.contains_iff)

lemma dom_amount_of: "dom (amount_of xs) = bd_owner ` set xs"
  using amount_of_None [of xs] by (auto simp: dom_def)

lemma dom_amount_of_from: "dom (amount_of (os_from bond_cmp xs)) = bd_owner ` set xs"
  by (simp add: dom_amount_of bonds.keys_from)

section \<open>Delegations in descending order\<close>

definition amounts_descending :: "bond list \<Rightarrow> bool" where
  "amounts_descending ds \<longleftrightarrow> sorted_wrt (\<lambda>a b. bd_amount a \<ge> bd_amount b) ds"

definition sum_of :: "bond list \<Rightarrow> nat" where
  "sum_of ds = sum_list (map bd_amount ds)"

text \<open>The reference: the new delegation goes behind all delegations that are not smaller.\<close>

definition insert_descending :: "bond \<Rightarrow> bond list \<Rightarrow> bond list" where
  "insert_descending b ds =
     takeWhile (\<lambda>x. bd_amount x \<ge> bd_amount b) ds @ b # dropWhile (\<lambda>x. bd_amount x \<ge> bd_amount b) ds"

lemma insert_at_split:
  assumes "i \<le> length ds" "\<forall>x\<in>set (take i ds). bd_amount x \<ge> bd_amount b"
    "i < length ds \<Longrightarrow> bd_amount (ds ! i) < bd_amount b"
  shows "insert_at i b ds = insert_descending b ds"
proof -
  let ?P = "\<lambda>x. bd_amount x \<ge> bd_amount b"
  have drop: "takeWhile ?P (drop i ds) = [] \<and> dropWhile ?P (drop i ds) = drop i ds"
  proof (cases "i < length ds")
    case True
    with assms(3) show ?thesis by (simp add: Cons_nth_drop_Suc [symmetric])
  qed simp
  have "takeWhile ?P (take i ds @ drop i ds) = take i ds" "dropWhile ?P (take i ds @ drop i ds) = drop i ds"
    using assms(2) drop by (simp_all add: takeWhile_append2 dropWhile_append2 del: append_take_drop_id)
  then show ?thesis by (simp add: insert_descending_def insert_at_def)
qed

lemma insert_after_equal_eq:
  assumes "amounts_descending ds" "i \<le> length ds" "ds \<noteq> []" "\<forall>x\<in>set (take i ds). bd_amount x \<ge> bd_amount b"
    "0 < i" "bd_amount (ds ! (i - 1)) = bd_amount b"
  shows "insert_after_equal b ds i = insert_descending b ds"
  using assms
proof (induction b ds i rule: insert_after_equal.induct)
  case (1 b ds i)
  show ?case
  proof (cases "i \<le> length ds - 1")
    case False
    then have "i = length ds" using "1.prems"(2) by simp
    then show ?thesis using insert_at_split [of i ds b] "1.prems"(4) False
      by (subst insert_after_equal.simps) (simp add: insert_at_def)
  next
    case True
    then have i: "i < length ds" using "1.prems"(3) by (cases ds) auto
    show ?thesis
    proof (cases "bd_amount (ds ! i) = bd_amount b")
      case eq: True
      have "insert_after_equal b ds (Suc i) = insert_descending b ds"
        using "1.IH" [OF True eq] "1.prems" i eq by (simp add: take_Suc_conv_app_nth)
      then show ?thesis using True eq by (subst insert_after_equal.simps) simp
    next
      case neq: False
      have "bd_amount (ds ! (i - 1)) \<ge> bd_amount (ds ! i)"
        using "1.prems"(1,5) i by (simp add: amounts_descending_def sorted_wrt_iff_nth_less)
      then have "bd_amount (ds ! i) < bd_amount b" using neq "1.prems"(6) by simp
      then show ?thesis using insert_at_split [of i ds b] i "1.prems"(4) True neq
        by (subst insert_after_equal.simps) simp
    qed
  qed
qed

lemma descending_nth:
  "amounts_descending ds \<Longrightarrow> i \<le> j \<Longrightarrow> j < length ds \<Longrightarrow> bd_amount (ds ! j) \<le> bd_amount (ds ! i)"
  by (cases "i = j") (auto simp: amounts_descending_def sorted_wrt_iff_nth_less)

lemma descending_searchable:
  assumes "amounts_descending ds"
  shows "searchable (\<lambda>x. nat_cmp n (bd_amount x)) ds"
  unfolding searchable_def nat_cmp_simps using descending_nth [OF assms] by (meson le_less_trans less_le_trans)

lemma insert_sorted_eq:
  assumes "amounts_descending (dl_delegations d)"
  shows "insert_sorted_greatest_to_least b d =
    \<lparr>dl_delegations = insert_descending b (dl_delegations d),
     dl_total = saturating_add (dl_total d) (bd_amount b)\<rparr>"
proof (cases "dl_delegations d \<noteq> [] \<and> bd_amount (dl_delegations d ! (length (dl_delegations d) - 1)) = bd_amount b")
  case True
  let ?ds = "dl_delegations d"
  have "\<forall>x\<in>set ?ds. bd_amount x \<ge> bd_amount b"
  proof
    fix x assume "x \<in> set ?ds"
    then obtain i where "i < length ?ds" "?ds ! i = x" by (auto simp: in_set_conv_nth)
    then show "bd_amount x \<ge> bd_amount b"
      using descending_nth [OF assms, of i "length ?ds - 1"] True by auto
  qed
  with True insert_at_split [of "length ?ds" ?ds b] show ?thesis
    by (simp add: insert_sorted_greatest_to_least_def Let_def insert_at_def)
next
  case False
  let ?ds = "dl_delegations d" and ?f = "\<lambda>x. nat_cmp (bd_amount b) (bd_amount x)"
  show ?thesis
  proof (cases "binary_search_by ?f ?ds")
    case (Inl i)
    note m = binary_search_missing [OF Inl descending_searchable [OF assms]]
    have "insert_at i b ?ds = insert_descending b ?ds"
    proof (rule insert_at_split)
      show "\<forall>x\<in>set (take i ?ds). bd_amount x \<ge> bd_amount b" using m(2) by auto
      show "bd_amount (?ds ! i) < bd_amount b" if "i < length ?ds"
        using m(3) that by (simp add: Cons_nth_drop_Suc [symmetric])
    qed (rule m(1))
    with Inl False show ?thesis by (auto simp: insert_sorted_greatest_to_least_def Let_def)
  next
    case (Inr i)
    then have i: "i < length ?ds" "bd_amount (?ds ! i) = bd_amount b" using binary_search_found [OF Inr] by auto
    have "\<forall>x\<in>set (take (Suc i) ?ds). bd_amount x \<ge> bd_amount b"
    proof
      fix x assume "x \<in> set (take (Suc i) ?ds)"
      then obtain j where "j \<le> i" "?ds ! j = x" using i(1) by (auto simp: in_set_conv_nth less_Suc_eq_le)
      then show "bd_amount x \<ge> bd_amount b" using descending_nth [OF assms, of j i] i by auto
    qed
    then have "insert_after_equal b ?ds (Suc i) = insert_descending b ?ds"
      using i by (intro insert_after_equal_eq [OF assms]) auto
    with Inr False show ?thesis by (auto simp: insert_sorted_greatest_to_least_def Let_def)
  qed
qed

lemma mset_insert_descending [simp]: "mset (insert_descending b ds) = add_mset b (mset ds)"
  unfolding insert_descending_def
  by (metis mset.simps(2) mset_append takeWhile_dropWhile_id union_mset_add_mset_right)

lemma set_insert_descending [simp]: "set (insert_descending b ds) = insert b (set ds)"
  by (metis mset_insert_descending set_mset_add_mset_insert set_mset_mset)

lemma length_insert_descending [simp]: "length (insert_descending b ds) = Suc (length ds)"
  by (metis mset_insert_descending size_add_mset size_mset)

lemma insert_descending_Cons:
  "insert_descending b (x # ds) =
     (if bd_amount x \<ge> bd_amount b then x # insert_descending b ds else b # x # ds)"
  by (simp add: insert_descending_def)

lemma descending_Cons:
  "amounts_descending (x # ds) \<longleftrightarrow> (\<forall>y\<in>set ds. bd_amount y \<le> bd_amount x) \<and> amounts_descending ds"
  by (auto simp: amounts_descending_def)

lemma descending_append:
  "amounts_descending (xs @ ys) \<longleftrightarrow> amounts_descending xs \<and> amounts_descending ys \<and>
     (\<forall>x\<in>set xs. \<forall>y\<in>set ys. bd_amount y \<le> bd_amount x)"
  by (auto simp: amounts_descending_def sorted_wrt_append)

lemma descending_Nil [simp]: "amounts_descending []"
  by (simp add: amounts_descending_def)

lemma descending_insert: "amounts_descending ds \<Longrightarrow> amounts_descending (insert_descending b ds)"
proof (induction ds)
  case (Cons x ds)
  then show ?case by (auto simp: insert_descending_Cons descending_Cons)
qed (simp add: insert_descending_def descending_Cons)

abbreviation amount_desc :: "bond \<Rightarrow> bond \<Rightarrow> ordering" where
  "amount_desc \<equiv> \<lambda>a b. nat_cmp (bd_amount b) (bd_amount a)"

interpretation by_amount: comparator amount_desc
  by unfold_locales auto

lemma descending_sort [simp]: "amounts_descending (sort_by amount_desc ds)"
  using by_amount.sorted_sort_by [of ds] by (simp add: amounts_descending_def not_less)

text \<open>Inserting is appending followed by the stable sort.\<close>

lemma sort_by_snoc: "amounts_descending ds \<Longrightarrow> sort_by amount_desc (ds @ [b]) = insert_descending b ds"
proof (induction ds)
  case Nil
  then show ?case by (simp add: sort_by_def insert_descending_def)
next
  case (Cons x ds)
  then have IH: "sort_by amount_desc (ds @ [b]) = insert_descending b ds" by (simp add: descending_Cons)
  have "sort_by amount_desc ((x # ds) @ [b]) = insert_by amount_desc x (insert_descending b ds)"
    using IH by (simp add: sort_by_def)
  also have "\<dots> = insert_descending b (x # ds)"
  proof (cases "bd_amount x \<ge> bd_amount b")
    case True
    have "insert_by amount_desc x zs = x # zs" if "\<forall>z\<in>set zs. bd_amount z \<le> bd_amount x" for zs
      using that by (cases zs) auto
    with True Cons.prems show ?thesis by (simp add: insert_descending_Cons descending_Cons)
  next
    case False
    have "insert_by amount_desc x ds = x # ds" using Cons.prems by (cases ds) (auto simp: descending_Cons)
    moreover have "insert_descending b ds = b # ds"
      using False Cons.prems by (cases ds) (auto simp: insert_descending_def descending_Cons)
    ultimately show ?thesis using False by (simp add: insert_descending_Cons)
  qed
  finally show ?case .
qed

text \<open>
  C32. The ordered set of bonds refines a partial map from owners to amounts. On a list that is ordered by
  owner, \<^verbatim>\<open>insert\<close> adds the bond exactly when its owner has none and keeps the old bond otherwise, \<^verbatim>\<open>remove\<close>
  deletes the owner's bond whatever its amount, \<^verbatim>\<open>contains\<close> is membership, the Boolean results say whether
  the map changed, and every operation, as well as \<^verbatim>\<open>from\<close> on an arbitrary vector, gives an ordered list.
\<close>
theorem ordered_set_refines_map:
  assumes "owners_ordered xs"
  shows "owners_ordered (fst (os_insert bond_cmp b xs)) \<and>
      amount_of (fst (os_insert bond_cmp b xs)) =
        (if amount_of xs (bd_owner b) = None then (amount_of xs)(bd_owner b \<mapsto> bd_amount b) else amount_of xs) \<and>
      (snd (os_insert bond_cmp b xs) \<longleftrightarrow> amount_of xs (bd_owner b) = None) \<and>
      owners_ordered (fst (os_remove bond_cmp b xs)) \<and>
      amount_of (fst (os_remove bond_cmp b xs)) = (amount_of xs)(bd_owner b := None) \<and>
      (snd (os_remove bond_cmp b xs) \<longleftrightarrow> amount_of xs (bd_owner b) \<noteq> None) \<and>
      (os_contains bond_cmp b xs \<longleftrightarrow> amount_of xs (bd_owner b) \<noteq> None) \<and>
      owners_ordered (os_from bond_cmp ys) \<and> dom (amount_of (os_from bond_cmp ys)) = bd_owner ` set ys"
  using assms
  by (intro conjI owners_ordered_insert owners_ordered_remove owners_ordered_from amount_of_insert
      amount_of_remove amount_of_contains dom_amount_of_from)

theorem ordered_set_refines_map_witness:
  "amount_of (fst (os_insert bond_cmp \<lparr>bd_owner = 5, bd_amount = 7\<rparr> [\<lparr>bd_owner = 3, bd_amount = 1\<rparr>])) 5 = Some 7"
  using ordered_set_refines_map [of "[\<lparr>bd_owner = 3, bd_amount = 1\<rparr>]" "\<lparr>bd_owner = 5, bd_amount = 7\<rparr>"]
  by (simp add: owners_ordered_def amount_of_def)

text \<open>
  C33. The insertion into a list of delegations, which searches it by bisection and then steps behind the
  delegations of the same amount, equals appending the delegation and sorting the list again with the
  stable sort: of two delegations of the same amount the older one stays in front. The list stays in
  descending order and the total grows by the amount.
\<close>
theorem insert_sorted_is_stable_sort:
  assumes "amounts_descending (dl_delegations d)" "dl_total d + bd_amount b \<le> u128_max"
  shows "insert_sorted_greatest_to_least b d =
        sort_greatest_to_least \<lparr>dl_delegations = dl_delegations d @ [b], dl_total = dl_total d + bd_amount b\<rparr> \<and>
      amounts_descending (dl_delegations (insert_sorted_greatest_to_least b d))"
  using assms
  by (simp add: insert_sorted_eq sort_greatest_to_least_def sort_by_snoc saturating_add_exact descending_insert)

theorem insert_sorted_is_stable_sort_witness:
  "amounts_descending (dl_delegations (insert_sorted_greatest_to_least \<lparr>bd_owner = 9, bd_amount = 4\<rparr>
     \<lparr>dl_delegations = [\<lparr>bd_owner = 1, bd_amount = 6\<rparr>, \<lparr>bd_owner = 2, bd_amount = 4\<rparr>], dl_total = 10\<rparr>))"
  by (rule insert_sorted_is_stable_sort [THEN conjunct2]) (simp_all add: amounts_descending_def u128_max_def)

end
