(* ===== verification/Staking_Candidate_Props.thy ===== *)
theory Staking_Candidate_Props
  imports Staking_Candidate Staking_Lists
begin

text \<open>
  The delegations of one candidate. \<open>candidate_ok\<close> says what the two lists of delegations and the
  summary in \<^verbatim>\<open>CandidateMetadata\<close> have to do with each other; the lemmas show for every operation of
  \<^verbatim>\<open>types.rs\<close> on a delegation that is there, under \<open>candidate_ok\<close>, that it succeeds, which bonds it
  changes, and that \<open>candidate_ok\<close> holds again. The bonds of a candidate are read as a map from
  delegators to amounts.
\<close>

section \<open>The invariant of a candidate\<close>

definition limits_ok :: "('l, 'c) staking_config_scheme \<Rightarrow> bool" where
  "limits_ok T \<longleftrightarrow> 0 < MaxTopDelegationsPerCandidate T \<and> 0 < MaxBottomDelegationsPerCandidate T \<and>
     MaxTopDelegationsPerCandidate T + MaxBottomDelegationsPerCandidate T \<le> u32_max \<and>
     0 < MinDelegation T \<and> 0 < MinDelegatorStk T"

definition lists_ok ::
    "('l, 'c) staking_config_scheme \<Rightarrow> bond list \<Rightarrow> bond list \<Rightarrow> bool" where
  "lists_ok T t b \<longleftrightarrow>
     amounts_descending (t @ b) \<and> distinct (map bd_owner (t @ b)) \<and>
     length t \<le> MaxTopDelegationsPerCandidate T \<and> length b \<le> MaxBottomDelegationsPerCandidate T \<and>
     (b \<noteq> [] \<longrightarrow> length t = MaxTopDelegationsPerCandidate T)"

definition candidate_ok ::
    "('l, 'c) staking_config_scheme \<Rightarrow> candidate_metadata \<Rightarrow> delegations \<Rightarrow> delegations \<Rightarrow> bool" where
  "candidate_ok T c t b \<longleftrightarrow>
     lists_ok T (dl_delegations t) (dl_delegations b) \<and>
     ci_bond c + sum_of (dl_delegations t @ dl_delegations b) \<le> u128_max \<and>
     dl_total t = sum_of (dl_delegations t) \<and>
     ci_total_counted c = ci_bond c + sum_of (dl_delegations t) \<and>
     ci_delegation_count c = length (dl_delegations t) + length (dl_delegations b) \<and>
     ci_lowest_top_delegation_amount c = lowest_delegation_amount t \<and>
     ci_top_capacity c = top_capacity T t \<and>
     ci_lowest_bottom_delegation_amount c = lowest_delegation_amount b \<and>
     ci_highest_bottom_delegation_amount c = highest_delegation_amount b \<and>
     ci_bottom_capacity c = bottom_capacity T b"

text \<open>What an operation on the delegations leaves alone.\<close>

definition same_candidate :: "candidate_metadata \<Rightarrow> candidate_metadata \<Rightarrow> bool" where
  "same_candidate c c' \<longleftrightarrow>
     ci_bond c' = ci_bond c \<and> ci_request c' = ci_request c \<and> ci_status c' = ci_status c"

text \<open>The bonds of a candidate by delegator, and the writes of an operation to the storage.\<close>

abbreviation bonds_by :: "delegations \<Rightarrow> delegations \<Rightarrow> account \<rightharpoonup> nat" where
  "bonds_by t b \<equiv> amount_of (dl_delegations t @ dl_delegations b)"

definition pool_with :: "account \<Rightarrow> nat \<Rightarrow> bond list \<Rightarrow> bond list" where
  "pool_with a n p =
     fst (os_insert bond_cmp \<lparr>bd_owner = a, bd_amount = n\<rparr> (fst (os_remove bond_cmp (bond_from_owner a) p)))"

definition pool_after :: "account \<Rightarrow> candidate_metadata \<Rightarrow> candidate_metadata \<Rightarrow> bond list \<Rightarrow> bond list" where
  "pool_after a c c' p =
     (if ci_total_counted c \<noteq> ci_total_counted c' \<and> candidate_is_active c'
      then pool_with a (ci_total_counted c') p else p)"

definition store_lists ::
    "account \<Rightarrow> delegations \<Rightarrow> delegations \<Rightarrow> bond list \<Rightarrow> ('l, 'z) staking_state_scheme \<Rightarrow>
     ('l, 'z) staking_state_scheme" where
  "store_lists a t b p s =
     s\<lparr>TopDelegations := (TopDelegations s)(a \<mapsto> t), BottomDelegations := (BottomDelegations s)(a \<mapsto> b),
       CandidatePool := p\<rparr>"

definition has_lists ::
    "account \<Rightarrow> delegations \<Rightarrow> delegations \<Rightarrow> ('l, 'z) staking_state_scheme \<Rightarrow> bool" where
  "has_lists a t b s \<longleftrightarrow> TopDelegations s a = Some t \<and> BottomDelegations s a = Some b"

lemma store_lists_simps [simp]:
  "TopDelegations (store_lists a t b p s) = (TopDelegations s)(a \<mapsto> t)"
  "BottomDelegations (store_lists a t b p s) = (BottomDelegations s)(a \<mapsto> b)"
  "CandidatePool (store_lists a t b p s) = p"
  "CandidateInfo (store_lists a t b p s) = CandidateInfo s"
  "DelegatorState (store_lists a t b p s) = DelegatorState s"
  "DelegationScheduledRequests (store_lists a t b p s) = DelegationScheduledRequests s"
  "AutoCompoundingDelegations (store_lists a t b p s) = AutoCompoundingDelegations s"
  "Total (store_lists a t b p s) = Total s" "ext (store_lists a t b p s) = ext s"
  "Round (store_lists a t b p s) = Round s" "block_number (store_lists a t b p s) = block_number s"
  by (simp_all add: store_lists_def)

lemma update_active_eq: "update_active a n s = (Inr (), s\<lparr>CandidatePool := pool_with a n (CandidatePool s)\<rparr>)"
  by (simp add: update_active_def pool_with_def modify_def Let_def)

section \<open>Lists of bonds with distinct owners\<close>

lemma amount_of_mset:
  assumes "mset xs = mset ys" "distinct (map bd_owner xs)"
  shows "amount_of xs = amount_of ys"
proof -
  have m: "mset (map bd_owner xs) = mset (map bd_owner ys)" by (metis assms(1) mset_map)
  then have d: "distinct (map bd_owner ys)" using assms(2) by (metis mset_eq_imp_distinct_iff)
  have "set (map (\<lambda>b. (bd_owner b, bd_amount b)) xs) = set (map (\<lambda>b. (bd_owner b, bd_amount b)) ys)"
    using assms(1) by (metis mset_map set_mset_mset)
  then show ?thesis unfolding amount_of_def using assms(2) d
    by (intro map_of_inject_set [THEN iffD2]) (simp_all add: comp_def)
qed

lemma bond_mem: "\<lparr>bd_owner = a, bd_amount = n\<rparr> \<in> set xs \<longleftrightarrow> (\<exists>x\<in>set xs. bd_owner x = a \<and> bd_amount x = n)"
proof
  assume "\<exists>x\<in>set xs. bd_owner x = a \<and> bd_amount x = n"
  then obtain x :: bond where "x \<in> set xs" "bd_owner x = a" "bd_amount x = n" by blast
  moreover from this have "x = \<lparr>bd_owner = a, bd_amount = n\<rparr>" by simp
  ultimately show "\<lparr>bd_owner = a, bd_amount = n\<rparr> \<in> set xs" by simp
qed (auto intro: bexI [of _ "\<lparr>bd_owner = a, bd_amount = n\<rparr>"])

lemma amount_of_Some:
  "distinct (map bd_owner xs) \<Longrightarrow> amount_of xs a = Some n \<longleftrightarrow> \<lparr>bd_owner = a, bd_amount = n\<rparr> \<in> set xs"
  unfolding bond_mem amount_of_def by (subst map_of_eq_Some_iff) (auto simp: comp_def)

lemma amount_of_Cons: "amount_of (b # xs) = (amount_of xs)(bd_owner b \<mapsto> bd_amount b)"
  by (simp add: amount_of_def)

lemma sum_of_append [simp]: "sum_of (xs @ ys) = sum_of xs + sum_of ys"
  and sum_of_Cons [simp]: "sum_of (b # xs) = bd_amount b + sum_of xs"
  and sum_of_Nil [simp]: "sum_of [] = 0"
  by (simp_all add: sum_of_def)

lemma sum_of_mset: "mset xs = mset ys \<Longrightarrow> sum_of xs = sum_of ys"
  unfolding sum_of_def by (metis mset_map sum_mset_sum_list)

lemma sum_of_insert_descending [simp]: "sum_of (insert_descending b ds) = bd_amount b + sum_of ds"
  using sum_of_mset [of "insert_descending b ds" "b # ds"] by simp

lemma distinct_split:
  assumes "distinct (map bd_owner xs)" "xs = us @ b # vs"
  shows "\<forall>x\<in>set us \<union> set vs. bd_owner x \<noteq> bd_owner b"
proof -
  have "bd_owner b \<notin> bd_owner ` (set us \<union> set vs)" using assms by (auto simp: image_Un)
  then show ?thesis by (metis imageI)
qed

lemma without_owner_split:
  assumes "distinct (map bd_owner xs)" "b \<in> set xs"
  shows "mset xs = add_mset b (mset (without_owner (bd_owner b) xs))"
    and "last_bond_of (bd_owner b) xs = Some b"
proof -
  obtain us vs where xs: "xs = us @ b # vs" using assms(2) by (meson split_list)
  have "\<forall>x\<in>set us \<union> set vs. bd_owner x \<noteq> bd_owner b" by (rule distinct_split [OF assms(1) xs])
  then have f: "filter (\<lambda>x. bd_owner x \<noteq> bd_owner b) us = us" "filter (\<lambda>x. bd_owner x \<noteq> bd_owner b) vs = vs"
    "filter (\<lambda>x. bd_owner x = bd_owner b) us = []" "filter (\<lambda>x. bd_owner x = bd_owner b) vs = []"
    by (auto simp: filter_id_conv filter_empty_conv)
  then show "mset xs = add_mset b (mset (without_owner (bd_owner b) xs))"
    by (simp add: xs without_owner_def)
  show "last_bond_of (bd_owner b) xs = Some b" by (simp add: xs last_bond_of_def f)
qed

lemma set_without_owner [simp]: "set (without_owner a xs) = {x \<in> set xs. bd_owner x \<noteq> a}"
  by (auto simp: without_owner_def)

lemma descending_without_owner: "amounts_descending xs \<Longrightarrow> amounts_descending (without_owner a xs)"
  by (simp add: amounts_descending_def without_owner_def sorted_wrt_filter)

lemma last_bond_of_None: "last_bond_of a xs = None \<longleftrightarrow> a \<notin> bd_owner ` set xs"
proof -
  have "last_bond_of a xs = None \<longleftrightarrow> filter (\<lambda>b. bd_owner b = a) xs = []"
    unfolding last_bond_of_def by (cases "filter (\<lambda>b. bd_owner b = a) xs") auto
  then show ?thesis by (auto simp: filter_empty_conv)
qed

lemma length_without_owner:
  assumes "distinct (map bd_owner xs)" "b \<in> set xs"
  shows "Suc (length (without_owner (bd_owner b) xs)) = length xs"
  using without_owner_split(1) [OF assms] by (metis size_add_mset size_mset)

lemma change_bond_split:
  assumes "distinct (map bd_owner xs)" "b \<in> set xs"
  shows "mset (change_bond (bd_owner b) f xs) =
    add_mset (b\<lparr>bd_amount := f (bd_amount b)\<rparr>) (mset (without_owner (bd_owner b) xs))"
proof -
  obtain us vs where xs: "xs = us @ b # vs" using assms(2) by (meson split_list)
  have o: "\<forall>x\<in>set us \<union> set vs. bd_owner x \<noteq> bd_owner b" by (rule distinct_split [OF assms(1) xs])
  then have "change_bond (bd_owner b) f us = us" "change_bond (bd_owner b) f vs = vs"
    "without_owner (bd_owner b) us = us" "without_owner (bd_owner b) vs = vs"
    by (auto simp: change_bond_def without_owner_def filter_id_conv intro!: map_idI)
  then show ?thesis by (simp add: xs change_bond_def without_owner_def)
qed

lemma has_bond_iff: "has_bond a xs \<longleftrightarrow> a \<in> bd_owner ` set xs"
  by (auto simp: has_bond_def)

lemma mset_eq_owners:
  "mset xs = mset ys \<Longrightarrow> distinct (map bd_owner xs) \<longleftrightarrow> distinct (map bd_owner ys)"
  by (metis mset_eq_imp_distinct_iff mset_map)

lemma mset_remove_bond:
  assumes "mset xs = add_mset x (mset ys)" "distinct (map bd_owner xs)"
  shows "distinct (map bd_owner ys)" "bd_owner x \<notin> bd_owner ` set ys"
    "amount_of ys = (amount_of xs)(bd_owner x := None)" "sum_of xs = bd_amount x + sum_of ys"
proof -
  have m: "mset xs = mset (x # ys)" using assms(1) by simp
  then have "distinct (map bd_owner (x # ys))" using assms(2) mset_eq_owners by blast
  then show d: "distinct (map bd_owner ys)" and o: "bd_owner x \<notin> bd_owner ` set ys" by auto
  have "amount_of xs = amount_of (x # ys)" by (rule amount_of_mset [OF m assms(2)])
  moreover have "amount_of ys (bd_owner x) = None" using o by (simp add: amount_of_None)
  ultimately show "amount_of ys = (amount_of xs)(bd_owner x := None)" by (auto simp: amount_of_Cons)
  show "sum_of xs = bd_amount x + sum_of ys" using sum_of_mset [OF m] by simp
qed

lemma mset_add_bond:
  assumes "mset ys = add_mset x (mset xs)" "distinct (map bd_owner xs)" "bd_owner x \<notin> bd_owner ` set xs"
  shows "distinct (map bd_owner ys)" "amount_of ys = (amount_of xs)(bd_owner x \<mapsto> bd_amount x)"
    "sum_of ys = bd_amount x + sum_of xs"
proof -
  have m: "mset ys = mset (x # xs)" using assms(1) by simp
  have d: "distinct (map bd_owner (x # xs))" using assms(2,3) by simp
  then show d': "distinct (map bd_owner ys)" using mset_eq_owners [OF m] by blast
  show "amount_of ys = (amount_of xs)(bd_owner x \<mapsto> bd_amount x)"
    using amount_of_mset [OF m d'] by (simp add: amount_of_Cons)
  show "sum_of ys = bd_amount x + sum_of xs" using sum_of_mset [OF m] by simp
qed

lemma mset_change_bond:
  assumes "mset xs = add_mset x (mset zs)" "mset ys = add_mset y (mset zs)" "bd_owner y = bd_owner x"
    "distinct (map bd_owner xs)"
  shows "distinct (map bd_owner ys)" "amount_of ys = (amount_of xs)(bd_owner x \<mapsto> bd_amount y)"
    "sum_of ys + bd_amount x = sum_of xs + bd_amount y"
proof -
  note r = mset_remove_bond [OF assms(1,4)]
  note a = mset_add_bond [OF assms(2) r(1)]
  show "distinct (map bd_owner ys)" "amount_of ys = (amount_of xs)(bd_owner x \<mapsto> bd_amount y)"
    "sum_of ys + bd_amount x = sum_of xs + bd_amount y"
    using a r assms(3) by auto
qed

section \<open>The pure effect on the two lists\<close>

lemma last_least: "amounts_descending t \<Longrightarrow> x \<in> set t \<Longrightarrow> bd_amount (last t) \<le> bd_amount x"
  by (cases t rule: rev_cases) (auto simp: descending_append)

lemma descending_butlast: "amounts_descending t \<Longrightarrow> amounts_descending (butlast t)"
  by (cases t rule: rev_cases) (auto simp: descending_append)

lemma mset_butlast: "t \<noteq> [] \<Longrightarrow> mset t = add_mset (last t) (mset (butlast t))"
  by (cases t rule: rev_cases) auto

lemma sort_change_mset:
  assumes "distinct (map bd_owner xs)" "x \<in> set xs"
  shows "mset (sort_by amount_desc (change_bond (bd_owner x) f xs)) =
    add_mset (x\<lparr>bd_amount := f (bd_amount x)\<rparr>) (mset (without_owner (bd_owner x) xs))"
  using change_bond_split [OF assms] by_amount.mset_sort_by by simp

lemma sort_change_length [simp]: "length (sort_by amount_desc (change_bond a f xs)) = length xs"
  using mset_eq_length [OF by_amount.mset_sort_by, of "change_bond a f xs"] by (simp add: change_bond_def)

text \<open>The lists after a change of one bond, from what is left of the old ones.\<close>

lemma lists_ok_remove:
  assumes "lists_ok T t b" "mset (t @ b) = add_mset x (mset (t' @ b'))" "amounts_descending (t' @ b')"
    "length t' \<le> length t" "length b' \<le> length b" "b' \<noteq> [] \<Longrightarrow> length t' = length t"
  shows "lists_ok T t' b'"
proof -
  have d: "distinct (map bd_owner (t @ b))" using assms(1) by (simp add: lists_ok_def)
  have "distinct (map bd_owner (t' @ b'))" by (rule mset_remove_bond(1) [OF assms(2) d])
  with assms show ?thesis by (cases "b = []") (auto simp: lists_ok_def)
qed

lemma lists_ok_change:
  assumes "lists_ok T t b" "mset (t @ b) = add_mset x (mset zs)" "mset (t' @ b') = add_mset y (mset zs)"
    "bd_owner y = bd_owner x" "amounts_descending (t' @ b')" "length t' = length t"
  shows "lists_ok T t' b'"
proof -
  have d: "distinct (map bd_owner (t @ b))" using assms(1) by (simp add: lists_ok_def)
  have "distinct (map bd_owner (t' @ b'))" by (rule mset_change_bond(1) [OF assms(2-4) d])
  moreover have "length (t' @ b') = length (t @ b)" using assms(2,3) by (metis size_add_mset size_mset)
  ultimately show ?thesis using assms by (auto simp: lists_ok_def)
qed

lemma lists_ok_add:
  assumes "lists_ok T t b" "mset (t' @ b') = add_mset y (mset (t @ b))" "bd_owner y \<notin> bd_owner ` set (t @ b)"
    "amounts_descending (t' @ b')" "length t' \<le> MaxTopDelegationsPerCandidate T"
    "length b' \<le> MaxBottomDelegationsPerCandidate T"
    "b' \<noteq> [] \<Longrightarrow> length t' = MaxTopDelegationsPerCandidate T"
  shows "lists_ok T t' b'"
proof -
  have d: "distinct (map bd_owner (t @ b))" using assms(1) by (simp add: lists_ok_def)
  have "distinct (map bd_owner (t' @ b'))" by (rule mset_add_bond(1) [OF assms(2) d assms(3)])
  with assms show ?thesis by (simp add: lists_ok_def)
qed

section \<open>Running the operations\<close>

definition top_data :: "('l, 'c) staking_config_scheme \<Rightarrow> delegations \<Rightarrow> candidate_metadata \<Rightarrow> candidate_metadata" where
  "top_data T t c =
     c\<lparr>ci_lowest_top_delegation_amount := lowest_delegation_amount t, ci_top_capacity := top_capacity T t,
       ci_total_counted := saturating_add (ci_bond c) (dl_total t)\<rparr>"

lemma reset_top_data_eq:
  "reset_top_data T a t c s =
     (Inr (top_data T t c), s\<lparr>CandidatePool := pool_after a c (top_data T t c) (CandidatePool s)\<rparr>)"
  by (simp add: reset_top_data_def top_data_def pool_after_def Let_def update_active_eq candidate_is_active_def prog_defs)

text \<open>The result of an operation: new metadata and lists that fit, with the bonds \<open>D\<close>.\<close>

definition candidate_result ::
    "('l, 'c) staking_config_scheme \<Rightarrow> account \<Rightarrow> candidate_metadata \<Rightarrow> (account \<rightharpoonup> nat) \<Rightarrow>
     candidate_metadata \<Rightarrow> ('l, 'z) staking_state_scheme \<Rightarrow> ('l, 'z) staking_state_scheme \<Rightarrow> bool" where
  "candidate_result T a c D c' s s' \<longleftrightarrow> same_candidate c c' \<and>
     (\<exists>t b. candidate_ok T c' t b \<and> bonds_by t b = D \<and>
        s' = store_lists a t b (pool_after a c c' (CandidatePool s)) s)"

lemma candidate_resultI:
  "same_candidate c c' \<Longrightarrow> candidate_ok T c' t b \<Longrightarrow> bonds_by t b = D \<Longrightarrow>
   s' = store_lists a t b (pool_after a c c' (CandidatePool s)) s \<Longrightarrow> candidate_result T a c D c' s s'"
  unfolding candidate_result_def by blast

lemma store_same_bottom:
  "has_lists a t b s \<Longrightarrow> s\<lparr>CandidatePool := p, TopDelegations := (TopDelegations s)(a \<mapsto> t')\<rparr> = store_lists a t' b p s"
  by (simp add: has_lists_def store_lists_def fun_upd_idem)

lemma store_same_top:
  "has_lists a t b s \<Longrightarrow> s\<lparr>BottomDelegations := (BottomDelegations s)(a \<mapsto> b')\<rparr> = store_lists a t b' (CandidatePool s) s"
  by (simp add: has_lists_def store_lists_def fun_upd_idem)

lemma pool_after_same [simp]: "ci_total_counted c' = ci_total_counted c \<Longrightarrow> pool_after a c c' p = p"
  by (simp add: pool_after_def)

lemmas list_access = top_of_def bottom_of_def put_top_def put_bottom_def

lemma candidate_okD:
  assumes "candidate_ok T c t b"
  shows "lists_ok T (dl_delegations t) (dl_delegations b)"
    "distinct (map bd_owner (dl_delegations t @ dl_delegations b))"
    "distinct (map bd_owner (dl_delegations t))" "distinct (map bd_owner (dl_delegations b))"
    "amounts_descending (dl_delegations t @ dl_delegations b)"
    "amounts_descending (dl_delegations t)" "amounts_descending (dl_delegations b)"
    "ci_bond c + sum_of (dl_delegations t @ dl_delegations b) \<le> u128_max"
  using assms by (auto simp: candidate_ok_def lists_ok_def descending_append)

lemma as_u32_small: "n \<le> u32_max \<Longrightarrow> as_u32 n = n"
  by (simp add: as_u32_def u32_max_def)

lemma capacity_simps:
  assumes "limits_ok T" "candidate_ok T c t b"
  shows "ci_top_capacity c = Full \<longleftrightarrow> length (dl_delegations t) = MaxTopDelegationsPerCandidate T"
    "ci_bottom_capacity c = Full \<longleftrightarrow> length (dl_delegations b) = MaxBottomDelegationsPerCandidate T"
    "ci_bottom_capacity c = Empty \<longleftrightarrow> dl_delegations b = []"
    "top_capacity T t = Full \<longleftrightarrow> length (dl_delegations t) = MaxTopDelegationsPerCandidate T"
    "as_u32 (length (dl_delegations t)) = length (dl_delegations t)"
    "as_u32 (length (dl_delegations b)) = length (dl_delegations b)"
proof -
  have l: "length (dl_delegations t) \<le> MaxTopDelegationsPerCandidate T"
    "length (dl_delegations b) \<le> MaxBottomDelegationsPerCandidate T"
    using assms(2) by (auto simp: candidate_ok_def lists_ok_def)
  then show u: "as_u32 (length (dl_delegations t)) = length (dl_delegations t)"
    "as_u32 (length (dl_delegations b)) = length (dl_delegations b)"
    using assms(1) by (auto simp: limits_ok_def intro!: as_u32_small)
  show "ci_top_capacity c = Full \<longleftrightarrow> length (dl_delegations t) = MaxTopDelegationsPerCandidate T"
    "ci_bottom_capacity c = Full \<longleftrightarrow> length (dl_delegations b) = MaxBottomDelegationsPerCandidate T"
    "ci_bottom_capacity c = Empty \<longleftrightarrow> dl_delegations b = []"
    "top_capacity T t = Full \<longleftrightarrow> length (dl_delegations t) = MaxTopDelegationsPerCandidate T"
    using assms l by (auto simp: candidate_ok_def top_capacity_def bottom_capacity_def capacity_of_def u limits_ok_def)
qed

text \<open>The metadata fits again after both summaries have been reset, whatever happened to the lists.\<close>

lemma candidate_ok_reset:
  assumes "lists_ok T t b" "ci_bond c + sum_of (t @ b) \<le> u128_max" "n = sum_of t"
  shows "candidate_ok T (top_data T \<lparr>dl_delegations = t, dl_total = n\<rparr>
      (reset_bottom_data T \<lparr>dl_delegations = b, dl_total = m\<rparr> c)\<lparr>ci_delegation_count := length t + length b\<rparr>)
      \<lparr>dl_delegations = t, dl_total = n\<rparr> \<lparr>dl_delegations = b, dl_total = m\<rparr>"
  using assms by (simp add: candidate_ok_def top_data_def reset_bottom_data_def saturating_add_exact)

section \<open>Removing a delegation\<close>

lemma rm_top_delegation_ok:
  assumes lim: "limits_ok T" and ok: "candidate_ok T c t b" and s: "has_lists a t b s"
    and x: "x \<in> set (dl_delegations t)"
  shows "\<exists>c' r s'. rm_top_delegation T a (bd_owner x) c s = (Inr (c', r), s') \<and>
    candidate_result T a c ((bonds_by t b)(bd_owner x := None)) c' s s'"
proof -
  let ?t = "dl_delegations t" and ?b = "dl_delegations b" and ?w = "without_owner (bd_owner x) (dl_delegations t)"
  note d = candidate_okD [OF ok]
  note w = without_owner_split [OF d(3) x] length_without_owner [OF d(3) x]
  have total: "dl_total t - bd_amount x = sum_of ?w"
    using ok sum_of_mset [of ?t "x # ?w"] w(1) by (simp add: candidate_ok_def)
  have tot: "ci_bond c + sum_of ?t + sum_of ?b \<le> u128_max" using d(8) by simp
  show ?thesis
  proof (cases ?b)
    case Nil
    have m: "mset (?t @ ?b) = add_mset x (mset (?w @ []))" using w(1) Nil by simp
    have l: "lists_ok T ?w []"
      by (rule lists_ok_remove [OF d(1) m]) (use w(3) d(6) in \<open>simp_all add: descending_without_owner\<close>)
    note r = mset_remove_bond [OF m d(2)]
    let ?t' = "\<lparr>dl_delegations = ?w, dl_total = dl_total t - bd_amount x\<rparr>"
    let ?c = "(top_data T ?t' c)\<lparr>ci_delegation_count := ci_delegation_count c - 1\<rparr>"
    have "rm_top_delegation T a (bd_owner x) c s = (Inr (?c, ci_total_counted c = ci_total_counted ?c),
        store_lists a ?t' b (pool_after a c ?c (CandidatePool s)) s)"
      using s w(2) capacity_simps(3) [OF lim ok] Nil store_same_bottom [OF s, where t' = ?t']
      by (simp add: rm_top_delegation_def has_lists_def list_access prog_defs reset_top_data_eq pool_after_def
          top_data_def candidate_is_active_def)
    moreover have "candidate_ok T ?c ?t' b"
      using l ok total tot r(4) w(3) Nil by (simp add: candidate_ok_def top_data_def saturating_add_exact)
    moreover have "same_candidate c ?c" by (simp add: same_candidate_def top_data_def)
    moreover have "bonds_by ?t' b = (bonds_by t b)(bd_owner x := None)" using r(3) Nil by simp
    ultimately show ?thesis unfolding candidate_result_def by blast
  next
    case (Cons h bs)
    have m: "mset (?t @ ?b) = add_mset x (mset (insert_descending h ?w @ bs))" using w(1) Cons by simp
    have cross: "amounts_descending (insert_descending h ?w @ bs)"
      using d(5) Cons by (auto simp: descending_append descending_Cons descending_insert descending_without_owner)
    have l: "lists_ok T (insert_descending h ?w) bs"
      by (rule lists_ok_remove [OF d(1) m cross]) (use w(3) Cons in simp_all)
    note r = mset_remove_bond [OF m d(2)]
    let ?b' = "\<lparr>dl_delegations = bs, dl_total = dl_total b - bd_amount h\<rparr>"
    let ?t' = "\<lparr>dl_delegations = insert_descending h ?w, dl_total = saturating_add (dl_total t - bd_amount x) (bd_amount h)\<rparr>"
    let ?c = "(top_data T ?t' (reset_bottom_data T ?b' c))\<lparr>ci_delegation_count := ci_delegation_count c - 1\<rparr>"
    have total': "dl_total ?t' = sum_of (insert_descending h ?w)"
      using total tot r(4) Cons by (simp add: saturating_add_exact)
    have "rm_top_delegation T a (bd_owner x) c s = (Inr (?c, ci_total_counted c = ci_total_counted ?c),
        store_lists a ?t' ?b' (pool_after a c ?c (CandidatePool s)) s)"
      using s w(2) capacity_simps(3) [OF lim ok] Cons d(6)
      by (simp add: rm_top_delegation_def has_lists_def list_access prog_defs reset_top_data_eq pool_after_def
          top_data_def reset_bottom_data_def candidate_is_active_def store_lists_def
          insert_sorted_eq descending_without_owner Let_def)
    moreover have "candidate_ok T ?c ?t' ?b'"
      using l ok total' tot r(4) w(3) Cons
      by (simp add: candidate_ok_def top_data_def reset_bottom_data_def saturating_add_exact)
    moreover have "same_candidate c ?c" by (simp add: same_candidate_def top_data_def reset_bottom_data_def)
    moreover have "bonds_by ?t' ?b' = (bonds_by t b)(bd_owner x := None)" using r(3) by simp
    ultimately show ?thesis unfolding candidate_result_def by blast
  qed
qed

lemma rm_bottom_delegation_ok:
  assumes ok: "candidate_ok T c t b" and s: "has_lists a t b s" and x: "x \<in> set (dl_delegations b)"
  shows "\<exists>c' r s'. rm_bottom_delegation T a (bd_owner x) c s = (Inr (c', r), s') \<and>
    candidate_result T a c ((bonds_by t b)(bd_owner x := None)) c' s s'"
proof -
  let ?t = "dl_delegations t" and ?b = "dl_delegations b" and ?w = "without_owner (bd_owner x) (dl_delegations b)"
  note d = candidate_okD [OF ok]
  note w = without_owner_split [OF d(4) x] length_without_owner [OF d(4) x]
  have m: "mset (?t @ ?b) = add_mset x (mset (?t @ ?w))" using w(1) by simp
  have "amounts_descending (?t @ ?w)"
    using d(5) by (auto simp: descending_append descending_without_owner)
  then have l: "lists_ok T ?t ?w" by (rule lists_ok_remove [OF d(1) m]) (use w(3) in simp_all)
  note r = mset_remove_bond [OF m d(2)]
  let ?b' = "\<lparr>dl_delegations = ?w, dl_total = dl_total b - bd_amount x\<rparr>"
  let ?c = "(reset_bottom_data T ?b' c)\<lparr>ci_delegation_count := ci_delegation_count c - 1\<rparr>"
  have "rm_bottom_delegation T a (bd_owner x) c s = (Inr (?c, False),
      store_lists a t ?b' (pool_after a c ?c (CandidatePool s)) s)"
    using s w(2) store_same_top [OF s, where b' = ?b']
    by (simp add: rm_bottom_delegation_def has_lists_def list_access prog_defs reset_bottom_data_def Let_def)
  moreover have "candidate_ok T ?c t ?b'"
    using l ok r(4) w(3) by (simp add: candidate_ok_def reset_bottom_data_def)
  moreover have "same_candidate c ?c" by (simp add: same_candidate_def reset_bottom_data_def)
  moreover have "bonds_by t ?b' = (bonds_by t b)(bd_owner x := None)" using r(3) by simp
  ultimately show ?thesis unfolding candidate_result_def by blast
qed

text \<open>Where a bond is, from the summary in the metadata.\<close>

lemma bottom_below_top:
  assumes "limits_ok T" "candidate_ok T c t b" "x \<in> set (dl_delegations b)"
  shows "ci_top_capacity c = Full" "bd_amount x \<le> ci_highest_bottom_delegation_amount c"
    "ci_highest_bottom_delegation_amount c \<le> ci_lowest_top_delegation_amount c"
    "bd_owner x \<notin> bd_owner ` set (dl_delegations t)" "dl_delegations t \<noteq> []"
proof -
  have full: "length (dl_delegations t) = MaxTopDelegationsPerCandidate T"
    using assms(2,3) by (auto simp: candidate_ok_def lists_ok_def)
  then show cap: "ci_top_capacity c = Full" using capacity_simps(1) [OF assms(1,2)] by simp
  show ne: "dl_delegations t \<noteq> []" using full assms(1) by (auto simp: limits_ok_def)
  note d = candidate_okD [OF assms(2)]
  have b: "dl_delegations b \<noteq> []" using assms(3) by auto
  then have "\<forall>y\<in>set (dl_delegations b). bd_amount y \<le> bd_amount (hd (dl_delegations b))"
    using d(7) by (cases "dl_delegations b") (auto simp: descending_Cons)
  with assms(2,3) b show "bd_amount x \<le> ci_highest_bottom_delegation_amount c"
    by (simp add: candidate_ok_def highest_delegation_amount_def)
  show "ci_highest_bottom_delegation_amount c \<le> ci_lowest_top_delegation_amount c"
    using d(5) assms(2) b ne
    by (simp add: candidate_ok_def highest_delegation_amount_def lowest_delegation_amount_def descending_append)
  show "bd_owner x \<notin> bd_owner ` set (dl_delegations t)" using d(2) assms(3) by auto
qed

lemma top_above_lowest:
  assumes "candidate_ok T c t b" "x \<in> set (dl_delegations t)"
  shows "ci_lowest_top_delegation_amount c \<le> bd_amount x"
  using assms last_least [OF candidate_okD(6) [OF assms(1)]]
  by (auto simp: candidate_ok_def lowest_delegation_amount_def)

lemma rm_top_missing:
  "has_lists a t b s \<Longrightarrow> who \<notin> bd_owner ` set (dl_delegations t) \<Longrightarrow>
   rm_top_delegation T a who c s = (Inl (SErr DelegationDNE), s)"
  using last_bond_of_None [of who "dl_delegations t"]
  by (simp add: rm_top_delegation_def has_lists_def list_access prog_defs Let_def)

lemma or_else_second: "m s = (Inl e, s) \<Longrightarrow> or_else e m n s = n s"
  and or_else_first: "m s = (Inr r, s') \<Longrightarrow> or_else e m n s = (Inr r, s')"
  by (simp_all add: or_else_def)

lemma rm_delegation_if_exists_ok:
  assumes lim: "limits_ok T" and ok: "candidate_ok T c t b" and s: "has_lists a t b s"
    and n: "bonds_by t b who = Some n"
  shows "\<exists>c' r s'. rm_delegation_if_exists T a who n c s = (Inr (c', r), s') \<and>
    candidate_result T a c ((bonds_by t b)(who := None)) c' s s'"
proof -
  let ?x = "\<lparr>bd_owner = who, bd_amount = n\<rparr>"
  have "?x \<in> set (dl_delegations t @ dl_delegations b)"
    using n amount_of_Some [OF candidate_okD(2) [OF ok]] by blast
  then consider (t) "?x \<in> set (dl_delegations t)" | (b) "?x \<in> set (dl_delegations b)" by auto
  then show ?thesis
  proof cases
    case t
    have ge: "n \<ge> ci_lowest_top_delegation_amount c" using top_above_lowest [OF ok t] by simp
    obtain c' r s' where "rm_top_delegation T a who c s = (Inr (c', r), s')"
      "candidate_result T a c ((bonds_by t b)(who := None)) c' s s'"
      using rm_top_delegation_ok [OF lim ok s t] by auto
    then show ?thesis using ge by (auto simp: rm_delegation_if_exists_def Let_def or_else_first)
  next
    case b
    note below = bottom_below_top [OF lim ok b]
    obtain c' r s' where "rm_bottom_delegation T a who c s = (Inr (c', r), s')"
      "candidate_result T a c ((bonds_by t b)(who := None)) c' s s'"
      using rm_bottom_delegation_ok [OF ok s b] by auto
    moreover have "or_else (SErr DelegationDNE) (rm_top_delegation T a who c) (rm_bottom_delegation T a who c) s =
        rm_bottom_delegation T a who c s"
      using below(4) by (intro or_else_second rm_top_missing [OF s]) simp
    ultimately show ?thesis using below by (auto simp: rm_delegation_if_exists_def Let_def)
  qed
qed

section \<open>Changing a delegation\<close>

lemma increase_top_delegation_ok:
  assumes ok: "candidate_ok T c t b" and s: "has_lists a t b s" and x: "x \<in> set (dl_delegations t)"
    and bound: "ci_bond c + sum_of (dl_delegations t @ dl_delegations b) + n \<le> u128_max"
  shows "\<exists>c' r s'. increase_top_delegation T a (bd_owner x) n c s = (Inr (c', r), s') \<and>
    candidate_result T a c ((bonds_by t b)(bd_owner x \<mapsto> bd_amount x + n)) c' s s'"
proof -
  let ?t = "dl_delegations t" and ?b = "dl_delegations b" and ?w = "without_owner (bd_owner x) (dl_delegations t)"
  let ?f = "\<lambda>m. saturating_add m n"
  let ?l = "sort_by amount_desc (change_bond (bd_owner x) ?f ?t)"
  note d = candidate_okD [OF ok]
  note w = without_owner_split(1) [OF d(3) x]
  have small: "bd_amount x + n \<le> u128_max" using bound sum_of_mset [of ?t "x # ?w"] w by simp
  have m: "mset (?t @ ?b) = add_mset x (mset (?w @ ?b))" using w by simp
  have m': "mset (?l @ ?b) = add_mset (x\<lparr>bd_amount := bd_amount x + n\<rparr>) (mset (?w @ ?b))"
    using sort_change_mset [OF d(3) x, of ?f] small by (simp add: saturating_add_exact)
  have set: "set ?l = insert (x\<lparr>bd_amount := bd_amount x + n\<rparr>) (set ?w)"
    using sort_change_mset [OF d(3) x, of ?f] small
    by (metis saturating_add_exact set_mset_add_mset_insert set_mset_mset)
  have desc: "amounts_descending (?l @ ?b)"
    using d(5) x by (auto simp: descending_append set intro: trans_le_add1)
  have l: "lists_ok T ?l ?b" by (rule lists_ok_change [OF d(1) m m' _ desc]) simp_all
  note r = mset_change_bond [OF m m' _ d(2)]
  let ?t' = "\<lparr>dl_delegations = ?l, dl_total = saturating_add (dl_total t) n\<rparr>"
  let ?c = "top_data T ?t' c"
  have total: "dl_total ?t' = sum_of ?l"
    using ok r(3) bound by (simp add: candidate_ok_def saturating_add_exact)
  have "has_bond (bd_owner x) ?t" using x by (auto simp: has_bond_def)
  then have "increase_top_delegation T a (bd_owner x) n c s = (Inr (?c, True),
      store_lists a ?t' b (pool_after a c ?c (CandidatePool s)) s)"
    using s store_same_bottom [OF s, where t' = ?t']
    by (simp add: increase_top_delegation_def has_lists_def list_access prog_defs reset_top_data_eq
        sort_greatest_to_least_def Let_def)
  moreover have "candidate_ok T ?c ?t' b"
    using l ok total r(3) bound by (simp add: candidate_ok_def top_data_def saturating_add_exact)
  moreover have "same_candidate c ?c" by (simp add: same_candidate_def top_data_def)
  moreover have "bonds_by ?t' b = (bonds_by t b)(bd_owner x \<mapsto> bd_amount x + n)" using r(2) by simp
  ultimately show ?thesis unfolding candidate_result_def by blast
qed

lemma change_list_set:
  assumes "distinct (map bd_owner xs)" "x \<in> set xs"
  shows "set (sort_by amount_desc (change_bond (bd_owner x) f xs)) =
    insert (x\<lparr>bd_amount := f (bd_amount x)\<rparr>) (set (without_owner (bd_owner x) xs))"
  using sort_change_mset [OF assms, of f] by (metis set_mset_add_mset_insert set_mset_mset)

lemma has_bondI: "x \<in> set xs \<Longrightarrow> has_bond (bd_owner x) xs"
  by (auto simp: has_bond_def)

lemma has_bond_missing: "who \<notin> bd_owner ` set xs \<Longrightarrow> \<not> has_bond who xs"
  by (simp add: has_bond_iff)

lemma increase_bottom_stay_ok:
  assumes lim: "limits_ok T" and ok: "candidate_ok T c t b" and s: "has_lists a t b s"
    and x: "x \<in> set (dl_delegations b)"
    and bound: "ci_bond c + sum_of (dl_delegations t @ dl_delegations b) + n \<le> u128_max"
    and stay: "\<not> bd_amount x + n > ci_lowest_top_delegation_amount c"
  shows "\<exists>c' r s'. increase_bottom_delegation T a (bd_owner x) (bd_amount x) n c s = (Inr (c', r), s') \<and>
    candidate_result T a c ((bonds_by t b)(bd_owner x \<mapsto> bd_amount x + n)) c' s s'"
proof -
  let ?t = "dl_delegations t" and ?b = "dl_delegations b" and ?w = "without_owner (bd_owner x) (dl_delegations b)"
  let ?f = "\<lambda>m. saturating_add m n"
  let ?l = "sort_by amount_desc (change_bond (bd_owner x) ?f ?b)" and ?x = "x\<lparr>bd_amount := bd_amount x + n\<rparr>"
  note d = candidate_okD [OF ok]
  note w = without_owner_split(1) [OF d(4) x]
  have f: "?f (bd_amount x) = bd_amount x + n"
    using bound sum_of_mset [of ?b "x # ?w"] w by (simp add: saturating_add_exact)
  have m: "mset (?t @ ?b) = add_mset x (mset (?t @ ?w))" using w by simp
  have m': "mset (?t @ ?l) = add_mset ?x (mset (?t @ ?w))" using sort_change_mset [OF d(4) x, of ?f] f by simp
  have set: "set ?l = insert ?x (set ?w)" using change_list_set [OF d(4) x, of ?f] f by simp
  have low: "ci_lowest_top_delegation_amount c \<le> bd_amount y" if "y \<in> set ?t" for y
    by (rule top_above_lowest [OF ok that])
  have desc: "amounts_descending (?t @ ?l)"
    using d(5) stay by (auto simp: descending_append set not_less dest: low intro: order_trans)
  have l: "lists_ok T ?t ?l" by (rule lists_ok_change [OF d(1) m m' _ desc]) simp_all
  note r = mset_change_bond [OF m m' _ d(2)]
  let ?b' = "\<lparr>dl_delegations = ?l, dl_total = saturating_add (dl_total b) n\<rparr>"
  let ?c = "reset_bottom_data T ?b' c"
  have "increase_bottom_delegation T a (bd_owner x) (bd_amount x) n c s = (Inr (?c, False),
      store_lists a t ?b' (pool_after a c ?c (CandidatePool s)) s)"
    using s store_same_top [OF s, where b' = ?b'] has_bondI [OF x] stay f
    by (simp add: increase_bottom_delegation_def has_lists_def list_access prog_defs reset_bottom_data_def
        sort_greatest_to_least_def Let_def)
  moreover have "candidate_ok T ?c t ?b'"
    using l ok r(3) bound by (simp add: candidate_ok_def reset_bottom_data_def)
  moreover have "same_candidate c ?c" by (simp add: same_candidate_def reset_bottom_data_def)
  moreover have "bonds_by t ?b' = (bonds_by t b)(bd_owner x \<mapsto> bd_amount x + n)" using r(2) by simp
  ultimately show ?thesis unfolding candidate_result_def by blast
qed

lemma increase_bottom_move_ok:
  assumes lim: "limits_ok T" and ok: "candidate_ok T c t b" and s: "has_lists a t b s"
    and x: "x \<in> set (dl_delegations b)"
    and bound: "ci_bond c + sum_of (dl_delegations t @ dl_delegations b) + n \<le> u128_max"
    and move: "bd_amount x + n > ci_lowest_top_delegation_amount c"
  shows "\<exists>c' r s'. increase_bottom_delegation T a (bd_owner x) (bd_amount x) n c s = (Inr (c', r), s') \<and>
    candidate_result T a c ((bonds_by t b)(bd_owner x \<mapsto> bd_amount x + n)) c' s s'"
proof -
  let ?t = "dl_delegations t" and ?b = "dl_delegations b" and ?w = "without_owner (bd_owner x) (dl_delegations b)"
  let ?x = "x\<lparr>bd_amount := bd_amount x + n\<rparr>" and ?y = "last (dl_delegations t)"
  let ?tl = "insert_descending ?x (butlast ?t)" and ?bl = "insert_descending ?y ?w"
  note d = candidate_okD [OF ok]
  note below = bottom_below_top [OF lim ok x]
  note w = without_owner_split [OF d(4) x]
  have tb: "mset ?t = add_mset ?y (mset (butlast ?t))" by (rule mset_butlast [OF below(5)])
  have f: "saturating_add (bd_amount x) n = bd_amount x + n"
    using bound sum_of_mset [of ?b "x # ?w"] w(1) by (simp add: saturating_add_exact)
  have m: "mset (?t @ ?b) = add_mset x (mset (?t @ ?w))" using w(1) by simp
  have m': "mset (?tl @ ?bl) = add_mset ?x (mset (?t @ ?w))" using tb by simp
  have low: "bd_amount ?y = ci_lowest_top_delegation_amount c"
    using ok below(5) by (simp add: candidate_ok_def lowest_delegation_amount_def)
  have "\<forall>z\<in>set ?b. bd_amount z \<le> bd_amount ?y"
    using d(5) below(5) by (simp add: descending_append)
  moreover have "\<forall>z\<in>set (butlast ?t). bd_amount ?y \<le> bd_amount z"
    using last_least [OF d(6)] by (auto dest: in_set_butlastD)
  ultimately have desc: "amounts_descending (?tl @ ?bl)"
    using d(6,7) move low
    by (auto simp: descending_append descending_insert descending_butlast descending_without_owner
        intro: less_imp_le order_trans)
  have len: "length ?tl = length ?t" using below(5) by simp
  have l: "lists_ok T ?tl ?bl" by (rule lists_ok_change [OF d(1) m m' _ desc len]) simp
  note r = mset_change_bond [OF m m' _ d(2)]
  let ?t' = "\<lparr>dl_delegations = ?tl, dl_total = saturating_add (dl_total t - bd_amount ?y) (bd_amount x + n)\<rparr>"
  let ?b' = "\<lparr>dl_delegations = ?bl, dl_total = saturating_add (dl_total b - bd_amount x) (bd_amount ?y)\<rparr>"
  let ?c = "reset_bottom_data T ?b' (top_data T ?t' c)"
  have total: "dl_total ?t' = sum_of ?tl"
    using ok r(3) bound sum_of_mset [of ?t "?y # butlast ?t"] tb by (simp add: candidate_ok_def saturating_add_exact)
  have full: "top_capacity T t = Full" using below(1) ok by (simp add: candidate_ok_def)
  have "increase_bottom_delegation T a (bd_owner x) (bd_amount x) n c s = (Inr (?c, True),
      store_lists a ?t' ?b' (pool_after a c ?c (CandidatePool s)) s)"
    using s below(5) move f full w(2) d(6,7)
    by (simp add: increase_bottom_delegation_def has_lists_def list_access prog_defs reset_top_data_eq
        insert_sorted_eq descending_butlast descending_without_owner reset_bottom_data_def store_lists_def
        pool_after_def candidate_is_active_def Let_def)
  moreover have "candidate_ok T ?c ?t' ?b'"
    using l ok total r(3) bound len length_without_owner [OF d(4) x]
    by (simp add: candidate_ok_def top_data_def reset_bottom_data_def saturating_add_exact)
  moreover have "same_candidate c ?c" by (simp add: same_candidate_def top_data_def reset_bottom_data_def)
  moreover have "bonds_by ?t' ?b' = (bonds_by t b)(bd_owner x \<mapsto> bd_amount x + n)" using r(2) by simp
  ultimately show ?thesis unfolding candidate_result_def by blast
qed

lemma increase_bottom_delegation_ok:
  assumes "limits_ok T" "candidate_ok T c t b" "has_lists a t b s" "x \<in> set (dl_delegations b)"
    "ci_bond c + sum_of (dl_delegations t @ dl_delegations b) + n \<le> u128_max"
  shows "\<exists>c' r s'. increase_bottom_delegation T a (bd_owner x) (bd_amount x) n c s = (Inr (c', r), s') \<and>
    candidate_result T a c ((bonds_by t b)(bd_owner x \<mapsto> bd_amount x + n)) c' s s'"
  using increase_bottom_stay_ok [OF assms] increase_bottom_move_ok [OF assms] by blast

lemma increase_top_missing:
  "has_lists a t b s \<Longrightarrow> who \<notin> bd_owner ` set (dl_delegations t) \<Longrightarrow>
   increase_top_delegation T a who n c s = (Inl (SErr DelegationDNE), s)"
  using has_bond_missing [of who "dl_delegations t"]
  by (simp add: increase_top_delegation_def has_lists_def list_access prog_defs)

lemma candidate_increase_delegation_ok:
  assumes lim: "limits_ok T" and ok: "candidate_ok T c t b" and s: "has_lists a t b s"
    and n: "bonds_by t b who = Some n"
    and bound: "ci_bond c + sum_of (dl_delegations t @ dl_delegations b) + k \<le> u128_max"
  shows "\<exists>c' r s'. candidate_increase_delegation T a who n k c s = (Inr (c', r), s') \<and>
    candidate_result T a c ((bonds_by t b)(who \<mapsto> n + k)) c' s s'"
proof -
  let ?x = "\<lparr>bd_owner = who, bd_amount = n\<rparr>"
  have "?x \<in> set (dl_delegations t @ dl_delegations b)"
    using n amount_of_Some [OF candidate_okD(2) [OF ok]] by blast
  then consider (t) "?x \<in> set (dl_delegations t)" | (b) "?x \<in> set (dl_delegations b)" by auto
  then show ?thesis
  proof cases
    case t
    have ge: "n \<ge> ci_lowest_top_delegation_amount c" using top_above_lowest [OF ok t] by simp
    obtain c' r s' where "increase_top_delegation T a who k c s = (Inr (c', r), s')"
      "candidate_result T a c ((bonds_by t b)(who \<mapsto> n + k)) c' s s'"
      using increase_top_delegation_ok [OF ok s t bound] by auto
    then show ?thesis using ge by (auto simp: candidate_increase_delegation_def Let_def or_else_first)
  next
    case b
    note below = bottom_below_top [OF lim ok b]
    obtain c' r s' where "increase_bottom_delegation T a who n k c s = (Inr (c', r), s')"
      "candidate_result T a c ((bonds_by t b)(who \<mapsto> n + k)) c' s s'"
      using increase_bottom_delegation_ok [OF lim ok s b bound] by auto
    moreover have "or_else (SErr DelegationDNE) (increase_top_delegation T a who k c)
        (increase_bottom_delegation T a who n k c) s = increase_bottom_delegation T a who n k c s"
      using below(4) by (intro or_else_second increase_top_missing [OF s]) simp
    ultimately show ?thesis using below by (auto simp: candidate_increase_delegation_def Let_def)
  qed
qed

lemma filter_owner:
  assumes "distinct (map bd_owner xs)" "x \<in> set xs"
  shows "filter (\<lambda>b. bd_owner b = bd_owner x) xs = [x]"
proof -
  obtain us vs where xs: "xs = us @ x # vs" using assms(2) by (meson split_list)
  show ?thesis using distinct_split [OF assms(1) xs] by (simp add: xs filter_empty_conv)
qed

lemma owner_update: "bd_owner (x\<lparr>bd_amount := k\<rparr>) = bd_owner x"
  and amount_update: "bd_amount (x\<lparr>bd_amount := k\<rparr>) = k" for x :: bond
  by simp_all

lemma decrease_top_move_ok:
  assumes lim: "limits_ok T" and ok: "candidate_ok T c t b" and s: "has_lists a t b s"
    and x: "x \<in> set (dl_delegations t)"
    and move: "bd_amount x - n < ci_highest_bottom_delegation_amount c" "ci_top_capacity c = Full"
      "ci_bottom_capacity c \<noteq> Empty"
  shows "\<exists>c' r s'. decrease_top_delegation T a (bd_owner x) (bd_amount x) n c s = (Inr (c', r), s') \<and>
    candidate_result T a c ((bonds_by t b)(bd_owner x \<mapsto> bd_amount x - n)) c' s s'"
proof -
  let ?t = "dl_delegations t" and ?b = "dl_delegations b" and ?w = "without_owner (bd_owner x) (dl_delegations t)"
  let ?x = "x\<lparr>bd_amount := bd_amount x - n\<rparr>"
  note d = candidate_okD [OF ok]
  note w = without_owner_split [OF d(3) x]
  obtain h bs where b: "?b = h # bs" using move(3) capacity_simps(3) [OF lim ok] by (cases ?b) auto
  let ?tl = "insert_descending h ?w" and ?bl = "insert_descending ?x bs"
  have m: "mset (?t @ ?b) = add_mset x (mset (?w @ ?b))" using w(1) by simp
  have m': "mset (?tl @ ?bl) = add_mset ?x (mset (?w @ ?b))" using b by simp
  have high: "bd_amount ?x < bd_amount h"
    using ok b move(1) by (simp add: candidate_ok_def highest_delegation_amount_def)
  have desc: "amounts_descending (?tl @ ?bl)"
    using d(5) high b
    by (auto simp: descending_append descending_Cons descending_insert descending_without_owner
        intro: less_imp_le less_le_trans)
  have len: "length ?tl = length ?t" using length_without_owner [OF d(3) x] by simp
  have l: "lists_ok T ?tl ?bl" by (rule lists_ok_change [OF d(1) m m' _ desc len]) simp
  note r = mset_change_bond [OF m m' owner_update d(2)]
  have less: "sum_of (?tl @ ?bl) \<le> sum_of (?t @ ?b)" using r(3) unfolding amount_update by linarith
  let ?t' = "\<lparr>dl_delegations = ?tl, dl_total = saturating_add (dl_total t - bd_amount x) (bd_amount h)\<rparr>"
  let ?b' = "\<lparr>dl_delegations = ?bl, dl_total = saturating_add (dl_total b - bd_amount h) (bd_amount x - n)\<rparr>"
  let ?c = "top_data T ?t' (reset_bottom_data T ?b' c)"
  have total: "dl_total ?t' = sum_of ?tl"
    using ok d(8) sum_of_mset [of ?t "x # ?w"] w(1) b by (simp add: candidate_ok_def saturating_add_exact)
  have "decrease_top_delegation T a (bd_owner x) (bd_amount x) n c s = (Inr (?c, False),
      store_lists a ?t' ?b' (pool_after a c ?c (CandidatePool s)) s)"
    using s move b w(2) d(6,7) filter_owner [OF d(3) x]
    by (simp add: decrease_top_delegation_def has_lists_def list_access prog_defs reset_top_data_eq
        insert_sorted_eq descending_without_owner descending_Cons reset_bottom_data_def store_lists_def
        pool_after_def candidate_is_active_def top_data_def Let_def)
  moreover have "candidate_ok T ?c ?t' ?b'"
    using l ok total less d(8) len b
    by (simp add: candidate_ok_def top_data_def reset_bottom_data_def saturating_add_exact)
  moreover have "same_candidate c ?c" by (simp add: same_candidate_def top_data_def reset_bottom_data_def)
  moreover have "bonds_by ?t' ?b' = (bonds_by t b)(bd_owner x \<mapsto> bd_amount x - n)" using r(2) by simp
  ultimately show ?thesis unfolding candidate_result_def by blast
qed

lemma decrease_top_stay_ok:
  assumes lim: "limits_ok T" and ok: "candidate_ok T c t b" and s: "has_lists a t b s"
    and x: "x \<in> set (dl_delegations t)"
    and stay: "\<not> (bd_amount x - n < ci_highest_bottom_delegation_amount c \<and> ci_top_capacity c = Full \<and>
      ci_bottom_capacity c \<noteq> Empty)" and n: "n \<le> bd_amount x"
  shows "\<exists>c' r s'. decrease_top_delegation T a (bd_owner x) (bd_amount x) n c s = (Inr (c', r), s') \<and>
    candidate_result T a c ((bonds_by t b)(bd_owner x \<mapsto> bd_amount x - n)) c' s s'"
proof -
  let ?t = "dl_delegations t" and ?b = "dl_delegations b" and ?w = "without_owner (bd_owner x) (dl_delegations t)"
  let ?f = "\<lambda>m. m - n" and ?x = "x\<lparr>bd_amount := bd_amount x - n\<rparr>"
  let ?l = "sort_by amount_desc (change_bond (bd_owner x) ?f ?t)"
  note d = candidate_okD [OF ok]
  note w = without_owner_split(1) [OF d(3) x]
  have m: "mset (?t @ ?b) = add_mset x (mset (?w @ ?b))" using w by simp
  have m': "mset (?l @ ?b) = add_mset ?x (mset (?w @ ?b))" using sort_change_mset [OF d(3) x, of ?f] by simp
  have set: "set ?l = insert ?x (set ?w)" by (rule change_list_set [OF d(3) x])
  have "bd_amount y \<le> bd_amount x - n" if y: "y \<in> set ?b" for y
  proof -
    note below = bottom_below_top [OF lim ok y]
    have "?b \<noteq> []" using y by auto
    then show ?thesis using stay below(1,2) capacity_simps(3) [OF lim ok] by auto
  qed
  then have desc: "amounts_descending (?l @ ?b)" using d(5) by (auto simp: descending_append set)
  have l: "lists_ok T ?l ?b" by (rule lists_ok_change [OF d(1) m m' _ desc]) simp_all
  note r = mset_change_bond [OF m m' owner_update d(2)]
  let ?t' = "\<lparr>dl_delegations = ?l, dl_total = dl_total t - n\<rparr>"
  let ?c = "top_data T ?t' c"
  have less: "sum_of (?l @ ?b) \<le> sum_of (?t @ ?b)" using r(3) unfolding amount_update by linarith
  have total: "dl_total ?t' = sum_of ?l"
    using ok r(3) n sum_of_mset [of ?t "x # ?w"] w by (simp add: candidate_ok_def)
  have "decrease_top_delegation T a (bd_owner x) (bd_amount x) n c s = (Inr (?c, True),
      store_lists a ?t' b (pool_after a c ?c (CandidatePool s)) s)"
    using s store_same_bottom [OF s, where t' = ?t'] has_bondI [OF x] stay
    by (auto simp: decrease_top_delegation_def has_lists_def list_access prog_defs reset_top_data_eq
        sort_greatest_to_least_def Let_def)
  moreover have "candidate_ok T ?c ?t' b"
    using l ok total less d(8) by (simp add: candidate_ok_def top_data_def saturating_add_exact)
  moreover have "same_candidate c ?c" by (simp add: same_candidate_def top_data_def)
  moreover have "bonds_by ?t' b = (bonds_by t b)(bd_owner x \<mapsto> bd_amount x - n)" using r(2) by simp
  ultimately show ?thesis unfolding candidate_result_def by blast
qed

lemma decrease_bottom_delegation_ok:
  assumes ok: "candidate_ok T c t b" and s: "has_lists a t b s" and x: "x \<in> set (dl_delegations b)"
    and n: "n \<le> bd_amount x"
  shows "\<exists>c' r s'. decrease_bottom_delegation T a (bd_owner x) n c s = (Inr (c', r), s') \<and>
    candidate_result T a c ((bonds_by t b)(bd_owner x \<mapsto> bd_amount x - n)) c' s s'"
proof -
  let ?t = "dl_delegations t" and ?b = "dl_delegations b" and ?w = "without_owner (bd_owner x) (dl_delegations b)"
  let ?f = "\<lambda>m. m - n" and ?x = "x\<lparr>bd_amount := bd_amount x - n\<rparr>"
  let ?l = "sort_by amount_desc (change_bond (bd_owner x) ?f ?b)"
  note d = candidate_okD [OF ok]
  note w = without_owner_split(1) [OF d(4) x]
  have m: "mset (?t @ ?b) = add_mset x (mset (?t @ ?w))" using w by simp
  have m': "mset (?t @ ?l) = add_mset ?x (mset (?t @ ?w))" using sort_change_mset [OF d(4) x, of ?f] by simp
  have set: "set ?l = insert ?x (set ?w)" by (rule change_list_set [OF d(4) x])
  have desc: "amounts_descending (?t @ ?l)"
    using d(5) x by (auto simp: descending_append set intro: le_trans [OF diff_le_self])
  have l: "lists_ok T ?t ?l" by (rule lists_ok_change [OF d(1) m m' _ desc]) simp_all
  note r = mset_change_bond [OF m m' owner_update d(2)]
  let ?b' = "b\<lparr>dl_delegations := ?l\<rparr>"
  let ?c = "reset_bottom_data T ?b' c"
  have less: "sum_of (?t @ ?l) \<le> sum_of (?t @ ?b)" using r(3) unfolding amount_update by linarith
  have "decrease_bottom_delegation T a (bd_owner x) n c s = (Inr (?c, False),
      store_lists a t ?b' (pool_after a c ?c (CandidatePool s)) s)"
    using s store_same_top [OF s, where b' = ?b'] has_bondI [OF x]
    by (simp add: decrease_bottom_delegation_def has_lists_def list_access prog_defs reset_bottom_data_def
        sort_greatest_to_least_def Let_def)
  moreover have "candidate_ok T ?c t ?b'"
    using l ok less d(8) by (simp add: candidate_ok_def reset_bottom_data_def)
  moreover have "same_candidate c ?c" by (simp add: same_candidate_def reset_bottom_data_def)
  moreover have "bonds_by t ?b' = (bonds_by t b)(bd_owner x \<mapsto> bd_amount x - n)" using r(2) by simp
  ultimately show ?thesis unfolding candidate_result_def by blast
qed

lemma decrease_top_missing:
  assumes "has_lists a t b s" "who \<notin> bd_owner ` set (dl_delegations t)"
  shows "decrease_top_delegation T a who m n c s = (Inl (SErr DelegationDNE), s)"
  using assms(1) has_bond_missing [OF assms(2)] last_bond_of_None [of who "dl_delegations t"] assms(2)
  by (simp add: decrease_top_delegation_def has_lists_def list_access prog_defs Let_def)

lemma candidate_decrease_delegation_ok:
  assumes lim: "limits_ok T" and ok: "candidate_ok T c t b" and s: "has_lists a t b s"
    and n: "bonds_by t b who = Some n" and k: "k \<le> n"
  shows "\<exists>c' r s'. candidate_decrease_delegation T a who n k c s = (Inr (c', r), s') \<and>
    candidate_result T a c ((bonds_by t b)(who \<mapsto> n - k)) c' s s'"
proof -
  let ?x = "\<lparr>bd_owner = who, bd_amount = n\<rparr>"
  have "?x \<in> set (dl_delegations t @ dl_delegations b)"
    using n amount_of_Some [OF candidate_okD(2) [OF ok]] by blast
  then consider (t) "?x \<in> set (dl_delegations t)" | (b) "?x \<in> set (dl_delegations b)" by auto
  then show ?thesis
  proof cases
    case t
    have ge: "n \<ge> ci_lowest_top_delegation_amount c" using top_above_lowest [OF ok t] by simp
    obtain c' r s' where "decrease_top_delegation T a who n k c s = (Inr (c', r), s')"
      "candidate_result T a c ((bonds_by t b)(who \<mapsto> n - k)) c' s s'"
      using decrease_top_move_ok [OF lim ok s t, of k] decrease_top_stay_ok [OF lim ok s t, of k] k by auto
    then show ?thesis using ge by (auto simp: candidate_decrease_delegation_def Let_def or_else_first)
  next
    case b
    note below = bottom_below_top [OF lim ok b]
    obtain c' r s' where "decrease_bottom_delegation T a who k c s = (Inr (c', r), s')"
      "candidate_result T a c ((bonds_by t b)(who \<mapsto> n - k)) c' s s'"
      using decrease_bottom_delegation_ok [OF ok s b, of k] k by auto
    moreover have "or_else (SErr DelegationDNE) (decrease_top_delegation T a who n k c)
        (decrease_bottom_delegation T a who k c) s = decrease_bottom_delegation T a who k c s"
      using below(4) by (intro or_else_second decrease_top_missing [OF s]) simp
    ultimately show ?thesis using below by (auto simp: candidate_decrease_delegation_def Let_def)
  qed
qed

section \<open>Adding a delegation\<close>

text \<open>Room in the bottom list: the lowest bottom delegation is kicked out when the list is full.\<close>

definition room_made ::
    "('l, 'c) staking_config_scheme \<Rightarrow> account \<Rightarrow> delegations \<Rightarrow> ('l, 'z) staking_state_scheme \<Rightarrow>
     ('l, 'z) staking_state_scheme \<Rightarrow> bool" where
  "room_made T a b s s' \<longleftrightarrow>
     (if length (dl_delegations b) = MaxBottomDelegationsPerCandidate T
      then \<exists>b'. kick_lowest_bottom T a b s = (Inr b', s') else s' = s)"

definition room_in :: "('l, 'c) staking_config_scheme \<Rightarrow> bond list \<Rightarrow> bond list" where
  "room_in T b = (if length b = MaxBottomDelegationsPerCandidate T then butlast b else b)"

definition same_lists :: "('l, 'z) staking_state_scheme \<Rightarrow> ('l, 'z) staking_state_scheme \<Rightarrow> bool" where
  "same_lists s s' \<longleftrightarrow> TopDelegations s' = TopDelegations s \<and> BottomDelegations s' = BottomDelegations s \<and>
     CandidatePool s' = CandidatePool s \<and> CandidateInfo s' = CandidateInfo s \<and> Total s' = Total s \<and> Round s' = Round s"

lemma keeps_same_lists [keeps_rules]:
  "keeps (same_lists s) (deposit_staking_event e)" "keeps (same_lists s) (put_delegator d x)"
  "keeps (same_lists s) (put_requests d r)" "keeps (same_lists s) (put_auto_compound d cs)"
  "keeps (same_lists s) (on_ext m)"
  by (auto simp: keeps_def same_lists_def staking_access_defs put_auto_compound_def prog_defs split: prod.splits)

lemma keeps_bond_adjust [keeps_rules]:
  "(\<And>n. keeps P (f n)) \<Longrightarrow> keeps P g \<Longrightarrow> keeps P (case x of Increase n \<Rightarrow> f n | DecreaseBond \<Rightarrow> g)"
  by (cases x) simp_all

lemma kick_same_lists: "keeps (same_lists s) (kick_lowest_bottom T a b)"
  unfolding kick_lowest_bottom_def delegator_rm_delegation_def total_sub_def adjust_bond_lock_def
    delegation_remove_request_with_state_def remove_auto_compound_def st_release_def st_hold_def Let_def
  by (intro keeps_rules)

lemma kick_result:
  "kick_lowest_bottom T a b s = (Inr b', s') \<Longrightarrow>
   b' = \<lparr>dl_delegations = butlast (dl_delegations b), dl_total = dl_total b - bd_amount (last (dl_delegations b))\<rparr>"
  unfolding kick_lowest_bottom_def Let_def
  by (auto simp: prog_simps split: if_splits)

lemma room_made_lists:
  assumes "room_made T a b s s'"
  shows "same_lists s s'"
proof -
  have "same_lists s s" by (simp add: same_lists_def)
  then show ?thesis
    using assms keepsD [OF kick_same_lists] by (auto simp: room_made_def split: if_splits)
qed

lemma add_bottom_delegation_run:
  assumes ok: "limits_ok T" "candidate_ok T c t b" and s: "has_lists a t b s"
    and run: "add_bottom_delegation T bumped a x c0 s = (Inr c', s')"
  shows "\<exists>s1 n. room_made T a b s s1 \<and>
    (let b' = \<lparr>dl_delegations = insert_descending x (room_in T (dl_delegations b)), dl_total = n\<rparr> in
     s' = s1\<lparr>BottomDelegations := (BottomDelegations s1)(a \<mapsto> b')\<rparr> \<and>
     c' = reset_bottom_data T b'
       (if length (dl_delegations b) = MaxBottomDelegationsPerCandidate T \<or> bumped then c0
        else c0\<lparr>ci_delegation_count := saturating_add_u32 (ci_delegation_count c0) 1\<rparr>))"
proof (cases "length (dl_delegations b) = MaxBottomDelegationsPerCandidate T")
  case True
  with run s capacity_simps(6) [OF ok] obtain b' s1 where k: "kick_lowest_bottom T a b s = (Inr b', s1)"
    and r: "s' = s1\<lparr>BottomDelegations := (BottomDelegations s1)(a \<mapsto> insert_sorted_greatest_to_least x b')\<rparr>"
      "c' = reset_bottom_data T (insert_sorted_greatest_to_least x b') c0"
    by (auto simp: add_bottom_delegation_def has_lists_def list_access prog_simps Let_def)
  have "insert_sorted_greatest_to_least x b' =
    \<lparr>dl_delegations = insert_descending x (butlast (dl_delegations b)), dl_total = saturating_add (dl_total b') (bd_amount x)\<rparr>"
    using kick_result [OF k] candidate_okD(7) [OF ok(2)] by (simp add: insert_sorted_eq descending_butlast)
  with True k r show ?thesis by (auto simp: room_made_def room_in_def Let_def)
next
  case False
  have "insert_sorted_greatest_to_least x b =
    \<lparr>dl_delegations = insert_descending x (dl_delegations b), dl_total = saturating_add (dl_total b) (bd_amount x)\<rparr>"
    using candidate_okD(7) [OF ok(2)] by (simp add: insert_sorted_eq)
  with False run s capacity_simps(6) [OF ok] show ?thesis
    by (auto simp: add_bottom_delegation_def has_lists_def list_access prog_simps Let_def room_made_def room_in_def)
qed

text \<open>The bonds that are left when there is room.\<close>

definition bonds_with_room ::
    "('l, 'c) staking_config_scheme \<Rightarrow> delegations \<Rightarrow> delegations \<Rightarrow> account \<rightharpoonup> nat" where
  "bonds_with_room T t b =
     (if length (dl_delegations b) = MaxBottomDelegationsPerCandidate T
      then (bonds_by t b)(bd_owner (last (dl_delegations b)) := None) else bonds_by t b)"

lemma room_in_ok:
  assumes "limits_ok T" "candidate_ok T c t b"
  shows "lists_ok T (dl_delegations t) (room_in T (dl_delegations b))"
    "length (room_in T (dl_delegations b)) < MaxBottomDelegationsPerCandidate T"
    "amount_of (dl_delegations t @ room_in T (dl_delegations b)) = bonds_with_room T t b"
    "set (room_in T (dl_delegations b)) \<subseteq> set (dl_delegations b)"
    "sum_of (room_in T (dl_delegations b)) \<le> sum_of (dl_delegations b)"
proof -
  let ?t = "dl_delegations t" and ?b = "dl_delegations b"
  note d = candidate_okD [OF assms(2)]
  have len: "length ?b \<le> MaxBottomDelegationsPerCandidate T" "0 < MaxBottomDelegationsPerCandidate T"
    using assms by (auto simp: candidate_ok_def lists_ok_def limits_ok_def)
  show "set (room_in T ?b) \<subseteq> set ?b" by (auto simp: room_in_def dest: in_set_butlastD)
  show "length (room_in T ?b) < MaxBottomDelegationsPerCandidate T" using len by (auto simp: room_in_def)
  have full: "lists_ok T ?t (butlast ?b) \<and> amount_of (?t @ butlast ?b) = (bonds_by t b)(bd_owner (last ?b) := None) \<and>
      sum_of (butlast ?b) \<le> sum_of ?b" if "length ?b = MaxBottomDelegationsPerCandidate T"
  proof -
    have "?b \<noteq> []" using that len(2) by auto
    then have m: "mset (?t @ ?b) = add_mset (last ?b) (mset (?t @ butlast ?b))" by (simp add: mset_butlast)
    have "amounts_descending (?t @ butlast ?b)"
      using d(5) by (auto simp: descending_append descending_butlast dest: in_set_butlastD)
    then have "lists_ok T ?t (butlast ?b)" by (rule lists_ok_remove [OF d(1) m]) simp_all
    with mset_remove_bond(3,4) [OF m d(2)] show ?thesis by simp
  qed
  show "lists_ok T ?t (room_in T ?b)" using full d(1) by (simp add: room_in_def)
  show "amount_of (?t @ room_in T ?b) = bonds_with_room T t b" using full by (simp add: room_in_def bonds_with_room_def)
  show "sum_of (room_in T ?b) \<le> sum_of ?b" using full by (simp add: room_in_def)
qed

lemma lists_ok_add_bottom:
  assumes "lists_ok T t b" "length b < MaxBottomDelegationsPerCandidate T" "length t = MaxTopDelegationsPerCandidate T"
    "bd_owner x \<notin> bd_owner ` set (t @ b)" "\<forall>y\<in>set t. bd_amount x \<le> bd_amount y"
  shows "lists_ok T t (insert_descending x b)"
    "amount_of (t @ insert_descending x b) = (amount_of (t @ b))(bd_owner x \<mapsto> bd_amount x)"
proof -
  have m: "mset (t @ insert_descending x b) = add_mset x (mset (t @ b))" by simp
  have d: "distinct (map bd_owner (t @ b))" using assms(1) by (simp add: lists_ok_def)
  have "amounts_descending (t @ insert_descending x b)"
    using assms(1,5) by (auto simp: lists_ok_def descending_append descending_insert)
  then show "lists_ok T t (insert_descending x b)"
    by (rule lists_ok_add [OF assms(1) m assms(4)]) (use assms(2,3) in simp_all)
  show "amount_of (t @ insert_descending x b) = (amount_of (t @ b))(bd_owner x \<mapsto> bd_amount x)"
    by (rule mset_add_bond(2) [OF m d assms(4)])
qed

lemma lists_ok_add_top:
  assumes "lists_ok T t b" "length b < MaxBottomDelegationsPerCandidate T" "length t = MaxTopDelegationsPerCandidate T"
    "t \<noteq> []" "bd_owner x \<notin> bd_owner ` set (t @ b)" "bd_amount (last t) < bd_amount x"
  shows "lists_ok T (insert_descending x (butlast t)) (insert_descending (last t) b)"
    "amount_of (insert_descending x (butlast t) @ insert_descending (last t) b) =
      (amount_of (t @ b))(bd_owner x \<mapsto> bd_amount x)"
proof -
  let ?t = "insert_descending x (butlast t)" and ?b = "insert_descending (last t) b"
  have m: "mset (?t @ ?b) = add_mset x (mset (t @ b))" using mset_butlast [OF assms(4)] by simp
  have d: "distinct (map bd_owner (t @ b))" "amounts_descending (t @ b)" using assms(1) by (simp_all add: lists_ok_def)
  then have "amounts_descending t" "amounts_descending b" by (simp_all add: descending_append)
  moreover have "\<forall>z\<in>set b. bd_amount z \<le> bd_amount (last t)" using d(2) assms(4) by (simp add: descending_append)
  moreover have "\<forall>z\<in>set (butlast t). bd_amount (last t) \<le> bd_amount z"
    using last_least \<open>amounts_descending t\<close> by (auto dest: in_set_butlastD)
  ultimately have "amounts_descending (?t @ ?b)" using assms(6)
    by (auto simp: descending_append descending_insert descending_butlast intro: less_imp_le order_trans)
  moreover have "length ?t = length t" using assms(4) by simp
  ultimately show "lists_ok T ?t ?b" by (intro lists_ok_add [OF assms(1) m assms(5)]) (use assms(2,3) in simp_all)
  show "amount_of (?t @ ?b) = (amount_of (t @ b))(bd_owner x \<mapsto> bd_amount x)"
    by (rule mset_add_bond(2) [OF m d(1) assms(5)])
qed

text \<open>The three places of a new delegation: a free place in the top list, the top list with its lowest
  delegation moved down, or the bottom list.\<close>

definition add_result ::
    "('l, 'c) staking_config_scheme \<Rightarrow> account \<Rightarrow> candidate_metadata \<Rightarrow> delegations \<Rightarrow> delegations \<Rightarrow> bond \<Rightarrow>
     candidate_metadata \<Rightarrow> nat option \<Rightarrow> ('l, 'z) staking_state_scheme \<Rightarrow> ('l, 'z) staking_state_scheme \<Rightarrow> bool" where
  "add_result T a c t b x c' kicked s s' \<longleftrightarrow>
     kicked = (if length (dl_delegations b) = MaxBottomDelegationsPerCandidate T
               then Some (bd_amount (last (dl_delegations b))) else None) \<and>
     (\<exists>s1. room_made T a b s s1 \<and>
        candidate_result T a c ((bonds_with_room T t b)(bd_owner x \<mapsto> bd_amount x)) c' s1 s')"

lemma add_top_free:
  assumes lim: "limits_ok T" and ok: "candidate_ok T c t b" and s: "has_lists a t b s"
    and fresh: "bd_owner x \<notin> bd_owner ` set (dl_delegations t @ dl_delegations b)"
    and bound: "ci_bond c + sum_of (dl_delegations t @ dl_delegations b) + bd_amount x \<le> u128_max"
    and free: "length (dl_delegations t) < MaxTopDelegationsPerCandidate T"
    and run: "add_top_delegation T a x c s = (Inr (c', kicked), s')"
  shows "kicked = None \<and> add_result T a c t b x c' None s s'"
proof -
  let ?t = "dl_delegations t" and ?b = "dl_delegations b"
  have b: "?b = []" using ok free by (auto simp: candidate_ok_def lists_ok_def)
  note d = candidate_okD [OF ok]
  have m: "mset (insert_descending x ?t @ []) = add_mset x (mset (?t @ ?b))" using b by simp
  have l: "lists_ok T (insert_descending x ?t) []"
    by (rule lists_ok_add [OF d(1) m fresh]) (use free d(6) in \<open>simp_all add: descending_insert\<close>)
  let ?t' = "\<lparr>dl_delegations = insert_descending x ?t, dl_total = saturating_add (dl_total t) (bd_amount x)\<rparr>"
  let ?c = "(top_data T ?t' c)\<lparr>ci_delegation_count := saturating_add_u32 (ci_delegation_count c) 1\<rparr>"
  have total: "dl_total ?t' = sum_of (insert_descending x ?t)"
    using ok bound by (simp add: candidate_ok_def saturating_add_exact)
  have cnt: "saturating_add_u32 (ci_delegation_count c) 1 = length (insert_descending x ?t)"
    using ok lim free b by (simp add: candidate_ok_def limits_ok_def saturating_add_u32_def)
  have r: "c' = ?c" "kicked = None" "s' = store_lists a ?t' b (pool_after a c ?c (CandidatePool s)) s"
    using run s free capacity_simps(5) [OF lim ok] d(6) store_same_bottom [OF s, where t' = ?t']
    by (auto simp: add_top_delegation_def has_lists_def list_access prog_simps Let_def reset_top_data_eq
        insert_sorted_eq top_data_def pool_after_def candidate_is_active_def)
  have "candidate_ok T ?c ?t' b"
    using l ok total cnt bound b by (simp add: candidate_ok_def top_data_def saturating_add_exact)
  moreover have "same_candidate c ?c" by (simp add: same_candidate_def top_data_def)
  moreover have "bonds_by ?t' b = (bonds_with_room T t b)(bd_owner x \<mapsto> bd_amount x)"
    using mset_add_bond(2) [OF m d(2) fresh] b lim by (simp add: bonds_with_room_def limits_ok_def)
  ultimately have "candidate_result T a c ((bonds_with_room T t b)(bd_owner x \<mapsto> bd_amount x)) c' s s'"
    unfolding candidate_result_def r by blast
  then show ?thesis using r(2) b lim by (auto simp: add_result_def room_made_def limits_ok_def)
qed

lemma add_top_full:
  assumes lim: "limits_ok T" and ok: "candidate_ok T c t b" and s: "has_lists a t b s"
    and fresh: "bd_owner x \<notin> bd_owner ` set (dl_delegations t @ dl_delegations b)"
    and bound: "ci_bond c + sum_of (dl_delegations t @ dl_delegations b) + bd_amount x \<le> u128_max"
    and full: "length (dl_delegations t) = MaxTopDelegationsPerCandidate T"
    and more_than: "ci_lowest_top_delegation_amount c < bd_amount x"
    and run: "add_top_delegation T a x c s = (Inr (c', kicked), s')"
  shows "add_result T a c t b x c' kicked s s'"
proof -
  let ?t = "dl_delegations t" and ?b = "dl_delegations b" and ?y = "last (dl_delegations t)"
  let ?r = "room_in T ?b" and ?kick = "length (dl_delegations b) = MaxBottomDelegationsPerCandidate T"
  note d = candidate_okD [OF ok] and room = room_in_ok [OF lim ok]
  have ne: "?t \<noteq> []" using full lim by (auto simp: limits_ok_def)
  have low: "bd_amount ?y < bd_amount x" using more_than ok ne by (simp add: candidate_ok_def lowest_delegation_amount_def)
  have "bd_owner x \<notin> bd_owner ` set (?t @ ?r)" using fresh room(4) by auto
  note l = lists_ok_add_top [OF room(1,2) full ne this low]
  let ?t' = "\<lparr>dl_delegations = insert_descending x (butlast ?t),
    dl_total = saturating_add (dl_total t - bd_amount ?y) (bd_amount x)\<rparr>"
  have sum: "sum_of ?t = bd_amount ?y + sum_of (butlast ?t)"
    using sum_of_mset [of ?t "?y # butlast ?t"] mset_butlast [OF ne] by simp
  have total: "dl_total ?t' = sum_of (insert_descending x (butlast ?t))"
    using ok bound sum by (simp add: candidate_ok_def saturating_add_exact)
  have lowest: "?kick \<Longrightarrow> ?b \<noteq> []" using lim by (auto simp: limits_ok_def)
  have kicked: "kicked = (if ?kick then Some (bd_amount (last ?b)) else None)"
    using run s full capacity_simps [OF lim ok] ne lowest ok
    by (auto simp: add_top_delegation_def has_lists_def list_access prog_simps Let_def reset_top_data_eq
        candidate_ok_def lowest_delegation_amount_def)
  obtain c1 s1 where bottom: "add_bottom_delegation T True a ?y c s = (Inr c1, s1)"
    and top: "s' = s1\<lparr>CandidatePool := pool_after a c1 (top_data T ?t' c1) (CandidatePool s1),
        TopDelegations := (TopDelegations s1)(a \<mapsto> ?t')\<rparr>"
      "c' = (if kicked = None then (top_data T ?t' c1)\<lparr>ci_delegation_count :=
        saturating_add_u32 (ci_delegation_count c1) 1\<rparr> else top_data T ?t' c1)"
    using run s full capacity_simps(5) [OF lim ok] ne d(6)
    by (auto simp: add_top_delegation_def has_lists_def list_access prog_simps Let_def reset_top_data_eq
        insert_sorted_eq descending_butlast top_data_def)
  obtain s2 n where room2: "room_made T a b s s2"
    and b': "s1 = s2\<lparr>BottomDelegations := (BottomDelegations s2)(a \<mapsto> \<lparr>dl_delegations = insert_descending ?y ?r, dl_total = n\<rparr>)\<rparr>"
      "c1 = reset_bottom_data T \<lparr>dl_delegations = insert_descending ?y ?r, dl_total = n\<rparr> c"
    using add_bottom_delegation_run [OF lim ok s bottom] by (auto simp: Let_def)
  let ?b' = "\<lparr>dl_delegations = insert_descending ?y ?r, dl_total = n\<rparr>"
  have cnt: "ci_delegation_count c' = length (insert_descending x (butlast ?t)) + length (insert_descending ?y ?r)"
    using ok lim full ne kicked room(2) lowest
    by (auto simp: top(2) b'(2) candidate_ok_def limits_ok_def saturating_add_u32_def top_data_def
        reset_bottom_data_def room_in_def)
  have "candidate_ok T c' ?t' ?b'"
    using l(1) ok total cnt bound room(5) sum
    by (auto simp: candidate_ok_def top(2) b'(2) top_data_def reset_bottom_data_def saturating_add_exact)
  moreover have "same_candidate c c'"
    by (simp add: same_candidate_def top(2) b'(2) top_data_def reset_bottom_data_def)
  moreover have "s' = store_lists a ?t' ?b' (pool_after a c c' (CandidatePool s2)) s2"
    by (simp add: top b' store_lists_def pool_after_def top_data_def reset_bottom_data_def candidate_is_active_def)
  moreover have "bonds_by ?t' ?b' = (bonds_with_room T t b)(bd_owner x \<mapsto> bd_amount x)" using l(2) room(3) by simp
  ultimately show ?thesis using room2 kicked unfolding add_result_def candidate_result_def by blast
qed

lemma add_bottom_place:
  assumes lim: "limits_ok T" and ok: "candidate_ok T c t b" and s: "has_lists a t b s"
    and fresh: "bd_owner x \<notin> bd_owner ` set (dl_delegations t @ dl_delegations b)"
    and bound: "ci_bond c + sum_of (dl_delegations t @ dl_delegations b) + bd_amount x \<le> u128_max"
    and full: "length (dl_delegations t) = MaxTopDelegationsPerCandidate T"
    and le: "bd_amount x \<le> ci_lowest_top_delegation_amount c"
    and run: "add_bottom_delegation T False a x c s = (Inr c', s')"
  shows "add_result T a c t b x c' (if length (dl_delegations b) = MaxBottomDelegationsPerCandidate T
    then Some (bd_amount (last (dl_delegations b))) else None) s s'"
proof -
  let ?t = "dl_delegations t" and ?b = "dl_delegations b" and ?r = "room_in T (dl_delegations b)"
  note d = candidate_okD [OF ok] and room = room_in_ok [OF lim ok]
  have fresh': "bd_owner x \<notin> bd_owner ` set (?t @ ?r)" using fresh room(4) by auto
  have "\<forall>y\<in>set ?t. bd_amount x \<le> bd_amount y" using le top_above_lowest [OF ok] by (auto intro: order_trans)
  note l = lists_ok_add_bottom [OF room(1,2) full fresh' this]
  obtain s1 n where room1: "room_made T a b s s1"
    and b': "s' = s1\<lparr>BottomDelegations := (BottomDelegations s1)(a \<mapsto> \<lparr>dl_delegations = insert_descending x ?r, dl_total = n\<rparr>)\<rparr>"
      "c' = reset_bottom_data T \<lparr>dl_delegations = insert_descending x ?r, dl_total = n\<rparr>
        (if length ?b = MaxBottomDelegationsPerCandidate T then c
         else c\<lparr>ci_delegation_count := saturating_add_u32 (ci_delegation_count c) 1\<rparr>)"
    using add_bottom_delegation_run [OF lim ok s run] by (auto simp: Let_def)
  let ?b' = "\<lparr>dl_delegations = insert_descending x ?r, dl_total = n\<rparr>"
  have cnt: "ci_delegation_count c' = length ?t + length (insert_descending x ?r)"
    using ok lim full room(2)
    by (auto simp: b'(2) candidate_ok_def limits_ok_def saturating_add_u32_def reset_bottom_data_def room_in_def)
  have "candidate_ok T c' t ?b'"
    using l(1) ok cnt bound room(5) by (auto simp: candidate_ok_def b'(2) reset_bottom_data_def)
  moreover have "same_candidate c c'" by (simp add: same_candidate_def b'(2) reset_bottom_data_def)
  moreover have "has_lists a t b s1" using s room_made_lists [OF room1] by (simp add: has_lists_def same_lists_def)
  then have "s' = store_lists a t ?b' (pool_after a c c' (CandidatePool s1)) s1"
    using store_same_top [where b' = ?b'] by (simp add: b' reset_bottom_data_def)
  moreover have "bonds_by t ?b' = (bonds_with_room T t b)(bd_owner x \<mapsto> bd_amount x)" using l(2) room(3) by simp
  ultimately show ?thesis using room1 unfolding add_result_def candidate_result_def by blast
qed

lemma candidate_add_delegation_ok:
  assumes lim: "limits_ok T" and ok: "candidate_ok T c t b" and s: "has_lists a t b s"
    and fresh: "bonds_by t b (bd_owner x) = None"
    and bound: "ci_bond c + sum_of (dl_delegations t @ dl_delegations b) + bd_amount x \<le> u128_max"
    and run: "candidate_add_delegation T a x c s = (Inr (c', place, kicked), s')"
  shows "add_result T a c t b x c' kicked s s'"
proof -
  have fresh': "bd_owner x \<notin> bd_owner ` set (dl_delegations t @ dl_delegations b)"
    using fresh by (simp only: amount_of_None not_False_eq_True)
  note cap = capacity_simps [OF lim ok]
  have len: "length (dl_delegations t) \<le> MaxTopDelegationsPerCandidate T"
    using ok by (simp add: candidate_ok_def lists_ok_def)
  have ne: "length (dl_delegations b) = MaxBottomDelegationsPerCandidate T \<Longrightarrow>
      ci_lowest_bottom_delegation_amount c = bd_amount (last (dl_delegations b))"
    using ok lim by (auto simp: candidate_ok_def lowest_delegation_amount_def limits_ok_def)
  consider (free) "ci_top_capacity c \<noteq> Full" | (high) "ci_top_capacity c = Full" "ci_lowest_top_delegation_amount c < bd_amount x"
    | (low) "ci_top_capacity c = Full" "bd_amount x \<le> ci_lowest_top_delegation_amount c" by linarith
  then show ?thesis
  proof cases
    case free
    then have lt: "length (dl_delegations t) < MaxTopDelegationsPerCandidate T" using cap(1) len by simp
    from free run obtain k where "add_top_delegation T a x c s = (Inr (c', k), s')" "kicked = None"
      by (auto simp: candidate_add_delegation_def prog_simps)
    then show ?thesis using add_top_free [OF lim ok s fresh' bound lt] by blast
  next
    case high
    with run have "add_top_delegation T a x c s = (Inr (c', kicked), s')"
      by (auto simp: candidate_add_delegation_def prog_simps)
    with add_top_full [OF lim ok s fresh' bound _ high(2)] high(1) cap(1) show ?thesis by blast
  next
    case low
    with run ne cap(2) have "add_bottom_delegation T False a x c s = (Inr c', s') \<and>
        kicked = (if length (dl_delegations b) = MaxBottomDelegationsPerCandidate T
          then Some (bd_amount (last (dl_delegations b))) else None)"
      by (auto simp: candidate_add_delegation_def prog_simps split: if_splits)
    with add_bottom_place [OF lim ok s fresh' bound _ low(2)] low(1) cap(1) show ?thesis by blast
  qed
qed

end
