(* ===== verification/Staking_Invariant.thy ===== *)
theory Staking_Invariant
  imports Staking_Candidate_Props
begin

text \<open>
  The abstract state of the pallet \<^verbatim>\<open>parachain-staking\<close> is a table \<open>D\<close> of delegations, a partial map from
  delegators and candidates to amounts. The pallet keeps every delegation twice, in the state of the
  delegator and in one of the two lists of the candidate, and derives from it the currency holds, the
  candidate pool and the scheduled requests. \<open>staking_ok\<close> says that all of them represent the same table. The
  lemmas of this theory say how each part carries over when one delegator or one candidate changes.
\<close>

section \<open>Holds\<close>

definition hold_of :: "('l, 'c) staking_config_scheme \<Rightarrow> staking_hold_reason \<Rightarrow> account \<Rightarrow> 'l \<Rightarrow> nat" where
  "hold_of T r who l = c_balance_on_hold (st_currency T) (StakingReason r) who l"

lemma balance_on_hold_eq: "balance_on_hold T r who s = hold_of T r who (ext s)"
  by (simp add: balance_on_hold_def hold_of_def)

text \<open>
  What the pallet relies on of its currency besides the contracts of \<^verbatim>\<open>hold\<close> and \<^verbatim>\<open>release\<close>: the balances
  and holds of any accounts together fit into a \<open>u128\<close>, as the total issuance does, and moving money
  between an account's balance and its hold does not change that.
\<close>

definition ledger_bounded :: "('l, 'c) staking_config_scheme \<Rightarrow> 'l \<Rightarrow> bool" where
  "ledger_bounded T l \<longleftrightarrow> (\<forall>A. finite A \<longrightarrow>
     (\<Sum>a\<in>A. reducible_balance T a l + hold_of T StakingCollator a l + hold_of T StakingDelegator a l) \<le> u128_max)"

definition staking_laws :: "('l, 'c) staking_config_scheme \<Rightarrow> bool" where
  "staking_laws T \<longleftrightarrow> hold_laws (st_currency T) \<and> release_laws (st_currency T) \<and>
     (\<forall>r who amt l u l'. c_hold (st_currency T) (StakingReason r) who amt l = (Inr u, l') \<longrightarrow>
        ledger_bounded T l \<longrightarrow> ledger_bounded T l') \<and>
     (\<forall>r who amt p l n l'. c_release (st_currency T) (StakingReason r) who amt p l = (Inr n, l') \<longrightarrow>
        ledger_bounded T l \<longrightarrow> ledger_bounded T l')"

definition hold_set ::
    "('l, 'c) staking_config_scheme \<Rightarrow> staking_hold_reason \<Rightarrow> account \<Rightarrow> nat \<Rightarrow> 'l \<Rightarrow> 'l \<Rightarrow> bool" where
  "hold_set T r who n l l' \<longleftrightarrow>
     (\<forall>r' w. hold_of T r' w l' = (if r' = r \<and> w = who then n else hold_of T r' w l)) \<and>
     (ledger_bounded T l \<longrightarrow> ledger_bounded T l')"

lemma hold_setD:
  assumes "hold_set T r who n l l'"
  shows "hold_of T r who l' = n" "r' \<noteq> r \<Longrightarrow> hold_of T r' w l' = hold_of T r' w l"
    "w \<noteq> who \<Longrightarrow> hold_of T r w l' = hold_of T r w l" "ledger_bounded T l \<Longrightarrow> ledger_bounded T l'"
  using assms by (auto simp: hold_set_def)

lemma st_hold_ok:
  assumes "staking_laws T" "st_hold T r who n s = (Inr u, s')"
  shows "\<exists>l. s' = s\<lparr>ext := l\<rparr> \<and> hold_set T r who (hold_of T r who (ext s) + n) (ext s) l"
proof -
  obtain l where l: "c_hold (st_currency T) (StakingReason r) who n (ext s) = (Inr u, l)" "s' = s\<lparr>ext := l\<rparr>"
    using assms(2) by (auto simp: st_hold_def on_ext_Inr)
  have "c_balance_on_hold (st_currency T) (StakingReason r) who l =
      c_balance_on_hold (st_currency T) (StakingReason r) who (ext s) + n \<and>
    (\<forall>r' w. (r', w) \<noteq> (StakingReason r, who) \<longrightarrow>
      c_balance_on_hold (st_currency T) r' w l = c_balance_on_hold (st_currency T) r' w (ext s))"
    using hold_laws_def [THEN iffD1, rule_format, OF _ l(1)] assms(1) by (simp add: staking_laws_def)
  moreover have "ledger_bounded T (ext s) \<longrightarrow> ledger_bounded T l"
    using assms(1) l(1) unfolding staking_laws_def by blast
  ultimately show ?thesis using l(2) by (auto simp: hold_set_def hold_of_def)
qed

lemma st_release_ok:
  assumes "staking_laws T" "st_release T r who n s = (Inr u, s')"
  shows "\<exists>l. s' = s\<lparr>ext := l\<rparr> \<and> hold_set T r who (hold_of T r who (ext s) - n) (ext s) l \<and>
    n \<le> hold_of T r who (ext s)"
proof -
  obtain l k where l: "c_release (st_currency T) (StakingReason r) who n Exact (ext s) = (Inr k, l)"
    "s' = s\<lparr>ext := l\<rparr>"
    using assms(2) by (auto simp: st_release_def prog_simps)
  have "release_laws (st_currency T)" using assms(1) by (simp add: staking_laws_def)
  note rel = release_lawsD [OF this l(1)]
  have "ledger_bounded T (ext s) \<longrightarrow> ledger_bounded T l"
    using assms(1) l(1) unfolding staking_laws_def by blast
  with rel l(2) show ?thesis by (auto simp: hold_set_def hold_of_def)
qed

lemma adjust_bond_lock_ok:
  assumes "staking_laws T" "adjust_bond_lock T adj d s = (Inr u, s')"
  shows "\<exists>l. s' = s\<lparr>ext := l\<rparr> \<and> hold_set T StakingDelegator (dg_id d) (dg_total d) (ext s) l"
proof -
  let ?h = "hold_of T StakingDelegator (dg_id d) (ext s)"
  have run: "(if ?h > dg_total d then st_release T StakingDelegator (dg_id d) (?h - dg_total d)
      else st_hold T StakingDelegator (dg_id d) (dg_total d - ?h)) s = (Inr (), s')"
    using assms(2)
    by (auto simp: adjust_bond_lock_def prog_simps balance_on_hold_eq split: bond_adjust.splits if_splits)
  show ?thesis
  proof (cases "?h > dg_total d")
    case True
    with run have "st_release T StakingDelegator (dg_id d) (?h - dg_total d) s = (Inr (), s')" by simp
    from st_release_ok [OF assms(1) this] True show ?thesis by auto
  next
    case False
    with run have "st_hold T StakingDelegator (dg_id d) (dg_total d - ?h) s = (Inr (), s')" by simp
    from st_hold_ok [OF assms(1) this] False show ?thesis by auto
  qed
qed

section \<open>The representation of the table\<close>

type_synonym table = "account \<Rightarrow> account \<rightharpoonup> nat"

definition delegator_ok :: "account \<Rightarrow> (account \<rightharpoonup> nat) \<Rightarrow> delegator \<Rightarrow> bool" where
  "delegator_ok d m st \<longleftrightarrow>
     dg_id st = d \<and> dg_status st = DelegatorActive \<and> dg_delegations st \<noteq> [] \<and>
     owners_ordered (dg_delegations st) \<and> amount_of (dg_delegations st) = m \<and>
     dg_total st = sum_of (dg_delegations st) \<and> (\<forall>n\<in>ran m. 0 < n)"

definition delegators_ok ::
    "('l, 'c) staking_config_scheme \<Rightarrow> table \<Rightarrow> ('l, 'z) staking_state_scheme \<Rightarrow> bool" where
  "delegators_ok T D s \<longleftrightarrow>
     (\<forall>d. case DelegatorState s d of
        None \<Rightarrow> D d = Map.empty \<and> hold_of T StakingDelegator d (ext s) = 0
      | Some st \<Rightarrow> delegator_ok d (D d) st \<and> hold_of T StakingDelegator d (ext s) = dg_total st)"

definition candidates_ok ::
    "('l, 'c) staking_config_scheme \<Rightarrow> table \<Rightarrow> ('l, 'z) staking_state_scheme \<Rightarrow> bool" where
  "candidates_ok T D s \<longleftrightarrow>
     (\<forall>a. case CandidateInfo s a of
        None \<Rightarrow> (\<forall>d. D d a = None) \<and> hold_of T StakingCollator a (ext s) = 0
      | Some c \<Rightarrow> hold_of T StakingCollator a (ext s) = ci_bond c \<and>
          (\<exists>t b. has_lists a t b s \<and> candidate_ok T c t b \<and> bonds_by t b = (\<lambda>d. D d a)))"

text \<open>The pool holds exactly the active candidates, with their counted stake.\<close>

definition stake_if_active :: "candidate_metadata option \<Rightarrow> nat option" where
  "stake_if_active x =
     (case x of None \<Rightarrow> None | Some c \<Rightarrow> if candidate_is_active c then Some (ci_total_counted c) else None)"

definition pool_ok :: "('l, 'z) staking_state_scheme \<Rightarrow> bool" where
  "pool_ok s \<longleftrightarrow> owners_ordered (CandidatePool s) \<and>
     amount_of (CandidatePool s) = (\<lambda>a. stake_if_active (CandidateInfo s a))"

definition roles_ok :: "('l, 'z) staking_state_scheme \<Rightarrow> bool" where
  "roles_ok s \<longleftrightarrow> (\<forall>a. \<not> (is_candidate s a \<and> is_delegator s a))"

text \<open>A delegation has at most one request; a revocation is for the whole amount.\<close>

definition request_ok :: "nat option \<Rightarrow> delegation_action \<Rightarrow> bool" where
  "request_ok n act \<longleftrightarrow> (case act of Revoke m \<Rightarrow> n = Some m | Decrease m \<Rightarrow> (\<exists>k. n = Some k \<and> m < k))"

definition requests_ok :: "table \<Rightarrow> ('l, 'z) staking_state_scheme \<Rightarrow> bool" where
  "requests_ok D s \<longleftrightarrow>
     (\<forall>a. distinct (map sr_delegator (DelegationScheduledRequests s a)) \<and>
        (\<forall>req\<in>set (DelegationScheduledRequests s a). request_ok (D (sr_delegator req) a) (sr_action req)))"

definition staking_ok ::
    "('l, 'c) staking_config_scheme \<Rightarrow> table \<Rightarrow> ('l, 'z) staking_state_scheme \<Rightarrow> bool" where
  "staking_ok T D s \<longleftrightarrow> delegators_ok T D s \<and> candidates_ok T D s \<and> pool_ok s \<and> roles_ok s \<and>
     requests_ok D s \<and> ledger_bounded T (ext s)"

lemma staking_okD:
  assumes "staking_ok T D s"
  shows "delegators_ok T D s" "candidates_ok T D s" "pool_ok s" "roles_ok s" "requests_ok D s"
    "ledger_bounded T (ext s)"
  using assms by (simp_all add: staking_ok_def)

section \<open>Reading the parts\<close>

lemma delegators_okD:
  assumes "delegators_ok T D s"
  shows "DelegatorState s d = None \<Longrightarrow> D d = Map.empty"
    "DelegatorState s d = None \<Longrightarrow> hold_of T StakingDelegator d (ext s) = 0"
    "DelegatorState s d = Some st \<Longrightarrow> delegator_ok d (D d) st"
    "DelegatorState s d = Some st \<Longrightarrow> hold_of T StakingDelegator d (ext s) = dg_total st"
    "D d a = Some n \<Longrightarrow> \<exists>st. DelegatorState s d = Some st"
  using assms unfolding delegators_ok_def
  by (force split: option.splits)+

lemma candidates_okD:
  assumes "candidates_ok T D s"
  shows "CandidateInfo s a = None \<Longrightarrow> D d a = None"
    "CandidateInfo s a = Some c \<Longrightarrow> hold_of T StakingCollator a (ext s) = ci_bond c"
    "CandidateInfo s a = Some c \<Longrightarrow>
      \<exists>t b. has_lists a t b s \<and> candidate_ok T c t b \<and> bonds_by t b = (\<lambda>d. D d a)"
    "CandidateInfo s a = None \<Longrightarrow> hold_of T StakingCollator a (ext s) = 0"
    "D d a = Some n \<Longrightarrow> \<exists>c. CandidateInfo s a = Some c"
  using assms unfolding candidates_ok_def
  by (force split: option.splits)+

section \<open>One delegator or one candidate changes\<close>

lemma delegators_ok_upd:
  assumes "delegators_ok T D s" "DelegatorState s' = (DelegatorState s)(d := x)"
    "\<And>w. w \<noteq> d \<Longrightarrow> hold_of T StakingDelegator w (ext s') = hold_of T StakingDelegator w (ext s)"
    "\<And>w. w \<noteq> d \<Longrightarrow> D' w = D w"
    "case x of None \<Rightarrow> D' d = Map.empty \<and> hold_of T StakingDelegator d (ext s') = 0
      | Some st \<Rightarrow> delegator_ok d (D' d) st \<and> hold_of T StakingDelegator d (ext s') = dg_total st"
  shows "delegators_ok T D' s'"
  unfolding delegators_ok_def
proof
  fix w
  show "case DelegatorState s' w of None \<Rightarrow> D' w = Map.empty \<and> hold_of T StakingDelegator w (ext s') = 0
      | Some st \<Rightarrow> delegator_ok w (D' w) st \<and> hold_of T StakingDelegator w (ext s') = dg_total st"
  proof (cases "w = d")
    case True
    with assms(2,5) show ?thesis by (auto split: option.splits)
  next
    case False
    with assms(1) [unfolded delegators_ok_def, rule_format, of w] assms(2-4) show ?thesis
      by (simp cong: option.case_cong)
  qed
qed

lemma delegators_ok_cong:
  assumes "delegators_ok T D s" "DelegatorState s' = DelegatorState s"
    "\<And>w. hold_of T StakingDelegator w (ext s') = hold_of T StakingDelegator w (ext s)"
  shows "delegators_ok T D s'"
  using assms by (simp add: delegators_ok_def cong: option.case_cong)

lemma candidates_ok_upd:
  assumes "candidates_ok T D s" "CandidateInfo s' = (CandidateInfo s)(a \<mapsto> c)"
    "\<And>w. w \<noteq> a \<Longrightarrow> TopDelegations s' w = TopDelegations s w"
    "\<And>w. w \<noteq> a \<Longrightarrow> BottomDelegations s' w = BottomDelegations s w"
    "\<And>w. w \<noteq> a \<Longrightarrow> hold_of T StakingCollator w (ext s') = hold_of T StakingCollator w (ext s)"
    "\<And>d w. w \<noteq> a \<Longrightarrow> D' d w = D d w"
    "hold_of T StakingCollator a (ext s') = ci_bond c" "has_lists a t b s'" "candidate_ok T c t b"
    "bonds_by t b = (\<lambda>d. D' d a)"
  shows "candidates_ok T D' s'"
  unfolding candidates_ok_def
proof
  fix w
  show "case CandidateInfo s' w of None \<Rightarrow> (\<forall>d. D' d w = None) \<and> hold_of T StakingCollator w (ext s') = 0
      | Some c \<Rightarrow> hold_of T StakingCollator w (ext s') = ci_bond c \<and>
          (\<exists>t b. has_lists w t b s' \<and> candidate_ok T c t b \<and> bonds_by t b = (\<lambda>d. D' d w))"
  proof (cases "w = a")
    case True
    with assms(2,7-10) show ?thesis by auto
  next
    case False
    with assms(1) [unfolded candidates_ok_def, rule_format, of w] assms(2-6) show ?thesis
      by (simp add: has_lists_def cong: option.case_cong)
  qed
qed

lemma candidates_ok_cong:
  assumes "candidates_ok T D s" "CandidateInfo s' = CandidateInfo s" "TopDelegations s' = TopDelegations s"
    "BottomDelegations s' = BottomDelegations s"
    "\<And>w. hold_of T StakingCollator w (ext s') = hold_of T StakingCollator w (ext s)"
  shows "candidates_ok T D s'"
  using assms by (simp add: candidates_ok_def has_lists_def cong: option.case_cong)

lemma pool_with_ok:
  assumes "owners_ordered p"
  shows "owners_ordered (pool_with a n p)" "amount_of (pool_with a n p) = (amount_of p)(a \<mapsto> n)"
  using assms
  by (simp_all add: pool_with_def bond_from_owner_def owners_ordered_insert owners_ordered_remove
      amount_of_insert amount_of_remove)

lemma pool_ok_upd:
  assumes "pool_ok s" "CandidateInfo s a = Some c" "CandidateInfo s' = (CandidateInfo s)(a \<mapsto> c')"
    "CandidatePool s' = pool_after a c c' (CandidatePool s)" "same_candidate c c'"
  shows "pool_ok s'"
  using assms pool_with_ok [of "CandidatePool s"]
  by (auto simp: pool_ok_def pool_after_def stake_if_active_def same_candidate_def candidate_is_active_def
      fun_eq_iff split: if_splits)

lemma requests_ok_sub:
  assumes "requests_ok D s" "\<And>w. w \<noteq> a \<Longrightarrow> DelegationScheduledRequests s' w = DelegationScheduledRequests s w"
    "distinct (map sr_delegator (DelegationScheduledRequests s' a))"
    "\<forall>req\<in>set (DelegationScheduledRequests s' a). request_ok (D' (sr_delegator req) a) (sr_action req)"
    "\<And>d w. w \<noteq> a \<Longrightarrow> D' d w = D d w"
  shows "requests_ok D' s'"
  unfolding requests_ok_def
proof
  fix w
  show "distinct (map sr_delegator (DelegationScheduledRequests s' w)) \<and>
      (\<forall>req\<in>set (DelegationScheduledRequests s' w). request_ok (D' (sr_delegator req) w) (sr_action req))"
    using assms unfolding requests_ok_def by (cases "w = a") simp_all
qed

lemma requests_ok_cong:
  "requests_ok D s \<Longrightarrow> DelegationScheduledRequests s' = DelegationScheduledRequests s \<Longrightarrow> requests_ok D s'"
  by (simp add: requests_ok_def)

end
