(* ===== verification/Staking_Delegator_Props.thy ===== *)
theory Staking_Delegator_Props
  imports Staking_Invariant
begin

text \<open>
  What the operations of \<^verbatim>\<open>types.rs\<close> on a delegator do to its row of the table of delegations, to its
  hold and to its scheduled requests: dropping a bond (when it is revoked, kicked out or the candidate
  leaves), adding one and changing its amount.
\<close>

section \<open>Rows\<close>

lemma insert_by_front:
  "(\<And>y. y \<in> set ys \<Longrightarrow> cmp x y \<noteq> Greater) \<Longrightarrow> insert_by cmp x ys = x # ys"
  by (cases ys) auto

lemma os_from_ordered: "owners_ordered xs \<Longrightarrow> os_from bond_cmp xs = xs"
proof -
  assume o: "owners_ordered xs"
  have "sort_by bond_cmp xs = xs" using o
  proof (induction xs)
    case (Cons x xs)
    then have IH: "sort_by bond_cmp xs = xs" by (simp add: owners_ordered_def)
    have "insert_by bond_cmp x xs = x # xs"
      using Cons.prems by (intro insert_by_front) (auto simp: owners_ordered_def bond_cmp_def nat_cmp_def)
    with IH show ?case by (simp add: sort_by_def)
  qed (simp add: sort_by_def)
  moreover have "dedup bond_cmp xs = xs" using o
  proof (induction xs rule: induct_list012)
    case (3 x y zs)
    then show ?case by (auto simp: owners_ordered_def bond_cmp_def nat_cmp_def)
  qed auto
  ultimately show ?thesis by (simp add: os_from_def)
qed

lemma ordered_distinct: "owners_ordered xs \<Longrightarrow> distinct (map bd_owner xs)"
  unfolding owners_ordered_def by (rule bonds.distinct_keys)

lemma without_owner_row:
  assumes "owners_ordered xs" "amount_of xs a = Some n"
  shows "owners_ordered (without_owner a xs)" "amount_of (without_owner a xs) = (amount_of xs)(a := None)"
    "sum_of xs = n + sum_of (without_owner a xs)" "last_bond_of a xs = Some \<lparr>bd_owner = a, bd_amount = n\<rparr>"
    "length xs = Suc (length (without_owner a xs))"
proof -
  have d: "distinct (map bd_owner xs)" by (rule ordered_distinct [OF assms(1)])
  have x: "\<lparr>bd_owner = a, bd_amount = n\<rparr> \<in> set xs" using amount_of_Some [OF d] assms(2) by blast
  have m: "mset xs = add_mset \<lparr>bd_owner = a, bd_amount = n\<rparr> (mset (without_owner a xs))"
    using without_owner_split(1) [OF d x] by simp
  show "owners_ordered (without_owner a xs)"
    using assms(1) by (simp add: owners_ordered_def without_owner_def sorted_wrt_filter)
  show "amount_of (without_owner a xs) = (amount_of xs)(a := None)" "sum_of xs = n + sum_of (without_owner a xs)"
    using mset_remove_bond(3,4) [OF m d] by simp_all
  show "last_bond_of a xs = Some \<lparr>bd_owner = a, bd_amount = n\<rparr>" using without_owner_split(2) [OF d x] by simp
  show "length xs = Suc (length (without_owner a xs))" using length_without_owner [OF d x] by simp
qed

lemma amount_of_empty: "amount_of xs = Map.empty \<longleftrightarrow> xs = []"
  by (cases xs) (auto simp: amount_of_def fun_eq_iff)

lemma insert_row:
  assumes "owners_ordered xs" "amount_of xs (bd_owner b) = None"
  shows "sum_of (fst (os_insert bond_cmp b xs)) = bd_amount b + sum_of xs"
    "fst (os_insert bond_cmp b xs) \<noteq> []" "snd (os_insert bond_cmp b xs)"
proof -
  have i: "snd (os_insert bond_cmp b xs)" by (simp add: amount_of_insert(2) [OF assms(1)] assms(2))
  then obtain i where "binary_search_by (\<lambda>x. bond_cmp x b) xs = Inl i"
    by (auto simp: os_insert_def split: sum.splits)
  then have "fst (os_insert bond_cmp b xs) = insert_at i b xs" by (simp add: os_insert_def)
  with sum_of_mset [of "insert_at i b xs" "b # xs"] i
  show "sum_of (fst (os_insert bond_cmp b xs)) = bd_amount b + sum_of xs"
    "fst (os_insert bond_cmp b xs) \<noteq> []" "snd (os_insert bond_cmp b xs)"
    by (simp_all add: mset_insert_at) (simp add: insert_at_def)
qed

lemma change_first_eq: "distinct (map bd_owner xs) \<Longrightarrow> change_first_bond a f xs = change_bond a f xs"
proof (induction xs)
  case (Cons x xs)
  have "change_bond a f xs = xs" if "a \<notin> bd_owner ` set xs"
    using that by (auto simp: change_bond_def intro!: map_idI)
  with Cons show ?case by (auto simp: change_bond_def)
qed (simp add: change_bond_def)

lemma change_row:
  assumes "owners_ordered xs" "amount_of xs a = Some n"
  shows "owners_ordered (change_first_bond a f xs)"
    "amount_of (change_first_bond a f xs) = (amount_of xs)(a \<mapsto> f n)"
    "sum_of (change_first_bond a f xs) + n = sum_of xs + f n" "change_first_bond a f xs \<noteq> []"
proof -
  let ?x = "\<lparr>bd_owner = a, bd_amount = n\<rparr>"
  have d: "distinct (map bd_owner xs)" by (rule ordered_distinct [OF assms(1)])
  have x: "?x \<in> set xs" using amount_of_Some [OF d] assms(2) by blast
  note e = change_first_eq [OF d, of a f]
  have "map bd_owner (change_bond a f xs) = map bd_owner xs" by (simp add: change_bond_def)
  moreover have "owners_ordered ys \<longleftrightarrow> sorted_wrt (<) (map bd_owner ys)" for ys
    by (simp add: owners_ordered_def sorted_wrt_map)
  ultimately show "owners_ordered (change_first_bond a f xs)" using assms(1) e by simp
  show "change_first_bond a f xs \<noteq> []" using x by (simp add: e change_bond_def) auto
  have m: "mset xs = add_mset ?x (mset (without_owner a xs))" using without_owner_split(1) [OF d x] by simp
  have m': "mset (change_bond a f xs) = add_mset (?x\<lparr>bd_amount := f n\<rparr>) (mset (without_owner a xs))"
    using change_bond_split [OF d x, of f] by simp
  note r = mset_change_bond [OF m m' owner_update d]
  show "amount_of (change_first_bond a f xs) = (amount_of xs)(a \<mapsto> f n)"
    "sum_of (change_first_bond a f xs) + n = sum_of xs + f n"
    using r(2,3) e by simp_all
qed

lemma get_bond_amount_eq: "get_bond_amount a st = amount_of (dg_delegations st) a"
proof -
  have "map_option bd_amount (List.find (\<lambda>b. bd_owner b = a) xs) = amount_of xs a" for xs
    by (induction xs) (auto simp: amount_of_def)
  then show ?thesis by (simp add: get_bond_amount_def)
qed

section \<open>Requests\<close>

lemma position_Some: "position P xs = Some i \<Longrightarrow> i < length xs \<and> P (xs ! i)"
proof (induction xs arbitrary: i)
  case (Cons x xs)
  then show ?case by (cases "P x") (auto simp: nth_Cons split: nat.splits)
qed simp

lemma position_None: "position P xs = None \<longleftrightarrow> (\<forall>x\<in>set xs. \<not> P x)"
  by (induction xs) auto

definition without_request :: "account \<Rightarrow> scheduled_request list \<Rightarrow> scheduled_request list" where
  "without_request d reqs = filter (\<lambda>r. sr_delegator r \<noteq> d) reqs"

lemma remove_request_at:
  assumes "distinct (map sr_delegator reqs)" "i < length reqs" "sr_delegator (reqs ! i) = d"
  shows "remove_at i reqs = without_request d reqs"
proof -
  have split: "reqs = take i reqs @ reqs ! i # drop (Suc i) reqs" using assms(2) by (simp add: id_take_nth_drop)
  have "distinct (map sr_delegator (take i reqs @ reqs ! i # drop (Suc i) reqs))" using assms(1) split by simp
  then have "d \<notin> sr_delegator ` set (take i reqs)" "d \<notin> sr_delegator ` set (drop (Suc i) reqs)"
    using assms(3) by auto
  then have f: "filter (\<lambda>r. sr_delegator r \<noteq> d) (take i reqs) = take i reqs"
    "filter (\<lambda>r. sr_delegator r \<noteq> d) (drop (Suc i) reqs) = drop (Suc i) reqs"
    by (auto simp: filter_id_conv)
  have "without_request d reqs = filter (\<lambda>r. sr_delegator r \<noteq> d) (take i reqs @ reqs ! i # drop (Suc i) reqs)"
    using split by (simp add: without_request_def)
  also have "\<dots> = take i reqs @ drop (Suc i) reqs" by (simp add: f assms(3))
  finally show ?thesis by (simp add: remove_at_def)
qed

lemma cancel_request_eq:
  assumes "distinct (map sr_delegator reqs)"
  shows "\<exists>n found. cancel_request_with_state d st reqs = (st\<lparr>dg_less_total := n\<rparr>, without_request d reqs, found) \<and>
    (found = None \<longrightarrow> n = dg_less_total st \<and> without_request d reqs = reqs) \<and>
    (\<forall>req. found = Some req \<longrightarrow> req \<in> set reqs \<and> sr_delegator req = d)"
proof (cases "position (\<lambda>req. sr_delegator req = d) reqs")
  case None
  then have "without_request d reqs = reqs" by (auto simp: position_None without_request_def filter_id_conv)
  with None show ?thesis by (auto simp: cancel_request_with_state_def intro!: exI [of _ "dg_less_total st"])
next
  case (Some i)
  then have i: "i < length reqs" "sr_delegator (reqs ! i) = d" using position_Some [OF Some] by auto
  with Some remove_request_at [OF assms i] show ?thesis by (auto simp: cancel_request_with_state_def Let_def)
qed

lemma without_request_ok:
  assumes "requests_ok D s" "\<And>w. D' w = (if w = d then (D d)(a := x) else D w)"
    "DelegationScheduledRequests s' = (DelegationScheduledRequests s)(a := without_request d (DelegationScheduledRequests s a))"
  shows "requests_ok D' s'"
proof (rule requests_ok_sub [OF assms(1), where a = a])
  have a: "distinct (map sr_delegator (DelegationScheduledRequests s a))"
    "\<forall>req\<in>set (DelegationScheduledRequests s a). request_ok (D (sr_delegator req) a) (sr_action req)"
    using assms(1) by (simp_all add: requests_ok_def)
  show "distinct (map sr_delegator (DelegationScheduledRequests s' a))"
    using a(1) by (simp add: assms(3) without_request_def distinct_map_filter)
  show "\<forall>req\<in>set (DelegationScheduledRequests s' a). request_ok (D' (sr_delegator req) a) (sr_action req)"
    using a(2) by (auto simp: assms(2,3) without_request_def)
qed (simp_all add: assms(2,3))

lemma delegation_remove_request_run:
  assumes "distinct (map sr_delegator (DelegationScheduledRequests s a))"
    "delegation_remove_request_with_state a d st s = (Inr st', s')"
  shows "\<exists>n. st' = st\<lparr>dg_less_total := n\<rparr> \<and>
    s' = s\<lparr>DelegationScheduledRequests := (DelegationScheduledRequests s)
        (a := without_request d (DelegationScheduledRequests s a))\<rparr>"
proof -
  obtain n found where c: "cancel_request_with_state d st (DelegationScheduledRequests s a) =
      (st\<lparr>dg_less_total := n\<rparr>, without_request d (DelegationScheduledRequests s a), found)"
    and none: "found = None \<longrightarrow> n = dg_less_total st \<and>
      without_request d (DelegationScheduledRequests s a) = DelegationScheduledRequests s a"
    using cancel_request_eq [OF assms(1), of d st] by blast
  show ?thesis
  proof (cases found)
    case None
    with none assms(2) c show ?thesis
      by (auto simp: delegation_remove_request_with_state_def prog_simps intro!: exI [of _ "dg_less_total st"])
  next
    case (Some req)
    with assms(2) c show ?thesis
      by (auto simp: delegation_remove_request_with_state_def prog_simps put_requests_def)
  qed
qed

section \<open>Dropping a bond\<close>

text \<open>Delegator \<open>d\<close> has lost its bond to \<open>a\<close>; the lists of the candidates are as before.\<close>

definition bond_dropped ::
    "('l, 'c) staking_config_scheme \<Rightarrow> table \<Rightarrow> account \<Rightarrow> account \<Rightarrow> ('l, 'z) staking_state_scheme \<Rightarrow>
     ('l, 'z) staking_state_scheme \<Rightarrow> bool" where
  "bond_dropped T D d a s s' \<longleftrightarrow>
     delegators_ok T (D(d := (D d)(a := None))) s' \<and> same_lists s s' \<and>
     DelegationScheduledRequests s' = (DelegationScheduledRequests s)
       (a := without_request d (DelegationScheduledRequests s a)) \<and>
     (\<forall>w. hold_of T StakingCollator w (ext s') = hold_of T StakingCollator w (ext s)) \<and>
     (ledger_bounded T (ext s) \<longrightarrow> ledger_bounded T (ext s')) \<and>
     (\<forall>w. DelegatorState s' w \<noteq> None \<longrightarrow> DelegatorState s w \<noteq> None)"

lemma delegator_rm_delegation_ok:
  assumes "staking_laws T" "delegator_ok d m st" "m a = Some n"
    and run: "delegator_rm_delegation T a st s = (Inr (st', rem), s')"
  shows "\<exists>l. s' = s\<lparr>ext := l\<rparr> \<and> hold_set T StakingDelegator d (dg_total st - n) (ext s) l \<and>
    rem = Some (dg_total st - n) \<and>
    st' = st\<lparr>dg_delegations := without_owner a (dg_delegations st), dg_total := dg_total st - n\<rparr>"
proof -
  have o: "owners_ordered (dg_delegations st)" "amount_of (dg_delegations st) a = Some n" "dg_id st = d"
    using assms(2,3) by (auto simp: delegator_ok_def)
  note row = without_owner_row [OF o(1,2)]
  let ?st = "st\<lparr>dg_delegations := without_owner a (dg_delegations st), dg_total := dg_total st - n\<rparr>"
  have "adjust_bond_lock T DecreaseBond ?st s = (Inr (), s')" "st' = ?st" "rem = Some (dg_total st - n)"
    using run by (auto simp: delegator_rm_delegation_def row(4) total_sub_def prog_simps os_from_ordered [OF row(1)] Let_def)
  with adjust_bond_lock_ok [OF assms(1)] show ?thesis using o(3) by fastforce
qed

lemma remove_auto_compound_run:
  assumes "remove_auto_compound a d s = (Inr u, s')"
  shows "\<exists>cs. s' = s\<lparr>AutoCompoundingDelegations := cs\<rparr>"
proof -
  obtain cs removed where r: "remove_for_delegator d (AutoCompoundingDelegations s a) = (cs, removed)" by fastforce
  show ?thesis
  proof (cases removed)
    case True
    with assms r show ?thesis by (auto simp: remove_auto_compound_def put_auto_compound_def prog_simps)
  next
    case False
    with assms r show ?thesis
      by (auto simp: remove_auto_compound_def prog_simps intro!: exI [of _ "AutoCompoundingDelegations s"])
  qed
qed

text \<open>The new state of the delegator: gone when nothing is left.\<close>

lemma delegators_drop_row:
  assumes ok: "delegators_ok T D s" and st: "DelegatorState s d = Some st" and n: "D d a = Some n"
    and hold: "hold_set T StakingDelegator d (dg_total st - n) (ext s) (ext s')"
    and state: "DelegatorState s' = (DelegatorState s)(d := if without_owner a (dg_delegations st) = [] then None
      else Some (st\<lparr>dg_delegations := without_owner a (dg_delegations st), dg_total := dg_total st - n,
                    dg_less_total := k\<rparr>))"
  shows "delegators_ok T (D(d := (D d)(a := None))) s'"
proof (rule delegators_ok_upd [OF ok state])
  have dok: "delegator_ok d (D d) st" by (rule delegators_okD(3) [OF ok st])
  then have o: "owners_ordered (dg_delegations st)" "amount_of (dg_delegations st) a = Some n"
    using n by (auto simp: delegator_ok_def)
  note row = without_owner_row [OF o]
  show "hold_of T StakingDelegator w (ext s') = hold_of T StakingDelegator w (ext s)" if "w \<noteq> d" for w
    using hold_setD(3) [OF hold that] .
  show "case if without_owner a (dg_delegations st) = [] then None
        else Some (st\<lparr>dg_delegations := without_owner a (dg_delegations st), dg_total := dg_total st - n, dg_less_total := k\<rparr>) of
      None \<Rightarrow> (D(d := (D d)(a := None))) d = Map.empty \<and> hold_of T StakingDelegator d (ext s') = 0
    | Some st' \<Rightarrow> delegator_ok d ((D(d := (D d)(a := None))) d) st' \<and> hold_of T StakingDelegator d (ext s') = dg_total st'"
    using dok row hold_setD(1) [OF hold] amount_of_empty [of "without_owner a (dg_delegations st)"]
    by (auto simp: delegator_ok_def ran_def split: if_splits)
qed simp

lemma bond_droppedI:
  assumes ok: "delegators_ok T D s" and st: "DelegatorState s d = Some st" and n: "D d a = Some n"
    and hold: "hold_set T StakingDelegator d (dg_total st - n) (ext s) (ext s')"
    and lists: "same_lists s s'"
    and reqs: "DelegationScheduledRequests s' = (DelegationScheduledRequests s)
       (a := without_request d (DelegationScheduledRequests s a))"
    and state: "DelegatorState s' = (DelegatorState s)(d := if without_owner a (dg_delegations st) = [] then None
      else Some (st\<lparr>dg_delegations := without_owner a (dg_delegations st), dg_total := dg_total st - n,
                    dg_less_total := k\<rparr>))"
  shows "bond_dropped T D d a s s'"
  using delegators_drop_row [OF ok st n hold state] lists reqs state hold_setD(2,4) [OF hold] st
  by (auto simp: bond_dropped_def)

lemma kick_bond_dropped:
  assumes laws: "staking_laws T" and ok: "delegators_ok T D s" "requests_ok D s"
    and n: "D (bd_owner (last (dl_delegations b))) a = Some n"
    and run: "kick_lowest_bottom T a b s = (Inr b', s')"
  shows "bond_dropped T D (bd_owner (last (dl_delegations b))) a s s'"
proof -
  let ?k = "bd_owner (last (dl_delegations b))"
  obtain st where st: "DelegatorState s ?k = Some st" using delegators_okD(5) [OF ok(1) n] by blast
  have dok: "delegator_ok ?k (D ?k) st" by (rule delegators_okD(3) [OF ok(1) st])
  from run st obtain st1 rem s1 st2 s2 s3 where
    rm: "delegator_rm_delegation T a st s = (Inr (st1, rem), s1)" and
    rq: "delegation_remove_request_with_state a ?k st1 s1 = (Inr st2, s2)" and
    ac: "remove_auto_compound a ?k s2 = (Inr (), s3)" and
    fin: "DelegatorState s' = (DelegatorState s3)(?k := if length (dg_delegations st) = 1 then None else Some st2)"
      "ext s' = ext s3" "DelegationScheduledRequests s' = DelegationScheduledRequests s3"
    by (fastforce simp: kick_lowest_bottom_def prog_simps Let_def deposit_staking_event_def put_delegator_def
        split: if_splits)
  obtain l where s1: "s1 = s\<lparr>ext := l\<rparr>" "hold_set T StakingDelegator ?k (dg_total st - n) (ext s) l"
    "st1 = st\<lparr>dg_delegations := without_owner a (dg_delegations st), dg_total := dg_total st - n\<rparr>"
    using delegator_rm_delegation_ok [OF laws dok n rm] by blast
  have "distinct (map sr_delegator (DelegationScheduledRequests s1 a))"
    using ok(2) by (simp add: requests_ok_def s1(1))
  from delegation_remove_request_run [OF this rq] obtain k where s2: "st2 = st1\<lparr>dg_less_total := k\<rparr>"
    "s2 = s1\<lparr>DelegationScheduledRequests := (DelegationScheduledRequests s1)
      (a := without_request ?k (DelegationScheduledRequests s1 a))\<rparr>" by blast
  obtain cs where s3: "s3 = s2\<lparr>AutoCompoundingDelegations := cs\<rparr>" using remove_auto_compound_run [OF ac] by blast
  have row: "length (dg_delegations st) = Suc (length (without_owner a (dg_delegations st)))"
    using dok n by (intro without_owner_row(5)) (auto simp: delegator_ok_def)
  show ?thesis
  proof (rule bond_droppedI [OF ok(1) st n])
    show "hold_set T StakingDelegator ?k (dg_total st - n) (ext s) (ext s')" using s1 s2 s3 fin by simp
    show "same_lists s s'" using keepsD [OF kick_same_lists _ run] by (simp add: same_lists_def)
    show "DelegationScheduledRequests s' = (DelegationScheduledRequests s)
        (a := without_request ?k (DelegationScheduledRequests s a))" using s1 s2 s3 fin by simp
    show "DelegatorState s' = (DelegatorState s)(?k := if without_owner a (dg_delegations st) = [] then None
        else Some (st\<lparr>dg_delegations := without_owner a (dg_delegations st), dg_total := dg_total st - n, dg_less_total := k\<rparr>))"
      using s1 s2 s3 fin row by simp
  qed
qed

section \<open>Adding and changing a bond\<close>

lemma delegator_add_ok:
  assumes "delegator_ok d m st" "delegator_add_delegation \<lparr>bd_owner = a, bd_amount = n\<rparr> st = (st', True)"
    "dg_total st + n \<le> u128_max" "0 < n"
  shows "delegator_ok d (m(a \<mapsto> n)) st'" "m a = None" "dg_total st' = dg_total st + n"
proof -
  let ?b = "\<lparr>bd_owner = a, bd_amount = n\<rparr>"
  have o: "owners_ordered (dg_delegations st)" "amount_of (dg_delegations st) = m" using assms(1) by (auto simp: delegator_ok_def)
  have i: "snd (os_insert bond_cmp ?b (dg_delegations st))"
    and st': "st' = st\<lparr>dg_delegations := fst (os_insert bond_cmp ?b (dg_delegations st)),
        dg_total := saturating_add (dg_total st) n\<rparr>"
    using assms(2) by (auto simp: delegator_add_delegation_def split: prod.splits bool.splits)
  show m: "m a = None" using amount_of_insert(2) [OF o(1), of ?b] i o(2) by simp
  have "amount_of (dg_delegations st) (bd_owner ?b) = None" using m o(2) by simp
  note row = insert_row [OF o(1) this]
  show "delegator_ok d (m(a \<mapsto> n)) st'"
    using assms m row amount_of_insert(1) [OF o(1), of ?b] o owners_ordered_insert [OF o(1), of ?b]
    by (auto simp: delegator_ok_def st' saturating_add_exact ran_def)
  show "dg_total st' = dg_total st + n" using assms(3) by (simp add: st' saturating_add_exact)
qed

lemma new_delegator_ok: "0 < n \<Longrightarrow> delegator_ok d [a \<mapsto> n] (new_delegator d a n)"
  by (auto simp: delegator_ok_def new_delegator_def os_from_def sort_by_def owners_ordered_def amount_of_def ran_def)

lemma delegator_change_ok:
  assumes "delegator_ok d m st" "m a = Some n" "0 < f n" "t = dg_total st - n + f n"
  shows "delegator_ok d (m(a \<mapsto> f n)) (st\<lparr>dg_delegations := change_first_bond a f (dg_delegations st), dg_total := t\<rparr>)"
proof -
  have o: "owners_ordered (dg_delegations st)" "amount_of (dg_delegations st) a = Some n"
    using assms(1,2) by (auto simp: delegator_ok_def)
  have "n \<le> sum_of (dg_delegations st)" using without_owner_row(3) [OF o] by simp
  with change_row [OF o, of f] assms show ?thesis by (auto simp: delegator_ok_def ran_def split: if_splits)
qed

lemma delegator_ok_less_total [simp]: "delegator_ok d m (st\<lparr>dg_less_total := k\<rparr>) = delegator_ok d m st"
  by (simp add: delegator_ok_def)

end
