(* ===== verification/Staking_Calls_Props.thy ===== *)
theory Staking_Calls_Props
  imports Staking_Calls Staking_Delegator_Props
begin

text \<open>
  The extrinsics of the pallet \<^verbatim>\<open>parachain-staking\<close> on the table of delegations: every call that succeeds
  keeps the representation \<open>staking_ok\<close>, with a table that changes the way the call says.
\<close>

section \<open>Parts of the state that the table does not depend on\<close>

lemma staking_ok_cong:
  assumes "ext s' = ext s" "CandidateInfo s' = CandidateInfo s" "DelegatorState s' = DelegatorState s"
    "TopDelegations s' = TopDelegations s" "BottomDelegations s' = BottomDelegations s"
    "CandidatePool s' = CandidatePool s" "DelegationScheduledRequests s' = DelegationScheduledRequests s"
  shows "staking_ok T D s' = staking_ok T D s"
  unfolding staking_ok_def delegators_ok_def candidates_ok_def pool_ok_def roles_ok_def requests_ok_def
    is_candidate_def is_delegator_def has_lists_def assms by (rule refl)

lemma staking_ok_irrelevant [simp]:
  "staking_ok T D (s\<lparr>staking_events := x1\<rparr>) = staking_ok T D s"
  "staking_ok T D (s\<lparr>Total := x2\<rparr>) = staking_ok T D s"
  "staking_ok T D (s\<lparr>Round := x3\<rparr>) = staking_ok T D s"
  "staking_ok T D (s\<lparr>CollatorCommission := x4\<rparr>) = staking_ok T D s"
  "staking_ok T D (s\<lparr>TotalSelected := x5\<rparr>) = staking_ok T D s"
  "staking_ok T D (s\<lparr>ParachainBondInfo := x6\<rparr>) = staking_ok T D s"
  "staking_ok T D (s\<lparr>AutoCompoundingDelegations := x7\<rparr>) = staking_ok T D s"
  "staking_ok T D (s\<lparr>SelectedCandidates := x8\<rparr>) = staking_ok T D s"
  "staking_ok T D (s\<lparr>AtStake := x9\<rparr>) = staking_ok T D s"
  "staking_ok T D (s\<lparr>DelayedPayouts := x10\<rparr>) = staking_ok T D s"
  "staking_ok T D (s\<lparr>Staked := x11\<rparr>) = staking_ok T D s"
  "staking_ok T D (s\<lparr>InflationConfig := x12\<rparr>) = staking_ok T D s"
  "staking_ok T D (s\<lparr>Points := x13\<rparr>) = staking_ok T D s"
  "staking_ok T D (s\<lparr>AwardedPts := x14\<rparr>) = staking_ok T D s"
  by (rule staking_ok_cong; simp)+

lemma staking_ok_parameters:
  "keeps (staking_ok T D) (set_staking_expectations T orig r)" "keeps (staking_ok T D) (set_inflation T orig r)"
  "keeps (staking_ok T D) (set_parachain_bond_account T orig x)"
  "keeps (staking_ok T D) (set_parachain_bond_reserve_percent T orig n)"
  "keeps (staking_ok T D) (set_total_selected T orig n)" "keeps (staking_ok T D) (set_collator_commission orig n)"
  "keeps (staking_ok T D) (set_blocks_per_round T orig n)"
  unfolding set_staking_expectations_def set_inflation_def set_parachain_bond_account_def
    set_parachain_bond_reserve_percent_def set_total_selected_def set_collator_commission_def
    set_blocks_per_round_def ensure_monetary_def deposit_staking_event_def Let_def
  by (intro keeps_rules; simp)+

section \<open>Bounds from the ledger\<close>

lemma sum_of_by_owner:
  assumes "distinct (map bd_owner xs)" "\<And>x. x \<in> set xs \<Longrightarrow> bd_amount x \<le> f (bd_owner x)"
  shows "sum_of xs \<le> (\<Sum>d\<in>bd_owner ` set xs. f d)"
proof -
  have "inj_on bd_owner (set xs)" "distinct xs" using assms(1) by (auto simp: distinct_map)
  then have "sum_of xs = (\<Sum>x\<in>set xs. bd_amount x)" "(\<Sum>d\<in>bd_owner ` set xs. f d) = (\<Sum>x\<in>set xs. f (bd_owner x))"
    by (simp_all add: sum_of_def sum_list_distinct_conv_sum_set sum.reindex)
  then show ?thesis using assms(2) by (simp add: sum_mono)
qed

lemma delegation_le_hold:
  assumes "delegators_ok T D s" "D d a = Some n"
  shows "n \<le> hold_of T StakingDelegator d (ext s)"
proof -
  obtain st where st: "DelegatorState s d = Some st" using delegators_okD(5) [OF assms] by blast
  have ok: "delegator_ok d (D d) st" by (rule delegators_okD(3) [OF assms(1) st])
  then have "n \<le> sum_of (dg_delegations st)"
    using assms(2) without_owner_row(3) [of "dg_delegations st" a n] by (auto simp: delegator_ok_def)
  with ok delegators_okD(4) [OF assms(1) st] show ?thesis by (simp add: delegator_ok_def)
qed

lemma candidate_bound:
  assumes "delegators_ok T D s" "candidates_ok T D s" "ledger_bounded T (ext s)" "CandidateInfo s a = Some c"
    "candidate_ok T c t b" "bonds_by t b = (\<lambda>d. D d a)" "n \<le> reducible_balance T who (ext s)"
  shows "ci_bond c + sum_of (dl_delegations t @ dl_delegations b) + n \<le> u128_max"
proof -
  let ?L = "dl_delegations t @ dl_delegations b" and ?h = "hold_of T"
  let ?A = "bd_owner ` set ?L \<union> {a, who}"
  note d = candidate_okD(2) [OF assms(5)]
  have "bd_amount x \<le> ?h StakingDelegator (bd_owner x) (ext s)" if "x \<in> set ?L" for x
  proof (rule delegation_le_hold [OF assms(1)])
    have "\<lparr>bd_owner = bd_owner x, bd_amount = bd_amount x\<rparr> \<in> set ?L" using that unfolding bond_mem by blast
    then have "amount_of ?L (bd_owner x) = Some (bd_amount x)" by (rule amount_of_Some [OF d, THEN iffD2])
    then show "D (bd_owner x) a = Some (bd_amount x)" using fun_cong [OF assms(6), of "bd_owner x"] by simp
  qed
  then have "sum_of ?L \<le> (\<Sum>w\<in>bd_owner ` set ?L. ?h StakingDelegator w (ext s))" by (rule sum_of_by_owner [OF d])
  also have "\<dots> \<le> (\<Sum>w\<in>?A. ?h StakingDelegator w (ext s))" by (rule sum_mono2) auto
  finally have del: "sum_of ?L \<le> (\<Sum>w\<in>?A. ?h StakingDelegator w (ext s))" .
  have "(\<Sum>w\<in>{a}. ?h StakingCollator w (ext s)) \<le> (\<Sum>w\<in>?A. ?h StakingCollator w (ext s))" by (rule sum_mono2) auto
  then have col: "ci_bond c \<le> (\<Sum>w\<in>?A. ?h StakingCollator w (ext s))"
    using candidates_okD(2) [OF assms(2,4)] by simp
  have "(\<Sum>w\<in>{who}. reducible_balance T w (ext s)) \<le> (\<Sum>w\<in>?A. reducible_balance T w (ext s))" by (rule sum_mono2) auto
  then have red: "n \<le> (\<Sum>w\<in>?A. reducible_balance T w (ext s))" using assms(7) by simp
  have "finite ?A" by simp
  then have "(\<Sum>w\<in>?A. reducible_balance T w (ext s) + ?h StakingCollator w (ext s) + ?h StakingDelegator w (ext s)) \<le> u128_max"
    by (rule assms(3) [unfolded ledger_bounded_def, rule_format])
  then show ?thesis using del col red by (simp only: sum.distrib)
qed

lemma account_bound:
  assumes "ledger_bounded T l"
  shows "reducible_balance T w l + hold_of T StakingCollator w l + hold_of T StakingDelegator w l \<le> u128_max"
  using assms [unfolded ledger_bounded_def, rule_format, of "{w}"] by simp

section \<open>Candidates\<close>

lemma new_candidate_ok: "n \<le> u128_max \<Longrightarrow> limits_ok T \<Longrightarrow> candidate_ok T (new_candidate n) empty_delegations empty_delegations"
  by (auto simp: candidate_ok_def lists_ok_def new_candidate_def empty_delegations_def lowest_delegation_amount_def
      highest_delegation_amount_def top_capacity_def bottom_capacity_def capacity_of_def as_u32_def limits_ok_def)

lemma join_candidates_ok:
  assumes laws: "staking_laws T" "limits_ok T" and ok: "staking_ok T D s"
    and run: "join_candidates T orig n k s = (Inr u, s')"
  shows "staking_ok T D s'"
proof -
  obtain acc l where acc: "CandidateInfo s acc = None" "DelegatorState s acc = None"
    and ins: "snd (os_insert bond_cmp \<lparr>bd_owner = acc, bd_amount = n\<rparr> (CandidatePool s))"
    and free: "n \<le> reducible_balance T acc (ext s)"
    and hold: "hold_set T StakingCollator acc (hold_of T StakingCollator acc (ext s) + n) (ext s) l"
    and s': "CandidateInfo s' = (CandidateInfo s)(acc \<mapsto> new_candidate n)" "DelegatorState s' = DelegatorState s"
      "TopDelegations s' = (TopDelegations s)(acc \<mapsto> empty_delegations)"
      "BottomDelegations s' = (BottomDelegations s)(acc \<mapsto> empty_delegations)" 
      "CandidatePool s' = fst (os_insert bond_cmp \<lparr>bd_owner = acc, bd_amount = n\<rparr> (CandidatePool s))"
      "DelegationScheduledRequests s' = DelegationScheduledRequests s" "ext s' = l"
    using run
    by (auto simp: join_candidates_def prog_simps is_candidate_def is_delegator_def stakable_free_balance_def
        staking_access_defs put_pool_def Let_def case_prod_unfold dest!: st_hold_ok [OF laws(1)])
  note d = staking_okD [OF ok]
  have "n \<le> u128_max" using account_bound [OF d(6), of acc] free by linarith
  then have new: "candidate_ok T (new_candidate n) empty_delegations empty_delegations" by (rule new_candidate_ok [OF _ laws(2)])
  have "delegators_ok T D s'"
    by (rule delegators_ok_cong [OF d(1)]) (simp_all add: s' hold_setD(2) [OF hold])
  moreover have "candidates_ok T D s'"
  proof (rule candidates_ok_upd [OF d(2) s'(1) _ _ _ _ _ _ new])
    show "hold_of T StakingCollator acc (ext s') = ci_bond (new_candidate n)"
      using candidates_okD(4) [OF d(2) acc(1)] hold_setD(1) [OF hold] by (simp add: s' new_candidate_def)
    show "bonds_by empty_delegations empty_delegations = (\<lambda>d. D d acc)"
      using candidates_okD(1) [OF d(2) acc(1)] by (auto simp: empty_delegations_def amount_of_def)
  qed (simp_all add: s' hold_setD(3) [OF hold] has_lists_def)
  moreover have "pool_ok s'"
    using d(3) ins acc(1) owners_ordered_insert [of "CandidatePool s" "\<lparr>bd_owner = acc, bd_amount = n\<rparr>"]
      amount_of_insert [of "CandidatePool s" "\<lparr>bd_owner = acc, bd_amount = n\<rparr>"]
    by (auto simp: pool_ok_def s' stake_if_active_def new_candidate_def candidate_is_active_def fun_eq_iff)
  moreover have "roles_ok s'" using d(4) acc by (auto simp: roles_ok_def is_candidate_def is_delegator_def s')
  moreover have "requests_ok D s'" by (rule requests_ok_cong [OF d(5) s'(6)])
  moreover have "ledger_bounded T (ext s')" using hold_setD(4) [OF hold d(6)] s' by simp
  ultimately show ?thesis by (simp add: staking_ok_def)
qed

text \<open>The metadata of a candidate changes while its delegations stay.\<close>

lemma candidate_update_ok:
  assumes ok: "staking_ok T D s" and a: "CandidateInfo s a = Some c"
    and s': "CandidateInfo s' = (CandidateInfo s)(a \<mapsto> c')" "DelegatorState s' = DelegatorState s"
      "TopDelegations s' = TopDelegations s" "BottomDelegations s' = BottomDelegations s"
      "DelegationScheduledRequests s' = DelegationScheduledRequests s"
    and hold: "hold_set T StakingCollator a (ci_bond c') (ext s) (ext s')"
    and pool: "owners_ordered (CandidatePool s')"
      "amount_of (CandidatePool s') = (amount_of (CandidatePool s))(a := stake_if_active (Some c'))"
    and c': "\<And>t b. candidate_ok T c t b \<Longrightarrow> bonds_by t b = (\<lambda>d. D d a) \<Longrightarrow> candidate_ok T c' t b"
  shows "staking_ok T D s'"
proof -
  note d = staking_okD [OF ok]
  obtain t b where tb: "has_lists a t b s" "candidate_ok T c t b" "bonds_by t b = (\<lambda>d. D d a)"
    using candidates_okD(3) [OF d(2) a] by blast
  have "delegators_ok T D s'"
    by (rule delegators_ok_cong [OF d(1) s'(2)]) (simp add: hold_setD(2) [OF hold])
  moreover have "candidates_ok T D s'"
    by (rule candidates_ok_upd [where D' = D, OF d(2) s'(1) _ _ _ _ hold_setD(1) [OF hold] _ c' [OF tb(2,3)]])
       (use tb(1,3) in \<open>simp_all add: s' has_lists_def hold_setD(3) [OF hold]\<close>)
  moreover have "pool_ok s'" using d(3) pool by (auto simp: pool_ok_def s'(1) fun_eq_iff)
  moreover have "roles_ok s'" using d(4) [unfolded roles_ok_def, rule_format, of a] d(4) a
    by (auto simp: roles_ok_def is_candidate_def is_delegator_def s'(1,2))
  moreover have "requests_ok D s'" by (rule requests_ok_cong [OF d(5) s'(5)])
  moreover have "ledger_bounded T (ext s')" by (rule hold_setD(4) [OF hold d(6)])
  ultimately show ?thesis by (simp add: staking_ok_def)
qed

lemma hold_set_same: "hold_of T r a l = n \<Longrightarrow> hold_set T r a n l l"
  by (simp add: hold_set_def)

lemma candidate_ok_status [simp]:
  "candidate_ok T (c\<lparr>ci_status := x\<rparr>) t b = candidate_ok T c t b"
  "candidate_ok T (c\<lparr>ci_request := y\<rparr>) t b = candidate_ok T c t b"
  by (simp_all add: candidate_ok_def)

lemma os_remove_None: "\<not> snd (os_remove cmp v xs) \<Longrightarrow> fst (os_remove cmp v xs) = xs"
  by (auto simp: os_remove_def split: sum.splits)

lemma pool_unchanged:
  "pool_ok s \<Longrightarrow> CandidateInfo s a = Some c \<Longrightarrow> stake_if_active (Some c') = stake_if_active (Some c) \<Longrightarrow>
   (amount_of (CandidatePool s))(a := stake_if_active (Some c')) = amount_of (CandidatePool s)"
  by (auto simp: pool_ok_def fun_eq_iff)

text \<open>A candidate leaves the pool or comes back to it.\<close>

lemma leave_pool_ok:
  assumes ok: "staking_ok T D s" and a: "CandidateInfo s a = Some c"
    and s': "CandidateInfo s' = (CandidateInfo s)(a \<mapsto> c\<lparr>ci_status := x\<rparr>)" "DelegatorState s' = DelegatorState s"
      "TopDelegations s' = TopDelegations s" "BottomDelegations s' = BottomDelegations s"
      "DelegationScheduledRequests s' = DelegationScheduledRequests s" "ext s' = ext s"
      "CandidatePool s' = fst (os_remove bond_cmp (bond_from_owner a) (CandidatePool s))"
    and x: "x \<noteq> CollatorActive"
  shows "staking_ok T D s'"
proof (rule candidate_update_ok [OF ok a s'(1-5)])
  note d = staking_okD [OF ok]
  have p: "owners_ordered (CandidatePool s)" using d(3) by (simp add: pool_ok_def)
  show "hold_set T StakingCollator a (ci_bond (c\<lparr>ci_status := x\<rparr>)) (ext s) (ext s')"
    using candidates_okD(2) [OF d(2) a] by (auto simp: s'(6) intro: hold_set_same)
  show "owners_ordered (CandidatePool s')" by (simp add: s'(7) owners_ordered_remove [OF p])
  show "amount_of (CandidatePool s') = (amount_of (CandidatePool s))(a := stake_if_active (Some (c\<lparr>ci_status := x\<rparr>)))"
    using x by (simp add: s'(7) amount_of_remove [OF p] bond_from_owner_def stake_if_active_def candidate_is_active_def)
qed simp

lemma enter_pool_ok:
  assumes ok: "staking_ok T D s" and a: "CandidateInfo s a = Some c"
    and s': "CandidateInfo s' = (CandidateInfo s)(a \<mapsto> c\<lparr>ci_status := CollatorActive\<rparr>)" "DelegatorState s' = DelegatorState s"
      "TopDelegations s' = TopDelegations s" "BottomDelegations s' = BottomDelegations s"
      "DelegationScheduledRequests s' = DelegationScheduledRequests s" "ext s' = ext s"
      "CandidatePool s' = fst (os_insert bond_cmp \<lparr>bd_owner = a, bd_amount = ci_total_counted c\<rparr> (CandidatePool s))"
    and ins: "snd (os_insert bond_cmp \<lparr>bd_owner = a, bd_amount = ci_total_counted c\<rparr> (CandidatePool s))"
  shows "staking_ok T D s'"
proof (rule candidate_update_ok [OF ok a s'(1-5)])
  note d = staking_okD [OF ok]
  have p: "owners_ordered (CandidatePool s)" using d(3) by (simp add: pool_ok_def)
  show "hold_set T StakingCollator a (ci_bond (c\<lparr>ci_status := CollatorActive\<rparr>)) (ext s) (ext s')"
    using candidates_okD(2) [OF d(2) a] by (auto simp: s'(6) intro: hold_set_same)
  show "owners_ordered (CandidatePool s')" by (simp add: s'(7) owners_ordered_insert [OF p])
  show "amount_of (CandidatePool s') =
      (amount_of (CandidatePool s))(a := stake_if_active (Some (c\<lparr>ci_status := CollatorActive\<rparr>)))"
    using ins amount_of_insert [OF p, of "\<lparr>bd_owner = a, bd_amount = ci_total_counted c\<rparr>"]
    by (simp add: s'(7) stake_if_active_def candidate_is_active_def)
qed simp

lemma put_pool_Inr: "put_pool p s = (Inr u, t) \<longleftrightarrow> t = s\<lparr>CandidatePool := p\<rparr>"
  by (auto simp: put_pool_def prog_simps)

lemma if_removed_Inr:
  "(if snd (os_remove cmp v (CandidatePool s)) then put_pool (fst (os_remove cmp v (CandidatePool s))) else ok ()) s = (Inr u, t)
   \<longleftrightarrow> t = s\<lparr>CandidatePool := fst (os_remove cmp v (CandidatePool s))\<rparr>"
  using os_remove_None [of cmp v "CandidatePool s"] by (auto simp: put_pool_Inr prog_simps)

lemmas call_simps = prog_simps staking_access_defs put_pool_Inr if_removed_Inr Let_def case_prod_unfold

lemma schedule_leave_candidates_ok:
  assumes "staking_ok T D s" "schedule_leave_candidates T orig n s = (Inr u, s')"
  shows "staking_ok T D s'"
proof -
  obtain a c w e where a: "CandidateInfo s a = Some c" and s': "s' = s\<lparr>
      CandidatePool := fst (os_remove bond_cmp (bond_from_owner a) (CandidatePool s)),
      CandidateInfo := (CandidateInfo s)(a \<mapsto> c\<lparr>ci_status := CollatorLeaving w\<rparr>), staking_events := e\<rparr>"
    using assms(2) by (auto simp: schedule_leave_candidates_def schedule_leave_def call_simps)
  show ?thesis by (rule leave_pool_ok [OF assms(1) a, where x = "CollatorLeaving w"]) (simp_all add: s')
qed

lemma go_offline_ok:
  assumes "staking_ok T D s" "go_offline orig s = (Inr u, s')"
  shows "staking_ok T D s'"
proof -
  obtain a c e where a: "CandidateInfo s a = Some c" and s': "s' = s\<lparr>
      CandidatePool := fst (os_remove bond_cmp (bond_from_owner a) (CandidatePool s)),
      CandidateInfo := (CandidateInfo s)(a \<mapsto> c\<lparr>ci_status := CollatorIdle\<rparr>), staking_events := e\<rparr>"
    using assms(2) by (auto simp: go_offline_def call_simps)
  show ?thesis by (rule leave_pool_ok [OF assms(1) a, where x = CollatorIdle]) (simp_all add: s')
qed

lemma cancel_leave_candidates_ok:
  assumes "staking_ok T D s" "cancel_leave_candidates orig n s = (Inr u, s')"
  shows "staking_ok T D s'"
proof -
  obtain a c e where a: "CandidateInfo s a = Some c"
    and ins: "snd (os_insert bond_cmp \<lparr>bd_owner = a, bd_amount = ci_total_counted c\<rparr> (CandidatePool s))"
    and s': "s' = s\<lparr>
      CandidatePool := fst (os_insert bond_cmp \<lparr>bd_owner = a, bd_amount = ci_total_counted c\<rparr> (CandidatePool s)),
      CandidateInfo := (CandidateInfo s)(a \<mapsto> c\<lparr>ci_status := CollatorActive\<rparr>), staking_events := e\<rparr>"
    using assms(2) by (auto simp: cancel_leave_candidates_def call_simps)
  show ?thesis by (rule enter_pool_ok [OF assms(1) a _ _ _ _ _ _ _ ins]) (simp_all add: s')
qed

lemma go_online_ok:
  assumes "staking_ok T D s" "go_online orig s = (Inr u, s')"
  shows "staking_ok T D s'"
proof -
  obtain a c e where a: "CandidateInfo s a = Some c"
    and ins: "snd (os_insert bond_cmp \<lparr>bd_owner = a, bd_amount = ci_total_counted c\<rparr> (CandidatePool s))"
    and s': "s' = s\<lparr>
      CandidatePool := fst (os_insert bond_cmp \<lparr>bd_owner = a, bd_amount = ci_total_counted c\<rparr> (CandidatePool s)),
      CandidateInfo := (CandidateInfo s)(a \<mapsto> c\<lparr>ci_status := CollatorActive\<rparr>), staking_events := e\<rparr>"
    using assms(2) by (auto simp: go_online_def call_simps)
  show ?thesis by (rule enter_pool_ok [OF assms(1) a _ _ _ _ _ _ _ ins]) (simp_all add: s')
qed

text \<open>The self-bond of a candidate changes.\<close>

definition pool_if :: "bool \<Rightarrow> account \<Rightarrow> nat \<Rightarrow> bond list \<Rightarrow> bond list" where
  "pool_if x a n p = (if x then pool_with a n p else p)"

lemma if_active_Inr:
  "(if x then update_active a n else ok ()) s = (Inr u, t) \<longleftrightarrow>
   t = s\<lparr>CandidatePool := pool_if x a n (CandidatePool s)\<rparr>"
  by (auto simp: update_active_eq prog_simps pool_if_def)

lemma candidate_is_active_cong: "ci_status c' = ci_status c \<Longrightarrow> candidate_is_active c' = candidate_is_active c"
  by (simp add: candidate_is_active_def)

lemma self_bond_ok:
  assumes ok: "staking_ok T D s" and a: "CandidateInfo s a = Some c"
    and s': "CandidateInfo s' = (CandidateInfo s)(a \<mapsto> c')" "DelegatorState s' = DelegatorState s"
      "TopDelegations s' = TopDelegations s" "BottomDelegations s' = BottomDelegations s"
      "DelegationScheduledRequests s' = DelegationScheduledRequests s"
      "CandidatePool s' = pool_if (candidate_is_active c) a (ci_total_counted c') (CandidatePool s)"
    and hold: "hold_set T StakingCollator a (ci_bond c') (ext s) (ext s')"
    and status: "ci_status c' = ci_status c"
    and c': "\<And>t b. candidate_ok T c t b \<Longrightarrow> bonds_by t b = (\<lambda>d. D d a) \<Longrightarrow> candidate_ok T c' t b"
  shows "staking_ok T D s'"
proof (rule candidate_update_ok [OF ok a s'(1-5) hold _ _ c'])
  have p: "owners_ordered (CandidatePool s)" "amount_of (CandidatePool s) a = stake_if_active (Some c)"
    using staking_okD(3) [OF ok] a by (simp_all add: pool_ok_def)
  show "owners_ordered (CandidatePool s')" using p pool_with_ok [OF p(1)] by (simp add: s'(6) pool_if_def)
  show "amount_of (CandidatePool s') = (amount_of (CandidatePool s))(a := stake_if_active (Some c'))"
    using p pool_with_ok [OF p(1)] status
    by (auto simp: s'(6) pool_if_def stake_if_active_def candidate_is_active_def fun_eq_iff)
qed

lemma candidate_bond_more_ok:
  assumes laws: "staking_laws T" and ok: "staking_ok T D s" and run: "candidate_bond_more T orig n s = (Inr u, s')"
  shows "staking_ok T D s'"
proof -
  obtain a c l e t where a: "CandidateInfo s a = Some c" and free: "n \<le> reducible_balance T a (ext s)"
    and hold: "hold_set T StakingCollator a (hold_of T StakingCollator a (ext s) + n) (ext s) l"
    and s': "s' = s\<lparr>Total := t, ext := l, staking_events := e, CandidateInfo := (CandidateInfo s)(a \<mapsto>
        c\<lparr>ci_bond := saturating_add (ci_bond c) n, ci_total_counted := saturating_add (ci_total_counted c) n\<rparr>),
      CandidatePool := pool_if (candidate_is_active c) a (saturating_add (ci_total_counted c) n) (CandidatePool s)\<rparr>"
    using run
    by (auto simp: candidate_bond_more_def bond_more_def call_simps stakable_free_balance_def if_active_Inr
        candidate_is_active_def dest!: st_hold_ok [OF laws])
  note d = staking_okD [OF ok]
  obtain tl bl where tb: "candidate_ok T c tl bl" "bonds_by tl bl = (\<lambda>d. D d a)"
    using candidates_okD(3) [OF d(2) a] by blast
  have b: "ci_bond c + n \<le> u128_max" using candidate_bound [OF d(1,2,6) a tb free] by simp
  show ?thesis
  proof (rule self_bond_ok [OF ok a, where c' = "c\<lparr>ci_bond := saturating_add (ci_bond c) n,
        ci_total_counted := saturating_add (ci_total_counted c) n\<rparr>"])
    show "hold_set T StakingCollator a (ci_bond (c\<lparr>ci_bond := saturating_add (ci_bond c) n,
        ci_total_counted := saturating_add (ci_total_counted c) n\<rparr>)) (ext s) (ext s')"
      using hold candidates_okD(2) [OF d(2) a] b by (simp add: s' saturating_add_exact)
    show "candidate_ok T (c\<lparr>ci_bond := saturating_add (ci_bond c) n,
        ci_total_counted := saturating_add (ci_total_counted c) n\<rparr>) t b"
      if "candidate_ok T c t b" "bonds_by t b = (\<lambda>d. D d a)" for t b
      using candidate_bound [OF d(1,2,6) a that free] that(1)
      by (simp add: candidate_ok_def saturating_add_exact lowest_delegation_amount_def highest_delegation_amount_def)
  qed (simp_all add: s')
qed

lemma execute_candidate_bond_less_ok:
  assumes laws: "staking_laws T" and ok: "staking_ok T D s" and run: "execute_candidate_bond_less T orig a s = (Inr u, s')"
  shows "staking_ok T D s'"
proof -
  obtain c n l e t where a: "CandidateInfo s a = Some c" and le: "n \<le> hold_of T StakingCollator a (ext s)"
    and hold: "hold_set T StakingCollator a (hold_of T StakingCollator a (ext s) - n) (ext s) l"
    and s': "s' = s\<lparr>Total := t, ext := l, CandidatePool := pool_if (candidate_is_active c) a (ci_total_counted c - n) (CandidatePool s),
      staking_events := e, CandidateInfo := (CandidateInfo s)(a \<mapsto>
        c\<lparr>ci_bond := ci_bond c - n, ci_total_counted := ci_total_counted c - n, ci_request := None\<rparr>)\<rparr>"
    using run
    by (auto simp: execute_candidate_bond_less_def execute_bond_less_def call_simps if_active_Inr
        candidate_is_active_def dest!: st_release_ok [OF laws])
  note d = staking_okD [OF ok]
  have bond: "hold_of T StakingCollator a (ext s) = ci_bond c" by (rule candidates_okD(2) [OF d(2) a])
  show ?thesis
    by (rule self_bond_ok [OF ok a, where c' = "c\<lparr>ci_bond := ci_bond c - n, ci_total_counted := ci_total_counted c - n,
          ci_request := None\<rparr>"])
       (use hold bond le in \<open>auto simp: s' candidate_ok_def\<close>)
qed

lemma request_change_ok:
  assumes ok: "staking_ok T D s" and a: "CandidateInfo s a = Some c"
    and s': "s' = s\<lparr>CandidateInfo := (CandidateInfo s)(a \<mapsto> c\<lparr>ci_request := r\<rparr>), staking_events := e\<rparr>"
  shows "staking_ok T D s'"
proof (rule candidate_update_ok [OF ok a, where c' = "c\<lparr>ci_request := r\<rparr>"])
  note d = staking_okD [OF ok]
  show "hold_set T StakingCollator a (ci_bond (c\<lparr>ci_request := r\<rparr>)) (ext s) (ext s')"
    using candidates_okD(2) [OF d(2) a] by (auto simp: s' intro: hold_set_same)
  show "owners_ordered (CandidatePool s')" using d(3) by (simp add: s' pool_ok_def)
  show "amount_of (CandidatePool s') = (amount_of (CandidatePool s))(a := stake_if_active (Some (c\<lparr>ci_request := r\<rparr>)))"
    using d(3) a by (auto simp: s' pool_ok_def stake_if_active_def candidate_is_active_def fun_eq_iff)
qed (simp_all add: s')

lemma schedule_candidate_bond_less_ok:
  assumes "staking_ok T D s" "schedule_candidate_bond_less T orig n s = (Inr u, s')"
  shows "staking_ok T D s'"
proof -
  obtain a c r e where a: "CandidateInfo s a = Some c"
    and s': "s' = s\<lparr>CandidateInfo := (CandidateInfo s)(a \<mapsto> c\<lparr>ci_request := r\<rparr>), staking_events := e\<rparr>"
    using assms(2) by (auto simp: schedule_candidate_bond_less_def schedule_bond_less_def call_simps)
  show ?thesis by (rule request_change_ok [OF assms(1) a s'])
qed

lemma cancel_candidate_bond_less_ok:
  assumes "staking_ok T D s" "cancel_candidate_bond_less orig s = (Inr u, s')"
  shows "staking_ok T D s'"
proof -
  obtain a c e where a: "CandidateInfo s a = Some c"
    and s': "s' = s\<lparr>staking_events := e, CandidateInfo := (CandidateInfo s)(a \<mapsto> c\<lparr>ci_request := None\<rparr>)\<rparr>"
    using assms(2) by (auto simp: cancel_candidate_bond_less_def cancel_bond_less_def call_simps)
  show ?thesis by (rule request_change_ok [OF assms(1) a, where r = None and e = e]) (simp add: s')
qed

end
