(* ===== verification/Staking_Delegation_Props.thy ===== *)
theory Staking_Delegation_Props
  imports Staking_Calls_Props
begin

text \<open>
  The extrinsics of the pallet \<^verbatim>\<open>parachain-staking\<close> that change the table of delegations: delegating,
  bonding more, executing a request, leaving.
\<close>

section \<open>Changes of the table\<close>

definition set_bond :: "account \<Rightarrow> account \<Rightarrow> nat \<Rightarrow> table \<Rightarrow> table" where
  "set_bond d a n D = D(d := (D d)(a \<mapsto> n))"

definition drop_bond :: "account \<Rightarrow> account \<Rightarrow> table \<Rightarrow> table" where
  "drop_bond d a D = D(d := (D d)(a := None))"

lemma set_bond_column: "(\<lambda>w. set_bond d a n D w a) = (\<lambda>w. D w a)(d \<mapsto> n)"
  and drop_bond_column: "(\<lambda>w. drop_bond d a D w a) = (\<lambda>w. D w a)(d := None)"
  by (auto simp: set_bond_def drop_bond_def)

lemma set_bond_other [simp]: "w \<noteq> a \<Longrightarrow> set_bond d a n D e w = D e w" "e \<noteq> d \<Longrightarrow> set_bond d a n D e = D e"
  and drop_bond_other [simp]: "w \<noteq> a \<Longrightarrow> drop_bond d a D e w = D e w" "e \<noteq> d \<Longrightarrow> drop_bond d a D e = D e"
  by (auto simp: set_bond_def drop_bond_def)

text \<open>Both sides have been updated: the representation holds for the new table.\<close>

lemma table_update_ok:
  assumes ok: "staking_ok T D s" and a: "CandidateInfo s a = Some c"
    and del: "delegators_ok T D' s'" and req: "requests_ok D' s'" and bnd: "ledger_bounded T (ext s')"
    and s': "CandidateInfo s' = (CandidateInfo s)(a \<mapsto> c')"
      "\<And>w. w \<noteq> a \<Longrightarrow> TopDelegations s' w = TopDelegations s w"
      "\<And>w. w \<noteq> a \<Longrightarrow> BottomDelegations s' w = BottomDelegations s w"
    and pool: "pool_ok s'"
    and lists: "has_lists a t b s'" "candidate_ok T c' t b" "bonds_by t b = (\<lambda>d. D' d a)" "same_candidate c c'"
    and other: "\<And>d w. w \<noteq> a \<Longrightarrow> D' d w = D d w"
    and hold: "\<And>w. hold_of T StakingCollator w (ext s') = hold_of T StakingCollator w (ext s)"
    and roles: "\<And>w. DelegatorState s' w \<noteq> None \<Longrightarrow> DelegatorState s w \<noteq> None \<or> CandidateInfo s w = None"
  shows "staking_ok T D' s'"
proof -
  note d = staking_okD [OF ok]
  have "hold_of T StakingCollator a (ext s') = ci_bond c'"
    using candidates_okD(2) [OF d(2) a] lists(4) by (simp add: hold same_candidate_def)
  then have "candidates_ok T D' s'"
    by (intro candidates_ok_upd [OF d(2) s'(1-3) hold other _ lists(1-3)])
  moreover have "roles_ok s'"
    unfolding roles_ok_def is_candidate_def is_delegator_def
  proof (intro allI notI, elim conjE)
    fix w assume "CandidateInfo s' w \<noteq> None" "DelegatorState s' w \<noteq> None"
    then have "CandidateInfo s w \<noteq> None" "DelegatorState s w \<noteq> None \<or> CandidateInfo s w = None"
      using a roles by (auto simp: s'(1) split: if_splits)
    then show False using d(4) [unfolded roles_ok_def, rule_format, of w]
      by (auto simp: is_candidate_def is_delegator_def)
  qed
  ultimately show ?thesis using del req bnd pool by (simp add: staking_ok_def)
qed

section \<open>Delegating\<close>

definition table_with_room ::
    "('l, 'c) staking_config_scheme \<Rightarrow> account \<Rightarrow> delegations \<Rightarrow> table \<Rightarrow> table" where
  "table_with_room T a b D =
     (if length (dl_delegations b) = MaxBottomDelegationsPerCandidate T
      then drop_bond (bd_owner (last (dl_delegations b))) a D else D)"

lemma room_made_ok:
  assumes laws: "staking_laws T" "limits_ok T" and ok: "staking_ok T D s"
    and tb: "candidate_ok T c t b" "bonds_by t b = (\<lambda>d. D d a)" and room: "room_made T a b s s'"
  shows "delegators_ok T (table_with_room T a b D) s'" "requests_ok (table_with_room T a b D) s'"
    "\<And>w. hold_of T StakingCollator w (ext s') = hold_of T StakingCollator w (ext s)"
    "ledger_bounded T (ext s')" "\<And>w. DelegatorState s' w \<noteq> None \<Longrightarrow> DelegatorState s w \<noteq> None"
    "(\<lambda>d. table_with_room T a b D d a) = bonds_with_room T t b"
    "\<And>w. D w a = None \<Longrightarrow> table_with_room T a b D w = D w"
proof -
  note d = staking_okD [OF ok]
  let ?k = "bd_owner (last (dl_delegations b))"
  have kick: "\<exists>n. D ?k a = Some n" if "length (dl_delegations b) = MaxBottomDelegationsPerCandidate T"
  proof -
    have "dl_delegations b \<noteq> []" using that laws(2) by (auto simp: limits_ok_def)
    then have "?k \<in> bd_owner ` set (dl_delegations t @ dl_delegations b)" by simp
    then have "bonds_by t b ?k \<noteq> None" by (simp only: amount_of_None not_not)
    then show ?thesis using tb(2) by auto
  qed
  have "delegators_ok T (table_with_room T a b D) s' \<and> requests_ok (table_with_room T a b D) s' \<and>
      (\<forall>w. hold_of T StakingCollator w (ext s') = hold_of T StakingCollator w (ext s)) \<and> ledger_bounded T (ext s') \<and>
      (\<forall>w. DelegatorState s' w \<noteq> None \<longrightarrow> DelegatorState s w \<noteq> None)"
  proof (cases "length (dl_delegations b) = MaxBottomDelegationsPerCandidate T")
    case False
    with room d show ?thesis by (simp add: room_made_def table_with_room_def)
  next
    case True
    with room kick obtain n b' where "D ?k a = Some n" "kick_lowest_bottom T a b s = (Inr b', s')"
      by (auto simp: room_made_def)
    then have "bond_dropped T D ?k a s s'" by (intro kick_bond_dropped [OF laws(1) d(1,5)])
    then have drop: "delegators_ok T (drop_bond ?k a D) s'"
      "DelegationScheduledRequests s' = (DelegationScheduledRequests s)(a := without_request ?k (DelegationScheduledRequests s a))"
      "\<And>w. hold_of T StakingCollator w (ext s') = hold_of T StakingCollator w (ext s)"
      "ledger_bounded T (ext s) \<longrightarrow> ledger_bounded T (ext s')"
      "\<forall>w. DelegatorState s' w \<noteq> None \<longrightarrow> DelegatorState s w \<noteq> None"
      by (auto simp: bond_dropped_def drop_bond_def)
    have "requests_ok (drop_bond ?k a D) s'"
      by (rule without_request_ok [OF d(5) _ drop(2), where x = None]) (simp add: drop_bond_def)
    with True drop d(6) show ?thesis by (simp add: table_with_room_def)
  qed
  then show "delegators_ok T (table_with_room T a b D) s'" "requests_ok (table_with_room T a b D) s'"
    "\<And>w. hold_of T StakingCollator w (ext s') = hold_of T StakingCollator w (ext s)"
    "ledger_bounded T (ext s')" "\<And>w. DelegatorState s' w \<noteq> None \<Longrightarrow> DelegatorState s w \<noteq> None" by auto
  show "(\<lambda>d. table_with_room T a b D d a) = bonds_with_room T t b"
    by (auto simp: table_with_room_def bonds_with_room_def drop_bond_column tb(2))
  show "table_with_room T a b D w = D w" if "D w a = None" for w
    using kick that by (cases "w = ?k") (auto simp: table_with_room_def)
qed

text \<open>The state of a delegator with one more bond, from the checks of \<^verbatim>\<open>delegate_with_auto_compound\<close>.\<close>

definition joins_delegators ::
    "('l, 'c) staking_config_scheme \<Rightarrow> account \<Rightarrow> account \<Rightarrow> nat \<Rightarrow> ('l, 'z) staking_state_scheme \<Rightarrow> delegator \<Rightarrow> bool" where
  "joins_delegators T who a n s st \<longleftrightarrow>
     (case DelegatorState s who of
        Some old \<Rightarrow> n \<ge> MinDelegation T \<and> delegator_add_delegation \<lparr>bd_owner = a, bd_amount = n\<rparr> old = (st, True)
      | None \<Rightarrow> n \<ge> MinDelegatorStk T \<and> CandidateInfo s who = None \<and> st = new_delegator who a n)"

lemma joins_delegators_ok:
  assumes "limits_ok T" "staking_ok T D s" "joins_delegators T who a n s st" "n \<le> reducible_balance T who (ext s)"
  shows "delegator_ok who ((D who)(a \<mapsto> n)) st" "D who a = None"
    "DelegatorState s who \<noteq> None \<or> CandidateInfo s who = None"
proof -
  note d = staking_okD [OF assms(2)]
  have "delegator_ok who ((D who)(a \<mapsto> n)) st \<and> D who a = None \<and>
      (DelegatorState s who \<noteq> None \<or> CandidateInfo s who = None)"
  proof (cases "DelegatorState s who")
    case None
    with assms(1,3) have "0 < n" "CandidateInfo s who = None" "st = new_delegator who a n"
      by (auto simp: joins_delegators_def limits_ok_def)
    with delegators_okD(1) [OF d(1) None] new_delegator_ok [of n who a] show ?thesis by simp
  next
    case (Some old)
    with assms(1,3) have st: "0 < n" "delegator_add_delegation \<lparr>bd_owner = a, bd_amount = n\<rparr> old = (st, True)"
      by (auto simp: joins_delegators_def limits_ok_def)
    have "dg_total old + n \<le> u128_max"
      using account_bound [OF d(6), of who] delegators_okD(4) [OF d(1) Some] assms(4) by linarith
    with delegator_add_ok [OF delegators_okD(3) [OF d(1) Some] st(2)] st(1) Some show ?thesis by simp
  qed
  then show "delegator_ok who ((D who)(a \<mapsto> n)) st" "D who a = None"
    "DelegatorState s who \<noteq> None \<or> CandidateInfo s who = None" by auto
qed

lemma joins_delegators_run:
  assumes "(case DelegatorState s who of
      Some state \<Rightarrow>
        seq (ensure (n \<ge> MinDelegation T) e1) (seq (ensure (h1 state) e2) (seq (ensure (h2 state) e3)
        (case delegator_add_delegation \<lparr>bd_owner = a, bd_amount = n\<rparr> state of
           (state, added) \<Rightarrow> seq (ensure added e4) (ok state))))
    | None \<Rightarrow>
        seq (ensure (n \<ge> MinDelegatorStk T) e5)
        (sbind (gets (\<lambda>s. is_candidate s who)) (\<lambda>candidate_too.
         seq (ensure (\<not> candidate_too) e6) (ok (new_delegator who a n))))) s = (Inr st, t)"
  shows "joins_delegators T who a n s st \<and> t = s"
proof (cases "DelegatorState s who")
  case None
  with assms show ?thesis by (auto simp: joins_delegators_def prog_simps is_candidate_def)
next
  case (Some old)
  with assms show ?thesis
    by (cases "delegator_add_delegation \<lparr>bd_owner = a, bd_amount = n\<rparr> old")
       (auto simp: joins_delegators_def prog_simps)
qed

definition only_auto_compound :: "('l, 'z) staking_state_scheme \<Rightarrow> ('l, 'z) staking_state_scheme \<Rightarrow> bool" where
  "only_auto_compound s s' \<longleftrightarrow> s' = s\<lparr>AutoCompoundingDelegations := AutoCompoundingDelegations s'\<rparr>"

lemma only_auto_compound_intros:
  "only_auto_compound s s" "only_auto_compound s (s\<lparr>AutoCompoundingDelegations := cs\<rparr>)"
  by (simp_all add: only_auto_compound_def)

lemma delegate_run:
  assumes "delegate_with_auto_compound T a who n percent h1 h2 h3 s = (Inr u, s')"
  shows "\<exists>st c c' place kicked s1 s2 s3 t e. n \<le> reducible_balance T who (ext s) \<and> joins_delegators T who a n s st \<and>
    CandidateInfo s a = Some c \<and>
    candidate_add_delegation T a \<lparr>bd_owner = who, bd_amount = n\<rparr> c s = (Inr (c', place, kicked), s1) \<and>
    adjust_bond_lock T (Increase n) st s1 = (Inr (), s2) \<and> only_auto_compound s2 s3 \<and>
    s' = s3\<lparr>Total := t, CandidateInfo := (CandidateInfo s3)(a \<mapsto> c'),
      DelegatorState := (DelegatorState s3)(who \<mapsto> st), staking_events := e\<rparr>"
  using assms unfolding delegate_with_auto_compound_def
  apply (elim prog_elims)
  apply hypsubst_thin
  apply (drule joins_delegators_run)
  apply (auto simp: candidate_of_def put_total_def put_candidate_def put_delegator_def deposit_staking_event_def
      Let_def prog_simps stakable_free_balance_def put_auto_compound_def split: if_splits)
   apply (intro exI conjI, assumption+, rule only_auto_compound_intros(2), simp)
  apply (intro exI conjI, assumption+, rule only_auto_compound_intros(1), simp)
  done

text \<open>A delegation is only kicked out for a larger one.\<close>

lemma kicked_is_lower:
  assumes lim: "limits_ok T" and ok: "candidate_ok T c t b"
    and full: "length (dl_delegations b) = MaxBottomDelegationsPerCandidate T"
    and run: "candidate_add_delegation T a x c s = (Inr r, s')"
  shows "bd_amount (last (dl_delegations b)) < bd_amount x"
proof -
  have ne: "dl_delegations b \<noteq> []" using full lim by (auto simp: limits_ok_def)
  have lists: "lists_ok T (dl_delegations t) (dl_delegations b)" using ok by (simp add: candidate_ok_def)
  then have t: "length (dl_delegations t) = MaxTopDelegationsPerCandidate T" "dl_delegations t \<noteq> []"
    using ne lim by (auto simp: lists_ok_def limits_ok_def)
  have cap: "ci_top_capacity c = Full" "ci_bottom_capacity c = Full"
    using capacity_simps [OF lim ok] t(1) full by simp_all
  have low: "ci_lowest_bottom_delegation_amount c = bd_amount (last (dl_delegations b))"
      "ci_lowest_top_delegation_amount c = bd_amount (last (dl_delegations t))"
    using ok ne t(2) by (simp_all add: candidate_ok_def lowest_delegation_amount_def)
  have "bd_amount (last (dl_delegations b)) \<le> bd_amount (last (dl_delegations t))"
    using lists ne t(2) by (simp add: lists_ok_def amounts_descending_def sorted_wrt_append)
  with run cap low show ?thesis
    by (auto simp: candidate_add_delegation_def prog_simps split: if_splits)
qed

lemma delegate_ok:
  assumes laws: "staking_laws T" "limits_ok T" and ok: "staking_ok T D s"
    and run: "delegate_with_auto_compound T a who n percent h1 h2 h3 s = (Inr u, s')"
  shows "\<exists>t b c. D who a = None \<and> candidate_ok T c t b \<and> bonds_by t b = (\<lambda>d. D d a) \<and>
    (length (dl_delegations b) = MaxBottomDelegationsPerCandidate T \<longrightarrow> bd_amount (last (dl_delegations b)) < n) \<and>
    staking_ok T (set_bond who a n (table_with_room T a b D)) s'"
proof -
  obtain st c c' place kicked s1 s2 s3 t e where free: "n \<le> reducible_balance T who (ext s)"
    and join: "joins_delegators T who a n s st" and a: "CandidateInfo s a = Some c"
    and add: "candidate_add_delegation T a \<lparr>bd_owner = who, bd_amount = n\<rparr> c s = (Inr (c', place, kicked), s1)"
    and lock: "adjust_bond_lock T (Increase n) st s1 = (Inr (), s2)" and s3: "only_auto_compound s2 s3"
    and s': "s' = s3\<lparr>Total := t, CandidateInfo := (CandidateInfo s3)(a \<mapsto> c'),
      DelegatorState := (DelegatorState s3)(who \<mapsto> st), staking_events := e\<rparr>"
    using delegate_run [OF run] by blast
  note d = staking_okD [OF ok]
  obtain tl bl where tb: "has_lists a tl bl s" "candidate_ok T c tl bl" "bonds_by tl bl = (\<lambda>d. D d a)"
    using candidates_okD(3) [OF d(2) a] by blast
  note jo = joins_delegators_ok [OF laws(2) ok join free]
  let ?D = "table_with_room T a bl D" and ?D' = "set_bond who a n (table_with_room T a bl D)"
  have "add_result T a c tl bl \<lparr>bd_owner = who, bd_amount = n\<rparr> c' kicked s s1"
    by (rule candidate_add_delegation_ok [OF laws(2) tb(2,1) _ _ add])
       (use jo(2) tb(3) candidate_bound [OF d(1,2,6) a tb(2,3) free] in simp_all)
  then obtain sr tl' bl' where room: "room_made T a bl s sr" and c': "same_candidate c c'" "candidate_ok T c' tl' bl'"
      "bonds_by tl' bl' = (bonds_with_room T tl bl)(who \<mapsto> n)"
    and s1: "s1 = store_lists a tl' bl' (pool_after a c c' (CandidatePool sr)) sr"
    by (auto simp: add_result_def candidate_result_def)
  note rm = room_made_ok [OF laws ok tb(2,3) room] and sl = room_made_lists [OF room, unfolded same_lists_def]
  have id: "dg_id st = who" using jo(1) by (simp add: delegator_ok_def)
  obtain l where s2: "s2 = s1\<lparr>ext := l\<rparr>" and hold: "hold_set T StakingDelegator who (dg_total st) (ext sr) l"
    using adjust_bond_lock_ok [OF laws(1) lock] id by (auto simp: s1)
  have f: "CandidateInfo s' = (CandidateInfo s)(a \<mapsto> c')" "DelegatorState s' = (DelegatorState sr)(who \<mapsto> st)"
    "TopDelegations s' = (TopDelegations s)(a \<mapsto> tl')" "BottomDelegations s' = (BottomDelegations s)(a \<mapsto> bl')"
    "CandidatePool s' = pool_after a c c' (CandidatePool s)" "ext s' = l"
    "DelegationScheduledRequests s' = DelegationScheduledRequests sr"
    by (subst s', subst s3 [unfolded only_auto_compound_def], simp add: s2 s1 sl)+
  have row: "?D' who = (D who)(a \<mapsto> n)" by (simp add: set_bond_def rm(7) [OF jo(2)])
  have "staking_ok T ?D' s'"
  proof (rule table_update_ok [OF ok a _ _ _ f(1) _ _ pool_ok_upd [OF d(3) a f(1,5) c'(1)] _ c'(2) _ c'(1)])
    show "delegators_ok T ?D' s'"
    proof (rule delegators_ok_upd [OF rm(1) f(2)])
      show "case Some st of None \<Rightarrow> ?D' who = Map.empty \<and> hold_of T StakingDelegator who (ext s') = 0
        | Some st \<Rightarrow> delegator_ok who (?D' who) st \<and> hold_of T StakingDelegator who (ext s') = dg_total st"
        using jo(1) hold_setD(1) [OF hold] by (simp add: row f(6))
    qed (simp_all add: f(6) hold_setD(3) [OF hold])
    show "requests_ok ?D' s'"
    proof (rule requests_ok_sub [OF rm(2), where a = a])
      have q: "distinct (map sr_delegator (DelegationScheduledRequests sr a))"
        "\<forall>req\<in>set (DelegationScheduledRequests sr a). request_ok (?D (sr_delegator req) a) (sr_action req)"
        using rm(2) by (simp_all add: requests_ok_def)
      show "distinct (map sr_delegator (DelegationScheduledRequests s' a))" using q(1) by (simp add: f(7))
      have "\<not> request_ok (?D who a) x" for x
        by (simp add: rm(7) [OF jo(2)] jo(2) request_ok_def split: delegation_action.splits)
      then show "\<forall>req\<in>set (DelegationScheduledRequests s' a). request_ok (?D' (sr_delegator req) a) (sr_action req)"
        using q(2) by (auto simp: f(7) set_bond_def)
    qed (simp_all add: f(7))
    show "ledger_bounded T (ext s')" using hold_setD(4) [OF hold rm(4)] by (simp add: f(6))
    show "bonds_by tl' bl' = (\<lambda>d. ?D' d a)" by (simp add: c'(3) set_bond_column rm(6))
    show "?D' e w = D e w" if "w \<noteq> a" for e w using that by (simp add: table_with_room_def)
    show "hold_of T StakingCollator w (ext s') = hold_of T StakingCollator w (ext s)" for w
      using hold_setD(2) [OF hold] rm(3) by (simp add: f(6))
    show "DelegatorState s w \<noteq> None \<or> CandidateInfo s w = None" if "DelegatorState s' w \<noteq> None" for w
      using that jo(3) rm(5) [of w] by (auto simp: f(2) split: if_splits)
  qed (simp_all add: f has_lists_def)
  moreover have "length (dl_delegations bl) = MaxBottomDelegationsPerCandidate T \<longrightarrow> bd_amount (last (dl_delegations bl)) < n"
    using kicked_is_lower [OF laws(2) tb(2) _ add] by simp
  ultimately show ?thesis using tb(2,3) jo(2) by blast
qed

end
