(* ===== verification/Staking_Request_Props.thy ===== *)
theory Staking_Request_Props
  imports Staking_Delegation_Props
begin

text \<open>
  The scheduled requests of the delegators of the pallet \<^verbatim>\<open>parachain-staking\<close>: scheduling and cancelling them
  leaves the table of delegations as it is, executing one changes the amount of one delegation or drops
  it, on both sides.
\<close>

section \<open>Scheduling and cancelling\<close>

definition requests_at_ok :: "table \<Rightarrow> account \<Rightarrow> scheduled_request list \<Rightarrow> bool" where
  "requests_at_ok D a reqs \<longleftrightarrow> distinct (map sr_delegator reqs) \<and>
     (\<forall>req\<in>set reqs. request_ok (D (sr_delegator req) a) (sr_action req))"

lemma requests_ok_at: "requests_ok D s \<longleftrightarrow> (\<forall>a. requests_at_ok D a (DelegationScheduledRequests s a))"
  by (simp add: requests_ok_def requests_at_ok_def)

text \<open>The requests and the sum of the requested amounts change.\<close>

lemma requests_change_ok:
  assumes ok: "staking_ok T D s" and st: "DelegatorState s who = Some st"
    and s': "s' = s\<lparr>DelegationScheduledRequests := R, DelegatorState := (DelegatorState s)(who \<mapsto> st\<lparr>dg_less_total := k\<rparr>),
      staking_events := e\<rparr>"
    and R: "\<And>a. requests_at_ok D a (R a)"
  shows "staking_ok T D s'"
proof -
  note d = staking_okD [OF ok]
  have "delegators_ok T D s'"
    by (rule delegators_ok_upd [OF d(1), where d = who and x = "Some (st\<lparr>dg_less_total := k\<rparr>)"])
       (simp_all add: s' delegators_okD(3,4) [OF d(1) st])
  moreover have "candidates_ok T D s'" by (rule candidates_ok_cong [OF d(2)]) (simp_all add: s')
  moreover have "roles_ok s'" using d(4) st by (auto simp: roles_ok_def is_candidate_def is_delegator_def s')
  moreover have "pool_ok s'" "requests_ok D s'" "ledger_bounded T (ext s')"
    using d(3,6) R by (simp_all add: pool_ok_def s' requests_ok_at)
  ultimately show ?thesis by (simp add: staking_ok_def)
qed

lemma requests_at_add:
  assumes "requests_at_ok D a reqs" "\<forall>req\<in>set reqs. sr_delegator req \<noteq> sr_delegator r"
    "request_ok (D (sr_delegator r) a) (sr_action r)"
  shows "requests_at_ok D a (reqs @ [r])"
  using assms by (auto simp: requests_at_ok_def)

lemma requests_at_without: "requests_at_ok D a reqs \<Longrightarrow> requests_at_ok D a (without_request d reqs)"
  by (auto simp: requests_at_ok_def without_request_def distinct_map_filter)

lemma delegator_row: "delegator_ok d m st \<Longrightarrow> get_bond_amount a st = m a"
  by (simp add: get_bond_amount_eq delegator_ok_def)

lemma delegation_schedule_revoke_ok:
  assumes ok: "staking_ok T D s" and run: "delegation_schedule_revoke T a who s = (Inr u, s')"
  shows "staking_ok T D s'"
proof -
  obtain st n w e where st: "DelegatorState s who = Some st" and n: "get_bond_amount a st = Some n"
    and new: "\<forall>req\<in>set (DelegationScheduledRequests s a). sr_delegator req \<noteq> who"
    and s': "s' = s\<lparr>DelegationScheduledRequests := (DelegationScheduledRequests s)(a := DelegationScheduledRequests s a @
        [\<lparr>sr_delegator = who, sr_when_executable = w, sr_action = Revoke n\<rparr>]),
      DelegatorState := (DelegatorState s)(who \<mapsto> st\<lparr>dg_less_total := saturating_add (dg_less_total st) n\<rparr>),
      staking_events := e\<rparr>"
    using run by (auto simp: delegation_schedule_revoke_def call_simps)
  note d = staking_okD [OF ok]
  have "D who a = Some n" using n delegator_row [OF delegators_okD(3) [OF d(1) st]] by simp
  then show ?thesis
    using d(5) new by (intro requests_change_ok [OF ok st s']) (auto simp: requests_ok_at request_ok_def intro!: requests_at_add)
qed

lemma delegation_schedule_bond_decrease_ok:
  assumes ok: "staking_ok T D s" and run: "delegation_schedule_bond_decrease T a who k s = (Inr u, s')"
  shows "staking_ok T D s'"
proof -
  obtain st n w e where st: "DelegatorState s who = Some st" and n: "get_bond_amount a st = Some n" "k < n"
    and new: "\<forall>req\<in>set (DelegationScheduledRequests s a). sr_delegator req \<noteq> who"
    and s': "s' = s\<lparr>DelegationScheduledRequests := (DelegationScheduledRequests s)(a := DelegationScheduledRequests s a @
        [\<lparr>sr_delegator = who, sr_when_executable = w, sr_action = Decrease k\<rparr>]),
      DelegatorState := (DelegatorState s)(who \<mapsto> st\<lparr>dg_less_total := saturating_add (dg_less_total st) k\<rparr>),
      staking_events := e\<rparr>"
    using run by (auto simp: delegation_schedule_bond_decrease_def call_simps)
  note d = staking_okD [OF ok]
  have "D who a = Some n" using n delegator_row [OF delegators_okD(3) [OF d(1) st]] by simp
  then show ?thesis
    using d(5) new n(2)
    by (intro requests_change_ok [OF ok st s']) (auto simp: requests_ok_at request_ok_def intro!: requests_at_add)
qed

lemma delegation_cancel_request_ok:
  assumes ok: "staking_ok T D s" and run: "delegation_cancel_request a who s = (Inr u, s')"
  shows "staking_ok T D s'"
proof -
  note d = staking_okD [OF ok]
  have r: "requests_at_ok D a (DelegationScheduledRequests s a)" using d(5) by (simp add: requests_ok_at)
  obtain st where st: "DelegatorState s who = Some st" using run by (auto simp: delegation_cancel_request_def call_simps)
  obtain k found where c: "cancel_request_with_state who st (DelegationScheduledRequests s a) =
      (st\<lparr>dg_less_total := k\<rparr>, without_request who (DelegationScheduledRequests s a), found)"
    using cancel_request_eq [of "DelegationScheduledRequests s a" who st] r by (auto simp: requests_at_ok_def)
  obtain e where s': "s' = s\<lparr>DelegationScheduledRequests := (DelegationScheduledRequests s)(a :=
        without_request who (DelegationScheduledRequests s a)),
      DelegatorState := (DelegatorState s)(who \<mapsto> st\<lparr>dg_less_total := k\<rparr>), staking_events := e\<rparr>"
    using run st c by (auto simp: delegation_cancel_request_def call_simps)
  show ?thesis
    using d(5) requests_at_without [OF r] by (intro requests_change_ok [OF ok st s']) (simp add: requests_ok_at)
qed

section \<open>Requests for all delegations\<close>

lemma put_all_requests_run:
  assumes "put_all_requests ups s = (Inr u, s')"
  shows "\<exists>R. s' = s\<lparr>DelegationScheduledRequests := R\<rparr> \<and>
    (\<forall>a. R a = DelegationScheduledRequests s a \<and> a \<notin> fst ` set ups \<or> (a, R a) \<in> set ups)"
  using assms unfolding put_all_requests_def
proof (induction ups arbitrary: s)
  case Nil
  then show ?case by (auto simp: prog_simps intro!: exI [of _ "DelegationScheduledRequests s"])
next
  case (Cons x ups)
  obtain a q where x: "x = (a, q)" by fastforce
  let ?t = "s\<lparr>DelegationScheduledRequests := (DelegationScheduledRequests s)(a := q)\<rparr>"
  have "for_each ups (\<lambda>(a, q). put_requests a q) ?t = (Inr u, s')"
    using Cons.prems by (auto simp: x prog_simps put_requests_def)
  from Cons.IH [OF this] obtain R where R: "s' = ?t\<lparr>DelegationScheduledRequests := R\<rparr>"
    "\<And>w. R w = DelegationScheduledRequests ?t w \<and> w \<notin> fst ` set ups \<or> (w, R w) \<in> set ups" by blast
  have "R w = DelegationScheduledRequests s w \<and> w \<notin> fst ` set (x # ups) \<or> (w, R w) \<in> set (x # ups)" for w
    using R(2) [of w] by (auto simp: x split: if_splits)
  with R(1) show ?case by auto
qed

lemma revoke_all_loop_ok:
  assumes "\<And>a. requests_at_ok D a (R a)" "\<And>b. b \<in> set bs \<Longrightarrow> D who (bd_owner b) = Some (bd_amount b)"
    "revoke_all_loop who w R bs st = (st', ups, k)"
  shows "(\<exists>n. st' = st\<lparr>dg_less_total := n\<rparr>) \<and> (\<forall>(a, q)\<in>set ups. requests_at_ok D a q)"
  using assms(2,3)
proof (induction bs arbitrary: st st' ups k)
  case Nil
  then show ?case by (auto intro!: exI [of _ "dg_less_total st"])
next
  case (Cons b bs)
  let ?a = "bd_owner b"
  have r: "distinct (map sr_delegator (R ?a))" using assms(1) [of ?a] by (simp add: requests_at_ok_def)
  obtain n found where c: "cancel_request_with_state who st (R ?a) = (st\<lparr>dg_less_total := n\<rparr>, without_request who (R ?a), found)"
    and f: "\<And>req. found = Some req \<Longrightarrow> req \<in> set (R ?a) \<and> sr_delegator req = who"
    using cancel_request_eq [OF r, of who st] by blast
  define ex where "ex = (case found of Some req \<Rightarrow> is_revoke (sr_action req) | None \<Rightarrow> False)"
  define req where "req = (if ex then the found
    else \<lparr>sr_delegator = who, sr_when_executable = w, sr_action = Revoke (bd_amount b)\<rparr>)"
  obtain st1 ups1 k1 where l: "revoke_all_loop who w R bs (st\<lparr>dg_less_total := saturating_add n (bd_amount b)\<rparr>) = (st1, ups1, k1)"
    by (metis prod_cases3)
  have res: "st' = st1" "ups = (?a, without_request who (R ?a) @ [req]) # ups1"
    using Cons.prems(2) by (simp_all add: c l Let_def flip: ex_def req_def)
  have "request_ok (D (sr_delegator req) ?a) (sr_action req) \<and> sr_delegator req = who"
  proof (cases ex)
    case True
    then obtain q where "found = Some q" by (auto simp: ex_def split: option.splits)
    with True f assms(1) [of ?a] show ?thesis by (auto simp: req_def requests_at_ok_def)
  qed (use Cons.prems(1) [of b] in \<open>simp add: req_def request_ok_def\<close>)
  then have "requests_at_ok D ?a (without_request who (R ?a) @ [req])"
    by (intro requests_at_add requests_at_without assms(1)) (auto simp: without_request_def)
  with Cons.IH [OF _ l] Cons.prems(1) show ?case by (auto simp: res)
qed

lemma row_bonds:
  assumes "delegator_ok d m st" "b \<in> set (dg_delegations st)"
  shows "m (bd_owner b) = Some (bd_amount b)"
proof -
  have o: "distinct (map bd_owner (dg_delegations st))" "amount_of (dg_delegations st) = m"
    using assms(1) ordered_distinct by (auto simp: delegator_ok_def)
  have "\<lparr>bd_owner = bd_owner b, bd_amount = bd_amount b\<rparr> \<in> set (dg_delegations st)"
    using assms(2) unfolding bond_mem by blast
  then show ?thesis using amount_of_Some [OF o(1)] o(2) by blast
qed

lemma already_active: "dg_status st = DelegatorActive \<Longrightarrow> st\<lparr>dg_status := DelegatorActive\<rparr> = st"
  by (cases st) simp

lemma delegator_schedule_revoke_all_ok:
  assumes ok: "staking_ok T D s" and run: "delegator_schedule_revoke_all T who s = (Inr u, s')"
  shows "staking_ok T D s'"
proof -
  note d = staking_okD [OF ok]
  obtain st where st: "DelegatorState s who = Some st"
    using run by (auto simp: delegator_schedule_revoke_all_def call_simps)
  note dok = delegators_okD(3) [OF d(1) st]
  have act: "dg_status st = DelegatorActive" using dok by (simp add: delegator_ok_def)
  define w where "w = saturating_add_u32 (rd_current (Round s)) (LeaveDelegatorsDelay T)"
  obtain st' ups k where l: "revoke_all_loop who w (DelegationScheduledRequests s) (dg_delegations st) st = (st', ups, k)"
    by (metis prod_cases3)
  note loop = revoke_all_loop_ok [OF d(5) [unfolded requests_ok_at, rule_format] row_bonds [OF dok] l]
  obtain s1 e where put: "put_all_requests ups s = (Inr (), s1)"
    and s': "s' = s1\<lparr>DelegatorState := (DelegatorState s1)(who \<mapsto> st'), staking_events := e\<rparr>"
    using run l by (auto simp: delegator_schedule_revoke_all_def call_simps st act already_active w_def)
  obtain R where R: "s1 = s\<lparr>DelegationScheduledRequests := R\<rparr>"
      "\<And>a. R a = DelegationScheduledRequests s a \<and> a \<notin> fst ` set ups \<or> (a, R a) \<in> set ups"
    using put_all_requests_run [OF put] by blast
  have "requests_at_ok D a (R a)" for a
    using R(2) [of a] loop d(5) [unfolded requests_ok_at, rule_format, of a] by auto
  moreover obtain n where "st' = st\<lparr>dg_less_total := n\<rparr>" using loop by blast
  ultimately show ?thesis using R(1) s' by (intro requests_change_ok [OF ok st, where R = R and k = n and e = e]) simp_all
qed

lemma cancel_all_loop_ok:
  assumes "\<And>a. requests_at_ok D a (R a)" "cancel_all_loop who R bs st = (st', ups)"
  shows "(\<exists>n. st' = st\<lparr>dg_less_total := n\<rparr>) \<and> (\<forall>(a, q)\<in>set ups. requests_at_ok D a q)"
  using assms(2)
proof (induction bs arbitrary: st st' ups)
  case Nil
  then show ?case by (auto intro!: exI [of _ "dg_less_total st"])
next
  case (Cons b bs)
  let ?a = "bd_owner b"
  have r: "distinct (map sr_delegator (R ?a))" using assms(1) [of ?a] by (simp add: requests_at_ok_def)
  obtain n found where c: "cancel_request_with_state who st (R ?a) = (st\<lparr>dg_less_total := n\<rparr>, without_request who (R ?a), found)"
    using cancel_request_eq [OF r, of who st] by blast
  obtain st1 ups1 where l: "cancel_all_loop who R bs (st\<lparr>dg_less_total := n\<rparr>) = (st1, ups1)" by fastforce
  have "requests_at_ok D ?a (without_request who (R ?a))" by (rule requests_at_without [OF assms(1)])
  with Cons.prems l Cons.IH [OF l] show ?case by (auto simp: c)
qed

lemma delegator_cancel_scheduled_revoke_all_ok:
  assumes ok: "staking_ok T D s" and run: "delegator_cancel_scheduled_revoke_all who s = (Inr u, s')"
  shows "staking_ok T D s'"
proof -
  note d = staking_okD [OF ok]
  obtain st where st: "DelegatorState s who = Some st"
    using run by (auto simp: delegator_cancel_scheduled_revoke_all_def call_simps)
  have act: "dg_status st = DelegatorActive" using delegators_okD(3) [OF d(1) st] by (simp add: delegator_ok_def)
  obtain st' ups where l: "cancel_all_loop who (DelegationScheduledRequests s) (dg_delegations st) st = (st', ups)"
    by fastforce
  note loop = cancel_all_loop_ok [OF d(5) [unfolded requests_ok_at, rule_format] l]
  obtain s1 e where put: "put_all_requests ups s = (Inr (), s1)"
    and s': "s' = s1\<lparr>DelegatorState := (DelegatorState s1)(who \<mapsto> st'), staking_events := e\<rparr>"
    using run l by (auto simp: delegator_cancel_scheduled_revoke_all_def call_simps st act)
  obtain R where R: "s1 = s\<lparr>DelegationScheduledRequests := R\<rparr>"
      "\<And>a. R a = DelegationScheduledRequests s a \<and> a \<notin> fst ` set ups \<or> (a, R a) \<in> set ups"
    using put_all_requests_run [OF put] by blast
  have "requests_at_ok D a (R a)" for a
    using R(2) [of a] loop d(5) [unfolded requests_ok_at, rule_format, of a] by auto
  moreover obtain n where "st' = st\<lparr>dg_less_total := n\<rparr>" using loop by blast
  ultimately show ?thesis using R(1) s' by (intro requests_change_ok [OF ok st, where R = R and k = n and e = e]) simp_all
qed

section \<open>One delegation changes on both sides\<close>

lemma pool_twice_ok:
  assumes "pool_ok s" "CandidateInfo s a = Some c" "x \<Longrightarrow> candidate_is_active c"
  shows "pool_ok (s\<lparr>CandidatePool := pool_if x a (ci_total_counted c) (CandidatePool s)\<rparr>)"
  using assms pool_with_ok [of "CandidatePool s"]
  by (auto simp: pool_ok_def pool_if_def stake_if_active_def fun_eq_iff)

lemma result_update_ok:
  assumes ok: "staking_ok T D s" and a: "CandidateInfo s a = Some c"
    and res: "candidate_result T a c (\<lambda>d. D' d a) c' s0 s1" and same: "same_lists s s0"
    and s': "CandidateInfo s' = (CandidateInfo s)(a \<mapsto> c')" "TopDelegations s' = TopDelegations s1"
      "BottomDelegations s' = BottomDelegations s1"
      "CandidatePool s' = pool_if x a (ci_total_counted c') (CandidatePool s1)"
    and x: "x \<Longrightarrow> candidate_is_active c'"
    and del: "delegators_ok T D' s'" and req: "requests_ok D' s'" and bnd: "ledger_bounded T (ext s')"
    and other: "\<And>d w. w \<noteq> a \<Longrightarrow> D' d w = D d w"
    and hold: "\<And>w. hold_of T StakingCollator w (ext s') = hold_of T StakingCollator w (ext s)"
    and roles: "\<And>w. DelegatorState s' w \<noteq> None \<Longrightarrow> DelegatorState s w \<noteq> None"
  shows "staking_ok T D' s'"
proof -
  obtain t b where c': "same_candidate c c'" "candidate_ok T c' t b" "bonds_by t b = (\<lambda>d. D' d a)"
    and s1: "s1 = store_lists a t b (pool_after a c c' (CandidatePool s0)) s0"
    using res by (auto simp: candidate_result_def)
  note sl = same [unfolded same_lists_def]
  let ?p = "s'\<lparr>CandidatePool := CandidatePool s1\<rparr>"
  have "pool_ok ?p"
    by (rule pool_ok_upd [OF staking_okD(3) [OF ok] a _ _ c'(1)]) (simp_all add: s'(1) s1 sl)
  then have "pool_ok (?p\<lparr>CandidatePool := pool_if x a (ci_total_counted c') (CandidatePool ?p)\<rparr>)"
    by (rule pool_twice_ok [OF _ _ x]) (simp_all add: s'(1))
  then have "pool_ok s'" by (simp add: s'(1,4) pool_ok_def)
  then show ?thesis
    by (intro table_update_ok [OF ok a del req bnd s'(1) _ _ _ _ c'(2,3,1) other hold])
       (use roles in \<open>auto simp: s'(2,3) s1 sl has_lists_def\<close>)
qed

lemma requests_set_bond:
  assumes "requests_ok D s" "DelegationScheduledRequests s' = DelegationScheduledRequests s"
    "\<And>req. req \<in> set (DelegationScheduledRequests s a) \<Longrightarrow> sr_delegator req = who \<Longrightarrow> request_ok (Some n) (sr_action req)"
  shows "requests_ok (set_bond who a n D) s'"
proof (rule requests_ok_sub [OF assms(1), where a = a])
  have r: "distinct (map sr_delegator (DelegationScheduledRequests s a))"
    "\<forall>req\<in>set (DelegationScheduledRequests s a). request_ok (D (sr_delegator req) a) (sr_action req)"
    using assms(1) by (simp_all add: requests_ok_def)
  show "distinct (map sr_delegator (DelegationScheduledRequests s' a))" using r(1) by (simp add: assms(2))
  show "\<forall>req\<in>set (DelegationScheduledRequests s' a). request_ok (set_bond who a n D (sr_delegator req) a) (sr_action req)"
    using r(2) assms(3) by (auto simp: assms(2) set_bond_def)
qed (simp_all add: assms(2))

lemma delegators_set_row:
  assumes "delegators_ok T D s" "DelegatorState s' = (DelegatorState s)(who \<mapsto> st')"
    "delegator_ok who ((D who)(a \<mapsto> n)) st'" "hold_set T StakingDelegator who (dg_total st') (ext s) (ext s')"
  shows "delegators_ok T (set_bond who a n D) s'"
  by (rule delegators_ok_upd [OF assms(1,2)])
     (use assms(3) hold_setD(1,3) [OF assms(4)] in \<open>simp_all add: set_bond_def\<close>)

section \<open>Bonding more\<close>

lemma adjust_increase_free:
  assumes "adjust_bond_lock T (Increase n) d s = (Inr u, s')"
  shows "n \<le> reducible_balance T (dg_id d) (ext s)"
  using assms by (auto simp: adjust_bond_lock_def prog_simps stakable_free_balance_def)

text \<open>The writes of \<^verbatim>\<open>increase_delegation\<close>, in the order the code makes them.\<close>

lemma delegator_increase_run:
  assumes "delegator_increase_delegation T a n st s = (Inr r, s')"
  shows "\<exists>m st' s1 c c' x s2 t. get_bond_amount a st = Some m \<and>
    st' = st\<lparr>dg_delegations := change_first_bond a (\<lambda>k. saturating_add k n) (dg_delegations st),
      dg_total := saturating_add (dg_total st) n\<rparr> \<and>
    adjust_bond_lock T (Increase n) st' s = (Inr (), s1) \<and> CandidateInfo s1 a = Some c \<and>
    candidate_increase_delegation T a (dg_id st) m n c s1 = (Inr (c', r), s2) \<and> (x \<longrightarrow> candidate_is_active c') \<and>
    s' = s2\<lparr>CandidatePool := pool_if x a (ci_total_counted c') (CandidatePool s2),
      CandidateInfo := (CandidateInfo s2)(a \<mapsto> c'), Total := t, DelegatorState := (DelegatorState s2)(dg_id st \<mapsto> st')\<rparr>"
proof -
  obtain m where m: "get_bond_amount a st = Some m"
    using assms by (cases "get_bond_amount a st") (auto simp: delegator_increase_delegation_def prog_simps)
  define st' where "st' = st\<lparr>dg_delegations := change_first_bond a (\<lambda>k. saturating_add k n) (dg_delegations st),
      dg_total := saturating_add (dg_total st) n\<rparr>"
  obtain s1 c c' s2 where 1: "adjust_bond_lock T (Increase n) st' s = (Inr (), s1)" "CandidateInfo s1 a = Some c"
    "candidate_increase_delegation T a (dg_id st') m n c s1 = (Inr (c', r), s2)"
    and s': "s' = s2\<lparr>CandidatePool := pool_if (candidate_is_active c' \<and> ci_total_counted c \<noteq> ci_total_counted c') a
        (ci_total_counted c') (CandidatePool s2), CandidateInfo := (CandidateInfo s2)(a \<mapsto> c'),
      Total := saturating_add (Total s2) n, DelegatorState := (DelegatorState s2)(dg_id st' \<mapsto> st')\<rparr>"
    using assms unfolding delegator_increase_delegation_def m option.case Let_def st'_def [symmetric]
    apply (elim prog_elims)
    apply (clarsimp simp: staking_access_defs prog_simps if_active_Inr)
    done
  have id: "dg_id st' = dg_id st" by (simp add: st'_def)
  note run3 = 1(3) [unfolded id] and s'' = s' [unfolded id]
  show ?thesis
    by (rule exI [of _ m], rule exI [of _ st'], rule exI [of _ s1], rule exI [of _ c], rule exI [of _ c'],
        rule exI [of _ "candidate_is_active c' \<and> ci_total_counted c \<noteq> ci_total_counted c'"], rule exI [of _ s2],
        rule exI [of _ "saturating_add (Total s2) n"])
       (intro conjI m st'_def 1(1,2) run3 s'' impI, elim conjE)
qed

lemma delegation_bond_more_ok:
  assumes laws: "staking_laws T" "limits_ok T" and ok: "staking_ok T D s"
    and run: "delegation_bond_more_without_event T who a n s = (Inr r, s')"
  shows "\<exists>m. D who a = Some m \<and> staking_ok T (set_bond who a (m + n) D) s'"
proof -
  note d = staking_okD [OF ok]
  obtain st where st: "DelegatorState s who = Some st" and inc: "delegator_increase_delegation T a n st s = (Inr r, s')"
    and live: "\<forall>req\<in>set (DelegationScheduledRequests s a). sr_delegator req = who \<longrightarrow> \<not> is_revoke (sr_action req)"
    using run by (auto simp: delegation_bond_more_without_event_def prog_simps delegator_of_def delegation_request_revoke_exists_def)
  note dok = delegators_okD(3) [OF d(1) st]
  obtain m st' s1 c c' x s2 t where m: "get_bond_amount a st = Some m"
    and st': "st' = st\<lparr>dg_delegations := change_first_bond a (\<lambda>k. saturating_add k n) (dg_delegations st),
      dg_total := saturating_add (dg_total st) n\<rparr>"
    and lock: "adjust_bond_lock T (Increase n) st' s = (Inr (), s1)" and a1: "CandidateInfo s1 a = Some c"
    and run2: "candidate_increase_delegation T a (dg_id st) m n c s1 = (Inr (c', r), s2)" and x: "x \<longrightarrow> candidate_is_active c'"
    and s': "s' = s2\<lparr>CandidatePool := pool_if x a (ci_total_counted c') (CandidatePool s2),
      CandidateInfo := (CandidateInfo s2)(a \<mapsto> c'), Total := t, DelegatorState := (DelegatorState s2)(dg_id st \<mapsto> st')\<rparr>"
    using delegator_increase_run [OF inc] by blast
  have id: "dg_id st = who" "dg_id st' = who" using dok by (auto simp: delegator_ok_def st')
  have row: "D who a = Some m" using m delegator_row [OF dok] by simp
  have free: "n \<le> reducible_balance T who (ext s)" using adjust_increase_free [OF lock] id by simp
  obtain l where s1: "s1 = s\<lparr>ext := l\<rparr>" and hold: "hold_set T StakingDelegator who (dg_total st') (ext s) l"
    using adjust_bond_lock_ok [OF laws(1) lock] id by auto
  have a: "CandidateInfo s a = Some c" using a1 by (simp add: s1)
  obtain tl bl where tb: "has_lists a tl bl s" "candidate_ok T c tl bl" "bonds_by tl bl = (\<lambda>d. D d a)"
    using candidates_okD(3) [OF d(2) a] by blast
  have tb1: "has_lists a tl bl s1" "bonds_by tl bl who = Some m" using tb row by (auto simp: s1 has_lists_def)
  note bound = candidate_bound [OF d(1,2,6) a tb(2,3) free]
  let ?D = "set_bond who a (m + n) D"
  have res: "candidate_result T a c (\<lambda>d. ?D d a) c' s1 s2"
    using candidate_increase_delegation_ok [OF laws(2) tb(2) tb1 bound] run2 by (auto simp: id tb(3) set_bond_column)
  then have s2: "DelegatorState s2 = DelegatorState s" "ext s2 = l" "CandidateInfo s2 = CandidateInfo s"
    "DelegationScheduledRequests s2 = DelegationScheduledRequests s"
    by (auto simp: candidate_result_def s1)
  have tot: "dg_total st + n \<le> u128_max" "m \<le> dg_total st"
    using account_bound [OF d(6), of who] delegators_okD(4) [OF d(1) st] free delegation_le_hold [OF d(1) row] by linarith+
  then have sat: "saturating_add m n = m + n" "saturating_add (dg_total st) n = dg_total st + n"
    by (simp_all add: saturating_add_exact)
  have "0 < m" using dok row by (auto simp: delegator_ok_def ran_def)
  then have st'_ok: "delegator_ok who ((D who)(a \<mapsto> m + n)) st'"
    using delegator_change_ok [OF dok row, of "\<lambda>k. saturating_add k n" "dg_total st + n"] tot(2)
    unfolding st' sat by simp
  have "staking_ok T ?D s'"
  proof (rule result_update_ok [where D' = ?D and x = x, OF ok a res])
    show "delegators_ok T ?D s'" by (rule delegators_set_row [OF d(1) _ st'_ok]) (simp_all add: s' id s2 hold)
    show "requests_ok ?D s'"
    proof (rule requests_set_bond [OF d(5)])
      fix req assume "req \<in> set (DelegationScheduledRequests s a)" "sr_delegator req = who"
      then have "request_ok (Some m) (sr_action req)" "\<not> is_revoke (sr_action req)"
        using d(5) [unfolded requests_ok_def, rule_format, of a, THEN conjunct2, rule_format, of req] live row by simp_all
      then show "request_ok (Some (m + n)) (sr_action req)"
        by (cases "sr_action req") (auto simp: request_ok_def is_revoke_def)
    qed (simp add: s' s2)
    show "DelegatorState s w \<noteq> None" if "DelegatorState s' w \<noteq> None" for w
      using that st by (auto simp: s' s2 id split: if_splits)
  qed (use hold_setD(2,4) [OF hold] d(6) x in \<open>simp_all add: s' s2 same_lists_def s1\<close>)
  with row show ?thesis by blast
qed

section \<open>Executing a request\<close>

lemma delegator_leaves_candidate_ok:
  assumes lim: "limits_ok T" and a: "CandidateInfo s a = Some c"
    and tb: "candidate_ok T c tp bt" "has_lists a tp bt s" "bonds_by tp bt who = Some n"
  shows "\<exists>c' s1 t e. candidate_result T a c ((bonds_by tp bt)(who := None)) c' s s1 \<and>
    delegator_leaves_candidate T a who n s =
      (Inr (), s1\<lparr>Total := t, CandidateInfo := (CandidateInfo s1)(a \<mapsto> c'), staking_events := e\<rparr>)"
proof -
  obtain c' r s1 where "rm_delegation_if_exists T a who n c s = (Inr (c', r), s1)"
    and res: "candidate_result T a c ((bonds_by tp bt)(who := None)) c' s s1"
    using rm_delegation_if_exists_ok [OF lim tb] by blast
  with a show ?thesis
    by (intro exI [of _ c'] exI [of _ s1] exI [of _ "saturating_sub (Total s1) n"]
        exI [of _ "staking_events s1 @ [DelegatorLeftCandidate who a n (ci_total_counted c')]"] conjI res)
       (simp add: delegator_leaves_candidate_def staking_access_defs prog_defs)
qed

lemma due_request:
  assumes "requests_ok D s" "position (\<lambda>req. sr_delegator req = who) (DelegationScheduledRequests s a) = Some i"
  shows "remove_at i (DelegationScheduledRequests s a) = without_request who (DelegationScheduledRequests s a)"
    "request_ok (D who a) (sr_action (DelegationScheduledRequests s a ! i))"
proof -
  have i: "i < length (DelegationScheduledRequests s a)" "sr_delegator (DelegationScheduledRequests s a ! i) = who"
    using position_Some [OF assms(2)] by auto
  have r: "distinct (map sr_delegator (DelegationScheduledRequests s a))"
    "\<forall>req\<in>set (DelegationScheduledRequests s a). request_ok (D (sr_delegator req) a) (sr_action req)"
    using assms(1) by (simp_all add: requests_ok_def)
  show "remove_at i (DelegationScheduledRequests s a) = without_request who (DelegationScheduledRequests s a)"
    by (rule remove_request_at [OF r(1) i])
  show "request_ok (D who a) (sr_action (DelegationScheduledRequests s a ! i))"
    using r(2) [rule_format, OF nth_mem [OF i(1)]] i(2) by simp
qed

text \<open>The last step of a revocation: the delegator's state is removed with its last bond.\<close>

definition unless_gone :: "bool \<Rightarrow> delegator \<Rightarrow> delegator option" where
  "unless_gone gone st = (if gone then None else Some st)"

definition event_if :: "bool \<Rightarrow> staking_event \<Rightarrow> staking_event list \<Rightarrow> staking_event list" where
  "event_if x e es = (if x then es @ [e] else es)"

lemma if_leaving_Inr:
  "(if x then seq (put_delegator who None) (deposit_staking_event e) else put_delegator who (Some st)) s = (Inr u, t) \<longleftrightarrow>
   t = s\<lparr>DelegatorState := (DelegatorState s)(who := unless_gone x st), staking_events := event_if x e (staking_events s)\<rparr>"
  by (auto simp: staking_access_defs prog_simps unless_gone_def event_if_def)

lemma execute_revoke_run:
  assumes run: "delegation_execute_scheduled_request T a who s = (Inr u, s')"
    and st: "DelegatorState s who = Some st" and i: "position (\<lambda>req. sr_delegator req = who) (DelegationScheduledRequests s a) = Some i"
    and act: "sr_action (DelegationScheduledRequests s a ! i) = Revoke n"
  shows "\<exists>k st1 rem s1 s2 s3 e.
    delegator_rm_delegation T a (st\<lparr>dg_less_total := k\<rparr>) s = (Inr (st1, rem), s1) \<and>
    remove_auto_compound a who s1 = (Inr (), s2) \<and> delegator_leaves_candidate T a who n s2 = (Inr (), s3) \<and>
    s' = s3\<lparr>DelegationScheduledRequests := (DelegationScheduledRequests s3)(a := remove_at i (DelegationScheduledRequests s a)),
      DelegatorState := (DelegatorState s3)(who := unless_gone (length (dg_delegations st) = 1) st1), staking_events := e\<rparr>"
  using run unfolding delegation_execute_scheduled_request_def
  apply (elim prog_elims)
  apply (clarsimp simp: delegator_of_def prog_simps st i act Let_def if_leaving_Inr simp del: One_nat_def)
  apply (intro exI conjI)
     apply assumption+
  apply (simp add: put_requests_def deposit_staking_event_def prog_simps)
  done

lemma execute_revoke_ok:
  assumes laws: "staking_laws T" "limits_ok T" and ok: "staking_ok T D s"
    and run: "delegation_execute_scheduled_request T a who s = (Inr u, s')"
    and st: "DelegatorState s who = Some st" and i: "position (\<lambda>req. sr_delegator req = who) (DelegationScheduledRequests s a) = Some i"
    and act: "sr_action (DelegationScheduledRequests s a ! i) = Revoke n"
  shows "staking_ok T (drop_bond who a D) s'"
proof -
  note d = staking_okD [OF ok]
  note due = due_request [OF d(5) i]
  note dok = delegators_okD(3) [OF d(1) st]
  have n: "D who a = Some n" using due(2) by (simp add: act request_ok_def)
  obtain k st1 rem s1 s2 s3 e where rm: "delegator_rm_delegation T a (st\<lparr>dg_less_total := k\<rparr>) s = (Inr (st1, rem), s1)"
    and ac: "remove_auto_compound a who s1 = (Inr (), s2)" and lv: "delegator_leaves_candidate T a who n s2 = (Inr (), s3)"
    and s': "s' = s3\<lparr>DelegationScheduledRequests := (DelegationScheduledRequests s3)(a := remove_at i (DelegationScheduledRequests s a)),
      DelegatorState := (DelegatorState s3)(who := unless_gone (length (dg_delegations st) = 1) st1), staking_events := e\<rparr>"
    using execute_revoke_run [OF run st i act] by blast
  have "delegator_ok who (D who) (st\<lparr>dg_less_total := k\<rparr>)" using dok by simp
  from delegator_rm_delegation_ok [OF laws(1) this n rm] obtain l where s1: "s1 = s\<lparr>ext := l\<rparr>"
    and hold: "hold_set T StakingDelegator who (dg_total st - n) (ext s) l"
    and st1: "st1 = st\<lparr>dg_less_total := k, dg_delegations := without_owner a (dg_delegations st), dg_total := dg_total st - n\<rparr>"
    by auto
  have st1': "st1 = st\<lparr>dg_delegations := without_owner a (dg_delegations st), dg_total := dg_total st - n, dg_less_total := k\<rparr>"
    by (cases st) (simp add: st1)
  obtain cs where s2: "s2 = s1\<lparr>AutoCompoundingDelegations := cs\<rparr>" using remove_auto_compound_run [OF ac] by blast
  obtain c where a: "CandidateInfo s a = Some c" using candidates_okD(5) [OF d(2) n] by blast
  obtain tl bl where tb: "has_lists a tl bl s" "candidate_ok T c tl bl" "bonds_by tl bl = (\<lambda>d. D d a)"
    using candidates_okD(3) [OF d(2) a] by blast
  have tb2: "has_lists a tl bl s2" "bonds_by tl bl who = Some n" "CandidateInfo s2 a = Some c"
    using tb n a by (auto simp: s1 s2 has_lists_def)
  let ?D = "drop_bond who a D"
  obtain c' s4 t e' where res: "candidate_result T a c (\<lambda>d. ?D d a) c' s2 s4"
    and s3: "s3 = s4\<lparr>Total := t, CandidateInfo := (CandidateInfo s4)(a \<mapsto> c'), staking_events := e'\<rparr>"
    using delegator_leaves_candidate_ok [OF laws(2) tb2(3) tb(2) tb2(1,2)] lv by (auto simp: drop_bond_column tb(3))
  have s4: "DelegatorState s4 = DelegatorState s" "ext s4 = l" "CandidateInfo s4 = CandidateInfo s"
    "DelegationScheduledRequests s4 = DelegationScheduledRequests s"
    using res by (auto simp: candidate_result_def s1 s2)
  have len: "length (dg_delegations st) = Suc (length (without_owner a (dg_delegations st)))"
    using dok n by (intro without_owner_row(5)) (auto simp: delegator_ok_def)
  have reqs: "DelegationScheduledRequests s' = (DelegationScheduledRequests s)(a := without_request who (DelegationScheduledRequests s a))"
    by (simp add: s' s3 s4 due(1))
  show ?thesis
  proof (rule result_update_ok [where D' = ?D and x = False, OF ok a res])
    show "delegators_ok T ?D s'" unfolding drop_bond_def
      by (rule delegators_drop_row [OF d(1) st n, where k = k]) (simp_all add: s' s3 s4 hold unless_gone_def len st1')
    show "requests_ok ?D s'"
      by (rule without_request_ok [OF d(5) _ reqs, where x = None]) (simp add: drop_bond_def)
    show "DelegatorState s w \<noteq> None" if "DelegatorState s' w \<noteq> None" for w
      using that st by (auto simp: s' s3 s4 split: if_splits)
  qed (use hold_setD(2,4) [OF hold] d(6) in \<open>simp_all add: s' s3 s4 same_lists_def s1 s2 pool_if_def\<close>)
qed

lemma execute_decrease_run:
  assumes run: "delegation_execute_scheduled_request T a who s = (Inr u, s')"
    and st: "DelegatorState s who = Some st" and i: "position (\<lambda>req. sr_delegator req = who) (DelegationScheduledRequests s a) = Some i"
    and act: "sr_action (DelegationScheduledRequests s a ! i) = Decrease n" and m: "get_bond_amount a st = Some m"
  shows "\<exists>k c st1 s1 c' r s2 t e. CandidateInfo s a = Some c \<and> n < m \<and>
    st1 = st\<lparr>dg_less_total := k, dg_delegations := change_first_bond a (\<lambda>x. x - n) (dg_delegations st),
      dg_total := dg_total st - n\<rparr> \<and>
    adjust_bond_lock T DecreaseBond st1 s = (Inr (), s1) \<and>
    candidate_decrease_delegation T a who m n c s1 = (Inr (c', r), s2) \<and>
    s' = s2\<lparr>CandidateInfo := (CandidateInfo s2)(a \<mapsto> c'), Total := t,
      DelegationScheduledRequests := (DelegationScheduledRequests s2)(a := remove_at i (DelegationScheduledRequests s a)),
      DelegatorState := (DelegatorState s2)(who \<mapsto> st1), staking_events := e\<rparr>"
  using run m unfolding delegation_execute_scheduled_request_def
  apply (elim prog_elims)
  apply (clarsimp simp: delegator_of_def candidate_of_def prog_simps st i act Let_def get_bond_amount_eq total_sub_if_def
      split: if_splits)
  apply (intro exI conjI)
    apply assumption+
  apply (simp add: staking_access_defs prog_simps)
  done

lemma execute_decrease_ok:
  assumes laws: "staking_laws T" "limits_ok T" and ok: "staking_ok T D s"
    and run: "delegation_execute_scheduled_request T a who s = (Inr u, s')"
    and st: "DelegatorState s who = Some st" and i: "position (\<lambda>req. sr_delegator req = who) (DelegationScheduledRequests s a) = Some i"
    and act: "sr_action (DelegationScheduledRequests s a ! i) = Decrease n"
  shows "\<exists>m. D who a = Some m \<and> staking_ok T (set_bond who a (m - n) D) s'"
proof -
  note d = staking_okD [OF ok]
  note due = due_request [OF d(5) i]
  note dok = delegators_okD(3) [OF d(1) st]
  obtain m where m: "D who a = Some m" "n < m" using due(2) by (auto simp: act request_ok_def)
  then have gm: "get_bond_amount a st = Some m" using delegator_row [OF dok] by simp
  obtain k c st1 s1 c' r s2 t e where a: "CandidateInfo s a = Some c"
    and st1: "st1 = st\<lparr>dg_less_total := k, dg_delegations := change_first_bond a (\<lambda>x. x - n) (dg_delegations st),
      dg_total := dg_total st - n\<rparr>"
    and lock: "adjust_bond_lock T DecreaseBond st1 s = (Inr (), s1)"
    and dec: "candidate_decrease_delegation T a who m n c s1 = (Inr (c', r), s2)"
    and s': "s' = s2\<lparr>CandidateInfo := (CandidateInfo s2)(a \<mapsto> c'), Total := t,
      DelegationScheduledRequests := (DelegationScheduledRequests s2)(a := remove_at i (DelegationScheduledRequests s a)),
      DelegatorState := (DelegatorState s2)(who \<mapsto> st1), staking_events := e\<rparr>"
    using execute_decrease_run [OF run st i act gm] by blast
  have "dg_id st1 = who" using dok by (simp add: st1 delegator_ok_def)
  then obtain l where s1: "s1 = s\<lparr>ext := l\<rparr>" and hold: "hold_set T StakingDelegator who (dg_total st1) (ext s) l"
    using adjust_bond_lock_ok [OF laws(1) lock] by auto
  obtain tl bl where tb: "has_lists a tl bl s" "candidate_ok T c tl bl" "bonds_by tl bl = (\<lambda>d. D d a)"
    using candidates_okD(3) [OF d(2) a] by blast
  have tb1: "has_lists a tl bl s1" "bonds_by tl bl who = Some m" "n \<le> m" using tb m by (auto simp: s1 has_lists_def)
  let ?D = "set_bond who a (m - n) D"
  have res: "candidate_result T a c (\<lambda>d. ?D d a) c' s1 s2"
    using candidate_decrease_delegation_ok [OF laws(2) tb(2) tb1] dec by (auto simp: tb(3) set_bond_column)
  then have s2: "DelegatorState s2 = DelegatorState s" "ext s2 = l" "CandidateInfo s2 = CandidateInfo s"
    "DelegationScheduledRequests s2 = DelegationScheduledRequests s"
    by (auto simp: candidate_result_def s1)
  have "m \<le> dg_total st" using delegation_le_hold [OF d(1) m(1)] delegators_okD(4) [OF d(1) st] by simp
  then have st1_ok: "delegator_ok who ((D who)(a \<mapsto> m - n)) st1"
    using delegator_change_ok [of who "D who" "st\<lparr>dg_less_total := k\<rparr>" a m "\<lambda>x. x - n" "dg_total st - n"] dok m
    unfolding st1 by simp
  have reqs: "DelegationScheduledRequests s' = (DelegationScheduledRequests s)(a := without_request who (DelegationScheduledRequests s a))"
    by (simp add: s' s2 due(1))
  have "staking_ok T ?D s'"
  proof (rule result_update_ok [where D' = ?D and x = False, OF ok a res])
    show "delegators_ok T ?D s'" by (rule delegators_set_row [OF d(1) _ st1_ok]) (simp_all add: s' s2 hold)
    show "requests_ok ?D s'"
      by (rule without_request_ok [OF d(5) _ reqs, where x = "Some (m - n)"]) (simp add: set_bond_def)
    show "DelegatorState s w \<noteq> None" if "DelegatorState s' w \<noteq> None" for w
      using that st by (auto simp: s' s2 split: if_splits)
  qed (use hold_setD(2,4) [OF hold] d(6) in \<open>simp_all add: s' s2 same_lists_def s1 pool_if_def\<close>)
  with m show ?thesis by blast
qed

lemma delegation_execute_request_ok:
  assumes laws: "staking_laws T" "limits_ok T" and ok: "staking_ok T D s"
    and run: "delegation_execute_scheduled_request T a who s = (Inr u, s')"
  shows "\<exists>D'. staking_ok T D' s'"
proof -
  obtain st i where st: "DelegatorState s who = Some st"
    and i: "position (\<lambda>req. sr_delegator req = who) (DelegationScheduledRequests s a) = Some i"
    using run unfolding delegation_execute_scheduled_request_def
    by (elim prog_elims) (auto simp: delegator_of_def prog_simps)
  show ?thesis
    by (cases "sr_action (DelegationScheduledRequests s a ! i)")
       (use execute_revoke_ok [OF laws ok run st i] execute_decrease_ok [OF laws ok run st i] in blast)+
qed

end
