(* ===== verification/Staking_Leave_Props.thy ===== *)
theory Staking_Leave_Props
  imports Staking_Request_Props
begin

text \<open>
  Leaving in the pallet \<^verbatim>\<open>parachain-staking\<close>: a delegator that leaves drops its row of the table of
  delegations, a candidate that leaves drops its column. Both are loops that update one side of the table,
  delegation by delegation, before the other.
\<close>

section \<open>A delegator leaves\<close>

definition drop_row :: "account \<Rightarrow> account set \<Rightarrow> table \<Rightarrow> table" where
  "drop_row who A D = D(who := (D who) |` (- A))"

lemma drop_row_step: "drop_row who A (drop_bond who a D) = drop_row who (insert a A) D"
  by (auto simp: drop_row_def drop_bond_def restrict_map_def fun_eq_iff)

text \<open>The candidates' side of the table, with what the loop leaves alone.\<close>

definition candidates_side ::
    "('l, 'c) staking_config_scheme \<Rightarrow> table \<Rightarrow> ('l, 'z) staking_state_scheme \<Rightarrow> ('l, 'z) staking_state_scheme \<Rightarrow> bool" where
  "candidates_side T E s s' \<longleftrightarrow> candidates_ok T E s' \<and> pool_ok s' \<and> ext s' = ext s \<and>
     DelegatorState s' = DelegatorState s \<and> DelegationScheduledRequests s' = DelegationScheduledRequests s \<and>
     (\<forall>w. CandidateInfo s' w = None \<longleftrightarrow> CandidateInfo s w = None)"

lemma candidates_side_trans:
  "candidates_side T E s s' \<Longrightarrow> candidates_side T E' s' s'' \<Longrightarrow> candidates_side T E' s s''"
  by (simp add: candidates_side_def)

lemma leave_step:
  assumes lim: "limits_ok T" and ok: "candidates_ok T E s" "pool_ok s" and n: "E who a = Some n"
  shows "\<exists>s'. log_error (delegator_leaves_candidate T a who n) s = (Inr (), s') \<and>
    candidates_side T (drop_bond who a E) s s'"
proof -
  obtain c where a: "CandidateInfo s a = Some c" using candidates_okD(5) [OF ok(1) n] by blast
  obtain tl bl where tb: "has_lists a tl bl s" "candidate_ok T c tl bl" "bonds_by tl bl = (\<lambda>d. E d a)"
    using candidates_okD(3) [OF ok(1) a] by blast
  have "bonds_by tl bl who = Some n" using n tb(3) by simp
  from delegator_leaves_candidate_ok [OF lim a tb(2,1) this] obtain c' s1 t e
    where res: "candidate_result T a c ((bonds_by tl bl)(who := None)) c' s s1"
    and run: "delegator_leaves_candidate T a who n s =
      (Inr (), s1\<lparr>Total := t, CandidateInfo := (CandidateInfo s1)(a \<mapsto> c'), staking_events := e\<rparr>)" by blast
  obtain t' b' where c': "same_candidate c c'" "candidate_ok T c' t' b'" "bonds_by t' b' = (\<lambda>d. drop_bond who a E d a)"
    and s1: "s1 = store_lists a t' b' (pool_after a c c' (CandidatePool s)) s"
    using res by (auto simp: candidate_result_def drop_bond_column tb(3))
  let ?s = "s1\<lparr>Total := t, CandidateInfo := (CandidateInfo s1)(a \<mapsto> c'), staking_events := e\<rparr>"
  have "hold_of T StakingCollator a (ext s) = ci_bond c'"
    using candidates_okD(2) [OF ok(1) a] c'(1) by (simp add: same_candidate_def)
  then have "candidates_ok T (drop_bond who a E) ?s"
    by (intro candidates_ok_upd [where a = a and D' = "drop_bond who a E", OF ok(1) _ _ _ _ _ _ _ c'(2,3)]) (simp_all add: s1 has_lists_def)
  moreover have "pool_ok ?s" by (rule pool_ok_upd [OF ok(2) a _ _ c'(1)]) (simp_all add: s1)
  moreover have "log_error (delegator_leaves_candidate T a who n) s = (Inr (), ?s)"
    by (simp add: log_error_def attempt_def run prog_defs)
  ultimately show ?thesis using a by (auto simp: candidates_side_def s1)
qed

lemma candidates_ok_irrelevant:
  "candidates_ok T E (s\<lparr>AutoCompoundingDelegations := cs\<rparr>) = candidates_ok T E s"
  "pool_ok (s\<lparr>AutoCompoundingDelegations := cs\<rparr>) = pool_ok s"
  by (simp_all add: candidates_ok_def has_lists_def pool_ok_def cong: option.case_cong)

definition leave_one :: "('l, 'c) staking_config_scheme \<Rightarrow> account \<Rightarrow> bond \<Rightarrow> ('l, 'z, unit) sprog" where
  "leave_one T who b = seq (log_error (delegator_leaves_candidate T (bd_owner b) who (bd_amount b)))
     (remove_auto_compound (bd_owner b) who)"

lemma leave_loop_ok:
  assumes lim: "limits_ok T" and ok: "candidates_ok T E s" "pool_ok s"
    and bs: "distinct (map (bd_owner \<circ> fst) vs)" "\<And>v. v \<in> set vs \<Longrightarrow> E who (bd_owner (fst v)) = Some (bd_amount (fst v))"
    and run: "for_each vs (\<lambda>v. leave_one T who (fst v)) s = (Inr u, s')"
  shows "candidates_side T (drop_row who (bd_owner ` fst ` set vs) E) s s'"
  using ok bs run
proof (induction vs arbitrary: E s)
  case Nil
  then show ?case by (simp add: prog_simps candidates_side_def drop_row_def restrict_map_def)
next
  case (Cons v vs)
  obtain b q where v: "v = (b, q)" by (cases v)
  let ?a = "bd_owner b"
  have n: "E who ?a = Some (bd_amount b)" using Cons.prems(4) [of v] by (simp add: v)
  obtain s1 where s1: "log_error (delegator_leaves_candidate T ?a who (bd_amount b)) s = (Inr (), s1)"
    "candidates_side T (drop_bond who ?a E) s s1"
    using leave_step [OF lim Cons.prems(1,2) n] by blast
  obtain s2 where s2: "remove_auto_compound ?a who s1 = (Inr (), s2)"
    and rest: "for_each vs (\<lambda>v. leave_one T who (fst v)) s2 = (Inr u, s')"
    using Cons.prems(5) s1(1) by (auto simp: v prog_simps leave_one_def)
  obtain cs where "s2 = s1\<lparr>AutoCompoundingDelegations := cs\<rparr>" using remove_auto_compound_run [OF s2] by blast
  then have side: "candidates_side T (drop_bond who ?a E) s s2"
    using s1(2) by (simp add: candidates_side_def candidates_ok_irrelevant)
  have "candidates_side T (drop_row who (bd_owner ` fst ` set vs) (drop_bond who ?a E)) s2 s'"
  proof (rule Cons.IH [OF _ _ _ _ rest])
    fix w assume w: "w \<in> set vs"
    then have "bd_owner (fst w) \<noteq> ?a" using Cons.prems(3) by (force simp: v)
    then show "drop_bond who ?a E who (bd_owner (fst w)) = Some (bd_amount (fst w))"
      using Cons.prems(4) [of w] w by simp
  qed (use side Cons.prems(3) in \<open>simp_all add: candidates_side_def\<close>)
  then show ?case using candidates_side_trans [OF side] by (simp add: drop_row_step v)
qed

lemma validate_revocations_ok:
  assumes "validate_revocations who now R bs = Inr vs"
  shows "map fst vs = bs \<and> (\<forall>(b, reqs, i)\<in>set vs. reqs = R (bd_owner b) \<and> i < length reqs \<and> sr_delegator (reqs ! i) = who)"
  using assms
proof (induction bs arbitrary: vs)
  case (Cons b bs)
  then show ?case
    using position_Some [of "\<lambda>req. sr_delegator req = who \<and> is_revoke (sr_action req)" "R (bd_owner b)"]
    by (auto split: option.splits if_splits sum.splits)
qed simp

text \<open>After the loop nothing of the delegator is left on either side.\<close>

lemma requests_gone:
  assumes "requests_ok D s" "\<And>d. d \<noteq> who \<Longrightarrow> E d = D d"
    "\<And>a. R a = without_request who (DelegationScheduledRequests s a)" "DelegationScheduledRequests s' = R"
  shows "requests_ok E s'"
  using assms by (auto simp: requests_ok_def without_request_def distinct_map_filter)

lemma request_ok_None: "\<not> request_ok None act"
  by (cases act) (simp_all add: request_ok_def)

lemma no_request: "requests_ok D s \<Longrightarrow> D who a = None \<Longrightarrow>
    without_request who (DelegationScheduledRequests s a) = DelegationScheduledRequests s a"
  using request_ok_None by (fastforce simp: requests_ok_def without_request_def filter_id_conv)

lemma execute_all_run:
  assumes run: "delegator_execute_scheduled_revoke_all T who k s = (Inr u, s')"
    and st: "DelegatorState s who = Some st" "dg_status st = DelegatorActive"
  shows "\<exists>vs s1 s2 s3 e. validate_revocations who (rd_current (Round s)) (DelegationScheduledRequests s) (dg_delegations st) = Inr vs \<and>
    for_each vs (\<lambda>v. leave_one T who (fst v)) s = (Inr (), s1) \<and>
    adjust_bond_lock T DecreaseBond (st\<lparr>dg_total := 0\<rparr>) s1 = (Inr (), s2) \<and>
    put_all_requests (map (\<lambda>(b, reqs, i). (bd_owner b, remove_at i reqs)) vs) s2 = (Inr (), s3) \<and>
    s' = s3\<lparr>staking_events := e, DelegatorState := (DelegatorState s3)(who := None)\<rparr>"
  using run unfolding delegator_execute_scheduled_revoke_all_def
  apply (elim prog_elims)
  apply (clarsimp simp: delegator_of_def prog_simps st total_sub_def Let_def put_delegator_def deposit_staking_event_def
      leave_one_def case_prod_unfold)
  apply (rule exI, rule refl)
  done

lemma execute_revoke_all_ok:
  assumes laws: "staking_laws T" "limits_ok T" and ok: "staking_ok T D s"
    and run: "delegator_execute_scheduled_revoke_all T who k s = (Inr u, s')"
  shows "staking_ok T (D(who := Map.empty)) s'"
proof -
  note d = staking_okD [OF ok]
  obtain st where st: "DelegatorState s who = Some st"
    using run unfolding delegator_execute_scheduled_revoke_all_def
    by (elim prog_elims) (auto simp: delegator_of_def prog_simps)
  note dok = delegators_okD(3) [OF d(1) st]
  have act: "dg_status st = DelegatorActive" and id: "dg_id st = who"
    and dist: "distinct (map bd_owner (dg_delegations st))" and row: "amount_of (dg_delegations st) = D who"
    using dok ordered_distinct by (auto simp: delegator_ok_def)
  obtain vs s1 s2 s3 e where vs: "validate_revocations who (rd_current (Round s)) (DelegationScheduledRequests s) (dg_delegations st) = Inr vs"
    and loop: "for_each vs (\<lambda>v. leave_one T who (fst v)) s = (Inr (), s1)"
    and lock: "adjust_bond_lock T DecreaseBond (st\<lparr>dg_total := 0\<rparr>) s1 = (Inr (), s2)"
    and put: "put_all_requests (map (\<lambda>(b, reqs, i). (bd_owner b, remove_at i reqs)) vs) s2 = (Inr (), s3)"
    and s': "s' = s3\<lparr>staking_events := e, DelegatorState := (DelegatorState s3)(who := None)\<rparr>"
    using execute_all_run [OF run st act] by blast
  have v: "map fst vs = dg_delegations st"
    "\<And>b reqs i. (b, reqs, i) \<in> set vs \<Longrightarrow> reqs = DelegationScheduledRequests s (bd_owner b) \<and> i < length reqs \<and> sr_delegator (reqs ! i) = who"
    using validate_revocations_ok [OF vs] by auto
  have owners: "bd_owner ` fst ` set vs = dom (D who)"
    unfolding row [symmetric] set_map [symmetric] v(1) by (auto simp: dom_def amount_of_None)
  have "candidates_side T (drop_row who (bd_owner ` fst ` set vs) D) s s1"
  proof (rule leave_loop_ok [OF laws(2) d(2,3) _ _ loop])
    show "distinct (map (bd_owner \<circ> fst) vs)" using dist v(1) by (simp flip: map_map)
    show "D who (bd_owner (fst w)) = Some (bd_amount (fst w))" if "w \<in> set vs" for w
      by (rule row_bonds [OF dok]) (use that in \<open>simp flip: v(1)\<close>)
  qed
  moreover have "drop_row who (dom (D who)) D = D(who := Map.empty)"
    by (auto simp: drop_row_def restrict_map_def fun_eq_iff)
  ultimately have side: "candidates_side T (D(who := Map.empty)) s s1" by (simp add: owners)
  obtain l where s2: "s2 = s1\<lparr>ext := l\<rparr>" and hold: "hold_set T StakingDelegator who 0 (ext s) l"
    using adjust_bond_lock_ok [OF laws(1) lock] id side by (auto simp: candidates_side_def)
  obtain R where s3: "s3 = s2\<lparr>DelegationScheduledRequests := R\<rparr>"
    and R: "\<And>a. R a = DelegationScheduledRequests s2 a \<and> a \<notin> fst ` set (map (\<lambda>(b, reqs, i). (bd_owner b, remove_at i reqs)) vs) \<or>
      (a, R a) \<in> set (map (\<lambda>(b, reqs, i). (bd_owner b, remove_at i reqs)) vs)"
    using put_all_requests_run [OF put] by blast
  have R': "R a = without_request who (DelegationScheduledRequests s a)" for a
    using R [of a]
  proof (elim disjE conjE)
    assume "R a = DelegationScheduledRequests s2 a" "a \<notin> fst ` set (map (\<lambda>(b, reqs, i). (bd_owner b, remove_at i reqs)) vs)"
    then have "a \<notin> dom (D who)" unfolding owners [symmetric] by (force simp: image_iff)
    then show ?thesis using no_request [OF d(5), of who a] side \<open>R a = _\<close> by (simp add: s2 candidates_side_def domIff)
  next
    assume "(a, R a) \<in> set (map (\<lambda>(b, reqs, i). (bd_owner b, remove_at i reqs)) vs)"
    then obtain b reqs i where m: "(b, reqs, i) \<in> set vs" "a = bd_owner b" "R a = remove_at i reqs" by auto
    with v(2) [OF m(1)] d(5) show ?thesis by (auto simp: requests_ok_def intro!: remove_request_at)
  qed
  have side2: "candidates_ok T (D(who := Map.empty)) s1" "pool_ok s1" "DelegatorState s1 = DelegatorState s"
    "ext s1 = ext s" "\<And>w. CandidateInfo s1 w = None \<longleftrightarrow> CandidateInfo s w = None"
    using side by (simp_all add: candidates_side_def)
  have "delegators_ok T (D(who := Map.empty)) s'"
    by (rule delegators_ok_upd [OF d(1), where d = who and x = None])
       (simp_all add: s' s3 s2 side2 hold_setD(1,3) [OF hold])
  moreover have "candidates_ok T (D(who := Map.empty)) s'"
    by (rule candidates_ok_cong [OF side2(1)]) (simp_all add: s' s3 s2 side2 hold_setD(2) [OF hold])
  moreover have "pool_ok s'" using side2(2) by (simp add: pool_ok_def s' s3 s2)
  moreover have "roles_ok s'"
    using d(4) side2(5) by (auto simp: roles_ok_def is_candidate_def is_delegator_def s' s3 s2 side2(3))
  moreover have "requests_ok (D(who := Map.empty)) s'"
    by (rule requests_gone [OF d(5) _ R']) (simp_all add: s' s3)
  moreover have "ledger_bounded T (ext s')" using hold_setD(4) [OF hold d(6)] by (simp add: s' s3 s2)
  ultimately show ?thesis by (simp add: staking_ok_def)
qed

section \<open>A candidate leaves\<close>

lemma sum_of_zero: "sum_of xs = 0 \<longleftrightarrow> (\<forall>b\<in>set xs. bd_amount b = 0)"
  by (induction xs) (auto simp: sum_of_def)

lemma nothing_left:
  assumes "delegator_ok d m st" "m a = Some n"
  shows "dg_total st - n = 0 \<longleftrightarrow> without_owner a (dg_delegations st) = []"
proof -
  have o: "owners_ordered (dg_delegations st)" "amount_of (dg_delegations st) a = Some n"
    "dg_total st = sum_of (dg_delegations st)" using assms by (auto simp: delegator_ok_def)
  have "0 < bd_amount b" if "b \<in> set (without_owner a (dg_delegations st))" for b
    using row_bonds [OF assms(1), of b] that assms(1) by (auto simp: without_owner_def delegator_ok_def ran_def)
  then have "sum_of (without_owner a (dg_delegations st)) = 0 \<longleftrightarrow> without_owner a (dg_delegations st) = []"
    unfolding sum_of_zero by (cases "without_owner a (dg_delegations st)") auto
  with without_owner_row(3) [OF o(1,2)] o(3) show ?thesis by simp
qed

lemma release_all_ok:
  assumes "staking_laws T" "release_all T r who s = (Inr u, s')"
  shows "\<exists>l. s' = s\<lparr>ext := l\<rparr> \<and> hold_set T r who 0 (ext s) l"
proof -
  have "st_release T r who (hold_of T r who (ext s)) s = (Inr u, s')"
    using assms(2) by (auto simp: release_all_def prog_simps balance_on_hold_eq)
  from st_release_ok [OF assms(1) this] show ?thesis by simp
qed

lemma hold_set_trans: "hold_set T r w m l l1 \<Longrightarrow> hold_set T r w n l1 l2 \<Longrightarrow> hold_set T r w n l l2"
  by (auto simp: hold_set_def)

text \<open>The last writes of \<^verbatim>\<open>return_stake\<close>.\<close>

lemma return_stake_end:
  assumes "staking_laws T" "hold_of T StakingDelegator who (ext s) = n" "gone \<Longrightarrow> n = 0"
    "(if gone then seq (put_delegator who None) (release_all T StakingDelegator who) else put_delegator who (Some st)) s = (Inr u, s')"
  shows "\<exists>l. s' = s\<lparr>DelegatorState := (DelegatorState s)(who := unless_gone gone st), ext := l\<rparr> \<and>
    hold_set T StakingDelegator who n (ext s) l"
proof (cases gone)
  case True
  then have "release_all T StakingDelegator who (s\<lparr>DelegatorState := (DelegatorState s)(who := None)\<rparr>) = (Inr u, s')"
    using assms(4) by (auto simp: put_delegator_def prog_simps)
  from release_all_ok [OF assms(1) this] True assms(3) show ?thesis by (auto simp: unless_gone_def)
next
  case False
  with assms(2,4) show ?thesis
    by (auto simp: put_delegator_def prog_simps unless_gone_def intro!: exI [of _ "ext s"] hold_set_same)
qed

lemma return_stake_ok:
  assumes laws: "staking_laws T" and ok: "delegators_ok T E s" "requests_ok E s"
    and n: "E (bd_owner b) a = Some n" and run: "return_stake T a b s = (Inr u, s')"
  shows "bond_dropped T E (bd_owner b) a s s'"
proof -
  let ?d = "bd_owner b"
  obtain st where st: "DelegatorState s ?d = Some st" using delegators_okD(5) [OF ok(1) n] by blast
  have dok: "delegator_ok ?d (E ?d) st" by (rule delegators_okD(3) [OF ok(1) st])
  obtain st1 rem s1 where rm: "delegator_rm_delegation T a st s = (Inr (st1, rem), s1)"
    and rest: "(case rem of
       Some remaining \<Rightarrow>
         sbind (delegation_remove_request_with_state a ?d st1) (\<lambda>delegator.
         seq (remove_auto_compound a ?d)
         (if remaining = 0
          then seq (put_delegator ?d None) (release_all T StakingDelegator ?d)
          else put_delegator ?d (Some delegator)))
     | None \<Rightarrow> release_all T StakingDelegator ?d) s1 = (Inr u, s')"
    using run by (auto simp: return_stake_def prog_simps st)
  let ?rem = "dg_total st - n"
  obtain l where s1: "s1 = s\<lparr>ext := l\<rparr>" "hold_set T StakingDelegator ?d ?rem (ext s) l" "rem = Some ?rem"
    "st1 = st\<lparr>dg_delegations := without_owner a (dg_delegations st), dg_total := ?rem\<rparr>"
    using delegator_rm_delegation_ok [OF laws dok n rm] by blast
  obtain st2 s2 s3 where rq: "delegation_remove_request_with_state a ?d st1 s1 = (Inr st2, s2)"
    and ac: "remove_auto_compound a ?d s2 = (Inr (), s3)"
    and fin: "(if ?rem = 0 then seq (put_delegator ?d None) (release_all T StakingDelegator ?d)
      else put_delegator ?d (Some st2)) s3 = (Inr u, s')"
    using rest unfolding s1(3) option.case by (elim prog_elims) blast
  have "distinct (map sr_delegator (DelegationScheduledRequests s1 a))"
    using ok(2) by (simp add: requests_ok_def s1(1))
  from delegation_remove_request_run [OF this rq] obtain k where s2: "st2 = st1\<lparr>dg_less_total := k\<rparr>"
    "s2 = s1\<lparr>DelegationScheduledRequests := (DelegationScheduledRequests s1)
      (a := without_request ?d (DelegationScheduledRequests s1 a))\<rparr>" by blast
  obtain cs where s3: "s3 = s2\<lparr>AutoCompoundingDelegations := cs\<rparr>" using remove_auto_compound_run [OF ac] by blast
  have "hold_of T StakingDelegator ?d (ext s3) = ?rem"
    using hold_setD(1) [OF s1(2)] by (simp add: s3 s2 s1)
  from return_stake_end [OF laws this _ fin] obtain l2
    where s': "s' = s3\<lparr>DelegatorState := (DelegatorState s3)(?d := unless_gone (?rem = 0) st2), ext := l2\<rparr>"
    and "hold_set T StakingDelegator ?d ?rem (ext s3) l2" by auto
  then have "hold_set T StakingDelegator ?d ?rem (ext s) (ext s')"
    using hold_set_trans [OF s1(2)] by (simp add: s3 s2 s1)
  then show ?thesis
    by (rule bond_droppedI [where k = k, OF ok(1) st n])
       (simp_all add: s' s3 s2 s1 same_lists_def nothing_left [OF dok n, simplified] unless_gone_def)
qed

lemma return_stakes_lists: "keeps (same_lists s) (for_each bs (return_stake T a))"
  unfolding return_stake_def release_all_def delegator_rm_delegation_def total_sub_def adjust_bond_lock_def
    delegation_remove_request_with_state_def remove_auto_compound_def st_release_def st_hold_def Let_def
  by (intro keeps_rules)

definition drop_column :: "account \<Rightarrow> account set \<Rightarrow> table \<Rightarrow> table" where
  "drop_column a A D = (\<lambda>d. if d \<in> A then (D d)(a := None) else D d)"

lemma drop_column_step: "drop_column a A (drop_bond d a D) = drop_column a (insert d A) D"
  by (auto simp: drop_column_def drop_bond_def fun_eq_iff)

text \<open>The delegators' side of the table, with what the loop leaves alone.\<close>

definition delegators_side ::
    "('l, 'c) staking_config_scheme \<Rightarrow> table \<Rightarrow> ('l, 'z) staking_state_scheme \<Rightarrow> ('l, 'z) staking_state_scheme \<Rightarrow> bool" where
  "delegators_side T E s s' \<longleftrightarrow> delegators_ok T E s' \<and> requests_ok E s' \<and> same_lists s s' \<and>
     (\<forall>w. hold_of T StakingCollator w (ext s') = hold_of T StakingCollator w (ext s)) \<and>
     (ledger_bounded T (ext s) \<longrightarrow> ledger_bounded T (ext s')) \<and>
     (\<forall>w. DelegatorState s' w \<noteq> None \<longrightarrow> DelegatorState s w \<noteq> None)"

lemma delegators_side_trans:
  "delegators_side T E s s' \<Longrightarrow> delegators_side T E' s' s'' \<Longrightarrow> delegators_side T E' s s''"
  by (auto simp: delegators_side_def same_lists_def)

lemma bond_dropped_side:
  assumes "requests_ok E s" "bond_dropped T E d a s s'"
  shows "delegators_side T (drop_bond d a E) s s'"
proof -
  have reqs: "DelegationScheduledRequests s' = (DelegationScheduledRequests s)(a := without_request d (DelegationScheduledRequests s a))"
    using assms(2) by (simp add: bond_dropped_def)
  have "requests_ok (drop_bond d a E) s'"
    by (rule without_request_ok [OF assms(1) _ reqs, where x = None]) (simp add: drop_bond_def)
  with assms(2) show ?thesis by (simp add: delegators_side_def bond_dropped_def drop_bond_def)
qed

lemma return_stakes_ok:
  assumes laws: "staking_laws T" and ok: "delegators_ok T E s" "requests_ok E s"
    and bs: "distinct (map bd_owner bs)" "\<And>b. b \<in> set bs \<Longrightarrow> E (bd_owner b) a \<noteq> None"
    and run: "for_each bs (return_stake T a) s = (Inr u, s')"
  shows "delegators_side T (drop_column a (bd_owner ` set bs) E) s s'"
  using ok bs run
proof (induction bs arbitrary: E s)
  case Nil
  then show ?case by (simp add: prog_simps delegators_side_def drop_column_def same_lists_def)
next
  case (Cons b bs)
  obtain n where n: "E (bd_owner b) a = Some n" using Cons.prems(4) [of b] by auto
  obtain s1 where s1: "return_stake T a b s = (Inr (), s1)" and rest: "for_each bs (return_stake T a) s1 = (Inr u, s')"
    using Cons.prems(5) by (auto simp: prog_simps)
  have side: "delegators_side T (drop_bond (bd_owner b) a E) s s1"
    by (rule bond_dropped_side [OF Cons.prems(2) return_stake_ok [OF laws Cons.prems(1,2) n s1]])
  have "delegators_side T (drop_column a (bd_owner ` set bs) (drop_bond (bd_owner b) a E)) s1 s'"
  proof (rule Cons.IH [OF _ _ _ _ rest])
    fix x assume x: "x \<in> set bs"
    then have "bd_owner x \<noteq> bd_owner b" using Cons.prems(3) by (metis distinct.simps(2) imageI list.set_map list.simps(9))
    then show "drop_bond (bd_owner b) a E (bd_owner x) a \<noteq> None" using Cons.prems(4) [of x] x by simp
  qed (use side Cons.prems(3) in \<open>simp_all add: delegators_side_def\<close>)
  then show ?case using delegators_side_trans [OF side] by (simp add: drop_column_step)
qed

lemma execute_leave_run:
  assumes "execute_leave_candidates T orig a k s = (Inr u, s')"
  shows "\<exists>c t b s1 s2 s3 tot e. CandidateInfo s a = Some c \<and> \<not> candidate_is_active c \<and> TopDelegations s a = Some t \<and>
    for_each (dl_delegations t) (return_stake T a) (s\<lparr>TopDelegations := (TopDelegations s)(a := None)\<rparr>) = (Inr (), s1) \<and>
    BottomDelegations s1 a = Some b \<and>
    for_each (dl_delegations b) (return_stake T a) (s1\<lparr>BottomDelegations := (BottomDelegations s1)(a := None)\<rparr>) = (Inr (), s2) \<and>
    release_all T StakingCollator a s2 = (Inr (), s3) \<and>
    s' = s3\<lparr>CandidateInfo := (CandidateInfo s3)(a := None),
      DelegationScheduledRequests := (DelegationScheduledRequests s3)(a := []),
      AutoCompoundingDelegations := (AutoCompoundingDelegations s3)(a := []),
      TopDelegations := (TopDelegations s3)(a := None), BottomDelegations := (BottomDelegations s3)(a := None),
      Total := tot, staking_events := e\<rparr>"
  using assms unfolding execute_leave_candidates_def
  apply (elim prog_elims)
  apply (clarsimp simp: candidate_of_def top_of_def bottom_of_def put_top_def put_bottom_def put_total_def prog_simps Let_def
      can_leave_def candidate_is_active_def put_requests_def put_auto_compound_def deposit_staking_event_def
      split: collator_status.splits)
  apply (rule exI, rule exI, rule refl)
  done

lemma delegators_irrelevant:
  "delegators_ok T E (s\<lparr>TopDelegations := t\<rparr>) = delegators_ok T E s" "requests_ok E (s\<lparr>TopDelegations := t\<rparr>) = requests_ok E s"
  "delegators_ok T E (s\<lparr>BottomDelegations := b\<rparr>) = delegators_ok T E s" "requests_ok E (s\<lparr>BottomDelegations := b\<rparr>) = requests_ok E s"
  by (simp_all add: delegators_ok_def requests_ok_def cong: option.case_cong)

text \<open>Both sides have dropped the column of \<open>a\<close>.\<close>

lemma column_dropped_ok:
  assumes ok: "staking_ok T D s" and a: "CandidateInfo s a = Some c" "\<not> candidate_is_active c"
    and s': "CandidateInfo s' = (CandidateInfo s)(a := None)" "CandidatePool s' = CandidatePool s"
      "\<And>w. w \<noteq> a \<Longrightarrow> TopDelegations s' w = TopDelegations s w"
      "\<And>w. w \<noteq> a \<Longrightarrow> BottomDelegations s' w = BottomDelegations s w"
    and hold: "\<And>w. hold_of T StakingCollator w (ext s') = (if w = a then 0 else hold_of T StakingCollator w (ext s))"
    and del: "delegators_ok T (\<lambda>d. (D d)(a := None)) s'" and req: "requests_ok (\<lambda>d. (D d)(a := None)) s'"
    and bnd: "ledger_bounded T (ext s')"
    and roles: "\<And>w. DelegatorState s' w \<noteq> None \<Longrightarrow> DelegatorState s w \<noteq> None"
  shows "staking_ok T (\<lambda>d. (D d)(a := None)) s'"
proof -
  note d = staking_okD [OF ok]
  have "candidates_ok T (\<lambda>d. (D d)(a := None)) s'"
    unfolding candidates_ok_def
  proof
    fix w
    show "case CandidateInfo s' w of
        None \<Rightarrow> (\<forall>d. ((D d)(a := None)) w = None) \<and> hold_of T StakingCollator w (ext s') = 0
      | Some c \<Rightarrow> hold_of T StakingCollator w (ext s') = ci_bond c \<and>
          (\<exists>t b. has_lists w t b s' \<and> candidate_ok T c t b \<and> bonds_by t b = (\<lambda>d. ((D d)(a := None)) w))"
    proof (cases "w = a")
      case False
      with d(2) [unfolded candidates_ok_def, rule_format, of w] s' hold show ?thesis
        by (simp add: has_lists_def cong: option.case_cong)
    qed (simp add: s'(1) hold)
  qed
  moreover have "pool_ok s'" using d(3) a by (auto simp: pool_ok_def s' stake_if_active_def fun_eq_iff)
  moreover have "roles_ok s'"
    unfolding roles_ok_def is_candidate_def is_delegator_def
  proof (intro allI notI, elim conjE)
    fix w assume "CandidateInfo s' w \<noteq> None" "DelegatorState s' w \<noteq> None"
    then show False using d(4) [unfolded roles_ok_def, rule_format, of w] roles [of w]
      by (auto simp: is_candidate_def is_delegator_def s'(1) split: if_splits)
  qed
  ultimately show ?thesis using del req bnd by (simp add: staking_ok_def)
qed

text \<open>Both loops return the stakes of the whole column.\<close>

lemma return_all_stakes_ok:
  assumes laws: "staking_laws T" and del: "delegators_ok T D s" "requests_ok D s"
    and tb: "candidate_ok T c t b" "bonds_by t b = (\<lambda>d. D d a)" "BottomDelegations s a = Some b"
    and l1: "for_each (dl_delegations t) (return_stake T a) (s\<lparr>TopDelegations := (TopDelegations s)(a := None)\<rparr>) = (Inr (), s1)"
    and l2: "for_each (dl_delegations b) (return_stake T a) (s1\<lparr>BottomDelegations := (BottomDelegations s1)(a := None)\<rparr>) = (Inr (), s2)"
  shows "delegators_side T (\<lambda>d. (D d)(a := None))
    (s\<lparr>TopDelegations := (TopDelegations s)(a := None), BottomDelegations := (BottomDelegations s)(a := None)\<rparr>) s2"
proof -
  note dist = candidate_okD(2) [OF tb(1)]
  have bonds: "D (bd_owner x) a \<noteq> None" if "x \<in> set (dl_delegations t @ dl_delegations b)" for x
  proof -
    have "bd_owner x \<in> bd_owner ` set (dl_delegations t @ dl_delegations b)" using that by (rule imageI)
    then have "bonds_by t b (bd_owner x) \<noteq> None" by (simp only: amount_of_None not_not)
    then show ?thesis by (simp add: tb(2))
  qed
  let ?E1 = "drop_column a (bd_owner ` set (dl_delegations t)) D"
  have side1: "delegators_side T ?E1 (s\<lparr>TopDelegations := (TopDelegations s)(a := None)\<rparr>) s1"
    by (rule return_stakes_ok [OF laws _ _ _ _ l1]) (use del dist bonds in \<open>simp_all add: delegators_irrelevant\<close>)
  let ?E2 = "drop_column a (bd_owner ` set (dl_delegations b)) ?E1"
  have side2: "delegators_side T ?E2 (s1\<lparr>BottomDelegations := (BottomDelegations s1)(a := None)\<rparr>) s2"
  proof (rule return_stakes_ok [OF laws _ _ _ _ l2])
    fix x assume x: "x \<in> set (dl_delegations b)"
    then have "bd_owner x \<notin> bd_owner ` set (dl_delegations t)" using dist by (auto dest: imageI)
    then show "?E1 (bd_owner x) a \<noteq> None" using bonds [of x] x by (simp add: drop_column_def)
  qed (use side1 dist in \<open>simp_all add: delegators_side_def delegators_irrelevant\<close>)
  have E2: "?E2 x = (D x)(a := None)" for x
  proof (cases "D x a")
    case (Some n)
    then have "bonds_by t b x \<noteq> None" using fun_cong [OF tb(2), of x] by simp
    then have "x \<in> bd_owner ` set (dl_delegations t @ dl_delegations b)" by (simp only: amount_of_None not_not)
    then show ?thesis by (auto simp: drop_column_def)
  qed (auto simp: drop_column_def)
  have "?E2 = (\<lambda>d. (D d)(a := None))" by (rule HOL.ext) (rule E2)
  with side1 side2 show ?thesis by (simp add: delegators_side_def same_lists_def)
qed

lemma execute_leave_candidates_ok:
  assumes laws: "staking_laws T" and ok: "staking_ok T D s"
    and run: "execute_leave_candidates T orig a k s = (Inr u, s')"
  shows "staking_ok T (\<lambda>d. (D d)(a := None)) s'"
proof -
  note d = staking_okD [OF ok]
  obtain c t b s1 s2 s3 tot e where a: "CandidateInfo s a = Some c" "\<not> candidate_is_active c"
    and t: "TopDelegations s a = Some t"
    and l1: "for_each (dl_delegations t) (return_stake T a) (s\<lparr>TopDelegations := (TopDelegations s)(a := None)\<rparr>) = (Inr (), s1)"
    and b1: "BottomDelegations s1 a = Some b"
    and l2: "for_each (dl_delegations b) (return_stake T a) (s1\<lparr>BottomDelegations := (BottomDelegations s1)(a := None)\<rparr>) = (Inr (), s2)"
    and rel: "release_all T StakingCollator a s2 = (Inr (), s3)"
    and s': "s' = s3\<lparr>CandidateInfo := (CandidateInfo s3)(a := None),
      DelegationScheduledRequests := (DelegationScheduledRequests s3)(a := []),
      AutoCompoundingDelegations := (AutoCompoundingDelegations s3)(a := []),
      TopDelegations := (TopDelegations s3)(a := None), BottomDelegations := (BottomDelegations s3)(a := None),
      Total := tot, staking_events := e\<rparr>"
    using execute_leave_run [OF run] by blast
  obtain b0 where tb: "BottomDelegations s a = Some b0" "candidate_ok T c t b0" "bonds_by t b0 = (\<lambda>d. D d a)"
    using candidates_okD(3) [OF d(2) a(1)] t by (auto simp: has_lists_def)
  have "BottomDelegations s1 = BottomDelegations s"
    using keepsD [OF return_stakes_lists _ l1, of "s\<lparr>TopDelegations := (TopDelegations s)(a := None)\<rparr>"] by (simp add: same_lists_def)
  then have b: "b = b0" using b1 tb(1) by simp
  note side = return_all_stakes_ok [OF laws d(1,5) tb(2,3,1) l1 l2 [unfolded b], unfolded delegators_side_def same_lists_def]
  obtain l where s3: "s3 = s2\<lparr>ext := l\<rparr>" and hold: "hold_set T StakingCollator a 0 (ext s2) l"
    using release_all_ok [OF laws rel] by blast
  show ?thesis
  proof (rule column_dropped_ok [OF ok a])
    show "delegators_ok T (\<lambda>d. (D d)(a := None)) s'"
      by (rule delegators_ok_cong [OF side [THEN conjunct1]]) (simp_all add: s' s3 hold_setD(2) [OF hold])
    show "requests_ok (\<lambda>d. (D d)(a := None)) s'"
      by (rule requests_ok_sub [OF side [THEN conjunct2, THEN conjunct1], where a = a]) (simp_all add: s' s3)
  qed (use side d(6) hold_setD(1,3,4) [OF hold] in \<open>auto simp: s' s3\<close>)
qed

end
