(* ===== verification/Staking_Refinement.thy ===== *)
theory Staking_Refinement
  imports Staking_Leave_Props
begin

text \<open>
  The pallet \<^verbatim>\<open>parachain-staking\<close> refines a table of delegations. The abstract specification \<open>table_step\<close> says
  what each call does to the table; the refinement says that every call of the pallet that succeeds takes
  a representation of a table to a representation of a table after such a step.
\<close>

section \<open>The abstract specification\<close>

text \<open>
  A new delegation, which may push out one of the candidate's smallest delegations, but only for a larger
  one.
\<close>

definition adds_delegation :: "account \<Rightarrow> account \<Rightarrow> nat \<Rightarrow> table \<Rightarrow> table \<Rightarrow> bool" where
  "adds_delegation who a n D D' \<longleftrightarrow> D who a = None \<and>
     (D' = set_bond who a n D \<or>
      (\<exists>k m. D k a = Some m \<and> m < n \<and> (\<forall>d x. D d a = Some x \<longrightarrow> m \<le> x) \<and> D' = set_bond who a n (drop_bond k a D)))"

fun changes_table :: "staking_call \<Rightarrow> bool" where
  "changes_table (Delegate a n h1 h2) = True"
| "changes_table (DelegateWithAutoCompound a n p h1 h2 h3) = True"
| "changes_table (DelegatorBondMore a n) = True"
| "changes_table (ExecuteDelegationRequest d a) = True"
| "changes_table (ExecuteLeaveDelegators d h) = True"
| "changes_table (ExecuteLeaveCandidates a h) = True"
| "changes_table _ = False"

inductive table_step :: "origin \<Rightarrow> staking_call \<Rightarrow> table \<Rightarrow> table \<Rightarrow> bool" where
  step_delegate: "adds_delegation who a n D D' \<Longrightarrow> table_step (Signed who) (Delegate a n h1 h2) D D'"
| step_delegate_auto:
    "adds_delegation who a n D D' \<Longrightarrow> table_step (Signed who) (DelegateWithAutoCompound a n p h1 h2 h3) D D'"
| step_bond_more: "D who a = Some m \<Longrightarrow> table_step (Signed who) (DelegatorBondMore a n) D (set_bond who a (m + n) D)"
| step_revoke: "D d a = Some m \<Longrightarrow> table_step (Signed who) (ExecuteDelegationRequest d a) D (drop_bond d a D)"
| step_decrease:
    "D d a = Some m \<Longrightarrow> n < m \<Longrightarrow> table_step (Signed who) (ExecuteDelegationRequest d a) D (set_bond d a (m - n) D)"
| step_leave_delegators: "table_step (Signed who) (ExecuteLeaveDelegators d h) D (D(d := Map.empty))"
| step_leave_candidates: "table_step (Signed who) (ExecuteLeaveCandidates a h) D (\<lambda>d. (D d)(a := None))"
| step_other: "\<not> changes_table call \<Longrightarrow> table_step orig call D D"

section \<open>The calls refine it\<close>

lemma lowest_of_all:
  assumes "candidate_ok T c t b" "dl_delegations b \<noteq> []" "x \<in> set (dl_delegations t @ dl_delegations b)"
  shows "bd_amount (last (dl_delegations b)) \<le> bd_amount x"
proof -
  have sorted: "sorted_wrt (\<lambda>a b. bd_amount a \<ge> bd_amount b) (dl_delegations t @ dl_delegations b)"
    using assms(1) by (simp add: candidate_ok_def lists_ok_def amounts_descending_def)
  obtain ys l where b: "dl_delegations b = ys @ [l]" using assms(2) by (metis rev_exhaust)
  with sorted assms(3) show ?thesis by (auto simp: sorted_wrt_append)
qed

lemma delegate_step:
  assumes "staking_laws T" "limits_ok T" "staking_ok T D s"
    "delegate_with_auto_compound T a who n percent h1 h2 h3 s = (Inr u, s')"
  shows "\<exists>D'. adds_delegation who a n D D' \<and> staking_ok T D' s'"
proof -
  obtain t b c where 1: "D who a = None" "candidate_ok T c t b" "bonds_by t b = (\<lambda>d. D d a)"
    "length (dl_delegations b) = MaxBottomDelegationsPerCandidate T \<longrightarrow> bd_amount (last (dl_delegations b)) < n"
    "staking_ok T (set_bond who a n (table_with_room T a b D)) s'"
    using delegate_ok [OF assms] by blast
  have "adds_delegation who a n D (set_bond who a n (table_with_room T a b D))"
  proof (cases "length (dl_delegations b) = MaxBottomDelegationsPerCandidate T")
    case True
    let ?l = "last (dl_delegations b)"
    note mem = amount_of_Some [OF candidate_okD(2) [OF 1(2)]]
    have ne: "dl_delegations b \<noteq> []" using True assms(2) by (auto simp: limits_ok_def)
    then have "?l \<in> set (dl_delegations t @ dl_delegations b)" by simp
    then have "\<lparr>bd_owner = bd_owner ?l, bd_amount = bd_amount ?l\<rparr> \<in> set (dl_delegations t @ dl_delegations b)"
      unfolding bond_mem by blast
    then have "bonds_by t b (bd_owner ?l) = Some (bd_amount ?l)" by (rule mem [THEN iffD2])
    then have "D (bd_owner ?l) a = Some (bd_amount ?l)" using fun_cong [OF 1(3), of "bd_owner ?l"] by simp
    moreover have "bd_amount ?l \<le> x" if "D d a = Some x" for d x
    proof -
      have "bonds_by t b d = Some x" using that fun_cong [OF 1(3), of d] by simp
      then have "\<lparr>bd_owner = d, bd_amount = x\<rparr> \<in> set (dl_delegations t @ dl_delegations b)" by (rule mem [THEN iffD1])
      from lowest_of_all [OF 1(2) ne this] show ?thesis by simp
    qed
    ultimately show ?thesis using 1(1,4) True unfolding adds_delegation_def table_with_room_def by auto
  qed (use 1(1) in \<open>simp add: adds_delegation_def table_with_room_def\<close>)
  with 1(5) show ?thesis by blast
qed

lemma execute_request_step:
  assumes laws: "staking_laws T" "limits_ok T" and ok: "staking_ok T D s"
    and run: "delegation_execute_scheduled_request T a d s = (Inr u, s')"
  shows "\<exists>D'. table_step (Signed who) (ExecuteDelegationRequest d a) D D' \<and> staking_ok T D' s'"
proof -
  obtain st i where st: "DelegatorState s d = Some st"
    and i: "position (\<lambda>req. sr_delegator req = d) (DelegationScheduledRequests s a) = Some i"
    using run unfolding delegation_execute_scheduled_request_def
    by (elim prog_elims) (auto simp: delegator_of_def prog_simps)
  note req = due_request(2) [OF staking_okD(5) [OF ok] i]
  show ?thesis
  proof (cases "sr_action (DelegationScheduledRequests s a ! i)")
    case (Revoke n)
    with req have "D d a = Some n" by (simp add: request_ok_def)
    from step_revoke [of D, OF this] execute_revoke_ok [OF laws ok run st i Revoke] show ?thesis by blast
  next
    case (Decrease n)
    with req obtain m where "D d a = Some m" "n < m" by (auto simp: request_ok_def)
    from step_decrease [of D, OF this] execute_decrease_ok [OF laws ok run st i Decrease] this(1) show ?thesis by fastforce
  qed
qed

lemma set_auto_compound_ok: "keeps (staking_ok T D) (set_auto_compound T a who v h1 h2)"
  unfolding set_auto_compound_def delegator_of_def put_auto_compound_def deposit_staking_event_def
  by (intro keeps_rules; simp)

lemma requests_replaced_ok:
  assumes "staking_ok T D s" "\<And>a. requests_at_ok D a (R a)"
  shows "staking_ok T D (s\<lparr>DelegationScheduledRequests := R\<rparr>)"
proof -
  note d = staking_okD [OF assms(1)]
  have "delegators_ok T D (s\<lparr>DelegationScheduledRequests := R\<rparr>)" by (rule delegators_ok_cong [OF d(1)]) simp_all
  moreover have "candidates_ok T D (s\<lparr>DelegationScheduledRequests := R\<rparr>)" by (rule candidates_ok_cong [OF d(2)]) simp_all
  ultimately show ?thesis using d(3,4,6) assms(2)
    by (simp add: staking_ok_def pool_ok_def roles_ok_def is_candidate_def is_delegator_def requests_ok_at)
qed

lemma hotfix_ok: "keeps (staking_ok T D) (hotfix_remove_delegation_requests_exited_candidates orig as)"
proof -
  have "keeps (staking_ok T D) (put_requests a [])" for a
    unfolding put_requests_def
  proof (rule keeps_modify)
    fix s :: "('a, 'd) staking_state_scheme" assume ok: "staking_ok T D s"
    show "staking_ok T D (s\<lparr>DelegationScheduledRequests := (DelegationScheduledRequests s)(a := [])\<rparr>)"
      using staking_okD(5) [OF ok] by (intro requests_replaced_ok [OF ok]) (simp add: requests_ok_at requests_at_ok_def)
  qed
  then show ?thesis
    unfolding hotfix_remove_delegation_requests_exited_candidates_def
    by (cases orig) (auto simp: ensure_signed_def intro!: keeps_rules)
qed

text \<open>A call that succeeds makes a step of the specification.\<close>

lemma staking_body_step:
  assumes laws: "staking_laws T" "limits_ok T" and ok: "staking_ok T D s"
    and run: "staking_body T orig call s = (Inr u, s')"
  shows "\<exists>D'. table_step orig call D D' \<and> staking_ok T D' s'"
proof (cases call)
  case (Delegate a n h1 h2)
  then obtain who where "orig = Signed who" "delegate_with_auto_compound T a who n 0 h1 0 h2 s = (Inr u, s')"
    using run by (auto simp: delegate_def prog_simps)
  with delegate_step [OF laws ok] step_delegate show ?thesis unfolding Delegate by blast
next
  case (DelegateWithAutoCompound a n p h1 h2 h3)
  then obtain who where "orig = Signed who" "delegate_with_auto_compound T a who n p h1 h2 h3 s = (Inr u, s')"
    using run by (auto simp: delegate_with_auto_compound_call_def prog_simps)
  with delegate_step [OF laws ok] step_delegate_auto show ?thesis unfolding DelegateWithAutoCompound by blast
next
  case (DelegatorBondMore a n)
  then obtain who r s1 e where who: "orig = Signed who" and more: "delegation_bond_more_without_event T who a n s = (Inr r, s1)"
    and s': "s' = s1\<lparr>staking_events := e\<rparr>"
    using run by (auto simp: delegator_bond_more_def prog_simps deposit_staking_event_def)
  obtain m where m: "D who a = Some m" "staking_ok T (set_bond who a (m + n) D) s1"
    using delegation_bond_more_ok [OF laws ok more] by blast
  then have "staking_ok T (set_bond who a (m + n) D) s'" by (simp add: s')
  with step_bond_more [of D, OF m(1)] show ?thesis unfolding DelegatorBondMore who by blast
next
  case (ExecuteDelegationRequest d a)
  then obtain who where "orig = Signed who" "delegation_execute_scheduled_request T a d s = (Inr u, s')"
    using run by (auto simp: execute_delegation_request_def prog_simps)
  with execute_request_step [OF laws ok] show ?thesis unfolding ExecuteDelegationRequest by blast
next
  case (ExecuteLeaveDelegators d h)
  then obtain who where "orig = Signed who" "delegator_execute_scheduled_revoke_all T d h s = (Inr u, s')"
    using run by (auto simp: execute_leave_delegators_def prog_simps)
  with execute_revoke_all_ok [OF laws ok] step_leave_delegators show ?thesis unfolding ExecuteLeaveDelegators by blast
next
  case (ExecuteLeaveCandidates a h)
  then obtain who where "orig = Signed who" using run by (auto simp: execute_leave_candidates_def prog_simps)
  with ExecuteLeaveCandidates run execute_leave_candidates_ok [OF laws(1) ok] step_leave_candidates show ?thesis
    by fastforce
qed (use run in \<open>auto simp: schedule_leave_delegators_def cancel_leave_delegators_def schedule_revoke_delegation_def
    schedule_delegator_bond_less_def cancel_delegation_request_def set_auto_compound_call_def prog_simps
    intro!: exI [of _ D] step_other
    dest: staking_ok_parameters [THEN keepsD, OF ok] join_candidates_ok [OF laws ok] schedule_leave_candidates_ok [OF ok]
      cancel_leave_candidates_ok [OF ok] go_offline_ok [OF ok] go_online_ok [OF ok] candidate_bond_more_ok [OF laws(1) ok]
      schedule_candidate_bond_less_ok [OF ok] execute_candidate_bond_less_ok [OF laws(1) ok]
      cancel_candidate_bond_less_ok [OF ok] delegator_schedule_revoke_all_ok [OF ok]
      delegator_cancel_scheduled_revoke_all_ok [OF ok] delegation_schedule_revoke_ok [OF ok]
      delegation_schedule_bond_decrease_ok [OF ok] delegation_cancel_request_ok [OF ok]
      set_auto_compound_ok [THEN keepsD, OF ok] hotfix_ok [THEN keepsD, OF ok]\<close>)

section \<open>Blocks\<close>

text \<open>
  What the block hook relies on of the currency and of the runtime's callbacks: a transfer and the callbacks
  move no holds and keep the total issuance, and a hold or release that fails changes nothing.
\<close>

definition no_hold_moved :: "('l, 'c) staking_config_scheme \<Rightarrow> 'l \<Rightarrow> 'l \<Rightarrow> bool" where
  "no_hold_moved T l l' \<longleftrightarrow> (\<forall>r w. hold_of T r w l' = hold_of T r w l) \<and> (ledger_bounded T l \<longrightarrow> ledger_bounded T l')"

definition payout_laws :: "('l, 'c) staking_config_scheme \<Rightarrow> bool" where
  "payout_laws T \<longleftrightarrow>
     (\<forall>n l. no_hold_moved T l (on_new_round T n l)) \<and> (\<forall>n a k l. no_hold_moved T l (on_collator_payout T n a k l)) \<and>
     (\<forall>a b n p l. no_hold_moved T l (snd (c_transfer (st_currency T) a b n p l))) \<and>
     (\<forall>r a n l e l'. c_hold (st_currency T) r a n l = (Inl e, l') \<longrightarrow> l' = l) \<and>
     (\<forall>r a n p l e l'. c_release (st_currency T) r a n p l = (Inl e, l') \<longrightarrow> l' = l)"

abbreviation represents_table :: "('l, 'c) staking_config_scheme \<Rightarrow> ('l, 'z) staking_state_scheme \<Rightarrow> bool" where
  "represents_table T s \<equiv> \<exists>D. staking_ok T D s"

lemma no_hold_moved_ok:
  assumes "staking_ok T D s" "no_hold_moved T (ext s) l"
  shows "staking_ok T D (s\<lparr>ext := l\<rparr>)"
proof -
  note d = staking_okD [OF assms(1)] and h = assms(2) [unfolded no_hold_moved_def]
  have "delegators_ok T D (s\<lparr>ext := l\<rparr>)" "candidates_ok T D (s\<lparr>ext := l\<rparr>)"
    using h by (auto intro: delegators_ok_cong [OF d(1)] candidates_ok_cong [OF d(2)])
  then show ?thesis using d(3-6) h
    by (simp add: staking_ok_def pool_ok_def roles_ok_def is_candidate_def is_delegator_def requests_ok_def)
qed

lemma keeps_attempt [keeps_rules]: "keeps P m \<Longrightarrow> keeps P (attempt m)"
  unfolding keeps_def attempt_def by (auto split: prod.splits sum.splits; metis snd_conv)

lemma keeps_list [keeps_rules]:
  "(xs = [] \<Longrightarrow> keeps P m) \<Longrightarrow> (\<And>y ys. xs = y # ys \<Longrightarrow> keeps P (f y ys)) \<Longrightarrow>
   keeps P (case xs of [] \<Rightarrow> m | y # ys \<Rightarrow> f y ys)"
  by (cases xs) auto

lemma keeps_transfer:
  assumes "payout_laws T"
  shows "keeps (represents_table T) (on_ext (c_transfer (st_currency T) a b n p))"
proof (rule keepsI)
  fix s :: "('a, 'c) staking_state_scheme" assume "represents_table T s"
  then obtain D where ok: "staking_ok T D s" by blast
  have "no_hold_moved T (ext s) (snd (c_transfer (st_currency T) a b n p (ext s)))" using assms by (simp add: payout_laws_def)
  from no_hold_moved_ok [OF ok this] show "represents_table T (snd (on_ext (c_transfer (st_currency T) a b n p) s))"
    by (auto simp: on_ext_def split: prod.splits)
qed

lemma keeps_callback:
  assumes "\<And>l. no_hold_moved T l (f l)"
  shows "keeps (represents_table T) (modify (\<lambda>s. s\<lparr>ext := f (ext s)\<rparr>))"
  by (rule keeps_modify, elim exE, rule exI, rule no_hold_moved_ok [OF _ assms])

text \<open>Compounding is not transactional, but it fails before its first write or not at all.\<close>

lemma on_ext_fails: "(\<And>e l'. m (ext s) = (Inl e, l') \<Longrightarrow> l' = ext s) \<Longrightarrow> on_ext m s = (Inl e, s') \<Longrightarrow> s' = s"
  by (auto simp: on_ext_def split: prod.splits)

lemma adjust_bond_lock_fails:
  assumes "payout_laws T" "adjust_bond_lock T adj d s = (Inl e, s')"
  shows "s' = s"
proof -
  have h: "st_hold T r a n s = (Inl e, s') \<Longrightarrow> s' = s" for r a n
    unfolding st_hold_def by (rule on_ext_fails) (use assms(1) in \<open>auto simp: payout_laws_def\<close>)
  have "on_ext (c_release (st_currency T) (StakingReason r) a n Exact) s = (Inl e, s') \<Longrightarrow> s' = s" for r a n
    by (rule on_ext_fails) (use assms(1) in \<open>auto simp: payout_laws_def\<close>)
  then have r: "st_release T r a n s = (Inl e, s') \<Longrightarrow> s' = s" for r a n
    unfolding st_release_def sbind_def by (auto simp: ok_def split: prod.splits sum.splits)
  show ?thesis using assms(2) h r
    by (cases adj) (auto simp: adjust_bond_lock_def prog_eval split: if_splits)
qed

lemma increase_succeeds:
  assumes laws: "staking_laws T" "limits_ok T" and ok: "staking_ok T D s" and st: "DelegatorState s who = Some st"
    and m: "get_bond_amount a st = Some m"
    and lock: "adjust_bond_lock T (Increase n) (st\<lparr>dg_delegations := ds, dg_total := t\<rparr>) s = (Inr (), s1)"
  shows "\<exists>c c' r s2. CandidateInfo s1 a = Some c \<and> candidate_increase_delegation T a who m n c s1 = (Inr (c', r), s2)"
proof -
  note d = staking_okD [OF ok] and dok = delegators_okD(3) [OF staking_okD(1) [OF ok] st]
  have id: "dg_id st = who" and row: "D who a = Some m" using dok m delegator_row [OF dok] by (auto simp: delegator_ok_def)
  obtain c where a: "CandidateInfo s a = Some c" using candidates_okD(5) [OF d(2) row] by blast
  obtain tp bt where tb: "has_lists a tp bt s" "candidate_ok T c tp bt" "bonds_by tp bt = (\<lambda>d. D d a)"
    using candidates_okD(3) [OF d(2) a] by blast
  have "n \<le> reducible_balance T who (ext s)" using adjust_increase_free [OF lock] id by simp
  note bound = candidate_bound [OF d(1,2,6) a tb(2,3) this]
  obtain l where s1: "s1 = s\<lparr>ext := l\<rparr>" using adjust_bond_lock_ok [OF laws(1) lock] by blast
  then have "has_lists a tp bt s1" "bonds_by tp bt who = Some m" "CandidateInfo s1 a = Some c"
    using tb row a by (simp_all add: has_lists_def)
  with candidate_increase_delegation_ok [OF laws(2) tb(2) this(1,2) bound] show ?thesis by blast
qed

lemma delegation_bond_more_fails:
  assumes laws: "staking_laws T" "limits_ok T" "payout_laws T" and ok: "staking_ok T D s"
    and run: "delegation_bond_more_without_event T who a n s = (Inl e, s')"
  shows "s' = s"
proof (cases "delegation_request_revoke_exists a who s \<or> DelegatorState s who = None")
  case True
  then show ?thesis using run
    by (cases "delegation_request_revoke_exists a who s"; cases "DelegatorState s who")
       (auto simp: delegation_bond_more_without_event_def delegator_of_def prog_eval)
next
  case False
  then obtain st where st: "DelegatorState s who = Some st" and inc: "delegator_increase_delegation T a n st s = (Inl e, s')"
    using run by (auto simp: delegation_bond_more_without_event_def delegator_of_def prog_eval)
  have id: "dg_id st = who" using delegators_okD(3) [OF staking_okD(1) [OF ok] st] by (simp add: delegator_ok_def)
  show ?thesis
  proof (cases "get_bond_amount a st")
    case None
    then show ?thesis using inc by (simp add: delegator_increase_delegation_def err_def)
  next
    case (Some m)
    define st' where "st' = st\<lparr>dg_delegations := change_first_bond a (\<lambda>k. saturating_add k n) (dg_delegations st),
      dg_total := saturating_add (dg_total st) n\<rparr>"
    show ?thesis
    proof (cases "adjust_bond_lock T (Increase n) st' s")
      case (Pair r s1)
      show ?thesis
      proof (cases r)
        case (Inl e1)
        then have "s' = s1" using inc Pair
          unfolding delegator_increase_delegation_def Some option.case Let_def st'_def [symmetric] by (simp add: seq_def sbind_def)
        then show ?thesis using adjust_bond_lock_fails [OF laws(3) Pair [unfolded Inl]] by simp
      next
        case (Inr u)
        then have lock: "adjust_bond_lock T (Increase n) st' s = (Inr (), s1)" using Pair by simp
        obtain c c' b s2 where "CandidateInfo s1 a = Some c" "candidate_increase_delegation T a who m n c s1 = (Inr (c', b), s2)"
          using increase_succeeds [OF laws(1,2) ok st Some lock [unfolded st'_def]] by blast
        moreover have "dg_id st' = who" by (simp add: st'_def id)
        ultimately have "\<exists>r t. delegator_increase_delegation T a n st s = (Inr r, t)" using lock
          unfolding delegator_increase_delegation_def Some option.case Let_def st'_def [symmetric]
          by (simp add: staking_access_defs prog_simps if_active_Inr)
        then have False using inc by simp
        then show ?thesis by blast
      qed
    qed
  qed
qed

lemma keeps_bond_more:
  assumes "staking_laws T" "limits_ok T" "payout_laws T"
  shows "keeps (represents_table T) (delegation_bond_more_without_event T who a n)"
proof (rule keepsI)
  fix s :: "('a, 'c) staking_state_scheme" assume "represents_table T s"
  then obtain D where ok: "staking_ok T D s" by blast
  obtain r s' where run: "delegation_bond_more_without_event T who a n s = (r, s')" by fastforce
  show "represents_table T (snd (delegation_bond_more_without_event T who a n s))"
  proof (cases r)
    case (Inl e)
    from delegation_bond_more_fails [OF assms ok run [unfolded Inl]] run ok show ?thesis by auto
  next
    case (Inr b)
    from delegation_bond_more_ok [OF assms(1,2) ok run [unfolded Inr]] run show ?thesis by auto
  qed
qed

lemma keeps_snapshots: "keeps (represents_table T) (snapshot_collators T now as n k t)"
proof (induction as arbitrary: n k t)
  case (Cons a as)
  then show ?case unfolding snapshot_collators.simps get_rewardable_delegators_def put_at_stake_def top_of_def
      deposit_staking_event_def Let_def by (intro keeps_rules) simp_all
qed (simp add: keeps_ok)

lemma keeps_select: "keeps (represents_table T) (select_top_candidates T now)"
  unfolding select_top_candidates_def select_previous_collators_def put_at_stake_def deposit_staking_event_def Let_def
    case_prod_unfold
  by (intro keeps_rules keeps_snapshots) simp_all

lemma keeps_payouts:
  assumes "staking_laws T" "limits_ok T" "payout_laws T"
  shows "keeps (represents_table T) (handle_delayed_payouts T now)"
  unfolding handle_delayed_payouts_def pay_one_collator_reward_def payout_collator_reward_def mint_collator_reward_def
    pay_delegators_def mint_and_compound_def pay_from_master_def notify_collator_payout_def deposit_staking_event_def Let_def
  by (intro keeps_rules keeps_transfer [OF assms(3)] keeps_bond_more [OF assms] keeps_callback;
      use assms(3) in \<open>simp add: payout_laws_def\<close>)

lemma keeps_prepare: "keeps (represents_table T) (prepare_staking_payouts T now)"
  unfolding prepare_staking_payouts_def Let_def by (intro keeps_rules; simp)

lemma keeps_on_initialize:
  assumes "staking_laws T" "limits_ok T" "payout_laws T"
  shows "keeps (represents_table T) (on_initialize T n)"
proof -
  have "no_hold_moved T l (on_new_round T k l)" for k l using assms(3) by (simp add: payout_laws_def)
  then show ?thesis
    unfolding on_initialize_def deposit_staking_event_def Let_def case_prod_unfold
    by (intro keeps_rules keeps_payouts [OF assms] keeps_select keeps_callback keeps_prepare; simp)
qed

lemma keeps_note_author: "keeps (represents_table T) (note_author a)"
  unfolding note_author_def award_points_to_block_author_def
  by (intro keeps_rules; simp)

section \<open>Reachable states\<close>

text \<open>
  The states of the pallet in a run of the chain: calls, whether they succeed or fail, the block hook,
  the note of a block's author, and what the rest of the runtime does to the ledger in between.
\<close>

inductive staking_reachable ::
    "('l, 'c) staking_config_scheme \<Rightarrow> ('l, 'z) staking_state_scheme \<Rightarrow> ('l, 'z) staking_state_scheme \<Rightarrow> bool"
  for T s0 where
  reach_start: "staking_reachable T s0 s0"
| reach_call: "staking_reachable T s0 s \<Longrightarrow> staking_dispatch T orig call s = (r, s') \<Longrightarrow> staking_reachable T s0 s'"
| reach_block: "staking_reachable T s0 s \<Longrightarrow> on_initialize T n s = (r, s') \<Longrightarrow> staking_reachable T s0 s'"
| reach_author: "staking_reachable T s0 s \<Longrightarrow> note_author a s = (r, s') \<Longrightarrow> staking_reachable T s0 s'"
| reach_runtime: "staking_reachable T s0 s \<Longrightarrow> no_hold_moved T (ext s) l \<Longrightarrow> staking_reachable T s0 (s\<lparr>ext := l\<rparr>)"

lemma dispatch_represents:
  assumes "staking_laws T" "limits_ok T"
  shows "keeps (represents_table T) (staking_dispatch T orig call)"
proof (rule keepsI)
  fix s :: "('a, 'c) staking_state_scheme" assume "represents_table T s"
  then obtain D where ok: "staking_ok T D s" by blast
  obtain r s' where run: "staking_dispatch T orig call s = (r, s')" by fastforce
  show "represents_table T (snd (staking_dispatch T orig call s))"
  proof (cases r)
    case (Inl e)
    with run ok show ?thesis by (auto simp: staking_dispatch_def dest: transactional_Inl)
  next
    case (Inr u)
    with run have "staking_body T orig call s = (Inr u, s')" by (simp add: staking_dispatch_def prog_simps)
    from staking_body_step [OF assms ok this] run show ?thesis by auto
  qed
qed

lemma reachable_represents:
  assumes laws: "staking_laws T" "limits_ok T" "payout_laws T"
    and "staking_reachable T s0 s" "represents_table T s0"
  shows "represents_table T s"
  using assms(4,5)
proof (induction rule: staking_reachable.induct)
  case (reach_call s orig call r s')
  then show ?case using keepsD [OF dispatch_represents [OF laws(1,2)]] by blast
next
  case (reach_block s n r s')
  then show ?case using keepsD [OF keeps_on_initialize [OF laws]] by blast
next
  case (reach_author s a r s')
  then show ?case using keepsD [OF keeps_note_author] by blast
next
  case (reach_runtime s l)
  then obtain D where "staking_ok T D s" by blast
  from no_hold_moved_ok [OF this reach_runtime.hyps(2)] show ?case by (rule exI [where x = D])
qed

end
