(* ===== verification/Staking_Limits.thy ===== *)
theory Staking_Limits
  imports Staking_Refinement
begin

text \<open>
  The limit on the delegations of one delegator. The calls keep it because they refine the table, whose rows only a new
  delegation lengthens, and a new delegation is guarded; the block hooks keep it because they only change amounts.
\<close>

definition row_limit :: "('l, 'c) staking_config_scheme \<Rightarrow> nat" where
  "row_limit T = max 1 (MaxDelegationsPerDelegator T)"

definition rows_limited :: "('l, 'c) staking_config_scheme \<Rightarrow> ('l, 'z) staking_state_scheme \<Rightarrow> bool" where
  "rows_limited T s \<longleftrightarrow> (\<forall>d st. DelegatorState s d = Some st \<longrightarrow> length (dg_delegations st) \<le> row_limit T)"

section \<open>Calls\<close>

lemma row_length:
  assumes "delegators_ok T D s" "DelegatorState s d = Some st"
  shows "length (dg_delegations st) = card (dom (D d))" "finite (dom (D d))"
proof -
  have o: "distinct (map bd_owner (dg_delegations st))" "amount_of (dg_delegations st) = D d"
    using delegators_okD(3) [OF assms] ordered_distinct by (auto simp: delegator_ok_def)
  have dom: "dom (D d) = set (map bd_owner (dg_delegations st))"
    unfolding o(2) [symmetric] dom_def by (simp only: amount_of_None not_not) auto
  show "length (dg_delegations st) = card (dom (D d))" "finite (dom (D d))"
    unfolding dom using distinct_card [OF o(1)] by simp_all
qed

lemma rows_limited_iff:
  assumes "staking_ok T D s"
  shows "rows_limited T s \<longleftrightarrow> (\<forall>d. card (dom (D d)) \<le> row_limit T)"
proof -
  note d = staking_okD(1) [OF assms]
  have "card (dom (D w)) \<le> row_limit T" if "DelegatorState s w = None" for w
    using delegators_okD(1) [OF d that] by simp
  then show ?thesis unfolding rows_limited_def using row_length(1) [OF d] by (metis not_None_eq)
qed

lemma row_finite:
  assumes "delegators_ok T D s"
  shows "finite (dom (D d))"
  using row_length(2) [OF assms] delegators_okD(1) [OF assms] by (cases "DelegatorState s d") auto

lemma table_step_rows:
  assumes "table_step orig call D D'"
  shows "dom (D' d) \<subseteq> dom (D d) \<or>
    (\<exists>a. orig = Signed d \<and> dom (D' d) \<subseteq> insert a (dom (D d)) \<and>
      ((\<exists>n h1 h2. call = Delegate a n h1 h2) \<or> (\<exists>n p h1 h2 h3. call = DelegateWithAutoCompound a n p h1 h2 h3)))"
  using assms
proof cases
  case (step_delegate who a n h1 h2)
  then show ?thesis by (cases "d = who") (auto simp: adds_delegation_def set_bond_def drop_bond_def split: if_splits)
next
  case (step_delegate_auto who a n p h1 h2 h3)
  then show ?thesis by (cases "d = who") (auto simp: adds_delegation_def set_bond_def drop_bond_def split: if_splits)
qed (auto simp: set_bond_def drop_bond_def split: if_splits)

lemma delegate_guard:
  assumes "delegate_with_auto_compound T a who n p h1 h2 h3 s = (Inr u, s')" "DelegatorState s who = Some st"
  shows "as_u32 (length (dg_delegations st)) < MaxDelegationsPerDelegator T"
  using assms unfolding delegate_with_auto_compound_def by (elim prog_elims) (auto simp: prog_simps split: prod.splits)

lemma delegate_row:
  assumes ok: "staking_ok T D s" and lim: "rows_limited T s" "MaxDelegationsPerDelegator T \<le> u32_max"
    and run: "delegate_with_auto_compound T a who n p h1 h2 h3 s = (Inr u, s')"
  shows "card (insert b (dom (D who))) \<le> row_limit T"
proof (cases "DelegatorState s who")
  case None
  then show ?thesis using delegators_okD(1) [OF staking_okD(1) [OF ok] None] by (simp add: row_limit_def)
next
  case (Some st)
  note len = row_length [OF staking_okD(1) [OF ok] Some]
  have "length (dg_delegations st) \<le> row_limit T" using lim(1) Some by (simp add: rows_limited_def)
  then have "as_u32 (length (dg_delegations st)) = length (dg_delegations st)"
    using lim(2) by (simp add: as_u32_def row_limit_def u32_max_def)
  with delegate_guard [OF run Some] show ?thesis
    using len card_insert_if [of "dom (D who)" b] by (auto simp: row_limit_def)
qed

lemma dispatch_rows:
  assumes laws: "staking_laws T" "limits_ok T" and ok: "staking_ok T D s"
    and lim: "rows_limited T s" "MaxDelegationsPerDelegator T \<le> u32_max"
    and run: "staking_dispatch T orig call s = (r, s')"
  shows "rows_limited T s'"
proof (cases r)
  case (Inl e)
  with run lim show ?thesis by (auto simp: staking_dispatch_def dest: transactional_Inl)
next
  case (Inr u)
  with run have body: "staking_body T orig call s = (Inr u, s')" by (simp add: staking_dispatch_def prog_simps)
  obtain D' where D': "table_step orig call D D'" "staking_ok T D' s'" using staking_body_step [OF laws ok body] by blast
  have "card (dom (D' d)) \<le> row_limit T" for d
  proof -
    note fin = row_finite [OF staking_okD(1) [OF ok], of d]
    have old: "card (dom (D d)) \<le> row_limit T" using rows_limited_iff [OF ok] lim(1) by blast
    from table_step_rows [OF D'(1), of d] consider "dom (D' d) \<subseteq> dom (D d)"
      | a n p h1 h2 h3 where "dom (D' d) \<subseteq> insert a (dom (D d))" "delegate_with_auto_compound T a d n p h1 h2 h3 s = (Inr u, s')"
      using body by (auto simp: delegate_def delegate_with_auto_compound_call_def prog_simps)
    then show ?thesis
    proof cases
      case 1
      then show ?thesis using card_mono [OF fin 1] old by linarith
    next
      case (2 a n p h1 h2 h3)
      then show ?thesis
        using card_mono [OF _ 2(1)] fin delegate_row [OF ok lim 2(2), of a] by (meson finite_insert order_trans)
    qed
  qed
  then show ?thesis using rows_limited_iff [OF D'(2)] by blast
qed

section \<open>Blocks\<close>

lemma keeps_or_else [keeps_rules]: "keeps P m \<Longrightarrow> keeps P n \<Longrightarrow> keeps P (or_else e m n)"
  unfolding keeps_def or_else_def by (auto split: prod.splits sum.splits; metis snd_conv)

lemma keeps_rows:
  "length (dg_delegations st) \<le> row_limit T \<Longrightarrow> keeps (rows_limited T) (put_delegator d (Some st))"
  "keeps (rows_limited T) (put_candidate a c)" "keeps (rows_limited T) (put_total n)"
  "keeps (rows_limited T) (put_top a y)" "keeps (rows_limited T) (put_bottom a y)" "keeps (rows_limited T) (update_active a n)"
  "keeps (rows_limited T) (on_ext m)" "keeps (rows_limited T) (deposit_staking_event e)"
  by (auto simp: keeps_def rows_limited_def staking_access_defs update_active_def prog_defs Let_def split: prod.splits)

lemma keeps_delegator_of:
  fixes f :: "delegator \<Rightarrow> ('l, 'z, 'a) sprog"
  assumes "\<And>st. length (dg_delegations st) \<le> row_limit T \<Longrightarrow> keeps (rows_limited T) (f st)"
  shows "keeps (rows_limited T) (sbind (delegator_of who) f)"
proof (rule keepsI)
  fix s :: "('l, 'z) staking_state_scheme" assume s: "rows_limited T s"
  show "rows_limited T (snd (sbind (delegator_of who) f s))"
  proof (cases "DelegatorState s who")
    case None
    then show ?thesis using s by (simp add: delegator_of_def prog_defs)
  next
    case (Some st)
    then have "keeps (rows_limited T) (f st)" using s by (intro assms) (simp add: rows_limited_def)
    from keepsD' [OF this s] Some show ?thesis by (simp add: delegator_of_def prog_defs)
  qed
qed

lemma length_change_first_bond: "length (change_first_bond a f bs) = length bs"
  by (induction bs) auto

lemma bond_more_rows: "keeps (rows_limited T) (delegation_bond_more_without_event T who a n)"
proof -
  have "keeps (rows_limited T) (delegator_increase_delegation T a n st)" if "length (dg_delegations st) \<le> row_limit T" for st
    unfolding delegator_increase_delegation_def candidate_increase_delegation_def
      increase_top_delegation_def increase_bottom_delegation_def reset_top_data_def adjust_bond_lock_def st_hold_def st_release_def
      candidate_of_def top_of_def bottom_of_def Let_def
    using that by (intro keeps_rules keeps_rows) (simp add: length_change_first_bond)
  then show ?thesis unfolding delegation_bond_more_without_event_def
    by (intro keeps_rules keeps_delegator_of)
qed

lemma rows_limited_frame: "DelegatorState t = DelegatorState s \<Longrightarrow> rows_limited T s \<Longrightarrow> rows_limited T t"
  by (simp add: rows_limited_def)

lemma keeps_rows_snapshots: "keeps (rows_limited T) (snapshot_collators T now as n k t)"
proof (induction as arbitrary: n k t)
  case (Cons a as)
  then show ?case unfolding snapshot_collators.simps get_rewardable_delegators_def put_at_stake_def top_of_def
      deposit_staking_event_def Let_def by (intro keeps_rules) (simp_all add: rows_limited_def)
qed (simp add: keeps_ok)

lemma on_initialize_rows: "keeps (rows_limited T) (on_initialize T n)"
proof -
  have select: "keeps (rows_limited T) (select_top_candidates T now)" for now
    unfolding select_top_candidates_def select_previous_collators_def put_at_stake_def deposit_staking_event_def Let_def
      case_prod_unfold
    by (intro keeps_rules keeps_rows_snapshots) (simp_all add: rows_limited_def)
  have payouts: "keeps (rows_limited T) (handle_delayed_payouts T now)" for now
    unfolding handle_delayed_payouts_def pay_one_collator_reward_def payout_collator_reward_def mint_collator_reward_def
      pay_delegators_def mint_and_compound_def pay_from_master_def notify_collator_payout_def deposit_staking_event_def Let_def
    by (intro keeps_rules keeps_rows bond_more_rows) (simp_all add: rows_limited_def)
  have prepare: "keeps (rows_limited T) (prepare_staking_payouts T now)" for now
    unfolding prepare_staking_payouts_def Let_def by (intro keeps_rules) (simp_all add: rows_limited_def)
  show ?thesis
    unfolding on_initialize_def deposit_staking_event_def Let_def case_prod_unfold
    by (intro keeps_rules select payouts prepare) (simp_all add: rows_limited_def)
qed

lemma note_author_rows: "keeps (rows_limited T) (note_author a)"
  unfolding note_author_def award_points_to_block_author_def by (intro keeps_rules) (simp_all add: rows_limited_def)

section \<open>Reachable states\<close>

lemma reachable_rows:
  assumes laws: "staking_laws T" "limits_ok T" "payout_laws T" and max: "MaxDelegationsPerDelegator T \<le> u32_max"
    and "staking_reachable T s0 s" "represents_table T s0" "rows_limited T s0"
  shows "rows_limited T s"
  using assms(5-)
proof (induction rule: staking_reachable.induct)
  case (reach_call s orig call r s')
  obtain D where "staking_ok T D s" using reachable_represents [OF laws reach_call.hyps(1)] reach_call.prems by blast
  from dispatch_rows [OF laws(1,2) this _ max reach_call.hyps(2)] reach_call show ?case by blast
next
  case (reach_block s n r s')
  then show ?case using keepsD [OF on_initialize_rows] by blast
next
  case (reach_author s a r s')
  then show ?case using keepsD [OF note_author_rows] by blast
qed (simp_all add: rows_limited_def)

end
