(* ===== verification/Staking_Claims.thy ===== *)
theory Staking_Claims
  imports Staking_Limits
begin

text \<open>
  The properties of the pallet \<^verbatim>\<open>parachain-staking\<close> as a whole, stated over its calls and its block hook, with a
  small runtime in which they are shown not to be vacuous.
\<close>

section \<open>A small runtime\<close>

definition demo_staking :: "plain_ledger staking_config" where
  "demo_staking =
     \<lparr>st_currency = plain_currency, reducible_balance = (\<lambda>a l. free l a), st_total_issuance = (\<lambda>l. 10000),
      perbill_mul = (\<lambda>p n. p * n div 10 ^ 9), perbill_from_rational = (\<lambda>p q. min p (max q 1) * 10 ^ 9 div max q 1),
      percent_mul_ceil = (\<lambda>p n. (p * n + 99) div 100), permill_from_rational = (\<lambda>p q. if q = 0 then 0 else p * 10 ^ 6 div q),
      annual_rate_to_round = (\<lambda>p q. Some 0), on_new_round = (\<lambda>n l. l), on_collator_payout = (\<lambda>n a k l. l),
      hash_at_stake = (\<lambda>(n, a). a), PayMaster = 9, monetary_governance_origin = (\<lambda>orig. orig = Root),
      MinBlocksPerRound = 3, LeaveCandidatesDelay = 2, CandidateBondLessDelay = 2, LeaveDelegatorsDelay = 2,
      RevokeDelegationDelay = 2, DelegationBondLessDelay = 2, RewardPaymentDelay = 2, MinSelectedCandidates = 1,
      MaxTopDelegationsPerCandidate = 1, MaxBottomDelegationsPerCandidate = 1, MaxDelegationsPerDelegator = 4,
      MinCandidateStk = 10, MinDelegation = 3, MinDelegatorStk = 5\<rparr>"

lemma demo_limits: "limits_ok demo_staking"
  by (simp add: limits_ok_def demo_staking_def u32_max_def)

lemma demo_accounts:
  "reducible_balance demo_staking a l + hold_of demo_staking StakingCollator a l + hold_of demo_staking StakingDelegator a l =
   free l a + held l (StakingReason StakingCollator) a + held l (StakingReason StakingDelegator) a"
  by (simp add: demo_staking_def hold_of_def plain_currency_def)

lemma demo_bounded_moves:
  assumes "\<And>a. free l' a + held l' (StakingReason StakingCollator) a + held l' (StakingReason StakingDelegator) a =
    free l a + held l (StakingReason StakingCollator) a + held l (StakingReason StakingDelegator) a"
  shows "ledger_bounded demo_staking l \<Longrightarrow> ledger_bounded demo_staking l'"
  by (simp add: ledger_bounded_def demo_accounts assms)

lemma demo_laws: "staking_laws demo_staking"
proof -
  have "st_currency demo_staking = plain_currency" by (simp add: demo_staking_def)
  moreover have "ledger_bounded demo_staking l \<longrightarrow> ledger_bounded demo_staking l'"
    if "plain_hold (StakingReason r) who amt l = (Inr u, l')" for r who amt l u l'
    by (rule impI, rule demo_bounded_moves [of l' l])
       (use that in \<open>cases r; auto simp: plain_hold_def split: if_splits\<close>)
  moreover have "ledger_bounded demo_staking l \<longrightarrow> ledger_bounded demo_staking l'"
    if "plain_release (StakingReason r) who amt p l = (Inr n, l')" for r who amt p l n l'
    by (rule impI, rule demo_bounded_moves [of l' l])
       (use that in \<open>cases r; auto simp: plain_release_def Let_def split: if_splits\<close>)
  ultimately show ?thesis
    by (simp add: staking_laws_def plain_hold_laws plain_release_laws plain_currency_def)
       (simp add: plain_hold_laws plain_release_laws flip: plain_currency_def)
qed

lemma demo_transfer_bounded:
  assumes "plain_transfer a b n p l = (r, l')" "ledger_bounded demo_staking l"
  shows "ledger_bounded demo_staking l'"
  unfolding ledger_bounded_def demo_accounts
proof (intro allI impI)
  fix A :: "account set" assume fin: "finite A"
  let ?w = "\<lambda>l c. free l c + held l (StakingReason StakingCollator) c + held l (StakingReason StakingDelegator) c"
  show "(\<Sum>c\<in>A. ?w l' c) \<le> u128_max"
  proof (cases "n \<le> free l a \<and> a \<noteq> b")
    case False
    with assms have "?w l' c = ?w l c" for c by (auto simp: plain_transfer_def split: if_splits)
    with fin assms(2) show ?thesis by (simp add: ledger_bounded_def demo_accounts)
  next
    case True
    let ?B = "A \<union> {a, b}"
    have l': "?w l' c = (if c = a then ?w l a - n else if c = b then ?w l b + n else ?w l c)" "n \<le> ?w l a" for c
      using True assms(1) by (auto simp: plain_transfer_def Let_def)
    have "finite ?B" using fin by simp
    have "(\<Sum>c\<in>A. ?w l' c) \<le> (\<Sum>c\<in>?B. ?w l' c)" using fin by (intro sum_mono2) auto
    also have "\<dots> = (\<Sum>c\<in>?B. ?w l c)"
      using True fin l' by (simp add: sum.remove [of _ a] sum.remove [of _ b] sum.insert_remove)
    also have "\<dots> \<le> u128_max" using assms(2) \<open>finite ?B\<close> by (simp only: ledger_bounded_def demo_accounts)
    finally show ?thesis .
  qed
qed

definition demo_chain :: "plain_ledger staking_state" where
  "demo_chain =
     \<lparr>block_number = 1, ext = \<lparr>free = (\<lambda>a. if a \<in> {1, 2, 3, 4, 9} then 100 else 0), held = (\<lambda>_ _. 0)\<rparr>,
      CollatorCommission = 2 * 10 ^ 8, TotalSelected = 1, ParachainBondInfo = \<lparr>pbc_account = 0, pbc_percent = 30\<rparr>,
      Round = \<lparr>rd_current = 1, rd_first = 0, rd_length = 5\<rparr>, DelegatorState = Map.empty, CandidateInfo = Map.empty,
      DelegationScheduledRequests = (\<lambda>_. []), AutoCompoundingDelegations = (\<lambda>_. []), TopDelegations = Map.empty,
      BottomDelegations = Map.empty, SelectedCandidates = [], Total = 0, CandidatePool = [], AtStake = [],
      DelayedPayouts = Map.empty, Staked = (\<lambda>_. 0),
      InflationConfig = \<lparr>in_expect = \<lparr>rg_min = 0, rg_ideal = 0, rg_max = 0\<rparr>, in_annual = \<lparr>rg_min = 0, rg_ideal = 0, rg_max = 0\<rparr>,
        in_round = \<lparr>rg_min = 0, rg_ideal = 0, rg_max = 0\<rparr>\<rparr>,
      Points = (\<lambda>_. 0), AwardedPts = (\<lambda>_. 0), staking_events = []\<rparr>"

lemma demo_payout_laws: "payout_laws demo_staking"
proof -
  have "no_hold_moved demo_staking l (snd (plain_transfer a b n p l))" for a b n p l
  proof (cases "plain_transfer a b n p l")
    case (Pair r l')
    then have "held l' = held l" by (auto simp: plain_transfer_def Let_def split: if_splits)
    with Pair demo_transfer_bounded [OF Pair] show ?thesis
      by (simp add: no_hold_moved_def hold_of_def demo_staking_def plain_currency_def)
  qed
  then show ?thesis
    by (auto simp: payout_laws_def no_hold_moved_def demo_staking_def plain_currency_def plain_hold_def plain_release_def Let_def
        split: if_splits)
qed

lemma demo_chain_ok: "staking_ok demo_staking (\<lambda>_. Map.empty) demo_chain"
proof -
  have "ledger_bounded demo_staking (ext demo_chain)"
    unfolding ledger_bounded_def demo_accounts
  proof (intro allI impI)
    fix A :: "account set" assume "finite A"
    let ?f = "\<lambda>a::account. if a \<in> {1, 2, 3, 4, 9} then 100 else 0 :: nat"
    have "(\<Sum>a\<in>A. ?f a) \<le> (\<Sum>a\<in>A \<union> {1, 2, 3, 4, 9}. ?f a)" using \<open>finite A\<close> by (intro sum_mono2) auto
    also have "\<dots> = (\<Sum>a\<in>{1, 2, 3, 4, 9}. ?f a)" using \<open>finite A\<close> by (intro sum.mono_neutral_right) auto
    finally have "(\<Sum>a\<in>A. ?f a) \<le> 500" by simp
    then show "(\<Sum>a\<in>A. free (ext demo_chain) a + held (ext demo_chain) (StakingReason StakingCollator) a +
        held (ext demo_chain) (StakingReason StakingDelegator) a) \<le> u128_max"
      by (simp add: demo_chain_def u128_max_def)
  qed
  then show ?thesis
    by (simp add: staking_ok_def delegators_ok_def candidates_ok_def pool_ok_def roles_ok_def is_candidate_def is_delegator_def
        requests_ok_def hold_of_def stake_if_active_def owners_ordered_def amount_of_def demo_chain_def demo_staking_def plain_currency_def)
qed

text \<open>The chain after account 1 has joined the candidates.\<close>

definition demo_joined :: "plain_ledger staking_state" where
  "demo_joined = demo_chain
     \<lparr>ext := \<lparr>free = (\<lambda>a. if a \<in> {1, 2, 3, 4, 9} then 100 else 0)(1 := 50),
        held = (\<lambda>_ _. 0)(StakingReason StakingCollator := (\<lambda>_. 0)(1 := 50))\<rparr>,
      CandidateInfo := [1 \<mapsto> new_candidate 50], TopDelegations := [1 \<mapsto> empty_delegations],
      BottomDelegations := [1 \<mapsto> empty_delegations], CandidatePool := [\<lparr>bd_owner = 1, bd_amount = 50\<rparr>], Total := 50,
      staking_events := [JoinedCollatorCandidates 1 50 50]\<rparr>"

lemma demo_fields [simp]:
  "st_currency demo_staking = plain_currency" "reducible_balance demo_staking a l = free l a"
  "MaxTopDelegationsPerCandidate demo_staking = 1" "MaxBottomDelegationsPerCandidate demo_staking = 1"
  "MaxDelegationsPerDelegator demo_staking = 4" "MinCandidateStk demo_staking = 10" "MinDelegation demo_staking = 3"
  "MinDelegatorStk demo_staking = 5" "RevokeDelegationDelay demo_staking = 2"
  by (simp_all add: demo_staking_def)

lemma search_small: "binary_search_by f [] = Inl 0"
  "binary_search_by f [x] = (case f x of Less \<Rightarrow> Inl 1 | Equal \<Rightarrow> Inr 0 | Greater \<Rightarrow> Inl 0)"
  by (simp_all add: binary_search_by_def search_loop.simps [of f "[]" 0 0] search_loop.simps [of f "[x]" 0 "Suc 0"]
      search_loop.simps [of f "[x]" "Suc 0" "Suc 0"] search_loop.simps [of f "[x]" 0 0] Let_def split: ordering.splits)

lemmas staking_eval = prog_defs staking_access_defs Let_def ensure_signed_def staking_dispatch_def
  is_candidate_def is_delegator_def as_u32_def u32_max_def u128_max_def saturating_add_def saturating_add_u32_def
  os_insert_def os_remove_def search_small insert_at_def remove_at_def bond_cmp_def nat_cmp_def bond_from_owner_def
  stakable_free_balance_def balance_on_hold_def st_hold_def st_release_def plain_currency_def plain_hold_def plain_release_def put_pool_def

lemma demo_joins: "staking_dispatch demo_staking (Signed 1) (JoinCandidates 50 5) demo_chain = (Inr (), demo_joined)"
  by (simp add: staking_eval join_candidates_def demo_chain_def demo_joined_def)

text \<open>After account 2 has delegated 20 to it.\<close>

definition demo_delegated :: "plain_ledger staking_state" where
  "demo_delegated = demo_joined
     \<lparr>ext := \<lparr>free = (\<lambda>a. if a \<in> {1, 2, 3, 4, 9} then 100 else 0)(1 := 50, 2 := 80),
        held = (\<lambda>_ _. 0)(StakingReason StakingCollator := (\<lambda>_. 0)(1 := 50), StakingReason StakingDelegator := (\<lambda>_. 0)(2 := 20))\<rparr>,
      DelegatorState := [2 \<mapsto> new_delegator 2 1 20],
      CandidateInfo := [1 \<mapsto> (new_candidate 50)\<lparr>ci_delegation_count := 1, ci_total_counted := 70,
        ci_lowest_top_delegation_amount := 20, ci_top_capacity := Full\<rparr>],
      TopDelegations := [1 \<mapsto> \<lparr>dl_delegations = [\<lparr>bd_owner = 2, bd_amount = 20\<rparr>], dl_total = 20\<rparr>],
      CandidatePool := [\<lparr>bd_owner = 1, bd_amount = 70\<rparr>], Total := 70,
      staking_events := [JoinedCollatorCandidates 1 50 50, DelegationEvent 2 20 1 (AddedToTop 70) 0]\<rparr>"

lemma demo_delegates: "staking_dispatch demo_staking (Signed 2) (Delegate 1 20 5 5) demo_joined = (Inr (), demo_delegated)"
  by (simp add: staking_eval delegate_def delegate_with_auto_compound_def demo_chain_def demo_joined_def demo_delegated_def
      candidate_add_delegation_def add_top_delegation_def new_candidate_def empty_delegations_def
      insert_sorted_greatest_to_least_def reset_top_data_def lowest_delegation_amount_def top_capacity_def capacity_of_def
      candidate_is_active_def update_active_def adjust_bond_lock_def new_delegator_def os_from_def sort_by_def)

section \<open>Refinement of the table\<close>

text \<open>
  C4. Every call of the staking pallet refines the table of delegations. From a state that represents a
  table \<open>D\<close> (both copies of every delegation agree, the holds are the bonds, the pool holds the active
  candidates, the requests are for existing delegations), a call that succeeds leads to a state that
  represents a table after the step the specification \<open>table_step\<close> allows for this call, in particular a
  new delegation can only push out a smallest delegation of the candidate, and only a smaller one; a call
  that fails changes nothing.
\<close>

theorem staking_calls_refine_table:
  assumes "staking_laws T" "limits_ok T" "staking_ok T D s" "staking_dispatch T orig call s = (r, s')"
  shows "case r of Inl e \<Rightarrow> s' = s | Inr u \<Rightarrow> (\<exists>D'. table_step orig call D D' \<and> staking_ok T D' s')"
proof (cases r)
  case (Inl e)
  with assms(4) show ?thesis by (simp add: staking_dispatch_def transactional_Inl)
next
  case (Inr u)
  with assms(4) have "staking_body T orig call s = (Inr u, s')" by (simp add: staking_dispatch_def prog_simps)
  with staking_body_step [OF assms(1-3)] Inr show ?thesis by simp
qed

lemma demo_joined_ok: "staking_ok demo_staking (\<lambda>_. Map.empty) demo_joined"
  using join_candidates_ok [OF demo_laws demo_limits demo_chain_ok] demo_joins
  by (auto simp: staking_dispatch_def prog_simps)

theorem staking_calls_refine_table_witness:
  "\<exists>D'. table_step (Signed 2) (Delegate 1 20 5 5) (\<lambda>_. Map.empty) D' \<and> staking_ok demo_staking D' demo_delegated"
  using staking_calls_refine_table [OF demo_laws demo_limits demo_joined_ok demo_delegates] by simp

section \<open>Reachable states\<close>

text \<open>
  C5. The representation invariant holds in every reachable state of the chain: whatever calls are made, in
  whatever order, between blocks whose hooks select collators and pay and compound rewards, the state
  represents some table of delegations if the initial one does.
\<close>

theorem staking_reachable_represents:
  assumes "staking_laws T" "limits_ok T" "payout_laws T" "staking_ok T D s0" "staking_reachable T s0 s"
  shows "\<exists>D'. staking_ok T D' s"
  using reachable_represents [OF assms(1-3,5)] assms(4) by blast

lemma demo_reachable: "staking_reachable demo_staking demo_chain demo_delegated"
  using reach_call [OF reach_call [OF reach_start demo_joins] demo_delegates] .

theorem staking_reachable_represents_witness: "\<exists>D'. staking_ok demo_staking D' demo_delegated"
  by (rule staking_reachable_represents [OF demo_laws demo_limits demo_payout_laws demo_chain_ok demo_reachable])

lemma delegation_in_lists:
  assumes "staking_ok T D s" "DelegatorState s d = Some st" "b \<in> set (dg_delegations st)"
  shows "\<exists>c t bt. CandidateInfo s (bd_owner b) = Some c \<and> has_lists (bd_owner b) t bt s \<and>
    \<lparr>bd_owner = d, bd_amount = bd_amount b\<rparr> \<in> set (dl_delegations t @ dl_delegations bt)"
proof -
  note d = staking_okD [OF assms(1)]
  have row: "D d (bd_owner b) = Some (bd_amount b)" by (rule row_bonds [OF delegators_okD(3) [OF d(1) assms(2)] assms(3)])
  obtain c where c: "CandidateInfo s (bd_owner b) = Some c" using candidates_okD(5) [OF d(2) row] by blast
  obtain t bt where tb: "has_lists (bd_owner b) t bt s" "candidate_ok T c t bt" "bonds_by t bt = (\<lambda>d. D d (bd_owner b))"
    using candidates_okD(3) [OF d(2) c] by blast
  have "bonds_by t bt d = Some (bd_amount b)" using row tb(3) by simp
  then have "\<lparr>bd_owner = d, bd_amount = bd_amount b\<rparr> \<in> set (dl_delegations t @ dl_delegations bt)"
    by (rule amount_of_Some [OF candidate_okD(2) [OF tb(2)], THEN iffD1])
  with c tb(1) show ?thesis by blast
qed

lemma list_entry_delegates:
  assumes "staking_ok T D s" "CandidateInfo s a = Some c" "has_lists a t bt s" "x \<in> set (dl_delegations t @ dl_delegations bt)"
  shows "\<exists>st. DelegatorState s (bd_owner x) = Some st \<and> \<lparr>bd_owner = a, bd_amount = bd_amount x\<rparr> \<in> set (dg_delegations st)"
proof -
  note d = staking_okD [OF assms(1)]
  have tb: "candidate_ok T c t bt" "bonds_by t bt = (\<lambda>d. D d a)"
    using candidates_okD(3) [OF d(2) assms(2)] assms(3) by (auto simp: has_lists_def)
  have "\<lparr>bd_owner = bd_owner x, bd_amount = bd_amount x\<rparr> \<in> set (dl_delegations t @ dl_delegations bt)"
    using assms(4) unfolding bond_mem by blast
  then have "bonds_by t bt (bd_owner x) = Some (bd_amount x)" by (rule amount_of_Some [OF candidate_okD(2) [OF tb(1)], THEN iffD2])
  then have row: "D (bd_owner x) a = Some (bd_amount x)" using fun_cong [OF tb(2), of "bd_owner x"] by simp
  obtain st where st: "DelegatorState s (bd_owner x) = Some st" using delegators_okD(5) [OF d(1) row] by blast
  note dok = delegators_okD(3) [OF d(1) st]
  have "distinct (map bd_owner (dg_delegations st))" "amount_of (dg_delegations st) a = Some (bd_amount x)"
    using dok row ordered_distinct by (auto simp: delegator_ok_def)
  with st show ?thesis using amount_of_Some by blast
qed

text \<open>
  C6. In every reachable state the books of the pallet agree. No account is a delegator and a candidate
  at once. What a delegator has on hold is the sum of its bonds, and each of them stands in the lists of
  an existing candidate; conversely every entry of a candidate's lists is a bond of its delegator. What a
  candidate has on hold is its own bond, its counted stake is that bond with the top delegations, and the
  candidate pool offers exactly the active candidates, with their counted stake.
\<close>

theorem staking_books_agree:
  assumes "staking_laws T" "limits_ok T" "payout_laws T" "staking_ok T D s0" "staking_reachable T s0 s"
  shows "(\<forall>a. \<not> (is_candidate s a \<and> is_delegator s a)) \<and>
    (\<forall>d st. DelegatorState s d = Some st \<longrightarrow>
       hold_of T StakingDelegator d (ext s) = sum_of (dg_delegations st) \<and>
       (\<forall>b\<in>set (dg_delegations st). \<exists>c t bt. CandidateInfo s (bd_owner b) = Some c \<and> has_lists (bd_owner b) t bt s \<and>
          \<lparr>bd_owner = d, bd_amount = bd_amount b\<rparr> \<in> set (dl_delegations t @ dl_delegations bt))) \<and>
    (\<forall>a c t bt. CandidateInfo s a = Some c \<longrightarrow> has_lists a t bt s \<longrightarrow>
       hold_of T StakingCollator a (ext s) = ci_bond c \<and> ci_total_counted c = ci_bond c + sum_of (dl_delegations t) \<and>
       (\<forall>x\<in>set (dl_delegations t @ dl_delegations bt). \<exists>st. DelegatorState s (bd_owner x) = Some st \<and>
          \<lparr>bd_owner = a, bd_amount = bd_amount x\<rparr> \<in> set (dg_delegations st))) \<and>
    (\<forall>a n. \<lparr>bd_owner = a, bd_amount = n\<rparr> \<in> set (CandidatePool s) \<longleftrightarrow>
       (\<exists>c. CandidateInfo s a = Some c \<and> candidate_is_active c \<and> ci_total_counted c = n))"
proof -
  obtain E where ok: "staking_ok T E s" using reachable_represents [OF assms(1-3,5)] assms(4) by blast
  note d = staking_okD [OF ok]
  have "\<forall>a. \<not> (is_candidate s a \<and> is_delegator s a)" using d(4) by (simp add: roles_ok_def)
  moreover have "hold_of T StakingDelegator w (ext s) = sum_of (dg_delegations st)" if "DelegatorState s w = Some st" for w st
    using delegators_okD(3,4) [OF d(1) that] by (simp add: delegator_ok_def)
  moreover have "hold_of T StakingCollator a (ext s) = ci_bond c \<and> ci_total_counted c = ci_bond c + sum_of (dl_delegations t)"
    if "CandidateInfo s a = Some c" "has_lists a t bt s" for a c t bt
    using candidates_okD(2,3) [OF d(2) that(1)] that(2) by (auto simp: has_lists_def candidate_ok_def)
  moreover have "\<lparr>bd_owner = a, bd_amount = n\<rparr> \<in> set (CandidatePool s) \<longleftrightarrow>
      (\<exists>c. CandidateInfo s a = Some c \<and> candidate_is_active c \<and> ci_total_counted c = n)" for a n
  proof -
    have p: "distinct (map bd_owner (CandidatePool s))" "amount_of (CandidatePool s) a = stake_if_active (CandidateInfo s a)"
      using d(3) ordered_distinct by (auto simp: pool_ok_def)
    show ?thesis unfolding amount_of_Some [OF p(1), symmetric] p(2) by (auto simp: stake_if_active_def split: option.splits)
  qed
  ultimately show ?thesis using delegation_in_lists [OF ok] list_entry_delegates [OF ok] by simp
qed

theorem staking_books_agree_witness:
  "hold_of demo_staking StakingDelegator 2 (ext demo_delegated) = 20 \<and> \<lparr>bd_owner = 1, bd_amount = 70\<rparr> \<in> set (CandidatePool demo_delegated)"
proof -
  note books = staking_books_agree [OF demo_laws demo_limits demo_payout_laws demo_chain_ok demo_reachable]
  have st: "DelegatorState demo_delegated 2 = Some (new_delegator 2 1 20)" by (simp add: demo_delegated_def)
  from books have "hold_of demo_staking StakingDelegator 2 (ext demo_delegated) = sum_of (dg_delegations (new_delegator 2 1 20))"
    using st by blast
  moreover from books have "\<lparr>bd_owner = 1, bd_amount = 70\<rparr> \<in> set (CandidatePool demo_delegated)"
    by (auto simp: demo_delegated_def candidate_is_active_def new_candidate_def)
  ultimately show ?thesis by (simp add: new_delegator_def os_from_def sort_by_def sum_of_def)
qed

section \<open>Machine integers\<close>

lemma sum_of_member: "b \<in> set xs \<Longrightarrow> bd_amount b \<le> sum_of xs"
  by (induction xs) (auto simp: sum_of_def)

text \<open>
  C31. In every reachable state these numbers of the pallet lie in the ranges of their machine types and within their
  limits, so that the saturating operations on them have lost nothing: the total and every bond of a delegator are
  \<open>u128\<close> and no bond is empty; a delegator has at most \<open>MaxDelegationsPerDelegator\<close> delegations (or one, when that
  limit is zero); the bond, the counted total and the total of the top list of a candidate are \<open>u128\<close>, the count of its
  delegations is the exact \<open>u32\<close> length of its two lists, and the lists are within their limits. Nothing is said about
  \<^verbatim>\<open>Total\<close>, the pending decreases of a delegator and the stored total of the bottom list.
\<close>

theorem staking_values_in_range:
  assumes "staking_laws T" "limits_ok T" "payout_laws T" "staking_ok T D s0" "staking_reachable T s0 s"
    and "MaxDelegationsPerDelegator T \<le> u32_max" "rows_limited T s0"
  shows "(\<forall>d st. DelegatorState s d = Some st \<longrightarrow> dg_total st \<le> u128_max \<and>
       length (dg_delegations st) \<le> max 1 (MaxDelegationsPerDelegator T) \<and>
       (\<forall>b\<in>set (dg_delegations st). 0 < bd_amount b \<and> bd_amount b \<le> u128_max)) \<and>
    (\<forall>a c. CandidateInfo s a = Some c \<longrightarrow> ci_bond c \<le> u128_max \<and> ci_total_counted c \<le> u128_max \<and> ci_delegation_count c \<le> u32_max \<and>
       (\<exists>t b. has_lists a t b s \<and> ci_delegation_count c = length (dl_delegations t) + length (dl_delegations b) \<and>
          length (dl_delegations t) \<le> MaxTopDelegationsPerCandidate T \<and>
          length (dl_delegations b) \<le> MaxBottomDelegationsPerCandidate T \<and> dl_total t \<le> u128_max))"
proof -
  obtain E where ok: "staking_ok T E s" using reachable_represents [OF assms(1-3,5)] assms(4) by blast
  note d = staking_okD [OF ok]
  have rows: "rows_limited T s" using reachable_rows [OF assms(1-3,6,5) _ assms(7)] assms(4) by blast
  have "dg_total st \<le> u128_max \<and> length (dg_delegations st) \<le> max 1 (MaxDelegationsPerDelegator T) \<and>
      (\<forall>b\<in>set (dg_delegations st). 0 < bd_amount b \<and> bd_amount b \<le> u128_max)"
    if st: "DelegatorState s w = Some st" for w st
  proof -
    note dok = delegators_okD(3) [OF d(1) st]
    have "dg_total st \<le> u128_max" "dg_total st = sum_of (dg_delegations st)"
      using account_bound [OF d(6), of w] delegators_okD(4) [OF d(1) st] dok by (simp_all add: delegator_ok_def)
    moreover have "0 < bd_amount b" if "b \<in> set (dg_delegations st)" for b
      using row_bonds [OF dok that] dok by (auto simp: delegator_ok_def ran_def)
    moreover have "length (dg_delegations st) \<le> max 1 (MaxDelegationsPerDelegator T)"
      using rows st by (simp add: rows_limited_def row_limit_def)
    ultimately show ?thesis using sum_of_member by (metis order_trans)
  qed
  moreover have "ci_bond c \<le> u128_max \<and> ci_total_counted c \<le> u128_max \<and> ci_delegation_count c \<le> u32_max \<and>
      (\<exists>t b. has_lists a t b s \<and> ci_delegation_count c = length (dl_delegations t) + length (dl_delegations b) \<and>
         length (dl_delegations t) \<le> MaxTopDelegationsPerCandidate T \<and>
         length (dl_delegations b) \<le> MaxBottomDelegationsPerCandidate T \<and> dl_total t \<le> u128_max)"
    if a: "CandidateInfo s a = Some c" for a c
  proof -
    obtain t b where tb: "has_lists a t b s" "candidate_ok T c t b" using candidates_okD(3) [OF d(2) a] by blast
    with assms(2) show ?thesis by (fastforce simp: candidate_ok_def lists_ok_def limits_ok_def sum_of_def)
  qed
  ultimately show ?thesis by simp
qed

theorem staking_values_in_range_witness:
  "(\<exists>t b. has_lists 1 t b demo_delegated \<and> length (dl_delegations t) + length (dl_delegations b) = 1) \<and>
   (\<exists>st. DelegatorState demo_delegated 2 = Some st \<and> length (dg_delegations st) \<le> 4)"
proof -
  let ?c = "(new_candidate 50)\<lparr>ci_delegation_count := 1, ci_total_counted := 70, ci_lowest_top_delegation_amount := 20,
        ci_top_capacity := Full\<rparr>"
  have c: "CandidateInfo demo_delegated 1 = Some ?c" by (simp add: demo_delegated_def)
  have "MaxDelegationsPerDelegator demo_staking \<le> u32_max" "rows_limited demo_staking demo_chain"
    by (simp_all add: u32_max_def rows_limited_def demo_chain_def)
  note range = staking_values_in_range [OF demo_laws demo_limits demo_payout_laws demo_chain_ok demo_reachable this]
  from range [THEN conjunct2, rule_format, OF c] obtain t b where "has_lists 1 t b demo_delegated"
      "ci_delegation_count ?c = length (dl_delegations t) + length (dl_delegations b)"
    by blast
  then have "\<exists>t b. has_lists 1 t b demo_delegated \<and> length (dl_delegations t) + length (dl_delegations b) = 1"
    by (intro exI [of _ t] exI [of _ b]) simp
  moreover have d: "DelegatorState demo_delegated 2 = Some (new_delegator 2 1 20)" by (simp add: demo_delegated_def)
  then have "length (dg_delegations (new_delegator 2 1 20)) \<le> max 1 (MaxDelegationsPerDelegator demo_staking)"
    using range by blast
  ultimately show ?thesis using d by simp
qed

section \<open>Leaving is always possible\<close>

text \<open>What a release of the currency promises: an amount that is on hold can be released.\<close>

definition exact_release_succeeds :: "'l currency \<Rightarrow> bool" where
  "exact_release_succeeds C \<longleftrightarrow>
     (\<forall>r who amt l. amt \<le> c_balance_on_hold C r who l \<longrightarrow> (\<exists>n l'. c_release C r who amt Exact l = (Inr n, l')))"

lemma decrease_lock_succeeds:
  assumes "exact_release_succeeds (st_currency T)" "dg_total d < hold_of T StakingDelegator (dg_id d) (ext s)"
  shows "\<exists>s'. adjust_bond_lock T DecreaseBond d s = (Inr (), s')"
proof -
  let ?n = "hold_of T StakingDelegator (dg_id d) (ext s) - dg_total d"
  obtain n l where "c_release (st_currency T) (StakingReason StakingDelegator) (dg_id d) ?n Exact (ext s) = (Inr n, l)"
    using assms(1) [unfolded exact_release_succeeds_def, rule_format, of ?n "StakingReason StakingDelegator" "dg_id d" "ext s"]
    by (auto simp: hold_of_def)
  with assms(2) show ?thesis
    by (simp add: adjust_bond_lock_def prog_simps balance_on_hold_eq st_release_def on_ext_Inr)
qed

lemma remove_auto_compound_succeeds: "\<exists>s'. remove_auto_compound a who s = (Inr (), s')"
  by (cases "remove_for_delegator who (AutoCompoundingDelegations s a)")
     (auto simp: remove_auto_compound_def put_auto_compound_def prog_simps)

lemma delegator_rm_succeeds:
  assumes rel: "exact_release_succeeds (st_currency T)" and ok: "delegators_ok T D s" and st: "DelegatorState s who = Some st"
    and n: "D who a = Some n"
  shows "\<exists>st' r s'. delegator_rm_delegation T a (st\<lparr>dg_less_total := k\<rparr>) s = (Inr (st', r), s')"
proof -
  have dok: "delegator_ok who (D who) st" by (rule delegators_okD(3) [OF ok st])
  then have o: "owners_ordered (dg_delegations st)" "amount_of (dg_delegations st) a = Some n" "dg_id st = who" "0 < n"
    using n by (auto simp: delegator_ok_def ran_def)
  note row = without_owner_row [OF o(1,2)]
  let ?st = "st\<lparr>dg_less_total := k, dg_delegations := without_owner a (dg_delegations st), dg_total := dg_total st - n\<rparr>"
  have "n \<le> dg_total st" "hold_of T StakingDelegator who (ext s) = dg_total st"
    using dok row(3) delegators_okD(4) [OF ok st] by (simp_all add: delegator_ok_def)
  with o obtain s' where "adjust_bond_lock T DecreaseBond ?st s = (Inr (), s')"
    using decrease_lock_succeeds [OF rel, of ?st s] by auto
  then show ?thesis
    by (auto simp: delegator_rm_delegation_def row(4) total_sub_def prog_simps os_from_ordered [OF row(1)] Let_def)
qed

lemma request_index:
  assumes "requests_ok D s" "req \<in> set (DelegationScheduledRequests s a)"
  shows "\<exists>i. position (\<lambda>r. sr_delegator r = sr_delegator req) (DelegationScheduledRequests s a) = Some i \<and>
    DelegationScheduledRequests s a ! i = req"
proof -
  let ?R = "DelegationScheduledRequests s a"
  obtain i where i: "position (\<lambda>r. sr_delegator r = sr_delegator req) ?R = Some i"
    using assms(2) by (cases "position (\<lambda>r. sr_delegator r = sr_delegator req) ?R") (auto simp: position_None)
  obtain j where j: "j < length ?R" "?R ! j = req" using assms(2) by (auto simp: in_set_conv_nth)
  have "distinct (map sr_delegator ?R)" using assms(1) by (simp add: requests_ok_def)
  moreover have "i < length ?R" "map sr_delegator ?R ! i = map sr_delegator ?R ! j"
    using position_Some [OF i] j by auto
  ultimately have "i = j" using j(1) by (simp add: distinct_conv_nth) metis
  then show ?thesis using i j(2) by blast
qed

lemma revocation_runs:
  assumes laws: "staking_laws T" "limits_ok T" "exact_release_succeeds (st_currency T)" and ok: "staking_ok T D s"
    and st: "DelegatorState s who = Some st" and i: "position (\<lambda>r. sr_delegator r = who) (DelegationScheduledRequests s a) = Some i"
    and r: "sr_action (DelegationScheduledRequests s a ! i) = Revoke n"
      "sr_when_executable (DelegationScheduledRequests s a ! i) \<le> rd_current (Round s)"
    and n: "D who a = Some n" and enough: "length (dg_delegations st) = 1 \<or> MinDelegatorStk T + n \<le> dg_total st"
  shows "\<exists>s'. delegation_execute_scheduled_request T a who s = (Inr (), s')"
proof -
  note d = staking_okD [OF ok]
  obtain st1 rem s1 where rm: "delegator_rm_delegation T a (st\<lparr>dg_less_total := dg_less_total st - n\<rparr>) s = (Inr (st1, rem), s1)"
    using delegator_rm_succeeds [OF laws(3) d(1) st n] by blast
  obtain s2 where ac: "remove_auto_compound a who s1 = (Inr (), s2)" using remove_auto_compound_succeeds by blast
  have "delegator_ok who (D who) (st\<lparr>dg_less_total := dg_less_total st - n\<rparr>)" using delegators_okD(3) [OF d(1) st] by simp
  from delegator_rm_delegation_ok [OF laws(1) this n rm] obtain l where s1: "s1 = s\<lparr>ext := l\<rparr>" by blast
  obtain cs where s2: "s2 = s1\<lparr>AutoCompoundingDelegations := cs\<rparr>" using remove_auto_compound_run [OF ac] by blast
  obtain c where c: "CandidateInfo s a = Some c" using candidates_okD(5) [OF d(2) n] by blast
  obtain t b where tb: "has_lists a t b s" "candidate_ok T c t b" "bonds_by t b = (\<lambda>d. D d a)"
    using candidates_okD(3) [OF d(2) c] by blast
  have "CandidateInfo s2 a = Some c" "has_lists a t b s2" "bonds_by t b who = Some n"
    using c tb n by (simp_all add: s1 s2 has_lists_def)
  from delegator_leaves_candidate_ok [OF laws(2) this(1) tb(2) this(2,3)]
  obtain s3 where lv: "delegator_leaves_candidate T a who n s2 = (Inr (), s3)" by blast
  show ?thesis using enough lv ac rm r(2)
    by (auto simp: delegation_execute_scheduled_request_def delegator_of_def prog_simps st i r(1) Let_def if_leaving_Inr
        put_requests_def deposit_staking_event_def simp del: One_nat_def)
qed

text \<open>The hold of a delegator is the sum of its row.\<close>

lemma hold_is_row:
  assumes "delegators_ok T D s"
  shows "hold_of T StakingDelegator d (ext s) = (\<Sum>a\<in>dom (D d). the (D d a))" "finite (dom (D d))"
proof -
  have "hold_of T StakingDelegator d (ext s) = (\<Sum>a\<in>dom (D d). the (D d a)) \<and> finite (dom (D d))"
  proof (cases "DelegatorState s d")
    case None
    then show ?thesis using delegators_okD(1,2) [OF assms None] by simp
  next
    case (Some st)
    note dok = delegators_okD(3) [OF assms Some]
    have o: "distinct (map bd_owner (dg_delegations st))" "amount_of (dg_delegations st) = D d"
      using dok ordered_distinct by (auto simp: delegator_ok_def)
    have dom: "dom (D d) = bd_owner ` set (dg_delegations st)"
      unfolding o(2) [symmetric] dom_def by (simp only: amount_of_None not_not) auto
    have "inj_on bd_owner (set (dg_delegations st))" "distinct (dg_delegations st)" using o(1) by (auto simp: distinct_map)
    then have "(\<Sum>a\<in>dom (D d). the (D d a)) = (\<Sum>b\<in>set (dg_delegations st). the (D d (bd_owner b)))"
      unfolding dom by (simp add: sum.reindex)
    also have "\<dots> = (\<Sum>b\<in>set (dg_delegations st). bd_amount b)" by (rule sum.cong) (simp_all add: row_bonds [OF dok])
    also have "\<dots> = sum_of (dg_delegations st)"
      using \<open>distinct (dg_delegations st)\<close> by (simp add: sum_of_def sum_list_distinct_conv_sum_set)
    also have "\<dots> = hold_of T StakingDelegator d (ext s)"
      using delegators_okD(4) [OF assms Some] dok by (simp add: delegator_ok_def)
    finally show ?thesis by (simp add: dom)
  qed
  then show "hold_of T StakingDelegator d (ext s) = (\<Sum>a\<in>dom (D d). the (D d a))" "finite (dom (D d))" by auto
qed

text \<open>
  C10. A due revocation runs its course, whoever calls: in a state that represents a table, when a delegator's request to
  revoke \<open>n\<close> from a candidate has come due, executing it succeeds exactly when it is the delegator's last delegation or at
  least \<open>MinDelegatorStk\<close> of stake remains. Then the delegation is gone from the table and the hold of the delegator is
  smaller by exactly \<open>n\<close>; otherwise the call fails with \<open>DelegatorBondBelowMin\<close> and changes nothing.
\<close>

theorem due_revocation_outcome:
  assumes laws: "staking_laws T" "limits_ok T" "exact_release_succeeds (st_currency T)" and ok: "staking_ok T D s"
    and st: "DelegatorState s who = Some st"
    and req: "\<lparr>sr_delegator = who, sr_when_executable = w, sr_action = Revoke n\<rparr> \<in> set (DelegationScheduledRequests s a)"
    and due: "w \<le> rd_current (Round s)"
  shows "if length (dg_delegations st) = 1 \<or> MinDelegatorStk T + n \<le> dg_total st
    then \<exists>s'. staking_dispatch T (Signed anyone) (ExecuteDelegationRequest who a) s = (Inr (), s') \<and>
      staking_ok T (drop_bond who a D) s' \<and>
      hold_of T StakingDelegator who (ext s') + n = hold_of T StakingDelegator who (ext s)
    else staking_dispatch T (Signed anyone) (ExecuteDelegationRequest who a) s = (Inl (SErr DelegatorBondBelowMin), s)"
    (is "if ?enough then _ else _")
proof -
  note d = staking_okD [OF ok]
  obtain i where i: "position (\<lambda>r. sr_delegator r = who) (DelegationScheduledRequests s a) = Some i"
      "DelegationScheduledRequests s a ! i = \<lparr>sr_delegator = who, sr_when_executable = w, sr_action = Revoke n\<rparr>"
    using request_index [OF d(5) req] by auto
  have n: "D who a = Some n" using due_request(2) [OF d(5) i(1)] by (simp add: i(2) request_ok_def)
  show ?thesis
  proof (cases ?enough)
    case enough: True
    obtain s' where run: "delegation_execute_scheduled_request T a who s = (Inr (), s')"
      using revocation_runs [OF laws ok st i(1) _ _ n enough] due by (auto simp: i(2))
    have ok': "staking_ok T (drop_bond who a D) s'" by (rule execute_revoke_ok [OF laws(1,2) ok run st i(1)]) (simp add: i(2))
    have "dom (drop_bond who a D who) = dom (D who) - {a}" by (auto simp: drop_bond_def)
    then have "hold_of T StakingDelegator who (ext s') = (\<Sum>c\<in>dom (D who) - {a}. the (D who c))"
      using hold_is_row(1) [OF staking_okD(1) [OF ok'], of who] by (simp add: drop_bond_def)
    moreover have "hold_of T StakingDelegator who (ext s) = n + (\<Sum>c\<in>dom (D who) - {a}. the (D who c))"
      using hold_is_row [OF d(1), of who] n by (simp add: sum.remove [of _ a] domI)
    ultimately show ?thesis using run ok' enough
      by (auto simp: staking_dispatch_def execute_delegation_request_def prog_simps)
  next
    case False
    moreover have "0 < n" using delegators_okD(3) [OF d(1) st] n by (auto simp: delegator_ok_def ran_def)
    ultimately have "length (dg_delegations st) \<noteq> 1" "\<not> n \<le> dg_total st - MinDelegatorStk T" by auto
    then have "staking_dispatch T (Signed anyone) (ExecuteDelegationRequest who a) s = (Inl (SErr DelegatorBondBelowMin), s)"
      using i(1) due
      by (simp add: staking_dispatch_def execute_delegation_request_def delegation_execute_scheduled_request_def delegator_of_def
          st i(2) Let_def ensure_signed_def prog_defs)
    then show ?thesis unfolding if_not_P [OF False] .
  qed
qed

text \<open>The demo delegation after it has been scheduled for revocation, two rounds later.\<close>

definition demo_due :: "plain_ledger staking_state" where
  "demo_due = (snd (delegation_schedule_revoke demo_staking 1 2 demo_delegated))\<lparr>Round := \<lparr>rd_current = 3, rd_first = 10, rd_length = 5\<rparr>\<rparr>"

theorem due_revocation_outcome_witness:
  "\<exists>s'. staking_dispatch demo_staking (Signed 7) (ExecuteDelegationRequest 2 1) demo_due = (Inr (), s') \<and>
    hold_of demo_staking StakingDelegator 2 (ext s') + 20 = hold_of demo_staking StakingDelegator 2 (ext demo_due)"
proof -
  obtain D where D: "staking_ok demo_staking D demo_delegated"
    using reachable_represents [OF demo_laws demo_limits demo_payout_laws demo_reachable] demo_chain_ok by blast
  have run: "delegation_schedule_revoke demo_staking 1 2 demo_delegated = (Inr (), s)"
    if "s = snd (delegation_schedule_revoke demo_staking 1 2 demo_delegated)" for s
    unfolding that
    by (simp add: delegation_schedule_revoke_def staking_eval demo_delegated_def demo_joined_def demo_chain_def get_bond_amount_def
        new_delegator_def os_from_def sort_by_def)
  have ok: "staking_ok demo_staking D demo_due"
    using delegation_schedule_revoke_ok [OF D run [OF refl]] by (simp add: demo_due_def)
  have s: "DelegatorState demo_due 2 = Some ((new_delegator 2 1 20)\<lparr>dg_less_total := 20\<rparr>)"
    "DelegationScheduledRequests demo_due 1 = [\<lparr>sr_delegator = 2, sr_when_executable = 3, sr_action = Revoke 20\<rparr>]"
    "rd_current (Round demo_due) = 3"
    by (simp_all add: demo_due_def delegation_schedule_revoke_def staking_eval demo_delegated_def demo_joined_def demo_chain_def
        get_bond_amount_def new_delegator_def os_from_def sort_by_def)
  have "exact_release_succeeds (st_currency demo_staking)"
    by (simp add: exact_release_succeeds_def plain_currency_def plain_release_def Let_def)
  from due_revocation_outcome [OF demo_laws demo_limits this ok s(1), of 3 20 1] s(2,3) show ?thesis
    by (auto simp: new_delegator_def os_from_def sort_by_def)
qed

end
