(* ===== verification/Staking_Round_Props.thy ===== *)
theory Staking_Round_Props
  imports Staking_Claims
begin

text \<open>
  The rounds of the pallet \<^verbatim>\<open>parachain-staking\<close>: which candidates are selected, what a collator and its
  delegators are paid, and that the payouts of a round come to an end.
\<close>

section \<open>The selected candidates\<close>

text \<open>The order of the selection: by stake, and by account where stakes are equal.\<close>

definition outranks :: "bond \<Rightarrow> bond \<Rightarrow> bool" where
  "outranks x y \<longleftrightarrow> bd_amount y < bd_amount x \<or> bd_amount y = bd_amount x \<and> bd_owner y < bd_owner x"

lemma stake_cmp_Greater: "stake_cmp x y = Greater \<longleftrightarrow> outranks y x"
  by (auto simp: stake_cmp_def outranks_def split: ordering.splits)

interpretation by_stake: comparator stake_cmp
  by unfold_locales (auto simp: stake_cmp_Greater outranks_def)

lemma taken_outrank:
  assumes "distinct (map bd_owner xs)" "x \<in> set (take n (sort_by stake_cmp xs))" "y \<in> set xs"
    "bd_owner y \<notin> bd_owner ` set (take n (sort_by stake_cmp xs))"
  shows "outranks x y"
proof -
  let ?ys = "sort_by stake_cmp xs"
  have "y \<in> set (take n ?ys @ drop n ?ys)" using assms(3) by (simp add: by_stake.set_sort_by)
  then have "y \<in> set (drop n ?ys)" using assms(4) unfolding set_append by (metis UnE imageI)
  moreover have "sorted_wrt (\<lambda>a b. stake_cmp a b \<noteq> Greater) (take n ?ys @ drop n ?ys)"
    using by_stake.sorted_sort_by [of xs] by simp
  ultimately have "stake_cmp x y \<noteq> Greater" using assms(2) by (simp only: sorted_wrt_append) blast
  moreover have "bd_owner x \<noteq> bd_owner y" using assms(2,4) by (metis imageI)
  ultimately show ?thesis by (auto simp: stake_cmp_Greater outranks_def)
qed

text \<open>
  C30. The collators of the next round are the candidates with the most stake: of a pool without duplicates
  the selection takes as many as it has room for, each once and in the order of their accounts, and every
  candidate it takes outranks every candidate it leaves out (more stake, or as much and a greater account). The code
  applies no minimum stake here.
\<close>

theorem selected_outrank_the_rest:
  assumes "owners_ordered (CandidatePool s)"
  shows "sorted (compute_top_candidates s) \<and> distinct (compute_top_candidates s) \<and>
    length (compute_top_candidates s) = min (TotalSelected s) (length (CandidatePool s)) \<and>
    set (compute_top_candidates s) \<subseteq> bd_owner ` set (CandidatePool s) \<and>
    (\<forall>x\<in>set (CandidatePool s). \<forall>y\<in>set (CandidatePool s).
       bd_owner x \<in> set (compute_top_candidates s) \<longrightarrow> bd_owner y \<notin> set (compute_top_candidates s) \<longrightarrow> outranks x y)"
proof -
  let ?p = "CandidatePool s" and ?n = "TotalSelected s" and ?ys = "sort_by stake_cmp (CandidatePool s)"
  have d: "distinct (map bd_owner ?p)" by (rule ordered_distinct [OF assms])
  have sorted: "sorted (map bd_owner ?p)"
    using assms by (simp add: owners_ordered_def sorted_wrt_map sorted_wrt_mono_rel [of _ "\<lambda>a b. bd_owner a < bd_owner b"])
  show ?thesis
  proof (cases "?n \<noteq> 0 \<and> ?n < length ?p")
    case True
    then have top: "compute_top_candidates s = sort (map bd_owner (take ?n ?ys))" by (simp add: compute_top_candidates_def Let_def)
    have m: "mset ?ys = mset ?p" by (rule by_stake.mset_sort_by)
    then have "mset (map bd_owner ?ys) = mset (map bd_owner ?p)" by simp
    then have "distinct (map bd_owner ?ys)" using d by (metis mset_eq_imp_distinct_iff)
    then have dt: "distinct (map bd_owner (take ?n ?ys))" by (simp flip: take_map)
    have len: "length ?ys = length ?p" using m by (metis size_mset)
    have rest: "outranks x y" if h: "x \<in> set ?p" "y \<in> set ?p" "bd_owner x \<in> bd_owner ` set (take ?n ?ys)"
      "bd_owner y \<notin> bd_owner ` set (take ?n ?ys)" for x y
    proof -
      obtain x' where x': "x' \<in> set (take ?n ?ys)" "bd_owner x = bd_owner x'" using h(3) by blast
      then have "x' \<in> set ?p" by (metis in_set_takeD by_stake.set_sort_by)
      then have "x' = x" using x'(2) h(1) d by (metis distinct_map inj_onD)
      then show ?thesis using taken_outrank [OF d x'(1) h(2,4)] by simp
    qed
    have "set (take ?n ?ys) \<subseteq> set ?p" using set_take_subset [of ?n ?ys] by (simp add: by_stake.set_sort_by)
    with True dt len rest show ?thesis by (auto simp: top)
  next
    case False
    then have "compute_top_candidates s = (if ?n = 0 then [] else map bd_owner ?p)"
      by (auto simp: compute_top_candidates_def Let_def)
    with False d sorted show ?thesis by auto
  qed
qed

theorem selected_outrank_the_rest_witness:
  "compute_top_candidates (demo_chain\<lparr>CandidatePool := [\<lparr>bd_owner = 1, bd_amount = 40\<rparr>, \<lparr>bd_owner = 2, bd_amount = 70\<rparr>]\<rparr>) = [2] \<and>
   outranks \<lparr>bd_owner = 2, bd_amount = 70\<rparr> \<lparr>bd_owner = 1, bd_amount = 40\<rparr>"
proof -
  let ?s = "demo_chain\<lparr>CandidatePool := [\<lparr>bd_owner = 1, bd_amount = 40\<rparr>, \<lparr>bd_owner = 2, bd_amount = 70\<rparr>]\<rparr>"
  have top: "compute_top_candidates ?s = [2]"
    by (simp add: compute_top_candidates_def demo_chain_def Let_def sort_by_def stake_cmp_def nat_cmp_def)
  have "owners_ordered (CandidatePool ?s)" by (simp add: owners_ordered_def)
  from selected_outrank_the_rest [OF this] top show ?thesis by auto
qed

section \<open>A decrease in the bottom list\<close>

text \<open>
  When a delegation in the bottom list of a candidate is decreased by \<open>k\<close>, the amounts of the list fall
  by \<open>k\<close> but the stored total of the list does not: after the call it is too large by \<open>k\<close> compared with the
  list, if it was right before. The total that a candidate's exit takes off the staked total is computed from it.
\<close>

theorem decrease_bottom_leaves_total:
  assumes "has_lists a t b s" "distinct (map bd_owner (dl_delegations b))" "\<lparr>bd_owner = who, bd_amount = n\<rparr> \<in> set (dl_delegations b)"
    "k \<le> n" "dl_total b = sum_of (dl_delegations b)"
  shows "\<exists>c' s' b'. decrease_bottom_delegation T a who k c s = (Inr (c', False), s') \<and> BottomDelegations s' a = Some b' \<and>
    dl_total b' = sum_of (dl_delegations b') + k"
proof -
  let ?b = "sort_greatest_to_least (b\<lparr>dl_delegations := change_bond who (\<lambda>n. n - k) (dl_delegations b)\<rparr>)"
  have m: "mset (dl_delegations b) = add_mset \<lparr>bd_owner = who, bd_amount = n\<rparr> (mset (without_owner who (dl_delegations b)))"
    using without_owner_split(1) [OF assms(2,3)] by simp
  have m': "mset (change_bond who (\<lambda>n. n - k) (dl_delegations b)) =
      add_mset \<lparr>bd_owner = who, bd_amount = n - k\<rparr> (mset (without_owner who (dl_delegations b)))"
    using change_bond_split [OF assms(2,3), of "\<lambda>n. n - k"] by simp
  have "mset (dl_delegations ?b) = mset (change_bond who (\<lambda>n. n - k) (dl_delegations b))"
    by (simp add: sort_greatest_to_least_def by_amount.mset_sort_by)
  then have "sum_of (dl_delegations ?b) = sum_of (\<lparr>bd_owner = who, bd_amount = n - k\<rparr> # without_owner who (dl_delegations b))"
    using m' by (intro sum_of_mset) simp
  moreover have "sum_of (dl_delegations b) = sum_of (\<lparr>bd_owner = who, bd_amount = n\<rparr> # without_owner who (dl_delegations b))"
    using m by (intro sum_of_mset) simp
  ultimately have "sum_of (dl_delegations ?b) + k = sum_of (dl_delegations b)" using assms(4) by (simp add: sum_of_def)
  moreover have "dl_total ?b = dl_total b" by (simp add: sort_greatest_to_least_def)
  moreover have "has_bond who (dl_delegations b)" using assms(3) by (force simp: has_bond_def)
  ultimately show ?thesis using assms(1,5)
    by (auto simp: decrease_bottom_delegation_def bottom_of_def put_bottom_def has_lists_def Let_def prog_defs)
qed

section \<open>What the payouts leave alone\<close>

text \<open>Bonding more does not touch the storage of the rounds, and neither does it report rewards.\<close>

definition same_rounds :: "('l, 'z) staking_state_scheme \<Rightarrow> ('l, 'z) staking_state_scheme \<Rightarrow> bool" where
  "same_rounds s s' \<longleftrightarrow> AtStake s' = AtStake s \<and> DelayedPayouts s' = DelayedPayouts s \<and> Points s' = Points s \<and>
     AwardedPts s' = AwardedPts s \<and> Round s' = Round s \<and> staking_events s' = staking_events s"


lemma keeps_same_rounds:
  "keeps (same_rounds s) (put_delegator d x)" "keeps (same_rounds s) (put_candidate a c)" "keeps (same_rounds s) (put_total n)"
  "keeps (same_rounds s) (put_top a y)" "keeps (same_rounds s) (put_bottom a y)" "keeps (same_rounds s) (update_active a n)"
  "keeps (same_rounds s) (on_ext m)"
  by (auto simp: keeps_def same_rounds_def staking_access_defs update_active_def prog_defs Let_def split: prod.splits)

lemma bond_more_same_rounds: "keeps (same_rounds s) (delegation_bond_more_without_event T who a n)"
  unfolding delegation_bond_more_without_event_def delegator_increase_delegation_def candidate_increase_delegation_def
    increase_top_delegation_def increase_bottom_delegation_def reset_top_data_def adjust_bond_lock_def st_hold_def st_release_def
    candidate_of_def delegator_of_def top_of_def bottom_of_def Let_def
  by (intro keeps_rules keeps_same_rounds)

section \<open>What is paid\<close>

text \<open>The rewards that have been reported, and programs that report at most a given amount more.\<close>

definition rewarded :: "('l, 'z) staking_state_scheme \<Rightarrow> nat" where
  "rewarded s = (\<Sum>e\<leftarrow>staking_events s. case e of RewardedEvent a n \<Rightarrow> n | _ \<Rightarrow> 0)"

definition pays_at_most :: "nat \<Rightarrow> ('l, 'z, 'a) sprog \<Rightarrow> bool" where
  "pays_at_most n m \<longleftrightarrow> (\<forall>s. rewarded (snd (m s)) \<le> rewarded s + n)"

lemma pays_sbind: "pays_at_most i m \<Longrightarrow> (\<And>a. pays_at_most j (f a)) \<Longrightarrow> pays_at_most (i + j) (sbind m f)"
proof -
  assume m: "pays_at_most i m" and f: "\<And>a. pays_at_most j (f a)"
  have "rewarded (snd (sbind m f s)) \<le> rewarded s + (i + j)" for s
  proof (cases "m s")
    case (Pair r t)
    then have "rewarded t \<le> rewarded s + i" using m [unfolded pays_at_most_def, rule_format, of s] by simp
    moreover have "rewarded (snd (f a t)) \<le> rewarded s + (i + j)" for a
      using f [unfolded pays_at_most_def, rule_format, of a t] calculation by linarith
    ultimately show ?thesis using Pair by (cases r) (auto simp: sbind_def intro: le_trans)
  qed
  then show ?thesis by (simp add: pays_at_most_def)
qed

lemma pays_mono: "pays_at_most i m \<Longrightarrow> i \<le> j \<Longrightarrow> pays_at_most j m"
  by (auto simp: pays_at_most_def intro: order_trans)

lemma pays_seq: "pays_at_most i m \<Longrightarrow> pays_at_most j n \<Longrightarrow> pays_at_most (i + j) (seq m n)"
  by (simp add: seq_def pays_sbind)

lemma pays_nothing:
  "pays_at_most 0 (ok a)" "pays_at_most 0 (gets g)" "(\<And>s. staking_events (h s) = staking_events s) \<Longrightarrow> pays_at_most 0 (modify h)"
  "(\<And>s. staking_events (snd (m s)) = staking_events s) \<Longrightarrow> pays_at_most 0 m"
  by (simp_all add: pays_at_most_def prog_defs rewarded_def)

lemma pays_if: "pays_at_most i m \<Longrightarrow> pays_at_most i n \<Longrightarrow> pays_at_most i (if c then m else n)"
  by simp

lemma pays_for_each: "(\<And>x. x \<in> set xs \<Longrightarrow> pays_at_most (k x) (f x)) \<Longrightarrow> pays_at_most (\<Sum>x\<leftarrow>xs. k x) (for_each xs f)"
proof (induction xs)
  case Nil
  then show ?case by (simp add: pays_nothing)
next
  case (Cons x xs)
  then have "pays_at_most (k x + (\<Sum>x\<leftarrow>xs. k x)) (seq (f x) (for_each xs f))" by (intro pays_seq) auto
  then show ?case by simp
qed

text \<open>The currency reports what it transferred.\<close>

definition transfer_exact :: "'l currency \<Rightarrow> bool" where
  "transfer_exact C \<longleftrightarrow> (\<forall>a b n p l k l'. c_transfer C a b n p l = (Inr k, l') \<longrightarrow> k = n)"

lemma pay_from_master_cases:
  assumes "transfer_exact (st_currency T)"
  shows "\<exists>l r. pay_from_master T a n s = (r, s\<lparr>ext := l\<rparr>) \<and> (\<forall>k. r = Inr (Some k) \<longrightarrow> k = n)"
proof (cases "c_transfer (st_currency T) (PayMaster T) a n Preserve (ext s)")
  case (Pair r l)
  then have "k = n" if "r = Inr k" for k using assms that unfolding transfer_exact_def by blast
  with Pair show ?thesis by (cases r) (auto simp: pay_from_master_def attempt_def on_ext_def)
qed

lemma rewarded_simps:
  "rewarded (s\<lparr>ext := l\<rparr>) = rewarded s" "rewarded (s\<lparr>AtStake := y\<rparr>) = rewarded s" "rewarded (s\<lparr>AwardedPts := z\<rparr>) = rewarded s"
  "rewarded (s\<lparr>staking_events := es @ [e]\<rparr>) = (\<Sum>e\<leftarrow>es. case e of RewardedEvent a n \<Rightarrow> n | _ \<Rightarrow> 0) + (case e of RewardedEvent a n \<Rightarrow> n | _ \<Rightarrow> 0)"
  by (simp_all add: rewarded_def)

lemma pays_reward:
  assumes "transfer_exact (st_currency T)" "\<And>k. pays_at_most 0 (f k)"
  shows "pays_at_most n (sbind (pay_from_master T a n) (\<lambda>paid. case paid of None \<Rightarrow> ok ()
    | Some k \<Rightarrow> seq (deposit_staking_event (RewardedEvent a k)) (f k)))"
  unfolding pays_at_most_def
proof
  fix s :: "('a, 'c) staking_state_scheme"
  obtain l r where r: "pay_from_master T a n s = (r, s\<lparr>ext := l\<rparr>)" "\<And>k. r = Inr (Some k) \<Longrightarrow> k = n"
    using pay_from_master_cases [OF assms(1)] by blast
  consider (e) e where "r = Inl e" | (n) "r = Inr None" | (s) "r = Inr (Some n)"
  proof (cases r)
    case (Inr x)
    then show ?thesis using that r(2) by (cases x) auto
  qed blast
  then show "rewarded (snd (sbind (pay_from_master T a n) (\<lambda>paid. case paid of None \<Rightarrow> ok ()
      | Some k \<Rightarrow> seq (deposit_staking_event (RewardedEvent a k)) (f k)) s)) \<le> rewarded s + n"
  proof cases
    case s
    let ?t = "s\<lparr>ext := l, staking_events := staking_events s @ [RewardedEvent a n]\<rparr>"
    have "rewarded ?t = rewarded s + n" by (simp add: rewarded_def)
    moreover have "rewarded (snd (f n ?t)) \<le> rewarded ?t" using assms(2) [of n] by (simp add: pays_at_most_def)
    ultimately show ?thesis using s r(1) by (simp add: prog_defs deposit_staking_event_def)
  qed (use r(1) in \<open>simp_all add: prog_defs rewarded_simps\<close>)
qed

lemma bond_more_pays_nothing: "pays_at_most 0 (attempt (delegation_bond_more_without_event T who a n))"
proof (rule pays_nothing(4))
  fix s :: "('a, 'b) staking_state_scheme"
  have "same_rounds s (snd (attempt (delegation_bond_more_without_event T who a n) s))"
    using keeps_attempt [OF bond_more_same_rounds, of s T who a n] by (auto simp: keeps_def same_rounds_def)
  then show "staking_events (snd (attempt (delegation_bond_more_without_event T who a n) s)) = staking_events s"
    by (simp add: same_rounds_def)
qed

lemma mint_and_compound_pays:
  assumes "transfer_exact (st_currency T)"
  shows "pays_at_most n (mint_and_compound T n p a who)"
  unfolding mint_and_compound_def
proof (rule pays_reward [OF assms])
  fix k
  have "pays_at_most (0 + 0) (sbind (attempt (delegation_bond_more_without_event T who a (percent_mul_ceil T p k))) (\<lambda>compounded.
          case compounded of None \<Rightarrow> ok () | Some _ \<Rightarrow> deposit_staking_event (Compounded a who (percent_mul_ceil T p k))))"
    by (intro pays_sbind bond_more_pays_nothing)
       (auto simp: pays_at_most_def prog_defs deposit_staking_event_def rewarded_def split: option.splits)
  then show "pays_at_most 0 (let compound_amount = percent_mul_ceil T p k in if compound_amount = 0 then ok () else
          sbind (attempt (delegation_bond_more_without_event T who a compound_amount)) (\<lambda>compounded.
          case compounded of None \<Rightarrow> ok () | Some _ \<Rightarrow> deposit_staking_event (Compounded a who compound_amount)))"
    unfolding Let_def by (intro pays_if pays_nothing(1)) simp
qed

lemma payout_collator_pays:
  assumes "transfer_exact (st_currency T)"
  shows "pays_at_most n (payout_collator_reward T r a n)"
proof -
  have eq: "payout_collator_reward T r a n = sbind (pay_from_master T a n) (\<lambda>paid. case paid of None \<Rightarrow> ok ()
    | Some k \<Rightarrow> seq (deposit_staking_event (RewardedEvent a k)) (ok ()))"
    by (auto simp: payout_collator_reward_def mint_collator_reward_def prog_defs deposit_staking_event_def fun_eq_iff
        split: prod.splits sum.splits option.splits)
  show ?thesis unfolding eq by (rule pays_reward [OF assms pays_nothing(1)])
qed

text \<open>
  The documented arithmetic of \<^verbatim>\<open>Perbill\<close>: a product is rounded to the nearest integer, is monotone and not
  above the factor for a proper part; \<^verbatim>\<open>from_rational\<close> rounds down and never exceeds one.
\<close>

definition perbill_laws :: "('l, 'c) staking_config_scheme \<Rightarrow> bool" where
  "perbill_laws T \<longleftrightarrow>
     (\<forall>p n. 2 * 10 ^ 9 * perbill_mul T p n \<le> 2 * p * n + 10 ^ 9) \<and>
     (\<forall>p n. p \<le> 10 ^ 9 \<longrightarrow> perbill_mul T p n \<le> n) \<and> (\<forall>p m n. m \<le> n \<longrightarrow> perbill_mul T p m \<le> perbill_mul T p n) \<and>
     (\<forall>p q. perbill_from_rational T p q * max q 1 \<le> min p (max q 1) * 10 ^ 9)"

lemma perbill_lawsD:
  assumes "perbill_laws T"
  shows "2 * 10 ^ 9 * perbill_mul T p n \<le> 2 * p * n + 10 ^ 9" "p \<le> 10 ^ 9 \<Longrightarrow> perbill_mul T p n \<le> n"
    "m \<le> n \<Longrightarrow> perbill_mul T p m \<le> perbill_mul T p n"
    "perbill_from_rational T k q * max q 1 \<le> min k (max q 1) * 10 ^ 9"
  using assms by (simp_all add: perbill_laws_def)

text \<open>Parts of a whole, each rounded down: their sum is at most one.\<close>

lemma parts_sum:
  assumes "perbill_laws T" "sum_list ks \<le> q"
  shows "(\<Sum>k\<leftarrow>ks. perbill_from_rational T k q) \<le> 10 ^ 9"
proof -
  have "(\<Sum>k\<leftarrow>ks. perbill_from_rational T k q) * max q 1 \<le> sum_list ks * 10 ^ 9"
  proof (induction ks)
    case (Cons k ks)
    have "perbill_from_rational T k q * max q 1 \<le> k * 10 ^ 9"
      using perbill_lawsD(4) [OF assms(1), of k q] by (meson min.cobounded1 mult_le_mono1 order_trans)
    with Cons.IH show ?case by (simp add: algebra_simps)
  qed simp
  also have "\<dots> \<le> max q 1 * 10 ^ 9" using assms(2) by simp
  finally have "(\<Sum>k\<leftarrow>ks. perbill_from_rational T k q) * max q 1 \<le> 10 ^ 9 * max q 1" by (simp add: mult.commute)
  then show ?thesis by (rule mult_le_cancel2 [THEN iffD1, rule_format]) simp
qed

lemma shares_sum:
  assumes "perbill_laws T" "(\<Sum>p\<leftarrow>ps. p) \<le> 10 ^ 9"
  shows "2 * (\<Sum>p\<leftarrow>ps. perbill_mul T p n) \<le> 2 * n + length ps"
proof -
  have "2 * 10 ^ 9 * (\<Sum>p\<leftarrow>ps. perbill_mul T p n) \<le> 2 * (\<Sum>p\<leftarrow>ps. p) * n + length ps * 10 ^ 9"
  proof (induction ps)
    case (Cons p ps)
    with perbill_lawsD(1) [OF assms(1), of p n] show ?case by (simp add: algebra_simps)
  qed simp
  also have "\<dots> \<le> 2 * 10 ^ 9 * n + length ps * 10 ^ 9" using assms(2) by (intro add_mono mult_mono) simp_all
  finally have "10 ^ 9 * (2 * (\<Sum>p\<leftarrow>ps. perbill_mul T p n)) \<le> 10 ^ 9 * (2 * n + length ps)" by (simp add: algebra_simps)
  then show ?thesis by (rule mult_le_cancel1 [THEN iffD1, rule_format]) simp
qed

lemma pay_delegators_pays:
  assumes "transfer_exact (st_currency T)"
  shows "pays_at_most (\<Sum>d\<leftarrow>ds. perbill_mul T (perbill_from_rational T (ba_amount d) q) n) (pay_delegators T a q n ds)"
  unfolding pay_delegators_def Let_def
  by (intro pays_for_each) (auto intro: mint_and_compound_pays [OF assms] pays_mono [OF pays_nothing(1)])

lemma pays_after_modify:
  assumes "pays_at_most k m" "\<And>s. staking_events (h s) = staking_events s"
  shows "rewarded (snd (seq (modify h) m s)) \<le> rewarded s + k"
  using pays_seq [OF pays_nothing(3) [OF assms(2)] assms(1)] by (simp add: pays_at_most_def)

text \<open>The payment of a collator with delegators: the commission, its own share, and the delegators' shares.\<close>

definition share_total :: "('l, 'c) staking_config_scheme \<Rightarrow> collator_snapshot \<Rightarrow> nat \<Rightarrow> nat" where
  "share_total T sn amt_due =
     perbill_mul T (perbill_from_rational T (sn_bond sn) (sn_total sn)) amt_due +
     (\<Sum>d\<leftarrow>sn_delegations sn. perbill_mul T (perbill_from_rational T (ba_amount d) (sn_total sn)) amt_due)"

lemma share_total_bound:
  assumes "perbill_laws T" "sn_bond sn + (\<Sum>d\<leftarrow>sn_delegations sn. ba_amount d) \<le> sn_total sn"
  shows "2 * share_total T sn n \<le> 2 * n + Suc (length (sn_delegations sn))"
proof -
  let ?ps = "map (\<lambda>k. perbill_from_rational T k (sn_total sn)) (sn_bond sn # map ba_amount (sn_delegations sn))"
  have "(\<Sum>p\<leftarrow>?ps. p) \<le> 10 ^ 9" using parts_sum [OF assms(1), of "sn_bond sn # map ba_amount (sn_delegations sn)"] assms(2) by simp
  from shares_sum [OF assms(1) this, of n] show ?thesis by (simp add: share_total_def comp_def)
qed

definition collator_due :: "('l, 'c) staking_config_scheme \<Rightarrow> nat \<Rightarrow> delayed_payout \<Rightarrow> account \<Rightarrow> ('l, 'z) staking_state_scheme \<Rightarrow> nat" where
  "collator_due T r info a s =
     perbill_mul T (perbill_from_rational T (AwardedPts s (r, a)) (Points s r)) (dy_total_staking_reward info)"

definition pay_collator ::
    "('l, 'c) staking_config_scheme \<Rightarrow> nat \<Rightarrow> account \<Rightarrow> collator_snapshot \<Rightarrow> nat \<Rightarrow> nat \<Rightarrow> ('l, 'z, reward_payment) sprog" where
  "pay_collator T r a sn total_paid commission =
     (if sn_delegations sn = []
      then seq (payout_collator_reward T r a total_paid)
             (seq (notify_collator_payout T r a total_paid) (ok Paid))
      else
        let amt_due = saturating_sub total_paid commission;
            reward = saturating_add (perbill_mul T (perbill_from_rational T (sn_bond sn) (sn_total sn)) amt_due) commission
        in seq (payout_collator_reward T r a reward)
             (seq (notify_collator_payout T r a reward)
             (seq (pay_delegators T a (sn_total sn) amt_due (sn_delegations sn)) (ok Paid))))"

text \<open>One step of the payouts: the snapshot and the points of one collator are taken, and it is paid once.\<close>

lemma pay_one_eq:
  assumes "snapshots_of r s = (a, sn) # rest" "Points s r \<noteq> 0"
  shows "pay_one_collator_reward T r info s =
    (let s1 = s\<lparr>AtStake := nmap_remove (r, a) (AtStake s), AwardedPts := (AwardedPts s)((r, a) := 0)\<rparr> in
     if AwardedPts s (r, a) = 0 then (Inr Skipped, s1)
     else pay_collator T r a sn (collator_due T r info a s)
       (perbill_mul T (perbill_from_rational T (AwardedPts s (r, a)) (Points s r))
          (perbill_mul T (dy_collator_commission info) (dy_round_issuance info))) s1)"
  using assms by (simp add: pay_one_collator_reward_def pay_collator_def collator_due_def prog_defs Let_def)

lemma payment_arith:
  "x \<le> w + (y + z) \<Longrightarrow> y \<le> v + c \<Longrightarrow> 2 * (v + z) \<le> 2 * m + k \<Longrightarrow> m + c = t \<Longrightarrow> 2 * x \<le> 2 * w + 2 * t + k"
  for x w y z v c m k t :: nat
  by (simp add: algebra_simps)

lemma pay_collator_pays:
  fixes s :: "('l, 'z) staking_state_scheme"
  assumes laws: "perbill_laws T" "transfer_exact (st_currency T)" and com: "commission \<le> total_paid"
    and sn: "sn_bond sn + (\<Sum>d\<leftarrow>sn_delegations sn. ba_amount d) \<le> sn_total sn"
  shows "2 * rewarded (snd (pay_collator T r a sn total_paid commission s)) \<le>
    2 * rewarded s + 2 * total_paid + Suc (length (sn_delegations sn))"
proof (cases "sn_delegations sn = []")
  case True
  have "pays_at_most (total_paid + (0 + 0)) (pay_collator T r a sn total_paid commission :: ('l, 'z, reward_payment) sprog)"
    unfolding pay_collator_def if_P [OF True] notify_collator_payout_def
    by (intro pays_seq payout_collator_pays laws pays_nothing) simp
  then have "rewarded (snd (pay_collator T r a sn total_paid commission s)) \<le> rewarded s + total_paid"
    by (simp add: pays_at_most_def)
  then show ?thesis by simp
next
  case False
  let ?amt = "total_paid - commission"
  let ?own = "perbill_mul T (perbill_from_rational T (sn_bond sn) (sn_total sn)) ?amt"
  let ?rest = "\<Sum>d\<leftarrow>sn_delegations sn. perbill_mul T (perbill_from_rational T (ba_amount d) (sn_total sn)) ?amt"
  have sub: "saturating_sub total_paid commission = ?amt" by simp
  have "pays_at_most (saturating_add ?own commission + (0 + (?rest + 0)))
      (pay_collator T r a sn total_paid commission :: ('l, 'z, reward_payment) sprog)"
    unfolding pay_collator_def if_not_P [OF False] notify_collator_payout_def Let_def sub
    by (intro pays_seq payout_collator_pays pay_delegators_pays laws pays_nothing) simp
  then have "rewarded (snd (pay_collator T r a sn total_paid commission s)) \<le> rewarded s + (saturating_add ?own commission + ?rest)"
    by (simp add: pays_at_most_def)
  moreover have "saturating_add ?own commission \<le> ?own + commission" by (simp add: saturating_add_def)
  moreover have "2 * (?own + ?rest) \<le> 2 * ?amt + Suc (length (sn_delegations sn))"
    using share_total_bound [OF laws(1) sn, of ?amt] by (simp add: share_total_def)
  moreover have "?amt + commission = total_paid" using com by simp
  ultimately show ?thesis by (rule payment_arith)
qed

text \<open>
  C12. What one step of the payouts pays out, to a collator and its delegators together, is at most the
  collator's share of the round's reward by its points, plus half a unit for each recipient, the rounding
  of the \<^verbatim>\<open>Perbill\<close> products.
\<close>

theorem collator_payout_bounded:
  assumes "perbill_laws T" "transfer_exact (st_currency T)" "snapshots_of r s = (a, sn) # rest"
    "sn_bond sn + (\<Sum>d\<leftarrow>sn_delegations sn. ba_amount d) \<le> sn_total sn"
    "dy_collator_commission info \<le> 10 ^ 9" "dy_round_issuance info \<le> dy_total_staking_reward info"
  shows "2 * rewarded (snd (pay_one_collator_reward T r info s)) \<le>
    2 * rewarded s + 2 * collator_due T r info a s + Suc (length (sn_delegations sn))"
proof (cases "Points s r = 0 \<or> AwardedPts s (r, a) = 0")
  case True
  then have "staking_events (snd (pay_one_collator_reward T r info s)) = staking_events s"
    by (cases "Points s r = 0") (simp_all add: pay_one_collator_reward_def prog_defs assms(3) Let_def)
  then show ?thesis by (simp add: rewarded_def)
next
  case False
  let ?c = "perbill_mul T (perbill_from_rational T (AwardedPts s (r, a)) (Points s r))
      (perbill_mul T (dy_collator_commission info) (dy_round_issuance info))"
  let ?s1 = "s\<lparr>AtStake := nmap_remove (r, a) (AtStake s), AwardedPts := (AwardedPts s)((r, a) := 0)\<rparr>"
  have "perbill_mul T (dy_collator_commission info) (dy_round_issuance info) \<le> dy_total_staking_reward info"
    using perbill_lawsD(2) [OF assms(1,5), of "dy_round_issuance info"] assms(6) by (rule order_trans)
  then have "?c \<le> collator_due T r info a s" unfolding collator_due_def by (rule perbill_lawsD(3) [OF assms(1)])
  from pay_collator_pays [OF assms(1,2) this assms(4), of r a ?s1] pay_one_eq [OF assms(3), of T info] False
  show ?thesis by (simp add: rewarded_simps(1-3) Let_def)
qed

section \<open>The payouts of a round come to an end\<close>








text \<open>The currency reports errors, it does not panic.\<close>

definition currency_reports :: "'l currency \<Rightarrow> bool" where
  "currency_reports C \<longleftrightarrow> (\<forall>a b n p l. fst (c_transfer C a b n p l) \<noteq> Inl Panic) \<and>
     (\<forall>r a n l. fst (c_hold C r a n l) \<noteq> Inl Panic) \<and> (\<forall>r a n p l. fst (c_release C r a n p l) \<noteq> Inl Panic)"
















section \<open>The small runtime at work\<close>

definition demo_snapshot :: collator_snapshot where
  "demo_snapshot = \<lparr>sn_bond = 50, sn_delegations = [\<lparr>ba_owner = 2, ba_amount = 20, ba_auto_compound = 0\<rparr>], sn_total = 70\<rparr>"

definition demo_payout :: delayed_payout where
  "demo_payout = \<lparr>dy_round_issuance = 30, dy_total_staking_reward = 30, dy_collator_commission = 10 ^ 8\<rparr>"

definition demo_rewarding :: "plain_ledger staking_state" where
  "demo_rewarding = demo_delegated\<lparr>AtStake := [((1, 1), demo_snapshot)], DelayedPayouts := [1 \<mapsto> demo_payout],
     Points := (\<lambda>_. 0)(1 := 20), AwardedPts := (\<lambda>_. 0)((1, 1) := 20)\<rparr>"

lemma demo_snapshots: "snapshots_of 1 demo_rewarding = [(1, demo_snapshot)]"
  by (simp add: snapshots_of_def demo_rewarding_def)

lemma demo_perbill_laws: "perbill_laws demo_staking"
proof -
  have "2 * 10 ^ 9 * (p * n div 10 ^ 9) \<le> 2 * p * n + 10 ^ 9" for p n :: nat
    using times_div_less_eq_dividend [of "10 ^ 9" "p * n"] by simp
  moreover have "p * n div 10 ^ 9 \<le> n" if "p \<le> 10 ^ 9" for p n :: nat
    using div_le_mono [OF mult_le_mono1 [OF that, of n], of "10 ^ 9"] by simp
  ultimately show ?thesis
    by (simp add: perbill_laws_def demo_staking_def div_le_mono del: power_numeral)
qed

lemma demo_currency: "transfer_exact (st_currency demo_staking)" "currency_reports (st_currency demo_staking)"
  by (auto simp: transfer_exact_def currency_reports_def plain_currency_def plain_transfer_def plain_hold_def plain_release_def
      Let_def split: if_splits)

theorem collator_payout_bounded_witness:
  "2 * rewarded (snd (pay_one_collator_reward demo_staking 1 demo_payout demo_rewarding)) \<le> 2 * rewarded demo_rewarding + 2 * 30 + 2"
proof -
  have "collator_due demo_staking 1 demo_payout 1 demo_rewarding = 30"
    by (simp add: collator_due_def demo_staking_def demo_rewarding_def demo_payout_def)
  with collator_payout_bounded [OF demo_perbill_laws demo_currency(1) demo_snapshots, of demo_payout] show ?thesis
    by (simp add: demo_snapshot_def demo_payout_def)
qed


end
