(* ===== verification/Democracy_Types.thy ===== *)
theory Democracy_Types
  imports Frame Sorted_Vectors "HOL-Library.Word"
begin

unbundle bit_operations_syntax

text \<open>
  The data of the pallet \<^verbatim>\<open>democracy\<close> (\<^verbatim>\<open>src/pallets/democracy/src\<close>): convictions (\<^verbatim>\<open>conviction.rs\<close>), votes,
  their one-byte encoding and the voting record of an account (\<^verbatim>\<open>vote.rs\<close>), the thresholds a referendum is
  decided by (\<^verbatim>\<open>vote_threshold.rs\<close>) and the tally (\<^verbatim>\<open>types.rs\<close>). Balances are \<open>u128\<close>, block numbers and
  indices \<open>u32\<close>.
\<close>

section \<open>Conviction\<close>

datatype conviction =
    NoConviction | Locked1x | Locked2x | Locked3x | Locked4x | Locked5x | Locked6x

fun u8_from :: "conviction \<Rightarrow> nat" where
  "u8_from NoConviction = 0"
| "u8_from Locked1x = 1"
| "u8_from Locked2x = 2"
| "u8_from Locked3x = 3"
| "u8_from Locked4x = 4"
| "u8_from Locked5x = 5"
| "u8_from Locked6x = 6"

definition conviction_try_from :: "nat \<Rightarrow> conviction option" where
  "conviction_try_from i =
     (if i = 0 then Some NoConviction
      else if i = 1 then Some Locked1x
      else if i = 2 then Some Locked2x
      else if i = 3 then Some Locked3x
      else if i = 4 then Some Locked4x
      else if i = 5 then Some Locked5x
      else if i = 6 then Some Locked6x
      else None)"

fun lock_periods :: "conviction \<Rightarrow> nat" where
  "lock_periods NoConviction = 0"
| "lock_periods Locked1x = 1"
| "lock_periods Locked2x = 2"
| "lock_periods Locked3x = 4"
| "lock_periods Locked4x = 8"
| "lock_periods Locked5x = 16"
| "lock_periods Locked6x = 32"

text \<open>\<^verbatim>\<open>Delegations\<close>: votes after conviction, and the capital behind them.\<close>

record vote_delegations =
  dv_votes :: nat
  dv_capital :: nat

definition no_delegations :: vote_delegations where
  "no_delegations = \<lparr>dv_votes = 0, dv_capital = 0\<rparr>"

definition delegations_saturating_add :: "vote_delegations \<Rightarrow> vote_delegations \<Rightarrow> vote_delegations" where
  "delegations_saturating_add d o' =
     \<lparr>dv_votes = saturating_add (dv_votes d) (dv_votes o'),
      dv_capital = saturating_add (dv_capital d) (dv_capital o')\<rparr>"

definition delegations_saturating_sub :: "vote_delegations \<Rightarrow> vote_delegations \<Rightarrow> vote_delegations" where
  "delegations_saturating_sub d o' =
     \<lparr>dv_votes = saturating_sub (dv_votes d) (dv_votes o'),
      dv_capital = saturating_sub (dv_capital d) (dv_capital o')\<rparr>"

definition conviction_votes :: "conviction \<Rightarrow> nat \<Rightarrow> vote_delegations" where
  "conviction_votes c capital =
     \<lparr>dv_votes =
        (case c of
           NoConviction \<Rightarrow> (case checked_div capital 10 of Some v \<Rightarrow> v | None \<Rightarrow> 0)
         | _ \<Rightarrow> (case checked_mul capital (u8_from c) of Some v \<Rightarrow> v | None \<Rightarrow> u128_max)),
      dv_capital = capital\<rparr>"

section \<open>Votes\<close>

record ref_vote =
  rv_aye :: bool
  rv_conviction :: conviction

text \<open>The byte of a vote: bit 7 is the side, the other bits are the conviction.\<close>

definition vote_encode :: "ref_vote \<Rightarrow> 8 word" where
  "vote_encode v = word_of_nat (u8_from (rv_conviction v)) OR (if rv_aye v then 0b10000000 else 0)"

definition vote_decode :: "8 word \<Rightarrow> ref_vote option" where
  "vote_decode b =
     (case conviction_try_from (unat (b AND 0b01111111)) of
        Some c \<Rightarrow> Some \<lparr>rv_aye = (b AND 0b10000000 = 0b10000000), rv_conviction = c\<rparr>
      | None \<Rightarrow> None)"

datatype account_vote = Standard ref_vote nat | Split nat nat

definition locked_if :: "account_vote \<Rightarrow> bool \<Rightarrow> (nat \<times> nat) option" where
  "locked_if v approved =
     (case v of
        Standard vote balance \<Rightarrow>
          if rv_aye vote = approved then Some (lock_periods (rv_conviction vote), balance) else None
      | Split _ _ \<Rightarrow> None)"

definition vote_balance :: "account_vote \<Rightarrow> nat" where
  "vote_balance v =
     (case v of Standard _ balance \<Rightarrow> balance | Split aye nay \<Rightarrow> saturating_add aye nay)"

definition as_standard :: "account_vote \<Rightarrow> bool option" where
  "as_standard v = (case v of Standard vote _ \<Rightarrow> Some (rv_aye vote) | Split _ _ \<Rightarrow> None)"

section \<open>Locks and the voting record of an account\<close>

record prior_lock =
  pl_until :: nat
  pl_amount :: nat

definition no_prior :: prior_lock where
  "no_prior = \<lparr>pl_until = 0, pl_amount = 0\<rparr>"

definition accumulate :: "nat \<Rightarrow> nat \<Rightarrow> prior_lock \<Rightarrow> prior_lock" where
  "accumulate until' amount p = \<lparr>pl_until = max (pl_until p) until', pl_amount = max (pl_amount p) amount\<rparr>"

definition prior_rejig :: "nat \<Rightarrow> prior_lock \<Rightarrow> prior_lock" where
  "prior_rejig now p = (if now \<ge> pl_until p then no_prior else p)"

datatype voting =
    Direct "(nat \<times> account_vote) list" vote_delegations prior_lock
  | Delegating nat account conviction vote_delegations prior_lock

definition voting_default :: voting where
  "voting_default = Direct [] no_delegations no_prior"

fun voting_rejig :: "nat \<Rightarrow> voting \<Rightarrow> voting" where
  "voting_rejig now (Direct votes d p) = Direct votes d (prior_rejig now p)"
| "voting_rejig now (Delegating b t c d p) = Delegating b t c d (prior_rejig now p)"

fun locked_balance :: "voting \<Rightarrow> nat" where
  "locked_balance (Direct votes d p) = fold (\<lambda>i a. max a (vote_balance (snd i))) votes (pl_amount p)"
| "locked_balance (Delegating b t c d p) = max b (pl_amount p)"

fun set_common :: "vote_delegations \<Rightarrow> prior_lock \<Rightarrow> voting \<Rightarrow> voting" where
  "set_common d' p' (Direct votes d p) = Direct votes d' p'"
| "set_common d' p' (Delegating b t c d p) = Delegating b t c d' p'"

fun voting_prior :: "voting \<Rightarrow> prior_lock" where
  "voting_prior (Direct votes d p) = p"
| "voting_prior (Delegating b t c d p) = p"

section \<open>Tallies\<close>

record tally =
  ayes :: nat
  nays :: nat
  turnout :: nat

definition no_tally :: tally where
  "no_tally = \<lparr>ayes = 0, nays = 0, turnout = 0\<rparr>"

definition tally_new :: "ref_vote \<Rightarrow> nat \<Rightarrow> tally" where
  "tally_new vote balance =
     (let d = conviction_votes (rv_conviction vote) balance in
      \<lparr>ayes = (if rv_aye vote then dv_votes d else 0),
       nays = (if rv_aye vote then 0 else dv_votes d),
       turnout = dv_capital d\<rparr>)"

definition tally_add :: "account_vote \<Rightarrow> tally \<Rightarrow> tally option" where
  "tally_add v t =
     (case v of
        Standard vote balance \<Rightarrow>
          (let d = conviction_votes (rv_conviction vote) balance in
           Option.bind (checked_add (turnout t) (dv_capital d)) (\<lambda>n.
           if rv_aye vote
           then Option.bind (checked_add (ayes t) (dv_votes d)) (\<lambda>a. Some (t\<lparr>turnout := n, ayes := a\<rparr>))
           else Option.bind (checked_add (nays t) (dv_votes d)) (\<lambda>a. Some (t\<lparr>turnout := n, nays := a\<rparr>))))
      | Split aye nay \<Rightarrow>
          (let aye = conviction_votes NoConviction aye; nay = conviction_votes NoConviction nay in
           Option.bind (checked_add (turnout t) (dv_capital aye)) (\<lambda>n.
           Option.bind (checked_add n (dv_capital nay)) (\<lambda>n.
           Option.bind (checked_add (ayes t) (dv_votes aye)) (\<lambda>a.
           Option.bind (checked_add (nays t) (dv_votes nay)) (\<lambda>b.
           Some \<lparr>ayes = a, nays = b, turnout = n\<rparr>))))))"

definition tally_remove :: "account_vote \<Rightarrow> tally \<Rightarrow> tally option" where
  "tally_remove v t =
     (case v of
        Standard vote balance \<Rightarrow>
          (let d = conviction_votes (rv_conviction vote) balance in
           Option.bind (checked_sub (turnout t) (dv_capital d)) (\<lambda>n.
           if rv_aye vote
           then Option.bind (checked_sub (ayes t) (dv_votes d)) (\<lambda>a. Some (t\<lparr>turnout := n, ayes := a\<rparr>))
           else Option.bind (checked_sub (nays t) (dv_votes d)) (\<lambda>a. Some (t\<lparr>turnout := n, nays := a\<rparr>))))
      | Split aye nay \<Rightarrow>
          (let aye = conviction_votes NoConviction aye; nay = conviction_votes NoConviction nay in
           Option.bind (checked_sub (turnout t) (dv_capital aye)) (\<lambda>n.
           Option.bind (checked_sub n (dv_capital nay)) (\<lambda>n.
           Option.bind (checked_sub (ayes t) (dv_votes aye)) (\<lambda>a.
           Option.bind (checked_sub (nays t) (dv_votes nay)) (\<lambda>b.
           Some \<lparr>ayes = a, nays = b, turnout = n\<rparr>))))))"

definition tally_increase :: "bool \<Rightarrow> vote_delegations \<Rightarrow> tally \<Rightarrow> tally" where
  "tally_increase approve d t =
     (let t = t\<lparr>turnout := saturating_add (turnout t) (dv_capital d)\<rparr> in
      if approve then t\<lparr>ayes := saturating_add (ayes t) (dv_votes d)\<rparr>
      else t\<lparr>nays := saturating_add (nays t) (dv_votes d)\<rparr>)"

definition tally_reduce :: "bool \<Rightarrow> vote_delegations \<Rightarrow> tally \<Rightarrow> tally" where
  "tally_reduce approve d t =
     (let t = t\<lparr>turnout := saturating_sub (turnout t) (dv_capital d)\<rparr> in
      if approve then t\<lparr>ayes := saturating_sub (ayes t) (dv_votes d)\<rparr>
      else t\<lparr>nays := saturating_sub (nays t) (dv_votes d)\<rparr>)"

section \<open>Thresholds\<close>

datatype vote_threshold = SuperMajorityApprove | SuperMajorityAgainst | SimpleMajority

text \<open>
  \<^verbatim>\<open>compare_rationals\<close>: \<open>n1 / d1 < n2 / d2\<close> by comparing continued fractions, so that nothing is multiplied.
  \<open>None\<close> is the panic of a division by zero.
\<close>

function compare_rationals :: "nat \<Rightarrow> nat \<Rightarrow> nat \<Rightarrow> nat \<Rightarrow> bool option" where
  "compare_rationals n1 d1 n2 d2 =
     (if d1 = 0 \<or> d2 = 0 then None
      else
        let q1 = n1 div d1; q2 = n2 div d2 in
        if q1 < q2 then Some True
        else if q2 < q1 then Some False
        else
          let r1 = n1 mod d1; r2 = n2 mod d2 in
          if r2 = 0 then Some False
          else if r1 = 0 then Some True
          else compare_rationals d2 r2 d1 r1)"
  by pat_completeness auto
termination
  by (relation "measure (\<lambda>(n1, d1, n2, d2). d1 + d2)")
     (auto intro!: add_less_mono simp: add.commute)

declare compare_rationals.simps [simp del]

text \<open>The integer square root (\<^verbatim>\<open>IntegerSquareRoot\<close>) is the parameter \<open>isqrt\<close>.\<close>

definition threshold_approved :: "(nat \<Rightarrow> nat) \<Rightarrow> vote_threshold \<Rightarrow> tally \<Rightarrow> nat \<Rightarrow> bool option" where
  "threshold_approved isqrt threshold t electorate =
     (let sqrt_voters = isqrt (turnout t); sqrt_electorate = isqrt electorate in
      if sqrt_voters = 0 then Some False
      else case threshold of
        SuperMajorityApprove \<Rightarrow> compare_rationals (nays t) sqrt_voters (ayes t) sqrt_electorate
      | SuperMajorityAgainst \<Rightarrow> compare_rationals (nays t) sqrt_electorate (ayes t) sqrt_voters
      | SimpleMajority \<Rightarrow> Some (ayes t > nays t))"

section \<open>Referenda\<close>

text \<open>A proposal is a call that is stored elsewhere; it is known by the number \<open>bounded_call\<close>.\<close>

type_synonym bounded_call = nat
type_synonym call_hash = nat

record referendum_status =
  rf_end :: nat
  rf_proposal :: bounded_call
  rf_threshold :: vote_threshold
  rf_delay :: nat
  rf_tally :: tally

datatype referendum_info = Ongoing referendum_status | Finished bool nat

datatype unvote_scope = AnyVote | OnlyExpired

datatype metadata_owner = ExternalOwner | ProposalOwner nat | ReferendumOwner nat

end
