(* ===== verification/Democracy.thy ===== *)
theory Democracy
  imports Democracy_Types
begin

text \<open>
  The pallet \<^verbatim>\<open>democracy\<close> (\<^verbatim>\<open>src/pallets/democracy/src/lib.rs\<close>): its configuration, storage and events, the
  internal functions and the block hook. The extrinsics are in \<^verbatim>\<open>Democracy_Calls\<close>. Weights are left out.
  The native currency with its freezes, the scheduler, the preimage store, the electorate, the origin
  checks, the lookup of addresses, the hash of a proposal and the integer square root are parameters, the
  fields of \<open>democracy_config\<close>.
\<close>

section \<open>Configuration\<close>

record 'l democracy_config =
  dm_fungible :: "'l fungible"
  dm_integer_sqrt :: "nat \<Rightarrow> nat"
  dm_hash :: "bounded_call \<Rightarrow> call_hash"
  dm_lookup :: "account \<Rightarrow> account option"
  schedule_named :: "string \<times> nat \<Rightarrow> nat \<Rightarrow> nat \<Rightarrow> origin \<Rightarrow> bounded_call \<Rightarrow> ('l, unit) dprog"
  preimage_len :: "call_hash \<Rightarrow> 'l \<Rightarrow> nat option"
  get_electorate :: "'l \<Rightarrow> nat"
  slash_on_unbalanced :: "nat \<Rightarrow> 'l \<Rightarrow> 'l"
  ExternalOrigin :: "origin \<Rightarrow> bool"
  ExternalMajorityOrigin :: "origin \<Rightarrow> bool"
  ExternalDefaultOrigin :: "origin \<Rightarrow> bool"
  SubmitOrigin :: "origin \<Rightarrow> account option"
  FastTrackOrigin :: "origin \<Rightarrow> bool"
  InstantOrigin :: "origin \<Rightarrow> bool"
  CancellationOrigin :: "origin \<Rightarrow> bool"
  BlacklistOrigin :: "origin \<Rightarrow> bool"
  CancelProposalOrigin :: "origin \<Rightarrow> bool"
  VetoOrigin :: "origin \<Rightarrow> account option"
  EnactmentPeriod :: nat
  LaunchPeriod :: nat
  VotingPeriod :: nat
  VoteLockingPeriod :: nat
  MinimumDeposit :: nat
  InstantAllowed :: bool
  FastTrackVotingPeriod :: nat
  CooloffPeriod :: nat
  MaxVotes :: nat
  MaxProposals :: nat
  MaxDeposits :: nat
  MaxBlacklisted :: nat

section \<open>Storage and events\<close>

datatype democracy_event =
    Proposed nat nat
  | Tabled nat nat
  | ExternalTabled
  | Started nat vote_threshold
  | Passed nat
  | NotPassed nat
  | Cancelled nat
  | DemocracyDelegated account account
  | Undelegated account
  | Vetoed account call_hash nat
  | Blacklisted call_hash
  | Voted account nat account_vote
  | Seconded account nat
  | ProposalCanceled nat
  | MetadataSet metadata_owner call_hash
  | MetadataCleared metadata_owner call_hash
  | MetadataTransferred metadata_owner metadata_owner call_hash

record 'l democracy_state = "'l system" +
  PublicPropCount :: nat
  PublicProps :: "(nat \<times> bounded_call \<times> account) list"
  DepositOf :: "nat \<rightharpoonup> account list \<times> nat"
  ReferendumCount :: nat
  LowestUnbaked :: nat
  ReferendumInfoOf :: "nat \<rightharpoonup> referendum_info"
  VotingOf :: "account \<Rightarrow> voting"
  LastTabledWasExternal :: bool
  NextExternal :: "(bounded_call \<times> vote_threshold) option"
  Blacklist :: "call_hash \<rightharpoonup> nat \<times> account list"
  Cancellations :: "call_hash \<rightharpoonup> bool"
  MetadataOf :: "metadata_owner \<rightharpoonup> call_hash"
  democracy_events :: "democracy_event list"

type_synonym ('l, 'z, 'a) dmprog = "(('l, 'z) democracy_state_scheme, 'a) dprog"

abbreviation DmErr :: "democracy_error \<Rightarrow> dispatch_error" where
  "DmErr \<equiv> DemocracyError"

definition deposit_democracy_event :: "democracy_event \<Rightarrow> ('l, 'z, unit) dmprog" where
  "deposit_democracy_event e = modify (\<lambda>s. s\<lparr>democracy_events := democracy_events s @ [e]\<rparr>)"

definition put_voting :: "account \<Rightarrow> voting \<Rightarrow> ('l, 'z, unit) dmprog" where
  "put_voting who v = modify (\<lambda>s. s\<lparr>VotingOf := (VotingOf s)(who := v)\<rparr>)"

definition put_referendum :: "nat \<Rightarrow> referendum_info option \<Rightarrow> ('l, 'z, unit) dmprog" where
  "put_referendum i r = modify (\<lambda>s. s\<lparr>ReferendumInfoOf := (ReferendumInfoOf s)(i := r)\<rparr>)"

definition put_metadata :: "metadata_owner \<Rightarrow> call_hash option \<Rightarrow> ('l, 'z, unit) dmprog" where
  "put_metadata owner h = modify (\<lambda>s. s\<lparr>MetadataOf := (MetadataOf s)(owner := h)\<rparr>)"

definition put_next_external :: "(bounded_call \<times> vote_threshold) option \<Rightarrow> ('l, 'z, unit) dmprog" where
  "put_next_external p = modify (\<lambda>s. s\<lparr>NextExternal := p\<rparr>)"

definition put_deposit :: "nat \<Rightarrow> (account list \<times> nat) option \<Rightarrow> ('l, 'z, unit) dmprog" where
  "put_deposit i d = modify (\<lambda>s. s\<lparr>DepositOf := (DepositOf s)(i := d)\<rparr>)"

definition put_public_props :: "(nat \<times> bounded_call \<times> account) list \<Rightarrow> ('l, 'z, unit) dmprog" where
  "put_public_props ps = modify (\<lambda>s. s\<lparr>PublicProps := ps\<rparr>)"

definition put_blacklist :: "call_hash \<Rightarrow> nat \<times> account list \<Rightarrow> ('l, 'z, unit) dmprog" where
  "put_blacklist h b = modify (\<lambda>s. s\<lparr>Blacklist := (Blacklist s)(h \<mapsto> b)\<rparr>)"

lemmas democracy_access_defs =
  deposit_democracy_event_def put_voting_def put_referendum_def put_metadata_def put_next_external_def
  put_deposit_def put_public_props_def put_blacklist_def

section \<open>Metadata\<close>

definition clear_metadata :: "metadata_owner \<Rightarrow> ('l, 'z, unit) dmprog" where
  "clear_metadata owner =
     sbind (gets (\<lambda>s. MetadataOf s owner)) (\<lambda>found.
     case found of
       Some hash \<Rightarrow> seq (put_metadata owner None) (deposit_democracy_event (MetadataCleared owner hash))
     | None \<Rightarrow> ok ())"

definition transfer_metadata :: "metadata_owner \<Rightarrow> metadata_owner \<Rightarrow> ('l, 'z, unit) dmprog" where
  "transfer_metadata owner new_owner =
     sbind (gets (\<lambda>s. MetadataOf s owner)) (\<lambda>found.
     case found of
       Some hash \<Rightarrow>
         seq (put_metadata owner None)
         (seq (put_metadata new_owner (Some hash))
         (deposit_democracy_event (MetadataTransferred owner new_owner hash)))
     | None \<Rightarrow> ok ())"

definition ensure_external_origin ::
    "('l, 'c) democracy_config_scheme \<Rightarrow> vote_threshold \<Rightarrow> origin \<Rightarrow> ('l, 'z, unit) dmprog" where
  "ensure_external_origin T threshold orig =
     (case threshold of
        SuperMajorityApprove \<Rightarrow> ensure (ExternalOrigin T orig) BadOrigin
      | SuperMajorityAgainst \<Rightarrow> ensure (ExternalDefaultOrigin T orig) BadOrigin
      | SimpleMajority \<Rightarrow> ensure (ExternalMajorityOrigin T orig) BadOrigin)"

section \<open>Proposals and referenda\<close>

definition backing_for :: "('l, 'z) democracy_state_scheme \<Rightarrow> nat \<Rightarrow> nat option" where
  "backing_for s proposal =
     map_option (\<lambda>(l, d). min u128_max (d * as_u32 (length l))) (DepositOf s proposal)"

definition len_of_deposit_of :: "nat \<Rightarrow> ('l, 'z) democracy_state_scheme \<Rightarrow> nat option" where
  "len_of_deposit_of proposal s = map_option (\<lambda>d. length (fst d)) (DepositOf s proposal)"

definition find_proposal :: "nat \<Rightarrow> ('l, 'z, nat \<times> bounded_call \<times> account) dmprog" where
  "find_proposal index =
     sbind (gets PublicProps) (\<lambda>ps. ok_or (List.find (\<lambda>(prop_index, _, _). prop_index = index) ps) (DmErr ProposalMissing))"

definition maturing_referenda_at_inner ::
    "('l, 'z) democracy_state_scheme \<Rightarrow> nat \<Rightarrow> nat \<Rightarrow> nat \<Rightarrow> (nat \<times> referendum_status) list" where
  "maturing_referenda_at_inner s n next' last' =
     filter (\<lambda>(_, status). rf_end status = n)
       (List.map_filter (\<lambda>i. case ReferendumInfoOf s i of Some (Ongoing status) \<Rightarrow> Some (i, status) | _ \<Rightarrow> None)
          [next'..<last'])"

definition maturing_referenda_at ::
    "nat \<Rightarrow> ('l, 'z) democracy_state_scheme \<Rightarrow> (nat \<times> referendum_status) list" where
  "maturing_referenda_at n s = maturing_referenda_at_inner s n (LowestUnbaked s) (ReferendumCount s)"

definition ensure_ongoing :: "referendum_info \<Rightarrow> ('l, 'z, referendum_status) dmprog" where
  "ensure_ongoing r = (case r of Ongoing s \<Rightarrow> ok s | _ \<Rightarrow> err (DmErr ReferendumInvalid))"

definition find_referendum_status :: "nat \<Rightarrow> ('l, 'z, referendum_status) dmprog" where
  "find_referendum_status ref_index =
     sbind (gets (\<lambda>s. ReferendumInfoOf s ref_index)) (\<lambda>found.
     sbind (ok_or found (DmErr ReferendumInvalid)) ensure_ongoing)"

definition internal_cancel_referendum :: "nat \<Rightarrow> ('l, 'z, unit) dmprog" where
  "internal_cancel_referendum ref_index =
     seq (deposit_democracy_event (Cancelled ref_index))
     (seq (put_referendum ref_index None)
     (clear_metadata (ReferendumOwner ref_index)))"

definition inject_referendum ::
    "nat \<Rightarrow> bounded_call \<Rightarrow> vote_threshold \<Rightarrow> nat \<Rightarrow> ('l, 'z, nat) dmprog" where
  "inject_referendum end' proposal threshold delay =
     sbind (gets ReferendumCount) (\<lambda>ref_index.
     seq (modify (\<lambda>s. s\<lparr>ReferendumCount := wrapping_add_u32 ref_index 1\<rparr>))
     (let status = \<lparr>rf_end = end', rf_proposal = proposal, rf_threshold = threshold, rf_delay = delay,
                    rf_tally = no_tally\<rparr> in
      seq (put_referendum ref_index (Some (Ongoing status)))
      (seq (deposit_democracy_event (Started ref_index threshold))
      (ok ref_index))))"

definition internal_start_referendum ::
    "('l, 'c) democracy_config_scheme \<Rightarrow> bounded_call \<Rightarrow> vote_threshold \<Rightarrow> nat \<Rightarrow> ('l, 'z, nat) dmprog" where
  "internal_start_referendum T proposal threshold delay =
     sbind (gets block_number) (\<lambda>now.
     inject_referendum (saturating_add_u32 now (VotingPeriod T)) proposal threshold delay)"

section \<open>Voting\<close>

text \<open>\<^verbatim>\<open>votes.binary_search_by_key(&ref_index, |i| i.0)\<close>.\<close>

definition search_vote :: "nat \<Rightarrow> (nat \<times> account_vote) list \<Rightarrow> nat + nat" where
  "search_vote ref_index votes = binary_search_by (\<lambda>i. nat_cmp (fst i) ref_index) votes"

text \<open>What a standard vote brings along, or takes away again: the delegations of the voter.\<close>

definition with_delegations :: "account_vote \<Rightarrow> vote_delegations \<Rightarrow> tally \<Rightarrow> tally" where
  "with_delegations v d t = (case as_standard v of Some approve \<Rightarrow> tally_increase approve d t | None \<Rightarrow> t)"

definition without_delegations :: "account_vote \<Rightarrow> vote_delegations \<Rightarrow> tally \<Rightarrow> tally" where
  "without_delegations v d t = (case as_standard v of Some approve \<Rightarrow> tally_reduce approve d t | None \<Rightarrow> t)"

definition record_vote ::
    "('l, 'c) democracy_config_scheme \<Rightarrow> nat \<Rightarrow> account_vote \<Rightarrow> (nat \<times> account_vote) list \<Rightarrow> vote_delegations \<Rightarrow> tally \<Rightarrow>
     ('l, 'z, (nat \<times> account_vote) list \<times> tally) dmprog" where
  "record_vote T ref_index vote votes delegations t =
     (case search_vote ref_index votes of
        Inr i \<Rightarrow>
          sbind (ok_or (tally_remove (snd (votes ! i)) t) ArithmeticUnderflow) (\<lambda>t.
          ok (votes[i := (fst (votes ! i), vote)], without_delegations (snd (votes ! i)) delegations t))
      | Inl i \<Rightarrow>
          (if length votes < MaxVotes T
           then ok (insert_at i (ref_index, vote) votes, t)
           else err (DmErr MaxVotesReached)))"

definition try_vote ::
    "('l, 'c) democracy_config_scheme \<Rightarrow> account \<Rightarrow> nat \<Rightarrow> account_vote \<Rightarrow> ('l, 'z, unit) dmprog" where
  "try_vote T who ref_index vote =
     sbind (find_referendum_status ref_index) (\<lambda>status.
     sbind (gets (\<lambda>s. c_total_balance (dm_fungible T) who (ext s))) (\<lambda>total_balance.
     seq (ensure (vote_balance vote \<le> total_balance) (DmErr InsufficientFunds))
     (sbind (gets (\<lambda>s. VotingOf s who)) (\<lambda>voting.
      sbind (case voting of
          Direct votes delegations prior \<Rightarrow>
            sbind (record_vote T ref_index vote votes delegations (rf_tally status)) (\<lambda>(votes, t).
            seq (deposit_democracy_event (Voted who ref_index vote))
            (sbind (ok_or (tally_add vote t) ArithmeticOverflow) (\<lambda>t.
             let t = with_delegations vote delegations t in
             seq (put_voting who (Direct votes delegations prior))
             (ok (status\<lparr>rf_tally := t\<rparr>)))))
        | Delegating _ _ _ _ _ \<Rightarrow> err (DmErr AlreadyDelegating)) (\<lambda>status.
      seq (on_ext (c_extend_freeze (dm_fungible T) VoteFreeze who (vote_balance vote)))
      (put_referendum ref_index (Some (Ongoing status))))))))"

definition unlock_block :: "('l, 'c) democracy_config_scheme \<Rightarrow> nat \<Rightarrow> nat \<Rightarrow> nat" where
  "unlock_block T from' periods =
     saturating_add_u32 from' (min u32_max (VoteLockingPeriod T * periods))"

definition try_remove_vote ::
    "('l, 'c) democracy_config_scheme \<Rightarrow> account \<Rightarrow> nat \<Rightarrow> unvote_scope \<Rightarrow> ('l, 'z, unit) dmprog" where
  "try_remove_vote T who ref_index scope =
     sbind (gets (\<lambda>s. ReferendumInfoOf s ref_index)) (\<lambda>info.
     sbind (gets (\<lambda>s. VotingOf s who)) (\<lambda>voting.
     case voting of
       Direct votes delegations prior \<Rightarrow>
         (case search_vote ref_index votes of
            Inl _ \<Rightarrow> err (DmErr NotVoter)
          | Inr i \<Rightarrow>
              sbind (case info of
                  Some (Ongoing status) \<Rightarrow>
                    seq (ensure (scope = AnyVote) (DmErr NoPermission))
                    (sbind (ok_or (tally_remove (snd (votes ! i)) (rf_tally status)) ArithmeticUnderflow) (\<lambda>t.
                     let t = without_delegations (snd (votes ! i)) delegations t in
                     seq (put_referendum ref_index (Some (Ongoing (status\<lparr>rf_tally := t\<rparr>))))
                     (ok prior)))
                | Some (Finished approved end') \<Rightarrow>
                    (case locked_if (snd (votes ! i)) approved of
                       Some (periods, balance) \<Rightarrow>
                         (let unlock_at = unlock_block T end' periods in
                          sbind (gets block_number) (\<lambda>now.
                          if now < unlock_at
                          then seq (ensure (scope = AnyVote) (DmErr NoPermission))
                                 (ok (accumulate unlock_at balance prior))
                          else ok prior))
                     | None \<Rightarrow> ok prior)
                | None \<Rightarrow> ok prior) (\<lambda>prior.
              put_voting who (Direct (remove_at i votes) delegations prior)))
     | Delegating _ _ _ _ _ \<Rightarrow> ok ()))"

section \<open>Delegating\<close>

text \<open>The loop over the standard votes of the target that changes the tally of each ongoing referendum.\<close>

definition update_tallies ::
    "(bool \<Rightarrow> tally \<Rightarrow> tally) \<Rightarrow> (nat \<times> account_vote) list \<Rightarrow> ('l, 'z, unit) dmprog" where
  "update_tallies f votes =
     for_each votes (\<lambda>(ref_index, account_vote).
       case account_vote of
         Standard vote _ \<Rightarrow>
           sbind (gets (\<lambda>s. ReferendumInfoOf s ref_index)) (\<lambda>info.
           case info of
             Some (Ongoing status) \<Rightarrow>
               put_referendum ref_index (Some (Ongoing (status\<lparr>rf_tally := f (rv_aye vote) (rf_tally status)\<rparr>)))
           | _ \<Rightarrow> ok ())
       | Split _ _ \<Rightarrow> ok ())"

definition increase_upstream_delegation :: "account \<Rightarrow> vote_delegations \<Rightarrow> ('l, 'z, nat) dmprog" where
  "increase_upstream_delegation who amount =
     sbind (gets (\<lambda>s. VotingOf s who)) (\<lambda>voting.
     case voting of
       Delegating balance target conviction delegations prior \<Rightarrow>
         seq (put_voting who (Delegating balance target conviction (delegations_saturating_add delegations amount) prior))
         (ok 1)
     | Direct votes delegations prior \<Rightarrow>
         seq (update_tallies (\<lambda>aye. tally_increase aye amount) votes)
         (seq (put_voting who (Direct votes (delegations_saturating_add delegations amount) prior))
         (ok (as_u32 (length votes)))))"

definition reduce_upstream_delegation :: "account \<Rightarrow> vote_delegations \<Rightarrow> ('l, 'z, nat) dmprog" where
  "reduce_upstream_delegation who amount =
     sbind (gets (\<lambda>s. VotingOf s who)) (\<lambda>voting.
     case voting of
       Delegating balance target conviction delegations prior \<Rightarrow>
         seq (put_voting who (Delegating balance target conviction (delegations_saturating_sub delegations amount) prior))
         (ok 1)
     | Direct votes delegations prior \<Rightarrow>
         seq (update_tallies (\<lambda>aye. tally_reduce aye amount) votes)
         (seq (put_voting who (Direct votes (delegations_saturating_sub delegations amount) prior))
         (ok (as_u32 (length votes)))))"

definition try_delegate ::
    "('l, 'c) democracy_config_scheme \<Rightarrow> account \<Rightarrow> account \<Rightarrow> conviction \<Rightarrow> nat \<Rightarrow> ('l, 'z, nat) dmprog" where
  "try_delegate T who target conviction balance =
     seq (ensure (who \<noteq> target) (DmErr Nonsense))
     (sbind (gets (\<lambda>s. c_total_balance (dm_fungible T) who (ext s))) (\<lambda>total_balance.
      seq (ensure (balance \<le> total_balance) (DmErr InsufficientFunds))
      (sbind (gets (\<lambda>s. VotingOf s who)) (\<lambda>old.
       let voting = Delegating balance target conviction no_delegations no_prior in
       sbind (case old of
           Delegating old_balance old_target old_conviction delegations prior \<Rightarrow>
             sbind (reduce_upstream_delegation old_target (conviction_votes old_conviction old_balance)) (\<lambda>_.
             sbind (gets block_number) (\<lambda>now.
             ok (set_common delegations
                   (accumulate (unlock_block T now (lock_periods old_conviction)) old_balance prior) voting)))
         | Direct votes delegations prior \<Rightarrow>
             seq (ensure (votes = []) (DmErr VotesExist))
             (ok (set_common delegations prior voting))) (\<lambda>voting.
       sbind (increase_upstream_delegation target (conviction_votes conviction balance)) (\<lambda>votes.
       seq (on_ext (c_extend_freeze (dm_fungible T) VoteFreeze who balance))
       (seq (put_voting who voting)
       (seq (deposit_democracy_event (DemocracyDelegated who target))
       (ok votes)))))))))"

definition try_undelegate ::
    "('l, 'c) democracy_config_scheme \<Rightarrow> account \<Rightarrow> ('l, 'z, nat) dmprog" where
  "try_undelegate T who =
     sbind (gets (\<lambda>s. VotingOf s who)) (\<lambda>old.
     case old of
       Delegating balance target conviction delegations prior \<Rightarrow>
         sbind (reduce_upstream_delegation target (conviction_votes conviction balance)) (\<lambda>votes.
         sbind (gets block_number) (\<lambda>now.
         seq (put_voting who (set_common delegations
                (accumulate (unlock_block T now (lock_periods conviction)) balance prior) voting_default))
         (seq (deposit_democracy_event (Undelegated who))
         (ok votes))))
     | Direct _ _ _ \<Rightarrow> err (DmErr NotDelegating))"

definition update_lock :: "('l, 'c) democracy_config_scheme \<Rightarrow> account \<Rightarrow> ('l, 'z, unit) dmprog" where
  "update_lock T who =
     sbind (gets block_number) (\<lambda>now.
     sbind (gets (\<lambda>s. voting_rejig now (VotingOf s who))) (\<lambda>voting.
     seq (put_voting who voting)
     (let lock_needed = locked_balance voting in
      if lock_needed = 0 then on_ext (c_thaw (dm_fungible T) VoteFreeze who)
      else on_ext (c_set_freeze (dm_fungible T) VoteFreeze who lock_needed))))"

section \<open>Launching and deciding referenda\<close>

definition launch_external :: "('l, 'c) democracy_config_scheme \<Rightarrow> nat \<Rightarrow> ('l, 'z, unit) dmprog" where
  "launch_external T now =
     sbind (gets NextExternal) (\<lambda>found.
     case found of
       Some (proposal, threshold) \<Rightarrow>
         seq (put_next_external None)
         (seq (modify (\<lambda>s. s\<lparr>LastTabledWasExternal := True\<rparr>))
         (seq (deposit_democracy_event ExternalTabled)
         (sbind (inject_referendum (saturating_add_u32 now (VotingPeriod T)) proposal threshold (EnactmentPeriod T))
           (\<lambda>ref_index. transfer_metadata ExternalOwner (ReferendumOwner ref_index)))))
     | None \<Rightarrow> err (DmErr NoneWaiting))"

text \<open>\<^verbatim>\<open>iter().enumerate().max_by_key(f)\<close>: the index of the last element with the greatest key.\<close>

definition max_index_by :: "('a \<Rightarrow> nat) \<Rightarrow> 'a list \<Rightarrow> nat option" where
  "max_index_by f xs =
     foldl (\<lambda>best i. case best of None \<Rightarrow> Some i | Some b \<Rightarrow> if f (xs ! i) \<ge> f (xs ! b) then Some i else Some b)
       None [0..<length xs]"

text \<open>\<^verbatim>\<open>Vec::swap_remove\<close>: the last element takes the place of the removed one.\<close>

definition swap_remove :: "nat \<Rightarrow> 'a list \<Rightarrow> 'a list" where
  "swap_remove i xs = butlast (xs[i := last xs])"

definition launch_public :: "('l, 'c) democracy_config_scheme \<Rightarrow> nat \<Rightarrow> ('l, 'z, unit) dmprog" where
  "launch_public T now =
     sbind (gets PublicProps) (\<lambda>public_props.
     sbind (gets (\<lambda>s. max_index_by (\<lambda>x. case backing_for s (fst x) of Some b \<Rightarrow> b | None \<Rightarrow> 0) public_props)) (\<lambda>winner.
     case winner of
       Some winner_index \<Rightarrow>
         (let (prop_index, proposal, _) = public_props ! winner_index in
          seq (put_public_props (swap_remove winner_index public_props))
          (sbind (gets (\<lambda>s. DepositOf s prop_index)) (\<lambda>taken.
          case taken of
            Some (depositors, deposit) \<Rightarrow>
              seq (put_deposit prop_index None)
              (seq (for_each depositors (\<lambda>d.
                 sbind (on_ext (c_release (dm_fungible T) (DemocracyReason ProposalDeposit) d deposit BestEffort)) (\<lambda>_. ok ())))
              (seq (deposit_democracy_event (Tabled prop_index deposit))
              (sbind (inject_referendum (saturating_add_u32 now (VotingPeriod T)) proposal SuperMajorityApprove (EnactmentPeriod T))
                (\<lambda>ref_index. transfer_metadata (ProposalOwner prop_index) (ReferendumOwner ref_index)))))
          | None \<Rightarrow> ok ())))
     | None \<Rightarrow> err (DmErr NoneWaiting)))"

text \<open>\<^verbatim>\<open>m.or_else(|_| n)\<close>: an error is dropped, what \<open>m\<close> wrote is kept; a panic is not caught.\<close>

definition or_try :: "('s, 'a) dprog \<Rightarrow> ('s, 'a) dprog \<Rightarrow> ('s, 'a) dprog" where
  "or_try m n s = (case m s of (Inl e, t) \<Rightarrow> if e = Panic then (Inl e, t) else n t | r \<Rightarrow> r)"

definition launch_next :: "('l, 'c) democracy_config_scheme \<Rightarrow> nat \<Rightarrow> ('l, 'z, unit) dmprog" where
  "launch_next T now =
     sbind (gets LastTabledWasExternal) (\<lambda>was_external.
     seq (modify (\<lambda>s. s\<lparr>LastTabledWasExternal := False\<rparr>))
     (map_err (\<lambda>e. if e = Panic then Panic else DmErr NoneWaiting)
       (if was_external then or_try (launch_public T now) (launch_external T now)
        else or_try (launch_external T now) (launch_public T now))))"

definition DEMOCRACY_ID :: string where
  "DEMOCRACY_ID = ''democrac''"

definition bake_referendum ::
    "('l, 'c) democracy_config_scheme \<Rightarrow> nat \<Rightarrow> nat \<Rightarrow> referendum_status \<Rightarrow> ('l, 'z, bool) dmprog" where
  "bake_referendum T now index status =
     sbind (gets (\<lambda>s. get_electorate T (ext s))) (\<lambda>total_issuance.
     sbind (ok_or (threshold_approved (dm_integer_sqrt T) (rf_threshold status) (rf_tally status) total_issuance) Panic) (\<lambda>approved.
     seq (if approved
          then seq (deposit_democracy_event (Passed index))
            (let when' = saturating_add_u32 now (max (rf_delay status) 1) in
             ignore_result (on_ext (schedule_named T (DEMOCRACY_ID, index) when' 63 Root (rf_proposal status))))
          else deposit_democracy_event (NotPassed index))
     (ok approved)))"

text \<open>The loop that moves \<^verbatim>\<open>LowestUnbaked\<close> over the referenda that are finished or gone.\<close>

function skip_baked :: "(nat \<rightharpoonup> referendum_info) \<Rightarrow> nat \<Rightarrow> nat \<Rightarrow> nat" where
  "skip_baked infos last' ref_index =
     (if ref_index < last' \<and> (case infos ref_index of None \<Rightarrow> True | Some (Finished _ _) \<Rightarrow> True | Some (Ongoing _) \<Rightarrow> False)
      then skip_baked infos last' (Suc ref_index)
      else ref_index)"
  by pat_completeness auto
termination
  by (relation "measure (\<lambda>(infos, last', i). last' - i)") auto

declare skip_baked.simps [simp del]

definition begin_block :: "('l, 'c) democracy_config_scheme \<Rightarrow> nat \<Rightarrow> ('l, 'z, unit) dmprog" where
  "begin_block T now =
     sbind (gets LowestUnbaked) (\<lambda>next'.
     sbind (gets ReferendumCount) (\<lambda>last'.
     seq (ensure (LaunchPeriod T \<noteq> 0) Panic)
     (seq (if now mod LaunchPeriod T = 0
           then or_try (launch_next T now) (ok ())
           else ok ())
     (sbind (gets (\<lambda>s. maturing_referenda_at_inner s now next' last')) (\<lambda>maturing.
      seq (for_each maturing (\<lambda>(index, info).
        sbind (bake_referendum T now index info) (\<lambda>approved.
        put_referendum index (Some (Finished approved now)))))
      (modify (\<lambda>s. s\<lparr>LowestUnbaked := skip_baked (ReferendumInfoOf s) last' (LowestUnbaked s)\<rparr>)))))))"

definition democracy_on_initialize :: "('l, 'c) democracy_config_scheme \<Rightarrow> nat \<Rightarrow> ('l, 'z, unit) dmprog" where
  "democracy_on_initialize T n = begin_block T n"

definition democracy_genesis :: "('l, 'z) democracy_state_scheme \<Rightarrow> ('l, 'z) democracy_state_scheme" where
  "democracy_genesis s = s\<lparr>PublicPropCount := 0, ReferendumCount := 0, LowestUnbaked := 0\<rparr>"

end
