(* ===== verification/Democracy_Calls.thy ===== *)
theory Democracy_Calls
  imports Democracy
begin

text \<open>
  The extrinsics of the pallet \<^verbatim>\<open>democracy\<close> (\<^verbatim>\<open>src/pallets/democracy/src/lib.rs\<close>), in the order of the code, and
  their dispatch, which rolls back a call that fails.
\<close>

section \<open>Proposals\<close>

definition ensure_not_blacklisted :: "call_hash \<Rightarrow> ('l, 'z, unit) dmprog" where
  "ensure_not_blacklisted h =
     sbind (gets (\<lambda>s. Blacklist s h)) (\<lambda>found.
     case found of
       Some (until', _) \<Rightarrow>
         sbind (gets block_number) (\<lambda>now. ensure (now \<ge> until') (DmErr ProposalBlacklisted))
     | None \<Rightarrow> ok ())"

definition propose ::
    "('l, 'c) democracy_config_scheme \<Rightarrow> origin \<Rightarrow> bounded_call \<Rightarrow> nat \<Rightarrow> ('l, 'z, unit) dmprog" where
  "propose T orig proposal value =
     sbind (ok_or (SubmitOrigin T orig) BadOrigin) (\<lambda>who.
     seq (ensure (value \<ge> MinimumDeposit T) (DmErr ValueLow))
     (sbind (gets PublicPropCount) (\<lambda>index.
      sbind (gets (\<lambda>s. as_u32 (length (PublicProps s)))) (\<lambda>real_prop_count.
      seq (ensure (real_prop_count < MaxProposals T) (DmErr TooMany))
      (seq (ensure_not_blacklisted (dm_hash T proposal))
      (seq (on_ext (c_hold (dm_fungible T) (DemocracyReason ProposalDeposit) who value))
      (seq (put_deposit index (Some (take (MaxDeposits T) [who], value)))
      (seq (modify (\<lambda>s. s\<lparr>PublicPropCount := wrapping_add_u32 index 1\<rparr>))
      (sbind (gets PublicProps) (\<lambda>ps.
       seq (ensure (length ps < MaxProposals T) (DmErr TooMany))
       (seq (put_public_props (ps @ [(index, proposal, who)]))
       (deposit_democracy_event (Proposed index value)))))))))))))"

definition second ::
    "('l, 'c) democracy_config_scheme \<Rightarrow> origin \<Rightarrow> nat \<Rightarrow> ('l, 'z, unit) dmprog" where
  "second T orig proposal =
     sbind (ensure_signed orig) (\<lambda>who.
     sbind (gets (len_of_deposit_of proposal)) (\<lambda>len.
     sbind (ok_or len (DmErr ProposalMissing)) (\<lambda>seconds.
     seq (ensure (seconds < MaxDeposits T) (DmErr TooMany))
     (sbind (gets (\<lambda>s. DepositOf s proposal)) (\<lambda>found.
      sbind (ok_or found (DmErr ProposalMissing)) (\<lambda>(depositors, deposit).
      seq (on_ext (c_hold (dm_fungible T) (DemocracyReason ProposalDeposit) who deposit))
      (let depositors = (if length depositors < MaxDeposits T then depositors @ [who] else depositors) in
       seq (put_deposit proposal (Some (depositors, deposit)))
       (deposit_democracy_event (Seconded who proposal)))))))))"

text \<open>The deposits of a proposal are slashed one after the other, a slash does not fail.\<close>

definition slash_deposit_of ::
    "('l, 'c) democracy_config_scheme \<Rightarrow> nat \<Rightarrow> account \<Rightarrow> ('l, 'z, unit) dmprog" where
  "slash_deposit_of T amount who =
     modify (\<lambda>s. case c_slash (dm_fungible T) (DemocracyReason ProposalDeposit) who amount (ext s) of
       (credit, l) \<Rightarrow> s\<lparr>ext := slash_on_unbalanced T credit l\<rparr>)"

definition slash_deposits ::
    "('l, 'c) democracy_config_scheme \<Rightarrow> nat \<Rightarrow> ('l, 'z, unit) dmprog" where
  "slash_deposits T prop_index =
     sbind (gets (\<lambda>s. DepositOf s prop_index)) (\<lambda>taken.
     seq (put_deposit prop_index None)
     (case taken of
        Some (whos, amount) \<Rightarrow> for_each whos (slash_deposit_of T amount)
      | None \<Rightarrow> ok ()))"

definition cancel_proposal ::
    "('l, 'c) democracy_config_scheme \<Rightarrow> origin \<Rightarrow> nat \<Rightarrow> ('l, 'z, unit) dmprog" where
  "cancel_proposal T orig prop_index =
     seq (ensure (CancelProposalOrigin T orig) BadOrigin)
     (sbind (gets PublicProps) (\<lambda>props.
      seq (put_public_props (filter (\<lambda>p. fst p \<noteq> prop_index) props))
      (seq (slash_deposits T prop_index)
      (seq (deposit_democracy_event (ProposalCanceled prop_index))
      (clear_metadata (ProposalOwner prop_index))))))"

definition clear_public_proposals :: "origin \<Rightarrow> ('l, 'z, unit) dmprog" where
  "clear_public_proposals orig = seq (ensure_root orig) (put_public_props [])"

section \<open>External proposals\<close>

definition external_propose ::
    "('l, 'c) democracy_config_scheme \<Rightarrow> origin \<Rightarrow> bounded_call \<Rightarrow> ('l, 'z, unit) dmprog" where
  "external_propose T orig proposal =
     seq (ensure (ExternalOrigin T orig) BadOrigin)
     (sbind (gets NextExternal) (\<lambda>next'.
      seq (ensure (next' = None) (DmErr DuplicateProposal))
      (seq (ensure_not_blacklisted (dm_hash T proposal))
      (put_next_external (Some (proposal, SuperMajorityApprove))))))"

definition external_propose_majority ::
    "('l, 'c) democracy_config_scheme \<Rightarrow> origin \<Rightarrow> bounded_call \<Rightarrow> ('l, 'z, unit) dmprog" where
  "external_propose_majority T orig proposal =
     seq (ensure (ExternalMajorityOrigin T orig) BadOrigin)
     (put_next_external (Some (proposal, SimpleMajority)))"

definition external_propose_default ::
    "('l, 'c) democracy_config_scheme \<Rightarrow> origin \<Rightarrow> bounded_call \<Rightarrow> ('l, 'z, unit) dmprog" where
  "external_propose_default T orig proposal =
     seq (ensure (ExternalDefaultOrigin T orig) BadOrigin)
     (put_next_external (Some (proposal, SuperMajorityAgainst)))"

definition fast_track ::
    "('l, 'c) democracy_config_scheme \<Rightarrow> origin \<Rightarrow> call_hash \<Rightarrow> nat \<Rightarrow> nat \<Rightarrow> ('l, 'z, unit) dmprog" where
  "fast_track T orig proposal_hash voting_period delay =
     (let must_be_instant = (voting_period < FastTrackVotingPeriod T \<or> \<not> FastTrackOrigin T orig) in
      seq (ensure (must_be_instant \<longrightarrow> InstantOrigin T orig) BadOrigin)
      (seq (ensure (must_be_instant \<longrightarrow> InstantAllowed T) (DmErr InstantNotAllowed))
      (seq (ensure (voting_period > 0) (DmErr VotingPeriodLow))
      (sbind (gets NextExternal) (\<lambda>found.
       sbind (ok_or found (DmErr ProposalMissing)) (\<lambda>(ext_proposal, threshold).
       seq (ensure (threshold \<noteq> SuperMajorityApprove) (DmErr NotSimpleMajority))
       (seq (ensure (proposal_hash = dm_hash T ext_proposal) (DmErr InvalidHash))
       (seq (put_next_external None)
       (sbind (gets block_number) (\<lambda>now.
        sbind (inject_referendum (saturating_add_u32 now voting_period) ext_proposal threshold delay) (\<lambda>ref_index.
        transfer_metadata ExternalOwner (ReferendumOwner ref_index))))))))))))"

definition veto_external ::
    "('l, 'c) democracy_config_scheme \<Rightarrow> origin \<Rightarrow> call_hash \<Rightarrow> ('l, 'z, unit) dmprog" where
  "veto_external T orig proposal_hash =
     sbind (ok_or (VetoOrigin T orig) BadOrigin) (\<lambda>who.
     sbind (gets NextExternal) (\<lambda>found.
     seq (case found of
            Some (ext_proposal, _) \<Rightarrow> ensure (proposal_hash = dm_hash T ext_proposal) (DmErr ProposalMissing)
          | None \<Rightarrow> err (DmErr NoProposal))
     (sbind (gets (\<lambda>s. case Blacklist s proposal_hash of Some (_, vetoers) \<Rightarrow> vetoers | None \<Rightarrow> [])) (\<lambda>existing_vetoers.
      case binary_search_by (\<lambda>x. nat_cmp x who) existing_vetoers of
        Inr _ \<Rightarrow> err (DmErr AlreadyVetoed)
      | Inl insert_position \<Rightarrow>
          seq (ensure (length existing_vetoers < MaxBlacklisted T) (DmErr TooMany))
          (sbind (gets block_number) (\<lambda>now.
           let until' = saturating_add_u32 now (CooloffPeriod T) in
           seq (put_blacklist proposal_hash (until', insert_at insert_position who existing_vetoers))
           (seq (deposit_democracy_event (Vetoed who proposal_hash until'))
           (seq (put_next_external None)
           (clear_metadata ExternalOwner)))))))))"

section \<open>Referenda\<close>

definition dm_vote ::
    "('l, 'c) democracy_config_scheme \<Rightarrow> origin \<Rightarrow> nat \<Rightarrow> account_vote \<Rightarrow> ('l, 'z, unit) dmprog" where
  "dm_vote T orig ref_index vote = sbind (ensure_signed orig) (\<lambda>who. try_vote T who ref_index vote)"

definition emergency_cancel ::
    "('l, 'c) democracy_config_scheme \<Rightarrow> origin \<Rightarrow> nat \<Rightarrow> ('l, 'z, unit) dmprog" where
  "emergency_cancel T orig ref_index =
     seq (ensure (CancellationOrigin T orig) BadOrigin)
     (sbind (find_referendum_status ref_index) (\<lambda>status.
      let h = dm_hash T (rf_proposal status) in
      sbind (gets (\<lambda>s. Cancellations s h)) (\<lambda>cancelled.
      seq (ensure (cancelled = None) (DmErr AlreadyCanceled))
      (seq (modify (\<lambda>s. s\<lparr>Cancellations := (Cancellations s)(h \<mapsto> True)\<rparr>))
      (internal_cancel_referendum ref_index)))))"

definition cancel_referendum :: "origin \<Rightarrow> nat \<Rightarrow> ('l, 'z, unit) dmprog" where
  "cancel_referendum orig ref_index = seq (ensure_root orig) (internal_cancel_referendum ref_index)"

definition lookup_account :: "('l, 'c) democracy_config_scheme \<Rightarrow> account \<Rightarrow> ('l, 'z, account) dmprog" where
  "lookup_account T a = ok_or (dm_lookup T a) CannotLookup"

definition dm_delegate ::
    "('l, 'c) democracy_config_scheme \<Rightarrow> origin \<Rightarrow> account \<Rightarrow> conviction \<Rightarrow> nat \<Rightarrow> ('l, 'z, unit) dmprog" where
  "dm_delegate T orig to conviction balance =
     sbind (ensure_signed orig) (\<lambda>who.
     sbind (lookup_account T to) (\<lambda>to.
     sbind (try_delegate T who to conviction balance) (\<lambda>votes. ok ())))"

definition dm_undelegate ::
    "('l, 'c) democracy_config_scheme \<Rightarrow> origin \<Rightarrow> ('l, 'z, unit) dmprog" where
  "dm_undelegate T orig =
     sbind (ensure_signed orig) (\<lambda>who. sbind (try_undelegate T who) (\<lambda>votes. ok ()))"

definition unlock ::
    "('l, 'c) democracy_config_scheme \<Rightarrow> origin \<Rightarrow> account \<Rightarrow> ('l, 'z, unit) dmprog" where
  "unlock T orig target =
     sbind (ensure_signed orig) (\<lambda>_. sbind (lookup_account T target) (\<lambda>target. update_lock T target))"

definition remove_vote ::
    "('l, 'c) democracy_config_scheme \<Rightarrow> origin \<Rightarrow> nat \<Rightarrow> ('l, 'z, unit) dmprog" where
  "remove_vote T orig index = sbind (ensure_signed orig) (\<lambda>who. try_remove_vote T who index AnyVote)"

definition remove_other_vote ::
    "('l, 'c) democracy_config_scheme \<Rightarrow> origin \<Rightarrow> account \<Rightarrow> nat \<Rightarrow> ('l, 'z, unit) dmprog" where
  "remove_other_vote T orig target index =
     sbind (ensure_signed orig) (\<lambda>who.
     sbind (lookup_account T target) (\<lambda>target.
     try_remove_vote T target index (if target = who then AnyVote else OnlyExpired)))"

text \<open>The first queued proposal with this hash is dropped, its depositors lose their deposits.\<close>

definition remove_queued ::
    "('l, 'c) democracy_config_scheme \<Rightarrow> call_hash \<Rightarrow> ('l, 'z, unit) dmprog" where
  "remove_queued T proposal_hash =
     sbind (gets PublicProps) (\<lambda>props.
     case List.find (\<lambda>i. dm_hash T (fst (snd (props ! i))) = proposal_hash) [0..<length props] of
       Some index \<Rightarrow>
         (let prop_index = fst (props ! index) in
          seq (slash_deposits T prop_index)
          (seq (clear_metadata (ProposalOwner prop_index))
          (put_public_props (remove_at index props))))
     | None \<Rightarrow> ok ())"

definition remove_external ::
    "('l, 'c) democracy_config_scheme \<Rightarrow> call_hash \<Rightarrow> ('l, 'z, unit) dmprog" where
  "remove_external T proposal_hash =
     sbind (gets NextExternal) (\<lambda>next'.
     case next' of
       Some (p, _) \<Rightarrow>
         if dm_hash T p = proposal_hash
         then seq (put_next_external None) (clear_metadata ExternalOwner)
         else ok ()
     | None \<Rightarrow> ok ())"

definition remove_referendum ::
    "('l, 'c) democracy_config_scheme \<Rightarrow> call_hash \<Rightarrow> nat option \<Rightarrow> ('l, 'z, unit) dmprog" where
  "remove_referendum T proposal_hash maybe_ref_index =
     (case maybe_ref_index of
        Some ref_index \<Rightarrow>
          sbind (gets (\<lambda>s. ReferendumInfoOf s ref_index)) (\<lambda>info.
          case info of
            Some (Ongoing status) \<Rightarrow>
              if dm_hash T (rf_proposal status) = proposal_hash
              then internal_cancel_referendum ref_index
              else ok ()
          | _ \<Rightarrow> ok ())
      | None \<Rightarrow> ok ())"

definition blacklist ::
    "('l, 'c) democracy_config_scheme \<Rightarrow> origin \<Rightarrow> call_hash \<Rightarrow> nat option \<Rightarrow> ('l, 'z, unit) dmprog" where
  "blacklist T orig proposal_hash maybe_ref_index =
     seq (ensure (BlacklistOrigin T orig) BadOrigin)
     (seq (put_blacklist proposal_hash (u32_max, []))
     (seq (remove_queued T proposal_hash)
     (seq (remove_external T proposal_hash)
     (seq (remove_referendum T proposal_hash maybe_ref_index)
     (deposit_democracy_event (Blacklisted proposal_hash))))))"

section \<open>Metadata\<close>

text \<open>\<open>ensure_signed_or_root\<close>: whether the origin is the root.\<close>

definition ensure_signed_or_root :: "origin \<Rightarrow> ('l, 'z, bool) dmprog" where
  "ensure_signed_or_root orig = (case orig of Root \<Rightarrow> ok True | Signed _ \<Rightarrow> ok False | Unsigned \<Rightarrow> err BadOrigin)"

definition ensure_metadata_owner ::
    "('l, 'c) democracy_config_scheme \<Rightarrow> origin \<Rightarrow> metadata_owner \<Rightarrow> call_hash option \<Rightarrow> ('l, 'z, unit) dmprog" where
  "ensure_metadata_owner T orig owner maybe_hash =
     (case owner of
        ExternalOwner \<Rightarrow>
          sbind (gets NextExternal) (\<lambda>found.
          sbind (ok_or found (DmErr NoProposal)) (\<lambda>(_, threshold).
          ensure_external_origin T threshold orig))
      | ProposalOwner index \<Rightarrow>
          sbind (ensure_signed orig) (\<lambda>who.
          sbind (find_proposal index) (\<lambda>(_, _, proposer).
          ensure (proposer = who) (DmErr NoPermission)))
      | ReferendumOwner index \<Rightarrow>
          sbind (ensure_signed_or_root orig) (\<lambda>is_root.
          seq (ensure (is_root \<or> maybe_hash = None) (DmErr NoPermission))
          (sbind (gets (\<lambda>s. case ReferendumInfoOf s index of Some (Ongoing _) \<Rightarrow> True | _ \<Rightarrow> False)) (\<lambda>is_ongoing.
           ensure (is_root \<or> \<not> is_ongoing) (DmErr NoPermission)))))"

definition set_metadata ::
    "('l, 'c) democracy_config_scheme \<Rightarrow> origin \<Rightarrow> metadata_owner \<Rightarrow> call_hash option \<Rightarrow> ('l, 'z, unit) dmprog" where
  "set_metadata T orig owner maybe_hash =
     seq (ensure_metadata_owner T orig owner maybe_hash)
     (case maybe_hash of
        Some hash \<Rightarrow>
          sbind (gets (\<lambda>s. preimage_len T hash (ext s))) (\<lambda>len.
          seq (ensure (len \<noteq> None) (DmErr PreimageNotExist))
          (seq (put_metadata owner (Some hash))
          (deposit_democracy_event (MetadataSet owner hash))))
      | None \<Rightarrow> clear_metadata owner)"

section \<open>Dispatch\<close>

datatype democracy_call =
    Propose bounded_call nat
  | Second nat
  | VoteFor nat account_vote
  | EmergencyCancel nat
  | ExternalPropose bounded_call
  | ExternalProposeMajority bounded_call
  | ExternalProposeDefault bounded_call
  | FastTrack call_hash nat nat
  | VetoExternal call_hash
  | CancelReferendum nat
  | DelegateVote account conviction nat
  | UndelegateVote
  | ClearPublicProposals
  | Unlock account
  | RemoveVote nat
  | RemoveOtherVote account nat
  | BlacklistCall call_hash "nat option"
  | CancelProposal nat
  | SetMetadata metadata_owner "call_hash option"

definition democracy_body ::
    "('l, 'c) democracy_config_scheme \<Rightarrow> origin \<Rightarrow> democracy_call \<Rightarrow> ('l, 'z, unit) dmprog" where
  "democracy_body T orig call =
     (case call of
        Propose proposal value \<Rightarrow> propose T orig proposal value
      | Second proposal \<Rightarrow> second T orig proposal
      | VoteFor ref_index vote \<Rightarrow> dm_vote T orig ref_index vote
      | EmergencyCancel ref_index \<Rightarrow> emergency_cancel T orig ref_index
      | ExternalPropose proposal \<Rightarrow> external_propose T orig proposal
      | ExternalProposeMajority proposal \<Rightarrow> external_propose_majority T orig proposal
      | ExternalProposeDefault proposal \<Rightarrow> external_propose_default T orig proposal
      | FastTrack h voting_period delay \<Rightarrow> fast_track T orig h voting_period delay
      | VetoExternal h \<Rightarrow> veto_external T orig h
      | CancelReferendum ref_index \<Rightarrow> cancel_referendum orig ref_index
      | DelegateVote to conviction balance \<Rightarrow> dm_delegate T orig to conviction balance
      | UndelegateVote \<Rightarrow> dm_undelegate T orig
      | ClearPublicProposals \<Rightarrow> clear_public_proposals orig
      | Unlock target \<Rightarrow> unlock T orig target
      | RemoveVote index \<Rightarrow> remove_vote T orig index
      | RemoveOtherVote target index \<Rightarrow> remove_other_vote T orig target index
      | BlacklistCall h maybe_ref_index \<Rightarrow> blacklist T orig h maybe_ref_index
      | CancelProposal prop_index \<Rightarrow> cancel_proposal T orig prop_index
      | SetMetadata owner maybe_hash \<Rightarrow> set_metadata T orig owner maybe_hash)"

definition democracy_dispatch ::
    "('l, 'c) democracy_config_scheme \<Rightarrow> origin \<Rightarrow> democracy_call \<Rightarrow> ('l, 'z, unit) dmprog" where
  "democracy_dispatch T orig call = transactional (democracy_body T orig call)"

end
