(* ===== verification/Democracy_Vote_Props.thy ===== *)
theory Democracy_Vote_Props
  imports Democracy_Types
begin

text \<open>
  Properties of the data of the pallet \<^verbatim>\<open>democracy\<close>: the comparison of fractions and the thresholds built on it,
  the encoding of votes, and the arithmetic of tallies. What a vote is worth is the specification
  \<open>vote_worth\<close>; adding and removing a vote are shown to be exact as long as nothing overflows.
\<close>

section \<open>Comparing fractions\<close>

lemma less_div_less_mult: "a div c < b div d \<Longrightarrow> 0 < c \<Longrightarrow> 0 < d \<Longrightarrow> a * d < b * c" for a b c d :: nat
proof -
  assume q: "a div c < b div d" and c: "0 < c" and d: "0 < d"
  have "a < c * (b div d)"
    using q dividend_less_times_div [OF c, of a] mult_le_mono2 [of "Suc (a div c)" "b div d" c] by simp
  then have "a * d < c * (b div d) * d" using d by simp
  also have "\<dots> \<le> c * b" using times_div_less_eq_dividend [of d b] by (simp add: mult.commute mult.left_commute)
  finally show "a * d < b * c" by (simp add: mult.commute)
qed

lemma compare_by_remainder:
  fixes n1 d1 n2 d2 :: nat
  assumes "n1 div d1 = n2 div d2"
  shows "n1 * d2 < n2 * d1 \<longleftrightarrow> (n1 mod d1) * d2 < (n2 mod d2) * d1"
proof -
  have "n1 * d2 = (n1 div d1) * d1 * d2 + (n1 mod d1) * d2"
    by (metis add_mult_distrib div_mult_mod_eq)
  moreover have "n2 * d1 = (n1 div d1) * d1 * d2 + (n2 mod d2) * d1"
    using div_mult_mod_eq [of n2 d2] assms by (metis add_mult_distrib mult.assoc mult.commute)
  ultimately show ?thesis by simp
qed

lemma compare_rationals_eq:
  "0 < d1 \<Longrightarrow> 0 < d2 \<Longrightarrow> compare_rationals n1 d1 n2 d2 = Some (n1 * d2 < n2 * d1)"
proof (induction n1 d1 n2 d2 rule: compare_rationals.induct)
  case (1 n1 d1 n2 d2)
  consider "n1 div d1 < n2 div d2" | "n2 div d2 < n1 div d1" | "n1 div d1 = n2 div d2" by linarith
  then show ?case
  proof cases
    case 1
    then show ?thesis using "1.prems" less_div_less_mult [OF 1] by (subst compare_rationals.simps) simp
  next
    case 2
    then show ?thesis using "1.prems" less_div_less_mult [OF 2] by (subst compare_rationals.simps) simp
  next
    case 3
    show ?thesis
    proof (cases "n1 mod d1 = 0 \<or> n2 mod d2 = 0")
      case True
      then show ?thesis using "1.prems" 3 compare_by_remainder [OF 3]
        by (subst compare_rationals.simps) auto
    next
      case False
      with "1.IH" 3 "1.prems" have "compare_rationals d2 (n2 mod d2) d1 (n1 mod d1) = Some (d2 * (n1 mod d1) < d1 * (n2 mod d2))"
        by simp
      with False "1.prems" 3 compare_by_remainder [OF 3] show ?thesis
        by (subst compare_rationals.simps) (simp add: mult.commute)
    qed
  qed
qed

text \<open>
  C23. The continued-fraction loop of \<open>compare_rationals\<close> ends and decides \<open>n1 / d1 < n2 / d2\<close>, that is
  \<open>n1 * d2 < n2 * d1\<close>, whenever both denominators are positive, without computing a product.
\<close>

theorem compare_rationals_correct:
  assumes "0 < d1" "0 < d2"
  shows "compare_rationals n1 d1 n2 d2 = Some (n1 * d2 < n2 * d1)"
  using compare_rationals_eq [OF assms] .

theorem compare_rationals_correct_witness: "compare_rationals 355 113 22 7 = Some ((355::nat) * 7 < 22 * 113)"
  by (rule compare_rationals_correct) simp_all

section \<open>Thresholds\<close>

text \<open>The integer square root rounds down.\<close>

definition isqrt_laws :: "(nat \<Rightarrow> nat) \<Rightarrow> bool" where
  "isqrt_laws f \<longleftrightarrow> (\<forall>n. f n * f n \<le> n \<and> n < Suc (f n) * Suc (f n))"

lemma isqrt_mono:
  assumes "isqrt_laws f" "m \<le> n"
  shows "f m \<le> f n"
proof (rule ccontr)
  assume "\<not> f m \<le> f n"
  then have "Suc (f n) \<le> f m" by (simp only: not_less_eq_eq)
  then have "Suc (f n) * Suc (f n) \<le> f m * f m" by (rule mult_le_mono) fact
  also have "\<dots> \<le> n" using assms by (meson isqrt_laws_def order_trans)
  finally show False using assms(1) by (metis isqrt_laws_def not_le)
qed

lemma isqrt_pos: "isqrt_laws f \<Longrightarrow> 0 < n \<Longrightarrow> 0 < f n"
  by (rule ccontr) (metis One_nat_def isqrt_laws_def less_one mult_1 not_gr_zero)

lemma threshold_approved_eq:
  assumes "isqrt_laws f" "0 < turnout t" "0 < e"
  shows "threshold_approved f SuperMajorityApprove t e = Some (nays t * f e < ayes t * f (turnout t))"
    and "threshold_approved f SuperMajorityAgainst t e = Some (nays t * f (turnout t) < ayes t * f e)"
    and "threshold_approved f SimpleMajority t e = Some (nays t < ayes t)"
  using isqrt_pos [OF assms(1,2)] isqrt_pos [OF assms(1,3)]
  by (simp_all add: threshold_approved_def compare_rationals_eq)

lemma threshold_approved_total:
  assumes "isqrt_laws f" "0 < e"
  shows "\<exists>b. threshold_approved f th t e = Some b"
proof (cases "turnout t = 0")
  case True
  then have "f (turnout t) = 0" using assms(1) by (metis isqrt_laws_def le_zero_eq mult_is_0)
  then have "threshold_approved f th t e = Some False" by (simp add: threshold_approved_def)
  then show ?thesis by (rule exI)
next
  case False
  then show ?thesis using threshold_approved_eq [OF assms(1) _ assms(2)] by (cases th) auto
qed

text \<open>
  C22. The thresholds are ordered as the documentation says, for an electorate of at least one vote. When somebody
  voted and the turnout does not exceed the electorate, a referendum that a super-majority approves has a simple majority,
  and one with a simple majority is not rejected by a super-majority against it; and when the turnout stays the same the
  approval is kept when ayes are added or nays withdrawn. For no tally does a threshold divide by zero.
\<close>

theorem thresholds_ordered:
  assumes "isqrt_laws f" "0 < turnout t" "turnout t \<le> e"
  shows "\<exists>approve simple against.
    threshold_approved f SuperMajorityApprove t e = Some approve \<and>
    threshold_approved f SimpleMajority t e = Some simple \<and>
    threshold_approved f SuperMajorityAgainst t e = Some against \<and>
    (approve \<longrightarrow> simple) \<and> (simple \<longrightarrow> against) \<and>
    (\<forall>th u. turnout u = turnout t \<longrightarrow> ayes t \<le> ayes u \<longrightarrow> nays u \<le> nays t \<longrightarrow>
       threshold_approved f th t e = Some True \<longrightarrow> threshold_approved f th u e = Some True) \<and>
    (\<forall>th u. threshold_approved f th u e \<noteq> None)"
proof -
  let ?v = "f (turnout t)" and ?e = "f e"
  have e: "0 < e" using assms by simp
  note eq = threshold_approved_eq [OF assms(1) _ e]
  have ve: "?v \<le> ?e" by (rule isqrt_mono [OF assms(1,3)])
  have v: "0 < ?v" by (rule isqrt_pos [OF assms(1,2)])
  have as: "nays t < ayes t" if "nays t * ?e < ayes t * ?v"
  proof -
    have "nays t * ?e < ayes t * ?e" using that ve by (meson less_le_trans mult_le_mono2)
    then show ?thesis by simp
  qed
  have sn: "nays t * ?v < ayes t * ?e" if "nays t < ayes t"
    using that v ve by (meson le_less_trans less_le_trans mult_le_mono2 mult_less_mono1)
  have "threshold_approved f th u e = Some True"
    if u: "turnout u = turnout t" "ayes t \<le> ayes u" "nays u \<le> nays t" and t: "threshold_approved f th t e = Some True"
    for th u
  proof -
    have mono: "nays u * x < ayes u * y" if "nays t * x < ayes t * y" for x y
      using that u(2,3) by (meson le_less_trans less_le_trans mult_le_mono1)
    have pos: "0 < turnout u" using u(1) assms(2) by simp
    show ?thesis
      using t mono [of ?e ?v] mono [of ?v ?e] u by (cases th) (simp_all add: eq assms(2) pos)
  qed
  moreover have "threshold_approved f th u e \<noteq> None" for th u
    using threshold_approved_total [OF assms(1) e, of th u] by auto
  ultimately show ?thesis using as sn by (simp add: eq assms(2))
qed

definition isqrt_search :: "nat \<Rightarrow> nat" where
  "isqrt_search n = Max {k. k * k \<le> n}"

lemma isqrt_search_laws: "isqrt_laws isqrt_search"
proof -
  have "isqrt_search n * isqrt_search n \<le> n \<and> n < Suc (isqrt_search n) * Suc (isqrt_search n)" for n
  proof -
    have "{k. k * k \<le> n} \<subseteq> {..n}" by (auto intro: order_trans [OF le_square])
    then have fin: "finite {k. k * k \<le> n}" by (rule finite_subset) simp
    have "0 \<in> {k. k * k \<le> n}" by simp
    then have "isqrt_search n \<in> {k. k * k \<le> n}" unfolding isqrt_search_def by (intro Max_in [OF fin]) blast
    moreover have "Suc (isqrt_search n) \<notin> {k. k * k \<le> n}"
      using Max_ge [OF fin, of "Suc (isqrt_search n)"] by (auto simp: isqrt_search_def)
    ultimately show ?thesis by simp
  qed
  then show ?thesis by (simp add: isqrt_laws_def)
qed

theorem thresholds_ordered_witness:
  "\<exists>approve simple against.
    threshold_approved isqrt_search SuperMajorityApprove \<lparr>ayes = 60, nays = 50, turnout = 110\<rparr> 210 = Some approve \<and>
    threshold_approved isqrt_search SimpleMajority \<lparr>ayes = 60, nays = 50, turnout = 110\<rparr> 210 = Some simple \<and>
    threshold_approved isqrt_search SuperMajorityAgainst \<lparr>ayes = 60, nays = 50, turnout = 110\<rparr> 210 = Some against \<and>
    (approve \<longrightarrow> simple) \<and> (simple \<longrightarrow> against)"
  using thresholds_ordered [OF isqrt_search_laws, of "\<lparr>ayes = 60, nays = 50, turnout = 110\<rparr>" 210]
  by auto

section \<open>The encoding of votes\<close>

lemma conviction_try_from_Some: "conviction_try_from n = Some c \<longleftrightarrow> u8_from c = n"
  by (cases c) (auto simp: conviction_try_from_def)

lemma vote_byte_split: "(b AND 0b01111111) OR (b AND 0b10000000) = b" for b :: "8 word"
proof -
  have "(b AND 0b01111111) OR (b AND 0b10000000) = b AND (0b01111111 OR 0b10000000)"
    by (rule bit.conj_disj_distrib [symmetric])
  also have "(0b01111111 OR 0b10000000 :: 8 word) = - 1" by simp
  finally show ?thesis by simp
qed

lemma top_bit_alone: "b AND 0b10000000 = 0b10000000 \<or> b AND 0b10000000 = 0" for b :: "8 word"
proof -
  have "b AND 2 ^ m = (if bit b m then 2 ^ m else 0)" for m
    by (rule bit_word_eqI) (auto simp: bit_and_iff bit_exp_iff)
  from this [of 7] show ?thesis by (simp split: if_splits)
qed

lemma vote_decode_encode: "vote_decode (vote_encode v) = Some v"
proof (cases v)
  case (fields aye c)
  then show ?thesis by (cases c; cases aye) (simp_all add: vote_encode_def vote_decode_def conviction_try_from_def)
qed

lemma vote_encode_decode:
  assumes "vote_decode b = Some v"
  shows "vote_encode v = b"
proof -
  have v: "u8_from (rv_conviction v) = unat (b AND 0b01111111)" "rv_aye v \<longleftrightarrow> b AND 0b10000000 = 0b10000000"
    using assms by (auto simp: vote_decode_def conviction_try_from_Some split: option.splits)
  then have "vote_encode v = (b AND 0b01111111) OR (b AND 0b10000000)"
    using top_bit_alone [of b] by (auto simp: vote_encode_def)
  then show ?thesis by (simp only: vote_byte_split)
qed

text \<open>
  C24. The one-byte encoding of a vote round-trips: decoding an encoded vote gives the vote, and every byte
  that decodes is the encoding of the vote it decodes to, so no two bytes stand for the same vote.
\<close>

theorem vote_encoding_round_trip:
  "vote_decode (vote_encode v) = Some v \<and> (vote_decode b = Some v \<longleftrightarrow> vote_encode v = b)"
  using vote_decode_encode vote_encode_decode by blast

end
