(* ===== verification/Democracy_Books.thy ===== *)
theory Democracy_Books
  imports Democracy_Vote_Props
begin

text \<open>
  The books of the pallet \<^verbatim>\<open>democracy\<close>, apart from its programs: what a vote is worth, what an account contributes
  to the tally of a referendum and what it delegates to another one, and the invariant \<open>books_ok\<close> that ties
  the voting records to the tallies: the delegations an account holds are the sum of what is delegated to it,
  and the tally of an ongoing referendum is the sum of what the accounts contribute to it. The sums range over
  a finite set of accounts whose voting power fits the \<open>u128\<close> of the tallies (\<open>capacity\<close>), so that no
  saturating operation loses anything.
\<close>

section \<open>Parts of a tally\<close>

datatype side = Ayes | Nays | Turnout

fun part :: "side \<Rightarrow> tally \<Rightarrow> nat" where
  "part Ayes t = ayes t"
| "part Nays t = nays t"
| "part Turnout t = turnout t"

lemma all_sides: "(\<forall>k. P k) \<longleftrightarrow> P Ayes \<and> P Nays \<and> P Turnout"
  by (metis side.exhaust)

lemma tally_eqI: "(\<And>k. part k t = part k u) \<Longrightarrow> t = u"
  by (metis (full_types) part.simps tally.equality old.unit.exhaust)

lemma part_no_tally [simp]: "part k no_tally = 0"
  by (cases k) (simp_all add: no_tally_def)

fun vote_worth :: "account_vote \<Rightarrow> tally" where
  "vote_worth (Standard v b) = tally_new v b"
| "vote_worth (Split aye nay) = \<lparr>ayes = aye div 10, nays = nay div 10, turnout = aye + nay\<rparr>"

fun delegated_worth :: "account_vote \<Rightarrow> vote_delegations \<Rightarrow> tally" where
  "delegated_worth (Standard v b) d =
     \<lparr>ayes = (if rv_aye v then dv_votes d else 0), nays = (if rv_aye v then 0 else dv_votes d), turnout = dv_capital d\<rparr>"
| "delegated_worth (Split aye nay) d = no_tally"

text \<open>The component of delegations that counts for a part of the tally.\<close>

definition dpart :: "side \<Rightarrow> vote_delegations \<Rightarrow> nat" where
  "dpart k d = (if k = Turnout then dv_capital d else dv_votes d)"

lemma delegations_eqI: "(\<And>k. dpart k d = dpart k e) \<Longrightarrow> d = e"
  by (metis (full_types) dpart_def old.unit.exhaust side.distinct(3) vote_delegations.equality)

lemma dpart_none [simp]: "dpart k no_delegations = 0"
  by (simp add: dpart_def no_delegations_def)

lemma dpart_add:
  "dpart k d + dpart k e \<le> u128_max \<Longrightarrow> dpart k (delegations_saturating_add d e) = dpart k d + dpart k e"
  by (auto simp: dpart_def delegations_saturating_add_def saturating_add_exact split: if_splits)

lemma dpart_sub: "dpart k (delegations_saturating_sub d e) = dpart k d - dpart k e"
  by (simp add: dpart_def delegations_saturating_sub_def)

lemma delegated_worth_le: "part k (delegated_worth v d) \<le> dpart k d"
  by (cases v; cases k) (simp_all add: dpart_def)

lemma delegated_worth_shift:
  assumes "dpart k e = dpart k d + dpart k a"
  shows "part k (delegated_worth v e) = part k (delegated_worth v d) + part k (delegated_worth v a)"
  using assms by (cases v; cases k) (auto simp: dpart_def)

lemma tally_add_Some: "tally_add v t = Some u \<Longrightarrow> part k u = part k t + part k (vote_worth v)"
  by (cases v; cases k)
     (auto simp: tally_add_def Let_def tally_new_def checked_add_Some bind_eq_Some_conv conviction_votes_def checked_div_def
       split: if_splits)

lemma tally_add_succeeds:
  assumes "\<And>k. part k t + part k (vote_worth v) \<le> u128_max"
  shows "\<exists>u. tally_add v t = Some u"
  using assms [of Ayes] assms [of Nays] assms [of Turnout]
  by (cases v)
     (auto simp: tally_add_def Let_def tally_new_def checked_add_def conviction_votes_def checked_div_def split: if_splits)

lemma tally_remove_Some: "tally_remove v t = Some u \<Longrightarrow> part k t = part k u + part k (vote_worth v)"
  by (cases v; cases k)
     (auto simp: tally_remove_def Let_def tally_new_def checked_sub_Some bind_eq_Some_conv conviction_votes_def checked_div_def
       split: if_splits)

lemma tally_remove_succeeds:
  assumes "\<And>k. part k (vote_worth v) \<le> part k t"
  shows "\<exists>u. tally_remove v t = Some u"
  using assms [of Ayes] assms [of Nays] assms [of Turnout]
  by (cases v)
     (auto simp: tally_remove_def Let_def tally_new_def checked_sub_def conviction_votes_def checked_div_def split: if_splits)

lemma tally_increase_part:
  assumes "\<And>k. part k t + part k (delegated_worth (Standard v b) d) \<le> u128_max"
  shows "part k (tally_increase (rv_aye v) d t) = part k t + part k (delegated_worth (Standard v b) d)"
  using assms [of k] by (cases k) (auto simp: tally_increase_def Let_def saturating_add_exact split: if_splits)

lemma tally_reduce_part:
  "part k (tally_reduce (rv_aye v) d t) = part k t - part k (delegated_worth (Standard v b) d)"
  by (cases k) (auto simp: tally_reduce_def Let_def)

section \<open>What an account contributes\<close>

fun share :: "voting \<Rightarrow> nat \<Rightarrow> side \<Rightarrow> nat" where
  "share (Direct votes d p) i k =
     (case map_of votes i of Some v \<Rightarrow> part k (vote_worth v) + part k (delegated_worth v d) | None \<Rightarrow> 0)"
| "share (Delegating b t c d p) i k = 0"

fun given :: "voting \<Rightarrow> account \<Rightarrow> vote_delegations" where
  "given (Direct votes d p) a = no_delegations"
| "given (Delegating b t c d p) a = (if a = t then conviction_votes c b else no_delegations)"

fun received :: "voting \<Rightarrow> vote_delegations" where
  "received (Direct votes d p) = d"
| "received (Delegating b t c d p) = d"

fun voted :: "voting \<Rightarrow> nat set" where
  "voted (Direct votes d p) = fst ` set votes"
| "voted (Delegating b t c d p) = {}"

fun vote_fits :: "nat \<Rightarrow> account_vote \<Rightarrow> bool" where
  "vote_fits B (Standard v b) \<longleftrightarrow> b \<le> B"
| "vote_fits B (Split aye nay) \<longleftrightarrow> aye + nay \<le> B"

abbreviation votes_ordered :: "(nat \<times> account_vote) list \<Rightarrow> bool" where
  "votes_ordered \<equiv> sorted_wrt (\<lambda>x y. fst x < fst y)"

fun voting_ok :: "account set \<Rightarrow> nat \<Rightarrow> account \<Rightarrow> voting \<Rightarrow> bool" where
  "voting_ok A B a (Direct votes d p) \<longleftrightarrow> votes_ordered votes \<and> (\<forall>x\<in>set votes. vote_fits B (snd x))"
| "voting_ok A B a (Delegating b t c d p) \<longleftrightarrow> b \<le> B \<and> t \<in> A \<and> t \<noteq> a"

definition capacity :: "account set \<Rightarrow> nat \<Rightarrow> bool" where
  "capacity A B \<longleftrightarrow> finite A \<and> card A * (6 * B) \<le> u128_max"

definition votings_ok :: "account set \<Rightarrow> nat \<Rightarrow> (account \<Rightarrow> voting) \<Rightarrow> bool" where
  "votings_ok A B V \<longleftrightarrow>
     (\<forall>a. a \<notin> A \<longrightarrow> V a = voting_default) \<and> (\<forall>a. voting_ok A B a (V a)) \<and>
     (\<forall>t k. dpart k (received (V t)) = (\<Sum>a\<in>A. dpart k (given (V a) t)))"

definition tallies_ok :: "account set \<Rightarrow> (account \<Rightarrow> voting) \<Rightarrow> (nat \<rightharpoonup> referendum_info) \<Rightarrow> bool" where
  "tallies_ok A V R \<longleftrightarrow>
     (\<forall>i st k. R i = Some (Ongoing st) \<longrightarrow> part k (rf_tally st) = (\<Sum>a\<in>A. share (V a) i k))"

definition indices_ok :: "(account \<Rightarrow> voting) \<Rightarrow> (nat \<rightharpoonup> referendum_info) \<Rightarrow> nat \<Rightarrow> bool" where
  "indices_ok V R n \<longleftrightarrow> (\<forall>a. voted (V a) \<subseteq> {..<n}) \<and> dom R \<subseteq> {..<n}"

definition books_ok :: "account set \<Rightarrow> nat \<Rightarrow> (account \<Rightarrow> voting) \<Rightarrow> (nat \<rightharpoonup> referendum_info) \<Rightarrow> nat \<Rightarrow> bool" where
  "books_ok A B V R n \<longleftrightarrow> votings_ok A B V \<and> tallies_ok A V R \<and> indices_ok V R n"

section \<open>Bounds\<close>

lemma conviction_votes_le: "dpart k (conviction_votes c b) \<le> 6 * b"
proof -
  have "b * n \<le> 6 * b" if "n \<le> 6" for n using mult_le_mono1 [OF that, of b] by (simp add: mult.commute)
  moreover have "u128_max < b * 6 \<Longrightarrow> u128_max \<le> 6 * b" by simp
  moreover have "u8_from c \<le> 6" by (cases c) simp_all
  ultimately show ?thesis
    by (cases c; cases "k = Turnout") (auto simp: dpart_def conviction_votes_def checked_div_def checked_mul_def)
qed

lemma given_le: "voting_ok A B a v \<Longrightarrow> dpart k (given v t) \<le> 6 * B"
proof (cases v)
  case (Delegating b u c d p)
  moreover assume "voting_ok A B a v"
  ultimately show ?thesis using conviction_votes_le [of k c b] by auto
qed simp

lemma vote_worth_le: "vote_fits B v \<Longrightarrow> part k (vote_worth v) \<le> 6 * B"
proof (cases v)
  case (Standard w b)
  assume "vote_fits B v"
  then have "b \<le> B" by (simp add: Standard)
  moreover have "part k (vote_worth v) \<le> dpart k (conviction_votes (rv_conviction w) b)"
    by (cases k) (simp_all add: Standard tally_new_def Let_def dpart_def)
  ultimately show ?thesis using conviction_votes_le [of k "rv_conviction w" b] by linarith
qed (cases k; simp)

lemma sum_given_le:
  assumes "capacity A B" "\<And>a. voting_ok A B a (V a)"
  shows "(\<Sum>a\<in>A. dpart k (given (V a) t)) \<le> u128_max"
proof -
  have "(\<Sum>a\<in>A. dpart k (given (V a) t)) \<le> card A * (6 * B)"
    using sum_bounded_above [of A "\<lambda>a. dpart k (given (V a) t)" "6 * B"] given_le [OF assms(2)] by simp
  with assms(1) show ?thesis by (simp add: capacity_def)
qed

lemma share_le:
  assumes "voting_ok A B a v"
  shows "share v i k + (\<Sum>t\<in>A. dpart k (given v t)) \<le> 6 * B + dpart k (received v)"
proof (cases v)
  case (Direct votes d p)
  have "part k (vote_worth w) \<le> 6 * B" if "map_of votes i = Some w" for w
    using assms vote_worth_le [of B w k] map_of_SomeD [OF that] by (auto simp: Direct)
  then show ?thesis using delegated_worth_le [of k _ d] by (auto simp: Direct intro: add_mono split: option.splits)
next
  case (Delegating b t c d p)
  have "(\<Sum>u\<in>A. dpart k (given v u)) \<le> dpart k (conviction_votes c b)"
  proof (cases "finite A")
    case True
    have "(\<Sum>u\<in>A. dpart k (given v u)) = (\<Sum>u\<in>A. if u = t then dpart k (conviction_votes c b) else 0)"
      by (rule sum.cong) (simp_all add: Delegating)
    with True show ?thesis by simp
  qed simp
  with assms conviction_votes_le [of k c b] show ?thesis by (simp add: Delegating)
qed

lemma sum_share_le:
  assumes "capacity A B" "votings_ok A B V"
  shows "(\<Sum>a\<in>A. share (V a) i k) \<le> u128_max"
proof -
  let ?G = "\<Sum>a\<in>A. \<Sum>t\<in>A. dpart k (given (V a) t)"
  have vok: "voting_ok A B a (V a)" for a using assms(2) by (simp add: votings_ok_def)
  have "(\<Sum>a\<in>A. share (V a) i k) + ?G = (\<Sum>a\<in>A. share (V a) i k + (\<Sum>t\<in>A. dpart k (given (V a) t)))"
    by (simp add: sum.distrib)
  also have "\<dots> \<le> (\<Sum>a\<in>A. 6 * B + dpart k (received (V a)))"
    by (intro sum_mono share_le [OF vok])
  also have "\<dots> = card A * (6 * B) + (\<Sum>t\<in>A. \<Sum>a\<in>A. dpart k (given (V a) t))"
    using assms(2) by (simp add: votings_ok_def sum.distrib)
  also have "(\<Sum>t\<in>A. \<Sum>a\<in>A. dpart k (given (V a) t)) = ?G" by (rule sum.swap)
  finally show ?thesis using assms(1) by (simp add: capacity_def)
qed

section \<open>Changing one account\<close>

lemma sum_upd:
  fixes f :: "'v \<Rightarrow> nat"
  assumes "finite A" "who \<in> A"
  shows "(\<Sum>a\<in>A. f ((V(who := v)) a)) + f (V who) = (\<Sum>a\<in>A. f (V a)) + f v"
proof -
  have "(\<Sum>a\<in>A - {who}. f ((V(who := v)) a)) = (\<Sum>a\<in>A - {who}. f (V a))" by (rule sum.cong) auto
  then show ?thesis using sum.remove [OF assms, of "\<lambda>a. f ((V(who := v)) a)"] sum.remove [OF assms, of "\<lambda>a. f (V a)"]
    by simp
qed

lemma votings_update:
  assumes "votings_ok A B V" "who \<in> A" "voting_ok A B who v" "received v = received (V who)" "given v = given (V who)"
  shows "votings_ok A B (V(who := v))"
  using assms by (auto simp: votings_ok_def fun_upd_def cong: if_cong intro!: sum.cong)

lemma share_le_tally:
  assumes "capacity A B" "books_ok A B V R n" "who \<in> A" "R i = Some (Ongoing st)"
  shows "share (V who) i k \<le> part k (rf_tally st)"
  using assms member_le_sum [OF assms(3), of "\<lambda>a. share (V a) i k"]
  by (simp add: books_ok_def tallies_ok_def capacity_def)

lemma tally_has_room:
  assumes "capacity A B" "books_ok A B V R n" "who \<in> A" "R i = Some (Ongoing st)" "votings_ok A B (V(who := v))"
  shows "part k (rf_tally st) + share v i k \<le> u128_max + share (V who) i k"
  using assms sum_share_le [OF assms(1,5), of i k] sum_upd [of A who "\<lambda>v. share v i k" V v]
  by (simp add: books_ok_def tallies_ok_def capacity_def)

lemma books_okD:
  assumes "books_ok A B V R n"
  shows "votings_ok A B V" "tallies_ok A V R" "voted (V a) \<subseteq> {..<n}" "R i \<noteq> None \<Longrightarrow> i < n"
    "a \<notin> A \<Longrightarrow> V a = voting_default" "voting_ok A B a (V a)"
  using assms by (auto simp: books_ok_def indices_ok_def votings_ok_def)

text \<open>An account changes its votes: tallies move by the difference of what it contributes.\<close>

lemma books_update:
  assumes cap: "capacity A B" and ok: "books_ok A B V R n" and who: "who \<in> A" and v: "voting_ok A B who v"
    and rec: "received v = received (V who)" and giv: "given v = given (V who)" and vot: "voted v \<subseteq> {..<n}"
    and R: "\<And>i st'. R' i = Some (Ongoing st') \<Longrightarrow> \<exists>st. R i = Some (Ongoing st) \<and>
      (\<forall>k. part k (rf_tally st') + share (V who) i k = part k (rf_tally st) + share v i k)"
    and dom: "dom R' \<subseteq> {..<n}"
  shows "books_ok A B (V(who := v)) R' n"
proof -
  have fin: "finite A" using cap by (simp add: capacity_def)
  have "votings_ok A B (V(who := v))" by (rule votings_update [OF books_okD(1) [OF ok] who v rec giv])
  moreover have "tallies_ok A (V(who := v)) R'"
  proof -
    have "part k (rf_tally st') = (\<Sum>a\<in>A. share ((V(who := v)) a) i k)" if st': "R' i = Some (Ongoing st')" for i st' k
    proof -
      obtain st where st: "R i = Some (Ongoing st)" "part k (rf_tally st') + share (V who) i k = part k (rf_tally st) + share v i k"
        using R [OF st'] by blast
      have "part k (rf_tally st) = (\<Sum>a\<in>A. share (V a) i k)" using ok st(1) by (simp add: books_ok_def tallies_ok_def)
      then show ?thesis using st(2) sum_upd [OF fin who, of "\<lambda>v. share v i k" V v] by linarith
    qed
    then show ?thesis by (simp add: tallies_ok_def)
  qed
  moreover have "indices_ok (V(who := v)) R' n" using ok vot dom by (auto simp: books_ok_def indices_ok_def)
  ultimately show ?thesis by (simp add: books_ok_def)
qed

section \<open>Changing a delegation\<close>

text \<open>An account changes what it gives to \<open>t\<close>, which holds the delegations \<open>e\<close> afterwards.\<close>

abbreviation receiving :: "vote_delegations \<Rightarrow> voting \<Rightarrow> voting" where
  "receiving e v \<equiv> set_common e (voting_prior v) v"

lemma receiving_simps [simp]:
  "given (receiving e v) = given v" "received (receiving e v) = e" "voted (receiving e v) = voted v"
  "voting_ok A B a (receiving e v) = voting_ok A B a v"
  by (cases v; auto)+

lemma votings_shift:
  assumes cap: "capacity A B" and ok: "votings_ok A B V" and in_A: "who \<in> A" "t \<in> A" "t \<noteq> who"
    and w: "voting_ok A B who w" "received w = received (V who)" "\<And>u. u \<noteq> t \<Longrightarrow> given w u = given (V who) u"
    and e: "\<And>k. dpart k e + dpart k (given (V who) t) = dpart k (received (V t)) + dpart k (given w t)"
  shows "votings_ok A B (V(t := receiving e (V t), who := w))"
proof -
  let ?V1 = "V(t := receiving e (V t))"
  have fin: "finite A" using cap by (simp add: capacity_def)
  have giv: "given (?V1 a) = given (V a)" for a by simp
  have sum: "(\<Sum>a\<in>A. dpart k (given ((?V1(who := w)) a) u)) + dpart k (given (V who) u) =
      dpart k (received (V u)) + dpart k (given w u)" for u k
    using sum_upd [OF fin in_A(1), of "\<lambda>v. dpart k (given v u)" ?V1 w] ok unfolding giv by (simp add: votings_ok_def)
  have "dpart k (received ((?V1(who := w)) u)) = (\<Sum>a\<in>A. dpart k (given ((?V1(who := w)) a) u))" for u k
  proof (cases "u = t")
    case True
    then show ?thesis using sum [of k u] e [of k] in_A(3) by simp
  next
    case False
    then show ?thesis using sum [of k u] w(2,3) by (cases "u = who") simp_all
  qed
  then show ?thesis using ok w(1) in_A by (auto simp: votings_ok_def)
qed

lemma tallies_shift:
  assumes fin: "finite A" and in_A: "who \<in> A" "t \<in> A" "t \<noteq> who" and ok: "tallies_ok A V R"
    and idle: "\<And>i k. share (V who) i k = 0" "\<And>i k. share w i k = 0"
    and R: "\<And>i st'. R' i = Some (Ongoing st') \<Longrightarrow> \<exists>st. R i = Some (Ongoing st) \<and>
      (\<forall>k. part k (rf_tally st') + share (V t) i k = part k (rf_tally st) + share (receiving e (V t)) i k)"
  shows "tallies_ok A (V(t := receiving e (V t), who := w)) R'"
proof -
  let ?V1 = "V(t := receiving e (V t))"
  have "part k (rf_tally st') = (\<Sum>a\<in>A. share ((?V1(who := w)) a) i k)" if st': "R' i = Some (Ongoing st')" for i st' k
  proof -
    obtain st where st: "R i = Some (Ongoing st)"
      "part k (rf_tally st') + share (V t) i k = part k (rf_tally st) + share (receiving e (V t)) i k"
      using R [OF st'] by blast
    have "part k (rf_tally st) = (\<Sum>a\<in>A. share (V a) i k)" using ok st(1) by (simp add: tallies_ok_def)
    then show ?thesis
      using st(2) sum_upd [OF fin in_A(2), of "\<lambda>v. share v i k" V "receiving e (V t)"]
        sum_upd [OF fin in_A(1), of "\<lambda>v. share v i k" ?V1 w] idle in_A(3) by simp
  qed
  then show ?thesis by (simp add: tallies_ok_def)
qed

text \<open>The tallies after a change of the delegations of an account that has cast \<open>votes\<close>.\<close>

fun bump :: "(bool \<Rightarrow> tally \<Rightarrow> tally) \<Rightarrow> account_vote option \<Rightarrow> referendum_info option \<Rightarrow> referendum_info option" where
  "bump f (Some (Standard v b)) (Some (Ongoing st)) = Some (Ongoing (st\<lparr>rf_tally := f (rv_aye v) (rf_tally st)\<rparr>))"
| "bump f v r = r"

fun bumped :: "(bool \<Rightarrow> tally \<Rightarrow> tally) \<Rightarrow> voting \<Rightarrow> (nat \<rightharpoonup> referendum_info) \<Rightarrow> (nat \<rightharpoonup> referendum_info)" where
  "bumped f (Direct votes d p) R = (\<lambda>i. bump f (map_of votes i) (R i))"
| "bumped f (Delegating b t c d p) R = R"

lemma bump_None [simp]: "bump f v r = None \<longleftrightarrow> r = None"
  by (cases "(f, v, r)" rule: bump.cases) auto

lemma dom_bumped [simp]: "dom (bumped f v R) = dom R"
  by (cases v) (auto simp: dom_def)

lemma bumped_Finished: "bumped f v R i = Some (Finished a e) \<longleftrightarrow> R i = Some (Finished a e)"
  by (cases v; cases "(f, map_of (case v of Direct votes d p \<Rightarrow> votes | _ \<Rightarrow> []) i, R i)" rule: bump.cases) auto

lemma bumped_Ongoing:
  assumes run: "bumped f v R i = Some (Ongoing st')"
    and standard: "\<And>w b votes d p st. v = Direct votes d p \<Longrightarrow> map_of votes i = Some (Standard w b) \<Longrightarrow>
      R i = Some (Ongoing st) \<Longrightarrow> P st (st\<lparr>rf_tally := f (rv_aye w) (rf_tally st)\<rparr>)"
    and same: "\<And>st. R i = Some (Ongoing st) \<Longrightarrow> (\<And>e k. share (receiving e v) i k = share v i k) \<Longrightarrow> P st st"
  shows "\<exists>st. R i = Some (Ongoing st) \<and> P st st'"
proof (cases v)
  case (Direct votes d p)
  consider w b where "map_of votes i = Some (Standard w b)" | "\<And>w b. map_of votes i \<noteq> Some (Standard w b)" by blast
  then show ?thesis
  proof cases
    case (1 w b)
    then show ?thesis using run standard [OF Direct] by (cases "R i") (auto simp: Direct elim!: bump.elims)
  next
    case 2
    then have "share (receiving e v) i k = share v i k" for e k
      by (auto simp: Direct split: option.splits) (metis account_vote.exhaust delegated_worth.simps(2))
    moreover have "R i = Some (Ongoing st')" using run 2 by (auto simp: Direct elim!: bump.elims)
    ultimately show ?thesis using same by blast
  qed
next
  case Delegating
  then show ?thesis using run same by auto
qed

lemma bumped_reduce:
  assumes ok: "tallies_ok A V R" and t: "finite A" "t \<in> A" and e: "\<And>k. dpart k (received (V t)) = dpart k e + dpart k a"
    and run: "bumped (\<lambda>aye. tally_reduce aye a) (V t) R i = Some (Ongoing st')"
  shows "\<exists>st. R i = Some (Ongoing st) \<and>
    (\<forall>k. part k (rf_tally st') + share (V t) i k = part k (rf_tally st) + share (receiving e (V t)) i k)"
proof (rule bumped_Ongoing [OF run], rule allI)
  fix w b votes d p st k
  assume V: "V t = Direct votes d p" and m: "map_of votes i = Some (Standard w b)" and R: "R i = Some (Ongoing st)"
  let ?v = "Standard w b"
  have "part k (rf_tally st) = (\<Sum>a\<in>A. share (V a) i k)" using ok R by (simp add: tallies_ok_def)
  then have "share (V t) i k \<le> part k (rf_tally st)" using member_le_sum [OF t(2), of "\<lambda>a. share (V a) i k"] t(1) by simp
  moreover have "part k (delegated_worth ?v d) = part k (delegated_worth ?v e) + part k (delegated_worth ?v a)"
    by (rule delegated_worth_shift) (use e [of k] V in simp)
  ultimately show "part k (rf_tally (st\<lparr>rf_tally := tally_reduce (rv_aye w) a (rf_tally st)\<rparr>)) + share (V t) i k =
      part k (rf_tally st) + share (receiving e (V t)) i k"
    by (simp add: V m tally_reduce_part [where b = b] del: delegated_worth.simps)
qed simp

lemma bumped_increase:
  assumes fits: "\<And>st k. R i = Some (Ongoing st) \<Longrightarrow> part k (rf_tally st) + share (receiving e v) i k \<le> u128_max + share v i k"
    and e: "\<And>k. dpart k e = dpart k (received v) + dpart k a"
    and run: "bumped (\<lambda>aye. tally_increase aye a) v R i = Some (Ongoing st')"
  shows "\<exists>st. R i = Some (Ongoing st) \<and>
    (\<forall>k. part k (rf_tally st') + share v i k = part k (rf_tally st) + share (receiving e v) i k)"
proof (rule bumped_Ongoing [OF run], rule allI)
  fix w b votes d p st k
  assume V: "v = Direct votes d p" and m: "map_of votes i = Some (Standard w b)" and R: "R i = Some (Ongoing st)"
  let ?v = "Standard w b"
  have dw: "part k (delegated_worth ?v e) = part k (delegated_worth ?v d) + part k (delegated_worth ?v a)" for k
    by (rule delegated_worth_shift) (use e [of k] V in simp)
  then have "part k (rf_tally st) + part k (delegated_worth ?v a) \<le> u128_max" for k
    using fits [OF R, of k] by (simp add: V m del: delegated_worth.simps)
  from tally_increase_part [OF this, of k]
  show "part k (rf_tally (st\<lparr>rf_tally := tally_increase (rv_aye w) a (rf_tally st)\<rparr>)) + share v i k =
      part k (rf_tally st) + share (receiving e v) i k"
    by (simp add: V m dw del: delegated_worth.simps)
qed simp

lemma books_undelegate:
  assumes cap: "capacity A B" and ok: "books_ok A B V R n" and V: "V who = Delegating b t c d p"
    and e: "e = delegations_saturating_sub (received (V t)) (conviction_votes c b)"
  shows "books_ok A B (V(t := receiving e (V t), who := Direct [] d p'))
    (bumped (\<lambda>aye. tally_reduce aye (conviction_votes c b)) (V t) R) n"
proof -
  have fin: "finite A" using cap by (simp add: capacity_def)
  have vs: "votings_ok A B V" and ts: "tallies_ok A V R" and ix: "indices_ok V R n" using ok by (auto simp: books_ok_def)
  have vw: "voting_ok A B who (V who)" "who \<notin> A \<Longrightarrow> V who = voting_default" using vs unfolding votings_ok_def by blast+
  then have in_A: "who \<in> A" "t \<in> A" "t \<noteq> who" using V by (auto simp: voting_default_def)
  have "dpart k (received (V t)) = (\<Sum>a\<in>A. dpart k (given (V a) t))" for k using vs by (simp add: votings_ok_def)
  then have "dpart k (given (V who) t) \<le> dpart k (received (V t))" for k
    using member_le_sum [OF in_A(1), of "\<lambda>a. dpart k (given (V a) t)"] fin by simp
  then have e': "dpart k (received (V t)) = dpart k e + dpart k (conviction_votes c b)" for k
    using V by (simp add: e dpart_sub)
  have "votings_ok A B (V(t := receiving e (V t), who := Direct [] d p'))"
    by (rule votings_shift [OF cap vs in_A]) (simp_all add: V e')
  moreover have "tallies_ok A (V(t := receiving e (V t), who := Direct [] d p')) (bumped (\<lambda>aye. tally_reduce aye (conviction_votes c b)) (V t) R)"
    by (rule tallies_shift [OF fin in_A ts _ _ bumped_reduce [OF ts fin in_A(2) e']]) (simp_all add: V)
  moreover have "indices_ok (V(t := receiving e (V t), who := Direct [] d p')) (bumped (\<lambda>aye. tally_reduce aye (conviction_votes c b)) (V t) R) n"
    using ix by (auto simp: indices_ok_def)
  ultimately show ?thesis by (simp add: books_ok_def)
qed

lemma books_delegate:
  assumes cap: "capacity A B" and ok: "books_ok A B V R n" and V: "V who = Direct [] d p"
    and in_A: "who \<in> A" "t \<in> A" "t \<noteq> who" and b: "b \<le> B"
    and e: "e = delegations_saturating_add (received (V t)) (conviction_votes c b)"
  shows "books_ok A B (V(t := receiving e (V t), who := Delegating b t c d p'))
    (bumped (\<lambda>aye. tally_increase aye (conviction_votes c b)) (V t) R) n"
proof -
  let ?w = "Delegating b t c d p'"
  have fin: "finite A" using cap by (simp add: capacity_def)
  have vs: "votings_ok A B V" and ts: "tallies_ok A V R" and ix: "indices_ok V R n" using ok by (auto simp: books_ok_def)
  have e': "dpart k e = dpart k (received (V t)) + dpart k (conviction_votes c b)" for k
  proof -
    have "voting_ok A B a ((V(who := ?w)) a)" for a using vs in_A b by (simp add: votings_ok_def)
    then have "(\<Sum>a\<in>A. dpart k (given ((V(who := ?w)) a) t)) \<le> u128_max" by (rule sum_given_le [OF cap])
    then have "dpart k (received (V t)) + dpart k (conviction_votes c b) \<le> u128_max"
      using sum_upd [OF fin in_A(1), of "\<lambda>v. dpart k (given v t)" V ?w] vs by (simp add: votings_ok_def V)
    then show ?thesis by (simp add: e dpart_add)
  qed
  let ?V' = "V(t := receiving e (V t), who := ?w)"
  have vs': "votings_ok A B ?V'"
    by (rule votings_shift [OF cap vs in_A]) (simp_all add: V e' in_A b)
  have fits: "part k (rf_tally st) + share (receiving e (V t)) i k \<le> u128_max + share (V t) i k" if "R i = Some (Ongoing st)" for i st k
  proof -
    have "part k (rf_tally st) = (\<Sum>a\<in>A. share (V a) i k)" using ts that by (simp add: tallies_ok_def)
    then show ?thesis
      using sum_share_le [OF cap vs', of i k] sum_upd [OF fin in_A(2), of "\<lambda>v. share v i k" V "receiving e (V t)"]
        sum_upd [OF fin in_A(1), of "\<lambda>v. share v i k" "V(t := receiving e (V t))" ?w] in_A(3) V by simp
  qed
  have "tallies_ok A ?V' (bumped (\<lambda>aye. tally_increase aye (conviction_votes c b)) (V t) R)"
  proof (rule tallies_shift [OF fin in_A ts])
    fix i st'
    assume run: "bumped (\<lambda>aye. tally_increase aye (conviction_votes c b)) (V t) R i = Some (Ongoing st')"
    show "\<exists>st. R i = Some (Ongoing st) \<and>
        (\<forall>k. part k (rf_tally st') + share (V t) i k = part k (rf_tally st) + share (receiving e (V t)) i k)"
      by (rule bumped_increase [OF _ e' run]) (rule fits)
  qed (simp_all add: V)
  moreover have "indices_ok ?V' (bumped (\<lambda>aye. tally_increase aye (conviction_votes c b)) (V t) R) n"
    using ix by (auto simp: indices_ok_def)
  ultimately show ?thesis using vs' by (simp add: books_ok_def)
qed

end
