(* ===== verification/Democracy_Vote_Effects.thy ===== *)
theory Democracy_Vote_Effects
  imports Democracy_Calls Democracy_Books
begin

text \<open>
  What the voting functions of the pallet \<^verbatim>\<open>democracy\<close> do to the books: voting and removing a vote, delegating and
  undelegating keep \<open>books_ok\<close>, and what they leave in the storage is described exactly. The list of votes of an
  account is a sorted vector (\<^verbatim>\<open>Sorted_Vectors\<close>) that represents the map from referenda to votes.
\<close>

section \<open>The vector of votes\<close>

interpretation ref_votes: sorted_vector "\<lambda>x y. nat_cmp (fst x) (fst y)" "fst :: nat \<times> account_vote \<Rightarrow> nat"
  by unfold_locales simp

lemma search_vote_as_key: "search_vote i votes = binary_search_by (\<lambda>x. nat_cmp (fst x) (fst (i, v))) votes"
  by (simp add: search_vote_def)

lemma votes_map_eqI:
  assumes "votes_ordered votes" "\<And>i v. (i, v) \<in> set votes \<longleftrightarrow> f i = Some v"
  shows "map_of votes = f"
proof (rule ext)
  fix i
  have "distinct (map fst votes)" by (rule ref_votes.distinct_keys [OF assms(1)])
  then have "map_of votes i = Some v \<longleftrightarrow> f i = Some v" for v using assms(2) by (simp add: map_of_eq_Some_iff)
  then show "map_of votes i = f i" by (metis option.exhaust)
qed

lemma votes_map_set: "votes_ordered votes \<Longrightarrow> (i, v) \<in> set votes \<longleftrightarrow> map_of votes i = Some v"
  by (simp add: map_of_eq_Some_iff ref_votes.distinct_keys)

lemma search_vote_found:
  assumes "votes_ordered votes" "search_vote i votes = Inr j"
  shows "j < length votes" "fst (votes ! j) = i" "map_of votes i = Some (snd (votes ! j))"
proof -
  show j: "j < length votes" "fst (votes ! j) = i"
    using ref_votes.search_found [of "(i, undefined)" votes j] assms(2) by (auto simp: search_vote_def)
  then have "(i, snd (votes ! j)) \<in> set votes" by (metis nth_mem prod.collapse)
  then show "map_of votes i = Some (snd (votes ! j))" by (simp add: votes_map_set assms(1))
qed

lemma search_vote_missing:
  assumes "votes_ordered votes" "search_vote i votes = Inl j"
  shows "map_of votes i = None" "votes_ordered (insert_at j (i, v) votes)" "map_of (insert_at j (i, v) votes) = (map_of votes)(i \<mapsto> v)"
proof -
  note s = assms(2) [unfolded search_vote_as_key [of i votes v]]
  have i: "i \<notin> fst ` set votes" using ref_votes.search_missing(3) [OF assms(1) s] by simp
  then show "map_of votes i = None" by (simp add: map_of_eq_None_iff)
  show o: "votes_ordered (insert_at j (i, v) votes)" by (rule ref_votes.ordered_insert_at [OF assms(1) s])
  show "map_of (insert_at j (i, v) votes) = (map_of votes)(i \<mapsto> v)"
    by (rule votes_map_eqI [OF o]) (use i in \<open>auto simp: set_insert_at votes_map_set [OF assms(1), symmetric] image_iff\<close>)
qed

lemma votes_replaced:
  assumes "votes_ordered votes" "search_vote i votes = Inr j"
  shows "votes_ordered (votes[j := (i, v)])" "map_of (votes[j := (i, v)]) = (map_of votes)(i \<mapsto> v)"
proof -
  note f = search_vote_found [OF assms]
  have keys: "map fst (votes[j := (i, v)]) = map fst votes" 
    by (metis f(1,2) fst_conv list_update_id map_update nth_map)
  then show o: "votes_ordered (votes[j := (i, v)])"
    using assms(1) by (metis (no_types) sorted_wrt_map)
  have "map_of (votes[j := (i, v)]) k = ((map_of votes)(i \<mapsto> v)) k" for k
  proof (cases "k = i")
    case True
    have "(i, v) \<in> set (votes[j := (i, v)])" using f(1) by (rule set_update_memI)
    with True show ?thesis by (simp add: votes_map_set [OF o])
  next
    case False
    have "map_of (votes[j := (i, v)]) k = map_of (take j votes @ (i, v) # drop (Suc j) votes) k"
      using f(1) by (simp only: upd_conv_take_nth_drop)
    also have "\<dots> = map_of (take j votes @ votes ! j # drop (Suc j) votes) k"
      using False f(2) by (simp add: map_add_def cong: option.case_cong)
    also have "\<dots> = map_of votes k" using f(1) by (simp only: id_take_nth_drop [symmetric])
    finally show ?thesis using False by simp
  qed
  then show "map_of (votes[j := (i, v)]) = (map_of votes)(i \<mapsto> v)" by (rule ext)
qed

lemma votes_removed:
  assumes "votes_ordered votes" "search_vote i votes = Inr j"
  shows "votes_ordered (remove_at j votes)" "map_of (remove_at j votes) = (map_of votes)(i := None)"
proof -
  show o: "votes_ordered (remove_at j votes)" by (rule ref_votes.ordered_remove_at [OF assms(1)])
  have "set (remove_at j votes) = {x \<in> set votes. fst x \<noteq> i}"
    using ref_votes.set_remove_at [OF assms(1), of "(i, undefined)" j] assms(2) by (simp add: search_vote_def)
  then show "map_of (remove_at j votes) = (map_of votes)(i := None)"
    by (intro votes_map_eqI [OF o]) (auto simp: votes_map_set [OF assms(1)])
qed

lemma votes_map_subset: "map_of votes' = (map_of votes)(i := x) \<Longrightarrow> votes_ordered votes' \<Longrightarrow> votes_ordered votes \<Longrightarrow>
    set votes' \<subseteq> set votes \<union> (case x of Some v \<Rightarrow> {(i, v)} | None \<Rightarrow> {})"
  by (auto simp: votes_map_set split: option.splits if_splits)

section \<open>Casting a vote\<close>

lemma with_delegations_part:
  assumes "\<And>k. part k t + part k (delegated_worth v d) \<le> u128_max"
  shows "part k (with_delegations v d t) = part k t + part k (delegated_worth v d)"
  using assms by (cases v) (auto simp: with_delegations_def as_standard_def tally_increase_part simp del: delegated_worth.simps(1))

lemma without_delegations_part: "part k (without_delegations v d t) = part k t - part k (delegated_worth v d)"
  by (cases v) (auto simp: without_delegations_def as_standard_def tally_reduce_part simp del: delegated_worth.simps(1))

text \<open>What a vote for \<open>i\<close> in the list \<open>votes\<close> counts, with the delegations of the voter.\<close>

abbreviation counted :: "(nat \<times> account_vote) list \<Rightarrow> vote_delegations \<Rightarrow> nat \<Rightarrow> side \<Rightarrow> nat" where
  "counted votes d \<equiv> share (Direct votes d no_prior)"

lemma share_Direct: "share (Direct votes d p) i k = counted votes d i k"
  by simp

lemma record_vote_effect:
  assumes run: "record_vote T i vote votes d t s = (Inr (votes', t'), s')" and o: "votes_ordered votes"
    and le: "\<And>k. counted votes d i k \<le> part k t"
  shows "s' = s \<and> votes_ordered votes' \<and> map_of votes' = (map_of votes)(i \<mapsto> vote) \<and>
    (\<forall>k. part k t = part k t' + counted votes d i k)"
proof (cases "search_vote i votes")
  case (Inl j)
  with run search_vote_missing [OF o Inl] show ?thesis
    by (auto simp: record_vote_def prog_simps split: if_splits)
next
  case (Inr j)
  note f = search_vote_found [OF o Inr]
  obtain t1 where t1: "tally_remove (snd (votes ! j)) t = Some t1" "t' = without_delegations (snd (votes ! j)) d t1"
      "votes' = votes[j := (i, vote)]" "s' = s"
    using run Inr f(2) by (auto simp: record_vote_def prog_simps)
  have "part k t = part k t' + counted votes d i k" for k
    using tally_remove_Some [OF t1(1), of k] le [of k] f(3) by (simp add: t1(2) without_delegations_part)
  with t1 votes_replaced [OF o Inr] show ?thesis by simp
qed

lemma record_vote_state: "record_vote T i vote votes d t s = (r, s') \<Longrightarrow> s' = s"
  by (auto simp: record_vote_def prog_defs split: sum.splits option.splits if_splits)

lemma try_voteE:
  assumes "try_vote T who i vote s = (Inr (), s')"
  obtains st votes d p votes' t t' l where "ReferendumInfoOf s i = Some (Ongoing st)"
    "vote_balance vote \<le> c_total_balance (dm_fungible T) who (ext s)" "VotingOf s who = Direct votes d p"
    "record_vote T i vote votes d (rf_tally st) s = (Inr (votes', t), s)" "tally_add vote t = Some t'"
    "c_extend_freeze (dm_fungible T) VoteFreeze who (vote_balance vote) (ext s) = (Inr (), l)"
    "s' = s\<lparr>democracy_events := democracy_events s @ [Voted who i vote], VotingOf := (VotingOf s)(who := Direct votes' d p),
       ext := l, ReferendumInfoOf := (ReferendumInfoOf s)(i \<mapsto> Ongoing (st\<lparr>rf_tally := with_delegations vote d t'\<rparr>))\<rparr>"
proof -
  from assms show ?thesis
    unfolding try_vote_def find_referendum_status_def ensure_ongoing_def
    by (elim prog_elims, clarsimp simp: prog_simps democracy_access_defs split: voting.splits referendum_info.splits)
       (rule that, assumption+, auto dest: record_vote_state)
qed

lemma vote_balance_fits:
  assumes "capacity A B" "who \<in> A" "vote_balance v \<le> B"
  shows "vote_fits B v"
proof (cases v)
  case (Split aye nay)
  have "0 < card A" using assms(1,2) by (auto simp: capacity_def card_gt_0_iff)
  then have "6 * B \<le> card A * (6 * B)" by simp
  then have "6 * B \<le> u128_max" using assms(1) by (meson capacity_def order_trans)
  moreover have "0 < u128_max" by (simp add: u128_max_def)
  ultimately have "B < u128_max" by linarith
  then show ?thesis using assms(3) by (simp add: Split vote_balance_def saturating_add_def min_def split: if_splits)
qed (use assms(3) in \<open>simp add: vote_balance_def\<close>)

text \<open>The record of an account after it has voted, and after its vote is removed.\<close>

lemma new_record_ok:
  assumes ok: "books_ok A B V R n" and V: "V who = Direct votes d p" and v: "votes_ordered votes'" "map_of votes' = (map_of votes)(i := x)"
    and x: "\<And>w. x = Some w \<Longrightarrow> vote_fits B w \<and> i < n"
  shows "voting_ok A B who (Direct votes' d p')" "voted (Direct votes' d p') \<subseteq> {..<n}"
proof -
  have o: "votes_ordered votes" "\<forall>y\<in>set votes. vote_fits B (snd y)" using books_okD(6) [OF ok, of who] V by simp_all
  have sub: "set votes' \<subseteq> set votes \<union> (case x of Some w \<Rightarrow> {(i, w)} | None \<Rightarrow> {})" by (rule votes_map_subset [OF v(2,1) o(1)])
  show "voting_ok A B who (Direct votes' d p')" using sub o(2) x v(1) by (fastforce split: option.splits)
  show "voted (Direct votes' d p') \<subseteq> {..<n}" using sub books_okD(3) [OF ok, of who] V x by (fastforce split: option.splits)
qed

lemma try_vote_books:
  assumes cap: "capacity A B" and ok: "books_ok A B (VotingOf s) (ReferendumInfoOf s) (ReferendumCount s)" and who: "who \<in> A"
    and bal: "c_total_balance (dm_fungible T) who (ext s) \<le> B" and run: "try_vote T who i vote s = (Inr (), s')"
  shows "books_ok A B (VotingOf s') (ReferendumInfoOf s') (ReferendumCount s')"
  using run
proof (rule try_voteE)
  fix st votes d p votes' t t' l
  assume st: "ReferendumInfoOf s i = Some (Ongoing st)" and b: "vote_balance vote \<le> c_total_balance (dm_fungible T) who (ext s)"
    and V: "VotingOf s who = Direct votes d p" and rec: "record_vote T i vote votes d (rf_tally st) s = (Inr (votes', t), s)"
    and add: "tally_add vote t = Some t'"
    and s': "s' = s\<lparr>democracy_events := democracy_events s @ [Voted who i vote], VotingOf := (VotingOf s)(who := Direct votes' d p),
       ext := l, ReferendumInfoOf := (ReferendumInfoOf s)(i \<mapsto> Ongoing (st\<lparr>rf_tally := with_delegations vote d t'\<rparr>))\<rparr>"
  let ?v = "Direct votes' d p"
  have o: "votes_ordered votes" using books_okD(6) [OF ok, of who] V by simp
  have "counted votes d i k \<le> part k (rf_tally st)" for k using share_le_tally [OF cap ok who st, of k] V by simp
  then have r: "votes_ordered votes'" "map_of votes' = (map_of votes)(i \<mapsto> vote)"
      "\<And>k. part k (rf_tally st) = part k t + counted votes d i k"
    using record_vote_effect [OF rec o] by auto
  have fits: "vote_fits B vote" using vote_balance_fits [OF cap who] b bal by simp
  have v: "voting_ok A B who ?v" "voted ?v \<subseteq> {..<ReferendumCount s}"
    using new_record_ok [OF ok V r(1,2)] fits books_okD(4) [OF ok, of i] st by auto
  have vs': "votings_ok A B ((VotingOf s)(who := ?v))" by (rule votings_update [OF books_okD(1) [OF ok] who v(1)]) (simp_all add: V fun_eq_iff)
  have t': "part k t' + part k (delegated_worth vote d) = part k t + counted votes' d i k" for k
    using tally_add_Some [OF add, of k] by (simp add: r(2))
  then have "part k t' + part k (delegated_worth vote d) \<le> u128_max" for k
    using tally_has_room [OF cap ok who st vs', of k] r(3) [of k] V by simp
  then have "part k (with_delegations vote d t') + counted votes d i k = part k (rf_tally st) + counted votes' d i k" for k
    using t' [of k] r(3) [of k] by (simp add: with_delegations_part)
  moreover have "counted votes d j k = counted votes' d j k" if "j \<noteq> i" for j k using that by (simp add: r(2))
  ultimately have "books_ok A B ((VotingOf s)(who := ?v)) (ReferendumInfoOf s') (ReferendumCount s)"
    using books_okD(4) [OF ok] st
    by (intro books_update [OF cap ok who v(1) _ _ v(2)]) (auto simp: V s' fun_eq_iff split: if_splits)
  then show ?thesis by (simp add: s')
qed

section \<open>Removing a vote\<close>

text \<open>The prior lock after the vote \<open>v\<close> on a referendum in state \<open>info\<close> is removed at block \<open>now\<close>.\<close>

fun prior_after :: "('l, 'c) democracy_config_scheme \<Rightarrow> nat \<Rightarrow> account_vote \<Rightarrow> referendum_info option \<Rightarrow> prior_lock \<Rightarrow> prior_lock" where
  "prior_after T now v (Some (Finished approved e)) p =
     (case locked_if v approved of
        Some (periods, balance) \<Rightarrow>
          if now < unlock_block T e periods then accumulate (unlock_block T e periods) balance p else p
      | None \<Rightarrow> p)"
| "prior_after T now v r p = p"

fun tally_without :: "account_vote \<Rightarrow> vote_delegations \<Rightarrow> referendum_info option \<Rightarrow> referendum_info option \<Rightarrow> bool" where
  "tally_without v d (Some (Ongoing st)) r' \<longleftrightarrow>
     (\<exists>t. tally_remove v (rf_tally st) = Some t \<and> r' = Some (Ongoing (st\<lparr>rf_tally := without_delegations v d t\<rparr>)))"
| "tally_without v d r r' \<longleftrightarrow> r' = r"

lemma try_remove_voteE:
  assumes "try_remove_vote T who i scope s = (Inr (), s')"
  obtains (delegating) b t c d p where "VotingOf s who = Delegating b t c d p" "s' = s"
  | (removed) votes d p j r where "VotingOf s who = Direct votes d p" "search_vote i votes = Inr j"
    "tally_without (snd (votes ! j)) d (ReferendumInfoOf s i) r"
    "s' = s\<lparr>ReferendumInfoOf := (ReferendumInfoOf s)(i := r),
       VotingOf := (VotingOf s)(who := Direct (remove_at j votes) d
         (prior_after T (block_number s) (snd (votes ! j)) (ReferendumInfoOf s i) p))\<rparr>"
proof (cases "VotingOf s who")
  case (Delegating b t c d p)
  with assms that(1) show ?thesis by (simp add: try_remove_vote_def prog_simps)
next
  case (Direct votes d p)
  with assms obtain j where j: "search_vote i votes = Inr j"
    by (auto simp: try_remove_vote_def prog_simps split: sum.splits)
  note rm = that(2) [OF Direct j]
  show ?thesis
  proof (cases "ReferendumInfoOf s i")
    case None
    with assms Direct j have "s' = s\<lparr>VotingOf := (VotingOf s)(who := Direct (remove_at j votes) d p)\<rparr>"
      by (simp add: try_remove_vote_def prog_simps put_voting_def)
    moreover have "(ReferendumInfoOf s)(i := None) = ReferendumInfoOf s" using None by auto
    ultimately show ?thesis using None by (intro rm [of None]) simp_all
  next
    case (Some info)
    show ?thesis
    proof (cases info)
      case (Ongoing st)
      with assms Direct j Some obtain t where "tally_remove (snd (votes ! j)) (rf_tally st) = Some t"
        "s' = s\<lparr>ReferendumInfoOf := (ReferendumInfoOf s)(i \<mapsto> Ongoing (st\<lparr>rf_tally := without_delegations (snd (votes ! j)) d t\<rparr>)),
           VotingOf := (VotingOf s)(who := Direct (remove_at j votes) d p)\<rparr>"
        by (auto simp: try_remove_vote_def prog_simps democracy_access_defs Let_def)
      then show ?thesis using Some Ongoing by (intro rm) simp_all
    next
      case (Finished approved e)
      with assms Direct j Some have "s' = s\<lparr>VotingOf := (VotingOf s)(who := Direct (remove_at j votes) d
          (prior_after T (block_number s) (snd (votes ! j)) (ReferendumInfoOf s i) p))\<rparr>"
        by (auto simp: try_remove_vote_def prog_simps democracy_access_defs Let_def split: option.splits if_splits)
      moreover have "(ReferendumInfoOf s)(i := Some info) = ReferendumInfoOf s" using Some by auto
      ultimately show ?thesis using Some Finished by (intro rm [of "Some info"]) simp_all
    qed
  qed
qed

lemma try_remove_vote_books:
  assumes cap: "capacity A B" and ok: "books_ok A B (VotingOf s) (ReferendumInfoOf s) (ReferendumCount s)" and who: "who \<in> A"
    and run: "try_remove_vote T who i scope s = (Inr (), s')"
  shows "books_ok A B (VotingOf s') (ReferendumInfoOf s') (ReferendumCount s')"
  using run
proof (cases rule: try_remove_voteE)
  case (removed votes d p j r)
  let ?p = "prior_after T (block_number s) (snd (votes ! j)) (ReferendumInfoOf s i) p"
  let ?v = "Direct (remove_at j votes) d ?p"
  have o: "votes_ordered votes" using books_okD(6) [OF ok, of who] removed(1) by simp
  note f = search_vote_found [OF o removed(2)] and rm = votes_removed [OF o removed(2)]
  have v: "voting_ok A B who ?v" "voted ?v \<subseteq> {..<ReferendumCount s}"
    using new_record_ok [OF ok removed(1) rm] by auto
  have same: "share (VotingOf s who) n k = share ?v n k" if "n \<noteq> i" for n k using that removed(1) by (simp add: rm(2))
  have "part k (rf_tally st') + share (VotingOf s who) i k = part k (rf_tally st) + share ?v i k"
    if st: "ReferendumInfoOf s i = Some (Ongoing st)" and st': "r = Some (Ongoing st')" for st st' k
  proof -
    obtain t where t: "tally_remove (snd (votes ! j)) (rf_tally st) = Some t"
        "st' = st\<lparr>rf_tally := without_delegations (snd (votes ! j)) d t\<rparr>"
      using removed(3) st st' by auto
    show ?thesis
      using tally_remove_Some [OF t(1), of k] share_le_tally [OF cap ok who st, of k] f(3) removed(1)
      by (simp add: t(2) without_delegations_part rm(2))
  qed
  moreover have "r = Some (Ongoing st') \<Longrightarrow> \<exists>st. ReferendumInfoOf s i = Some (Ongoing st)" for st'
    using removed(3) by (cases "(snd (votes ! j), d, ReferendumInfoOf s i, r)" rule: tally_without.cases) auto
  moreover have "dom ((ReferendumInfoOf s)(i := r)) \<subseteq> {..<ReferendumCount s}"
    using removed(3) books_okD(4) [OF ok]
    by (cases "(snd (votes ! j), d, ReferendumInfoOf s i, r)" rule: tally_without.cases) (auto split: if_splits)
  ultimately have "books_ok A B ((VotingOf s)(who := ?v)) ((ReferendumInfoOf s)(i := r)) (ReferendumCount s)"
    using same by (intro books_update [OF cap ok who v(1) _ _ v(2)]) (fastforce simp: removed(1) fun_eq_iff split: if_splits)+
  then show ?thesis by (simp add: removed(4))
qed (use ok in simp)

end
