(* ===== verification/Democracy_Delegation_Effects.thy ===== *)
theory Democracy_Delegation_Effects
  imports Democracy_Vote_Effects
begin

text \<open>
  What delegating and undelegating in the pallet \<^verbatim>\<open>democracy\<close> do to the books: the delegations of the target and the
  tallies it has a standard vote in move together, and \<open>books_ok\<close> is kept.
\<close>

section \<open>The upstream account\<close>

lemma update_tallies_step:
  "(case v of
      Standard vote x \<Rightarrow>
        sbind (gets (\<lambda>s. ReferendumInfoOf s i)) (\<lambda>info.
        case info of
          Some (Ongoing status) \<Rightarrow> put_referendum i (Some (Ongoing (status\<lparr>rf_tally := f (rv_aye vote) (rf_tally status)\<rparr>)))
        | _ \<Rightarrow> ok ())
    | Split _ _ \<Rightarrow> ok ()) s =
   (Inr (), s\<lparr>ReferendumInfoOf := (ReferendumInfoOf s)(i := bump f (Some v) (ReferendumInfoOf s i))\<rparr>)"
proof (cases v)
  case (Standard w b)
  then show ?thesis
  proof (cases "ReferendumInfoOf s i")
    case (Some info)
    then show ?thesis using Standard
      by (cases info) (auto simp: prog_defs put_referendum_def fun_upd_idem)
  qed (auto simp: prog_defs fun_upd_idem)
qed (auto simp: prog_defs fun_upd_idem)

lemma update_tallies_run:
  "distinct (map fst votes) \<Longrightarrow>
   update_tallies f votes s = (Inr (), s\<lparr>ReferendumInfoOf := (\<lambda>i. bump f (map_of votes i) (ReferendumInfoOf s i))\<rparr>)"
proof (induction votes arbitrary: s)
  case Nil
  then show ?case by (simp add: update_tallies_def prog_defs)
next
  case (Cons x votes)
  obtain i v where x: "x = (i, v)" by (cases x)
  let ?s = "s\<lparr>ReferendumInfoOf := (ReferendumInfoOf s)(i := bump f (Some v) (ReferendumInfoOf s i))\<rparr>"
  have i: "map_of votes i = None" using Cons.prems by (simp add: x map_of_eq_None_iff)
  have "update_tallies f (x # votes) s = update_tallies f votes ?s"
    unfolding update_tallies_def for_each.simps seq_def sbind_def x case_prod_conv update_tallies_step by simp
  also have "\<dots> = (Inr (), ?s\<lparr>ReferendumInfoOf := (\<lambda>n. bump f (map_of votes n) (ReferendumInfoOf ?s n))\<rparr>)"
    by (rule Cons.IH) (use Cons.prems in simp)
  also have "(\<lambda>n. bump f (map_of votes n) (ReferendumInfoOf ?s n)) = (\<lambda>n. bump f (map_of (x # votes) n) (ReferendumInfoOf s n))"
    using i by (auto simp: x fun_eq_iff)
  finally show ?case by simp
qed

lemma upstream_run:
  assumes "voting_ok A B t (VotingOf s t)"
  shows "\<exists>n. increase_upstream_delegation t a s =
      (Inr n, s\<lparr>ReferendumInfoOf := bumped (\<lambda>aye. tally_increase aye a) (VotingOf s t) (ReferendumInfoOf s),
         VotingOf := (VotingOf s)(t := receiving (delegations_saturating_add (received (VotingOf s t)) a) (VotingOf s t))\<rparr>)"
    and "\<exists>n. reduce_upstream_delegation t a s =
      (Inr n, s\<lparr>ReferendumInfoOf := bumped (\<lambda>aye. tally_reduce aye a) (VotingOf s t) (ReferendumInfoOf s),
         VotingOf := (VotingOf s)(t := receiving (delegations_saturating_sub (received (VotingOf s t)) a) (VotingOf s t))\<rparr>)"
  using assms
  by (cases "VotingOf s t"; auto simp: increase_upstream_delegation_def reduce_upstream_delegation_def prog_defs put_voting_def
      update_tallies_run ref_votes.distinct_keys)+

section \<open>Undelegating and delegating\<close>

lemma try_undelegate_effect:
  assumes cap: "capacity A B" and ok: "books_ok A B (VotingOf s) (ReferendumInfoOf s) (ReferendumCount s)"
    and run: "try_undelegate T who s = (Inr n, s')"
  obtains b t c d p e R where "VotingOf s who = Delegating b t c d p" "t \<noteq> who"
    "s' = s\<lparr>ReferendumInfoOf := R, VotingOf := (VotingOf s)(t := receiving e (VotingOf s t),
       who := Direct [] d (accumulate (unlock_block T (block_number s) (lock_periods c)) b p)),
       democracy_events := democracy_events s @ [Undelegated who]\<rparr>"
    "R = bumped (\<lambda>aye. tally_reduce aye (conviction_votes c b)) (VotingOf s t) (ReferendumInfoOf s)"
    "books_ok A B (VotingOf s') R (ReferendumCount s)"
proof -
  obtain b t c d p where V: "VotingOf s who = Delegating b t c d p"
    using run by (auto simp: try_undelegate_def prog_simps split: voting.splits)
  have t: "t \<noteq> who" using books_okD(6) [OF ok, of who] V by simp
  let ?e = "delegations_saturating_sub (received (VotingOf s t)) (conviction_votes c b)"
  let ?p = "accumulate (unlock_block T (block_number s) (lock_periods c)) b p"
  obtain m where m: "reduce_upstream_delegation t (conviction_votes c b) s =
      (Inr m, s\<lparr>ReferendumInfoOf := bumped (\<lambda>aye. tally_reduce aye (conviction_votes c b)) (VotingOf s t) (ReferendumInfoOf s),
         VotingOf := (VotingOf s)(t := receiving ?e (VotingOf s t))\<rparr>)"
    using upstream_run(2) [OF books_okD(6) [OF ok, of t]] by blast
  have s': "s' = s\<lparr>ReferendumInfoOf := bumped (\<lambda>aye. tally_reduce aye (conviction_votes c b)) (VotingOf s t) (ReferendumInfoOf s),
      VotingOf := (VotingOf s)(t := receiving ?e (VotingOf s t), who := Direct [] d ?p),
      democracy_events := democracy_events s @ [Undelegated who]\<rparr>"
    using run m V by (auto simp: try_undelegate_def prog_simps democracy_access_defs voting_default_def)
  show thesis
    by (rule that [OF V t s']) (use books_undelegate [OF cap ok V refl, of ?p] in \<open>simp_all add: s'\<close>)
qed

lemma try_delegateE:
  assumes "try_delegate T who t c b s = (Inr n, s')"
  obtains voting s1 m l where "who \<noteq> t" "b \<le> c_total_balance (dm_fungible T) who (ext s)"
    "case VotingOf s who of
       Delegating b' t' c' d p \<Rightarrow> \<exists>m'. reduce_upstream_delegation t' (conviction_votes c' b') s = (Inr m', s1) \<and>
         voting = Delegating b t c d (accumulate (unlock_block T (block_number s1) (lock_periods c')) b' p)
     | Direct votes d p \<Rightarrow> votes = [] \<and> s1 = s \<and> voting = Delegating b t c d p"
    "increase_upstream_delegation t (conviction_votes c b) s1 = (Inr n, m)"
    "c_extend_freeze (dm_fungible T) VoteFreeze who b (ext m) = (Inr (), l)"
    "s' = m\<lparr>ext := l, VotingOf := (VotingOf m)(who := voting), democracy_events := democracy_events m @ [DemocracyDelegated who t]\<rparr>"
proof -
  from assms show thesis
    unfolding try_delegate_def Let_def
    by (elim prog_elims) (rule that, assumption+, auto simp: prog_simps democracy_access_defs split: voting.splits)
qed

section \<open>The lock of an account\<close>

lemma fold_max_le: "fold (\<lambda>x a. max a (f x)) xs a \<le> n \<longleftrightarrow> a \<le> n \<and> (\<forall>x\<in>set xs. f x \<le> n)" for f :: "'a \<Rightarrow> nat"
  by (induction xs arbitrary: a) auto

lemma locked_balance_le:
  "locked_balance (Direct votes d p) \<le> n \<longleftrightarrow> pl_amount p \<le> n \<and> (\<forall>x\<in>set votes. vote_balance (snd x) \<le> n)"
  by (simp add: fold_max_le)

lemma locked_balance_ge:
  "pl_amount p \<le> locked_balance (Direct votes d p)"
  "x \<in> set votes \<Longrightarrow> vote_balance (snd x) \<le> locked_balance (Direct votes d p)"
  using locked_balance_le [of votes d p "locked_balance (Direct votes d p)"] by blast+

lemma prior_le_locked: "pl_amount (voting_prior v) \<le> locked_balance v"
proof (cases v)
  case (Direct votes d p)
  then show ?thesis using locked_balance_ge(1) [of p votes d] by (simp only: Direct voting_prior.simps)
qed simp

lemma receiving_lock [simp]: "locked_balance (receiving e v) = locked_balance v" "voting_prior (receiving e v) = voting_prior v"
  by (cases v; simp)+

section \<open>Steps of the voting functions\<close>

text \<open>What is left of a referendum when its tally is forgotten.\<close>

fun skeleton :: "referendum_info \<Rightarrow> referendum_info" where
  "skeleton (Ongoing st) = Ongoing (st\<lparr>rf_tally := no_tally\<rparr>)"
| "skeleton (Finished a e) = Finished a e"

abbreviation skeletons :: "(nat \<rightharpoonup> referendum_info) \<Rightarrow> (nat \<rightharpoonup> referendum_info)" where
  "skeletons R \<equiv> (\<lambda>i. map_option skeleton (R i))"

lemma skeleton_tally [simp]: "skeleton (Ongoing (st\<lparr>rf_tally := t\<rparr>)) = skeleton (Ongoing st)"
  by simp

lemma skeleton_bump: "map_option skeleton (bump f v r) = map_option skeleton r"
  by (cases "(f, v, r)" rule: bump.cases) auto

lemma skeletons_bumped: "skeletons (bumped f v R) = skeletons R"
  by (cases v) (auto simp: skeleton_bump)

text \<open>
  A voting function run for the account \<open>who\<close> changes the tallies, the delegations of the other accounts and the
  record of \<open>who\<close>. Its prior lock does not shrink, and what it needs locked does not grow beyond an amount to
  which the freeze is extended.
\<close>

definition prior_grows :: "prior_lock \<Rightarrow> prior_lock \<Rightarrow> bool" where
  "prior_grows p p' \<longleftrightarrow> pl_until p \<le> pl_until p' \<and> pl_amount p \<le> pl_amount p'"

definition voting_step ::
    "('l, 'c) democracy_config_scheme \<Rightarrow> account \<Rightarrow> ('l, 'z) democracy_state_scheme \<Rightarrow> ('l, 'z) democracy_state_scheme \<Rightarrow> bool" where
  "voting_step T who s s' \<longleftrightarrow>
     skeletons (ReferendumInfoOf s') = skeletons (ReferendumInfoOf s) \<and> ReferendumCount s' = ReferendumCount s \<and>
     LowestUnbaked s' = LowestUnbaked s \<and> block_number s' = block_number s \<and>
     (\<forall>a. a \<noteq> who \<longrightarrow> (\<exists>e. VotingOf s' a = receiving e (VotingOf s a))) \<and>
     prior_grows (voting_prior (VotingOf s who)) (voting_prior (VotingOf s' who)) \<and>
     (\<exists>x. locked_balance (VotingOf s' who) \<le> max (locked_balance (VotingOf s who)) x \<and>
        (x = 0 \<and> ext s' = ext s \<or> c_extend_freeze (dm_fungible T) VoteFreeze who x (ext s) = (Inr (), ext s')))"

lemma receiving_same: "\<exists>e. v = receiving e v"
  by (cases v) auto

lemma prior_grows_simps [simp]: "prior_grows p p" "prior_grows p (accumulate u n p)"
  by (simp_all add: prior_grows_def accumulate_def)

lemma try_vote_step:
  assumes ok: "books_ok A B (VotingOf s) (ReferendumInfoOf s) (ReferendumCount s)" and cap: "capacity A B" "who \<in> A"
    and run: "try_vote T who i vote s = (Inr (), s')"
  shows "voting_step T who s s'"
  using run
proof (rule try_voteE)
  fix st votes d p votes' t t' l
  assume st: "ReferendumInfoOf s i = Some (Ongoing st)" and V: "VotingOf s who = Direct votes d p"
    and rec: "record_vote T i vote votes d (rf_tally st) s = (Inr (votes', t), s)"
    and l: "c_extend_freeze (dm_fungible T) VoteFreeze who (vote_balance vote) (ext s) = (Inr (), l)"
    and s': "s' = s\<lparr>democracy_events := democracy_events s @ [Voted who i vote], VotingOf := (VotingOf s)(who := Direct votes' d p),
       ext := l, ReferendumInfoOf := (ReferendumInfoOf s)(i \<mapsto> Ongoing (st\<lparr>rf_tally := with_delegations vote d t'\<rparr>))\<rparr>"
  have o: "votes_ordered votes" using books_okD(6) [OF ok, of who] V by simp
  have "counted votes d i k \<le> part k (rf_tally st)" for k using share_le_tally [OF cap(1) ok cap(2) st, of k] V by simp
  then have "set votes' \<subseteq> insert (i, vote) (set votes)"
    using record_vote_effect [OF rec o] votes_map_subset [of votes' votes i "Some vote"] o by auto
  then have "locked_balance (Direct votes' d p) \<le> max (locked_balance (Direct votes d p)) (vote_balance vote)"
    unfolding locked_balance_le using locked_balance_ge(1) [of p votes d] locked_balance_ge(2) [of _ votes d p]
    by (fastforce simp: le_max_iff_disj)
  then show ?thesis using l receiving_same V st
    by (auto simp: voting_step_def s' fun_eq_iff intro!: exI [of _ "vote_balance vote"])
qed

lemma prior_after_grows: "prior_grows p (prior_after T now v r p)"
  by (cases "(T, now, v, r, p)" rule: prior_after.cases) (auto split: option.splits)

lemma prior_after_le: "pl_amount (prior_after T now v r p) \<le> max (pl_amount p) (vote_balance v)"
  by (cases "(T, now, v, r, p)" rule: prior_after.cases)
     (auto simp: accumulate_def locked_if_def vote_balance_def split: option.splits account_vote.splits if_splits)

lemma tally_without_skeleton: "tally_without v d r r' \<Longrightarrow> map_option skeleton r' = map_option skeleton r"
  by (cases "(v, d, r, r')" rule: tally_without.cases) auto

lemma try_remove_vote_step:
  assumes "try_remove_vote T who i scope s = (Inr (), s')"
    and ok: "books_ok A B (VotingOf s) (ReferendumInfoOf s) (ReferendumCount s)"
  shows "voting_step T who s s'"
  using assms(1)
proof (cases rule: try_remove_voteE)
  case delegating
  then show ?thesis using receiving_same by (auto simp: voting_step_def)
next
  case (removed votes d p j r)
  let ?p = "prior_after T (block_number s) (snd (votes ! j)) (ReferendumInfoOf s i) p"
  have o: "votes_ordered votes" using books_okD(6) [OF ok, of who] removed(1) by simp
  have j: "votes ! j \<in> set votes" using search_vote_found(1) [OF o removed(2)] by simp
  have "set (remove_at j votes) \<subseteq> set votes" by (auto simp: remove_at_def dest: in_set_takeD in_set_dropD)
  then have "locked_balance (Direct (remove_at j votes) d ?p) \<le> locked_balance (Direct votes d p)"
    unfolding locked_balance_le
    using prior_after_le [of T "block_number s" "snd (votes ! j)" "ReferendumInfoOf s i" p]
      locked_balance_ge(1) [of p votes d] locked_balance_ge(2) [OF j, of d p] locked_balance_ge(2) [of _ votes d p]
    by (auto intro: order_trans)
  then show ?thesis using receiving_same removed(1) tally_without_skeleton [OF removed(3)] prior_after_grows
    by (auto simp: voting_step_def removed(4) fun_eq_iff intro!: exI [of _ 0])
qed

lemma try_undelegate_step:
  assumes cap: "capacity A B" and ok: "books_ok A B (VotingOf s) (ReferendumInfoOf s) (ReferendumCount s)"
    and run: "try_undelegate T who s = (Inr n, s')"
  shows "voting_step T who s s' \<and> books_ok A B (VotingOf s') (ReferendumInfoOf s') (ReferendumCount s')"
proof (rule try_undelegate_effect [OF cap ok run])
  fix b t c d p e R
  assume V: "VotingOf s who = Delegating b t c d p" and t: "t \<noteq> who"
    and s': "s' = s\<lparr>ReferendumInfoOf := R, VotingOf := (VotingOf s)(t := receiving e (VotingOf s t),
       who := Direct [] d (accumulate (unlock_block T (block_number s) (lock_periods c)) b p)),
       democracy_events := democracy_events s @ [Undelegated who]\<rparr>"
    and R: "R = bumped (\<lambda>aye. tally_reduce aye (conviction_votes c b)) (VotingOf s t) (ReferendumInfoOf s)"
    and books: "books_ok A B (VotingOf s') R (ReferendumCount s)"
  have "\<exists>e'. VotingOf s' a = receiving e' (VotingOf s a)" if "a \<noteq> who" for a
    using that receiving_same by (auto simp: s')
  then have "voting_step T who s s'"
    using t V by (auto simp: voting_step_def s' R skeletons_bumped accumulate_def prior_grows_def intro!: exI [of _ 0])
  with books show ?thesis by (simp add: s')
qed

lemma books_ok_fields:
  "ReferendumInfoOf s' = R \<Longrightarrow> VotingOf s' = V \<Longrightarrow> ReferendumCount s' = n \<Longrightarrow> books_ok A B V R n \<Longrightarrow>
   books_ok A B (VotingOf s') (ReferendumInfoOf s') (ReferendumCount s')"
  by simp

lemma try_delegate_step:
  assumes cap: "capacity A B" and ok: "books_ok A B (VotingOf s) (ReferendumInfoOf s) (ReferendumCount s)"
    and in_A: "who \<in> A" "t \<in> A" and bal: "c_total_balance (dm_fungible T) who (ext s) \<le> B"
    and run: "try_delegate T who t c b s = (Inr n, s')"
  shows "voting_step T who s s' \<and> books_ok A B (VotingOf s') (ReferendumInfoOf s') (ReferendumCount s')"
  using run
proof (rule try_delegateE)
  fix voting s1 m l
  assume t: "who \<noteq> t" and "b \<le> c_total_balance (dm_fungible T) who (ext s)"
    and first: "case VotingOf s who of
       Delegating b' t' c' d p \<Rightarrow> \<exists>m'. reduce_upstream_delegation t' (conviction_votes c' b') s = (Inr m', s1) \<and>
         voting = Delegating b t c d (accumulate (unlock_block T (block_number s1) (lock_periods c')) b' p)
     | Direct votes d p \<Rightarrow> votes = [] \<and> s1 = s \<and> voting = Delegating b t c d p"
    and inc: "increase_upstream_delegation t (conviction_votes c b) s1 = (Inr n, m)"
    and l: "c_extend_freeze (dm_fungible T) VoteFreeze who b (ext m) = (Inr (), l)"
    and s': "s' = m\<lparr>ext := l, VotingOf := (VotingOf m)(who := voting), democracy_events := democracy_events m @ [DemocracyDelegated who t]\<rparr>"
  then have b: "b \<le> B" using bal by simp
  show ?thesis
  proof (cases "VotingOf s who")
    case (Direct votes d p)
    with first have V: "VotingOf s who = Direct [] d p" "s1 = s" "voting = Delegating b t c d p" by auto
    let ?e = "delegations_saturating_add (received (VotingOf s t)) (conviction_votes c b)"
    have m: "m = s\<lparr>ReferendumInfoOf := bumped (\<lambda>aye. tally_increase aye (conviction_votes c b)) (VotingOf s t) (ReferendumInfoOf s),
        VotingOf := (VotingOf s)(t := receiving ?e (VotingOf s t))\<rparr>"
      using upstream_run(1) [OF books_okD(6) [OF ok, of t], of "conviction_votes c b"] inc V(2) by auto
    have "voting_step T who s s'"
      using t V l receiving_same
      by (auto simp: voting_step_def s' m skeletons_bumped fun_eq_iff intro!: exI [of _ b])
    moreover have "books_ok A B (VotingOf s') (ReferendumInfoOf s') (ReferendumCount s')"
      by (rule books_ok_fields [OF _ _ _ books_delegate [OF cap ok V(1) in_A _ b refl]]) (use t in \<open>simp_all add: s' m V(3)\<close>)
    ultimately show ?thesis by simp
  next
    case (Delegating b' t' c' d p)
    let ?e' = "delegations_saturating_sub (received (VotingOf s t')) (conviction_votes c' b')"
    let ?V1 = "(VotingOf s)(t' := receiving ?e' (VotingOf s t'))"
    let ?R1 = "bumped (\<lambda>aye. tally_reduce aye (conviction_votes c' b')) (VotingOf s t') (ReferendumInfoOf s)"
    let ?e = "delegations_saturating_add (received (?V1 t)) (conviction_votes c b)"
    let ?p = "accumulate (unlock_block T (block_number s) (lock_periods c')) b' p"
    have s1: "s1 = s\<lparr>ReferendumInfoOf := ?R1, VotingOf := ?V1\<rparr>" "voting = Delegating b t c d ?p"
      using upstream_run(2) [OF books_okD(6) [OF ok, of t'], of "conviction_votes c' b'"] first Delegating by auto
    have un: "books_ok A B (?V1(who := Direct [] d ?p)) ?R1 (ReferendumCount s)"
      by (rule books_undelegate [OF cap ok Delegating refl])
    have t': "t' \<noteq> who" using books_okD(6) [OF ok, of who] Delegating by simp
    have "voting_ok A B t (?V1 t)" using books_okD(6) [OF un, of t] t by simp
    then have m: "m = s\<lparr>ReferendumInfoOf := bumped (\<lambda>aye. tally_increase aye (conviction_votes c b)) (?V1 t) ?R1,
        VotingOf := ?V1(t := receiving ?e (?V1 t))\<rparr>"
      using upstream_run(1) [of A B t s1 "conviction_votes c b"] inc by (auto simp: s1)
    have "\<exists>e. VotingOf s' a = receiving e (VotingOf s a)" if "a \<noteq> who" for a
      using that receiving_same [of "VotingOf s a"] by (cases "VotingOf s a") (auto simp: s' m)
    then have "voting_step T who s s'"
      using t t' l by (auto simp: voting_step_def s' m s1(2) Delegating skeletons_bumped accumulate_def prior_grows_def intro!: exI [of _ b])
    moreover have "books_ok A B (VotingOf s') (ReferendumInfoOf s') (ReferendumCount s')"
      by (rule books_ok_fields [OF _ _ _ books_delegate [OF cap un _ in_A _ b refl]])
         (use t in \<open>simp_all add: s' m s1(2) fun_upd_twist\<close>)
    ultimately show ?thesis by simp
  qed
qed

end
