(* ===== verification/Democracy_Invariant.thy ===== *)
theory Democracy_Invariant
  imports Democracy_Delegation_Effects
begin

text \<open>
  The invariant of the pallet \<^verbatim>\<open>democracy\<close> and that every extrinsic and every block keeps it: the books agree
  (\<open>books_ok\<close>), what the voting record of an account needs locked is frozen, and every ongoing referendum lies
  ahead, between \<^verbatim>\<open>LowestUnbaked\<close> and \<^verbatim>\<open>ReferendumCount\<close>. The laws of the currency that this rests on are
  \<open>democracy_laws\<close>.
\<close>

section \<open>Laws of the parameters\<close>

definition frozen_in :: "('l, 'c) democracy_config_scheme \<Rightarrow> 'l \<Rightarrow> account \<Rightarrow> nat" where
  "frozen_in T l = (\<lambda>a. c_balance_frozen (dm_fungible T) VoteFreeze a l)"

text \<open>
  The contract of the freezes (\<^verbatim>\<open>MutateFreeze\<close>): a freeze is extended to at least an amount, set to an amount or
  removed, for one account. Nothing else the pallet calls touches the freezes for votes.
\<close>

definition democracy_laws :: "('l, 'c) democracy_config_scheme \<Rightarrow> bool" where
  "democracy_laws T \<longleftrightarrow>
     (\<forall>who n l u l'. c_extend_freeze (dm_fungible T) VoteFreeze who n l = (Inr u, l') \<longrightarrow>
        frozen_in T l' = (frozen_in T l)(who := max (frozen_in T l who) n)) \<and>
     (\<forall>who n l u l'. c_set_freeze (dm_fungible T) VoteFreeze who n l = (Inr u, l') \<longrightarrow>
        frozen_in T l' = (frozen_in T l)(who := n)) \<and>
     (\<forall>who l u l'. c_thaw (dm_fungible T) VoteFreeze who l = (Inr u, l') \<longrightarrow>
        frozen_in T l' = (frozen_in T l)(who := 0)) \<and>
     (\<forall>r who n l. frozen_in T (snd (c_hold (dm_fungible T) r who n l)) = frozen_in T l) \<and>
     (\<forall>r who n p l. frozen_in T (snd (c_release (dm_fungible T) r who n p l)) = frozen_in T l) \<and>
     (\<forall>r who n l. frozen_in T (snd (c_slash (dm_fungible T) r who n l)) = frozen_in T l) \<and>
     (\<forall>n l. frozen_in T (slash_on_unbalanced T n l) = frozen_in T l) \<and>
     (\<forall>i w n orig p l. frozen_in T (snd (schedule_named T i w n orig p l)) = frozen_in T l)"

lemma democracy_lawsD:
  assumes "democracy_laws T"
  shows "c_extend_freeze (dm_fungible T) VoteFreeze who n l = (Inr u, l') \<Longrightarrow>
      frozen_in T l' = (frozen_in T l)(who := max (frozen_in T l who) n)"
    and "c_set_freeze (dm_fungible T) VoteFreeze who n l = (Inr u, l') \<Longrightarrow> frozen_in T l' = (frozen_in T l)(who := n)"
    and "c_thaw (dm_fungible T) VoteFreeze who l = (Inr u, l') \<Longrightarrow> frozen_in T l' = (frozen_in T l)(who := 0)"
    and "frozen_in T (snd (c_hold (dm_fungible T) r who n l)) = frozen_in T l"
    and "frozen_in T (snd (c_release (dm_fungible T) r who n p l)) = frozen_in T l"
    and "frozen_in T (snd (c_slash (dm_fungible T) r who n l)) = frozen_in T l"
    and "frozen_in T (slash_on_unbalanced T n l) = frozen_in T l"
    and "frozen_in T (snd (schedule_named T i w n orig p' l)) = frozen_in T l"
  using assms unfolding democracy_laws_def by metis+

section \<open>The view of the invariant\<close>

text \<open>The part of the state the invariant speaks of.\<close>

record dm_view =
  vw_votings :: "account \<Rightarrow> voting"
  vw_referenda :: "nat \<rightharpoonup> referendum_info"
  vw_count :: nat
  vw_unbaked :: nat
  vw_block :: nat
  vw_frozen :: "account \<Rightarrow> nat"

definition view :: "('l, 'c) democracy_config_scheme \<Rightarrow> ('l, 'z) democracy_state_scheme \<Rightarrow> dm_view" where
  "view T s = \<lparr>vw_votings = VotingOf s, vw_referenda = ReferendumInfoOf s, vw_count = ReferendumCount s,
     vw_unbaked = LowestUnbaked s, vw_block = block_number s, vw_frozen = frozen_in T (ext s)\<rparr>"

definition schedule_ok :: "(nat \<rightharpoonup> referendum_info) \<Rightarrow> nat \<Rightarrow> nat \<Rightarrow> nat \<Rightarrow> bool" where
  "schedule_ok R n low now \<longleftrightarrow> low \<le> n \<and> (\<forall>i st. R i = Some (Ongoing st) \<longrightarrow> low \<le> i \<and> now < rf_end st)"

definition view_ok :: "account set \<Rightarrow> nat \<Rightarrow> dm_view \<Rightarrow> bool" where
  "view_ok A B v \<longleftrightarrow>
     books_ok A B (vw_votings v) (vw_referenda v) (vw_count v) \<and>
     (\<forall>a. locked_balance (vw_votings v a) \<le> vw_frozen v a) \<and>
     schedule_ok (vw_referenda v) (vw_count v) (vw_unbaked v) (vw_block v)"

abbreviation democracy_ok :: "('l, 'c) democracy_config_scheme \<Rightarrow> account set \<Rightarrow> nat \<Rightarrow> ('l, 'z) democracy_state_scheme \<Rightarrow> bool" where
  "democracy_ok T A B s \<equiv> view_ok A B (view T s)"

abbreviation untouched :: "('l, 'c) democracy_config_scheme \<Rightarrow> dm_view \<Rightarrow> ('l, 'z) democracy_state_scheme \<Rightarrow> bool" where
  "untouched T v \<equiv> (\<lambda>s. view T s = v)"

named_theorems untouched_rules

lemma untouched_access [untouched_rules]:
  "keeps (untouched T v) (deposit_democracy_event e)" "keeps (untouched T v) (put_metadata owner mh)"
  "keeps (untouched T v) (put_next_external p)" "keeps (untouched T v) (put_deposit i d)"
  "keeps (untouched T v) (put_public_props ps)" "keeps (untouched T v) (put_blacklist h b)"
  by (simp_all add: democracy_access_defs keeps_def modify_def view_def)

lemma untouched_modify [untouched_rules]:
  "keeps (untouched T v) (modify (\<lambda>s. s\<lparr>Cancellations := f s\<rparr>))" "keeps (untouched T v) (modify (\<lambda>s. s\<lparr>PublicPropCount := n\<rparr>))"
  "keeps (untouched T v) (modify (\<lambda>s. s\<lparr>LastTabledWasExternal := b\<rparr>))"
  by (simp_all add: keeps_def modify_def view_def)

lemma untouched_on_ext:
  assumes "\<And>l. frozen_in T (snd (m l)) = frozen_in T l"
  shows "keeps (untouched T v) (on_ext m)"
  by (auto simp: keeps_def on_ext_def view_def case_prod_unfold assms)

lemma untouched_ext [untouched_rules]:
  assumes "democracy_laws T"
  shows "keeps (untouched T v) (on_ext (c_hold (dm_fungible T) r who n))"
    "keeps (untouched T v) (on_ext (c_release (dm_fungible T) r who n p))"
    "keeps (untouched T v) (on_ext (schedule_named T i w m orig c))"
    "keeps (untouched T v) (slash_deposit_of T n who)"
  by (rule untouched_on_ext, simp add: democracy_lawsD [OF assms])+
     (auto simp: slash_deposit_of_def keeps_def modify_def view_def case_prod_unfold democracy_lawsD [OF assms])

lemma untouched_metadata [untouched_rules]:
  "keeps (untouched T v) (clear_metadata owner)" "keeps (untouched T v) (transfer_metadata owner new)"
  unfolding clear_metadata_def transfer_metadata_def by (intro keeps_rules untouched_rules)+

lemma untouched_queries [untouched_rules]:
  "keeps (untouched T v) (find_proposal i)" "keeps (untouched T v) (find_referendum_status i)"
  "keeps (untouched T v) (ensure_not_blacklisted h)" "keeps (untouched T v) (lookup_account T' x)"
  "keeps (untouched T v) (ensure_signed_or_root orig)" "keeps (untouched T v) (ensure_external_origin T' th orig)"
  unfolding find_proposal_def find_referendum_status_def ensure_not_blacklisted_def lookup_account_def
    ensure_external_origin_def ensure_signed_or_root_def
  by ((intro keeps_rules)?; simp add: keeps_def prog_defs ensure_ongoing_def split: referendum_info.splits vote_threshold.splits
      origin.splits prod.splits option.splits)+

lemma untouched_metadata_owner [untouched_rules]: "keeps (untouched T v) (ensure_metadata_owner T' orig owner mh)"
  unfolding ensure_metadata_owner_def by (cases owner) (simp; intro keeps_rules untouched_rules)+

lemma untouched_slash_deposits [untouched_rules]: "democracy_laws T \<Longrightarrow> keeps (untouched T v) (slash_deposits T i)"
  unfolding slash_deposits_def by (intro keeps_rules untouched_rules)

lemma untouched_calls:
  assumes "democracy_laws T"
  shows "keeps (untouched T v) (propose T orig proposal value)" "keeps (untouched T v) (second T orig i)"
    "keeps (untouched T v) (cancel_proposal T orig i)" "keeps (untouched T v) (clear_public_proposals orig)"
    "keeps (untouched T v) (external_propose T orig proposal)" "keeps (untouched T v) (external_propose_majority T orig proposal)"
    "keeps (untouched T v) (external_propose_default T orig proposal)" "keeps (untouched T v) (veto_external T orig h)"
    "keeps (untouched T v) (set_metadata T orig owner mh)"
  unfolding propose_def second_def cancel_proposal_def clear_public_proposals_def external_propose_def
    external_propose_majority_def external_propose_default_def veto_external_def set_metadata_def Let_def
  by (intro keeps_rules untouched_rules assms; simp add: assms split: sum.splits; intro conjI allI impI keeps_rules untouched_rules assms)+

lemma keeps_view: "(\<And>v. keeps (untouched T v) m) \<Longrightarrow> keeps (\<lambda>s. Q (view T s)) m"
  unfolding keeps_def by metis

lemma view_simps [simp]:
  "vw_votings (view T s) = VotingOf s" "vw_referenda (view T s) = ReferendumInfoOf s" "vw_count (view T s) = ReferendumCount s"
  "vw_unbaked (view T s) = LowestUnbaked s" "vw_block (view T s) = block_number s" "vw_frozen (view T s) = frozen_in T (ext s)"
  by (simp_all add: view_def)

lemma view_okD:
  assumes "view_ok A B v"
  shows "books_ok A B (vw_votings v) (vw_referenda v) (vw_count v)" "locked_balance (vw_votings v a) \<le> vw_frozen v a"
    "vw_unbaked v \<le> vw_count v" "vw_referenda v i = Some (Ongoing st) \<Longrightarrow> vw_unbaked v \<le> i \<and> vw_block v < rf_end st"
  using assms by (auto simp: view_ok_def schedule_ok_def)

section \<open>Starting, cancelling and finishing referenda\<close>

lemma books_drop:
  assumes "books_ok A B V R n" "\<And>i st. R' i = Some (Ongoing st) \<Longrightarrow> R i = Some (Ongoing st)" "dom R' \<subseteq> dom R"
  shows "books_ok A B V R' n"
  using assms by (fastforce simp: books_ok_def tallies_ok_def indices_ok_def)

lemma share_not_voted: "i \<notin> voted v \<Longrightarrow> share v i k = 0"
proof (cases v)
  case (Direct votes d p)
  moreover assume "i \<notin> voted v"
  ultimately have "map_of votes i = None" by (simp add: map_of_eq_None_iff)
  with Direct show ?thesis by simp
qed simp

lemma books_start:
  assumes "books_ok A B V R n" "rf_tally st = no_tally"
  shows "books_ok A B V (R(n \<mapsto> Ongoing st)) (Suc n)"
proof -
  have v: "voted (V a) \<subseteq> {..<n}" for a by (rule books_okD(3) [OF assms(1)])
  then have "share (V a) n k = 0" for a k by (intro share_not_voted) auto
  moreover have "voted (V a) \<subseteq> {..<Suc n}" for a using v by (meson lessThan_subset_iff less_imp_le lessI order_trans)
  ultimately show ?thesis using assms by (fastforce simp: books_ok_def tallies_ok_def indices_ok_def)
qed

definition view_starts :: "nat \<Rightarrow> dm_view \<Rightarrow> dm_view \<Rightarrow> bool" where
  "view_starts e v v' \<longleftrightarrow> (\<exists>st. rf_tally st = no_tally \<and> rf_end st = e \<and>
     v' = v\<lparr>vw_referenda := (vw_referenda v)(vw_count v \<mapsto> Ongoing st), vw_count := wrapping_add_u32 (vw_count v) 1\<rparr>)"

lemma view_starts_ok:
  assumes "view_ok A B v" "view_starts e v v'" "vw_count v < u32_max" "vw_block v < e"
  shows "view_ok A B v'"
proof -
  obtain st where st: "rf_tally st = no_tally" "rf_end st = e"
      "v' = v\<lparr>vw_referenda := (vw_referenda v)(vw_count v \<mapsto> Ongoing st), vw_count := Suc (vw_count v)\<rparr>"
    using assms(2,3) by (auto simp: view_starts_def wrapping_add_u32_def u32_max_def)
  show ?thesis using assms(1,4) books_start [OF view_okD(1) [OF assms(1)] st(1)]
    by (auto simp: view_ok_def st(2,3) schedule_ok_def)
qed

text \<open>A program that starts at most one referendum, which ends at \<open>e\<close>, and none when it fails.\<close>

definition may_start ::
    "('l, 'c) democracy_config_scheme \<Rightarrow> nat \<Rightarrow> (('l, 'z) democracy_state_scheme, unit) dprog \<Rightarrow> bool" where
  "may_start T e m \<longleftrightarrow> (\<forall>s r s'. m s = (r, s') \<longrightarrow>
     view T s' = view T s \<or> r = Inr () \<and> view_starts e (view T s) (view T s'))"

lemma may_start_untouched: "(\<And>v. keeps (untouched T v) m) \<Longrightarrow> may_start T e m"
  unfolding may_start_def keeps_def by (metis snd_conv)

lemma may_start_sbind:
  assumes "\<And>v. keeps (untouched T v) m" "\<And>a. may_start T e (f a)"
  shows "may_start T e (sbind m f)"
  unfolding may_start_def
proof (intro allI impI)
  fix s r s'
  assume run: "sbind m f s = (r, s')"
  obtain x u where m: "m s = (x, u)" by force
  have u: "view T u = view T s" using keepsD [OF assms(1) refl m] .
  show "view T s' = view T s \<or> r = Inr () \<and> view_starts e (view T s) (view T s')"
  proof (cases x)
    case (Inl err)
    then show ?thesis using run m u by (simp add: sbind_def)
  next
    case (Inr a)
    then have "f a u = (r, s')" using run m by (simp add: sbind_def)
    then show ?thesis using assms(2) [of a] u unfolding may_start_def by metis
  qed
qed

lemma may_start_seq: "(\<And>v. keeps (untouched T v) m) \<Longrightarrow> may_start T e n \<Longrightarrow> may_start T e (seq m n)"
  unfolding seq_def by (rule may_start_sbind)

lemma may_start_or_try: "may_start T e m \<Longrightarrow> may_start T e n \<Longrightarrow> may_start T e (or_try m n)"
  unfolding may_start_def or_try_def
  by (auto split: prod.splits sum.splits if_splits) (metis Inl_Inr_False)+

lemma may_start_map_err: "may_start T e m \<Longrightarrow> may_start T e (map_err f m)"
  unfolding may_start_def map_err_def by (auto split: prod.splits sum.splits)

lemma inject_referendum_run:
  "\<exists>s'. inject_referendum e p th d s = (Inr (ReferendumCount s), s') \<and> view_starts e (view T s) (view T s')"
proof -
  let ?st = "\<lparr>rf_end = e, rf_proposal = p, rf_threshold = th, rf_delay = d, rf_tally = no_tally\<rparr>"
  show ?thesis unfolding view_starts_def
    by (auto simp: inject_referendum_def prog_defs democracy_access_defs Let_def view_def intro!: exI [of _ ?st])
qed

lemma inject_and_transfer:
  assumes run: "sbind (inject_referendum e p th d) (\<lambda>i. transfer_metadata owner (ReferendumOwner i)) s = (r, s')"
  shows "r = Inr () \<and> view_starts e (view T s) (view T s')"
proof -
  obtain u where u: "inject_referendum e p th d s = (Inr (ReferendumCount s), u)" "view_starts e (view T s) (view T u)"
    using inject_referendum_run by metis
  then have t: "transfer_metadata owner (ReferendumOwner (ReferendumCount s)) u = (r, s')" using run by (simp add: sbind_def)
  then have "view T s' = view T u" using keepsD [OF untouched_metadata(2) refl t] by blast
  moreover have "r = Inr ()" using t by (auto simp: transfer_metadata_def prog_defs democracy_access_defs split: option.splits)
  ultimately show ?thesis using u(2) by simp
qed

lemma may_start_inject: "may_start T e (sbind (inject_referendum e p th d) (\<lambda>i. transfer_metadata owner (ReferendumOwner i)))"
  unfolding may_start_def using inject_and_transfer by blast

lemmas may_start_rules = may_start_sbind may_start_seq may_start_or_try may_start_map_err may_start_inject

lemma may_start_external: "may_start T (saturating_add_u32 now (VotingPeriod T)) (launch_external T now)"
  unfolding launch_external_def
  by (intro may_start_rules keeps_rules; simp split: option.splits; intro conjI allI impI may_start_rules untouched_rules keeps_rules)
     (intro may_start_untouched keeps_rules)

lemma may_start_tabled:
  assumes "democracy_laws T"
  shows "may_start T e (seq (put_deposit i None)
    (seq (for_each ds (\<lambda>d. sbind (on_ext (c_release (dm_fungible T) (DemocracyReason ProposalDeposit) d n BestEffort)) (\<lambda>_. ok ())))
    (seq (deposit_democracy_event (Tabled i n))
    (sbind (inject_referendum e p th d) (\<lambda>r. transfer_metadata (ProposalOwner i) (ReferendumOwner r))))))"
  by (intro may_start_seq may_start_inject untouched_rules keeps_rules assms)

lemma may_start_public:
  assumes "democracy_laws T"
  shows "may_start T (saturating_add_u32 now (VotingPeriod T)) (launch_public T now)"
  unfolding launch_public_def Let_def
  by (intro may_start_sbind keeps_rules; simp add: case_prod_unfold split: option.splits;
      intro conjI allI impI may_start_seq may_start_sbind untouched_rules keeps_rules)
     (auto simp: case_prod_unfold split: option.splits intro: may_start_tabled [OF assms] may_start_untouched keeps_rules)

lemma may_start_launch:
  assumes "democracy_laws T"
  shows "may_start T (saturating_add_u32 now (VotingPeriod T)) (launch_next T now)"
  unfolding launch_next_def
  by (intro may_start_rules untouched_rules keeps_rules)
     (simp add: may_start_or_try may_start_external may_start_public [OF assms])

end
