(* ===== verification/Democracy_Blocks.thy ===== *)
theory Democracy_Blocks
  imports Democracy_Invariant
begin

text \<open>
  The block hook of the pallet \<^verbatim>\<open>democracy\<close>: it may launch a referendum, decides exactly the referenda that end in
  this block, moves \<^verbatim>\<open>LowestUnbaked\<close> over what is finished, and keeps the invariant.
\<close>

section \<open>Deciding referenda\<close>

lemma in_map_filter: "y \<in> set (List.map_filter f xs) \<longleftrightarrow> (\<exists>x\<in>set xs. f x = Some y)"
  by (induction xs) (auto simp: map_filter_simps split: option.splits)

lemma ongoing_case:
  "(case r of Some (Ongoing st) \<Rightarrow> Some (i, st) | _ \<Rightarrow> None) = Some (j, st') \<longleftrightarrow> r = Some (Ongoing st') \<and> j = i"
  by (cases r) (auto split: referendum_info.splits)

lemma maturing_iff:
  "(i, st) \<in> set (maturing_referenda_at_inner s n low last') \<longleftrightarrow>
     low \<le> i \<and> i < last' \<and> ReferendumInfoOf s i = Some (Ongoing st) \<and> rf_end st = n"
  by (auto simp: maturing_referenda_at_inner_def in_map_filter ongoing_case)

lemma distinct_maturing: "distinct (map fst (maturing_referenda_at_inner s n low last'))"
proof -
  have "map fst (filter P (List.map_filter (\<lambda>i. case R i of Some (Ongoing st) \<Rightarrow> Some (i, st) | _ \<Rightarrow> None) xs)) =
      filter (\<lambda>i. \<exists>st. R i = Some (Ongoing st) \<and> P (i, st)) xs"
    for P and R :: "nat \<rightharpoonup> referendum_info" and xs
    by (induction xs) (auto simp: map_filter_simps split: option.splits referendum_info.splits)
  then show ?thesis by (simp add: maturing_referenda_at_inner_def)
qed

text \<open>Scheduling a call does not change the size of the electorate.\<close>

definition keeps_electorate :: "('l, 'c) democracy_config_scheme \<Rightarrow> bool" where
  "keeps_electorate T \<longleftrightarrow> (\<forall>i w n orig p l. get_electorate T (snd (schedule_named T i w n orig p l)) = get_electorate T l)"

definition decided :: "('l, 'c) democracy_config_scheme \<Rightarrow> referendum_status \<Rightarrow> 'l \<Rightarrow> bool option" where
  "decided T st l = threshold_approved (dm_integer_sqrt T) (rf_threshold st) (rf_tally st) (get_electorate T l)"

lemma bake_referendum_Inr:
  assumes "democracy_laws T" "bake_referendum T now i st s = (Inr b, s')"
  shows "view T s' = view T s" "decided T st (ext s) = Some b"
    "keeps_electorate T \<Longrightarrow> get_electorate T (ext s') = get_electorate T (ext s)"
proof -
  have "keeps (untouched T v) (bake_referendum T now i st)" for v
    unfolding bake_referendum_def Let_def by (intro keeps_rules untouched_rules assms(1))
  from keepsD [OF this refl assms(2)] show "view T s' = view T s" .
  show "decided T st (ext s) = Some b" using assms(2) by (auto simp: bake_referendum_def prog_simps decided_def)
  show "get_electorate T (ext s') = get_electorate T (ext s)" if "keeps_electorate T"
    using assms(2) that
    by (auto simp: bake_referendum_def prog_simps democracy_access_defs keeps_electorate_def on_ext_def Let_def case_prod_unfold split: if_splits)
qed

abbreviation finish ::
    "('l, 'c) democracy_config_scheme \<Rightarrow> nat \<Rightarrow> nat \<times> referendum_status \<Rightarrow> ('l, 'z, unit) dmprog" where
  "finish T now \<equiv> (\<lambda>(index, info). sbind (bake_referendum T now index info)
     (\<lambda>approved. put_referendum index (Some (Finished approved now))))"

lemma finish_all:
  assumes laws: "democracy_laws T"
  shows "for_each ms (finish T now) s = (Inr (), s') \<Longrightarrow> distinct (map fst ms) \<Longrightarrow>
    \<exists>R. view T s' = (view T s)\<lparr>vw_referenda := R\<rparr> \<and> (\<forall>i. i \<notin> fst ` set ms \<longrightarrow> R i = ReferendumInfoOf s i) \<and>
      (\<forall>(i, st)\<in>set ms. \<exists>b. R i = Some (Finished b now) \<and> (keeps_electorate T \<longrightarrow> decided T st (ext s') = Some b)) \<and>
      (keeps_electorate T \<longrightarrow> get_electorate T (ext s') = get_electorate T (ext s))"
proof (induction ms arbitrary: s)
  case Nil
  then show ?case by (auto simp: prog_simps intro!: exI [of _ "ReferendumInfoOf s"])
next
  case (Cons m ms)
  obtain i st where m: "m = (i, st)" by (cases m)
  obtain b u where bake: "bake_referendum T now i st s = (Inr b, u)"
    and rest: "for_each ms (finish T now) (u\<lparr>ReferendumInfoOf := (ReferendumInfoOf u)(i \<mapsto> Finished b now)\<rparr>) = (Inr (), s')"
    using Cons.prems(1) by (auto simp: m prog_simps put_referendum_def)
  note bk = bake_referendum_Inr [OF laws bake]
  let ?u = "u\<lparr>ReferendumInfoOf := (ReferendumInfoOf u)(i \<mapsto> Finished b now)\<rparr>"
  have d: "distinct (map fst ms)" "i \<notin> fst ` set ms" using Cons.prems(2) by (simp_all add: m)
  obtain R where R: "view T s' = (view T ?u)\<lparr>vw_referenda := R\<rparr>" "\<forall>j. j \<notin> fst ` set ms \<longrightarrow> R j = ReferendumInfoOf ?u j"
      "\<forall>(j, st')\<in>set ms. \<exists>b. R j = Some (Finished b now) \<and> (keeps_electorate T \<longrightarrow> decided T st' (ext s') = Some b)"
      "keeps_electorate T \<longrightarrow> get_electorate T (ext s') = get_electorate T (ext ?u)"
    using Cons.IH [OF rest d(1)] by blast
  have u: "ReferendumInfoOf u = ReferendumInfoOf s" using arg_cong [OF bk(1), of vw_referenda] by simp
  have "view T s' = (view T s)\<lparr>vw_referenda := R\<rparr>" using R(1) bk(1) by (simp add: view_def)
  moreover have "R j = ReferendumInfoOf s j" if "j \<notin> fst ` set (m # ms)" for j using R(2) that u by (simp add: m)
  moreover have "R i = Some (Finished b now)" using R(2) d(2) by simp
  moreover have "keeps_electorate T \<Longrightarrow> decided T st (ext s') = Some b" using bk(2,3) R(4) by (simp add: decided_def)
  ultimately show ?case using R(3,4) bk(3) by (intro exI [of _ R]) (auto simp: m)
qed

section \<open>The lowest unbaked referendum\<close>

lemma skip_baked_bounds:
  "l \<le> n \<Longrightarrow> l \<le> skip_baked R n l \<and> skip_baked R n l \<le> n \<and>
     (\<forall>i st. R i = Some (Ongoing st) \<longrightarrow> l \<le> i \<longrightarrow> skip_baked R n l \<le> i)"
proof (induction R n l rule: skip_baked.induct)
  case (1 R n l)
  show ?case
  proof (cases "l < n \<and> (case R l of None \<Rightarrow> True | Some (Finished _ _) \<Rightarrow> True | Some (Ongoing _) \<Rightarrow> False)")
    case True
    then have eq: "skip_baked R n l = skip_baked R n (Suc l)" by (subst skip_baked.simps) simp
    have IH: "Suc l \<le> skip_baked R n (Suc l)" "skip_baked R n (Suc l) \<le> n"
        "\<And>i st. R i = Some (Ongoing st) \<Longrightarrow> Suc l \<le> i \<Longrightarrow> skip_baked R n (Suc l) \<le> i"
      using "1.IH" [OF True] True by auto
    have "Suc l \<le> i" if "R i = Some (Ongoing st)" "l \<le> i" for i st
      using that True by (cases "i = l") auto
    then show ?thesis using IH eq by auto
  next
    case False
    then have "skip_baked R n l = l" by (subst skip_baked.simps) auto
    with 1 show ?thesis by simp
  qed
qed

section \<open>One block\<close>

text \<open>What \<open>begin_block\<close> leaves behind: at most one new referendum, and the maturing ones decided.\<close>

definition block_effect ::
    "('l, 'c) democracy_config_scheme \<Rightarrow> nat \<Rightarrow> dm_view \<Rightarrow> dm_view \<Rightarrow> 'l \<Rightarrow> bool" where
  "block_effect T n v v' l \<longleftrightarrow> (\<exists>v1 R.
     (v1 = v \<or> view_starts (saturating_add_u32 n (VotingPeriod T)) v v1) \<and>
     v' = v1\<lparr>vw_referenda := R, vw_unbaked := skip_baked R (vw_count v) (vw_unbaked v)\<rparr> \<and>
     (\<forall>i. if \<exists>st. vw_unbaked v \<le> i \<and> i < vw_count v \<and> vw_referenda v1 i = Some (Ongoing st) \<and> rf_end st = n
          then \<exists>st b. vw_referenda v1 i = Some (Ongoing st) \<and> R i = Some (Finished b n) \<and>
            (keeps_electorate T \<longrightarrow> decided T st l = Some b)
          else R i = vw_referenda v1 i))"

lemma may_start_block:
  assumes "democracy_laws T"
  shows "may_start T (saturating_add_u32 n (VotingPeriod T)) (or_try (if n mod LaunchPeriod T = 0 then launch_next T n else ok ()) (ok ()))"
  by (rule may_start_or_try, cases "n mod LaunchPeriod T = 0")
     (simp_all add: may_start_launch [OF assms] may_start_untouched keeps_ok)

lemma begin_block_effect:
  assumes laws: "democracy_laws T" and run: "begin_block T n s = (Inr (), s')"
  shows "block_effect T n (view T s) (view T s') (ext s')"
proof -
  obtain u x where u: "or_try (if n mod LaunchPeriod T = 0 then launch_next T n else ok ()) (ok ()) s = (Inr (), u)"
    and x: "for_each (maturing_referenda_at_inner u n (LowestUnbaked s) (ReferendumCount s)) (finish T n) u = (Inr (), x)"
    and s': "s' = x\<lparr>LowestUnbaked := skip_baked (ReferendumInfoOf x) (ReferendumCount s) (LowestUnbaked x)\<rparr>"
    using run by (auto simp: begin_block_def prog_simps or_try_def ok_def split: if_splits)
  have start: "view T u = view T s \<or> view_starts (saturating_add_u32 n (VotingPeriod T)) (view T s) (view T u)"
    using may_start_block [OF laws, of n] u unfolding may_start_def by blast
  obtain R where R: "view T x = (view T u)\<lparr>vw_referenda := R\<rparr>"
      "\<And>i. i \<notin> fst ` set (maturing_referenda_at_inner u n (LowestUnbaked s) (ReferendumCount s)) \<Longrightarrow> R i = ReferendumInfoOf u i"
      "\<And>i st. (i, st) \<in> set (maturing_referenda_at_inner u n (LowestUnbaked s) (ReferendumCount s)) \<Longrightarrow>
        \<exists>b. R i = Some (Finished b n) \<and> (keeps_electorate T \<longrightarrow> decided T st (ext x) = Some b)"
    using finish_all [OF laws x distinct_maturing] by fast
  have low: "LowestUnbaked u = LowestUnbaked s" using start by (auto simp: view_def view_starts_def)
  have x': "ReferendumInfoOf x = R" "LowestUnbaked x = LowestUnbaked u" using R(1) by (simp_all add: view_def)
  have "view T s' = (view T u)\<lparr>vw_referenda := R, vw_unbaked := skip_baked R (ReferendumCount s) (LowestUnbaked s)\<rparr>"
    using R(1) by (simp add: s' view_def x' low)
  moreover have "if \<exists>st. LowestUnbaked s \<le> i \<and> i < ReferendumCount s \<and> ReferendumInfoOf u i = Some (Ongoing st) \<and> rf_end st = n
      then \<exists>st b. ReferendumInfoOf u i = Some (Ongoing st) \<and> R i = Some (Finished b n) \<and> (keeps_electorate T \<longrightarrow> decided T st (ext s') = Some b)
      else R i = ReferendumInfoOf u i" for i
  proof (cases "\<exists>st. (i, st) \<in> set (maturing_referenda_at_inner u n (LowestUnbaked s) (ReferendumCount s))")
    case True
    then obtain st where st: "(i, st) \<in> set (maturing_referenda_at_inner u n (LowestUnbaked s) (ReferendumCount s))" by blast
    then show ?thesis using R(3) [OF st] unfolding maturing_iff by (simp add: s')
  next
    case False
    then have "R i = ReferendumInfoOf u i" by (intro R(2)) auto
    with False show ?thesis unfolding maturing_iff by auto
  qed
  ultimately show ?thesis unfolding block_effect_def using start
    by (intro exI [of _ "view T u"] exI [of _ R], unfold view_simps) blast
qed

lemma block_effect_ok:
  assumes eff: "block_effect T (Suc m) v v' l" and ok: "view_ok A B (v\<lparr>vw_block := m\<rparr>)" and now: "vw_block v = Suc m"
    and count: "vw_count v < u32_max" and e: "Suc m < saturating_add_u32 (Suc m) (VotingPeriod T)"
  shows "view_ok A B v'" "vw_votings v' = vw_votings v" "vw_block v' = Suc m"
proof -
  obtain v1 R where v1: "v1 = v \<or> view_starts (saturating_add_u32 (Suc m) (VotingPeriod T)) v v1"
    and v': "v' = v1\<lparr>vw_referenda := R, vw_unbaked := skip_baked R (vw_count v) (vw_unbaked v)\<rparr>"
    and R: "\<And>i. if \<exists>st. vw_unbaked v \<le> i \<and> i < vw_count v \<and> vw_referenda v1 i = Some (Ongoing st) \<and> rf_end st = Suc m
          then \<exists>st b. vw_referenda v1 i = Some (Ongoing st) \<and> R i = Some (Finished b (Suc m)) \<and>
            (keeps_electorate T \<longrightarrow> decided T st l = Some b)
          else R i = vw_referenda v1 i"
    using eff unfolding block_effect_def by blast
  show "vw_votings v' = vw_votings v" "vw_block v' = Suc m" using v1 now by (auto simp: v' view_starts_def)
  have ok1: "view_ok A B (v1\<lparr>vw_block := m\<rparr>)"
    using v1
  proof
    assume "view_starts (saturating_add_u32 (Suc m) (VotingPeriod T)) v v1"
    then have "view_starts (saturating_add_u32 (Suc m) (VotingPeriod T)) (v\<lparr>vw_block := m\<rparr>) (v1\<lparr>vw_block := m\<rparr>)"
      by (auto simp: view_starts_def)
    from view_starts_ok [OF ok this] count e show ?thesis by simp
  qed (use ok in simp)
  have on: "vw_referenda v1 i = Some (Ongoing st) \<and> vw_unbaked v \<le> i \<and> Suc m < rf_end st" if "R i = Some (Ongoing st)" for i st
  proof -
    have i: "vw_referenda v1 i = Some (Ongoing st)" "\<not> (vw_unbaked v \<le> i \<and> i < vw_count v \<and> rf_end st = Suc m)"
      using R [of i] that by (auto split: if_splits)
    have low: "vw_unbaked v \<le> i" "m < rf_end st"
      using view_okD(4) [OF ok1, of i st] i(1) v1 by (auto simp: view_starts_def)
    have "Suc m < rf_end st"
    proof (cases "i < vw_count v")
      case True
      then show ?thesis using i(2) low by linarith
    next
      case False
      have "vw_referenda v i = None" using books_okD(4) [OF view_okD(1) [OF ok], of i] False
        by (cases "vw_referenda v i") auto
      then show ?thesis using v1 i(1) e by (auto simp: view_starts_def split: if_splits)
    qed
    with i low show ?thesis by simp
  qed
  have "dom R \<subseteq> dom (vw_referenda v1)"
  proof
    fix i
    assume i: "i \<in> dom R"
    show "i \<in> dom (vw_referenda v1)"
    proof (rule ccontr)
      assume "i \<notin> dom (vw_referenda v1)"
      then have "vw_referenda v1 i = None" by (simp add: domIff)
      then show False using R [of i] i by auto
    qed
  qed
  then have books: "books_ok A B (vw_votings v1) R (vw_count v1)"
    using books_drop [OF view_okD(1) [OF ok1]] on by simp
  have low: "vw_unbaked v \<le> vw_count v" "vw_count v \<le> vw_count v1"
    using view_okD(3) [OF ok] v1 count by (auto simp: view_starts_def wrapping_add_u32_def u32_max_def)
  have "schedule_ok R (vw_count v1) (skip_baked R (vw_count v) (vw_unbaked v)) (Suc m)"
    using skip_baked_bounds [OF low(1), of R] on low(2) by (auto simp: schedule_ok_def)
  then show "view_ok A B v'" using books view_okD(2) [OF ok1] \<open>vw_block v' = Suc m\<close> by (auto simp: view_ok_def v')
qed

end
