(* ===== verification/Democracy_Demo.thy ===== *)
theory Democracy_Demo
  imports Democracy_Blocks
begin

text \<open>
  A small instance of the parameters of the pallet \<^verbatim>\<open>democracy\<close>, a ledger with balances, holds and freezes, that meets
  the laws the claims rely on, and states of a chain with two voters on which the witnesses compute.
\<close>

record vote_ledger =
  vl_total :: "account \<Rightarrow> nat"
  vl_held :: "account \<Rightarrow> nat"
  vl_frozen :: "account \<Rightarrow> nat"

definition demo_fungible :: "vote_ledger fungible" where
  "demo_fungible =
     \<lparr>c_balance_on_hold = (\<lambda>r who l. vl_held l who),
      c_hold = (\<lambda>r who n l. if vl_held l who + n \<le> vl_total l who
                 then (Inr (), l\<lparr>vl_held := (vl_held l)(who := vl_held l who + n)\<rparr>) else (Inl (External 0), l)),
      c_release = (\<lambda>r who n p l. let m = (if p = Exact then n else min n (vl_held l who)) in
                 if m \<le> vl_held l who then (Inr m, l\<lparr>vl_held := (vl_held l)(who := vl_held l who - m)\<rparr>)
                 else (Inl (External 1), l)),
      c_transfer = (\<lambda>from' to n p l. (Inl (External 2), l)),
      c_transfer_and_hold = (\<lambda>r from' to n p l. (Inl (External 2), l)),
      c_transfer_on_hold = (\<lambda>r from' to n p l. (Inl (External 2), l)),
      c_total_balance = (\<lambda>a l. vl_total l a),
      c_balance_frozen = (\<lambda>r a l. vl_frozen l a),
      c_extend_freeze = (\<lambda>r who n l. (Inr (), l\<lparr>vl_frozen := (vl_frozen l)(who := max (vl_frozen l who) n)\<rparr>)),
      c_set_freeze = (\<lambda>r who n l. (Inr (), l\<lparr>vl_frozen := (vl_frozen l)(who := n)\<rparr>)),
      c_thaw = (\<lambda>r who l. (Inr (), l\<lparr>vl_frozen := (vl_frozen l)(who := 0)\<rparr>)),
      c_slash = (\<lambda>r who n l. let m = min n (vl_held l who) in
                 (m, l\<lparr>vl_held := (vl_held l)(who := vl_held l who - m), vl_total := (vl_total l)(who := vl_total l who - m)\<rparr>))\<rparr>"

definition demo_democracy :: "vote_ledger democracy_config" where
  "demo_democracy =
     \<lparr>dm_fungible = demo_fungible, dm_integer_sqrt = isqrt_search, dm_hash = (\<lambda>p. p), dm_lookup = Some,
      schedule_named = (\<lambda>name w n orig p l. (Inr (), l)), preimage_len = (\<lambda>h l. Some 1), get_electorate = (\<lambda>l. 2000),
      slash_on_unbalanced = (\<lambda>n l. l),
      ExternalOrigin = (\<lambda>orig. orig = Root), ExternalMajorityOrigin = (\<lambda>orig. orig = Root), ExternalDefaultOrigin = (\<lambda>orig. orig = Root),
      SubmitOrigin = (\<lambda>orig. case orig of Signed a \<Rightarrow> Some a | _ \<Rightarrow> None), FastTrackOrigin = (\<lambda>orig. orig = Root),
      InstantOrigin = (\<lambda>orig. False), CancellationOrigin = (\<lambda>orig. orig = Root), BlacklistOrigin = (\<lambda>orig. orig = Root),
      CancelProposalOrigin = (\<lambda>orig. orig = Root), VetoOrigin = (\<lambda>orig. None), EnactmentPeriod = 5, LaunchPeriod = 7,
      VotingPeriod = 10, VoteLockingPeriod = 10, MinimumDeposit = 1, InstantAllowed = False, FastTrackVotingPeriod = 2,
      CooloffPeriod = 10, MaxVotes = 3, MaxProposals = 3, MaxDeposits = 3, MaxBlacklisted = 3\<rparr>"

definition demo_referendum :: referendum_status where
  "demo_referendum = \<lparr>rf_end = 20, rf_proposal = 7, rf_threshold = SimpleMajority, rf_delay = 1, rf_tally = no_tally\<rparr>"

text \<open>Two accounts that own 1000 each, before anybody has voted on referendum 0, which ends with block 20.\<close>

definition demo_polls :: "vote_ledger democracy_state" where
  "demo_polls =
     \<lparr>block_number = 19, ext = \<lparr>vl_total = (\<lambda>_. 1000), vl_held = (\<lambda>_. 0), vl_frozen = (\<lambda>_. 0)\<rparr>,
      PublicPropCount = 0, PublicProps = [], DepositOf = Map.empty, ReferendumCount = 1, LowestUnbaked = 0,
      ReferendumInfoOf = [0 \<mapsto> Ongoing demo_referendum], VotingOf = (\<lambda>_. voting_default), LastTabledWasExternal = False,
      NextExternal = None, Blacklist = Map.empty, Cancellations = Map.empty, MetadataOf = Map.empty, democracy_events = []\<rparr>"

text \<open>Account 1 has voted aye with 100 and conviction on a referendum that was approved in block 12.\<close>

definition demo_vote :: account_vote where
  "demo_vote = Standard \<lparr>rv_aye = True, rv_conviction = Locked2x\<rparr> 100"

definition demo_won :: "vote_ledger democracy_state" where
  "demo_won = demo_polls\<lparr>ext := \<lparr>vl_total = (\<lambda>_. 1000), vl_held = (\<lambda>_. 0), vl_frozen = (\<lambda>_. 0)(1 := 100)\<rparr>,
      ReferendumInfoOf := [0 \<mapsto> Finished True 12], VotingOf := (\<lambda>_. voting_default)(1 := Direct [(0, demo_vote)] no_delegations no_prior)\<rparr>"

lemma demo_democracy_fields [simp]:
  "dm_fungible demo_democracy = demo_fungible" "dm_integer_sqrt demo_democracy = isqrt_search" "dm_lookup demo_democracy = Some"
  "schedule_named demo_democracy = (\<lambda>name w n orig p l. (Inr (), l))" "get_electorate demo_democracy = (\<lambda>l. 2000)"
  "slash_on_unbalanced demo_democracy = (\<lambda>n l. l)" "LaunchPeriod demo_democracy = 7" "VotingPeriod demo_democracy = 10"
  "VoteLockingPeriod demo_democracy = 10" "MaxVotes demo_democracy = 3"
  by (simp_all add: demo_democracy_def)

lemma demo_fungible_fields [simp]:
  "c_total_balance demo_fungible = (\<lambda>a l. vl_total l a)"
  "c_extend_freeze demo_fungible = (\<lambda>r who n l. (Inr (), l\<lparr>vl_frozen := (vl_frozen l)(who := max (vl_frozen l who) n)\<rparr>))"
  "c_set_freeze demo_fungible = (\<lambda>r who n l. (Inr (), l\<lparr>vl_frozen := (vl_frozen l)(who := n)\<rparr>))"
  by (simp_all add: demo_fungible_def)

lemma demo_frozen [simp]: "frozen_in demo_democracy l = vl_frozen l"
  by (simp add: frozen_in_def demo_fungible_def)

lemma demo_democracy_laws: "democracy_laws demo_democracy"
  by (auto simp: democracy_laws_def demo_fungible_def Let_def)

lemma demo_capacity: "capacity {1, 2} 1000"
  by (simp add: capacity_def u128_max_def)

lemma voting_default_simps [simp]:
  "share voting_default i k = 0" "given voting_default t = no_delegations" "received voting_default = no_delegations"
  "voted voting_default = {}" "voting_ok A B a voting_default" "locked_balance voting_default = 0" "voting_prior voting_default = no_prior"
  by (simp_all add: voting_default_def no_prior_def)

lemma demo_polls_ok: "democracy_ok demo_democracy {1, 2} 1000 demo_polls"
  by (auto simp: view_ok_def books_ok_def votings_ok_def tallies_ok_def indices_ok_def schedule_ok_def demo_polls_def demo_referendum_def
      split: if_splits)

lemma demo_won_ok: "democracy_ok demo_democracy {1, 2} 1000 demo_won"
  by (auto simp: view_ok_def books_ok_def votings_ok_def tallies_ok_def indices_ok_def schedule_ok_def demo_polls_def demo_won_def
      demo_vote_def vote_balance_def no_prior_def voting_default_def split: if_splits)

section \<open>Runs\<close>

text \<open>Account 1 votes; after the referendum it won, it removes its vote; account 2 asks to unlock account 1.\<close>

definition demo_voted :: "vote_ledger democracy_state" where
  "demo_voted = demo_polls\<lparr>democracy_events := [Voted 1 0 demo_vote],
     VotingOf := (\<lambda>_. voting_default)(1 := Direct [(0, demo_vote)] no_delegations no_prior),
     ext := \<lparr>vl_total = (\<lambda>_. 1000), vl_held = (\<lambda>_. 0), vl_frozen = (\<lambda>_. 0)(1 := 100)\<rparr>,
     ReferendumInfoOf := [0 \<mapsto> Ongoing (demo_referendum\<lparr>rf_tally := \<lparr>ayes = 200, nays = 0, turnout = 100\<rparr>\<rparr>)]\<rparr>"

lemma demo_votes: "democracy_dispatch demo_democracy (Signed 1) (VoteFor 0 demo_vote) demo_polls = (Inr (), demo_voted)"
  by (simp add: democracy_dispatch_def democracy_body_def dm_vote_def try_vote_def find_referendum_status_def ensure_ongoing_def
      ensure_signed_def record_vote_def search_vote_def binary_search_by_def search_loop.simps demo_polls_def demo_voted_def demo_vote_def
      vote_balance_def voting_default_def insert_at_def demo_referendum_def tally_add_def conviction_votes_def checked_add_def checked_mul_def
      u128_max_def no_tally_def with_delegations_def as_standard_def tally_increase_def no_delegations_def saturating_add_def on_ext_def
      democracy_access_defs prog_defs)

definition demo_removed :: "vote_ledger democracy_state" where
  "demo_removed = demo_won\<lparr>VotingOf := (\<lambda>_. voting_default)(1 := Direct [] no_delegations \<lparr>pl_until = 32, pl_amount = 100\<rparr>)\<rparr>"

lemma demo_removes: "democracy_dispatch demo_democracy (Signed 1) (RemoveVote 0) demo_won = (Inr (), demo_removed)"
  by (simp add: democracy_dispatch_def democracy_body_def remove_vote_def try_remove_vote_def ensure_signed_def search_vote_def
      binary_search_by_def search_loop.simps nat_cmp_def demo_polls_def demo_won_def demo_removed_def demo_vote_def locked_if_def
      unlock_block_def saturating_add_u32_def u32_max_def accumulate_def no_prior_def remove_at_def democracy_access_defs prog_defs)

lemma demo_unlocks:
  "democracy_dispatch demo_democracy (Signed 2) (Unlock 1) demo_removed = (Inr (), demo_removed)"
  by (simp add: democracy_dispatch_def democracy_body_def unlock_def lookup_account_def update_lock_def ensure_signed_def demo_removed_def
      demo_won_def demo_polls_def prior_rejig_def on_ext_def democracy_access_defs prog_defs)

end
