(* ===== verification/Democracy_Claims.thy ===== *)
theory Democracy_Claims
  imports Democracy_Demo
begin

text \<open>
  The claims about the pallet \<^verbatim>\<open>democracy\<close> as a whole. Its reachable states are those of any sequence of calls and
  blocks, with changes of the other balances in between. In all of them the tallies are exactly what the recorded
  votes and delegations say, the freezes cover what the votes need, and referenda are decided at their end.
\<close>

section \<open>Calls keep the invariant\<close>

definition lock_kept :: "nat \<Rightarrow> prior_lock \<Rightarrow> prior_lock \<Rightarrow> bool" where
  "lock_kept now p p' \<longleftrightarrow> prior_grows p p' \<or> p' = prior_rejig now p"

text \<open>A transition that keeps the invariant and the locks that have not expired.\<close>

definition transition_ok ::
    "('l, 'c) democracy_config_scheme \<Rightarrow> account set \<Rightarrow> nat \<Rightarrow> ('l, 'z) democracy_state_scheme \<Rightarrow> ('l, 'z) democracy_state_scheme \<Rightarrow> bool" where
  "transition_ok T A B s s' \<longleftrightarrow> democracy_ok T A B s' \<and> block_number s' = block_number s \<and>
     (\<forall>a. lock_kept (block_number s) (voting_prior (VotingOf s a)) (voting_prior (VotingOf s' a)))"

lemma transition_view:
  assumes "democracy_ok T A B s'" "VotingOf s' = VotingOf s" "block_number s' = block_number s"
  shows "transition_ok T A B s s'"
  using assms by (simp add: transition_ok_def lock_kept_def)

lemma transition_untouched:
  assumes "democracy_ok T A B s" "\<And>v. keeps (untouched T v) m" "m s = (r, s')"
  shows "transition_ok T A B s s'"
proof -
  have "view T s' = view T s" using keepsD [OF assms(2) refl assms(3)] .
  then show ?thesis using assms(1) by (intro transition_view) (simp_all add: view_def)
qed

lemma skeleton_Ongoing:
  assumes "skeletons R' = skeletons R" "R' i = Some (Ongoing st')"
  shows "\<exists>st. R i = Some (Ongoing st) \<and> rf_end st = rf_end st'"
proof -
  have "map_option skeleton (R i) = Some (skeleton (Ongoing st'))" using fun_cong [OF assms(1), of i] assms(2) by simp
  then obtain r where r: "R i = Some r" "skeleton r = skeleton (Ongoing st')" by auto
  then show ?thesis by (cases r) (auto dest: arg_cong [of _ _ rf_end])
qed

lemma transition_voting_step:
  assumes laws: "democracy_laws T" and ok: "democracy_ok T A B s" and step: "voting_step T who s s'"
    and books: "books_ok A B (VotingOf s') (ReferendumInfoOf s') (ReferendumCount s')"
  shows "transition_ok T A B s s'"
proof -
  obtain x where x: "locked_balance (VotingOf s' who) \<le> max (locked_balance (VotingOf s who)) x"
      "x = 0 \<and> ext s' = ext s \<or> c_extend_freeze (dm_fungible T) VoteFreeze who x (ext s) = (Inr (), ext s')"
    using step unfolding voting_step_def by blast
  have fz: "frozen_in T (ext s') = (frozen_in T (ext s))(who := max (frozen_in T (ext s) who) x)"
    using x(2) democracy_lawsD(1) [OF laws] by (auto simp: fun_eq_iff)
  have sk: "skeletons (ReferendumInfoOf s') = skeletons (ReferendumInfoOf s)" "ReferendumCount s' = ReferendumCount s"
      "LowestUnbaked s' = LowestUnbaked s" "block_number s' = block_number s"
      "prior_grows (voting_prior (VotingOf s who)) (voting_prior (VotingOf s' who))"
      "\<And>a. a \<noteq> who \<Longrightarrow> \<exists>e. VotingOf s' a = receiving e (VotingOf s a)"
    using step unfolding voting_step_def by blast+
  have locked: "locked_balance (VotingOf s' a) \<le> frozen_in T (ext s') a" for a
  proof (cases "a = who")
    case True
    then show ?thesis using x(1) view_okD(2) [OF ok, of who] by (auto simp: fz)
  next
    case False
    then show ?thesis using sk(6) [OF False] view_okD(2) [OF ok, of a] by (auto simp: fz)
  qed
  have "schedule_ok (ReferendumInfoOf s') (ReferendumCount s') (LowestUnbaked s') (block_number s')"
    using skeleton_Ongoing [OF sk(1)] view_okD(3) [OF ok] view_okD(4) [OF ok] sk(2-4) by (fastforce simp: schedule_ok_def)
  moreover have "lock_kept (block_number s) (voting_prior (VotingOf s a)) (voting_prior (VotingOf s' a))" for a
    using sk(5) sk(6) [of a] by (cases "a = who") (auto simp: lock_kept_def)
  ultimately show ?thesis using books locked sk(4) by (simp add: transition_ok_def view_ok_def)
qed

lemma locked_rejig: "locked_balance (voting_rejig now v) \<le> locked_balance v"
proof (cases v)
  case (Direct votes d p)
  have "pl_amount (prior_rejig now p) \<le> pl_amount p" by (simp add: prior_rejig_def no_prior_def)
  then show ?thesis using locked_balance_ge(1) [of p votes d] locked_balance_ge(2) [of _ votes d p]
    unfolding Direct voting_rejig.simps locked_balance_le by (auto intro: order_trans)
qed (auto simp: prior_rejig_def no_prior_def)

lemma rejig_simps [simp]:
  "given (voting_rejig now v) = given v" "received (voting_rejig now v) = received v" "voted (voting_rejig now v) = voted v"
  "share (voting_rejig now v) i k = share v i k" "voting_ok A B a (voting_rejig now v) = voting_ok A B a v"
  "voting_prior (voting_rejig now v) = prior_rejig now (voting_prior v)"
  by (cases v; auto)+

lemma transition_update_lock:
  assumes laws: "democracy_laws T" and cap: "capacity A B" and ok: "democracy_ok T A B s" and who: "who \<in> A"
    and run: "update_lock T who s = (Inr (), s')"
  shows "transition_ok T A B s s'"
proof -
  let ?v = "voting_rejig (block_number s) (VotingOf s who)"
  obtain l where l: "s' = s\<lparr>VotingOf := (VotingOf s)(who := ?v), ext := l\<rparr>"
      "frozen_in T l = (frozen_in T (ext s))(who := locked_balance ?v)"
    using run democracy_lawsD(2,3) [OF laws]
    by (auto simp: update_lock_def prog_simps put_voting_def Let_def split: if_splits)
  have "books_ok A B ((VotingOf s)(who := ?v)) (ReferendumInfoOf s) (ReferendumCount s)"
    using view_okD(1) [OF ok] books_okD(3,6) [OF view_okD(1) [OF ok], of who] books_okD(4) [OF view_okD(1) [OF ok]]
    by (intro books_update [OF cap _ who]) auto
  then show ?thesis using ok
    by (auto simp: transition_ok_def view_ok_def view_def l lock_kept_def)
qed

text \<open>Programs that only cancel referenda.\<close>

abbreviation still_ok :: "('l, 'c) democracy_config_scheme \<Rightarrow> account set \<Rightarrow> nat \<Rightarrow> (account \<Rightarrow> voting) \<Rightarrow> nat \<Rightarrow>
    ('l, 'z) democracy_state_scheme \<Rightarrow> bool" where
  "still_ok T A B V n \<equiv> (\<lambda>s. view_ok A B (view T s) \<and> vw_votings (view T s) = V \<and> vw_block (view T s) = n)"

lemma keeps_still_ok: "(\<And>v. keeps (untouched T v) m) \<Longrightarrow> keeps (still_ok T A B V n) m"
  by (rule keeps_view)

lemma still_ok_transition: "keeps (still_ok T A B (VotingOf s) (block_number s)) m \<Longrightarrow> democracy_ok T A B s \<Longrightarrow> m s = (r, s') \<Longrightarrow>
    transition_ok T A B s s'"
  using keepsD [of "still_ok T A B (VotingOf s) (block_number s)" m s r s'] by (intro transition_view) auto

lemma view_ok_cancel:
  assumes ok: "view_ok A B (view T s)"
  shows "view_ok A B (view T (s\<lparr>ReferendumInfoOf := (ReferendumInfoOf s)(i := None)\<rparr>))"
proof -
  have "books_ok A B (VotingOf s) ((ReferendumInfoOf s)(i := None)) (ReferendumCount s)"
    by (rule books_drop [OF view_okD(1) [OF ok, unfolded view_simps]]) (auto split: if_splits)
  then show ?thesis using ok by (auto simp: view_ok_def view_def schedule_ok_def)
qed

lemma still_ok_cancel: "keeps (still_ok T A B V n) (internal_cancel_referendum i)"
proof -
  have "keeps (still_ok T A B V n) (put_referendum i None)"
    by (simp add: put_referendum_def keeps_def modify_def view_ok_cancel)
  then show ?thesis unfolding internal_cancel_referendum_def
    by (intro keeps_rules keeps_still_ok [OF untouched_access(1)] keeps_still_ok [OF untouched_metadata(1)])
qed

lemma keeps_info: "(\<And>st. r = Ongoing st \<Longrightarrow> keeps P (f st)) \<Longrightarrow> (\<And>a e. r = Finished a e \<Longrightarrow> keeps P (g a e)) \<Longrightarrow>
    keeps P (case r of Ongoing st \<Rightarrow> f st | Finished a e \<Rightarrow> g a e)"
  by (cases r) auto

lemma untouched_removals:
  assumes "democracy_laws T"
  shows "keeps (untouched T v) (remove_queued T h)" "keeps (untouched T v) (remove_external T h)"
  unfolding remove_queued_def remove_external_def Let_def by (intro keeps_rules untouched_rules assms)+

lemma still_ok_removal: "keeps (still_ok T A B V n) (remove_referendum T h mi)"
  unfolding remove_referendum_def by (intro keeps_rules keeps_info still_ok_cancel)

lemma still_ok_calls:
  assumes "democracy_laws T"
  shows "keeps (still_ok T A B V n) (emergency_cancel T orig i)" "keeps (still_ok T A B V n) (cancel_referendum orig i)"
    "keeps (still_ok T A B V n) (blacklist T orig h mi)"
  unfolding emergency_cancel_def cancel_referendum_def blacklist_def Let_def
  by (intro keeps_rules still_ok_cancel still_ok_removal keeps_still_ok [OF untouched_queries(2)] keeps_still_ok [OF untouched_modify(1)]
      keeps_still_ok [OF untouched_access(6)] keeps_still_ok [OF untouched_access(1)] keeps_still_ok [OF untouched_removals(1) [OF assms]]
      keeps_still_ok [OF untouched_removals(2) [OF assms]])+

lemma fast_track_starts:
  assumes "fast_track T orig h vp delay s = (Inr (), s')"
  shows "0 < vp" "view_starts (saturating_add_u32 (block_number s) vp) (view T s) (view T s')"
proof -
  obtain p th where run: "0 < vp" "sbind (inject_referendum (saturating_add_u32 (block_number s) vp) p th delay)
      (\<lambda>i. transfer_metadata ExternalOwner (ReferendumOwner i)) (s\<lparr>NextExternal := None\<rparr>) = (Inr (), s')"
    using assms by (auto simp: fast_track_def prog_simps Let_def put_next_external_def)
  then show "0 < vp" by simp
  have "view_starts (saturating_add_u32 (block_number s) vp) (view T (s\<lparr>NextExternal := None\<rparr>)) (view T s')"
    using inject_and_transfer [OF run(2)] by blast
  then show "view_starts (saturating_add_u32 (block_number s) vp) (view T s) (view T s')" by (simp add: view_def)
qed

section \<open>Reachable states\<close>

text \<open>The addresses a call names.\<close>

fun named :: "democracy_call \<Rightarrow> account set" where
  "named (DelegateVote to c b) = {to}"
| "named (Unlock target) = {target}"
| "named (RemoveOtherVote target i) = {target}"
| "named _ = {}"

text \<open>
  The calls considered: they are made by and name accounts of a set \<open>A\<close>, no account of which owns more than
  \<open>B\<close>, before \<open>u32\<close> block numbers and referendum indices run out.
\<close>

definition within ::
    "('l, 'c) democracy_config_scheme \<Rightarrow> account set \<Rightarrow> nat \<Rightarrow> origin \<Rightarrow> democracy_call \<Rightarrow> ('l, 'z) democracy_state_scheme \<Rightarrow> bool" where
  "within T A B orig call s \<longleftrightarrow> ReferendumCount s < u32_max \<and> block_number s < u32_max \<and>
     (\<forall>a\<in>A. c_total_balance (dm_fungible T) a (ext s) \<le> B) \<and> (\<forall>who. orig = Signed who \<longrightarrow> who \<in> A) \<and>
     (\<forall>x\<in>named call. \<forall>a. dm_lookup T x = Some a \<longrightarrow> a \<in> A)"

lemma democracy_body_transition:
  assumes laws: "democracy_laws T" and cap: "capacity A B" and ok: "democracy_ok T A B s" and win: "within T A B orig call s"
    and run: "democracy_body T orig call s = (Inr (), s')"
  shows "transition_ok T A B s s'"
proof -
  note books = view_okD(1) [OF ok, unfolded view_simps]
  note calls = still_ok_transition [OF still_ok_calls(1) [OF laws] ok] still_ok_transition [OF still_ok_calls(2) [OF laws] ok]
    still_ok_transition [OF still_ok_calls(3) [OF laws] ok]
    transition_untouched [OF ok untouched_calls(1) [OF laws]]
    transition_untouched [OF ok untouched_calls(2) [OF laws]]
    transition_untouched [OF ok untouched_calls(3) [OF laws]]
    transition_untouched [OF ok untouched_calls(4) [OF laws]]
    transition_untouched [OF ok untouched_calls(5) [OF laws]]
    transition_untouched [OF ok untouched_calls(6) [OF laws]]
    transition_untouched [OF ok untouched_calls(7) [OF laws]]
    transition_untouched [OF ok untouched_calls(8) [OF laws]]
    transition_untouched [OF ok untouched_calls(9) [OF laws]]
  have signed: "who \<in> A \<and> c_total_balance (dm_fungible T) who (ext s) \<le> B" if "orig = Signed who" for who
    using win that by (simp add: within_def)
  show ?thesis
  proof (cases call)
    case (VoteFor i vote)
    then obtain who where who: "orig = Signed who" "try_vote T who i vote s = (Inr (), s')"
      using run by (auto simp: democracy_body_def dm_vote_def prog_simps)
    show ?thesis
      using signed [OF who(1)] try_vote_step [OF books cap _ who(2)] try_vote_books [OF cap books _ _ who(2)]
      by (intro transition_voting_step [OF laws ok]) auto
  next
    case (DelegateVote to c b)
    then obtain who t n where who: "orig = Signed who" "dm_lookup T to = Some t" "try_delegate T who t c b s = (Inr n, s')"
      using run by (auto simp: democracy_body_def dm_delegate_def lookup_account_def prog_simps)
    have "t \<in> A" using win who(2) by (simp add: within_def DelegateVote)
    then show ?thesis
      using signed [OF who(1)] try_delegate_step [OF cap books _ _ _ who(3)] by (intro transition_voting_step [OF laws ok]) auto
  next
    case UndelegateVote
    then obtain who n where who: "try_undelegate T who s = (Inr n, s')"
      using run by (auto simp: democracy_body_def dm_undelegate_def prog_simps)
    then show ?thesis using try_undelegate_step [OF cap books who] by (intro transition_voting_step [OF laws ok]) auto
  next
    case (RemoveVote i)
    then obtain who where who: "orig = Signed who" "try_remove_vote T who i AnyVote s = (Inr (), s')"
      using run by (auto simp: democracy_body_def remove_vote_def prog_simps)
    then show ?thesis
      using signed [OF who(1)] try_remove_vote_step [OF who(2) books] try_remove_vote_books [OF cap books _ who(2)]
      by (intro transition_voting_step [OF laws ok]) auto
  next
    case (RemoveOtherVote target i)
    then obtain who t sc where who: "dm_lookup T target = Some t" "try_remove_vote T t i sc s = (Inr (), s')"
      using run by (auto simp: democracy_body_def remove_other_vote_def lookup_account_def prog_simps)
    have "t \<in> A" using win who(1) by (simp add: within_def RemoveOtherVote)
    then show ?thesis
      using try_remove_vote_step [OF who(2) books] try_remove_vote_books [OF cap books _ who(2)]
      by (intro transition_voting_step [OF laws ok]) auto
  next
    case (Unlock target)
    then obtain t where t: "dm_lookup T target = Some t" "update_lock T t s = (Inr (), s')"
      using run by (auto simp: democracy_body_def unlock_def lookup_account_def prog_simps)
    have "t \<in> A" using win t(1) by (simp add: within_def Unlock)
    then show ?thesis by (rule transition_update_lock [OF laws cap ok _ t(2)])
  next
    case (FastTrack h vp delay)
    then have ft: "fast_track T orig h vp delay s = (Inr (), s')" using run by (simp add: democracy_body_def)
    have "block_number s < saturating_add_u32 (block_number s) vp"
      using fast_track_starts(1) [OF ft] win by (simp add: within_def saturating_add_u32_def)
    then have "democracy_ok T A B s'"
      using view_starts_ok [OF ok fast_track_starts(2) [OF ft]] win by (simp add: within_def)
    then show ?thesis using fast_track_starts(2) [OF ft]
      by (intro transition_view) (auto simp: view_starts_def view_def)
  qed (use run in \<open>auto simp: democracy_body_def intro: calls\<close>)
qed

text \<open>
  The states reachable from \<open>s0\<close>: by calls, successful or not, by the hook of the next block, and by changes other
  pallets make to the balances, which leave the freezes for votes alone.
\<close>

inductive democracy_reachable ::
    "('l, 'c) democracy_config_scheme \<Rightarrow> account set \<Rightarrow> nat \<Rightarrow> ('l, 'z) democracy_state_scheme \<Rightarrow> ('l, 'z) democracy_state_scheme \<Rightarrow> bool"
  for T A B s0 where
  dm_start: "democracy_reachable T A B s0 s0"
| dm_call: "democracy_reachable T A B s0 s \<Longrightarrow> within T A B orig call s \<Longrightarrow> democracy_dispatch T orig call s = (r, s') \<Longrightarrow>
    democracy_reachable T A B s0 s'"
| dm_block: "democracy_reachable T A B s0 s \<Longrightarrow> ReferendumCount s < u32_max \<Longrightarrow> Suc (block_number s) + VotingPeriod T \<le> u32_max \<Longrightarrow>
    democracy_on_initialize T (Suc (block_number s)) (s\<lparr>block_number := Suc (block_number s)\<rparr>) = (Inr (), s') \<Longrightarrow>
    democracy_reachable T A B s0 s'"
| dm_other: "democracy_reachable T A B s0 s \<Longrightarrow> frozen_in T l = frozen_in T (ext s) \<Longrightarrow> democracy_reachable T A B s0 (s\<lparr>ext := l\<rparr>)"

lemma block_transition:
  assumes laws: "democracy_laws T" and ok: "democracy_ok T A B s" and count: "ReferendumCount s < u32_max"
    and vp: "0 < VotingPeriod T" "Suc (block_number s) + VotingPeriod T \<le> u32_max"
    and run: "democracy_on_initialize T (Suc (block_number s)) (s\<lparr>block_number := Suc (block_number s)\<rparr>) = (Inr (), s')"
  shows "democracy_ok T A B s'" "VotingOf s' = VotingOf s" "block_number s' = Suc (block_number s)"
    "block_effect T (Suc (block_number s)) (view T (s\<lparr>block_number := Suc (block_number s)\<rparr>)) (view T s') (ext s')"
proof -
  let ?s = "s\<lparr>block_number := Suc (block_number s)\<rparr>"
  show eff: "block_effect T (Suc (block_number s)) (view T ?s) (view T s') (ext s')"
    by (rule begin_block_effect [OF laws]) (use run in \<open>simp add: democracy_on_initialize_def\<close>)
  have ok': "view_ok A B ((view T ?s)\<lparr>vw_block := block_number s\<rparr>)" using ok by (simp add: view_def)
  have e: "Suc (block_number s) < saturating_add_u32 (Suc (block_number s)) (VotingPeriod T)"
    using vp by (simp add: saturating_add_u32_def)
  have now: "vw_block (view T ?s) = Suc (block_number s)" "vw_count (view T ?s) < u32_max" using count by simp_all
  note b = block_effect_ok [OF eff ok' now e]
  then show "democracy_ok T A B s'" "VotingOf s' = VotingOf s" "block_number s' = Suc (block_number s)" by simp_all
qed

definition lock_held :: "nat \<Rightarrow> nat \<Rightarrow> prior_lock \<Rightarrow> bool" where
  "lock_held u b p \<longleftrightarrow> u \<le> pl_until p \<and> b \<le> pl_amount p"

lemma lock_held_kept: "lock_kept now p p' \<Longrightarrow> now < u \<Longrightarrow> lock_held u b p \<Longrightarrow> lock_held u b p'"
  by (auto simp: lock_kept_def lock_held_def prior_grows_def prior_rejig_def)

lemma reachable_ok:
  assumes laws: "democracy_laws T" and cap: "capacity A B" and vp: "0 < VotingPeriod T"
    and ok: "democracy_ok T A B s0" and reach: "democracy_reachable T A B s0 s"
  shows "democracy_ok T A B s \<and> block_number s0 \<le> block_number s \<and>
    (\<forall>a u b. lock_held u b (voting_prior (VotingOf s0 a)) \<longrightarrow> block_number s < u \<longrightarrow> lock_held u b (voting_prior (VotingOf s a)))"
  using reach
proof induction
  case dm_start
  then show ?case using ok by simp
next
  case (dm_call s orig call r s')
  then consider "s' = s" | "democracy_body T orig call s = (Inr (), s')"
    by (cases r) (auto simp: democracy_dispatch_def transactional_Inr dest: transactional_Inl)
  then show ?case
  proof cases
    case 2
    have "transition_ok T A B s s'"
      using democracy_body_transition [OF laws cap _ dm_call(2) 2] dm_call.IH by blast
    then show ?thesis using dm_call.IH lock_held_kept unfolding transition_ok_def by metis
  qed (use dm_call in simp)
next
  case (dm_block s s')
  then have ok: "democracy_ok T A B s" by blast
  from block_transition [OF laws ok dm_block(2) vp dm_block(3,4)] dm_block.IH show ?case by auto
next
  case (dm_other s l)
  then show ?case by (simp add: view_def)
qed

section \<open>Claims\<close>

text \<open>
  C7. In every reachable state, whatever was voted, changed, delegated, undelegated and cancelled before, the tally of
  an ongoing referendum is exactly the sum of what the accounts contribute to it: their own votes weighted by
  conviction and, for standard votes, the delegations they hold; and the delegations an account holds are exactly the
  sum of what is delegated to it. So no vote is counted twice or lost by the saturating arithmetic.
\<close>

theorem tallies_count_votes:
  assumes "democracy_laws T" "capacity A B" "0 < VotingPeriod T" "democracy_ok T A B s0" "democracy_reachable T A B s0 s"
  shows "(\<forall>i st. ReferendumInfoOf s i = Some (Ongoing st) \<longrightarrow>
      ayes (rf_tally st) = (\<Sum>a\<in>A. share (VotingOf s a) i Ayes) \<and> nays (rf_tally st) = (\<Sum>a\<in>A. share (VotingOf s a) i Nays) \<and>
      turnout (rf_tally st) = (\<Sum>a\<in>A. share (VotingOf s a) i Turnout)) \<and>
    (\<forall>t. dv_votes (received (VotingOf s t)) = (\<Sum>a\<in>A. dv_votes (given (VotingOf s a) t)) \<and>
      dv_capital (received (VotingOf s t)) = (\<Sum>a\<in>A. dv_capital (given (VotingOf s a) t)))"
proof -
  have "democracy_ok T A B s" using reachable_ok [OF assms] by blast
  from view_okD(1) [OF this] have b: "votings_ok A B (VotingOf s)" "tallies_ok A (VotingOf s) (ReferendumInfoOf s)"
    by (simp_all add: books_ok_def)
  have "dpart k (received (VotingOf s t)) = (\<Sum>a\<in>A. dpart k (given (VotingOf s a) t))" for k t
    using b(1) by (simp add: votings_ok_def)
  from this [of Ayes] this [of Turnout]
  have d: "dv_votes (received (VotingOf s t)) = (\<Sum>a\<in>A. dv_votes (given (VotingOf s a) t)) \<and>
      dv_capital (received (VotingOf s t)) = (\<Sum>a\<in>A. dv_capital (given (VotingOf s a) t))" for t
    by (simp add: dpart_def)
  have t: "part k (rf_tally st) = (\<Sum>a\<in>A. share (VotingOf s a) i k)" if "ReferendumInfoOf s i = Some (Ongoing st)" for i st k
    using b(2) that unfolding tallies_ok_def by blast
  show ?thesis using d t [where k = Ayes] t [where k = Nays] t [where k = Turnout] by (simp del: share.simps)
qed

lemma demo_within:
  "within demo_democracy {1, 2} 1000 (Signed 1) (VoteFor 0 demo_vote) demo_polls"
  "within demo_democracy {1, 2} 1000 (Signed 1) (RemoveVote 0) demo_won"
  "within demo_democracy {1, 2} 1000 (Signed 2) (Unlock 1) demo_removed"
  by (simp_all add: within_def demo_polls_def demo_won_def demo_removed_def u32_max_def)

lemma demo_period: "0 < VotingPeriod demo_democracy"
  by simp

lemma demo_voted_reachable: "democracy_reachable demo_democracy {1, 2} 1000 demo_polls demo_voted"
  by (rule dm_call [OF dm_start demo_within(1) demo_votes])

theorem tallies_count_votes_witness: "200 = (\<Sum>a\<in>{1, 2}. share (VotingOf demo_voted a) 0 Ayes)"
proof -
  let ?st = "demo_referendum\<lparr>rf_tally := \<lparr>ayes = 200, nays = 0, turnout = 100\<rparr>\<rparr>"
  have "ReferendumInfoOf demo_voted 0 = Some (Ongoing ?st)" by (simp add: demo_voted_def)
  then have "ayes (rf_tally ?st) = (\<Sum>a\<in>{1, 2}. share (VotingOf demo_voted a) 0 Ayes)"
    using tallies_count_votes [OF demo_democracy_laws demo_capacity demo_period demo_polls_ok demo_voted_reachable] by blast
  then show ?thesis by simp
qed

text \<open>
  In every reachable state the freeze of an account covers everything its voting record needs locked: each of
  its votes, the balance it delegates and the locks left from votes and delegations of the past.
\<close>

theorem freeze_covers_votes:
  assumes "democracy_laws T" "capacity A B" "0 < VotingPeriod T" "democracy_ok T A B s0" "democracy_reachable T A B s0 s"
  shows "pl_amount (voting_prior (VotingOf s a)) \<le> frozen_in T (ext s) a \<and>
    (\<forall>votes d p i v. VotingOf s a = Direct votes d p \<longrightarrow> (i, v) \<in> set votes \<longrightarrow> vote_balance v \<le> frozen_in T (ext s) a) \<and>
    (\<forall>b t c d p. VotingOf s a = Delegating b t c d p \<longrightarrow> b \<le> frozen_in T (ext s) a)"
proof -
  have "democracy_ok T A B s" using reachable_ok [OF assms] by blast
  from view_okD(2) [OF this, of a] have l: "locked_balance (VotingOf s a) \<le> frozen_in T (ext s) a" by simp
  have "vote_balance v \<le> frozen_in T (ext s) a" if "VotingOf s a = Direct votes d p" "(i, v) \<in> set votes" for votes d p i v
    using l locked_balance_ge(2) [OF that(2), of d p] unfolding that(1) by simp
  moreover have "b \<le> frozen_in T (ext s) a" if "VotingOf s a = Delegating b t c d p" for b t c d p
    using l unfolding that by simp
  ultimately show ?thesis using l prior_le_locked [of "VotingOf s a"] by (meson order_trans)
qed

text \<open>
  C8. Conviction binds. When an account removes a standard vote from a referendum that was decided its way, before
  the lock of its conviction has run out, the balance of that vote stays frozen in every state that is reached
  from there until the block at which the lock ends, whatever the account or others do.
\<close>

theorem conviction_lock_held:
  assumes laws: "democracy_laws T" "capacity A B" "0 < VotingPeriod T"
    and ok: "democracy_ok T A B s0" "democracy_reachable T A B s0 s"
    and fin: "ReferendumInfoOf s i = Some (Finished (rv_aye v) e)"
    and vote: "VotingOf s who = Direct votes d p" "(i, Standard v b) \<in> set votes"
    and rm: "within T A B (Signed who) (RemoveVote i) s" "democracy_dispatch T (Signed who) (RemoveVote i) s = (Inr (), s1)"
    and later: "democracy_reachable T A B s1 s2" "block_number s2 < unlock_block T e (lock_periods (rv_conviction v))"
  shows "b \<le> frozen_in T (ext s2) who"
proof -
  let ?u = "unlock_block T e (lock_periods (rv_conviction v))"
  have s: "democracy_ok T A B s" using reachable_ok [OF laws ok] by blast
  have body: "democracy_body T (Signed who) (RemoveVote i) s = (Inr (), s1)" using rm(2) by (simp add: democracy_dispatch_def transactional_Inr)
  have s1: "democracy_ok T A B s1" "block_number s1 = block_number s"
    using democracy_body_transition [OF laws(1,2) s rm(1) body] by (auto simp: transition_ok_def)
  have r: "democracy_ok T A B s2" "block_number s1 \<le> block_number s2"
      "lock_held ?u b (voting_prior (VotingOf s1 who)) \<Longrightarrow> lock_held ?u b (voting_prior (VotingOf s2 who))"
    using reachable_ok [OF laws s1(1) later(1)] later(2) by blast+
  have o: "votes_ordered votes" using books_okD(6) [OF view_okD(1) [OF s], of who] vote(1) by simp
  have run: "try_remove_vote T who i AnyVote s = (Inr (), s1)" using body by (simp add: democracy_body_def remove_vote_def prog_simps)
  from run have "lock_held ?u b (voting_prior (VotingOf s1 who))"
  proof (cases rule: try_remove_voteE)
    case (removed votes' d' p' j r)
    then have j: "votes' = votes" "search_vote i votes = Inr j" using vote(1) by auto
    have "snd (votes ! j) = Standard v b" using search_vote_found(3) [OF o j(2)] vote(2) by (simp add: votes_map_set [OF o])
    moreover have "block_number s < ?u" using later(2) r(2) s1(2) by simp
    ultimately show ?thesis using fin by (simp add: removed(4) j(1) locked_if_def lock_held_def accumulate_def)
  qed (use vote(1) in simp)
  then have "b \<le> pl_amount (voting_prior (VotingOf s2 who))" using r(3) by (simp add: lock_held_def)
  also have "\<dots> \<le> frozen_in T (ext s2) who"
    using view_okD(2) [OF r(1), of who] prior_le_locked [of "VotingOf s2 who"] by simp
  finally show ?thesis .
qed

theorem conviction_lock_held_witness: "100 \<le> frozen_in demo_democracy (ext demo_removed) 1"
proof (rule conviction_lock_held [OF demo_democracy_laws demo_capacity demo_period demo_won_ok dm_start _ _ _ demo_within(2) demo_removes,
      where v = "\<lparr>rv_aye = True, rv_conviction = Locked2x\<rparr>" and e = 12 and votes = "[(0, demo_vote)]"])
  show "democracy_reachable demo_democracy {1, 2} 1000 demo_removed demo_removed"
    by (rule dm_call [OF dm_start demo_within(3) demo_unlocks])
qed (simp_all add: demo_won_def demo_removed_def demo_polls_def demo_vote_def unlock_block_def saturating_add_u32_def u32_max_def)

section \<open>Voting succeeds exactly when it should\<close>

lemma search_vote_iff:
  assumes "votes_ordered votes"
  shows "(\<exists>j. search_vote i votes = Inr j) \<longleftrightarrow> i \<in> fst ` set votes"
proof (cases "search_vote i votes")
  case (Inl j)
  then show ?thesis using search_vote_missing(1) [OF assms Inl] by (simp add: map_of_eq_None_iff)
next
  case (Inr j)
  then show ?thesis using search_vote_found(1,2) [OF assms Inr] by (metis image_eqI nth_mem)
qed

lemma record_vote_succeeds:
  assumes "votes_ordered votes" "\<And>k. counted votes d i k \<le> part k t"
  shows "(\<exists>x. record_vote T i vote votes d t s = (Inr x, s)) \<longleftrightarrow> i \<in> fst ` set votes \<or> length votes < MaxVotes T"
proof (cases "search_vote i votes")
  case (Inl j)
  then have "i \<notin> fst ` set votes" using search_vote_iff [OF assms(1), of i] by simp
  then show ?thesis using Inl by (simp add: record_vote_def prog_defs)
next
  case (Inr j)
  have "part k (vote_worth (snd (votes ! j))) \<le> part k t" for k
    using assms(2) [of k] search_vote_found(3) [OF assms(1) Inr] by simp
  then obtain u where "tally_remove (snd (votes ! j)) t = Some u" using tally_remove_succeeds by blast
  moreover have "i \<in> fst ` set votes" using search_vote_iff [OF assms(1), of i] Inr by blast
  ultimately show ?thesis using Inr by (simp add: record_vote_def prog_defs)
qed

text \<open>
  C19. A signed account can vote on a referendum exactly when the referendum is ongoing, the account owns the balance
  it votes with, is not delegating, has voted on this referendum before or has room for another vote, and the currency
  can extend the account's freeze to that balance (it may refuse, for example when an account has too many freezes). In
  particular the overflow and underflow errors the code handles never occur, in any reachable state.
\<close>

theorem vote_succeeds_exactly:
  assumes laws: "democracy_laws T" "capacity A B" "0 < VotingPeriod T"
    and reach: "democracy_ok T A B s0" "democracy_reachable T A B s0 s" and win: "within T A B (Signed who) (VoteFor i vote) s"
  shows "(\<exists>s'. democracy_dispatch T (Signed who) (VoteFor i vote) s = (Inr (), s')) \<longleftrightarrow>
    (\<exists>st votes d p. ReferendumInfoOf s i = Some (Ongoing st) \<and> vote_balance vote \<le> c_total_balance (dm_fungible T) who (ext s) \<and>
       VotingOf s who = Direct votes d p \<and> (i \<in> fst ` set votes \<or> length votes < MaxVotes T) \<and>
       (\<exists>l. c_extend_freeze (dm_fungible T) VoteFreeze who (vote_balance vote) (ext s) = (Inr (), l)))"
    (is "?run \<longleftrightarrow> ?can")
proof -
  have ok: "democracy_ok T A B s" using reachable_ok [OF laws reach] by blast
  note books = view_okD(1) [OF ok, unfolded view_simps]
  have who: "who \<in> A" "c_total_balance (dm_fungible T) who (ext s) \<le> B" using win by (simp_all add: within_def)
  have run: "?run \<longleftrightarrow> (\<exists>s'. try_vote T who i vote s = (Inr (), s'))"
    by (simp add: democracy_dispatch_def democracy_body_def dm_vote_def prog_simps)
  have ordered: "votes_ordered votes" if "VotingOf s who = Direct votes d p" for votes d p
    using books_okD(6) [OF books, of who] that by simp
  have counts: "counted votes d i k \<le> part k (rf_tally st)"
    if "ReferendumInfoOf s i = Some (Ongoing st)" "VotingOf s who = Direct votes d p" for st votes d p k
    using share_le_tally [OF laws(2) books who(1) that(1), of k] that(2) by simp
  have "?can" if "try_vote T who i vote s = (Inr (), s')" for s'
    using that
  proof (rule try_voteE)
    fix st votes d p votes' t t' l
    assume a: "ReferendumInfoOf s i = Some (Ongoing st)" "vote_balance vote \<le> c_total_balance (dm_fungible T) who (ext s)"
      "VotingOf s who = Direct votes d p" "record_vote T i vote votes d (rf_tally st) s = (Inr (votes', t), s)"
      "c_extend_freeze (dm_fungible T) VoteFreeze who (vote_balance vote) (ext s) = (Inr (), l)"
    then show ?can using record_vote_succeeds [OF ordered [OF a(3)] counts [OF a(1,3)], of T vote s] by blast
  qed
  moreover have "\<exists>s'. try_vote T who i vote s = (Inr (), s')" if can: ?can
  proof -
    obtain st votes d p where a: "ReferendumInfoOf s i = Some (Ongoing st)" "vote_balance vote \<le> c_total_balance (dm_fungible T) who (ext s)"
        "VotingOf s who = Direct votes d p" "i \<in> fst ` set votes \<or> length votes < MaxVotes T"
      and freeze: "\<exists>l. c_extend_freeze (dm_fungible T) VoteFreeze who (vote_balance vote) (ext s) = (Inr (), l)"
      using can by blast
    obtain votes' t where rec: "record_vote T i vote votes d (rf_tally st) s = (Inr (votes', t), s)"
      using record_vote_succeeds [OF ordered [OF a(3)] counts [OF a(1,3)], of T vote s] a(4) by auto
    note r = record_vote_effect [OF rec ordered [OF a(3)] counts [OF a(1,3)]]
    have "voting_ok A B who (Direct votes' d p)"
      using new_record_ok [OF books a(3), of votes' i "Some vote" p] r vote_balance_fits [OF laws(2) who(1), of vote] a(1,2) who(2)
        books_okD(4) [OF books, of i] by auto
    then have "votings_ok A B ((VotingOf s)(who := Direct votes' d p))"
      by (intro votings_update [OF books_okD(1) [OF books] who(1)]) (simp_all add: a(3) fun_eq_iff)
    from tally_has_room [OF laws(2) books who(1) a(1) this]
    have "part k t + part k (vote_worth vote) \<le> u128_max" for k using r a(3) by (simp add: le_diff_conv) (metis add.assoc add.commute add_le_cancel_right le_add1 order_trans)
    then obtain t' where add: "tally_add vote t = Some t'" using tally_add_succeeds by blast
    obtain l where "c_extend_freeze (dm_fungible T) VoteFreeze who (vote_balance vote) (ext s) = (Inr (), l)" using freeze by blast
    with a(1-3) rec add show ?thesis
      by (simp add: try_vote_def find_referendum_status_def ensure_ongoing_def on_ext_def democracy_access_defs prog_defs)
  qed
  ultimately show ?thesis unfolding run by blast
qed

theorem vote_succeeds_exactly_witness:
  "\<exists>s'. democracy_dispatch demo_democracy (Signed 2) (VoteFor 0 (Split 3 4)) demo_voted = (Inr (), s')"
proof -
  have "within demo_democracy {1, 2} 1000 (Signed 2) (VoteFor 0 (Split 3 4)) demo_voted"
    by (simp add: within_def demo_voted_def demo_polls_def u32_max_def)
  from vote_succeeds_exactly [OF demo_democracy_laws demo_capacity demo_period demo_polls_ok demo_voted_reachable this]
  show ?thesis by (simp add: demo_voted_def demo_polls_def voting_default_def vote_balance_def saturating_add_def u128_max_def)
qed

section \<open>Referenda are decided at their end\<close>

definition no_panic :: "('s, 'a) dprog \<Rightarrow> bool" where
  "no_panic m \<longleftrightarrow> (\<forall>s. fst (m s) \<noteq> Inl Panic)"

named_theorems no_panic_rules

lemma no_panic_basic [no_panic_rules]:
  "no_panic (ok a)" "e \<noteq> Panic \<Longrightarrow> no_panic (err e)" "no_panic (gets f)" "no_panic (modify g)"
  "no_panic (deposit_democracy_event ev)" "no_panic (put_referendum i r)" "no_panic (put_metadata owner h)"
  "no_panic (put_next_external p)" "no_panic (put_deposit i d)" "no_panic (put_public_props ps)"
  by (simp_all add: no_panic_def prog_defs democracy_access_defs)

lemma no_panic_sbind [no_panic_rules]: "no_panic m \<Longrightarrow> (\<And>a. no_panic (f a)) \<Longrightarrow> no_panic (sbind m f)"
  unfolding no_panic_def sbind_def by (auto split: prod.splits sum.splits) (metis fst_conv)+

lemma no_panic_seq [no_panic_rules]: "no_panic m \<Longrightarrow> no_panic n \<Longrightarrow> no_panic (seq m n)"
  unfolding seq_def by (rule no_panic_sbind)

lemma no_panic_option [no_panic_rules]:
  "no_panic m \<Longrightarrow> (\<And>a. no_panic (f a)) \<Longrightarrow> no_panic (case x of None \<Rightarrow> m | Some a \<Rightarrow> f a)"
  by (cases x) auto

lemma no_panic_prod [no_panic_rules]: "(\<And>a b. no_panic (f a b)) \<Longrightarrow> no_panic (case x of (a, b) \<Rightarrow> f a b)"
  by (cases x) auto

lemma no_panic_for_each [no_panic_rules]: "(\<And>x. no_panic (f x)) \<Longrightarrow> no_panic (for_each xs f)"
  by (induction xs) (auto intro: no_panic_rules)

lemma no_panic_or_try: "no_panic n \<Longrightarrow> no_panic m \<Longrightarrow> no_panic (or_try m n)"
  unfolding no_panic_def or_try_def by (auto split: prod.splits sum.splits) (metis fst_conv)+

lemma no_panic_metadata [no_panic_rules]: "no_panic (transfer_metadata owner new)"
  unfolding transfer_metadata_def by (intro no_panic_rules)

lemma no_panic_inject [no_panic_rules]: "no_panic (inject_referendum e p th d)"
  unfolding inject_referendum_def Let_def by (intro no_panic_rules)

text \<open>The release of a hold may fail, but it does not panic.\<close>

definition release_no_panic :: "('l, 'c) democracy_config_scheme \<Rightarrow> bool" where
  "release_no_panic T \<longleftrightarrow> (\<forall>r who n p. no_panic (c_release (dm_fungible T) r who n p))"

lemma no_panic_on_ext: "no_panic m \<Longrightarrow> no_panic (on_ext m)"
  by (auto simp: no_panic_def on_ext_def case_prod_unfold)

lemma no_panic_launch:
  assumes "release_no_panic T"
  shows "no_panic (launch_external T now)" "no_panic (launch_public T now)"
proof -
  have "no_panic (on_ext (c_release (dm_fungible T) r who n p))" for r who n p
    using assms by (intro no_panic_on_ext) (simp add: release_no_panic_def)
  then show "no_panic (launch_external T now)" "no_panic (launch_public T now)"
    unfolding launch_external_def launch_public_def Let_def by (intro no_panic_rules; simp)+
qed

lemma no_panic_launch_next:
  assumes "release_no_panic T"
  shows "no_panic (launch_next T now)"
proof -
  have err: "no_panic (map_err (\<lambda>e. if e = Panic then Panic else DmErr NoneWaiting) m)" if "no_panic m" for m
    using that by (auto simp: no_panic_def map_err_def split: prod.splits sum.splits) (metis fst_conv)
  show ?thesis unfolding launch_next_def using no_panic_launch [OF assms]
    by (intro no_panic_rules err) (auto intro: no_panic_or_try)
qed

lemma finish_all_succeeds:
  assumes "isqrt_laws (dm_integer_sqrt T)" "\<And>l. 0 < get_electorate T l"
  shows "\<exists>s'. for_each ms (finish T now) s = (Inr (), s')"
proof (induction ms arbitrary: s)
  case (Cons m ms)
  obtain i st where m: "m = (i, st)" by (cases m)
  obtain b where "threshold_approved (dm_integer_sqrt T) (rf_threshold st) (rf_tally st) (get_electorate T (ext s)) = Some b"
    using threshold_approved_total [OF assms(1) assms(2)] by blast
  then have "\<exists>u. finish T now (i, st) s = (Inr (), u)"
    by (auto simp: bake_referendum_def prog_defs democracy_access_defs Let_def)
  then show ?case using Cons.IH by (auto simp: m seq_def sbind_def)
qed (simp add: prog_defs)

lemma or_try_succeeds: "no_panic m \<Longrightarrow> \<exists>u. or_try m (ok ()) s = (Inr (), u)"
  unfolding no_panic_def or_try_def ok_def by (drule spec [of _ s]) (auto split: prod.splits sum.splits)

lemma launch_due_succeeds:
  "release_no_panic T \<Longrightarrow> \<exists>u. (if n mod LaunchPeriod T = 0 then or_try (launch_next T n) (ok ()) else ok ()) s = (Inr (), u)"
  by (simp add: or_try_succeeds no_panic_launch_next ok_def)

lemma begin_block_succeeds:
  assumes "isqrt_laws (dm_integer_sqrt T)" "\<And>l. 0 < get_electorate T l" "release_no_panic T" "0 < LaunchPeriod T"
  shows "\<exists>s'. begin_block T n s = (Inr (), s')"
proof -
  obtain u where "(if n mod LaunchPeriod T = 0 then or_try (launch_next T n) (ok ()) else ok ()) s = (Inr (), u)"
    using launch_due_succeeds [OF assms(3)] by blast
  moreover obtain x where "for_each (maturing_referenda_at_inner u n (LowestUnbaked s) (ReferendumCount s)) (finish T n) u = (Inr (), x)"
    using finish_all_succeeds [OF assms(1,2)] by blast
  ultimately show ?thesis using assms(4)
    by (simp add: begin_block_def sbind_def seq_def gets_def modify_def ensure_def ok_def split: if_splits)
qed

text \<open>
  C9. No referendum is missed. In every reachable state the end of an ongoing referendum lies ahead, and the hook of
  the block in which it ends runs to completion and decides it: the referendum is then finished, with the result its
  threshold gives for its tally and the electorate.
\<close>

theorem referendum_decided_at_end:
  assumes laws: "democracy_laws T" "capacity A B" "0 < VotingPeriod T" and reach: "democracy_ok T A B s0" "democracy_reachable T A B s0 s"
    and runs: "isqrt_laws (dm_integer_sqrt T)" "\<And>l. 0 < get_electorate T l" "release_no_panic T" "0 < LaunchPeriod T" "keeps_electorate T"
    and ongoing: "ReferendumInfoOf s i = Some (Ongoing st)"
    and room: "ReferendumCount s < u32_max" "Suc (block_number s) + VotingPeriod T \<le> u32_max"
  shows "block_number s < rf_end st \<and> (rf_end st = Suc (block_number s) \<longrightarrow>
    (\<exists>s' b. democracy_on_initialize T (rf_end st) (s\<lparr>block_number := rf_end st\<rparr>) = (Inr (), s') \<and>
       ReferendumInfoOf s' i = Some (Finished b (rf_end st)) \<and> decided T st (ext s') = Some b))"
proof -
  let ?n = "Suc (block_number s)"
  have ok: "democracy_ok T A B s" using reachable_ok [OF laws reach] by blast
  have i: "LowestUnbaked s \<le> i" "block_number s < rf_end st" "i < ReferendumCount s"
    using view_okD(4) [OF ok, of i st] books_okD(4) [OF view_okD(1) [OF ok], of i] ongoing by auto
  obtain s' where s': "democracy_on_initialize T ?n (s\<lparr>block_number := ?n\<rparr>) = (Inr (), s')"
    using begin_block_succeeds [OF runs(1-4)] unfolding democracy_on_initialize_def by blast
  let ?v = "view T (s\<lparr>block_number := ?n\<rparr>)"
  obtain v1 R where v1: "v1 = ?v \<or> view_starts (saturating_add_u32 ?n (VotingPeriod T)) ?v v1"
    and v': "view T s' = v1\<lparr>vw_referenda := R, vw_unbaked := skip_baked R (vw_count ?v) (vw_unbaked ?v)\<rparr>"
    and eff: "\<forall>i. if \<exists>st. vw_unbaked ?v \<le> i \<and> i < vw_count ?v \<and> vw_referenda v1 i = Some (Ongoing st) \<and> rf_end st = ?n
          then \<exists>st b. vw_referenda v1 i = Some (Ongoing st) \<and> R i = Some (Finished b ?n) \<and>
            (keeps_electorate T \<longrightarrow> decided T st (ext s') = Some b)
          else R i = vw_referenda v1 i"
    using block_transition(4) [OF laws(1) ok room(1) laws(3) room(2) s'] unfolding block_effect_def by blast
  have R: "ReferendumInfoOf s' = R" using arg_cong [OF v', of vw_referenda] by simp
  have "vw_referenda v1 i = Some (Ongoing st)" using v1 ongoing i(3) by (auto simp: view_starts_def)
  then have "\<exists>b. ReferendumInfoOf s' i = Some (Finished b ?n) \<and> decided T st (ext s') = Some b" if "rf_end st = ?n"
    using spec [OF eff, of i] i that runs(5) R by auto
  then show ?thesis using i(2) s' by auto
qed

theorem referendum_decided_at_end_witness:
  "\<exists>s' b. democracy_on_initialize demo_democracy 20 (demo_polls\<lparr>block_number := 20\<rparr>) = (Inr (), s') \<and>
     ReferendumInfoOf s' 0 = Some (Finished b 20) \<and> decided demo_democracy demo_referendum (ext s') = Some b"
proof -
  have "release_no_panic demo_democracy" by (auto simp: release_no_panic_def no_panic_def demo_fungible_def Let_def)
  moreover have "keeps_electorate demo_democracy" by (simp add: keeps_electorate_def)
  ultimately show ?thesis
    using referendum_decided_at_end [OF demo_democracy_laws demo_capacity demo_period demo_polls_ok dm_start, of 0 demo_referendum]
    by (simp add: isqrt_search_laws demo_polls_def demo_referendum_def u32_max_def)
qed

end
