(* ===== verification/Elections.thy ===== *)
theory Elections
  imports Frame Sorted_Vectors
begin

text \<open>
  The pallet \<^verbatim>\<open>elections-phragmen\<close> (\<^verbatim>\<open>src/pallets/elections-phragmen/src/lib.rs\<close>): accounts submit themselves as candidates
  against a deposit, others vote for them with a frozen stake, and at the end of every term an election fills the
  seats of the members and of the runners-up. The election algorithm (\<^verbatim>\<open>seq_phragmen\<close> of \<^verbatim>\<open>sp_npos_elections\<close>), the
  conversion between balances and votes, the currency and the collective that is told about its members are
  parameters, the fields of \<open>elections_config\<close>. Weights and the integrity test, which only compares weights, are left out.
\<close>

section \<open>Data\<close>

datatype renouncing = RenounceMember | RenounceRunnerUp | RenounceCandidate nat

record voter =
  vt_votes :: "account list"
  vt_stake :: nat
  vt_lockup_till :: nat

definition no_voter :: voter where
  "no_voter = \<lparr>vt_votes = [], vt_stake = 0, vt_lockup_till = 0\<rparr>"

record seat_holder =
  sh_who :: account
  sh_stake :: nat
  sh_deposit :: nat

section \<open>Configuration\<close>

record 'l elections_config =
  el_currency :: "'l fungible"
  el_minimum_balance :: nat
  el_balance :: "account \<Rightarrow> 'l \<Rightarrow> nat"
  el_total_issuance :: "'l \<Rightarrow> nat"
  el_lookup :: "account \<Rightarrow> account option"
  change_members_sorted :: "account list \<Rightarrow> account list \<Rightarrow> account list \<Rightarrow> 'l \<Rightarrow> 'l"
  compute_members_diff_sorted :: "account list \<Rightarrow> account list \<Rightarrow> account list \<times> account list"
  set_prime :: "account option \<Rightarrow> 'l \<Rightarrow> 'l"
  get_prime :: "'l \<Rightarrow> account option"
  initialize_members :: "account list \<Rightarrow> 'l \<Rightarrow> 'l"
  to_vote :: "nat \<Rightarrow> nat \<Rightarrow> nat"
  to_currency :: "nat \<Rightarrow> nat \<Rightarrow> nat"
  seq_phragmen :: "nat \<Rightarrow> account list \<Rightarrow> (account \<times> nat \<times> account list) list \<Rightarrow> (account \<times> nat) list option"
  loser_candidate :: "nat \<Rightarrow> 'l \<Rightarrow> 'l"
  voting_hash :: "account \<Rightarrow> nat"
  CandidacyBond :: nat
  DesiredMembers :: nat
  DesiredRunnersUp :: nat
  TermDuration :: nat
  VotingLockPeriod :: nat
  MaxCandidates :: nat
  MaxVoters :: nat
  MaxVotesPerVoter :: nat

section \<open>Storage and events\<close>

datatype elections_event =
    NewTerm "(account \<times> nat) list"
  | EmptyTerm
  | ElectionErrorEvent
  | MemberKicked account
  | Renounced account
  | CandidateSlashed account nat
  | SeatHolderSlashed account nat

record 'l elections_state = "'l system" +
  Members :: "seat_holder list"
  RunnersUp :: "seat_holder list"
  Candidates :: "(account \<times> nat) list"
  ElectionRounds :: nat
  Voting :: "(account, voter) nmap"
  elections_events :: "elections_event list"

type_synonym ('l, 'z, 'a) elprog = "(('l, 'z) elections_state_scheme, 'a) dprog"

abbreviation ElErr :: "elections_error \<Rightarrow> dispatch_error" where
  "ElErr \<equiv> ElectionsError"

definition deposit_elections_event :: "elections_event \<Rightarrow> ('l, 'z, unit) elprog" where
  "deposit_elections_event e = modify (\<lambda>s. s\<lparr>elections_events := elections_events s @ [e]\<rparr>)"

definition put_members :: "seat_holder list \<Rightarrow> ('l, 'z, unit) elprog" where
  "put_members ms = modify (\<lambda>s. s\<lparr>Members := ms\<rparr>)"

definition put_runners_up :: "seat_holder list \<Rightarrow> ('l, 'z, unit) elprog" where
  "put_runners_up rs = modify (\<lambda>s. s\<lparr>RunnersUp := rs\<rparr>)"

definition put_candidates :: "(account \<times> nat) list \<Rightarrow> ('l, 'z, unit) elprog" where
  "put_candidates cs = modify (\<lambda>s. s\<lparr>Candidates := cs\<rparr>)"

definition put_votings :: "(account, voter) nmap \<Rightarrow> ('l, 'z, unit) elprog" where
  "put_votings m = modify (\<lambda>s. s\<lparr>Voting := m\<rparr>)"

definition on_ledger :: "('l \<Rightarrow> 'l) \<Rightarrow> ('l, 'z, unit) elprog" where
  "on_ledger f = modify (\<lambda>s. s\<lparr>ext := f (ext s)\<rparr>)"

text \<open>\<^verbatim>\<open>map_err(|_| e)\<close>: any error becomes \<open>e\<close>, a panic is not caught.\<close>

definition with_error :: "elections_error \<Rightarrow> ('s, 'a) dprog \<Rightarrow> ('s, 'a) dprog" where
  "with_error e = map_err (\<lambda>x. if x = Panic then Panic else ElErr e)"

lemmas elections_access_defs =
  deposit_elections_event_def put_members_def put_runners_up_def put_candidates_def put_votings_def on_ledger_def

section \<open>Looking up\<close>

definition search_member :: "account \<Rightarrow> seat_holder list \<Rightarrow> nat + nat" where
  "search_member who members = binary_search_by (\<lambda>m. nat_cmp (sh_who m) who) members"

definition search_candidate :: "account \<Rightarrow> (account \<times> nat) list \<Rightarrow> nat + nat" where
  "search_candidate who candidates = binary_search_by (\<lambda>c. nat_cmp (fst c) who) candidates"

text \<open>\<open>Inl\<close> is the index at which the account would have to be inserted.\<close>

definition is_election_candidate :: "account \<Rightarrow> ('l, 'z) elections_state_scheme \<Rightarrow> nat + unit" where
  "is_election_candidate who s = (case search_candidate who (Candidates s) of Inl i \<Rightarrow> Inl i | Inr _ \<Rightarrow> Inr ())"

definition voting_of :: "('l, 'z) elections_state_scheme \<Rightarrow> account \<Rightarrow> voter" where
  "voting_of s who = (case nmap_get (Voting s) who of Some v \<Rightarrow> v | None \<Rightarrow> no_voter)"

definition is_voter :: "account \<Rightarrow> ('l, 'z) elections_state_scheme \<Rightarrow> bool" where
  "is_voter who s \<longleftrightarrow> nmap_get (Voting s) who \<noteq> None"

definition can_unlock :: "account \<Rightarrow> ('l, 'z) elections_state_scheme \<Rightarrow> bool" where
  "can_unlock who s \<longleftrightarrow> vt_lockup_till (voting_of s who) \<le> block_number s"

definition is_member :: "account \<Rightarrow> ('l, 'z) elections_state_scheme \<Rightarrow> bool" where
  "is_member who s \<longleftrightarrow> (case search_member who (Members s) of Inl _ \<Rightarrow> False | Inr _ \<Rightarrow> True)"

definition is_runner_up :: "account \<Rightarrow> ('l, 'z) elections_state_scheme \<Rightarrow> bool" where
  "is_runner_up who s \<longleftrightarrow> (\<exists>r\<in>set (RunnersUp s). sh_who r = who)"

definition members_ids :: "('l, 'z) elections_state_scheme \<Rightarrow> account list" where
  "members_ids s = map sh_who (Members s)"

definition implicit_candidates_with_deposit :: "('l, 'z) elections_state_scheme \<Rightarrow> (account \<times> nat) list" where
  "implicit_candidates_with_deposit s =
     map (\<lambda>m. (sh_who m, sh_deposit m)) (Members s) @ map (\<lambda>r. (sh_who r, sh_deposit r)) (RunnersUp s)"

definition is_defunct_voter :: "account list \<Rightarrow> ('l, 'z) elections_state_scheme \<Rightarrow> bool" where
  "is_defunct_voter votes s \<longleftrightarrow>
     (\<forall>v\<in>set votes. \<not> is_member v s \<and> \<not> is_runner_up v s \<and> is_election_candidate v s \<noteq> Inr ())"

section \<open>Removing voters and members\<close>

definition do_remove_voter :: "('l, 'c) elections_config_scheme \<Rightarrow> account \<Rightarrow> ('l, 'z, unit) elprog" where
  "do_remove_voter T who =
     seq (with_error UnableToReleaseBond (on_ext (c_thaw (el_currency T) VotingFreeze who)))
     (sbind (gets Voting) (\<lambda>m. put_votings (nmap_remove who m)))"

definition release_bond :: "('l, 'c) elections_config_scheme \<Rightarrow> account \<Rightarrow> nat \<Rightarrow> ('l, 'z, unit) elprog" where
  "release_bond T who deposit =
     sbind (with_error UnableToReleaseBond
       (on_ext (c_release (el_currency T) (ElectionsReason Candidacy) who deposit Exact))) (\<lambda>_. ok ())"

text \<open>A slash does not fail; its credit goes to the handler \<^verbatim>\<open>LoserCandidate\<close>.\<close>

definition slash_bond_of :: "('l, 'c) elections_config_scheme \<Rightarrow> account \<Rightarrow> nat \<Rightarrow> ('l, 'z, unit) elprog" where
  "slash_bond_of T who deposit =
     on_ledger (\<lambda>l. case c_slash (el_currency T) (ElectionsReason Candidacy) who deposit l of
       (credit, l) \<Rightarrow> loser_candidate T credit l)"

definition add_replacement :: "seat_holder option \<Rightarrow> seat_holder list \<Rightarrow> seat_holder list" where
  "add_replacement maybe_next_best members =
     (case maybe_next_best of
        None \<Rightarrow> members
      | Some next_best \<Rightarrow>
          (case search_member (sh_who next_best) members of
             Inl index \<Rightarrow> insert_at index next_best members
           | Inr _ \<Rightarrow> members))"

text \<open>The bond of a member that leaves is slashed or released.\<close>

definition settle_bond :: "('l, 'c) elections_config_scheme \<Rightarrow> account \<Rightarrow> bool \<Rightarrow> nat \<Rightarrow> ('l, 'z, unit) elprog" where
  "settle_bond T who slash deposit =
     (if slash
      then seq (slash_bond_of T who deposit) (deposit_elections_event (SeatHolderSlashed who deposit))
      else release_bond T who deposit)"

text \<open>The collective learns about the change; its prime is set again unless it is the account that left.\<close>

definition report_replacement :: "('l, 'c) elections_config_scheme \<Rightarrow> account \<Rightarrow> seat_holder option \<Rightarrow> ('l, 'z, unit) elprog" where
  "report_replacement T who maybe_replacement =
     sbind (gets members_ids) (\<lambda>remaining_member_ids_sorted.
     sbind (gets (\<lambda>s. get_prime T (ext s))) (\<lambda>maybe_current_prime.
     seq (on_ledger (change_members_sorted T
           (case maybe_replacement of Some incoming \<Rightarrow> [sh_who incoming] | None \<Rightarrow> []) [who] remaining_member_ids_sorted))
     (case maybe_current_prime of
        Some current_prime \<Rightarrow>
          if current_prime \<noteq> who then on_ledger (set_prime T (Some current_prime)) else ok ()
      | None \<Rightarrow> ok ())))"

definition remove_and_replace_member ::
    "('l, 'c) elections_config_scheme \<Rightarrow> account \<Rightarrow> bool \<Rightarrow> ('l, 'z, bool) elprog" where
  "remove_and_replace_member T who slash =
     sbind (gets Members) (\<lambda>members.
     case search_member who members of
       Inl _ \<Rightarrow> err (ElErr NotMember)
     | Inr remove_index \<Rightarrow>
         seq (settle_bond T who slash (sh_deposit (members ! remove_index)))
         (sbind (gets RunnersUp) (\<lambda>r.
          let maybe_next_best = (if r = [] then None else Some (last r)) in
          seq (put_runners_up (butlast r))
          (seq (put_members (add_replacement maybe_next_best (remove_at remove_index members)))
          (seq (report_replacement T who maybe_next_best)
          (ok (maybe_next_best \<noteq> None)))))))"

section \<open>The election\<close>

text \<open>The voters in the order of the storage; \<open>None\<close> when there are more than \<open>max_voters\<close>.\<close>

fun collect_voters ::
    "nat \<Rightarrow> (account \<times> nat \<times> account list) list \<Rightarrow> (account, voter) nmap \<Rightarrow> (account \<times> nat \<times> account list) list option" where
  "collect_voters max_voters voters_and_stakes [] = Some voters_and_stakes"
| "collect_voters max_voters voters_and_stakes ((voter, v) # vs) =
     (if length voters_and_stakes < max_voters
      then collect_voters max_voters (voters_and_stakes @ [(voter, vt_stake v, vt_votes v)]) vs
      else None)"

text \<open>The Borda count of the prime: a vote at position \<open>p\<close> counts \<open>MaxVotesPerVoter - p\<close> times the stake.\<close>

definition add_prime_vote ::
    "('l, 'c) elections_config_scheme \<Rightarrow> nat \<Rightarrow> nat \<times> account \<Rightarrow> (account \<times> nat) list \<Rightarrow> (account \<times> nat) list" where
  "add_prime_vote T stake = (\<lambda>(vote_position, who) prime_votes.
     let vote_multiplier = wrapping_sub_u32 (MaxVotesPerVoter T) vote_position in
     case search_candidate who prime_votes of
       Inr i \<Rightarrow> prime_votes[i := (fst (prime_votes ! i),
         saturating_add (snd (prime_votes ! i)) (min u128_max (stake * vote_multiplier)))]
     | Inl _ \<Rightarrow> prime_votes)"

definition count_prime_votes ::
    "('l, 'c) elections_config_scheme \<Rightarrow> (account \<times> nat \<times> account list) list \<Rightarrow> (account \<times> nat) list \<Rightarrow> (account \<times> nat) list" where
  "count_prime_votes T voters_and_stakes prime_votes =
     fold (\<lambda>(_, stake, votes). fold (add_prime_vote T stake) (enumerate 0 votes)) voters_and_stakes prime_votes"

text \<open>\<^verbatim>\<open>max_by_key\<close>: the last element with the greatest key.\<close>

definition max_by_key :: "('a \<Rightarrow> nat) \<Rightarrow> 'a list \<Rightarrow> 'a option" where
  "max_by_key f xs = foldl (\<lambda>best x. case best of None \<Rightarrow> Some x | Some b \<Rightarrow> if f x \<ge> f b then Some x else Some b) None xs"

definition elect_prime ::
    "('l, 'c) elections_config_scheme \<Rightarrow> (account \<times> nat \<times> account list) list \<Rightarrow> account list \<Rightarrow> account option" where
  "elect_prime T voters_and_stakes new_members =
     map_option fst (max_by_key snd (count_prime_votes T voters_and_stakes (map (\<lambda>c. (c, 0)) new_members)))"

definition deposit_of_candidate :: "(account \<times> nat) list \<Rightarrow> account \<Rightarrow> nat" where
  "deposit_of_candidate candidates_and_deposit x =
     (case List.find (\<lambda>c. fst c = x) candidates_and_deposit of Some (_, d) \<Rightarrow> d | None \<Rightarrow> 0)"

definition seat_holders :: "(account \<times> nat) list \<Rightarrow> (account \<times> nat) list \<Rightarrow> seat_holder list" where
  "seat_holders candidates_and_deposit =
     map (\<lambda>(who, stake). \<lparr>sh_who = who, sh_stake = stake, sh_deposit = deposit_of_candidate candidates_and_deposit who\<rparr>)"

definition slash_loser ::
    "('l, 'c) elections_config_scheme \<Rightarrow> account list \<Rightarrow> account list \<Rightarrow> account \<times> nat \<Rightarrow> ('l, 'z, unit) elprog" where
  "slash_loser T new_members_ids new_runners_up_ids = (\<lambda>(c, d).
     case (binary_search_by (\<lambda>x. nat_cmp x c) new_members_ids, binary_search_by (\<lambda>x. nat_cmp x c) new_runners_up_ids) of
       (Inl _, Inl _) \<Rightarrow> seq (slash_bond_of T c d) (deposit_elections_event (CandidateSlashed c d))
     | _ \<Rightarrow> ok ())"

text \<open>The winners with some backing, and how they are divided into members and runners-up.\<close>

definition new_set_of :: "('l, 'c) elections_config_scheme \<Rightarrow> nat \<Rightarrow> (account \<times> nat) list \<Rightarrow> (account \<times> nat) list" where
  "new_set_of T total_issuance winners =
     List.map_filter (\<lambda>(m, b). if b = 0 then None else Some (m, to_currency T b total_issuance)) winners"

definition new_term ::
    "('l, 'c) elections_config_scheme \<Rightarrow> nat \<Rightarrow> (account \<times> nat) list \<Rightarrow> (account \<times> nat \<times> account list) list \<Rightarrow>
     (account \<times> nat) list \<Rightarrow> ('l, 'z, unit) elprog" where
  "new_term T total_issuance candidates_and_deposit voters_and_stakes winners =
     sbind (gets members_ids) (\<lambda>old_members_ids_sorted.
     seq (put_members [])
     (seq (put_runners_up [])
     (let new_set_with_stake = new_set_of T total_issuance winners;
          split_point = min (DesiredMembers T) (length new_set_with_stake);
          new_members_sorted_by_id = sort_by (\<lambda>i j. nat_cmp (fst i) (fst j)) (take split_point new_set_with_stake);
          new_runners_up_sorted_by_rank = rev (drop split_point new_set_with_stake);
          new_runners_up_ids_sorted = sort_by nat_cmp (map fst new_runners_up_sorted_by_rank);
          new_members_ids_sorted = map fst new_members_sorted_by_id;
          prime = elect_prime T voters_and_stakes new_members_ids_sorted;
          (incoming, outgoing) = compute_members_diff_sorted T new_members_ids_sorted old_members_ids_sorted in
      seq (on_ledger (change_members_sorted T incoming outgoing new_members_ids_sorted))
      (seq (on_ledger (set_prime T prime))
      (seq (for_each candidates_and_deposit (slash_loser T new_members_ids_sorted new_runners_up_ids_sorted))
      (seq (put_members (seat_holders candidates_and_deposit new_members_sorted_by_id))
      (seq (put_runners_up (seat_holders candidates_and_deposit new_runners_up_sorted_by_rank))
      (seq (put_candidates [])
      (seq (deposit_elections_event (NewTerm new_members_sorted_by_id))
      (modify (\<lambda>s. s\<lparr>ElectionRounds := wrapping_add_u32 (ElectionRounds s) 1\<rparr>)))))))))))"

definition do_phragmen :: "('l, 'c) elections_config_scheme \<Rightarrow> ('l, 'z, unit) elprog" where
  "do_phragmen T =
     (let num_to_elect = wrapping_add_u32 (DesiredRunnersUp T) (DesiredMembers T) in
      sbind (gets (\<lambda>s. Candidates s @ implicit_candidates_with_deposit s)) (\<lambda>candidates_and_deposit.
      if candidates_and_deposit = [] then deposit_elections_event EmptyTerm
      else
        sbind (gets (\<lambda>s. el_total_issuance T (ext s))) (\<lambda>total_issuance.
        sbind (gets (\<lambda>s. collect_voters (MaxVoters T) [] (Voting s))) (\<lambda>collected.
        case collected of
          None \<Rightarrow> deposit_elections_event ElectionErrorEvent
        | Some voters_and_stakes \<Rightarrow>
            (let voters_and_votes = map (\<lambda>(voter, stake, votes). (voter, to_vote T stake total_issuance, votes)) voters_and_stakes in
             case seq_phragmen T num_to_elect (map fst candidates_and_deposit) voters_and_votes of
               None \<Rightarrow> deposit_elections_event ElectionErrorEvent
             | Some winners \<Rightarrow> new_term T total_issuance candidates_and_deposit voters_and_stakes winners)))))"

definition elections_on_initialize :: "('l, 'c) elections_config_scheme \<Rightarrow> nat \<Rightarrow> ('l, 'z, unit) elprog" where
  "elections_on_initialize T n =
     (if TermDuration T \<noteq> 0 \<and> n mod TermDuration T = 0 then do_phragmen T else ok ())"

section \<open>Extrinsics\<close>

definition el_vote ::
    "('l, 'c) elections_config_scheme \<Rightarrow> origin \<Rightarrow> account list \<Rightarrow> nat \<Rightarrow> ('l, 'z, unit) elprog" where
  "el_vote T orig votes value =
     sbind (ensure_signed orig) (\<lambda>who.
     seq (ensure (length votes \<le> MaxVotesPerVoter T) (ElErr MaximumVotesExceeded))
     (seq (ensure (votes \<noteq> []) (ElErr NoVotes))
     (sbind (gets (\<lambda>s. saturating_add_u32 (saturating_add_u32 (length (Candidates s)) (length (Members s))) (length (RunnersUp s))))
       (\<lambda>allowed_votes.
      seq (ensure (allowed_votes \<noteq> 0) (ElErr UnableToVote))
      (seq (ensure (length votes \<le> allowed_votes) (ElErr TooManyVotes))
      (sbind (gets block_number) (\<lambda>current_block.
       sbind (gets (\<lambda>s. voting_of s who)) (\<lambda>v.
       seq (if current_block < vt_lockup_till v
            then ensure (value \<ge> vt_stake v) (ElErr LowBalance)
            else ensure (value > el_minimum_balance T) (ElErr LowBalance))
       (sbind (gets (\<lambda>s. min value (c_total_balance (el_currency T) who (ext s)))) (\<lambda>locked_stake.
        seq (on_ext (c_set_freeze (el_currency T) VotingFreeze who locked_stake))
        (sbind (gets Voting) (\<lambda>m.
         put_votings (nmap_insert (voting_hash T) who
           \<lparr>vt_votes = votes, vt_stake = locked_stake,
            vt_lockup_till = wrapping_add_u32 current_block (VotingLockPeriod T)\<rparr> m)))))))))))))"

definition remove_voter :: "('l, 'c) elections_config_scheme \<Rightarrow> origin \<Rightarrow> ('l, 'z, unit) elprog" where
  "remove_voter T orig =
     sbind (ensure_signed orig) (\<lambda>who.
     sbind (gets (is_voter who)) (\<lambda>voter.
     seq (ensure voter (ElErr MustBeVoter))
     (sbind (gets (can_unlock who)) (\<lambda>unlocked.
      seq (ensure unlocked (ElErr VotingPeriodNotEnded))
      (do_remove_voter T who)))))"

definition submit_candidacy :: "('l, 'c) elections_config_scheme \<Rightarrow> origin \<Rightarrow> nat \<Rightarrow> ('l, 'z, unit) elprog" where
  "submit_candidacy T orig candidate_count =
     sbind (ensure_signed orig) (\<lambda>who.
     sbind (gets (\<lambda>s. as_u32 (length (Candidates s)))) (\<lambda>actual_count.
     seq (ensure (actual_count \<le> candidate_count) (ElErr InvalidWitnessData))
     (seq (ensure (actual_count \<le> MaxCandidates T) (ElErr TooManyCandidates))
     (sbind (gets (is_election_candidate who)) (\<lambda>found.
      case found of
        Inr _ \<Rightarrow> err (ElErr DuplicatedCandidate)
      | Inl index \<Rightarrow>
          sbind (gets (is_member who)) (\<lambda>member.
          seq (ensure (\<not> member) (ElErr MemberSubmit))
          (sbind (gets (is_runner_up who)) (\<lambda>runner_up.
           seq (ensure (\<not> runner_up) (ElErr RunnerUpSubmit))
           (seq (with_error InsufficientCandidateFunds
                  (on_ext (c_hold (el_currency T) (ElectionsReason Candidacy) who (CandidacyBond T))))
           (sbind (gets Candidates) (\<lambda>c. put_candidates (insert_at index (who, CandidacyBond T) c))))))))))))"

definition renounce_runner_up :: "('l, 'c) elections_config_scheme \<Rightarrow> account \<Rightarrow> ('l, 'z, unit) elprog" where
  "renounce_runner_up T who =
     sbind (gets RunnersUp) (\<lambda>runners_up.
     case List.find (\<lambda>i. sh_who (runners_up ! i) = who) [0..<length runners_up] of
       None \<Rightarrow> err (ElErr InvalidRenouncing)
     | Some index \<Rightarrow>
         seq (release_bond T who (sh_deposit (runners_up ! index)))
         (seq (deposit_elections_event (Renounced who))
         (put_runners_up (remove_at index runners_up))))"

definition renounce_candidate :: "('l, 'c) elections_config_scheme \<Rightarrow> account \<Rightarrow> nat \<Rightarrow> ('l, 'z, unit) elprog" where
  "renounce_candidate T who n =
     sbind (gets Candidates) (\<lambda>candidates.
     seq (ensure (n \<ge> as_u32 (length candidates)) (ElErr InvalidWitnessData))
     (case search_candidate who candidates of
        Inl _ \<Rightarrow> err (ElErr InvalidRenouncing)
      | Inr index \<Rightarrow>
          seq (release_bond T who (snd (candidates ! index)))
          (seq (deposit_elections_event (Renounced who))
          (put_candidates (remove_at index candidates)))))"

definition renounce_candidacy :: "('l, 'c) elections_config_scheme \<Rightarrow> origin \<Rightarrow> renouncing \<Rightarrow> ('l, 'z, unit) elprog" where
  "renounce_candidacy T orig renouncing =
     sbind (ensure_signed orig) (\<lambda>who.
     case renouncing of
       RenounceMember \<Rightarrow>
         sbind (with_error InvalidRenouncing (remove_and_replace_member T who False)) (\<lambda>_.
         deposit_elections_event (Renounced who))
     | RenounceRunnerUp \<Rightarrow> renounce_runner_up T who
     | RenounceCandidate n \<Rightarrow> renounce_candidate T who n)"

definition remove_member ::
    "('l, 'c) elections_config_scheme \<Rightarrow> origin \<Rightarrow> account \<Rightarrow> bool \<Rightarrow> bool \<Rightarrow> ('l, 'z, unit) elprog" where
  "remove_member T orig target slash_bond rerun_election =
     seq (ensure_root orig)
     (sbind (ok_or (el_lookup T target) CannotLookup) (\<lambda>who.
      sbind (remove_and_replace_member T who slash_bond) (\<lambda>_.
      seq (deposit_elections_event (MemberKicked who))
      (if rerun_election then do_phragmen T else ok ()))))"

definition clean_defunct_voters :: "('l, 'c) elections_config_scheme \<Rightarrow> origin \<Rightarrow> nat \<Rightarrow> nat \<Rightarrow> ('l, 'z, unit) elprog" where
  "clean_defunct_voters T orig num_voters num_defunct =
     seq (ensure_root orig)
     (sbind (gets (\<lambda>s. take num_defunct (filter (\<lambda>(_, x). is_defunct_voter (vt_votes x) s) (take num_voters (Voting s)))))
       (\<lambda>defunct. for_each defunct (\<lambda>(dv, _). do_remove_voter T dv)))"

datatype elections_call =
    ElectionVote "account list" nat
  | RemoveVoter
  | SubmitCandidacy nat
  | RenounceCandidacy renouncing
  | RemoveMember account bool bool
  | CleanDefunctVoters nat nat

definition elections_body :: "('l, 'c) elections_config_scheme \<Rightarrow> origin \<Rightarrow> elections_call \<Rightarrow> ('l, 'z, unit) elprog" where
  "elections_body T orig call =
     (case call of
        ElectionVote votes value \<Rightarrow> el_vote T orig votes value
      | RemoveVoter \<Rightarrow> remove_voter T orig
      | SubmitCandidacy candidate_count \<Rightarrow> submit_candidacy T orig candidate_count
      | RenounceCandidacy renouncing \<Rightarrow> renounce_candidacy T orig renouncing
      | RemoveMember who slash_bond rerun_election \<Rightarrow> remove_member T orig who slash_bond rerun_election
      | CleanDefunctVoters num_voters num_defunct \<Rightarrow> clean_defunct_voters T orig num_voters num_defunct)"

definition elections_dispatch :: "('l, 'c) elections_config_scheme \<Rightarrow> origin \<Rightarrow> elections_call \<Rightarrow> ('l, 'z, unit) elprog" where
  "elections_dispatch T orig call = transactional (elections_body T orig call)"

section \<open>Genesis\<close>

definition genesis_member :: "('l, 'c) elections_config_scheme \<Rightarrow> account \<times> nat \<Rightarrow> ('l, 'z, unit) elprog" where
  "genesis_member T = (\<lambda>(member, stake).
     sbind (gets (\<lambda>s. el_balance T member (ext s))) (\<lambda>balance.
     seq (ensure (balance \<ge> stake) Panic)
     (sbind (gets Members) (\<lambda>members.
      case search_member member members of
        Inr _ \<Rightarrow> err Panic
      | Inl pos \<Rightarrow>
          seq (put_members (insert_at pos \<lparr>sh_who = member, sh_stake = stake, sh_deposit = 0\<rparr> members))
          (sbind (gets Voting) (\<lambda>m.
           put_votings (nmap_insert (voting_hash T) member
             \<lparr>vt_votes = [member], vt_stake = stake, vt_lockup_till = VotingLockPeriod T\<rparr> m)))))))"

definition elections_genesis_build :: "('l, 'c) elections_config_scheme \<Rightarrow> (account \<times> nat) list \<Rightarrow> ('l, 'z, unit) elprog" where
  "elections_genesis_build T members =
     seq (ensure (as_u32 (length members) \<le> DesiredMembers T) Panic)
     (seq (for_each members (genesis_member T))
     (on_ledger (initialize_members T (map fst members))))"

section \<open>The checks of the state\<close>

text \<open>\<^verbatim>\<open>do_try_state\<close> and its parts, with the messages of the errors.\<close>

definition candidates_ids :: "('l, 'z) elections_state_scheme \<Rightarrow> account list" where
  "candidates_ids s = map fst (Candidates s)"

definition runners_up_ids :: "('l, 'z) elections_state_scheme \<Rightarrow> account list" where
  "runners_up_ids s = map sh_who (RunnersUp s)"

definition intersects :: "'a list \<Rightarrow> 'a list \<Rightarrow> bool" where
  "intersects a b \<longleftrightarrow> (\<exists>e\<in>set a. e \<in> set b)"

definition try_state_members :: "('l, 'z) elections_state_scheme \<Rightarrow> string + unit" where
  "try_state_members s =
     (if Members s = sort_by (\<lambda>a b. nat_cmp (sh_who a) (sh_who b)) (Members s) then Inr ()
      else Inl ''try_state checks: Members must be always sorted by account ID'')"

definition try_state_runners_up :: "('l, 'z) elections_state_scheme \<Rightarrow> string + unit" where
  "try_state_runners_up s =
     (if RunnersUp s = sort_by (\<lambda>a b. nat_cmp (sh_stake a) (sh_stake b)) (RunnersUp s) then Inr ()
      else Inl ''try_state checks: Runners Up must always be sorted by stake (worst to best)'')"

definition try_state_candidates :: "('l, 'z) elections_state_scheme \<Rightarrow> string + unit" where
  "try_state_candidates s =
     (if Candidates s = sort_by (\<lambda>a b. nat_cmp (fst a) (fst b)) (Candidates s) then Inr ()
      else Inl ''try_state checks: Candidates must be always sorted by account ID'')"

definition try_state_candidates_runners_up_disjoint :: "('l, 'z) elections_state_scheme \<Rightarrow> string + unit" where
  "try_state_candidates_runners_up_disjoint s =
     (if intersects (candidates_ids s) (runners_up_ids s)
      then Inl ''Candidates and runners up sets should always be disjoint'' else Inr ())"

definition try_state_members_disjoint :: "('l, 'z) elections_state_scheme \<Rightarrow> string + unit" where
  "try_state_members_disjoint s =
     (if intersects (members_ids s) (candidates_ids s) \<and> intersects (members_ids s) (runners_up_ids s)
      then Inl ''Members set should be disjoint from candidates and runners-up sets'' else Inr ())"

definition try_state_members_approval_stake :: "('l, 'z) elections_state_scheme \<Rightarrow> string + unit" where
  "try_state_members_approval_stake s =
     (if \<forall>x\<in>set (Members s @ RunnersUp s). sh_stake x \<noteq> 0 then Inr ()
      else Inl ''Members and RunnersUp must have approval stake'')"

text \<open>The first check that fails gives the error.\<close>

definition and_then :: "string + unit \<Rightarrow> string + unit \<Rightarrow> string + unit" where
  "and_then a b = (case a of Inl e \<Rightarrow> Inl e | Inr _ \<Rightarrow> b)"

definition do_try_state :: "('l, 'z) elections_state_scheme \<Rightarrow> string + unit" where
  "do_try_state s =
     and_then (try_state_members s)
     (and_then (try_state_runners_up s)
     (and_then (try_state_candidates s)
     (and_then (try_state_candidates_runners_up_disjoint s)
     (and_then (try_state_members_disjoint s)
     (try_state_members_approval_stake s)))))"

section \<open>What other pallets see\<close>

definition elections_contains :: "account \<Rightarrow> ('l, 'z) elections_state_scheme \<Rightarrow> bool" where
  "elections_contains who s = is_member who s"

definition sorted_members :: "('l, 'z) elections_state_scheme \<Rightarrow> account list" where
  "sorted_members s = members_ids s"

definition elections_max_len :: "('l, 'c) elections_config_scheme \<Rightarrow> nat" where
  "elections_max_len T = DesiredMembers T"

end
