(* ===== verification/Elections_Invariant.thy ===== *)
theory Elections_Invariant
  imports Elections
begin

text \<open>
  The invariant of the pallet \<^verbatim>\<open>elections-phragmen\<close> and that every extrinsic and every election keeps it: members and
  candidates are sorted by account, no account has two roles, the seats do not exceed their number, what is on hold for
  a candidacy is exactly the recorded deposit, and what is frozen for a vote is exactly its stake.
\<close>

section \<open>Sorted vectors of the pallet\<close>

interpretation el_members: sorted_vector "\<lambda>x y. nat_cmp (sh_who x) (sh_who y)" sh_who
  by unfold_locales simp

interpretation el_candidates: sorted_vector "\<lambda>x y. nat_cmp (fst x) (fst y)" "fst :: account \<times> nat \<Rightarrow> nat"
  by unfold_locales simp

interpretation el_ids: sorted_vector nat_cmp "\<lambda>a. a"
  by unfold_locales simp

abbreviation who_only :: "account \<Rightarrow> seat_holder" where
  "who_only who \<equiv> \<lparr>sh_who = who, sh_stake = 0, sh_deposit = 0\<rparr>"

lemma search_member_eq: "search_member who ms = binary_search_by (\<lambda>m. nat_cmp (sh_who m) (sh_who (who_only who))) ms"
  by (simp add: search_member_def)

lemma search_candidate_eq: "search_candidate who cs = binary_search_by (\<lambda>c. nat_cmp (fst c) (fst (who, 0 :: nat))) cs"
  by (simp add: search_candidate_def)

lemma search_member_found:
  assumes "search_member who ms = Inr i"
  shows "i < length ms" "sh_who (ms ! i) = who"
  using el_members.search_found [OF assms [unfolded search_member_eq]] by auto

lemma search_candidate_found:
  assumes "search_candidate who cs = Inr i"
  shows "i < length cs" "fst (cs ! i) = who"
  using el_candidates.search_found [OF assms [unfolded search_candidate_eq]] by auto

lemma search_member_iff:
  "el_members.ordered ms \<Longrightarrow> (\<exists>i. search_member who ms = Inr i) \<longleftrightarrow> who \<in> sh_who ` set ms"
  using el_members.search_found_iff [of ms "who_only who"] by (simp add: search_member_eq)

lemma search_candidate_iff:
  "el_candidates.ordered cs \<Longrightarrow> (\<exists>i. search_candidate who cs = Inr i) \<longleftrightarrow> who \<in> fst ` set cs"
  using el_candidates.search_found_iff [of cs "(who, 0)"] by (simp add: search_candidate_eq)

lemma is_member_iff: "el_members.ordered (Members s) \<Longrightarrow> is_member who s \<longleftrightarrow> who \<in> set (members_ids s)"
  using search_member_iff [of "Members s" who]
  by (auto simp: is_member_def members_ids_def split: sum.splits)

lemma is_runner_up_iff: "is_runner_up who s \<longleftrightarrow> who \<in> set (runners_up_ids s)"
  by (auto simp: is_runner_up_def runners_up_ids_def)

lemma search_id_iff: "el_ids.ordered xs \<Longrightarrow> (\<exists>i. binary_search_by (\<lambda>x. nat_cmp x c) xs = Inr i) \<longleftrightarrow> c \<in> set xs"
  using el_ids.search_found_iff [of xs c] by simp

section \<open>Deposits\<close>

lemma find_fst: "(case List.find (\<lambda>c. fst c = x) xs of Some (_, d) \<Rightarrow> d | None \<Rightarrow> 0) = (case map_of xs x of Some d \<Rightarrow> d | None \<Rightarrow> 0)"
  by (induction xs) auto

lemma deposit_eq: "deposit_of_candidate xs x = (case map_of xs x of Some d \<Rightarrow> d | None \<Rightarrow> 0)"
  unfolding deposit_of_candidate_def by (rule find_fst)

lemma deposit_in: "distinct (map fst xs) \<Longrightarrow> (a, d) \<in> set xs \<Longrightarrow> deposit_of_candidate xs a = d"
  by (simp add: deposit_eq)

lemma deposit_out: "a \<notin> fst ` set xs \<Longrightarrow> deposit_of_candidate xs a = 0"
  by (simp add: deposit_eq map_of_eq_None_iff [symmetric])

lemma deposit_cong: "distinct (map fst xs) \<Longrightarrow> mset xs = mset ys \<Longrightarrow> deposit_of_candidate xs = deposit_of_candidate ys"
  unfolding deposit_eq fun_eq_iff by (metis map_of_eqI mset_eq_imp_distinct_iff mset_map set_mset_mset map_of_inject_set)

lemma deposit_Cons: "deposit_of_candidate ((a, d) # xs) = (deposit_of_candidate xs)(a := d)"
  by (auto simp: deposit_eq)

section \<open>The laws of the parameters\<close>

definition candidacy_in :: "('l, 'c) elections_config_scheme \<Rightarrow> 'l \<Rightarrow> account \<Rightarrow> nat" where
  "candidacy_in T l a = c_balance_on_hold (el_currency T) (ElectionsReason Candidacy) a l"

definition voting_frozen :: "('l, 'c) elections_config_scheme \<Rightarrow> 'l \<Rightarrow> account \<Rightarrow> nat" where
  "voting_frozen T l a = c_balance_frozen (el_currency T) VotingFreeze a l"

text \<open>
  A hold adds its amount, an exact release takes its amount from what is held, a slash takes as much of its amount
  as is held, a freeze is set to its amount and removed by a thaw; none of them touches another account or
  the other kind of restriction. The handlers for slashed tokens and for changed members leave both alone. The election
  returns different candidates, at most as many as it was asked for.
\<close>

definition elections_laws :: "('l, 'c) elections_config_scheme \<Rightarrow> bool" where
  "elections_laws T \<longleftrightarrow>
     (\<forall>who n l u l'. c_hold (el_currency T) (ElectionsReason Candidacy) who n l = (Inr u, l') \<longrightarrow>
        candidacy_in T l' = (candidacy_in T l)(who := candidacy_in T l who + n) \<and> voting_frozen T l' = voting_frozen T l) \<and>
     (\<forall>who n l m l'. c_release (el_currency T) (ElectionsReason Candidacy) who n Exact l = (Inr m, l') \<longrightarrow>
        candidacy_in T l' = (candidacy_in T l)(who := candidacy_in T l who - n) \<and> voting_frozen T l' = voting_frozen T l) \<and>
     (\<forall>who n l c l'. c_slash (el_currency T) (ElectionsReason Candidacy) who n l = (c, l') \<longrightarrow>
        candidacy_in T l' = (candidacy_in T l)(who := candidacy_in T l who - n) \<and> voting_frozen T l' = voting_frozen T l) \<and>
     (\<forall>who n l u l'. c_set_freeze (el_currency T) VotingFreeze who n l = (Inr u, l') \<longrightarrow>
        voting_frozen T l' = (voting_frozen T l)(who := n) \<and> candidacy_in T l' = candidacy_in T l) \<and>
     (\<forall>who l u l'. c_thaw (el_currency T) VotingFreeze who l = (Inr u, l') \<longrightarrow>
        voting_frozen T l' = (voting_frozen T l)(who := 0) \<and> candidacy_in T l' = candidacy_in T l) \<and>
     (\<forall>n l. candidacy_in T (loser_candidate T n l) = candidacy_in T l \<and> voting_frozen T (loser_candidate T n l) = voting_frozen T l) \<and>
     (\<forall>p l. candidacy_in T (set_prime T p l) = candidacy_in T l \<and> voting_frozen T (set_prime T p l) = voting_frozen T l) \<and>
     (\<forall>i out ms l. candidacy_in T (change_members_sorted T i out ms l) = candidacy_in T l \<and>
        voting_frozen T (change_members_sorted T i out ms l) = voting_frozen T l) \<and>
     (\<forall>n cs vs ws. seq_phragmen T n cs vs = Some ws \<longrightarrow> distinct (map fst ws) \<and> fst ` set ws \<subseteq> set cs \<and> length ws \<le> n) \<and>
     (\<forall>ids l. candidacy_in T (initialize_members T ids l) = candidacy_in T l \<and>
        voting_frozen T (initialize_members T ids l) = voting_frozen T l)"

lemma elections_lawsD:
  assumes "elections_laws T"
  shows "c_hold (el_currency T) (ElectionsReason Candidacy) who n l = (Inr u, l') \<Longrightarrow>
      candidacy_in T l' = (candidacy_in T l)(who := candidacy_in T l who + n) \<and> voting_frozen T l' = voting_frozen T l"
    and "c_release (el_currency T) (ElectionsReason Candidacy) who n Exact l = (Inr m, l') \<Longrightarrow>
      candidacy_in T l' = (candidacy_in T l)(who := candidacy_in T l who - n) \<and> voting_frozen T l' = voting_frozen T l"
    and "c_slash (el_currency T) (ElectionsReason Candidacy) who n l = (c, l') \<Longrightarrow>
      candidacy_in T l' = (candidacy_in T l)(who := candidacy_in T l who - n) \<and> voting_frozen T l' = voting_frozen T l"
    and "c_set_freeze (el_currency T) VotingFreeze who n l = (Inr u, l') \<Longrightarrow>
      voting_frozen T l' = (voting_frozen T l)(who := n) \<and> candidacy_in T l' = candidacy_in T l"
    and "c_thaw (el_currency T) VotingFreeze who l = (Inr u, l') \<Longrightarrow>
      voting_frozen T l' = (voting_frozen T l)(who := 0) \<and> candidacy_in T l' = candidacy_in T l"
    and "candidacy_in T (loser_candidate T n l) = candidacy_in T l" "voting_frozen T (loser_candidate T n l) = voting_frozen T l"
    and "candidacy_in T (set_prime T p l) = candidacy_in T l" "voting_frozen T (set_prime T p l) = voting_frozen T l"
    and "candidacy_in T (change_members_sorted T i out ms l) = candidacy_in T l"
      "voting_frozen T (change_members_sorted T i out ms l) = voting_frozen T l"
    and "seq_phragmen T n cs vs = Some ws \<Longrightarrow> distinct (map fst ws) \<and> fst ` set ws \<subseteq> set cs \<and> length ws \<le> n"
    and "candidacy_in T (initialize_members T ids l) = candidacy_in T l" "voting_frozen T (initialize_members T ids l) = voting_frozen T l"
  using assms unfolding elections_laws_def by metis+

section \<open>The invariant\<close>

text \<open>Everybody who has a role, with the recorded deposit.\<close>

definition recorded :: "('l, 'z) elections_state_scheme \<Rightarrow> (account \<times> nat) list" where
  "recorded s = Candidates s @ implicit_candidates_with_deposit s"

definition seats_ok :: "('l, 'c) elections_config_scheme \<Rightarrow> ('l, 'z) elections_state_scheme \<Rightarrow> bool" where
  "seats_ok T s \<longleftrightarrow> el_members.ordered (Members s) \<and> el_candidates.ordered (Candidates s) \<and>
     distinct (map fst (recorded s)) \<and> length (Members s) \<le> DesiredMembers T \<and>
     length (RunnersUp s) \<le> DesiredRunnersUp T \<and> length (Candidates s) \<le> Suc (MaxCandidates T)"

definition votes_ok :: "('l, 'c) elections_config_scheme \<Rightarrow> (account, voter) nmap \<Rightarrow> bool" where
  "votes_ok T m \<longleftrightarrow> nmap_wf m \<and>
     (\<forall>(a, v)\<in>set m. vt_votes v \<noteq> [] \<and> length (vt_votes v) \<le> MaxVotesPerVoter T)"

text \<open>
  The members of the genesis vote for themselves without a freeze; \<open>G\<close> is the set of these accounts. For everybody else
  the freeze is always the stake.
\<close>

definition freezes_ok :: "('l, 'c) elections_config_scheme \<Rightarrow> account set \<Rightarrow> ('l, 'z) elections_state_scheme \<Rightarrow> bool" where
  "freezes_ok T G s \<longleftrightarrow>
     (\<forall>a. voting_frozen T (ext s) a = vt_stake (voting_of s a) \<or> a \<in> G \<and> voting_frozen T (ext s) a = 0)"

definition elections_ok :: "('l, 'c) elections_config_scheme \<Rightarrow> account set \<Rightarrow> ('l, 'z) elections_state_scheme \<Rightarrow> bool" where
  "elections_ok T G s \<longleftrightarrow> seats_ok T s \<and> votes_ok T (Voting s) \<and>
     candidacy_in T (ext s) = deposit_of_candidate (recorded s) \<and> freezes_ok T G s"

lemma fst_recorded: "map fst (recorded s) = candidates_ids s @ members_ids s @ runners_up_ids s"
  by (simp add: recorded_def implicit_candidates_with_deposit_def candidates_ids_def members_ids_def runners_up_ids_def comp_def)

lemma recorded_update [simp]:
  "recorded (s\<lparr>ext := l\<rparr>) = recorded s" "recorded (s\<lparr>elections_events := ev\<rparr>) = recorded s"
  "recorded (s\<lparr>Voting := m\<rparr>) = recorded s" "recorded (s\<lparr>block_number := n\<rparr>) = recorded s"
  "recorded (s\<lparr>ElectionRounds := r\<rparr>) = recorded s"
  by (simp_all add: recorded_def implicit_candidates_with_deposit_def)

lemma recorded_put:
  "recorded (s\<lparr>Candidates := cs\<rparr>) = cs @ implicit_candidates_with_deposit s"
  "recorded (s\<lparr>Members := ms\<rparr>) = Candidates s @ map (\<lambda>m. (sh_who m, sh_deposit m)) ms @ map (\<lambda>r. (sh_who r, sh_deposit r)) (RunnersUp s)"
  "recorded (s\<lparr>RunnersUp := rs\<rparr>) = Candidates s @ map (\<lambda>m. (sh_who m, sh_deposit m)) (Members s) @ map (\<lambda>r. (sh_who r, sh_deposit r)) rs"
  by (simp_all add: recorded_def implicit_candidates_with_deposit_def)

lemma seats_ok_frame:
  "seats_ok T s \<Longrightarrow> Members t = Members s \<Longrightarrow> RunnersUp t = RunnersUp s \<Longrightarrow> Candidates t = Candidates s \<Longrightarrow> seats_ok T t"
  by (simp add: seats_ok_def recorded_def implicit_candidates_with_deposit_def)

text \<open>
  An account joins or leaves the record: the deposits follow, and nothing else has to be checked.
\<close>

lemma deposit_joins:
  assumes "distinct (map fst xs)" "mset ys = add_mset (a, d) (mset xs)" "a \<notin> fst ` set xs"
  shows "distinct (map fst ys)" "deposit_of_candidate ys = (deposit_of_candidate xs)(a := deposit_of_candidate xs a + d)"
proof -
  have m: "mset ys = mset ((a, d) # xs)" using assms(2) by simp
  show "distinct (map fst ys)"
    using mset_eq_imp_distinct_iff [of "map fst ys" "map fst ((a, d) # xs)"] m assms(1,3) by (simp add: mset_map)
  then have "deposit_of_candidate ys = deposit_of_candidate ((a, d) # xs)" using deposit_cong m by blast
  then show "deposit_of_candidate ys = (deposit_of_candidate xs)(a := deposit_of_candidate xs a + d)"
    using deposit_out [OF assms(3)] by (simp add: deposit_Cons)
qed

lemma deposit_leaves:
  assumes "distinct (map fst xs)" "mset xs = add_mset (a, d) (mset ys)"
  shows "distinct (map fst ys)" "a \<notin> fst ` set ys" "deposit_of_candidate xs a = d"
    "deposit_of_candidate ys = (deposit_of_candidate xs)(a := deposit_of_candidate xs a - d)"
proof -
  have m: "mset xs = mset ((a, d) # ys)" using assms(2) by simp
  have d: "distinct (map fst ((a, d) # ys))"
    using mset_eq_imp_distinct_iff [of "map fst xs" "map fst ((a, d) # ys)"] m assms(1) by (simp add: mset_map)
  then show "distinct (map fst ys)" and a: "a \<notin> fst ` set ys" by simp_all
  have "deposit_of_candidate xs = (deposit_of_candidate ys)(a := d)"
    using deposit_cong [OF assms(1) m] by (simp add: deposit_Cons)
  then show "deposit_of_candidate xs a = d"
    and "deposit_of_candidate ys = (deposit_of_candidate xs)(a := deposit_of_candidate xs a - d)"
    using deposit_out [OF a] by (auto simp: fun_eq_iff)
qed

lemma length_insert_at: "length (insert_at i x xs) = Suc (length xs)"
  unfolding insert_at_def using length_append [of "take i xs" "drop i xs"] by simp

lemma length_remove_at: "i < length xs \<Longrightarrow> length (remove_at i xs) = length xs - 1"
  by (simp add: remove_at_def min_def)

section \<open>Voters\<close>

lemma with_error_Inr [prog_simps]: "with_error e m s = (Inr a, t) \<longleftrightarrow> m s = (Inr a, t)"
  by (simp add: with_error_def map_err_Inr)

lemma on_ledger_Inr [prog_simps]: "on_ledger f s = (Inr u, t) \<longleftrightarrow> t = s\<lparr>ext := f (ext s)\<rparr>"
  by (simp add: on_ledger_def modify_Inr)

lemma voting_of_update:
  "voting_of (s\<lparr>ext := l, Voting := nmap_insert h who v (Voting s)\<rparr>) = (voting_of s)(who := v)"
  "voting_of (s\<lparr>ext := l, Voting := nmap_remove who (Voting s)\<rparr>) = (voting_of s)(who := no_voter)"
  by (auto simp: voting_of_def nm.get_insert nm.get_remove)

lemma voting_of_frame [simp]:
  "voting_of (s\<lparr>ext := l\<rparr>) = voting_of s" "voting_of (s\<lparr>elections_events := ev\<rparr>) = voting_of s"
  "voting_of (s\<lparr>Members := ms\<rparr>) = voting_of s" "voting_of (s\<lparr>RunnersUp := rs\<rparr>) = voting_of s"
  "voting_of (s\<lparr>Candidates := cs\<rparr>) = voting_of s" "voting_of (s\<lparr>block_number := n\<rparr>) = voting_of s"
  "voting_of (s\<lparr>ElectionRounds := r\<rparr>) = voting_of s"
  by (auto simp: voting_of_def)

lemma votes_ok_insert:
  "votes_ok T m \<Longrightarrow> vt_votes v \<noteq> [] \<Longrightarrow> length (vt_votes v) \<le> MaxVotesPerVoter T \<Longrightarrow> votes_ok T (nmap_insert h who v m)"
  unfolding votes_ok_def using nm.all_entries_insert [of m "\<lambda>(a, v). vt_votes v \<noteq> [] \<and> length (vt_votes v) \<le> MaxVotesPerVoter T"]
  by (simp add: nm.wf_insert)

lemma votes_ok_remove: "votes_ok T m \<Longrightarrow> votes_ok T (nmap_remove who m)"
  unfolding votes_ok_def using nm.all_entries_remove [of m "\<lambda>(a, v). vt_votes v \<noteq> [] \<and> length (vt_votes v) \<le> MaxVotesPerVoter T"]
  by (simp add: nm.wf_remove)

definition stake_for :: "('l, 'c) elections_config_scheme \<Rightarrow> account \<Rightarrow> nat \<Rightarrow> ('l, 'z) elections_state_scheme \<Rightarrow> nat" where
  "stake_for T who value s = min value (c_total_balance (el_currency T) who (ext s))"

definition new_vote ::
    "('l, 'c) elections_config_scheme \<Rightarrow> account \<Rightarrow> account list \<Rightarrow> nat \<Rightarrow> ('l, 'z) elections_state_scheme \<Rightarrow> voter" where
  "new_vote T who votes value s =
     \<lparr>vt_votes = votes, vt_stake = stake_for T who value s,
      vt_lockup_till = wrapping_add_u32 (block_number s) (VotingLockPeriod T)\<rparr>"

lemma el_vote_effect:
  assumes "el_vote T orig votes value s = (Inr (), s')"
  shows "\<exists>who l. orig = Signed who \<and> votes \<noteq> [] \<and> length votes \<le> MaxVotesPerVoter T \<and>
    (block_number s < vt_lockup_till (voting_of s who) \<longrightarrow> vt_stake (voting_of s who) \<le> value) \<and>
    c_set_freeze (el_currency T) VotingFreeze who (stake_for T who value s) (ext s) = (Inr (), l) \<and>
    s' = s\<lparr>ext := l, Voting := nmap_insert (voting_hash T) who (new_vote T who votes value s) (Voting s)\<rparr>"
  using assms
  by (auto simp: el_vote_def prog_simps elections_access_defs new_vote_def stake_for_def split: if_splits)

lemma vote_ok:
  assumes laws: "elections_laws T" and ok: "elections_ok T G s" and run: "el_vote T orig votes value s = (Inr (), s')"
  shows "elections_ok T G s'"
proof -
  obtain who l where l: "c_set_freeze (el_currency T) VotingFreeze who (stake_for T who value s) (ext s) = (Inr (), l)"
    and v: "votes \<noteq> []" "length votes \<le> MaxVotesPerVoter T"
    and s': "s' = s\<lparr>ext := l, Voting := nmap_insert (voting_hash T) who (new_vote T who votes value s) (Voting s)\<rparr>"
    using el_vote_effect [OF run] by blast
  show ?thesis unfolding elections_ok_def
  proof (intro conjI)
    show "seats_ok T s'" using ok unfolding elections_ok_def s' by (auto intro: seats_ok_frame)
    show "votes_ok T (Voting s')" using ok v by (simp add: s' elections_ok_def votes_ok_insert new_vote_def)
    show "candidacy_in T (ext s') = deposit_of_candidate (recorded s')"
      using ok elections_lawsD(4) [OF laws l] by (simp add: s' elections_ok_def)
    show "freezes_ok T G s'"
      using ok elections_lawsD(4) [OF laws l] by (simp add: s' elections_ok_def freezes_ok_def voting_of_update new_vote_def)
  qed
qed

lemma do_remove_voter_ok:
  assumes laws: "elections_laws T" and ok: "elections_ok T G s" and run: "do_remove_voter T who s = (Inr (), s')"
  shows "elections_ok T G s'"
proof -
  obtain l where l: "c_thaw (el_currency T) VotingFreeze who (ext s) = (Inr (), l)"
    and s': "s' = s\<lparr>ext := l, Voting := nmap_remove who (Voting s)\<rparr>"
    using run by (auto simp: do_remove_voter_def prog_simps elections_access_defs)
  show ?thesis unfolding elections_ok_def
  proof (intro conjI)
    show "seats_ok T s'" using ok unfolding elections_ok_def s' by (auto intro: seats_ok_frame)
    show "votes_ok T (Voting s')" using ok by (simp add: s' elections_ok_def votes_ok_remove)
    show "candidacy_in T (ext s') = deposit_of_candidate (recorded s')"
      using ok elections_lawsD(5) [OF laws l] by (simp add: s' elections_ok_def)
    show "freezes_ok T G s'"
      using ok elections_lawsD(5) [OF laws l] by (simp add: s' elections_ok_def freezes_ok_def voting_of_update no_voter_def)
  qed
qed

lemma remove_voters_ok:
  assumes "elections_laws T"
  shows "elections_ok T G s \<Longrightarrow> for_each vs (\<lambda>(dv, _). do_remove_voter T dv) s = (Inr (), s') \<Longrightarrow> elections_ok T G s'"
proof (induction vs arbitrary: s)
  case (Cons v vs)
  obtain u where "do_remove_voter T (fst v) s = (Inr (), u)" "for_each vs (\<lambda>(dv, _). do_remove_voter T dv) u = (Inr (), s')"
    using Cons.prems(2) by (auto simp: prog_simps split: prod.splits)
  then show ?case using Cons.IH do_remove_voter_ok [OF assms Cons.prems(1)] by blast
qed (simp add: prog_simps)

section \<open>Candidates\<close>

lemma elections_okD:
  assumes "elections_ok T G s"
  shows "el_members.ordered (Members s)" "el_candidates.ordered (Candidates s)" "distinct (map fst (recorded s))"
    "length (Members s) \<le> DesiredMembers T" "length (RunnersUp s) \<le> DesiredRunnersUp T"
    "length (Candidates s) \<le> Suc (MaxCandidates T)" "votes_ok T (Voting s)"
    "candidacy_in T (ext s) = deposit_of_candidate (recorded s)"
    "freezes_ok T G s"
  using assms by (simp_all add: elections_ok_def seats_ok_def)

text \<open>What has to be shown after the seats and the deposits have changed.\<close>

lemma elections_okI:
  assumes "elections_ok T G s" "Voting s' = Voting s" "voting_frozen T (ext s') = voting_frozen T (ext s)"
    and "el_members.ordered (Members s')" "el_candidates.ordered (Candidates s')" "distinct (map fst (recorded s'))"
    and "length (Members s') \<le> DesiredMembers T" "length (RunnersUp s') \<le> DesiredRunnersUp T"
    and "length (Candidates s') \<le> Suc (MaxCandidates T)"
    and "candidacy_in T (ext s') = deposit_of_candidate (recorded s')"
  shows "elections_ok T G s'"
proof -
  have "voting_of s' = voting_of s" using assms(2) by (auto simp: voting_of_def)
  then show ?thesis using assms by (simp add: elections_ok_def seats_ok_def freezes_ok_def)
qed

lemma submit_candidacy_ok:
  assumes laws: "elections_laws T" "MaxCandidates T < u32_max" and ok: "elections_ok T G s"
    and run: "submit_candidacy T orig n s = (Inr (), s')"
  shows "elections_ok T G s'"
proof -
  note i = elections_okD [OF ok]
  obtain who l index where c: "search_candidate who (Candidates s) = Inl index"
    and roles: "\<not> is_member who s" "\<not> is_runner_up who s" and n: "as_u32 (length (Candidates s)) \<le> MaxCandidates T"
    and l: "c_hold (el_currency T) (ElectionsReason Candidacy) who (CandidacyBond T) (ext s) = (Inr (), l)"
    and s': "s' = s\<lparr>ext := l, Candidates := insert_at index (who, CandidacyBond T) (Candidates s)\<rparr>"
    using run by (auto simp: submit_candidacy_def is_election_candidate_def prog_simps elections_access_defs split: sum.splits)
  have out: "who \<notin> fst ` set (recorded s)"
    using roles search_candidate_iff [OF i(2), of who] c fst_recorded [of s]
    by (auto simp: is_member_iff [OF i(1)] is_runner_up_iff candidates_ids_def simp flip: set_map)
  have m: "mset (recorded s') = add_mset (who, CandidacyBond T) (mset (recorded s))"
    by (simp add: s' recorded_def implicit_candidates_with_deposit_def mset_insert_at)
  note j = deposit_joins [OF i(3) m out]
  have len: "length (Candidates s) \<le> MaxCandidates T" using n i(6) laws(2) by (simp add: as_u32_def u32_max_def)
  show ?thesis
  proof (rule elections_okI [OF ok])
    show "el_candidates.ordered (Candidates s')"
      using el_candidates.ordered_insert_at [OF i(2), of "(who, CandidacyBond T)" index] c
      by (simp add: s' search_candidate_def)
    show "candidacy_in T (ext s') = deposit_of_candidate (recorded s')"
      using elections_lawsD(1) [OF laws(1) l] i(8) j(2) by (simp add: s')
  qed (use i j(1) len elections_lawsD(1) [OF laws(1) l] in \<open>simp_all add: s' length_insert_at\<close>)
qed

lemma release_bond_Inr [prog_simps]:
  "release_bond T who d s = (Inr u, t) \<longleftrightarrow>
     (\<exists>m l. c_release (el_currency T) (ElectionsReason Candidacy) who d Exact (ext s) = (Inr m, l) \<and> t = s\<lparr>ext := l\<rparr>)"
  by (auto simp: release_bond_def prog_simps)

lemma find_index: "List.find (\<lambda>i. P (xs ! i)) [0..<length xs] = Some i \<Longrightarrow> i < length xs \<and> P (xs ! i)"
  by (auto simp: find_Some_iff)

lemma mset_map_remove_at:
  "i < length xs \<Longrightarrow> mset (map f xs) = add_mset (f (xs ! i)) (mset (map f (remove_at i xs)))"
  using mset_remove_at [of i xs] by simp

text \<open>What leaving means for the account that leaves: its deposit is no longer on hold, and it has no role.\<close>

definition has_left :: "('l, 'c) elections_config_scheme \<Rightarrow> account \<Rightarrow> ('l, 'z) elections_state_scheme \<Rightarrow> ('l, 'z) elections_state_scheme \<Rightarrow> bool" where
  "has_left T who s s' \<longleftrightarrow> who \<notin> fst ` set (recorded s') \<and> candidacy_in T (ext s') = (candidacy_in T (ext s))(who := 0)"

lemma renounce_candidate_ok:
  assumes laws: "elections_laws T" and ok: "elections_ok T G s" and run: "renounce_candidate T who n s = (Inr (), s')"
  shows "elections_ok T G s'" "has_left T who s s'"
proof -
  note i = elections_okD [OF ok]
  obtain index m l where c: "search_candidate who (Candidates s) = Inr index"
    and l: "c_release (el_currency T) (ElectionsReason Candidacy) who (snd (Candidates s ! index)) Exact (ext s) = (Inr m, l)"
    and s': "s' = s\<lparr>ext := l, elections_events := elections_events s @ [Renounced who], Candidates := remove_at index (Candidates s)\<rparr>"
    using run by (auto simp: renounce_candidate_def prog_simps elections_access_defs split: sum.splits)
  note f = search_candidate_found [OF c]
  have m: "mset (recorded s) = add_mset (who, snd (Candidates s ! index)) (mset (recorded s'))"
    using mset_remove_at [OF f(1)] f(2) by (cases "Candidates s ! index") (simp add: s' recorded_def implicit_candidates_with_deposit_def)
  note j = deposit_leaves [OF i(3) m]
  show "has_left T who s s'" using j(2,3) i(8) elections_lawsD(2) [OF laws(1) l] by (simp add: has_left_def s')
  show "elections_ok T G s'"
  proof (rule elections_okI [OF ok])
    show "el_candidates.ordered (Candidates s')" using el_candidates.ordered_remove_at [OF i(2)] by (simp add: s')
    show "candidacy_in T (ext s') = deposit_of_candidate (recorded s')"
      using elections_lawsD(2) [OF laws(1) l] i(8) j(4) by (simp add: s')
  qed (use i j(1) elections_lawsD(2) [OF laws(1) l] in \<open>simp_all add: s' length_remove_at [OF f(1)]\<close>)
qed

lemma renounce_runner_up_ok:
  assumes laws: "elections_laws T" and ok: "elections_ok T G s" and run: "renounce_runner_up T who s = (Inr (), s')"
  shows "elections_ok T G s'" "has_left T who s s'"
proof -
  note i = elections_okD [OF ok]
  obtain index m l where c: "List.find (\<lambda>i. sh_who (RunnersUp s ! i) = who) [0..<length (RunnersUp s)] = Some index"
    and l: "c_release (el_currency T) (ElectionsReason Candidacy) who (sh_deposit (RunnersUp s ! index)) Exact (ext s) = (Inr m, l)"
    and s': "s' = s\<lparr>ext := l, elections_events := elections_events s @ [Renounced who], RunnersUp := remove_at index (RunnersUp s)\<rparr>"
    using run by (auto simp: renounce_runner_up_def prog_simps elections_access_defs split: option.splits)
  have f: "index < length (RunnersUp s)" "sh_who (RunnersUp s ! index) = who" using find_index [OF c] by auto
  have m: "mset (recorded s) = add_mset (who, sh_deposit (RunnersUp s ! index)) (mset (recorded s'))"
    using mset_map_remove_at [OF f(1), of "\<lambda>r. (sh_who r, sh_deposit r)"] f(2)
    by (simp add: s' recorded_def implicit_candidates_with_deposit_def)
  note j = deposit_leaves [OF i(3) m]
  show "has_left T who s s'" using j(2,3) i(8) elections_lawsD(2) [OF laws(1) l] by (simp add: has_left_def s')
  show "elections_ok T G s'"
  proof (rule elections_okI [OF ok])
    show "candidacy_in T (ext s') = deposit_of_candidate (recorded s')"
      using elections_lawsD(2) [OF laws(1) l] i(8) j(4) by (simp add: s')
  qed (use i j(1) elections_lawsD(2) [OF laws(1) l] in \<open>simp_all add: s' length_remove_at [OF f(1)]\<close>)
qed

section \<open>Removing and replacing a member\<close>

text \<open>The deposit of the removed member is released or slashed: in both cases the hold falls by it.\<close>

definition without_bond :: "('l, 'c) elections_config_scheme \<Rightarrow> account \<Rightarrow> nat \<Rightarrow> 'l \<Rightarrow> 'l \<Rightarrow> bool" where
  "without_bond T who d l l' \<longleftrightarrow>
     candidacy_in T l' = (candidacy_in T l)(who := candidacy_in T l who - d) \<and> voting_frozen T l' = voting_frozen T l"

lemma slash_bond_of_Inr [prog_simps]:
  "slash_bond_of T who d s = (Inr u, t) \<longleftrightarrow>
     t = s\<lparr>ext := (case c_slash (el_currency T) (ElectionsReason Candidacy) who d (ext s) of (c, l) \<Rightarrow> loser_candidate T c l)\<rparr>"
  by (simp add: slash_bond_of_def on_ledger_Inr)

lemma slash_without_bond:
  assumes "elections_laws T"
  shows "without_bond T who d l (case c_slash (el_currency T) (ElectionsReason Candidacy) who d l of (c, l) \<Rightarrow> loser_candidate T c l)"
  using elections_lawsD(3) [OF assms] elections_lawsD(6,7) [OF assms] by (simp add: without_bond_def split: prod.splits)

lemma settle_bond_effect:
  assumes laws: "elections_laws T" and run: "settle_bond T who slash d s = (Inr u, t)"
  shows "\<exists>l ev. t = s\<lparr>ext := l, elections_events := ev\<rparr> \<and> without_bond T who d (ext s) l"
proof (cases slash)
  case True
  then have "t = s\<lparr>ext := (case c_slash (el_currency T) (ElectionsReason Candidacy) who d (ext s) of (c, l) \<Rightarrow> loser_candidate T c l),
      elections_events := elections_events s @ [SeatHolderSlashed who d]\<rparr>"
    using run by (simp add: settle_bond_def prog_simps deposit_elections_event_def)
  then show ?thesis using slash_without_bond [OF laws] by blast
next
  case False
  then obtain m l where "c_release (el_currency T) (ElectionsReason Candidacy) who d Exact (ext s) = (Inr m, l)" "t = s\<lparr>ext := l\<rparr>"
    using run by (auto simp: settle_bond_def prog_simps)
  then have "t = s\<lparr>ext := l, elections_events := elections_events s\<rparr> \<and> without_bond T who d (ext s) l"
    using elections_lawsD(2) [OF laws] by (simp add: without_bond_def)
  then show ?thesis by blast
qed

lemma report_replacement_effect:
  assumes laws: "elections_laws T" and run: "report_replacement T who x s = (Inr u, t)"
  shows "\<exists>l. t = s\<lparr>ext := l\<rparr> \<and> candidacy_in T l = candidacy_in T (ext s) \<and> voting_frozen T l = voting_frozen T (ext s)"
proof -
  obtain p where "t = s\<lparr>ext := p\<rparr>" and p: "p = change_members_sorted T (case x of Some i \<Rightarrow> [sh_who i] | None \<Rightarrow> []) [who] (members_ids s) (ext s) \<or>
      (\<exists>q. p = set_prime T q (change_members_sorted T (case x of Some i \<Rightarrow> [sh_who i] | None \<Rightarrow> []) [who] (members_ids s) (ext s)))"
    using run by (cases "get_prime T (ext s)") (auto simp: report_replacement_def prog_simps split: if_splits)
  moreover have "candidacy_in T p = candidacy_in T (ext s) \<and> voting_frozen T p = voting_frozen T (ext s)"
    using p elections_lawsD(8-11) [OF laws] by auto
  ultimately show ?thesis by blast
qed

lemma remove_and_replace_effect:
  assumes laws: "elections_laws T" and run: "remove_and_replace_member T who slash s = (Inr b, s')"
  shows "\<exists>index l ev. search_member who (Members s) = Inr index \<and>
    without_bond T who (sh_deposit (Members s ! index)) (ext s) l \<and>
    s' = s\<lparr>ext := l, elections_events := ev, RunnersUp := butlast (RunnersUp s),
      Members := add_replacement (if RunnersUp s = [] then None else Some (last (RunnersUp s))) (remove_at index (Members s))\<rparr>"
proof -
  obtain index where i: "search_member who (Members s) = Inr index"
    using run by (auto simp: remove_and_replace_member_def prog_simps split: sum.splits)
  let ?d = "sh_deposit (Members s ! index)"
  obtain u x where u: "settle_bond T who slash ?d s = (Inr (), u)"
    and x: "report_replacement T who (if RunnersUp u = [] then None else Some (last (RunnersUp u)))
      (u\<lparr>RunnersUp := butlast (RunnersUp u),
         Members := add_replacement (if RunnersUp u = [] then None else Some (last (RunnersUp u))) (remove_at index (Members s))\<rparr>) = (Inr (), s')"
    using run by (auto simp: remove_and_replace_member_def i Let_def prog_simps put_members_def put_runners_up_def)
  from settle_bond_effect [OF laws u] obtain l ev where l: "u = s\<lparr>ext := l, elections_events := ev\<rparr>" "without_bond T who ?d (ext s) l"
    by blast
  from report_replacement_effect [OF laws x] obtain k where
      "s' = u\<lparr>RunnersUp := butlast (RunnersUp u), Members := add_replacement (if RunnersUp u = [] then None else Some (last (RunnersUp u)))
         (remove_at index (Members s)), ext := k\<rparr>"
    and "candidacy_in T k = candidacy_in T (ext u)" "voting_frozen T k = voting_frozen T (ext u)"
    by auto
  then show ?thesis using i l by (intro exI [of _ index] exI [of _ k] exI [of _ ev]) (simp add: without_bond_def)
qed

lemma add_replacement_seats:
  assumes ms: "el_members.ordered ms" and rs: "\<forall>r\<in>set rs. sh_who r \<notin> sh_who ` set ms"
  defines "ms' \<equiv> add_replacement (if rs = [] then None else Some (last rs)) ms"
  shows "el_members.ordered ms'" "mset ms' + mset (butlast rs) = mset ms + mset rs" "length ms' \<le> Suc (length ms)"
proof -
  have "el_members.ordered ms' \<and> mset ms' + mset (butlast rs) = mset ms + mset rs \<and> length ms' \<le> Suc (length ms)"
  proof (cases "rs = []")
    case False
    let ?r = "last rs"
    have "\<not> (\<exists>i. search_member (sh_who ?r) ms = Inr i)" using search_member_iff [OF ms] rs False by simp
    then obtain i where i: "search_member (sh_who ?r) ms = Inl i" by (cases "search_member (sh_who ?r) ms") auto
    then have "ms' = insert_at i ?r ms" using False by (simp add: ms'_def add_replacement_def)
    moreover have "mset rs = add_mset ?r (mset (butlast rs))"
      using False by (metis add.commute append_butlast_last_id mset.simps(1,2) mset_append union_mset_add_mset_left add_0)
    ultimately show ?thesis
      using el_members.ordered_insert_at [OF ms, of ?r i] i
      by (simp add: mset_insert_at length_insert_at search_member_def)
  qed (use ms in \<open>simp add: ms'_def add_replacement_def\<close>)
  then show "el_members.ordered ms'" "mset ms' + mset (butlast rs) = mset ms + mset rs" "length ms' \<le> Suc (length ms)"
    by blast+
qed

lemma remove_and_replace_ok:
  assumes laws: "elections_laws T" and ok: "elections_ok T G s" and run: "remove_and_replace_member T who slash s = (Inr b, s')"
  shows "elections_ok T G s'" "has_left T who s s'"
proof -
  note i = elections_okD [OF ok]
  from remove_and_replace_effect [OF laws run] obtain index l ev where
      x: "search_member who (Members s) = Inr index" and l: "without_bond T who (sh_deposit (Members s ! index)) (ext s) l"
    and s': "s' = s\<lparr>ext := l, elections_events := ev, RunnersUp := butlast (RunnersUp s),
      Members := add_replacement (if RunnersUp s = [] then None else Some (last (RunnersUp s))) (remove_at index (Members s))\<rparr>"
    by blast
  note f = search_member_found [OF x]
  let ?ms = "remove_at index (Members s)" and ?p = "\<lambda>m. (sh_who m, sh_deposit m)"
  have members: "mset (Members s) = add_mset (Members s ! index) (mset ?ms)" by (rule mset_remove_at [OF f(1)])
  have "sh_who r \<notin> sh_who ` set ?ms" if "r \<in> set (RunnersUp s)" for r
  proof -
    have "distinct (members_ids s @ runners_up_ids s)" using i(3) by (simp add: fst_recorded)
    then have "sh_who r \<notin> sh_who ` set (Members s)" using that by (auto simp: members_ids_def runners_up_ids_def)
    moreover have "set ?ms \<subseteq> set (Members s)" using members by (metis set_mset_add_mset_insert set_mset_mset subset_insertI)
    ultimately show ?thesis by blast
  qed
  with add_replacement_seats [OF el_members.ordered_remove_at [OF i(1)]]
  have a: "el_members.ordered (Members s')" "mset (Members s') + mset (RunnersUp s') = mset ?ms + mset (RunnersUp s)"
      "length (Members s') \<le> Suc (length ?ms)"
    by (simp_all add: s')
  have m: "mset (recorded s) = add_mset (who, sh_deposit (Members s ! index)) (mset (recorded s'))"
  proof -
    have "image_mset ?p (mset (Members s') + mset (RunnersUp s')) = image_mset ?p (mset ?ms + mset (RunnersUp s))"
      using a(2) by simp
    then show ?thesis using members f(2) by (simp add: s' recorded_def implicit_candidates_with_deposit_def)
  qed
  note j = deposit_leaves [OF i(3) m]
  show "has_left T who s s'" using l j(2,3) i(8) by (simp add: has_left_def s' without_bond_def)
  show "elections_ok T G s'"
  proof (rule elections_okI [OF ok])
    show "candidacy_in T (ext s') = deposit_of_candidate (recorded s')"
      using l i(8) j(4) by (simp add: s' without_bond_def)
    show "length (Members s') \<le> DesiredMembers T" using a(3) i(4) f(1) by (simp add: length_remove_at)
    show "voting_frozen T (ext s') = voting_frozen T (ext s)" using l by (simp add: s' without_bond_def)
  qed (use i j(1) a(1) in \<open>simp_all add: s'\<close>)
qed

end
