(* ===== verification/Elections_Result.thy ===== *)
theory Elections_Result
  imports Elections_Invariant
begin

text \<open>
  What an election of the pallet \<^verbatim>\<open>elections-phragmen\<close> does: how the winners are divided into members and runners-up, who
  loses the deposit, and that the invariant holds afterwards; and the election of the prime by a Borda count.
\<close>

section \<open>The new seats\<close>

definition members_of :: "('l, 'c) elections_config_scheme \<Rightarrow> (account \<times> nat) list \<Rightarrow> (account \<times> nat) list" where
  "members_of T ns = sort_by (\<lambda>i j. nat_cmp (fst i) (fst j)) (take (min (DesiredMembers T) (length ns)) ns)"

definition runners_of :: "('l, 'c) elections_config_scheme \<Rightarrow> (account \<times> nat) list \<Rightarrow> (account \<times> nat) list" where
  "runners_of T ns = rev (drop (min (DesiredMembers T) (length ns)) ns)"

lemma new_set_of_eq: "new_set_of T ti ws = map (\<lambda>(m, b). (m, to_currency T b ti)) (filter (\<lambda>w. snd w \<noteq> 0) ws)"
  unfolding new_set_of_def by (induction ws) (auto simp: map_filter_simps split: prod.splits)

lemma fst_new_set: "map fst (new_set_of T ti ws) = map fst (filter (\<lambda>w. snd w \<noteq> 0) ws)"
  by (simp add: new_set_of_eq comp_def case_prod_unfold)

lemma new_set_ok:
  assumes "distinct (map fst ws)" "fst ` set ws \<subseteq> A" "length ws \<le> n"
  shows "distinct (map fst (new_set_of T ti ws))" "fst ` set (new_set_of T ti ws) \<subseteq> A" "length (new_set_of T ti ws) \<le> n"
proof -
  show "distinct (map fst (new_set_of T ti ws))" using assms(1) unfolding fst_new_set by (rule distinct_map_filter)
  have "set (map fst (new_set_of T ti ws)) \<subseteq> set (map fst ws)" unfolding fst_new_set by auto
  then show "fst ` set (new_set_of T ti ws) \<subseteq> A" using assms(2) by auto
  show "length (new_set_of T ti ws) \<le> n"
    using assms(3) length_filter_le [of "\<lambda>w. snd w \<noteq> 0" ws] unfolding new_set_of_eq length_map by linarith
qed

lemma mset_new_seats: "mset (members_of T ns) + mset (runners_of T ns) = mset ns"
  using el_candidates.mset_sort_by by (simp add: members_of_def runners_of_def flip: mset_append)

lemma set_new_seats: "set (members_of T ns) \<union> set (runners_of T ns) = set ns"
  using arg_cong [OF mset_new_seats, of set_mset T ns] by simp

lemma new_seats_ok:
  assumes "distinct (map fst ns)"
  shows "el_candidates.ordered (members_of T ns)" "distinct (map fst (members_of T ns @ runners_of T ns))"
    "length (members_of T ns) = min (DesiredMembers T) (length ns)" "length (runners_of T ns) = length ns - DesiredMembers T"
proof -
  have "mset (map fst (members_of T ns @ runners_of T ns)) = mset (map fst ns)"
    using mset_new_seats [of T ns] by (simp flip: image_mset_union)
  then show d: "distinct (map fst (members_of T ns @ runners_of T ns))" using assms mset_eq_imp_distinct_iff by blast
  have "distinct (map fst (take (min (DesiredMembers T) (length ns)) ns))"
    using assms by (metis distinct_take take_map)
  then show "el_candidates.ordered (members_of T ns)" unfolding members_of_def by (rule el_candidates.ordered_sort_by)
  show "length (members_of T ns) = min (DesiredMembers T) (length ns)"
    using arg_cong [OF el_candidates.mset_sort_by, of size "take (min (DesiredMembers T) (length ns)) ns"]
    by (simp add: members_of_def)
  show "length (runners_of T ns) = length ns - DesiredMembers T" by (simp add: runners_of_def)
qed

lemma ordered_ids: "el_candidates.ordered cs \<Longrightarrow> el_ids.ordered (map fst cs)"
  by (simp add: sorted_wrt_map)

lemma ordered_sorted_ids: "distinct ids \<Longrightarrow> el_ids.ordered (sort_by nat_cmp ids)" "set (sort_by nat_cmp ids) = set ids"
  using el_ids.ordered_sort_by [of ids] el_ids.set_sort_by by auto

section \<open>Losing the deposit\<close>

lemma slash_loser_eq:
  assumes "el_ids.ordered ms" "el_ids.ordered rs"
  shows "slash_loser T ms rs (c, d) =
    (if c \<in> set ms \<union> set rs then ok () else seq (slash_bond_of T c d) (deposit_elections_event (CandidateSlashed c d)))"
  using search_id_iff [OF assms(1), of c] search_id_iff [OF assms(2), of c]
  by (auto simp: slash_loser_def split: sum.splits)

lemma slash_losers:
  assumes laws: "elections_laws T" and ids: "el_ids.ordered ms" "el_ids.ordered rs"
  shows "distinct (map fst xs) \<Longrightarrow> \<forall>(c, d)\<in>set xs. candidacy_in T (ext s) c \<le> d \<Longrightarrow>
    \<exists>l ev. for_each xs (slash_loser T ms rs) s = (Inr (), s\<lparr>ext := l, elections_events := ev\<rparr>) \<and>
      voting_frozen T l = voting_frozen T (ext s) \<and>
      candidacy_in T l = (\<lambda>a. if a \<in> fst ` set xs \<and> a \<notin> set ms \<union> set rs then 0 else candidacy_in T (ext s) a)"
proof (induction xs arbitrary: s)
  case Nil
  have "s = s\<lparr>ext := ext s, elections_events := elections_events s\<rparr>" by simp
  then show ?case by (intro exI [of _ "ext s"] exI [of _ "elections_events s"]) (simp add: ok_def)
next
  case (Cons x xs)
  obtain c d where x: "x = (c, d)" by (cases x)
  show ?case
  proof (cases "c \<in> set ms \<union> set rs")
    case True
    then have run: "for_each (x # xs) (slash_loser T ms rs) s = for_each xs (slash_loser T ms rs) s"
      by (simp add: x slash_loser_eq [OF ids] seq_def sbind_def ok_def)
    have eq: "(\<lambda>a. if a \<in> fst ` set (x # xs) \<and> a \<notin> set ms \<union> set rs then 0 else candidacy_in T (ext s) a) =
        (\<lambda>a. if a \<in> fst ` set xs \<and> a \<notin> set ms \<union> set rs then 0 else candidacy_in T (ext s) a)"
      using True by (auto simp: x fun_eq_iff)
    show ?thesis unfolding run eq using Cons.IH [of s] Cons.prems by auto
  next
    case False
    let ?l = "case c_slash (el_currency T) (ElectionsReason Candidacy) c d (ext s) of (k, l) \<Rightarrow> loser_candidate T k l"
    let ?s = "s\<lparr>ext := ?l, elections_events := elections_events s @ [CandidateSlashed c d]\<rparr>"
    have run: "for_each (x # xs) (slash_loser T ms rs) s = for_each xs (slash_loser T ms rs) ?s"
      using False by (simp add: x slash_loser_eq [OF ids] slash_bond_of_def elections_access_defs seq_def sbind_def modify_def)
    have l: "candidacy_in T ?l = (candidacy_in T (ext s))(c := 0)" "voting_frozen T ?l = voting_frozen T (ext s)"
      using slash_without_bond [OF laws, of c d "ext s"] Cons.prems(2) by (auto simp: x without_bond_def fun_eq_iff)
    have "\<forall>(c, d)\<in>set xs. candidacy_in T (ext ?s) c \<le> d" using Cons.prems(2) l(1) by auto
    with Cons.IH [of ?s] Cons.prems(1) obtain k ev where
        "for_each xs (slash_loser T ms rs) ?s = (Inr (), ?s\<lparr>ext := k, elections_events := ev\<rparr>)"
      and k: "voting_frozen T k = voting_frozen T (ext ?s)"
        "candidacy_in T k = (\<lambda>a. if a \<in> fst ` set xs \<and> a \<notin> set ms \<union> set rs then 0 else candidacy_in T (ext ?s) a)"
      by auto
    then have "for_each (x # xs) (slash_loser T ms rs) s = (Inr (), s\<lparr>ext := k, elections_events := ev\<rparr>)" using run by simp
    moreover have "candidacy_in T k = (\<lambda>a. if a \<in> fst ` set (x # xs) \<and> a \<notin> set ms \<union> set rs then 0 else candidacy_in T (ext s) a)"
      using k(2) l(1) False by (auto simp: x fun_eq_iff)
    ultimately show ?thesis using k(1) l(2) by auto
  qed
qed

section \<open>A new term\<close>

text \<open>The winners with their deposits as they are written to the storage.\<close>

lemma seat_holders_simps [simp]:
  "map sh_who (seat_holders cds xs) = map fst xs" "length (seat_holders cds xs) = length xs"
  "map (\<lambda>m. (sh_who m, sh_deposit m)) (seat_holders cds xs) = map (\<lambda>c. (fst c, deposit_of_candidate cds (fst c))) xs"
  by (simp_all add: seat_holders_def comp_def case_prod_unfold)

lemma ordered_seat_holders: "el_candidates.ordered xs \<Longrightarrow> el_members.ordered (seat_holders cds xs)"
  by (simp add: seat_holders_def sorted_wrt_map case_prod_unfold)

definition after_term ::
    "('l, 'c) elections_config_scheme \<Rightarrow> (account \<times> nat) list \<Rightarrow> ('l, 'z) elections_state_scheme \<Rightarrow> ('l, 'z) elections_state_scheme \<Rightarrow> bool" where
  "after_term T ns s s' \<longleftrightarrow>
     Members s' = seat_holders (recorded s) (members_of T ns) \<and> RunnersUp s' = seat_holders (recorded s) (runners_of T ns) \<and>
     Candidates s' = [] \<and> Voting s' = Voting s \<and> block_number s' = block_number s \<and>
     ElectionRounds s' = wrapping_add_u32 (ElectionRounds s) 1 \<and> voting_frozen T (ext s') = voting_frozen T (ext s) \<and>
     candidacy_in T (ext s') = (\<lambda>a. if a \<in> fst ` set ns then candidacy_in T (ext s) a else 0)"

lemma new_term_effect:
  assumes laws: "elections_laws T" and ok: "elections_ok T G s"
    and ws: "distinct (map fst ws)" "fst ` set ws \<subseteq> fst ` set (recorded s)"
  shows "\<exists>s'. new_term T ti (recorded s) vs ws s = (Inr (), s') \<and> after_term T (new_set_of T ti ws) s s'"
proof -
  let ?ns = "new_set_of T ti ws"
  let ?ms = "map fst (members_of T ?ns)" and ?rs = "sort_by nat_cmp (map fst (runners_of T ?ns))"
  note i = elections_okD [OF ok]
  have ns: "distinct (map fst ?ns)" "fst ` set ?ns \<subseteq> fst ` set (recorded s)"
    using new_set_ok [OF ws order_refl] by blast+
  note seats = new_seats_ok [OF ns(1), of T]
  have ids: "el_ids.ordered ?ms" "el_ids.ordered ?rs" "set ?ms \<union> set ?rs = fst ` set ?ns"
    using ordered_ids [OF seats(1)] ordered_sorted_ids [of "map fst (runners_of T ?ns)"] seats(2) set_new_seats [of T ?ns]
    by (auto simp flip: image_Un)
  obtain inc out where d: "compute_members_diff_sorted T ?ms (members_ids s) = (inc, out)" by (cases "compute_members_diff_sorted T ?ms (members_ids s)")
  let ?l = "set_prime T (elect_prime T vs ?ms) (change_members_sorted T inc out ?ms (ext s))"
  let ?s = "s\<lparr>Members := [], RunnersUp := [], ext := ?l\<rparr>"
  have c: "candidacy_in T ?l = candidacy_in T (ext s)" "voting_frozen T ?l = voting_frozen T (ext s)"
    using elections_lawsD(8-11) [OF laws] by simp_all
  have "\<forall>(c, d)\<in>set (recorded s). candidacy_in T (ext ?s) c \<le> d" using c(1) i(8) deposit_in [OF i(3)] by auto
  from slash_losers [OF laws ids(1,2) i(3) this] obtain l ev where
      run: "for_each (recorded s) (slash_loser T ?ms ?rs) ?s = (Inr (), ?s\<lparr>ext := l, elections_events := ev\<rparr>)"
    and k: "voting_frozen T l = voting_frozen T (ext ?s)"
      "candidacy_in T l = (\<lambda>a. if a \<in> fst ` set (recorded s) \<and> a \<notin> set ?ms \<union> set ?rs then 0 else candidacy_in T (ext ?s) a)"
    by blast
  have l: "voting_frozen T l = voting_frozen T (ext s)"
    "candidacy_in T l = (\<lambda>a. if a \<in> fst ` set (recorded s) \<and> a \<notin> fst ` set ?ns then 0 else candidacy_in T (ext s) a)"
    using k c unfolding ids(3) by (simp_all add: fun_eq_iff)
  have "new_term T ti (recorded s) vs ws s = (Inr (), s\<lparr>ext := l, elections_events := ev @ [NewTerm (members_of T ?ns)],
      Members := seat_holders (recorded s) (members_of T ?ns), RunnersUp := seat_holders (recorded s) (runners_of T ?ns),
      Candidates := [], ElectionRounds := wrapping_add_u32 (ElectionRounds s) 1\<rparr>)"
    using run d by (simp add: new_term_def Let_def elections_access_defs prog_defs flip: members_of_def runners_of_def)
  moreover have "candidacy_in T l = (\<lambda>a. if a \<in> fst ` set ?ns then candidacy_in T (ext s) a else 0)"
    using l(2) ns(2) i(8) deposit_out [of _ "recorded s"] by (auto simp: fun_eq_iff)
  ultimately show ?thesis using l(1) by (auto simp: after_term_def)
qed

lemma after_term_ok:
  assumes ok: "elections_ok T G s" and after: "after_term T ns s s'"
    and ns: "distinct (map fst ns)" "fst ` set ns \<subseteq> fst ` set (recorded s)" "length ns \<le> DesiredRunnersUp T + DesiredMembers T"
  shows "elections_ok T G s'"
proof -
  note seats = new_seats_ok [OF ns(1), of T] and i = elections_okD [OF ok]
  have rec: "recorded s' = map (\<lambda>c. (fst c, deposit_of_candidate (recorded s) (fst c))) (members_of T ns @ runners_of T ns)"
    using after by (simp add: after_term_def recorded_def implicit_candidates_with_deposit_def)
  have d: "distinct (map fst (recorded s'))" using seats(2) by (simp add: rec comp_def)
  have keys: "fst ` set (recorded s') = fst ` set ns"
    using arg_cong [OF set_new_seats, of "image fst" T ns] by (simp add: rec image_image image_Un)
  have "deposit_of_candidate (recorded s') a = (if a \<in> fst ` set ns then deposit_of_candidate (recorded s) a else 0)" for a
  proof (cases "a \<in> fst ` set ns")
    case True
    then obtain e where "(a, e) \<in> set (recorded s')" using keys by (metis image_iff prod.collapse)
    moreover from this have "e = deposit_of_candidate (recorded s) a" by (auto simp: rec)
    ultimately show ?thesis using deposit_in [OF d] True by simp
  next
    case False
    then show ?thesis using deposit_out [of a "recorded s'"] by (simp add: keys)
  qed
  then have dep: "deposit_of_candidate (recorded s') = (\<lambda>a. if a \<in> fst ` set ns then deposit_of_candidate (recorded s) a else 0)"
    by (rule ext)
  have "candidacy_in T (ext s') = deposit_of_candidate (recorded s')"
    using after unfolding after_term_def i(8) dep by blast
  then show ?thesis
    by (intro elections_okI [OF ok])
       (use after d ns(3) ordered_seat_holders [OF seats(1)] seats(3,4) in \<open>simp_all add: after_term_def\<close>)
qed

section \<open>The whole election\<close>

definition voters_of :: "('l, 'z) elections_state_scheme \<Rightarrow> (account \<times> nat \<times> account list) list" where
  "voters_of s = map (\<lambda>(a, v). (a, vt_stake v, vt_votes v)) (Voting s)"

lemma collect_voters_eq:
  "length acc \<le> n \<Longrightarrow> collect_voters n acc m =
     (if length acc + length m \<le> n then Some (acc @ map (\<lambda>(a, v). (a, vt_stake v, vt_votes v)) m) else None)"
  by (induction n acc m rule: collect_voters.induct) auto

text \<open>What the election algorithm is run on, and what it returns.\<close>

definition election_winners :: "('l, 'c) elections_config_scheme \<Rightarrow> ('l, 'z) elections_state_scheme \<Rightarrow> (account \<times> nat) list option" where
  "election_winners T s =
     (if length (Voting s) \<le> MaxVoters T
      then seq_phragmen T (wrapping_add_u32 (DesiredRunnersUp T) (DesiredMembers T)) (map fst (recorded s))
             (map (\<lambda>(voter, stake, votes). (voter, to_vote T stake (el_total_issuance T (ext s)), votes)) (voters_of s))
      else None)"

lemma do_phragmen_eq:
  "do_phragmen T s =
     (if recorded s = [] then deposit_elections_event EmptyTerm s
      else case election_winners T s of
          None \<Rightarrow> deposit_elections_event ElectionErrorEvent s
        | Some ws \<Rightarrow> new_term T (el_total_issuance T (ext s)) (recorded s) (voters_of s) ws s)"
  by (auto simp: do_phragmen_def election_winners_def collect_voters_eq voters_of_def Let_def sbind_def gets_def
      simp flip: recorded_def split: option.splits)

lemma winners_ok:
  assumes "elections_laws T" "election_winners T s = Some ws"
  shows "distinct (map fst ws)" "fst ` set ws \<subseteq> fst ` set (recorded s)" "length ws \<le> DesiredRunnersUp T + DesiredMembers T"
proof -
  have "wrapping_add_u32 (DesiredRunnersUp T) (DesiredMembers T) \<le> DesiredRunnersUp T + DesiredMembers T"
    by (simp add: wrapping_add_u32_def)
  then show "distinct (map fst ws)" "fst ` set ws \<subseteq> fst ` set (recorded s)" "length ws \<le> DesiredRunnersUp T + DesiredMembers T"
    using assms(2) elections_lawsD(12) [OF assms(1)]
    by (fastforce simp: election_winners_def split: if_splits)+
qed

lemma do_phragmen_effect:
  assumes laws: "elections_laws T" and ok: "elections_ok T G s"
  obtains (idle) ev where "do_phragmen T s = (Inr (), s\<lparr>elections_events := ev\<rparr>)"
    "recorded s = [] \<or> election_winners T s = None"
  | (elected) ws s' where "election_winners T s = Some ws" "do_phragmen T s = (Inr (), s')"
    "after_term T (new_set_of T (el_total_issuance T (ext s)) ws) s s'" "elections_ok T G s'"
proof (cases "recorded s = [] \<or> election_winners T s = None")
  case True
  then have "\<exists>ev. do_phragmen T s = (Inr (), s\<lparr>elections_events := ev\<rparr>)"
    unfolding do_phragmen_eq by (auto simp: deposit_elections_event_def modify_def)
  then show ?thesis using idle True by blast
next
  case False
  then obtain ws where ws: "election_winners T s = Some ws" by blast
  note w = winners_ok [OF laws ws]
  let ?ti = "el_total_issuance T (ext s)"
  from new_term_effect [OF laws ok w(1,2), of ?ti "voters_of s"] obtain s' where
      s': "new_term T ?ti (recorded s) (voters_of s) ws s = (Inr (), s')" "after_term T (new_set_of T ?ti ws) s s'"
    by blast
  have "elections_ok T G s'" by (rule after_term_ok [OF ok s'(2) new_set_ok [OF w, of T ?ti]])
  then show ?thesis using elected [OF ws _ s'(2)] s'(1) False ws by (simp add: do_phragmen_eq)
qed

lemma elections_ok_events: "elections_ok T G s \<Longrightarrow> elections_ok T G (s\<lparr>elections_events := ev\<rparr>)"
  by (rule elections_okI) (auto dest: elections_okD)

lemma do_phragmen_ok:
  assumes "elections_laws T" "elections_ok T G s" "do_phragmen T s = (Inr u, s')"
  shows "elections_ok T G s'"
  using assms(3) by (cases rule: do_phragmen_effect [OF assms(1,2)]) (auto simp: elections_ok_events [OF assms(2)])

section \<open>Every call and every block\<close>

lemma elections_body_ok:
  assumes laws: "elections_laws T" "MaxCandidates T < u32_max" and ok: "elections_ok T G s"
    and run: "elections_body T orig call s = (Inr (), s')"
  shows "elections_ok T G s'"
proof (cases call)
  case (ElectionVote votes n)
  then show ?thesis using run vote_ok [OF laws(1) ok] by (simp add: elections_body_def)
next
  case RemoveVoter
  then show ?thesis using run do_remove_voter_ok [OF laws(1) ok] by (auto simp: elections_body_def remove_voter_def prog_simps)
next
  case (SubmitCandidacy n)
  then show ?thesis using run submit_candidacy_ok [OF laws ok] by (simp add: elections_body_def)
next
  case (RenounceCandidacy r)
  show ?thesis
  proof (cases r)
    case RenounceMember
    then show ?thesis using run RenounceCandidacy
      by (auto simp: elections_body_def renounce_candidacy_def prog_simps deposit_elections_event_def
          dest!: remove_and_replace_ok(1) [OF laws(1) ok] intro: elections_ok_events)
  next
    case RenounceRunnerUp
    then show ?thesis using run RenounceCandidacy renounce_runner_up_ok(1) [OF laws(1) ok]
      by (auto simp: elections_body_def renounce_candidacy_def prog_simps)
  next
    case (RenounceCandidate n)
    then show ?thesis using run RenounceCandidacy renounce_candidate_ok(1) [OF laws(1) ok]
      by (auto simp: elections_body_def renounce_candidacy_def prog_simps)
  qed
next
  case (RemoveMember target slash rerun)
  then obtain who b u where "remove_and_replace_member T who slash s = (Inr b, u)"
    and u: "(if rerun then do_phragmen T else ok ()) (u\<lparr>elections_events := elections_events u @ [MemberKicked who]\<rparr>) = (Inr (), s')"
    using run by (auto simp: elections_body_def remove_member_def prog_simps deposit_elections_event_def)
  then have "elections_ok T G (u\<lparr>elections_events := elections_events u @ [MemberKicked who]\<rparr>)"
    using elections_ok_events remove_and_replace_ok(1) [OF laws(1) ok] by blast
  then show ?thesis using u do_phragmen_ok [OF laws(1)] by (auto simp: ok_Inr split: if_splits)
next
  case (CleanDefunctVoters n m)
  then show ?thesis using run remove_voters_ok [OF laws(1) ok] by (auto simp: elections_body_def clean_defunct_voters_def prog_simps)
qed

lemma elections_block_ok:
  assumes "elections_laws T" "elections_ok T G s"
  shows "\<exists>s'. elections_on_initialize T n (s\<lparr>block_number := n\<rparr>) = (Inr (), s') \<and> elections_ok T G s'"
proof -
  have ok: "elections_ok T G (s\<lparr>block_number := n\<rparr>)" by (rule elections_okI [OF assms(2)]) (use assms(2) in \<open>auto dest: elections_okD\<close>)
  show ?thesis using ok
    by (cases rule: do_phragmen_effect [OF assms(1) ok]) (auto simp: elections_on_initialize_def ok_def intro: elections_ok_events)
qed

end
