(* ===== verification/Elections_Prime.thy ===== *)
theory Elections_Prime
  imports Elections_Invariant
begin

text \<open>
  The prime of the pallet \<^verbatim>\<open>elections-phragmen\<close>: the loops over the voters and their votes compute the Borda score of
  each new member, and the prime is the member with the greatest score, the last one in a tie.
\<close>

section \<open>The last greatest element\<close>

lemma max_by_key_snoc:
  "max_by_key f (xs @ [x]) = (case max_by_key f xs of None \<Rightarrow> Some x | Some b \<Rightarrow> if f x \<ge> f b then Some x else Some b)"
  by (simp add: max_by_key_def)

lemma max_by_key_last:
  "xs \<noteq> [] \<Longrightarrow> \<exists>i<length xs. max_by_key f xs = Some (xs ! i) \<and>
     (\<forall>j<length xs. f (xs ! j) \<le> f (xs ! i) \<and> (i < j \<longrightarrow> f (xs ! j) < f (xs ! i)))"
proof (induction xs rule: rev_induct)
  case (snoc x xs)
  show ?case
  proof (cases "xs = []")
    case False
    with snoc.IH obtain i where i: "i < length xs" "max_by_key f xs = Some (xs ! i)"
      and best: "\<And>j. j < length xs \<Longrightarrow> f (xs ! j) \<le> f (xs ! i) \<and> (i < j \<longrightarrow> f (xs ! j) < f (xs ! i))"
      by blast
    show ?thesis
    proof (cases "f (xs ! i) \<le> f x")
      case True
      then show ?thesis using i best
        by (intro exI [of _ "length xs"]) (auto simp: max_by_key_snoc nth_append less_Suc_eq intro: order_trans [OF conjunct1 [OF best]])
    next
      case worse: False
      then show ?thesis using i best by (intro exI [of _ i]) (auto simp: max_by_key_snoc nth_append less_Suc_eq)
    qed
  qed (simp add: max_by_key_def)
qed simp

section \<open>The score\<close>

text \<open>What one voter gives to a candidate: for each position of the candidate, the stake times the distance to the limit.\<close>

definition voter_score :: "('l, 'c) elections_config_scheme \<Rightarrow> account \<times> nat \<times> account list \<Rightarrow> account \<Rightarrow> nat" where
  "voter_score T = (\<lambda>(_, stake, votes) c.
     (\<Sum>p<length votes. if votes ! p = c then stake * (MaxVotesPerVoter T - p) else 0))"

definition borda_score :: "('l, 'c) elections_config_scheme \<Rightarrow> (account \<times> nat \<times> account list) list \<Rightarrow> account \<Rightarrow> nat" where
  "borda_score T vs c = (\<Sum>v\<leftarrow>vs. voter_score T v c)"

lemma add_prime_vote_map:
  assumes "el_ids.ordered ids" "p < MaxVotesPerVoter T" "MaxVotesPerVoter T \<le> u32_max"
  shows "add_prime_vote T stake (p, who) (map (\<lambda>c. (c, f c)) ids) =
    map (\<lambda>c. (c, (f(who := min u128_max (f who + stake * (MaxVotesPerVoter T - p)))) c)) ids"
proof -
  have ord: "el_candidates.ordered (map (\<lambda>c. (c, f c)) ids)" using assms(1) by (simp add: sorted_wrt_map)
  have w: "wrapping_sub_u32 (MaxVotesPerVoter T) p = MaxVotesPerVoter T - p"
  proof -
    have "MaxVotesPerVoter T + (2 ^ 32 - p mod 2 ^ 32) = (MaxVotesPerVoter T - p) + 2 ^ 32"
      using assms(2,3) by (simp add: u32_max_def)
    then show ?thesis using assms(3) by (simp only: wrapping_sub_u32_def mod_add_self2) (simp add: u32_max_def)
  qed
  show ?thesis
  proof (cases "search_candidate who (map (\<lambda>c. (c, f c)) ids)")
    case (Inl i)
    then have "who \<notin> set ids" using search_candidate_iff [OF ord, of who] by (simp add: image_image)
    then show ?thesis using Inl by (simp add: add_prime_vote_def)
  next
    case (Inr i)
    then have i: "i < length ids" "ids ! i = who" using search_candidate_found [OF Inr] by auto
    show ?thesis
    proof (rule nth_equalityI)
      fix j
      assume "j < length (add_prime_vote T stake (p, who) (map (\<lambda>c. (c, f c)) ids))"
      then have j: "j < length ids" using Inr by (simp add: add_prime_vote_def Let_def)
      have "j = i \<longleftrightarrow> ids ! j = who"
        using j i el_ids.distinct_keys [OF assms(1)] nth_eq_iff_index_eq [of ids j i] by auto
      then show "add_prime_vote T stake (p, who) (map (\<lambda>c. (c, f c)) ids) ! j =
          map (\<lambda>c. (c, (f(who := min u128_max (f who + stake * (MaxVotesPerVoter T - p)))) c)) ids ! j"
        using i j Inr by (cases "j = i") (simp_all add: add_prime_vote_def Let_def w saturating_add_def)
    qed (simp add: add_prime_vote_def Let_def Inr)
  qed
qed

lemma fold_prime_votes:
  assumes "el_ids.ordered ids" "MaxVotesPerVoter T \<le> u32_max"
  shows "n + length votes \<le> MaxVotesPerVoter T \<Longrightarrow>
    fold (add_prime_vote T stake) (enumerate n votes) (map (\<lambda>c. (c, min u128_max (f c))) ids) =
      map (\<lambda>c. (c, min u128_max (f c + (\<Sum>p<length votes. if votes ! p = c then stake * (MaxVotesPerVoter T - (n + p)) else 0)))) ids"
proof (induction votes arbitrary: n f)
  case (Cons who votes)
  let ?f = "f(who := f who + stake * (MaxVotesPerVoter T - n))"
  have step: "add_prime_vote T stake (n, who) (map (\<lambda>c. (c, min u128_max (f c))) ids) = map (\<lambda>c. (c, min u128_max (?f c))) ids"
    using Cons.prems add_prime_vote_map [OF assms(1) _ assms(2), of n stake who "\<lambda>c. min u128_max (f c)"]
    by (auto simp: min_def)
  have "(\<Sum>p<length (who # votes). if (who # votes) ! p = c then stake * (MaxVotesPerVoter T - (n + p)) else 0) =
      (if who = c then stake * (MaxVotesPerVoter T - n) else 0) +
      (\<Sum>p<length votes. if votes ! p = c then stake * (MaxVotesPerVoter T - (Suc n + p)) else 0)" for c
    by (simp add: sum.lessThan_Suc_shift del: sum.lessThan_Suc cong: if_cong)
  then show ?case using Cons.IH [of "Suc n" ?f] Cons.prems by (auto simp: step add.assoc)
qed simp

lemma count_prime_votes_eq:
  assumes "el_ids.ordered ids" "MaxVotesPerVoter T \<le> u32_max"
  shows "\<forall>(_, _, votes)\<in>set vs. length votes \<le> MaxVotesPerVoter T \<Longrightarrow>
    count_prime_votes T vs (map (\<lambda>c. (c, min u128_max (f c))) ids) = map (\<lambda>c. (c, min u128_max (f c + borda_score T vs c))) ids"
proof (induction vs arbitrary: f)
  case (Cons v vs)
  obtain a stake votes where v: "v = (a, stake, votes)" by (cases v)
  have "count_prime_votes T (v # vs) (map (\<lambda>c. (c, min u128_max (f c))) ids) =
      count_prime_votes T vs (map (\<lambda>c. (c, min u128_max (f c + voter_score T v c))) ids)"
    using fold_prime_votes [OF assms, of 0 votes stake f] Cons.prems by (simp add: count_prime_votes_def v voter_score_def cong: if_cong)
  then show ?case using Cons.IH [of "\<lambda>c. f c + voter_score T v c"] Cons.prems by (simp add: borda_score_def add.assoc)
qed (simp add: count_prime_votes_def borda_score_def)

end
