(* ===== verification/Elections_Claims.thy ===== *)
theory Elections_Claims
  imports Elections_Result Elections_Prime
begin

text \<open>
  The claims about the pallet \<^verbatim>\<open>elections-phragmen\<close>. Its reachable states are those of any sequence of calls and blocks
  after the genesis.
\<close>

section \<open>Reachable states\<close>

definition fresh :: "('l, 'c) elections_config_scheme \<Rightarrow> ('l, 'z) elections_state_scheme \<Rightarrow> bool" where
  "fresh T s \<longleftrightarrow> Members s = [] \<and> RunnersUp s = [] \<and> Candidates s = [] \<and> Voting s = [] \<and>
     candidacy_in T (ext s) = (\<lambda>_. 0) \<and> voting_frozen T (ext s) = (\<lambda>_. 0)"

inductive elections_reachable ::
    "('l, 'c) elections_config_scheme \<Rightarrow> (account \<times> nat) list \<Rightarrow> ('l, 'z) elections_state_scheme \<Rightarrow> bool"
  for T and genesis where
  el_genesis: "fresh T s \<Longrightarrow> elections_genesis_build T genesis s = (Inr (), s') \<Longrightarrow> elections_reachable T genesis s'"
| el_call: "elections_reachable T genesis s \<Longrightarrow> elections_dispatch T orig call s = (r, s') \<Longrightarrow> elections_reachable T genesis s'"
| el_block: "elections_reachable T genesis s \<Longrightarrow>
    elections_on_initialize T (Suc (block_number s)) (s\<lparr>block_number := Suc (block_number s)\<rparr>) = (r, s') \<Longrightarrow>
    elections_reachable T genesis s'"

text \<open>The numbers of the configuration and of the genesis are within their machine types.\<close>

definition elections_limits :: "('l, 'c) elections_config_scheme \<Rightarrow> (account \<times> nat) list \<Rightarrow> bool" where
  "elections_limits T genesis \<longleftrightarrow> MaxCandidates T < u32_max \<and> 0 < MaxVotesPerVoter T \<and> MaxVotesPerVoter T \<le> u32_max \<and>
     length genesis \<le> u32_max"

lemma fresh_ok: "fresh T s \<Longrightarrow> elections_ok T G s"
  by (auto simp: fresh_def elections_ok_def seats_ok_def votes_ok_def freezes_ok_def recorded_def voting_of_def no_voter_def
      implicit_candidates_with_deposit_def deposit_of_candidate_def)

lemma genesis_member_ok:
  assumes ok: "elections_ok T G s" and run: "genesis_member T (who, stake) s = (Inr (), s')"
    and s: "Candidates s = []" "RunnersUp s = []" "voting_frozen T (ext s) = (\<lambda>_. 0)"
    and lim: "who \<in> G" "0 < MaxVotesPerVoter T" "length (Members s) < DesiredMembers T"
  shows "elections_ok T G s'" "ext s' = ext s" "Candidates s' = []" "RunnersUp s' = []" "length (Members s') = Suc (length (Members s))"
proof -
  note i = elections_okD [OF ok]
  let ?m = "\<lparr>sh_who = who, sh_stake = stake, sh_deposit = 0\<rparr>"
  let ?v = "\<lparr>vt_votes = [who], vt_stake = stake, vt_lockup_till = VotingLockPeriod T\<rparr>"
  obtain pos where pos: "search_member who (Members s) = Inl pos"
    and s': "s' = s\<lparr>Members := insert_at pos ?m (Members s), Voting := nmap_insert (voting_hash T) who ?v (Voting s)\<rparr>"
    using run by (auto simp: genesis_member_def prog_simps elections_access_defs split: sum.splits)
  show "ext s' = ext s" "Candidates s' = []" "RunnersUp s' = []" "length (Members s') = Suc (length (Members s))"
    using s by (simp_all add: s' length_insert_at)
  have "who \<notin> fst ` set (recorded s)"
    using pos search_member_iff [OF i(1), of who] s by (auto simp: recorded_def implicit_candidates_with_deposit_def)
  moreover have "mset (recorded s') = add_mset (who, 0) (mset (recorded s))"
    by (simp add: s' recorded_def implicit_candidates_with_deposit_def mset_insert_at)
  ultimately have j: "distinct (map fst (recorded s'))" "deposit_of_candidate (recorded s') = deposit_of_candidate (recorded s)"
    using deposit_joins [OF i(3)] by (auto simp: fun_eq_iff)
  have "el_members.ordered (Members s')"
    using el_members.ordered_insert_at [OF i(1), of ?m pos] pos by (simp add: s' search_member_def)
  then have "seats_ok T s'" using i j(1) s lim(3) by (simp add: seats_ok_def s' length_insert_at)
  moreover have "votes_ok T (Voting s')" using votes_ok_insert [OF i(7), of ?v] lim(2) by (simp add: s')
  moreover have "voting_of s' = (voting_of s)(who := ?v)"
    by (auto simp: s' voting_of_def nm.get_insert)
  then have "freezes_ok T G s'" using i(9) s(3) lim(1) by (simp add: freezes_ok_def s')
  ultimately show "elections_ok T G s'" using i(8) j(2) by (simp add: elections_ok_def s')
qed

lemma genesis_members_ok:
  assumes "0 < MaxVotesPerVoter T"
  shows "elections_ok T G s \<Longrightarrow> for_each ms (genesis_member T) s = (Inr (), s') \<Longrightarrow> Candidates s = [] \<Longrightarrow> RunnersUp s = [] \<Longrightarrow>
    voting_frozen T (ext s) = (\<lambda>_. 0) \<Longrightarrow> fst ` set ms \<subseteq> G \<Longrightarrow> length (Members s) + length ms \<le> DesiredMembers T \<Longrightarrow> elections_ok T G s'"
proof (induction ms arbitrary: s)
  case (Cons m ms)
  obtain who stake where m: "m = (who, stake)" by (cases m)
  obtain u where u: "genesis_member T (who, stake) s = (Inr (), u)" "for_each ms (genesis_member T) u = (Inr (), s')"
    using Cons.prems(2) by (auto simp: m prog_simps)
  have "who \<in> G" "length (Members s) < DesiredMembers T" using Cons.prems(6,7) by (simp_all add: m)
  note g = genesis_member_ok [OF Cons.prems(1) u(1) Cons.prems(3-5) this(1) assms this(2)]
  show ?case by (rule Cons.IH [OF g(1) u(2) g(3,4)]) (use Cons.prems g in simp_all)
qed (simp add: prog_simps)

lemma reachable_elections_ok:
  assumes laws: "elections_laws T" "elections_limits T genesis"
  shows "elections_reachable T genesis s \<Longrightarrow> elections_ok T (fst ` set genesis) s"
proof (induction rule: elections_reachable.induct)
  case (el_genesis s s')
  obtain u where u: "for_each genesis (genesis_member T) s = (Inr (), u)" and len: "as_u32 (length genesis) \<le> DesiredMembers T"
    and s': "s' = u\<lparr>ext := initialize_members T (map fst genesis) (ext u)\<rparr>"
    using el_genesis(2) by (auto simp: elections_genesis_build_def prog_simps)
  have "length genesis \<le> DesiredMembers T" using len laws(2) by (simp add: as_u32_def elections_limits_def u32_max_def)
  then have ok: "elections_ok T (fst ` set genesis) u"
    using el_genesis(1) laws(2) by (intro genesis_members_ok [OF _ fresh_ok u]) (auto simp: fresh_def elections_limits_def)
  show ?case
    by (rule elections_okI [OF ok]) (use ok elections_lawsD(13,14) [OF laws(1)] in \<open>auto simp: s' dest: elections_okD\<close>)
next
  case (el_call s orig call r s')
  show ?case
  proof (cases "elections_body T orig call s")
    case (Pair x t)
    then show ?thesis using el_call.hyps(2) el_call.IH elections_body_ok [OF laws(1) _ el_call.IH, of orig call t] laws(2)
      by (cases x) (auto simp: elections_dispatch_def transactional_def elections_limits_def)
  qed
next
  case (el_block s r s')
  then show ?case using elections_block_ok [OF laws(1) el_block.IH, of "Suc (block_number s)"] by auto
qed

section \<open>A small instance\<close>

text \<open>
  A ledger with what is held for candidacies, frozen for votes and owned in total, and an election that ranks the
  candidates in the order they are given, backed by the stake of those who vote for them.
\<close>

record election_ledger =
  eg_held :: "account \<Rightarrow> nat"
  eg_frozen :: "account \<Rightarrow> nat"
  eg_total :: "account \<Rightarrow> nat"
  eg_prime :: "account option"

definition demo_backing :: "(account \<times> nat \<times> account list) list \<Rightarrow> account \<Rightarrow> nat" where
  "demo_backing vs c = (\<Sum>(_, n, votes)\<leftarrow>vs. if c \<in> set votes then n else 0)"

definition demo_elections :: "election_ledger elections_config" where
  "demo_elections =
     \<lparr>el_currency =
        \<lparr>c_balance_on_hold = (\<lambda>r a l. eg_held l a),
         c_hold = (\<lambda>r a n l. (Inr (), l\<lparr>eg_held := (eg_held l)(a := eg_held l a + n)\<rparr>)),
         c_release = (\<lambda>r a n p l. if n \<le> eg_held l a then (Inr n, l\<lparr>eg_held := (eg_held l)(a := eg_held l a - n)\<rparr>) else (Inl (External 0), l)),
         c_transfer = (\<lambda>a b n p l. (Inl (External 0), l)),
         c_transfer_and_hold = (\<lambda>r a b n p l. (Inl (External 0), l)),
         c_transfer_on_hold = (\<lambda>r a b n p l. (Inl (External 0), l)),
         c_total_balance = (\<lambda>a l. eg_total l a),
         c_balance_frozen = (\<lambda>r a l. eg_frozen l a),
         c_extend_freeze = (\<lambda>r a n l. (Inr (), l\<lparr>eg_frozen := (eg_frozen l)(a := max (eg_frozen l a) n)\<rparr>)),
         c_set_freeze = (\<lambda>r a n l. (Inr (), l\<lparr>eg_frozen := (eg_frozen l)(a := n)\<rparr>)),
         c_thaw = (\<lambda>r a l. (Inr (), l\<lparr>eg_frozen := (eg_frozen l)(a := 0)\<rparr>)),
         c_slash = (\<lambda>r a n l. (min n (eg_held l a), l\<lparr>eg_held := (eg_held l)(a := eg_held l a - n),
           eg_total := (eg_total l)(a := eg_total l a - min n (eg_held l a))\<rparr>))\<rparr>,
      el_minimum_balance = 1,
      el_balance = (\<lambda>a l. eg_total l a),
      el_total_issuance = (\<lambda>l. 1000),
      el_lookup = Some,
      change_members_sorted = (\<lambda>i out ms l. l\<lparr>eg_prime := None\<rparr>),
      compute_members_diff_sorted = (\<lambda>new old. (filter (\<lambda>a. a \<notin> set old) new, filter (\<lambda>a. a \<notin> set new) old)),
      set_prime = (\<lambda>p l. l\<lparr>eg_prime := p\<rparr>),
      get_prime = eg_prime,
      initialize_members = (\<lambda>ids l. l),
      to_vote = (\<lambda>n _. n),
      to_currency = (\<lambda>n _. n),
      seq_phragmen = (\<lambda>n cs vs. Some (map (\<lambda>c. (c, demo_backing vs c)) (take n (remdups cs)))),
      loser_candidate = (\<lambda>n l. l),
      voting_hash = (\<lambda>a. a),
      CandidacyBond = 10, DesiredMembers = 1, DesiredRunnersUp = 1, TermDuration = 5, VotingLockPeriod = 3,
      MaxCandidates = 4, MaxVoters = 10, MaxVotesPerVoter = 2\<rparr>"

lemma demo_elections_laws: "elections_laws demo_elections"
proof -
  have "distinct (map fst (map (\<lambda>c. (c, demo_backing vs c)) (take n (remdups cs)))) \<and>
      fst ` set (map (\<lambda>c. (c, demo_backing vs c)) (take n (remdups cs))) \<subseteq> set cs \<and>
      length (map (\<lambda>c. (c, demo_backing vs c)) (take n (remdups cs))) \<le> n" for n vs and cs :: "account list"
    using set_take_subset [of n "remdups cs"] by (auto simp: comp_def image_image)
  then show ?thesis
    unfolding elections_laws_def candidacy_in_def voting_frozen_def
    by (auto simp: demo_elections_def fun_eq_iff split: if_splits)
qed

text \<open>Account 1 is a member of the genesis; accounts 2 and 3 become candidates, and account 5 votes for both.\<close>

definition demo_fresh :: "election_ledger elections_state" where
  "demo_fresh =
     \<lparr>block_number = 0, ext = \<lparr>eg_held = (\<lambda>_. 0), eg_frozen = (\<lambda>_. 0), eg_total = (\<lambda>_. 50), eg_prime = None\<rparr>,
      Members = [], RunnersUp = [], Candidates = [], ElectionRounds = 0, Voting = [], elections_events = []\<rparr>"

definition demo_genesis :: "election_ledger elections_state" where
  "demo_genesis = demo_fresh
     \<lparr>Members := [\<lparr>sh_who = 1, sh_stake = 20, sh_deposit = 0\<rparr>],
      Voting := [(1, \<lparr>vt_votes = [1], vt_stake = 20, vt_lockup_till = 3\<rparr>)]\<rparr>"

definition demo_candidate :: "election_ledger elections_state" where
  "demo_candidate = demo_genesis\<lparr>ext := (ext demo_genesis)\<lparr>eg_held := (\<lambda>_. 0)(2 := 10)\<rparr>, Candidates := [(2, 10)]\<rparr>"

definition demo_candidates :: "election_ledger elections_state" where
  "demo_candidates = demo_candidate
     \<lparr>ext := (ext demo_genesis)\<lparr>eg_held := (\<lambda>_. 0)(2 := 10, 3 := 10)\<rparr>, Candidates := [(2, 10), (3, 10)]\<rparr>"

definition demo_seats :: "election_ledger elections_state" where
  "demo_seats = demo_candidates
     \<lparr>ext := (ext demo_candidates)\<lparr>eg_frozen := (\<lambda>_. 0)(5 := 7)\<rparr>,
      Voting := [(1, \<lparr>vt_votes = [1], vt_stake = 20, vt_lockup_till = 3\<rparr>), (5, \<lparr>vt_votes = [3, 2], vt_stake = 7, vt_lockup_till = 3\<rparr>)]\<rparr>"

lemmas demo_state_defs = demo_seats_def demo_candidates_def demo_candidate_def demo_genesis_def demo_fresh_def

lemmas demo_run_defs =
  demo_state_defs demo_elections_def elections_dispatch_def elections_body_def prog_defs elections_access_defs with_error_def
  search_member_def search_candidate_def binary_search_by_def search_loop.simps nat_cmp_def insert_at_def remove_at_def
  nmap_insert_def nmap_remove_def nmap_get_def voting_of_def no_voter_def is_member_def is_runner_up_def is_election_candidate_def
  as_u32_def saturating_add_u32_def wrapping_add_u32_def u32_max_def

lemma demo_genesis_run: "elections_genesis_build demo_elections [(1, 20)] demo_fresh = (Inr (), demo_genesis)"
  by (simp add: elections_genesis_build_def genesis_member_def demo_run_defs)

lemma demo_submit_run:
  "elections_dispatch demo_elections (Signed 2) (SubmitCandidacy 0) demo_genesis = (Inr (), demo_candidate)"
  "elections_dispatch demo_elections (Signed 3) (SubmitCandidacy 1) demo_candidate = (Inr (), demo_candidates)"
  by (simp_all add: submit_candidacy_def ensure_signed_def demo_run_defs)

lemma demo_vote_run: "elections_dispatch demo_elections (Signed 5) (ElectionVote [3, 2] 7) demo_candidates = (Inr (), demo_seats)"
  by (simp add: el_vote_def ensure_signed_def demo_run_defs)

lemma demo_seats_reachable: "elections_reachable demo_elections [(1, 20)] demo_seats"
proof -
  have "fresh demo_elections demo_fresh"
    by (simp add: fresh_def candidacy_in_def voting_frozen_def demo_elections_def demo_fresh_def fun_eq_iff)
  then show ?thesis
    using el_call [OF el_call [OF el_call [OF el_genesis [OF _ demo_genesis_run] demo_submit_run(1)] demo_submit_run(2)] demo_vote_run]
    by blast
qed

lemma demo_elections_limits: "elections_limits demo_elections [(1, 20)]"
  by (simp add: elections_limits_def demo_elections_def u32_max_def)

section \<open>The claims\<close>

text \<open>
  C13. In every reachable state the checks of the pallet on its members and candidates succeed (sorted by account; candidates
  and runners-up disjoint; members disjoint from both), and more is true: no account has two roles or the same role
  twice, there are never more members and runners-up than desired, and at most one candidate more than \<open>MaxCandidates\<close>.
\<close>

theorem roles_stay_disjoint:
  assumes "elections_laws T" "elections_limits T genesis" "elections_reachable T genesis s"
  shows "try_state_members s = Inr () \<and> try_state_candidates s = Inr () \<and>
    try_state_candidates_runners_up_disjoint s = Inr () \<and> try_state_members_disjoint s = Inr () \<and>
    distinct (candidates_ids s @ members_ids s @ runners_up_ids s) \<and> length (Members s) \<le> elections_max_len T \<and>
    length (RunnersUp s) \<le> DesiredRunnersUp T \<and> length (Candidates s) \<le> Suc (MaxCandidates T)"
proof -
  note i = elections_okD [OF reachable_elections_ok [OF assms]]
  have d: "distinct (candidates_ids s @ members_ids s @ runners_up_ids s)" using i(3) unfolding fst_recorded .
  have "try_state_members s = Inr ()" "try_state_candidates s = Inr ()"
    using el_members.sort_by_ordered [OF i(1)] el_candidates.sort_by_ordered [OF i(2)]
    by (simp_all add: try_state_members_def try_state_candidates_def)
  moreover have "\<not> intersects (candidates_ids s) (runners_up_ids s)" "\<not> intersects (members_ids s) (candidates_ids s)"
    using d by (auto simp: intersects_def)
  ultimately show ?thesis using d i(4-6)
    by (simp add: try_state_candidates_runners_up_disjoint_def try_state_members_disjoint_def elections_max_len_def)
qed

theorem roles_stay_disjoint_witness:
  "try_state_members demo_seats = Inr () \<and> distinct (candidates_ids demo_seats @ members_ids demo_seats @ runners_up_ids demo_seats)"
  using roles_stay_disjoint [OF demo_elections_laws demo_elections_limits demo_seats_reachable] by blast

text \<open>
  C14. In every reachable state exactly the recorded deposits are on hold for candidacies: an account that is a candidate, a
  member or a runner-up has its recorded deposit on hold, everybody else has nothing on hold.
\<close>

theorem candidacy_deposits_backed:
  assumes "elections_laws T" "elections_limits T genesis" "elections_reachable T genesis s"
  shows "(\<forall>(a, d)\<in>set (Candidates s). candidacy_in T (ext s) a = d) \<and>
    (\<forall>m\<in>set (Members s) \<union> set (RunnersUp s). candidacy_in T (ext s) (sh_who m) = sh_deposit m) \<and>
    (\<forall>a. a \<notin> set (candidates_ids s @ members_ids s @ runners_up_ids s) \<longrightarrow> candidacy_in T (ext s) a = 0)"
proof -
  note i = elections_okD [OF reachable_elections_ok [OF assms]]
  have hold: "candidacy_in T (ext s) a = d" if "(a, d) \<in> set (recorded s)" for a d using deposit_in [OF i(3) that] i(8) by simp
  have none: "candidacy_in T (ext s) a = 0" if "a \<notin> set (map fst (recorded s))" for a
    using deposit_out [of a "recorded s"] that i(8) by simp
  show ?thesis using hold none unfolding fst_recorded [symmetric]
    by (auto simp: recorded_def implicit_candidates_with_deposit_def)
qed

theorem candidacy_deposits_backed_witness:
  "candidacy_in demo_elections (ext demo_seats) 3 = 10 \<and> candidacy_in demo_elections (ext demo_seats) 5 = 0"
  using candidacy_deposits_backed [OF demo_elections_laws demo_elections_limits demo_seats_reachable]
  by (simp add: demo_state_defs candidates_ids_def members_ids_def runners_up_ids_def)

definition has_role :: "renouncing \<Rightarrow> account \<Rightarrow> ('l, 'z) elections_state_scheme \<Rightarrow> bool" where
  "has_role r who s = (case r of
      RenounceMember \<Rightarrow> who \<in> set (members_ids s)
    | RenounceRunnerUp \<Rightarrow> who \<in> set (runners_up_ids s)
    | RenounceCandidate n \<Rightarrow> who \<in> set (candidates_ids s) \<and> length (Candidates s) \<le> n)"

definition releases_holds :: "('l, 'c) elections_config_scheme \<Rightarrow> bool" where
  "releases_holds T \<longleftrightarrow> (\<forall>who n l. n \<le> candidacy_in T l who \<longrightarrow>
     (\<exists>m l'. c_release (el_currency T) (ElectionsReason Candidacy) who n Exact l = (Inr m, l')))"

lemma release_bond_succeeds:
  "releases_holds T \<Longrightarrow> d \<le> candidacy_in T (ext s) who \<Longrightarrow> \<exists>t. release_bond T who d s = (Inr (), t)"
  by (fastforce simp: releases_holds_def release_bond_Inr)

lemma report_replacement_succeeds: "\<exists>t. report_replacement T who x s = (Inr (), t)"
  by (cases "get_prime T (ext s)") (auto simp: report_replacement_def prog_defs on_ledger_def)

lemma renounce_runs:
  assumes ok: "elections_ok T G s" and rel: "releases_holds T" and role: "has_role r who s"
  shows "\<exists>s'. renounce_candidacy T (Signed who) r s = (Inr (), s')"
proof -
  note i = elections_okD [OF ok]
  have held: "d \<le> candidacy_in T (ext s) who" if "(who, d) \<in> set (recorded s)" for d using deposit_in [OF i(3) that] i(8) by simp
  show ?thesis
  proof (cases r)
    case RenounceMember
    then obtain x where x: "search_member who (Members s) = Inr x"
      using role search_member_iff [OF i(1), of who] by (auto simp: has_role_def members_ids_def)
    then have "(who, sh_deposit (Members s ! x)) \<in> set (recorded s)"
      using search_member_found [OF x] by (force simp: recorded_def implicit_candidates_with_deposit_def)
    with release_bond_succeeds [OF rel held] obtain u where u: "settle_bond T who False (sh_deposit (Members s ! x)) s = (Inr (), u)"
      by (auto simp: settle_bond_def)
    let ?nb = "if RunnersUp u = [] then None else Some (last (RunnersUp u))"
    obtain t where "report_replacement T who ?nb
        (u\<lparr>RunnersUp := butlast (RunnersUp u), Members := add_replacement ?nb (remove_at x (Members s))\<rparr>) = (Inr (), t)"
      using report_replacement_succeeds by blast
    then have "\<exists>b t. remove_and_replace_member T who False s = (Inr b, t)"
      using u x by (simp add: remove_and_replace_member_def prog_simps Let_def put_members_def put_runners_up_def)
    then show ?thesis by (auto simp: RenounceMember renounce_candidacy_def prog_simps deposit_elections_event_def)
  next
    case RenounceRunnerUp
    then obtain j where "j < length (RunnersUp s)" "sh_who (RunnersUp s ! j) = who"
      using role by (auto simp: has_role_def runners_up_ids_def in_set_conv_nth)
    then obtain x where x: "List.find (\<lambda>i. sh_who (RunnersUp s ! i) = who) [0..<length (RunnersUp s)] = Some x"
      by (cases "List.find (\<lambda>i. sh_who (RunnersUp s ! i) = who) [0..<length (RunnersUp s)]") (auto simp: find_None_iff)
    then have "(who, sh_deposit (RunnersUp s ! x)) \<in> set (recorded s)"
      using find_index [OF x] by (force simp: recorded_def implicit_candidates_with_deposit_def)
    with release_bond_succeeds [OF rel held] show ?thesis
      by (auto simp: RenounceRunnerUp renounce_candidacy_def renounce_runner_up_def x prog_simps elections_access_defs)
  next
    case (RenounceCandidate n)
    then obtain x where x: "search_candidate who (Candidates s) = Inr x"
      using role search_candidate_iff [OF i(2), of who] by (auto simp: has_role_def candidates_ids_def)
    then have "(who, snd (Candidates s ! x)) \<in> set (recorded s)"
      using search_candidate_found [OF x] by (auto simp: recorded_def)
    moreover have "as_u32 (length (Candidates s)) \<le> n"
      using role RenounceCandidate order_trans [OF mod_less_eq_dividend] by (auto simp: has_role_def as_u32_def)
    ultimately show ?thesis using release_bond_succeeds [OF rel held]
      by (auto simp: RenounceCandidate renounce_candidacy_def renounce_candidate_def x prog_simps elections_access_defs)
  qed
qed

text \<open>
  What tells a release from a slash: the total balance of an account, held or not. A release only moves tokens from the hold
  to the free balance, a slash takes its credit out of the account; the collective's hooks move no tokens.
\<close>

definition owned :: "('l, 'c) elections_config_scheme \<Rightarrow> 'l \<Rightarrow> account \<Rightarrow> nat" where
  "owned T l a = c_total_balance (el_currency T) a l"

definition ownership_laws :: "('l, 'c) elections_config_scheme \<Rightarrow> bool" where
  "ownership_laws T \<longleftrightarrow>
     (\<forall>who n l m l'. c_release (el_currency T) (ElectionsReason Candidacy) who n Exact l = (Inr m, l') \<longrightarrow> owned T l' = owned T l) \<and>
     (\<forall>who n l c l'. c_slash (el_currency T) (ElectionsReason Candidacy) who n l = (c, l') \<longrightarrow>
        c = min n (candidacy_in T l who) \<and> owned T l' = (owned T l)(who := owned T l who - c)) \<and>
     (\<forall>p l. owned T (set_prime T p l) = owned T l) \<and>
     (\<forall>i out ms l. owned T (change_members_sorted T i out ms l) = owned T l)"

lemma keeps_owned_ledger:
  assumes "\<And>l. owned T (f l) = owned T l"
  shows "keeps (\<lambda>s. owned T (ext s) = o0) (on_ledger f)"
  using assms by (auto simp: keeps_def on_ledger_def prog_defs)

lemma renouncing_keeps_owned:
  assumes laws: "ownership_laws T" and run: "renounce_candidacy T (Signed who) r s = (Inr (), s')"
  shows "owned T (ext s') = owned T (ext s)"
proof -
  have release: "owned T (ext v) = owned T (ext u)" if "release_bond T who d u = (Inr x, v)" for d u v x
    using that laws by (auto simp: release_bond_Inr ownership_laws_def)
  show ?thesis
  proof (cases r)
    case RenounceMember
    then obtain b u where u: "remove_and_replace_member T who False s = (Inr b, u)" "ext s' = ext u"
      using run by (auto simp: renounce_candidacy_def prog_simps deposit_elections_event_def)
    then obtain i where i: "search_member who (Members s) = Inr i"
      by (auto simp: remove_and_replace_member_def prog_simps split: sum.splits)
    let ?x = "\<lambda>v. if RunnersUp v = [] then None else Some (last (RunnersUp v))"
    let ?w = "\<lambda>v. v\<lparr>RunnersUp := butlast (RunnersUp v), Members := add_replacement (?x v) (remove_at i (Members s))\<rparr>"
    obtain v where v: "release_bond T who (sh_deposit (Members s ! i)) s = (Inr (), v)"
      and w: "report_replacement T who (?x v) (?w v) = (Inr (), u)"
      using u(1) by (auto simp: remove_and_replace_member_def settle_bond_def i Let_def put_members_def put_runners_up_def
          seq_Inr sbind_Inr gets_Inr modify_Inr ok_Inr)
    have "keeps (\<lambda>s. owned T (ext s) = owned T (ext v)) (report_replacement T who (?x v))"
      unfolding report_replacement_def using laws
      by (intro keeps_rules keeps_owned_ledger) (auto simp: ownership_laws_def)
    from keepsD [OF this _ w] show ?thesis using release [OF v] u(2) by simp
  next
    case RenounceRunnerUp
    then show ?thesis using run laws
      by (auto simp: renounce_candidacy_def renounce_runner_up_def prog_simps elections_access_defs ownership_laws_def split: option.splits)
  next
    case (RenounceCandidate n)
    then show ?thesis using run laws
      by (auto simp: renounce_candidacy_def renounce_candidate_def prog_simps elections_access_defs ownership_laws_def split: sum.splits)
  qed
qed

text \<open>
  C16. Nobody's deposit is trapped. In every reachable state each candidate, runner-up and member can renounce with the
  matching kind of renouncing. The call takes the whole deposit off hold while every account keeps its total balance, so that
  the deposit is back in the owner's free balance (a slash would lower the total); it touches no other hold and leaves the
  account without a role.
\<close>

theorem renouncing_returns_deposit:
  assumes laws: "elections_laws T" "elections_limits T genesis" "releases_holds T" "ownership_laws T"
    and reach: "elections_reachable T genesis s" and role: "has_role r who s"
  shows "\<exists>s'. elections_dispatch T (Signed who) (RenounceCandidacy r) s = (Inr (), s') \<and>
    candidacy_in T (ext s') = (candidacy_in T (ext s))(who := 0) \<and> owned T (ext s') = owned T (ext s) \<and>
    who \<notin> set (candidates_ids s' @ members_ids s' @ runners_up_ids s')"
proof -
  note ok = reachable_elections_ok [OF laws(1,2) reach]
  obtain s' where run: "renounce_candidacy T (Signed who) r s = (Inr (), s')" using renounce_runs [OF ok laws(3) role] by blast
  have "has_left T who s s'"
  proof (cases r)
    case RenounceMember
    then obtain b u where u: "remove_and_replace_member T who False s = (Inr b, u)"
        "s' = u\<lparr>elections_events := elections_events u @ [Renounced who]\<rparr>"
      using run by (auto simp: renounce_candidacy_def prog_simps deposit_elections_event_def)
    then show ?thesis using remove_and_replace_ok(2) [OF laws(1) ok u(1)] by (simp add: has_left_def)
  next
    case RenounceRunnerUp
    then show ?thesis using run renounce_runner_up_ok(2) [OF laws(1) ok] by (auto simp: renounce_candidacy_def prog_simps)
  next
    case (RenounceCandidate n)
    then show ?thesis using run renounce_candidate_ok(2) [OF laws(1) ok] by (auto simp: renounce_candidacy_def prog_simps)
  qed
  then show ?thesis using run renouncing_keeps_owned [OF laws(4) run] unfolding has_left_def fst_recorded [symmetric]
    by (simp add: elections_dispatch_def elections_body_def prog_simps)
qed

theorem renouncing_returns_deposit_witness:
  "\<exists>s'. elections_dispatch demo_elections (Signed 3) (RenounceCandidacy (RenounceCandidate 2)) demo_seats = (Inr (), s') \<and>
     candidacy_in demo_elections (ext s') 3 = 0 \<and> owned demo_elections (ext s') 3 = 50"
proof -
  have "releases_holds demo_elections" by (simp add: releases_holds_def candidacy_in_def demo_elections_def)
  moreover have "ownership_laws demo_elections"
    by (auto simp: ownership_laws_def owned_def candidacy_in_def demo_elections_def fun_eq_iff split: if_splits)
  moreover have "owned demo_elections (ext demo_seats) 3 = 50" by (simp add: owned_def demo_elections_def demo_state_defs)
  moreover have "has_role (RenounceCandidate 2) 3 demo_seats" by (simp add: has_role_def candidates_ids_def demo_state_defs)
  ultimately show ?thesis
    using renouncing_returns_deposit [OF demo_elections_laws demo_elections_limits _ _ demo_seats_reachable] by fastforce
qed




text \<open>
  C20. The prime is the winner of the Borda count: when there are members, the prime is a member with the greatest score, counting
  each vote at position \<open>p\<close> with \<open>MaxVotesPerVoter - p\<close> times the stake of the voter (up to the greatest balance), and among
  the members with that score the one with the greatest account.
\<close>

theorem prime_wins_borda_count:
  assumes ids: "el_ids.ordered ids" "ids \<noteq> []" and lim: "MaxVotesPerVoter T \<le> u32_max"
    and votes: "\<forall>(_, _, votes)\<in>set vs. length votes \<le> MaxVotesPerVoter T"
  shows "\<exists>p\<in>set ids. elect_prime T vs ids = Some p \<and>
    (\<forall>c\<in>set ids. min u128_max (borda_score T vs c) \<le> min u128_max (borda_score T vs p) \<and>
       (min u128_max (borda_score T vs c) = min u128_max (borda_score T vs p) \<longrightarrow> c \<le> p))"
proof -
  let ?f = "\<lambda>c. min u128_max (borda_score T vs c)" and ?xs = "map (\<lambda>c. (c, min u128_max (borda_score T vs c))) ids"
  have "count_prime_votes T vs (map (\<lambda>c. (c, 0)) ids) = ?xs"
    using count_prime_votes_eq [OF ids(1) lim votes, of "\<lambda>_. 0"] by simp
  moreover obtain i where i: "i < length ids" "max_by_key snd ?xs = Some (?xs ! i)"
    and best: "\<And>j. j < length ids \<Longrightarrow> ?f (ids ! j) \<le> ?f (ids ! i) \<and> (i < j \<longrightarrow> ?f (ids ! j) < ?f (ids ! i))"
    using max_by_key_last [of ?xs snd] ids(2) by auto
  ultimately have p: "elect_prime T vs ids = Some (ids ! i)" by (simp add: elect_prime_def)
  have "?f c \<le> ?f (ids ! i) \<and> (?f c = ?f (ids ! i) \<longrightarrow> c \<le> ids ! i)" if c: "c \<in> set ids" for c
  proof -
    obtain j where j: "j < length ids" "c = ids ! j" using c by (auto simp: in_set_conv_nth)
    have "c \<le> ids ! i" if "j \<le> i" using that el_ids.ordered_nth [OF ids(1), of j i] i(1) by (cases "j = i") (auto simp: j(2))
    then show ?thesis using best [OF j(1)] j(2) by (metis less_irrefl not_le_imp_less)
  qed
  then show ?thesis using p i(1) nth_mem by blast
qed

theorem prime_wins_borda_count_witness: "elect_prime demo_elections (voters_of demo_seats) [2, 3] = Some 3"
proof -
  have v: "voters_of demo_seats = [(1, 20, [1]), (5, 7, [3, 2])]" by (simp add: voters_of_def demo_state_defs)
  have "borda_score demo_elections (voters_of demo_seats) 2 = 7" "borda_score demo_elections (voters_of demo_seats) 3 = 14"
    by (simp_all add: v borda_score_def voter_score_def demo_elections_def numeral_2_eq_2)
  then show ?thesis
    using prime_wins_borda_count [of "[2, 3]" demo_elections "voters_of demo_seats"]
    by (auto simp: v demo_elections_def u32_max_def u128_max_def)
qed

lemma keeps_voting [keeps_rules]:
  "keeps (\<lambda>s. Voting s = m) (deposit_elections_event e)" "keeps (\<lambda>s. Voting s = m) (put_members ms)"
  "keeps (\<lambda>s. Voting s = m) (put_runners_up rs)" "keeps (\<lambda>s. Voting s = m) (put_candidates cs)"
  "keeps (\<lambda>s. Voting s = m) (on_ledger f)" "keeps (\<lambda>s. Voting s = m) (on_ext k)"
  by (auto simp: keeps_def elections_access_defs prog_defs split: prod.splits)

lemma keeps_with_error [keeps_rules]: "keeps P k \<Longrightarrow> keeps P (with_error e k)"
  unfolding with_error_def by (rule keeps_map_err)

lemma keeps_sum [keeps_rules]:
  "(\<And>a. x = Inl a \<Longrightarrow> keeps P (f a)) \<Longrightarrow> (\<And>b. x = Inr b \<Longrightarrow> keeps P (g b)) \<Longrightarrow> keeps P (case x of Inl a \<Rightarrow> f a | Inr b \<Rightarrow> g b)"
  by (cases x) simp_all

lemma keeps_voting_seats [keeps_rules]:
  "keeps (\<lambda>s. Voting s = m) (release_bond T who d)" "keeps (\<lambda>s. Voting s = m) (slash_bond_of T who d)"
  "keeps (\<lambda>s. Voting s = m) (report_replacement T who x)"
  unfolding release_bond_def slash_bond_of_def report_replacement_def by (intro keeps_rules)+

lemma keeps_voting_removal [keeps_rules]: "keeps (\<lambda>s. Voting s = m) (remove_and_replace_member T who slash)"
  unfolding remove_and_replace_member_def settle_bond_def Let_def by (intro keeps_rules)

lemma keeps_voting_submit: "keeps (\<lambda>s. Voting s = m) (submit_candidacy T orig n)"
  unfolding submit_candidacy_def by (intro keeps_rules)

lemma keeps_voting_renounce: "keeps (\<lambda>s. Voting s = m) (renounce_candidacy T orig r)"
  unfolding renounce_candidacy_def renounce_runner_up_def renounce_candidate_def
  by (cases r; simp only: renouncing.case; intro keeps_rules)

lemma do_phragmen_voting:
  assumes "elections_laws T" "elections_ok T G s" "do_phragmen T s = (Inr u, s')"
  shows "Voting s' = Voting s"
  using assms(3) by (cases rule: do_phragmen_effect [OF assms(1,2)]) (auto simp: after_term_def)

lemma voting_of_call:
  assumes laws: "elections_laws T" and ok: "elections_ok T G s" and run: "elections_body T orig call s = (Inr (), s')"
    and call: "\<forall>n m. call \<noteq> CleanDefunctVoters n m"
  shows "voting_of s' = voting_of s \<or> (\<exists>who. orig = Signed who \<and> call = RemoveVoter \<and> can_unlock who s \<and> voting_of s' = (voting_of s)(who := no_voter)) \<or>
    (\<exists>who votes n. orig = Signed who \<and> call = ElectionVote votes n \<and> voting_of s' = (voting_of s)(who := new_vote T who votes n s) \<and>
      (block_number s < vt_lockup_till (voting_of s who) \<longrightarrow> vt_stake (voting_of s who) \<le> n))"
proof -
  show ?thesis
  proof (cases call)
    case (ElectionVote votes n)
    then have "el_vote T orig votes n s = (Inr (), s')" using run by (simp add: elections_body_def)
    from el_vote_effect [OF this] obtain who l where w: "orig = Signed who"
      and n: "block_number s < vt_lockup_till (voting_of s who) \<longrightarrow> vt_stake (voting_of s who) \<le> n"
      and s': "s' = s\<lparr>ext := l, Voting := nmap_insert (voting_hash T) who (new_vote T who votes n s) (Voting s)\<rparr>"
      by blast
    have "voting_of s' = (voting_of s)(who := new_vote T who votes n s)" unfolding s' by (rule voting_of_update)
    then show ?thesis using ElectionVote w n by blast
  next
    case RemoveVoter
    then obtain who l where w: "orig = Signed who" "can_unlock who s" and s': "s' = s\<lparr>ext := l, Voting := nmap_remove who (Voting s)\<rparr>"
      using run by (auto simp: elections_body_def remove_voter_def do_remove_voter_def prog_simps elections_access_defs)
    have "voting_of s' = (voting_of s)(who := no_voter)" unfolding s' by (rule voting_of_update)
    then show ?thesis using RemoveVoter w by blast
  next
    case (RemoveMember target slash rerun)
    then obtain who b u where u: "remove_and_replace_member T who slash s = (Inr b, u)"
      and rest: "(if rerun then do_phragmen T else ok ()) (u\<lparr>elections_events := elections_events u @ [MemberKicked who]\<rparr>) = (Inr (), s')"
      using run by (auto simp: elections_body_def remove_member_def prog_simps deposit_elections_event_def)
    have "elections_ok T G (u\<lparr>elections_events := elections_events u @ [MemberKicked who]\<rparr>)"
      using elections_ok_events [OF remove_and_replace_ok(1) [OF laws ok u]] .
    then have "Voting s' = Voting u" using rest do_phragmen_voting [OF laws] by (fastforce simp: ok_Inr split: if_splits)
    then show ?thesis using keepsD [OF keeps_voting_removal refl u] by (simp add: voting_of_def fun_eq_iff)
  next
    case (SubmitCandidacy n)
    then have "submit_candidacy T orig n s = (Inr (), s')" using run by (simp add: elections_body_def)
    from keepsD [OF keeps_voting_submit refl this] show ?thesis by (simp add: voting_of_def fun_eq_iff)
  next
    case (RenounceCandidacy r)
    then have "renounce_candidacy T orig r s = (Inr (), s')" using run by (simp add: elections_body_def)
    from keepsD [OF keeps_voting_renounce refl this] show ?thesis by (simp add: voting_of_def fun_eq_iff)
  qed (use call in simp)
qed

text \<open>
  C21. Votes stay locked. As long as the lock of a voter has not expired, no call of anybody, except the cleaning of defunct voters
  by the root, lowers the stake of its vote, provided the voter still owns the stake; and for a voter who is not a
  member of the genesis that stake is frozen after the call.
\<close>

theorem locked_votes_stay_frozen:
  assumes laws: "elections_laws T" "elections_limits T genesis" and reach: "elections_reachable T genesis s"
    and lock: "block_number s < vt_lockup_till (voting_of s a)" "vt_stake (voting_of s a) \<le> c_total_balance (el_currency T) a (ext s)"
    and call: "\<forall>n m. call \<noteq> CleanDefunctVoters n m" and run: "elections_dispatch T orig call s = (r, s')"
  shows "vt_stake (voting_of s a) \<le> vt_stake (voting_of s' a) \<and>
    (a \<notin> fst ` set genesis \<longrightarrow> vt_stake (voting_of s a) \<le> voting_frozen T (ext s') a)"
proof -
  note ok = reachable_elections_ok [OF laws reach]
  have stake: "vt_stake (voting_of s a) \<le> vt_stake (voting_of s' a)"
  proof (cases "elections_body T orig call s")
    case (Pair x t)
    then show ?thesis
    proof (cases x)
      case (Inr u)
      then have "elections_body T orig call s = (Inr (), s')"
        using run Pair by (simp add: elections_dispatch_def transactional_def)
      from voting_of_call [OF laws(1) ok this call] lock show ?thesis
        by (auto simp: can_unlock_def new_vote_def stake_for_def)
    qed (use run in \<open>auto simp: elections_dispatch_def transactional_def\<close>)
  qed
  moreover have "freezes_ok T (fst ` set genesis) s'"
    using elections_okD(9) [OF reachable_elections_ok [OF laws el_call [OF reach run]]] .
  ultimately show ?thesis unfolding freezes_ok_def by metis
qed

theorem locked_votes_stay_frozen_witness:
  "7 \<le> voting_frozen demo_elections (ext (snd (elections_dispatch demo_elections (Signed 5) RemoveVoter demo_seats))) 5"
proof -
  have v: "voting_of demo_seats 5 = \<lparr>vt_votes = [3, 2], vt_stake = 7, vt_lockup_till = 3\<rparr>"
    by (simp add: voting_of_def nmap_get_def demo_state_defs)
  show ?thesis
    using locked_votes_stay_frozen [OF demo_elections_laws demo_elections_limits demo_seats_reachable, of 5 RemoveVoter "Signed 5"
        "fst (elections_dispatch demo_elections (Signed 5) RemoveVoter demo_seats)"]
    by (simp add: v) (simp add: demo_state_defs demo_elections_def)
qed

end
