(* ===== verification/Btree_Map.thy ===== *)
theory Btree_Map
  imports Prelude
begin

text \<open>
  The standard library's \<^verbatim>\<open>BTreeMap\<close>, as far as the pallets use it: a map that is iterated in the order of its
  keys. It is a storage map of \<open>Prelude\<close> whose entries are placed by the rank of their key instead of by a
  hash, so lookups after insertions are those of the interface \<open>storage_map\<close>; what the order adds is the
  interface \<open>btree_map\<close>, for every injective rank. Its client lemma \<open>get_group\<close> says what the loops leave
  behind that collect a list of keyed values through \<^verbatim>\<open>entry\<close>.
\<close>

text \<open>\<^verbatim>\<open>entry(k).or_insert_with(d)\<close> followed by the update \<open>f\<close> of the value it returns.\<close>

definition bt_entry :: "('k \<Rightarrow> nat) \<Rightarrow> 'k \<Rightarrow> 'v \<Rightarrow> ('v \<Rightarrow> 'v) \<Rightarrow> ('k, 'v) nmap \<Rightarrow> ('k, 'v) nmap" where
  "bt_entry rank k d f m = nmap_insert rank k (f (case nmap_get m k of None \<Rightarrow> d | Some v \<Rightarrow> v)) m"

text \<open>\<^verbatim>\<open>range(lo..=hi).next()\<close>: the first entry whose key lies in the range.\<close>

definition bt_range_next :: "nat \<Rightarrow> nat \<Rightarrow> (nat, 'v) nmap \<Rightarrow> (nat \<times> 'v) option" where
  "bt_range_next lo hi m = find (\<lambda>e. lo \<le> fst e \<and> fst e \<le> hi) m"

text \<open>The loop that adds every keyed value of a list to the entry of its key.\<close>

primrec bt_group ::
    "('k \<Rightarrow> nat) \<Rightarrow> 'v \<Rightarrow> ('x \<Rightarrow> 'v \<Rightarrow> 'v) \<Rightarrow> ('k \<times> 'x) list \<Rightarrow> ('k, 'v) nmap \<Rightarrow> ('k, 'v) nmap" where
  "bt_group rank d push [] m = m"
| "bt_group rank d push (e # es) m = bt_group rank d push es (bt_entry rank (fst e) d (push (snd e)) m)"

abbreviation values_for :: "'k \<Rightarrow> ('k \<times> 'x) list \<Rightarrow> 'x list" where
  "values_for k es \<equiv> map snd (filter (\<lambda>e. fst e = k) es)"

lemma fold_append: "fold (\<lambda>x xs. xs @ [x]) ys zs = zs @ ys"
  by (induction ys arbitrary: zs) simp_all

locale btree_map =
  fixes rank :: "'k \<Rightarrow> nat"
  assumes rank_inj: "rank a = rank b \<Longrightarrow> a = b"
begin

abbreviation key_sorted :: "('k, 'v) nmap \<Rightarrow> bool" where
  "key_sorted m \<equiv> sorted_wrt (\<lambda>a b. rank (fst a) < rank (fst b)) m"

lemma sorted_distinct: "key_sorted m \<Longrightarrow> nmap_wf m"
  by (induction m) (auto simp: nmap_wf_def)

lemma key_sorted_keys: "key_sorted m \<longleftrightarrow> sorted_wrt (\<lambda>a b. rank a < rank b) (map fst m)"
  by (simp add: sorted_wrt_map)

lemma sorted_update: "key_sorted m \<Longrightarrow> map_of m k = Some w \<Longrightarrow> key_sorted (AList.update k v m)"
  unfolding key_sorted_keys by (auto simp: update_keys dest!: map_of_SomeD intro: rev_image_eqI)

lemma dropWhile_above:
  assumes "key_sorted m" "k \<notin> fst ` set m" "e \<in> set (dropWhile (\<lambda>e. rank (fst e) < rank k) m)"
  shows "rank k < rank (fst e)"
  using assms
proof (induction m)
  case (Cons a m)
  then have "rank (fst a) \<noteq> rank k" using rank_inj by (metis image_eqI list.set_intros(1))
  with Cons show ?case by (auto split: if_splits)
qed simp

lemma key_sorted_insert:
  assumes "key_sorted m"
  shows "key_sorted (nmap_insert rank k v m)"
proof (cases "map_of m k")
  case None
  let ?P = "\<lambda>e. rank (fst e) < rank k"
  have parts: "key_sorted (takeWhile ?P m @ dropWhile ?P m)" using assms by simp
  have above: "rank k < rank (fst e)" if "e \<in> set (dropWhile ?P m)" for e
    using that None by (intro dropWhile_above [OF assms]) (auto simp: map_of_eq_None_iff)
  have below: "rank (fst e) < rank k" if "e \<in> set (takeWhile ?P m)" for e
    using set_takeWhileD [OF that] by simp
  show ?thesis using None parts [unfolded sorted_wrt_append] above below
    by (simp add: nmap_insert_def sorted_wrt_append)
next
  case (Some w)
  then show ?thesis using sorted_update [OF assms Some] by (simp add: nmap_insert_def)
qed

lemma get_entry:
  "nmap_get (bt_entry rank k d f m) k' =
   (if k' = k then Some (f (case nmap_get m k of None \<Rightarrow> d | Some v \<Rightarrow> v)) else nmap_get m k')"
  by (simp add: bt_entry_def nmap_get_insert)

lemma key_sorted_group: "key_sorted m \<Longrightarrow> key_sorted (bt_group rank d push es m)"
  by (induction es arbitrary: m) (simp_all add: bt_entry_def key_sorted_insert)

lemma get_group:
  "nmap_get (bt_group rank d push es m) k =
   (if values_for k es = [] then nmap_get m k
    else Some (fold push (values_for k es) (case nmap_get m k of None \<Rightarrow> d | Some v \<Rightarrow> v)))"
  by (induction es arbitrary: m) (auto simp: get_entry filter_empty_conv)

end

text \<open>Accounts and balances are ordered as the naturals that represent them.\<close>

interpretation bt_nat: btree_map "\<lambda>k :: nat. k"
  by unfold_locales

end
