(* ===== verification/Funding_Api.thy ===== *)
theory Funding_Api
  imports Funding_Misc Btree_Map
begin

text \<open>
  \<^verbatim>\<open>src/pallets/funding/src/runtime_api.rs\<close>: the read-only queries of the funding pallet, in the order of the
  file. A query that panics (\<^verbatim>\<open>expect\<close>, or the \<^verbatim>\<open>from_rational\<close> of the arithmetic parameter) is \<open>None\<close>. The asset
  ids and balances of the contribution token currency are parameters of \<open>contribution_tokens\<close>. The lemmas
  and properties are in \<open>Funding_Api_Props\<close>.
\<close>

record participation_ids =
  pp_account :: account
  pp_evaluation_ids :: "nat list"
  pp_bid_ids :: "nat list"
  pp_contribution_ids :: "nat list"

section \<open>Leaderboards\<close>

definition top_evaluations :: "project_id \<Rightarrow> nat \<Rightarrow> ('l, 'z) funding_state_scheme \<Rightarrow> evaluation_info list" where
  "top_evaluations p amount s =
     take amount (sort_by (\<lambda>a b. nat_cmp (ev_original_plmc_bond b) (ev_original_plmc_bond a)) (prefix1 p (Evaluations s)))"

definition top_bids :: "project_id \<Rightarrow> nat \<Rightarrow> ('l, 'z) funding_state_scheme \<Rightarrow> bid_info list" where
  "top_bids p amount s =
     take amount (sort_by (\<lambda>a b. nat_cmp (bid_final_ct_amount b) (bid_final_ct_amount a)) (prefix1 p (Bids s)))"

definition top_contributions :: "project_id \<Rightarrow> nat \<Rightarrow> ('l, 'z) funding_state_scheme \<Rightarrow> contribution_info list" where
  "top_contributions p amount s =
     take amount (sort_by (\<lambda>a b. nat_cmp (co_ct_amount b) (co_ct_amount a)) (prefix1 p (Contributions s)))"

definition with_metadata ::
    "('l, 'z) funding_state_scheme \<Rightarrow> project_id \<times> project_details \<Rightarrow> (project_id \<times> project_metadata \<times> project_details) option" where
  "with_metadata s e = map_option (\<lambda>md. (fst e, md, snd e)) (ProjectsMetadata s (fst e))"

definition top_projects_by_usd_raised ::
    "nat \<Rightarrow> ('l, 'z) funding_state_scheme \<Rightarrow> (project_id \<times> project_metadata \<times> project_details) list option" where
  "top_projects_by_usd_raised amount s =
     those (map (with_metadata s)
       (take amount
         (sort_by (\<lambda>a b. nat_cmp (pd_funding_amount_reached_usd (snd b)) (pd_funding_amount_reached_usd (snd a)))
           (ProjectsDetails s))))"

definition with_funding_ratio ::
    "sp_arithmetic \<Rightarrow> project_id \<times> project_details \<Rightarrow> (project_id \<times> project_details \<times> fixed) option" where
  "with_funding_ratio A e =
     (let funding_reached = pd_funding_amount_reached_usd (snd e);
          funding_target = pd_fundraising_target_usd (snd e)
      in map_option (\<lambda>funding_ratio. (fst e, snd e, funding_ratio)) (f_from_rational A funding_reached funding_target))"

definition top_projects_by_usd_target_percent_reached ::
    "('l, 'c) funding_config_scheme \<Rightarrow> nat \<Rightarrow> ('l, 'z) funding_state_scheme \<Rightarrow>
     (project_id \<times> project_metadata \<times> project_details) list option" where
  "top_projects_by_usd_target_percent_reached T amount s =
     Option.bind (those (map (with_funding_ratio (arith T)) (ProjectsDetails s))) (\<lambda>ratios.
       those (map (\<lambda>(project_id, details, _). with_metadata s (project_id, details))
         (take amount (sort_by (\<lambda>a b. nat_cmp (snd (snd b)) (snd (snd a))) ratios))))"

section \<open>User information\<close>

definition contribution_tokens ::
    "('l \<Rightarrow> project_id list) \<Rightarrow> (project_id \<Rightarrow> account \<Rightarrow> 'l \<Rightarrow> nat) \<Rightarrow> account \<Rightarrow>
     ('l, 'z) funding_state_scheme \<Rightarrow> (project_id \<times> nat) list" where
  "contribution_tokens asset_ids ct_balance acc s =
     sort_by (\<lambda>a b. nat_cmp (snd b) (snd a))
       (List.map_filter
         (\<lambda>asset_id.
           let balance = ct_balance asset_id acc (ext s)
           in if 0 < balance then Some (asset_id, balance) else None)
         (asset_ids (ext s)))"

section \<open>Helpers for extrinsics\<close>

function quote_loop :: "sp_arithmetic \<Rightarrow> nat \<Rightarrow> bucket \<Rightarrow> nat \<Rightarrow> nat option" where
  "quote_loop A usd_to_spend current_bucket ct_amount =
     (if usd_to_spend = 0 then Some ct_amount
      else let bucket_price = bk_current_price current_bucket in
           case f_reciprocal A bucket_price of
             None \<Rightarrow> None
           | Some recip \<Rightarrow>
               let ct_to_buy = min (f_saturating_mul_int A recip usd_to_spend) (bk_amount_left current_bucket);
                   usd_spent = max (f_saturating_mul_int A bucket_price ct_to_buy) 1
               in quote_loop A (saturating_sub usd_to_spend usd_spent) (bucket_update current_bucket ct_to_buy)
                    (saturating_add ct_amount ct_to_buy))"
  by pat_completeness auto
termination
  by (relation "measure (\<lambda>(A, usd_to_spend, b, ct). usd_to_spend)") auto

declare quote_loop.simps [simp del]

definition funding_asset_to_ct_amount ::
    "('l, 'c) funding_config_scheme \<Rightarrow> project_id \<Rightarrow> accepted_funding_asset \<Rightarrow> nat \<Rightarrow>
     ('l, 'z) funding_state_scheme \<Rightarrow> nat option" where
  "funding_asset_to_ct_amount T p asset asset_amount s =
     Option.bind (get_details p s) (\<lambda>details.
     Option.bind (funding_asset_price T asset (ext s)) (\<lambda>funding_asset_usd_price.
       let usd_ticket_size = f_saturating_mul_int (arith T) funding_asset_usd_price asset_amount in
       case pd_weighted_average_price details of
         Some wap \<Rightarrow>
           map_option (\<lambda>recip. f_saturating_mul_int (arith T) recip usd_ticket_size) (f_reciprocal (arith T) wap)
       | None \<Rightarrow>
           Option.bind (Buckets s p) (\<lambda>current_bucket. quote_loop (arith T) usd_ticket_size current_bucket 0)))"

definition started_schedules ::
    "('l, 'c) funding_config_scheme \<Rightarrow> nat \<Rightarrow> vesting_info list \<Rightarrow> (nat \<times> nat) list" where
  "started_schedules T now schedules =
     List.map_filter
       (\<lambda>(i, schedule).
         if now < vi_starting_block schedule then None
         else Some (i, ending_block_as_balance (BlockNumberToBalance T) schedule))
       (enumerate 0 schedules)"

fun merge_candidates_loop :: "nat \<Rightarrow> (nat \<times> nat) list \<Rightarrow> (nat, nat) nmap \<Rightarrow> (nat \<times> nat) option" where
  "merge_candidates_loop end_max_delta [] inspected_schedules = None"
| "merge_candidates_loop end_max_delta ((i, schedule_end) # schedules) inspected_schedules =
     (let range_start = saturating_sub schedule_end end_max_delta;
          range_end = saturating_add schedule_end end_max_delta
      in case bt_range_next range_start range_end inspected_schedules of
           Some (_, j) \<Rightarrow> Some (as_u32 j, as_u32 i)
         | None \<Rightarrow>
             merge_candidates_loop end_max_delta schedules
               (nmap_insert (\<lambda>k. k) schedule_end i inspected_schedules))"

definition get_next_vesting_schedule_merge_candidates ::
    "('l, 'c) funding_config_scheme \<Rightarrow> account \<Rightarrow> reason \<Rightarrow> nat \<Rightarrow> ('l, 'z) funding_state_scheme \<Rightarrow>
     (nat \<times> nat) option" where
  "get_next_vesting_schedule_merge_candidates T account_id hold_reason end_max_delta s =
     Option.bind (vesting account_id hold_reason s) (\<lambda>schedules.
       merge_candidates_loop end_max_delta (started_schedules T (block_number s) schedules) [])"

section \<open>Participations and projects of a DID\<close>

definition ids_of_did ::
    "('v \<Rightarrow> did) \<Rightarrow> project_id \<Rightarrow> did \<Rightarrow> (participation_key, 'v) nmap \<Rightarrow> (account \<times> nat) list" where
  "ids_of_did did_of p d m = map (snd \<circ> fst) (filter (\<lambda>e. did_of (snd e) = d) (filter (\<lambda>e. fst (fst e) = p) m))"

definition all_project_participations_by_did ::
    "project_id \<Rightarrow> did \<Rightarrow> ('l, 'z) funding_state_scheme \<Rightarrow> participation_ids list" where
  "all_project_participations_by_did p d s =
     (let evaluations = ids_of_did ev_did p d (Evaluations s);
          bids = ids_of_did bid_did p d (Bids s);
          contributions = ids_of_did co_did p d (Contributions s);
          m = bt_group (\<lambda>a. a) ([], [], []) (\<lambda>i (es, bs, cs). (es @ [i], bs, cs)) evaluations [];
          m = bt_group (\<lambda>a. a) ([], [], []) (\<lambda>i (es, bs, cs). (es, bs @ [i], cs)) bids m;
          m = bt_group (\<lambda>a. a) ([], [], []) (\<lambda>i (es, bs, cs). (es, bs, cs @ [i])) contributions m
      in map (\<lambda>(acc, evaluation_ids, bid_ids, contribution_ids).
            \<lparr>pp_account = acc, pp_evaluation_ids = evaluation_ids, pp_bid_ids = bid_ids,
             pp_contribution_ids = contribution_ids\<rparr>) m)"

definition usd_target_percent_reached ::
    "('l, 'c) funding_config_scheme \<Rightarrow> project_id \<Rightarrow> ('l, 'z) funding_state_scheme \<Rightarrow> fixed option" where
  "usd_target_percent_reached T p s =
     Option.bind (get_details p s) (\<lambda>details.
       f_from_rational (arith T) (pd_funding_amount_reached_usd details) (pd_fundraising_target_usd details))"

definition projects_by_did :: "did \<Rightarrow> ('l, 'z) funding_state_scheme \<Rightarrow> project_id list" where
  "projects_by_did d s = map fst (filter (\<lambda>e. pd_issuer_did (snd e) = d) (ProjectsDetails s))"

end
