(* ===== verification/Funding_Api_Props.thy ===== *)
theory Funding_Api_Props
  imports Funding_Api Funding_Participation_Props
begin

text \<open>
  What the queries of \<open>Funding_Api\<close> promise: the leaderboards are the first entries of a ranking; a quote can be
  paid for with the money it was asked for; the vesting schedules proposed for a merge are as close as
  demanded, can be merged, and are found whenever there are any; the participations of a DID are complete and
  grouped by account.
\<close>

section \<open>Leaderboards\<close>

interpretation ranking: comparator "\<lambda>a b. nat_cmp (f b) (f a)" for f :: "'a \<Rightarrow> nat"
  by unfold_locales auto

text \<open>\<open>ys\<close> are the \<open>n\<close> first of \<open>xs\<close> from the greatest \<open>f\<close> down.\<close>

definition leaders :: "('a \<Rightarrow> nat) \<Rightarrow> nat \<Rightarrow> 'a list \<Rightarrow> 'a list \<Rightarrow> bool" where
  "leaders f n xs ys \<longleftrightarrow> length ys = min n (length xs) \<and> sorted_wrt (\<lambda>a b. f b \<le> f a) ys \<and>
     (\<exists>rest. mset xs = mset ys + mset rest \<and> (\<forall>a\<in>set ys. \<forall>b\<in>set rest. f b \<le> f a))"

lemma leaders_take: "leaders f n xs (take n (sort_by (\<lambda>a b. nat_cmp (f b) (f a)) xs))"
proof -
  let ?ys = "sort_by (\<lambda>a b. nat_cmp (f b) (f a)) xs"
  have m: "mset ?ys = mset xs" by (rule ranking.mset_sort_by)
  have "sorted_wrt (\<lambda>a b. f b \<le> f a) (take n ?ys @ drop n ?ys)"
    using ranking.sorted_sort_by [of f xs] by (simp add: not_less)
  then have s: "sorted_wrt (\<lambda>a b. f b \<le> f a) (take n ?ys)" "\<forall>a\<in>set (take n ?ys). \<forall>b\<in>set (drop n ?ys). f b \<le> f a"
    unfolding sorted_wrt_append by blast+
  have "mset xs = mset (take n ?ys) + mset (drop n ?ys)"
    unfolding m [symmetric] by (simp flip: mset_append)
  moreover have "length ?ys = length xs" using m by (metis size_mset)
  ultimately show ?thesis using s unfolding leaders_def by (auto simp: min.commute)
qed

lemma participation_leaderboards:
  "leaders ev_original_plmc_bond n (prefix1 p (Evaluations s)) (top_evaluations p n s)"
  "leaders bid_final_ct_amount n (prefix1 p (Bids s)) (top_bids p n s)"
  "leaders co_ct_amount n (prefix1 p (Contributions s)) (top_contributions p n s)"
  by (simp_all add: top_evaluations_def top_bids_def top_contributions_def leaders_take)

lemma those_map_Some: "(\<And>x. x \<in> set xs \<Longrightarrow> f x = Some (g x)) \<Longrightarrow> those (map f xs) = Some (map g xs)"
  by (induction xs) auto

lemma project_leaderboard:
  assumes "\<forall>e\<in>set (ProjectsDetails s). ProjectsMetadata s (fst e) \<noteq> None"
  shows "\<exists>top. leaders (pd_funding_amount_reached_usd \<circ> snd) n (ProjectsDetails s) top \<and>
    top_projects_by_usd_raised n s = Some (map (\<lambda>e. (fst e, the (ProjectsMetadata s (fst e)), snd e)) top)"
proof -
  let ?cmp = "\<lambda>a b. nat_cmp (pd_funding_amount_reached_usd (snd b)) (pd_funding_amount_reached_usd (snd a))"
  let ?top = "take n (sort_by ?cmp (ProjectsDetails s))"
  have "set ?top \<subseteq> set (ProjectsDetails s)"
    using ranking.set_sort_by [of "pd_funding_amount_reached_usd \<circ> snd" "ProjectsDetails s"]
    by (auto dest: in_set_takeD)
  then have "those (map (with_metadata s) ?top) =
      Some (map (\<lambda>e. (fst e, the (ProjectsMetadata s (fst e)), snd e)) ?top)"
    using assms by (intro those_map_Some) (fastforce simp: with_metadata_def)
  then show ?thesis
    using leaders_take [of "pd_funding_amount_reached_usd \<circ> snd" n "ProjectsDetails s"]
    by (auto simp: top_projects_by_usd_raised_def comp_def)
qed

section \<open>Quotes\<close>

text \<open>The reciprocal of a fixed-point number rounds down and fails for zero only.\<close>

definition reciprocal_laws :: "sp_arithmetic \<Rightarrow> bool" where
  "reciprocal_laws A \<longleftrightarrow> (\<forall>p. f_reciprocal A p = (if p = 0 then None else Some (DIV * DIV div p)))"

lemma plain_reciprocal_laws: "reciprocal_laws plain_arith"
  by (simp add: reciprocal_laws_def plain_arith_def)

text \<open>
  Buying \<open>n\<close> tokens from a bucket and the ones after it, piece by piece: no piece is larger than what its
  bucket has left, and it is paid at the bucket's price.
\<close>

inductive buys :: "sp_arithmetic \<Rightarrow> bucket \<Rightarrow> nat \<Rightarrow> nat \<Rightarrow> bucket \<Rightarrow> bool" for A where
  nothing: "buys A b 0 0 b"
| piece: "k \<le> bk_amount_left b \<Longrightarrow> buys A (bucket_update b k) n c b' \<Longrightarrow>
    buys A b (k + n) (f_saturating_mul_int A (bk_current_price b) k + c) b'"

lemma cost_of_reciprocal:
  assumes "0 < p" "k \<le> DIV * DIV div p * usd div DIV"
  shows "p * k div DIV \<le> usd"
proof -
  have D: "0 < DIV" by (simp add: DIV_def)
  have "DIV * k \<le> DIV * DIV div p * usd"
    using assms(2) D by (metis less_eq_div_iff_mult_less_eq mult.commute)
  then have "p * (DIV * k) \<le> p * (DIV * DIV div p) * usd" by (metis mult.assoc mult_le_mono2)
  also have "\<dots> \<le> DIV * DIV * usd" by (intro mult_le_mono1) simp
  finally have "DIV * (p * k) \<le> DIV * (DIV * usd)" by (simp add: algebra_simps)
  then have "p * k \<le> DIV * usd" using D by simp
  then show ?thesis using div_le_mono [of "p * k" "DIV * usd" DIV] D by simp
qed

lemma quote_piece_cost:
  assumes "fixed_laws A" "0 < p" "k \<le> f_saturating_mul_int A (DIV * DIV div p) usd"
  shows "f_saturating_mul_int A p k \<le> usd"
  using assms(1,3) cost_of_reciprocal [OF assms(2), of k usd]
  by (simp add: fixed_laws_def min_le_iff_disj)

lemma bucket_update_price: "0 < bk_current_price b \<Longrightarrow> 0 < bk_current_price (bucket_update b k)"
  by (simp add: bucket_update_def bucket_next_def Let_def)

lemma quote_loop_buys:
  assumes "fixed_laws A" "reciprocal_laws A" "0 < bk_current_price b" "acc \<le> u128_max"
  shows "\<exists>n c b'. quote_loop A usd b acc = Some (saturating_add acc n) \<and> buys A b n c b' \<and> c \<le> usd"
  using assms
proof (induction A usd b acc rule: quote_loop.induct)
  case (1 A usd b acc)
  show ?case
  proof (cases "usd = 0")
    case True
    then show ?thesis using "1.prems" by (auto simp: quote_loop.simps [of A 0] saturating_add_def intro!: exI [of _ 0] buys.nothing)
  next
    case False
    let ?p = "bk_current_price b" and ?r = "DIV * DIV div bk_current_price b"
    let ?k = "min (f_saturating_mul_int A ?r usd) (bk_amount_left b)"
    let ?c = "f_saturating_mul_int A ?p ?k"
    have r: "f_reciprocal A ?p = Some ?r" using "1.prems" by (simp add: reciprocal_laws_def)
    have cost: "?c \<le> usd" using "1.prems" by (intro quote_piece_cost) auto
    obtain n c b' where rest: "quote_loop A (usd - max ?c 1) (bucket_update b ?k) (saturating_add acc ?k) =
        Some (saturating_add (saturating_add acc ?k) n)"
      and n: "buys A (bucket_update b ?k) n c b'" "c \<le> usd - max ?c 1"
      using "1.IH" [OF False refl r refl refl] "1.prems" bucket_update_price by auto
    have "quote_loop A usd b acc = Some (saturating_add acc (?k + n))"
      using False r rest by (simp add: quote_loop.simps [of A usd] Let_def saturating_add_def)
    moreover have "buys A b (?k + n) (?c + c) b'" using n(1) by (intro buys.piece) simp_all
    moreover have "?c + c \<le> usd" using n(2) cost by simp
    ultimately show ?thesis by blast
  qed
qed

text \<open>
  A quote is affordable: the query never panics or loops for a project with a price, and the tokens it
  promises cost at most the US dollars that the given asset amount is worth, at the weighted average price
  once there is one, and before that bought piece by piece along the buckets of the auction, starting from the
  current one.
\<close>

theorem quote_is_affordable:
  assumes "fixed_laws (arith T)" "reciprocal_laws (arith T)"
    and "get_details p s = Some d" "funding_asset_price T asset (ext s) = Some price"
    and "case pd_weighted_average_price d of Some wap \<Rightarrow> 0 < wap
       | None \<Rightarrow> Buckets s p = Some b \<and> 0 < bk_current_price b"
  shows "\<exists>ct. funding_asset_to_ct_amount T p asset amount s = Some ct \<and>
    (case pd_weighted_average_price d of
       Some wap \<Rightarrow> f_saturating_mul_int (arith T) wap ct \<le> f_saturating_mul_int (arith T) price amount
     | None \<Rightarrow> \<exists>n c b'. ct = min u128_max n \<and> buys (arith T) b n c b' \<and>
         c \<le> f_saturating_mul_int (arith T) price amount)"
proof (cases "pd_weighted_average_price d")
  case None
  let ?usd = "f_saturating_mul_int (arith T) price amount"
  obtain n c b' where "quote_loop (arith T) ?usd b 0 = Some (saturating_add 0 n)"
    "buys (arith T) b n c b'" "c \<le> ?usd"
    using quote_loop_buys [OF assms(1,2), of b 0 ?usd] assms(5) None by auto
  then show ?thesis using assms(3-5) None
    by (auto simp: funding_asset_to_ct_amount_def Let_def saturating_add_def)
next
  case (Some wap)
  then show ?thesis using assms quote_piece_cost [OF assms(1), of wap]
    by (simp add: funding_asset_to_ct_amount_def Let_def reciprocal_laws_def)
qed

theorem quote_is_affordable_witness:
  "\<exists>ct. funding_asset_to_ct_amount demo_config 0 USDT (6000 * 10 ^ 6) demo_state = Some ct \<and>
    (\<exists>n c b'. ct = min u128_max n \<and>
       buys plain_arith (new_bucket (5000 * 10 ^ 6) DIV (DIV div 10) (500 * 10 ^ 6)) n c b' \<and> c \<le> 6000 * 10 ^ 6)"
proof -
  have "f_saturating_mul_int plain_arith DIV (6000 * 10 ^ 6) = 6000 * 10 ^ 6"
    by (simp add: plain_arith_def DIV_def u128_max_def)
  then show ?thesis
    using quote_is_affordable [of demo_config 0 demo_state demo_details USDT DIV
        "new_bucket (5000 * 10 ^ 6) DIV (DIV div 10) (500 * 10 ^ 6)" "6000 * 10 ^ 6"]
      plain_fixed_laws plain_reciprocal_laws demo_asset_price
    by (simp add: demo_state_def get_details_def nmap_get_def demo_details_def new_bucket_def DIV_def)
qed

section \<open>Candidates for a merge of vesting schedules\<close>

definition near :: "nat \<Rightarrow> nat \<Rightarrow> nat \<Rightarrow> bool" where
  "near delta a b \<longleftrightarrow> a \<le> b + delta \<and> b \<le> a + delta"

text \<open>The entries inspected so far are those of the schedules already passed, by their end.\<close>

definition inspects :: "(nat, nat) nmap \<Rightarrow> (nat \<times> nat) list \<Rightarrow> bool" where
  "inspects m xs \<longleftrightarrow> nmap_wf m \<and> set m = (\<lambda>(i, e). (e, i)) ` set xs"

lemma bt_range_next_None:
  assumes "inspects m xs" "e \<le> u128_max" "\<forall>x\<in>set xs. snd x \<le> u128_max"
    and "bt_range_next (saturating_sub e delta) (saturating_add e delta) m = None"
  shows "\<forall>x\<in>set xs. \<not> near delta (snd x) e"
proof
  fix x assume x: "x \<in> set xs"
  then have "(snd x, fst x) \<in> set m" using assms(1) by (force simp: inspects_def)
  then show "\<not> near delta (snd x) e"
    using assms(2-4) x by (fastforce simp: near_def bt_range_next_def find_None_iff saturating_add_def)
qed

lemma bt_range_next_Some:
  assumes "inspects m xs" "bt_range_next (saturating_sub e delta) (saturating_add e delta) m = Some (e', j)"
  shows "(j, e') \<in> set xs \<and> near delta e' e"
proof -
  obtain k where "k < length m" "(e', j) = m ! k" "e - delta \<le> fst (m ! k)" "fst (m ! k) \<le> saturating_add e delta"
    using assms(2) by (auto simp: bt_range_next_def find_Some_iff)
  then have "(e', j) \<in> set m" "e - delta \<le> e'" "e' \<le> saturating_add e delta"
    by (metis nth_mem, metis fst_conv, metis fst_conv)
  moreover have "saturating_add e delta \<le> e + delta" by (rule saturating_add_le)
  ultimately show ?thesis using assms(1) by (auto simp: inspects_def near_def)
qed

lemma inspects_insert:
  assumes "inspects m xs" "\<forall>x\<in>set xs. snd x \<noteq> e"
  shows "inspects (nmap_insert (\<lambda>k. k) e i m) (xs @ [(i, e)])"
  using assms nm.entries_insert [of m "\<lambda>k. k" e i] nmap_wf_insert [of m]
  by (force simp: inspects_def)

text \<open>What the query promises for the started schedules \<open>xs\<close>, given with their index and end.\<close>

definition candidates_found :: "nat \<Rightarrow> (nat \<times> nat) list \<Rightarrow> (nat \<times> nat) option \<Rightarrow> bool" where
  "candidates_found delta xs r =
     (case r of
        None \<Rightarrow> sorted_wrt (\<lambda>x y. \<not> near delta (snd x) (snd y)) xs
      | Some (a, b) \<Rightarrow> \<exists>x\<in>set xs. \<exists>y\<in>set xs. a = as_u32 (fst x) \<and> b = as_u32 (fst y) \<and>
          fst x < fst y \<and> near delta (snd x) (snd y))"

lemma merge_candidates_loop_result:
  assumes "inspects m xs" "\<forall>x\<in>set (xs @ ys). snd x \<le> u128_max"
    and "sorted_wrt (\<lambda>x y. \<not> near delta (snd x) (snd y)) xs"
    and "sorted_wrt (\<lambda>x y. fst x < fst y) (xs @ ys)"
  shows "candidates_found delta (xs @ ys) (merge_candidates_loop delta ys m)"
  using assms
proof (induction ys arbitrary: m xs)
  case (Cons y ys)
  obtain i e where y: "y = (i, e)" by force
  let ?r = "bt_range_next (saturating_sub e delta) (saturating_add e delta) m"
  show ?case
  proof (cases ?r)
    case None
    have far: "\<forall>x\<in>set xs. \<not> near delta (snd x) e"
      using bt_range_next_None [OF Cons.prems(1) _ _ None] Cons.prems(2) y by simp
    then have "inspects (nmap_insert (\<lambda>k. k) e i m) (xs @ [(i, e)])"
      by (intro inspects_insert [OF Cons.prems(1)]) (auto simp: near_def)
    moreover have "sorted_wrt (\<lambda>x y. \<not> near delta (snd x) (snd y)) (xs @ [(i, e)])"
      using Cons.prems(3) far by (simp add: sorted_wrt_append)
    moreover have "merge_candidates_loop delta (y # ys) m = merge_candidates_loop delta ys (nmap_insert (\<lambda>k. k) e i m)"
      using None by (simp add: y)
    ultimately show ?thesis using Cons.IH [of _ "xs @ [(i, e)]"] Cons.prems(2,4) by (simp add: y)
  next
    case (Some q)
    then obtain e' j where q: "?r = Some (e', j)" by (cases q) simp
    have j: "(j, e') \<in> set xs" "near delta e' e" using bt_range_next_Some [OF Cons.prems(1) q] by auto
    then have "j < i" using Cons.prems(4) by (fastforce simp: y sorted_wrt_append)
    then have "fst (j, e') < fst (i, e) \<and> near delta (snd (j, e')) (snd (i, e))" using j(2) by simp
    moreover have "(j, e') \<in> set (xs @ y # ys)" "(i, e) \<in> set (xs @ y # ys)" using j(1) y by simp_all
    moreover have "merge_candidates_loop delta (y # ys) m = Some (as_u32 (fst (j, e')), as_u32 (fst (i, e)))"
      using q by (simp add: y)
    ultimately show ?thesis unfolding candidates_found_def by (simp only: option.case prod.case) blast
  qed
qed (simp add: candidates_found_def)

lemma map_filter_conv: "List.map_filter f xs = map (the \<circ> f) (filter (\<lambda>x. f x \<noteq> None) xs)"
  by (induction xs) (auto simp: map_filter_simps split: option.split)

lemma started_schedules_nth:
  "started_schedules T now vs =
   map (\<lambda>i. (i, ending_block_as_balance (BlockNumberToBalance T) (vs ! i)))
     (filter (\<lambda>i. vi_starting_block (vs ! i) \<le> now) [0..<length vs])"
proof -
  have "enumerate 0 vs = map (\<lambda>i. (i, vs ! i)) [0..<length vs]"
    by (rule nth_equalityI) (simp_all add: nth_enumerate_eq)
  then have "started_schedules T now vs = map (the \<circ> (\<lambda>(i, schedule). if now < vi_starting_block schedule then None
        else Some (i, ending_block_as_balance (BlockNumberToBalance T) schedule)) \<circ> (\<lambda>i. (i, vs ! i)))
      (filter (\<lambda>i. vi_starting_block (vs ! i) \<le> now) [0..<length vs])"
    by (simp add: started_schedules_def map_filter_conv filter_map comp_def not_less)
  then show ?thesis by simp
qed

lemma started_schedules_sorted: "sorted_wrt (\<lambda>x y. fst x < fst y) (started_schedules T now vs)"
  by (simp add: started_schedules_nth sorted_wrt_map sorted_wrt_filter flip: strict_sorted_iff)

lemma length_pick_Merge:
  assumes "i \<noteq> j" "i < length vs" "j < length vs"
  shows "length (pick_schedules (Merge i j) vs) + 2 = length vs"
proof -
  have "length (pick_schedules (Merge i j) vs) = card {k. k < length vs \<and> \<not> should_remove (Merge i j) k}"
    using pick_schedules_sum [of "\<lambda>_. 1 :: nat" "Merge i j" vs] by (simp add: sum_list_triv)
  also have "{k. k < length vs \<and> \<not> should_remove (Merge i j) k} = {..<length vs} - {i, j}" by auto
  also have "card \<dots> = length vs - 2" using assms by (simp add: card_Diff_subset)
  finally show ?thesis using assms by linarith
qed

lemma merge_schedules_ok:
  assumes "release_laws (Currency T)" "release_total (Currency T)"
    and "vesting who r s = Some vs" "length vs \<le> MAX_VESTING_SCHEDULES T" "i \<noteq> j" "i < length vs" "j < length vs"
  shows "\<exists>t vs'. merge_schedules T (Signed who) i j r s = (Inr (), t) \<and>
    vesting who r t = (if vs' = [] then None else Some vs') \<and> length vs' < length vs"
proof -
  obtain vs' l where e: "exec_action T vs (Merge i j) s = (Inr (vs', l), s)" and l: "length vs' < length vs"
  proof -
    let ?ws = "unfinished (BlockNumberToBalance T) (block_number s) (pick_schedules (Merge i j) vs)"
    have "length ?ws + 2 \<le> length vs"
      using length_pick_Merge [OF assms(5-7)] length_unfinished_le
        [of "BlockNumberToBalance T" "block_number s" "pick_schedules (Merge i j) vs"] by linarith
    then show thesis
      using that by (cases "merge_vesting_info T (block_number s) (vs ! i) (vs ! j)")
        (auto simp: exec_action_Merge [OF assms(6,7)] Let_def)
  qed
  obtain t where "seq (write_vesting_schedule T who vs' r) (write_release T who l r) s = (Inr (), t)"
    "vested_to T who r vs' l s t"
    using write_and_release [OF assms(1,2), of vs' who r l s] l assms(4) by auto
  then show ?thesis using e l assms(3,5)
    by (intro exI [of _ t] exI [of _ vs'])
       (auto simp: merge_schedules_def transactional_def ensure_signed_def prog_defs vested_to_def)
qed

text \<open>
  The query for merge candidates is sound, complete and composes with the call it is meant for: the two
  schedules it names have started and end within the demanded distance of each other, the owner's
  \<^verbatim>\<open>merge_schedules\<close> with them succeeds and leaves fewer schedules; and when it names none, no two started
  schedules end that close to each other.
\<close>

theorem merge_candidates_found_and_merged:
  assumes "release_laws (Currency T)" "release_total (Currency T)"
    and "vesting who r s = Some vs" "length vs \<le> MAX_VESTING_SCHEDULES T" "MAX_VESTING_SCHEDULES T \<le> u32_max"
  shows "case get_next_vesting_schedule_merge_candidates T who r delta s of
      Some (j, i) \<Rightarrow> j < i \<and> i < length vs \<and>
        vi_starting_block (vs ! j) \<le> block_number s \<and> vi_starting_block (vs ! i) \<le> block_number s \<and>
        near delta (ending_block_as_balance (BlockNumberToBalance T) (vs ! j))
          (ending_block_as_balance (BlockNumberToBalance T) (vs ! i)) \<and>
        (\<exists>t vs'. merge_schedules T (Signed who) j i r s = (Inr (), t) \<and>
           vesting who r t = (if vs' = [] then None else Some vs') \<and> length vs' < length vs)
    | None \<Rightarrow> \<forall>i<length vs. \<forall>j<i.
        vi_starting_block (vs ! j) \<le> block_number s \<and> vi_starting_block (vs ! i) \<le> block_number s \<longrightarrow>
        \<not> near delta (ending_block_as_balance (BlockNumberToBalance T) (vs ! j))
          (ending_block_as_balance (BlockNumberToBalance T) (vs ! i))"
proof -
  let ?fin = "\<lambda>i. ending_block_as_balance (BlockNumberToBalance T) (vs ! i)"
  let ?on = "\<lambda>i. vi_starting_block (vs ! i) \<le> block_number s"
  let ?xs = "started_schedules T (block_number s) vs"
  let ?r = "get_next_vesting_schedule_merge_candidates T who r delta s"
  have xs: "?xs = map (\<lambda>i. (i, ?fin i)) (filter ?on [0..<length vs])" by (rule started_schedules_nth)
  have "\<forall>x\<in>set ?xs. snd x \<le> u128_max" by (auto simp: xs ending_block_as_balance_def Let_def)
  then have found: "candidates_found delta ?xs ?r"
    using merge_candidates_loop_result [of "[]" "[]" ?xs delta] assms(3)
    by (simp add: inspects_def started_schedules_sorted get_next_vesting_schedule_merge_candidates_def)
  show ?thesis
  proof (cases ?r)
    case None
    then have far: "sorted_wrt (\<lambda>a b. \<not> near delta (?fin a) (?fin b)) (filter ?on [0..<length vs])"
      using found by (simp add: candidates_found_def xs sorted_wrt_map)
    have "\<not> near delta (?fin j) (?fin i)" if "i < length vs" "j < i" "?on j" "?on i" for i j
    proof -
      have "[0..<length vs] = [0..<i] @ i # [Suc i..<length vs]"
        using that(1) by (metis less_imp_add_positive upt_add_eq_append upt_conv_Cons zero_le less_imp_le_nat add_0)
      then show ?thesis using far that by (simp add: sorted_wrt_append)
    qed
    then show ?thesis using None by simp
  next
    case (Some q)
    obtain a b where q: "q = (a, b)" by force
    have "\<exists>j i. a = as_u32 j \<and> b = as_u32 i \<and> j < i \<and> i < length vs \<and> ?on j \<and> ?on i \<and> near delta (?fin j) (?fin i)"
      using found Some by (force simp: candidates_found_def q xs)
    moreover have "as_u32 k = k" if "k < length vs" for k
      using that assms(4,5) by (simp add: as_u32_def u32_max_def)
    ultimately have "a < b" "b < length vs" "?on a" "?on b" "near delta (?fin a) (?fin b)"
      using order.strict_trans by metis+
    then show ?thesis using Some q merge_schedules_ok [OF assms(1-4), of a b] by simp
  qed
qed

definition demo_vesting_state :: "demo_ledger funding_state" where
  "demo_vesting_state =
     demo_state\<lparr>Vesting := [((9, FundingReason Participation),
       [new_vesting_info 100 10 0, new_vesting_info 500 10 5, new_vesting_info 50 5 2])]\<rparr>"

lemma demo_release_total: "release_total (Currency demo_config)"
  by (auto simp: release_total_def demo_ledger_defs plain_defs Let_def)

lemma demo_vesting:
  "vesting 9 (FundingReason Participation) demo_vesting_state =
   Some [new_vesting_info 100 10 0, new_vesting_info 500 10 5, new_vesting_info 50 5 2]"
  by (simp add: demo_vesting_state_def vesting_def nmap_get_def)

theorem merge_candidates_found_and_merged_witness:
  "get_next_vesting_schedule_merge_candidates demo_config 9 (FundingReason Participation) 3 demo_vesting_state = Some (0, 2) \<and>
   (\<exists>t vs'. merge_schedules demo_config (Signed 9) 0 2 (FundingReason Participation) demo_vesting_state = (Inr (), t) \<and>
      vesting 9 (FundingReason Participation) t = (if vs' = [] then None else Some vs') \<and> length vs' < 3)"
proof -
  have now: "block_number demo_vesting_state = 60" by (simp add: demo_vesting_state_def demo_state_def)
  have "get_next_vesting_schedule_merge_candidates demo_config 9 (FundingReason Participation) 3 demo_vesting_state = Some (0, 2)"
    by (simp add: get_next_vesting_schedule_merge_candidates_def demo_vesting started_schedules_def now
        map_filter_simps ending_block_as_balance_def per_block_def new_vesting_info_def bt_range_next_def
        nmap_insert_def as_u32_def u_defs)
  then show ?thesis
    using merge_candidates_found_and_merged [OF demo_release_laws demo_release_total demo_vesting, of 3]
    by (simp add: u32_max_def numeral_3_eq_3 cong: if_cong del: if_split)
qed

section \<open>Participations of a DID\<close>

lemma ids_of_did_iff:
  assumes "nmap_wf m"
  shows "i \<in> set (values_for a (ids_of_did f p d m)) \<longleftrightarrow> (\<exists>v. nmap_get m (p, a, i) = Some v \<and> f v = d)"
  by (force simp: ids_of_did_def nmap_get_in_set [OF assms])

lemma fold_push:
  "fold (\<lambda>i (es, y). (es @ [i], y)) ys (e, z) = (e @ ys, z)"
  "fold (\<lambda>i (es, bs, cs). (es, bs @ [i], cs)) ys (e, b, c) = (e, b @ ys, c)"
  "fold (\<lambda>i (es, bs, cs). (es, bs, cs @ [i])) ys (e, b, c) = (e, b, c @ ys)"
  by (induction ys arbitrary: e b c z) simp_all

lemma participations_by_account:
  fixes p d s
  defines "E \<equiv> \<lambda>a. values_for a (ids_of_did ev_did p d (Evaluations s))"
    and "B \<equiv> \<lambda>a. values_for a (ids_of_did bid_did p d (Bids s))"
    and "C \<equiv> \<lambda>a. values_for a (ids_of_did co_did p d (Contributions s))"
  shows "sorted_wrt (<) (map pp_account (all_project_participations_by_did p d s))"
    and "set (all_project_participations_by_did p d s) =
      {\<lparr>pp_account = a, pp_evaluation_ids = E a, pp_bid_ids = B a, pp_contribution_ids = C a\<rparr> | a.
         E a \<noteq> [] \<or> B a \<noteq> [] \<or> C a \<noteq> []}"
proof -
  let ?z = "([], [], []) :: nat list \<times> nat list \<times> nat list"
  let ?m1 = "bt_group (\<lambda>a. a) ?z (\<lambda>i (es, bs, cs). (es @ [i], bs, cs)) (ids_of_did ev_did p d (Evaluations s)) []"
  let ?m2 = "bt_group (\<lambda>a. a) ?z (\<lambda>i (es, bs, cs). (es, bs @ [i], cs)) (ids_of_did bid_did p d (Bids s)) ?m1"
  let ?m = "bt_group (\<lambda>a. a) ?z (\<lambda>i (es, bs, cs). (es, bs, cs @ [i])) (ids_of_did co_did p d (Contributions s)) ?m2"
  let ?rec = "\<lambda>(acc, es, bs, cs). \<lparr>pp_account = acc, pp_evaluation_ids = es, pp_bid_ids = bs, pp_contribution_ids = cs\<rparr>"
  have R: "all_project_participations_by_did p d s = map ?rec ?m"
    by (simp add: all_project_participations_by_did_def Let_def)
  have sorted: "bt_nat.key_sorted ?m" by (intro bt_nat.key_sorted_group) simp
  then show "sorted_wrt (<) (map pp_account (all_project_participations_by_did p d s))"
    by (simp add: R sorted_wrt_map case_prod_beta)
  have get: "nmap_get ?m a = (if E a \<noteq> [] \<or> B a \<noteq> [] \<or> C a \<noteq> [] then Some (E a, B a, C a) else None)" for a
    unfolding bt_nat.get_group E_def B_def C_def by (auto simp: fold_push)
  have mem: "(a, v) \<in> set ?m \<longleftrightarrow> nmap_get ?m a = Some v" for a v
    using nmap_get_in_set [OF bt_nat.sorted_distinct [OF sorted]] by simp
  show "set (all_project_participations_by_did p d s) = {\<lparr>pp_account = a, pp_evaluation_ids = E a,
      pp_bid_ids = B a, pp_contribution_ids = C a\<rparr> | a. E a \<noteq> [] \<or> B a \<noteq> [] \<or> C a \<noteq> []}"
  proof (intro equalityI subsetI)
    fix r assume "r \<in> set (all_project_participations_by_did p d s)"
    then obtain x where x: "x \<in> set ?m" "r = ?rec x" unfolding R list.set_map by (rule imageE)
    obtain a v where av: "x = (a, v)" by (cases x)
    have "nmap_get ?m a = Some v" using x(1) unfolding av mem .
    then show "r \<in> {\<lparr>pp_account = a, pp_evaluation_ids = E a, pp_bid_ids = B a,
        pp_contribution_ids = C a\<rparr> | a. E a \<noteq> [] \<or> B a \<noteq> [] \<or> C a \<noteq> []}"
      using x(2) unfolding av get by (auto split: if_splits)
  next
    fix r assume "r \<in> {\<lparr>pp_account = a, pp_evaluation_ids = E a, pp_bid_ids = B a,
        pp_contribution_ids = C a\<rparr> | a. E a \<noteq> [] \<or> B a \<noteq> [] \<or> C a \<noteq> []}"
    then obtain a where r: "r = ?rec (a, E a, B a, C a)" "E a \<noteq> [] \<or> B a \<noteq> [] \<or> C a \<noteq> []" by auto
    then have "(a, E a, B a, C a) \<in> set ?m" unfolding mem get by auto
    then show "r \<in> set (all_project_participations_by_did p d s)" unfolding R r(1) list.set_map by (rule imageI)
  qed
qed

text \<open>
  The query returns every participation of a DID in a project and nothing else, one record for each account
  that has any, in the order of the accounts: the evaluations, bids and contributions of a record are those
  the storage has under the project, the account and that DID.
\<close>

theorem participations_of_did_complete:
  assumes wf: "nmap_wf (Evaluations s)" "nmap_wf (Bids s)" "nmap_wf (Contributions s)"
  shows "sorted_wrt (<) (map pp_account (all_project_participations_by_did p d s)) \<and>
    (\<forall>r\<in>set (all_project_participations_by_did p d s).
      set (pp_evaluation_ids r) = {i. \<exists>e. nmap_get (Evaluations s) (p, pp_account r, i) = Some e \<and> ev_did e = d} \<and>
      set (pp_bid_ids r) = {i. \<exists>b. nmap_get (Bids s) (p, pp_account r, i) = Some b \<and> bid_did b = d} \<and>
      set (pp_contribution_ids r) = {i. \<exists>c. nmap_get (Contributions s) (p, pp_account r, i) = Some c \<and> co_did c = d}) \<and>
    pp_account ` set (all_project_participations_by_did p d s) =
      {a. \<exists>i. (\<exists>e. nmap_get (Evaluations s) (p, a, i) = Some e \<and> ev_did e = d) \<or>
             (\<exists>b. nmap_get (Bids s) (p, a, i) = Some b \<and> bid_did b = d) \<or>
             (\<exists>c. nmap_get (Contributions s) (p, a, i) = Some c \<and> co_did c = d)}"
proof -
  let ?R = "all_project_participations_by_did p d s"
  note by_account = participations_by_account [of p d s]
  have ids: "{i. \<exists>e. nmap_get (Evaluations s) (p, a, i) = Some e \<and> ev_did e = d} = set (values_for a (ids_of_did ev_did p d (Evaluations s)))"
    "{i. \<exists>b. nmap_get (Bids s) (p, a, i) = Some b \<and> bid_did b = d} = set (values_for a (ids_of_did bid_did p d (Bids s)))"
    "{i. \<exists>c. nmap_get (Contributions s) (p, a, i) = Some c \<and> co_did c = d} = set (values_for a (ids_of_did co_did p d (Contributions s)))"
    for a using ids_of_did_iff wf by blast+
  have some: "{i. \<exists>v. nmap_get m (p, a, i) = Some v \<and> f v = d} = set xs \<Longrightarrow>
      (\<exists>i v. nmap_get m (p, a, i) = Some v \<and> f v = d) \<longleftrightarrow> xs \<noteq> []" for m a xs and f :: "'v \<Rightarrow> did"
    by (drule arg_cong [of _ _ "\<lambda>A. A = {}"]) (simp only: empty_Collect_eq set_empty, blast)
  have "\<forall>r\<in>set ?R.
      set (pp_evaluation_ids r) = set (values_for (pp_account r) (ids_of_did ev_did p d (Evaluations s))) \<and>
      set (pp_bid_ids r) = set (values_for (pp_account r) (ids_of_did bid_did p d (Bids s))) \<and>
      set (pp_contribution_ids r) = set (values_for (pp_account r) (ids_of_did co_did p d (Contributions s)))"
    unfolding by_account(2) by (clarsimp simp only: participation_ids.simps) simp
  moreover have "pp_account ` set ?R = {a. values_for a (ids_of_did ev_did p d (Evaluations s)) \<noteq> [] \<or>
      values_for a (ids_of_did bid_did p d (Bids s)) \<noteq> [] \<or> values_for a (ids_of_did co_did p d (Contributions s)) \<noteq> []}"
    unfolding by_account(2) by (force simp del: map_is_Nil_conv)
  ultimately show ?thesis
    using by_account(1) unfolding ids ex_disj_distrib some [OF ids(1)] some [OF ids(2)] some [OF ids(3)] by blast
qed

theorem participations_of_did_complete_witness:
  "pp_account ` set (all_project_participations_by_did 0 ''bidder'' demo_state) = {5, 6}"
  using participations_of_did_complete [of demo_state 0 "''bidder''"]
  by (auto simp: demo_state_def demo_bid_def nmap_wf_def nmap_get_def split: if_splits)

end
