(* ===== verification/Spec2Isabelle.thy ===== *)
theory Spec2Isabelle
  imports Linear_Release_Props Funding_Solvency_Props Dispenser Receiver On_Slash Staking_Round_Props Democracy_Claims
    Elections_Claims Funding_Api_Props
begin

text \<open>
  A verification library for the pallets of the Polimec node, a parachain on which projects raise funds. The runtime is
  a set of FRAME pallets, state machines over a shared key-value storage. Users call extrinsics, which run in a
  transaction; at the start of every block the runtime calls the hooks of the pallets. The pallets call each other
  through the traits of their configuration: \<^verbatim>\<open>funding\<close> holds and releases native tokens through \<^verbatim>\<open>linear-release\<close> and
  slashes evaluators, which \<^verbatim>\<open>on-slash-vesting\<close> turns into shorter vesting schedules; it checks credentials with
  \<^verbatim>\<open>polimec-common\<close> and sends migrations to the \<^verbatim>\<open>polimec-receiver\<close> of the project's own chain; \<^verbatim>\<open>dispenser\<close> gives new
  users the tokens to start with; \<^verbatim>\<open>parachain-staking\<close> selects and pays the collators; \<^verbatim>\<open>democracy\<close> and \<^verbatim>\<open>elections-phragmen\<close> govern the chain.

  \<^bold>\<open>How the code is modelled.\<close> A function of the code that can fail or writes to storage is a program of type
  \<open>('s, 'a) dprog\<close>, that is \<open>'s \<Rightarrow> (dispatch_error + 'a) \<times> 's\<close>, composed with \<open>sbind\<close> and \<open>seq\<close> in the order of the code
  (theory \<open>Prelude\<close>). Errors are values, with the error enums of the pallets in \<open>Frame\<close>; a panic is the error \<open>Panic\<close>.
  A failing program keeps what it wrote, as in the code; \<open>transactional\<close> rolls an extrinsic back. The storage of a
  pallet is a record that extends \<open>system\<close> (block number, and in \<open>ext\<close> the state of the code that is not part of the
  repository); a storage map is a partial map or, where its order of iteration matters, an \<open>nmap\<close>. Balances are natural
  numbers with the bound \<open>u128_max\<close>, block numbers and counters have the bound \<open>u32_max\<close>, and every operation is the
  saturating, checked or wrapping one that the code uses.

  \<^bold>\<open>Parameters.\<close> What the pallets call but the repository does not contain is a field of a configuration record: the
  currency and the assets (\<open>currency\<close>, \<open>fungible\<close>), the fixed-point and per-thing arithmetic (\<open>sp_arithmetic\<close>, with the exact
  \<open>plain_arith\<close> as an instance), credential verification, price oracle, message sending, scheduler, preimages, electorate,
  square root, session keys, the election algorithm \<open>seq_phragmen\<close>. The documented behaviour that a theorem needs is a named hypothesis: \<open>release_laws\<close>,
  \<open>hold_laws\<close>, \<open>transfer_and_hold_laws\<close>, \<open>transfer_on_hold_laws\<close>, \<open>mul_int_laws\<close>, \<open>fixed_laws\<close>, \<open>fixed_checked_laws\<close>, \<open>percent_laws\<close>,
  \<open>perquintill_laws\<close>, \<open>perbill_laws\<close>, \<open>bond_laws\<close>, \<open>new_schedule_laws\<close>, \<open>staking_laws\<close>, \<open>payout_laws\<close>, \<open>democracy_laws\<close>, \<open>isqrt_laws\<close>,
  \<open>elections_laws\<close>, \<open>ownership_laws\<close> (releasing a hold keeps what an account owns, slashing it does not), \<open>payment_laws\<close>. Each is met by the small ledgers that the witnesses run on (\<open>Funding_Demo\<close>, \<open>Democracy_Demo\<close>, and parts of the
  other theories).

  \<^bold>\<open>Shared theories.\<close>
  \<^item> \<open>Prelude\<close>: machine integers, the program combinators with the rules for what a program keeps (\<open>keeps\<close>), lists and maps,
    the interface \<open>storage_map\<close> of the storage maps with iteration.
  \<^item> \<open>Frame\<close>: accounts, hold reasons, origins, errors, the currency and the arithmetic with their laws.
  \<^item> \<open>Ordering\<close>: comparison functions (\<open>comparator\<close>), the stable \<open>sort_by\<close>, the binary search of Rust's slices.
  \<^item> \<open>Sorted_Vectors\<close>: vectors sorted by a key (\<open>sorted_vector\<close>): bisection finds exactly the keys that are present, and
    insertion where it stops keeps the order. The ordered set of the staking pallet and the votes of an account are instances.
  \<^item> \<open>Btree_Map\<close>: the \<^verbatim>\<open>BTreeMap\<close> of the standard library as far as the code uses it (entries, ranges, iteration in key order).

  \<^bold>\<open>linear-release\<close> (\<^verbatim>\<open>src/pallets/linear-release/src\<close>). \<open>Linear_Release\<close> models all of \<^verbatim>\<open>types.rs\<close>, \<^verbatim>\<open>impls.rs\<close> and the
  extrinsics of \<^verbatim>\<open>lib.rs\<close>. \<open>Linear_Release_Props\<close> shows what a vesting call does to schedules and holds, that merging keeps what is
  locked, that every storage entry stays non-empty, bounded and valid, and that the contract \<open>release_schedule\<close> which the
  funding pallet relies on (adding a schedule after \<^verbatim>\<open>can_add_release_schedule\<close> succeeds and locks what has not vested yet, also when the start is past) is met by the pallet.

  \<^bold>\<open>funding\<close> (\<^verbatim>\<open>src/pallets/funding/src\<close>).
  \<^item> \<open>Funding_Types\<close>: \<^verbatim>\<open>types.rs\<close> and \<^verbatim>\<open>traits.rs\<close>; \<open>Funding_State\<close>: storage, configuration, events of \<^verbatim>\<open>lib.rs\<close>; \<open>Funding_Misc\<close>:
    \<^verbatim>\<open>functions/misc.rs\<close>; \<open>Funding_Application\<close>, \<open>Funding_Auction\<close>, \<open>Funding_Settlement\<close>, \<open>Funding_Migration\<close>: the files \<^verbatim>\<open>1_application.rs\<close> to
    \<^verbatim>\<open>7_ct_migration.rs\<close>; \<open>Funding_Calls\<close>: the extrinsics; \<open>Credentials\<close>: the origin check of \<^verbatim>\<open>polimec-common\<close>;
    \<open>Funding_Api\<close>: the queries of \<^verbatim>\<open>runtime_api.rs\<close>.
  \<^item> \<open>Funding_Auction_Props\<close>: the auction sells the smaller of allocation and demand, higher and earlier bids first.
  \<^item> \<open>Funding_Price_Props\<close>, \<open>Funding_Reward_Props\<close>: the weighted average price exists and is bounded, fees and rewards stay
    within what they are cut from, an evaluation keeps the totals of its round, vesting durations and price conversions in closed form.
  \<^item> \<open>Funding_Lifecycle_Props\<close>: over all calls a project only moves along its lifecycle, except where \<^verbatim>\<open>end_funding\<close> does not check it;
    the handlers of HRMP messages change no status.
  \<^item> \<open>Funding_Participation_Props\<close>: a bid is cut along the price buckets (the loop is a \<open>function\<close> with a termination proof);
    contributions never take more than remains.
  \<^item> \<open>Funding_Solvency_Props\<close>: the amount held for evaluations is the sum of the bonds, over all calls.
  \<^item> \<open>Funding_Api_Props\<close>: a quote never costs more than was offered, the query for merge candidates finds a pair that can be merged
    whenever there is one, and the participations of an identity are reported completely.

  \<^bold>\<open>dispenser\<close>, \<^bold>\<open>polimec-receiver\<close>, \<^bold>\<open>on-slash-vesting\<close>. \<open>Dispenser\<close> (with the transaction extensions of \<^verbatim>\<open>extensions.rs\<close>), \<open>Receiver\<close> and
  \<open>On_Slash\<close> model the whole pallets and show: every identity is served once, every migration is executed once and its amount paid exactly once, and how a slash
  changes the schedules, including the panic on schedules that have ended.

  \<^bold>\<open>parachain-staking\<close> (\<^verbatim>\<open>src/pallets/parachain-staking/src\<close>).
  \<^item> \<open>Staking_Types\<close>, \<open>Staking_State\<close>, \<open>Staking_Candidate\<close>, \<open>Staking_Requests\<close>, \<open>Staking_Rounds\<close>, \<open>Staking_Calls\<close> model \<^verbatim>\<open>set.rs\<close>, \<^verbatim>\<open>types.rs\<close>,
    \<^verbatim>\<open>inflation.rs\<close>, \<^verbatim>\<open>auto_compound.rs\<close>, \<^verbatim>\<open>delegation_requests.rs\<close> and \<^verbatim>\<open>lib.rs\<close> with all extrinsics, the genesis and the hooks.
  \<^item> \<open>Staking_Lists\<close>: the ordered set refines a map; insertion into the top and bottom lists is a stable sort.
  \<^item> \<open>Staking_Invariant\<close>: the abstract state is a table of delegations; \<open>represents\<close> says what the storage must look like for a
    table. \<open>Staking_Candidate_Props\<close>, \<open>Staking_Delegator_Props\<close>, \<open>Staking_Calls_Props\<close>, \<open>Staking_Delegation_Props\<close>, \<open>Staking_Request_Props\<close>
    and \<open>Staking_Leave_Props\<close> prove it for each operation.
  \<^item> \<open>Staking_Refinement\<close>, \<open>Staking_Claims\<close>: every call refines the specification \<open>table_step\<close>, so in all reachable states the two copies
    of each delegation, the holds, the pool and the requests agree; a due revocation succeeds exactly when it leaves no delegation or
    enough stake. \<open>Staking_Limits\<close>: the number of delegations of an account stays within its limit.
  \<^item> \<open>Staking_Round_Props\<close>: the selection takes the candidates with the most stake, payouts stay within the reward of the
    round, up to the rounding, and come to an end.

  \<^bold>\<open>democracy\<close> (\<^verbatim>\<open>src/pallets/democracy/src\<close>).
  \<^item> \<open>Democracy_Types\<close> (\<^verbatim>\<open>types.rs\<close>, \<^verbatim>\<open>vote.rs\<close>, \<^verbatim>\<open>conviction.rs\<close>, \<^verbatim>\<open>vote_threshold.rs\<close>), \<open>Democracy\<close> (storage, internal functions and the
    block hook of \<^verbatim>\<open>lib.rs\<close>), \<open>Democracy_Calls\<close> (its 19 extrinsics).
  \<^item> \<open>Democracy_Vote_Props\<close>: the comparison of fractions by continued fractions is exact, thresholds are ordered and monotone, the
    one-byte encoding of a vote round-trips (on \<open>8 word\<close>).
  \<^item> \<open>Democracy_Books\<close>: the books that votes, delegations and tallies must agree with; \<open>Democracy_Vote_Effects\<close> and
    \<open>Democracy_Delegation_Effects\<close>: what each voting function does to them; \<open>Democracy_Invariant\<close>, \<open>Democracy_Blocks\<close>: every extrinsic and
    every block keeps them; \<open>Democracy_Claims\<close>: tallies count every vote once, freezes cover votes and conviction locks, a vote
    succeeds exactly under its conditions, every referendum is decided in the block in which it ends.

  \<^bold>\<open>elections-phragmen\<close> (\<^verbatim>\<open>src/pallets/elections-phragmen/src/lib.rs\<close>).
  \<^item> \<open>Elections\<close>: storage, genesis, all extrinsics, the election of a term, the checks of \<^verbatim>\<open>do_try_state\<close>.
  \<^item> \<open>Elections_Invariant\<close>, \<open>Elections_Result\<close>: every call, election and block keeps seats sorted and disjoint, deposits on hold and
    stakes frozen; \<open>Elections_Prime\<close>: the loops of the prime election compute a Borda count.
  \<^item> \<open>Elections_Claims\<close>: this for all states reachable from the genesis; the seats are filled by rank and the losers slashed;
    a deposit can always be taken back by renouncing; locked votes keep their stake and stay frozen.

  \<^bold>\<open>Bounds.\<close> No model uses fuel: every loop is a structural recursion over the list the code iterates over, or a \<open>function\<close> with a
  termination proof (the bidding loop, the buckets of the average price, the bisection, the continued fractions, the quote loop,
  the scan for unbaked referenda). Arithmetic is exact only below the bounds of its type. Where a theorem needs that, it says so: the
  democracy pallet is run by a finite set \<open>A\<close> of accounts with at most \<open>B\<close> tokens each such that six times all of it fits into a
  balance (\<open>capacity A B\<close>; six is the greatest conviction), and block numbers and referendum counters have not reached their last value.

  \<^bold>\<open>Not modelled.\<close> The off-chain worker \<^verbatim>\<open>oracle-ocw\<close> (HTTP requests and their retries); of \<^verbatim>\<open>funding\<close> the test instantiator, the benchmarks, the storage
  migrations and \<^verbatim>\<open>migrations_per_xcm_message_allowed\<close>, which measures an encoded message; storage migrations of
  the other pallets; generated weights (the weights that calls return are left out everywhere); node, runtimes and
  integration tests, which are wiring; the SCALE encoding, except for the hand-written one of a vote.
\<close>

end
